(* ===== verification/Go_Prelude.thy ===== *)
theory Go_Prelude
  imports Main "HOL-Library.Word"
begin

text \<open>
  Shared vocabulary of the development.  Go strings and byte slices are both lists of bytes; a byte
  is a value of type \<open>char\<close>.  Go's fixed-width integers are words.  The errors a Go function
  can return are values of \<open>goerr\<close>; a pair \<open>(value, err)\<close> with a nil error is \<open>Inr value\<close>,
  and \<open>Inl e\<close> stands for a non-nil error.  The theory also holds the interfaces several components
  share: an encoding with its inverse (\<open>codec\<close>) and a keyed table (\<open>table\<close>).
\<close>

type_synonym bytes = string
type_synonym u32 = "32 word"
type_synonym u64 = "64 word"

text \<open>
  The error values of the modelled packages.  \<open>Err msg\<close> is \<open>fmt.Errorf\<close> with the formatted text,
  \<open>Wrap msg e\<close> is \<open>fmt.Errorf\<close> with \<open>%w\<close>; the others are the sentinel errors.
\<close>

datatype goerr =
    EOF
  | ErrUnexpectedEOF
  | ErrClosedPipe
  | ErrShortWrite
  | ErrStreamNotFound
  | ErrStreamClosed
  | ErrInvalidStreamID
  | CtxErr
  | JsonErr
  | Err string
  | Wrap string goerr

type_synonym 'a result = "goerr + 'a"

text \<open>
  \<open>Error()\<close>, which \<open>fmt\<close> prints for \<open>%v\<close>.  The json package's messages depend on the input and are
  represented by one text; so are the two errors of a context.
\<close>

primrec err_text :: "goerr \<Rightarrow> string" where
  "err_text EOF = ''EOF''"
| "err_text ErrUnexpectedEOF = ''unexpected EOF''"
| "err_text ErrClosedPipe = ''io: read/write on closed pipe''"
| "err_text ErrShortWrite = ''short write''"
| "err_text ErrStreamNotFound = ''stream not found''"
| "err_text ErrStreamClosed = ''stream closed''"
| "err_text ErrInvalidStreamID = ''invalid stream ID''"
| "err_text CtxErr = ''context canceled''"
| "err_text JsonErr = ''invalid JSON''"
| "err_text (Err msg) = msg"
| "err_text (Wrap msg e) = msg @ '': '' @ err_text e"

named_theorems codec_simps \<open>decoder-after-encoder equations\<close>
named_theorems table_simps \<open>lookups after updates of the keyed tables\<close>
named_theorems op_defs \<open>definitions of the modelled operations\<close>

section \<open>Encodings\<close>

text \<open>
  An encoding of values into bytes with a decoder that inverts it on the values it supports.
  The wire formats of the program are stacked from such pairs.
\<close>

locale codec =
  fixes enc :: "'a \<Rightarrow> 'b"
    and dec :: "'b \<Rightarrow> 'a option"
    and ok :: "'a \<Rightarrow> bool"
  assumes dec_enc: "ok x \<Longrightarrow> dec (enc x) = Some x"
begin

lemma enc_inject: "ok x \<Longrightarrow> ok y \<Longrightarrow> enc x = enc y \<longleftrightarrow> x = y"
  by (metis dec_enc option.inject)

lemma map_dec_enc: "list_all ok xs \<Longrightarrow> map dec (map enc xs) = map Some xs"
  by (induction xs) (simp_all add: dec_enc)

lemma enc_inj_on: "inj_on enc (Collect ok)"
  by (auto simp: inj_on_def enc_inject)

end

text \<open>Stacking one encoding on another gives an encoding again.\<close>

locale codec_stack =
  outer: codec enc1 dec1 ok1 + inner: codec enc2 dec2 ok2
  for enc1 :: "'b \<Rightarrow> 'c" and dec1 ok1 and enc2 :: "'a \<Rightarrow> 'b" and dec2 ok2 +
  assumes enc_ok: "ok2 x \<Longrightarrow> ok1 (enc2 x)"
begin

lemma stacked: "ok2 x \<Longrightarrow> Option.bind (dec1 (enc1 (enc2 x))) dec2 = Some x"
  by (simp add: outer.dec_enc enc_ok inner.dec_enc)

end

sublocale codec_stack \<subseteq> both: codec "\<lambda>x. enc1 (enc2 x)" "\<lambda>b. Option.bind (dec1 b) dec2" ok2
  by unfold_locales (rule stacked)

section \<open>Keyed tables\<close>

text \<open>
  The program keeps its live objects in Go maps guarded by a mutex: streams by identifier,
  proxies and runs by name, pending requests by number.  Every such table offers lookup, insert
  and delete with these laws.
\<close>

locale table =
  fixes find :: "'t \<Rightarrow> 'k \<Rightarrow> 'v option"
    and ins :: "'k \<Rightarrow> 'v \<Rightarrow> 't \<Rightarrow> 't"
    and del :: "'k \<Rightarrow> 't \<Rightarrow> 't"
  assumes find_ins: "find (ins k v t) k' = (if k' = k then Some v else find t k')"
    and find_del: "find (del k t) k' = (if k' = k then None else find t k')"
begin

lemma find_ins_same: "find (ins k v t) k = Some v"
  by (simp add: find_ins)

lemma find_ins_other: "k' \<noteq> k \<Longrightarrow> find (ins k v t) k' = find t k'"
  by (simp add: find_ins)

lemma find_del_ins: "find t k = None \<Longrightarrow> find (del k (ins k v t)) k' = find t k'"
  by (simp add: find_del find_ins)

lemma find_fold_del: "find (fold del ks t) k = (if k \<in> set ks then None else find t k)"
  by (induction ks arbitrary: t) (auto simp: find_del)

lemma fold_del_all:
  assumes "\<And>k. find t k \<noteq> None \<Longrightarrow> k \<in> set ks"
  shows "find (fold del ks t) k = None"
  using assms [of k] by (cases "find t k") (auto simp: find_fold_del)

lemma find_dom_ins: "{k'. find (ins k v t) k' \<noteq> None} = insert k {k'. find t k' \<noteq> None}"
  by (auto simp: find_ins split: if_splits)

lemma find_dom_del: "{k'. find (del k t) k' \<noteq> None} = {k'. find t k' \<noteq> None} - {k}"
  by (auto simp: find_del split: if_splits)

end

text \<open>
  Go iterates over a map in an unspecified order.  An operation that ranges over a map takes that
  order as an argument, and \<open>iterates ks m\<close> says that it visits every key exactly once.
\<close>

definition iterates :: "'k list \<Rightarrow> ('k \<rightharpoonup> 'v) \<Rightarrow> bool" where
  "iterates ks m \<longleftrightarrow> distinct ks \<and> set ks = dom m"

lemma iterates_dom [intro]: "iterates ks m \<Longrightarrow> k \<in> set ks \<longleftrightarrow> k \<in> dom m"
  by (simp add: iterates_def)

lemma iterates_length: "iterates ks m \<Longrightarrow> length ks = card (dom m)"
  by (metis distinct_card iterates_def)

lemma iterates_exists: "finite (dom m) \<Longrightarrow> \<exists>ks. iterates ks m"
  by (metis finite_distinct_list iterates_def)

text \<open>Deleting every key of a map one by one empties it.\<close>

lemma fold_upd_None: "fold (\<lambda>k m. m(k := None)) ks m = m |` (- set ks)"
  by (induction ks arbitrary: m) (auto simp: restrict_map_def fun_eq_iff)

lemma fold_delete_iterates: "iterates ks m \<Longrightarrow> fold (\<lambda>k m. m(k := None)) ks m = Map.empty"
  by (auto simp: fold_upd_None iterates_def restrict_map_def fun_eq_iff dom_def)

section \<open>Big-endian 32-bit integers\<close>

text \<open>\<open>binary.BigEndian.PutUint32\<close> and \<open>Uint32\<close> on a four-byte slice.\<close>

definition put_u32 :: "u32 \<Rightarrow> bytes" where
  "put_u32 v = (let n = unat v in
     [char_of (n div 16777216), char_of (n div 65536 mod 256), char_of (n div 256 mod 256),
      char_of (n mod 256)])"

definition get_u32 :: "bytes \<Rightarrow> u32" where
  "get_u32 b = (case b of
      [b0, b1, b2, b3] \<Rightarrow>
        of_nat (((of_char b0 * 256 + of_char b1) * 256 + of_char b2) * 256 + of_char b3 :: nat)
    | _ \<Rightarrow> 0)"

lemma length_put_u32 [simp]: "length (put_u32 v) = 4"
  by (simp add: put_u32_def Let_def)

lemma put_u32_not_Nil [simp]: "put_u32 v \<noteq> []"
  by (simp add: put_u32_def Let_def)

lemma get_put_u32 [codec_simps, simp]: "get_u32 (put_u32 v) = v"
proof -
  define n where "n = unat v"
  have "n < 4294967296"
    using unsigned_less [of v] by (simp add: n_def)
  then have top: "n div 16777216 mod 256 = n div 16777216"
    by simp
  have s1: "n div 16777216 * 256 + n div 65536 mod 256 = n div 65536"
    using div_mod_decomp [of "n div 65536" 256] by (simp add: div_mult2_eq [symmetric])
  have s2: "n div 65536 * 256 + n div 256 mod 256 = n div 256"
    using div_mod_decomp [of "n div 256" 256] by (simp add: div_mult2_eq [symmetric])
  have s3: "n div 256 * 256 + n mod 256 = n"
    by simp
  have "get_u32 (put_u32 v) = of_nat (((n div 16777216 mod 256 * 256 + n div 65536 mod 256) * 256
      + n div 256 mod 256) * 256 + n mod 256)"
    by (simp add: get_u32_def put_u32_def Let_def n_def [symmetric] algebra_simps)
  also have "\<dots> = of_nat n"
    by (simp only: top s1 s2 s3)
  finally show ?thesis
    by (simp add: n_def)
qed

interpretation be32: codec put_u32 "\<lambda>b. if length b = 4 then Some (get_u32 b) else None" "\<lambda>_. True"
  by unfold_locales simp

section \<open>Decimal integers\<close>

text \<open>
  \<open>strconv.FormatInt(n, 10)\<close> and the digits part of \<open>strconv.ParseInt\<close>; used by the JSON encoder
  and by \<open>fmt\<close>'s \<open>%d\<close>.
\<close>

definition digit_char :: "nat \<Rightarrow> char" where
  "digit_char d = char_of (48 + d)"

definition is_digit :: "char \<Rightarrow> bool" where
  "is_digit c \<longleftrightarrow> 48 \<le> (of_char c :: nat) \<and> (of_char c :: nat) \<le> 57"

fun show_nat :: "nat \<Rightarrow> string" where
  "show_nat n = (if n < 10 then [digit_char n] else show_nat (n div 10) @ [digit_char (n mod 10)])"

declare show_nat.simps [simp del]

definition show_int :: "int \<Rightarrow> string" where
  "show_int i = (if i < 0 then CHR ''-'' # show_nat (nat (- i)) else show_nat (nat i))"

fun read_nat_acc :: "nat \<Rightarrow> string \<Rightarrow> nat option" where
  "read_nat_acc n [] = Some n"
| "read_nat_acc n (c # cs) =
     (if is_digit c then read_nat_acc (10 * n + (of_char c - 48)) cs else None)"

definition read_nat :: "string \<Rightarrow> nat option" where
  "read_nat s = (if s = [] then None else read_nat_acc 0 s)"

definition read_int :: "string \<Rightarrow> int option" where
  "read_int s = (case s of
      c # cs \<Rightarrow> if c = CHR ''-'' then map_option (\<lambda>n. - int n) (read_nat cs)
                else map_option int (read_nat s)
    | [] \<Rightarrow> None)"

lemma of_char_digit [simp]: "d < 10 \<Longrightarrow> (of_char (digit_char d) :: nat) = 48 + d"
  by (simp add: digit_char_def)

lemma is_digit_digit [simp]: "d < 10 \<Longrightarrow> is_digit (digit_char d)"
  by (simp add: is_digit_def)

lemma is_digit_minus [simp]: "\<not> is_digit (CHR ''-'')"
  by (simp add: is_digit_def)

lemma show_nat_not_Nil [simp]: "show_nat n \<noteq> []"
  by (subst show_nat.simps) simp

lemma show_nat_digits: "c \<in> set (show_nat n) \<Longrightarrow> is_digit c"
proof (induction n rule: show_nat.induct)
  case (1 n)
  then show ?case
    by (subst (asm) show_nat.simps) (auto split: if_splits)
qed

lemma read_nat_acc_append:
  "read_nat_acc k (xs @ [c]) =
     Option.bind (read_nat_acc k xs) (\<lambda>m. if is_digit c then Some (10 * m + (of_char c - 48)) else None)"
  by (induction xs arbitrary: k) auto

lemma read_nat_acc_show [codec_simps, simp]: "read_nat_acc 0 (show_nat n) = Some n"
proof (induction n rule: show_nat.induct)
  case (1 n)
  show ?case
  proof (cases "n < 10")
    case True
    then show ?thesis by (subst show_nat.simps) simp
  next
    case False
    with 1 show ?thesis
      by (subst show_nat.simps) (simp add: read_nat_acc_append)
  qed
qed

lemma read_show_nat [codec_simps, simp]: "read_nat (show_nat n) = Some n"
  by (simp add: read_nat_def)

lemma hd_show_nat_not_minus: "show_nat n = c # cs \<Longrightarrow> c \<noteq> CHR ''-''"
  using show_nat_digits [of c n] by auto

lemma read_show_int [codec_simps, simp]: "read_int (show_int i) = Some i"
proof (cases "i < 0")
  case True
  then show ?thesis by (simp add: show_int_def read_int_def)
next
  case False
  then have "show_int i = show_nat (nat i)" by (simp add: show_int_def)
  moreover obtain c cs where "show_nat (nat i) = c # cs"
    by (cases "show_nat (nat i)") auto
  ultimately show ?thesis
    using False hd_show_nat_not_minus read_show_nat [of "nat i"] by (auto simp: read_int_def)
qed

interpretation decimal: codec show_int read_int "\<lambda>_. True"
  by unfold_locales simp

section \<open>Small facts about lists and sums\<close>

lemma take_append_exact [simp]: "length xs = n \<Longrightarrow> take n (xs @ ys) = xs"
  by simp

lemma drop_append_exact [simp]: "length xs = n \<Longrightarrow> drop n (xs @ ys) = ys"
  by simp

lemma sum_case_Inl_conv: "(case x of Inl e \<Rightarrow> Inl e | Inr a \<Rightarrow> f a) = Inr b \<longleftrightarrow> (\<exists>a. x = Inr a \<and> f a = Inr b)"
  by (cases x) auto

end
