(* ===== verification/Go_IO.thy ===== *)
theory Go_IO
  imports Go_Prelude
begin

text \<open>
  Readers and writers.  An \<open>io.Reader\<close> over a state is a function that is asked for at most \<open>n\<close>
  bytes and answers with data, an error, or with \<open>RdBlock\<close> where the call would wait for the peer.
  An \<open>io.Writer\<close> answers with an optional error.  \<open>read_full\<close> is \<open>io.ReadFull\<close>.  \<open>conn\<close> is a
  connection whose incoming bytes arrive in chunks of any sizes and whose writes may be short, as
  \<open>net.Conn\<close> allows.
\<close>

datatype rd = RdData bytes | RdErr goerr | RdBlock

type_synonym 's reader = "nat \<Rightarrow> 's \<Rightarrow> rd \<times> 's"
type_synonym 's writer = "bytes \<Rightarrow> 's \<Rightarrow> goerr option \<times> 's"

text \<open>The outcome of \<open>io.ReadFull\<close>: all bytes, an error, or a wait for more input.\<close>

datatype full = FullOk bytes | FullErr goerr | FullBlock

text \<open>
  A read that returns no byte and no error makes \<open>io.ReadFull\<close> try again; the model gives up as
  blocked there.  The third argument is what has been read so far.
\<close>

function read_full :: "'s reader \<Rightarrow> nat \<Rightarrow> bytes \<Rightarrow> 's \<Rightarrow> full \<times> 's" where
  "read_full r n acc s =
     (if n = 0 then (FullOk acc, s)
      else (case r n s of
          (RdBlock, s') \<Rightarrow> (FullBlock, s')
        | (RdErr e, s') \<Rightarrow> (FullErr (if acc \<noteq> [] \<and> e = EOF then ErrUnexpectedEOF else e), s')
        | (RdData b, s') \<Rightarrow>
            if b = [] then (FullBlock, s') else read_full r (n - length b) (acc @ b) s'))"
  by pat_completeness auto
termination
  by (relation "measure (\<lambda>(r, n, acc, s). n)") auto

declare read_full.simps [simp del]

text \<open>
  A source of bytes: while bytes are pending, a read hands out a non-empty prefix of them.  Every
  framing of the program reads through \<open>io.ReadFull\<close>, so the laws below are all it relies on.
\<close>

locale byte_source =
  fixes rd :: "'s reader"
    and pending :: "'s \<Rightarrow> bytes"
    and wf :: "'s \<Rightarrow> bool"
  assumes rd_some: "wf s \<Longrightarrow> 0 < n \<Longrightarrow> pending s \<noteq> [] \<Longrightarrow>
     \<exists>b s'. rd n s = (RdData b, s') \<and> b \<noteq> [] \<and> length b \<le> n \<and> pending s = b @ pending s' \<and> wf s'"
begin

lemma read_full_pending:
  "wf s \<Longrightarrow> n \<le> length (pending s) \<Longrightarrow>
   \<exists>s'. read_full rd n acc s = (FullOk (acc @ take n (pending s)), s')
      \<and> pending s' = drop n (pending s) \<and> wf s'"
proof (induction n arbitrary: acc s rule: less_induct)
  case (less n)
  show ?case
  proof (cases "n = 0")
    case True
    then show ?thesis using less.prems by (simp add: read_full.simps)
  next
    case False
    then obtain b s' where b: "rd n s = (RdData b, s')" "b \<noteq> []" "length b \<le> n"
        "pending s = b @ pending s'" "wf s'"
      using rd_some [of s n] less.prems by fastforce
    then have "n - length b < n" "n - length b \<le> length (pending s')"
      using False less.prems by auto
    then obtain s2 where "read_full rd (n - length b) (acc @ b) s'
          = (FullOk ((acc @ b) @ take (n - length b) (pending s')), s2)"
        "pending s2 = drop (n - length b) (pending s')" "wf s2"
      using less.IH b(5) by blast
    moreover have "read_full rd n acc s = read_full rd (n - length b) (acc @ b) s'"
      using b(1,2) False by (subst read_full.simps) simp
    moreover have "b @ take (n - length b) (pending s') = take n (pending s)"
        "drop (n - length b) (pending s') = drop n (pending s)"
      using b(3,4) by simp_all
    ultimately show ?thesis by simp
  qed
qed

lemma read_full_exact:
  assumes "wf s" "pending s = b @ t"
  shows "\<exists>s'. read_full rd (length b) [] s = (FullOk b, s') \<and> pending s' = t \<and> wf s'"
  using read_full_pending [of s "length b" "[]"] assms by simp

end

text \<open>
  \<open>io.ReadAll\<close> (and the reading side of \<open>io.Copy\<close>) with a buffer of \<open>k\<close> bytes: \<open>Some (data, err)\<close> when
  the reader ended, with no error at the end of the input; \<open>None\<close> when it waits or the fuel is used up.
\<close>

fun read_all :: "'s reader \<Rightarrow> nat \<Rightarrow> nat \<Rightarrow> bytes \<Rightarrow> 's \<Rightarrow> (bytes \<times> goerr option) option \<times> 's" where
  "read_all r k 0 acc s = (None, s)"
| "read_all r k (Suc fuel) acc s = (case r k s of
      (RdData b, s') \<Rightarrow> read_all r k fuel (acc @ b) s'
    | (RdErr e, s') \<Rightarrow> (Some (acc, if e = EOF then None else Some e), s')
    | (RdBlock, s') \<Rightarrow> (None, s'))"

text \<open>A source whose end is marked: once the pending bytes are read, the reader reports the end.\<close>

locale byte_stream = byte_source +
  fixes ended :: "'a \<Rightarrow> bool"
  assumes ended_eof: "wf s \<Longrightarrow> ended s \<Longrightarrow> 0 < n \<Longrightarrow> pending s = [] \<Longrightarrow> \<exists>s'. rd n s = (RdErr EOF, s')"
    and ended_rd: "wf s \<Longrightarrow> ended s \<Longrightarrow> 0 < n \<Longrightarrow> pending s \<noteq> [] \<Longrightarrow> ended (snd (rd n s))"
begin

text \<open>One round per pending byte and one for the end are fuel enough.\<close>

lemma read_all_pending:
  "wf s \<Longrightarrow> ended s \<Longrightarrow> 0 < k \<Longrightarrow> length (pending s) < fuel \<Longrightarrow>
   \<exists>s'. read_all rd k fuel acc s = (Some (acc @ pending s, None), s')"
proof (induction fuel arbitrary: acc s)
  case (Suc fuel)
  show ?case
  proof (cases "pending s = []")
    case True
    then show ?thesis using ended_eof [of s k] Suc.prems by auto
  next
    case False
    then obtain b s' where b: "rd k s = (RdData b, s')" "b \<noteq> []" "pending s = b @ pending s'" "wf s'"
      using rd_some [of s k] Suc.prems by blast
    moreover have "ended s'"
      using ended_rd [of s k] Suc.prems False b(1) by simp
    moreover have "length (pending s') < fuel"
      using b(2,3) Suc.prems(4) by (cases b) auto
    ultimately show ?thesis
      using Suc.IH [of s' "acc @ b"] Suc.prems(3) by simp
  qed
qed simp

end

text \<open>
  A sink of bytes: a write of bytes the sink accepts appends all of them to what was sent.
\<close>

locale byte_sink =
  fixes wr :: "'s writer"
    and sent_bytes :: "'s \<Rightarrow> bytes"
    and accepts :: "bytes \<Rightarrow> 's \<Rightarrow> bool"
    and wf :: "'s \<Rightarrow> bool"
  assumes wr_ok: "wf s \<Longrightarrow> accepts b s \<Longrightarrow>
     \<exists>s'. wr b s = (None, s') \<and> sent_bytes s' = sent_bytes s @ b \<and> wf s'"
    and accepts_mono: "wf s \<Longrightarrow> accepts b s \<Longrightarrow> accepts b' s \<Longrightarrow> wr b s = (None, s') \<Longrightarrow> accepts b' s'"
begin

lemma wr_twice:
  assumes "wf s" "accepts b s" "accepts b' s"
  shows "\<exists>s1 s2. wr b s = (None, s1) \<and> wr b' s1 = (None, s2)
    \<and> sent_bytes s2 = sent_bytes s @ b @ b' \<and> wf s2"
proof -
  obtain s1 where s1: "wr b s = (None, s1)" "sent_bytes s1 = sent_bytes s @ b" "wf s1"
    using wr_ok [OF assms(1,2)] by blast
  have "accepts b' s1"
    using accepts_mono [OF assms s1(1)] .
  then obtain s2 where "wr b' s1 = (None, s2)" "sent_bytes s2 = sent_bytes s1 @ b'" "wf s2"
    using wr_ok [OF s1(3)] by blast
  with s1 show ?thesis by auto
qed

end

section \<open>Connections\<close>

text \<open>
  \<open>inbox\<close> holds the bytes in flight towards this end, chunk by chunk; \<open>fin\<close> is what a read
  reports once they are drained (\<open>None\<close>: the peer may still send).  \<open>sent\<close> holds the bytes written.
  \<open>wplan\<close> is the behaviour of the next writes, each \<open>(n, err)\<close>: how many bytes are taken and which
  error is reported; writes beyond the plan take everything.
\<close>

record conn =
  inbox :: "bytes list"
  fin :: "goerr option"
  sent :: bytes
  wplan :: "(nat \<times> goerr option) list"
  shut :: bool

definition conn_read :: "conn reader" where
  "conn_read n c =
     (if shut c then (RdErr ErrClosedPipe, c)
      else case inbox c of
          [] \<Rightarrow> (case fin c of None \<Rightarrow> (RdBlock, c) | Some e \<Rightarrow> (RdErr e, c))
        | b # bs \<Rightarrow> (RdData (take n b), c\<lparr>inbox := (if length b \<le> n then bs else drop n b # bs)\<rparr>))"

definition conn_write :: "bytes \<Rightarrow> conn \<Rightarrow> (nat \<times> goerr option) \<times> conn" where
  "conn_write p c =
     (if shut c then ((0, Some ErrClosedPipe), c)
      else case wplan c of
          [] \<Rightarrow> ((length p, None), c\<lparr>sent := sent c @ p\<rparr>)
        | (n, e) # pl \<Rightarrow> ((min n (length p), e), c\<lparr>sent := sent c @ take n p, wplan := pl\<rparr>))"

definition conn_close :: "conn \<Rightarrow> goerr option \<times> conn" where
  "conn_close c = (if shut c then (Some ErrClosedPipe, c) else (None, c\<lparr>shut := True\<rparr>))"

definition conn_of :: "bytes list \<Rightarrow> conn" where
  "conn_of bs = \<lparr>inbox = bs, fin = Some EOF, sent = [], wplan = [], shut = False\<rparr>"

definition conn_pending :: "conn \<Rightarrow> bytes" where
  "conn_pending c = concat (inbox c)"

definition conn_live :: "conn \<Rightarrow> bool" where
  "conn_live c \<longleftrightarrow> \<not> shut c \<and> [] \<notin> set (inbox c)"

text \<open>What reading changes: the incoming chunks only.\<close>

definition same_out :: "conn \<Rightarrow> conn \<Rightarrow> bool" where
  "same_out c c' \<longleftrightarrow> fin c' = fin c \<and> sent c' = sent c \<and> wplan c' = wplan c \<and> shut c' = shut c"

lemma same_out_refl [simp]: "same_out c c"
  by (simp add: same_out_def)

lemma conn_read_some:
  assumes "conn_live c" "0 < n" "conn_pending c \<noteq> []"
  shows "\<exists>b c'. conn_read n c = (RdData b, c') \<and> b \<noteq> [] \<and> length b \<le> n
    \<and> conn_pending c = b @ conn_pending c' \<and> conn_live c' \<and> same_out c c'"
proof -
  obtain b bs where inbox: "inbox c = b # bs" "b \<noteq> []"
    using assms by (cases "inbox c") (auto simp: conn_live_def conn_pending_def)
  then have "conn_read n c = (RdData (take n b), c\<lparr>inbox := (if length b \<le> n then bs else drop n b # bs)\<rparr>)"
    using assms by (simp add: conn_read_def conn_live_def)
  moreover have "take n b \<noteq> []" using assms inbox by simp
  ultimately show ?thesis
    using assms inbox by (auto simp: conn_live_def conn_pending_def same_out_def)
qed

interpretation conn_src: byte_source conn_read conn_pending conn_live
  by unfold_locales (use conn_read_some in blast)

text \<open>A reader that keeps the outgoing side keeps it through \<open>read_full\<close>.\<close>

lemma read_full_same_out:
  assumes "\<And>k c. same_out c (snd (conn_read k c))"
  shows "same_out c (snd (read_full conn_read n acc c))"
proof (induction n arbitrary: acc c rule: less_induct)
  case (less n)
  obtain x c' where x: "conn_read n c = (x, c')" by force
  have out: "same_out c c'" using assms [of c n] by (simp add: x)
  show ?case
  proof (cases x)
    case (RdData b)
    show ?thesis
    proof (cases "n = 0 \<or> b = []")
      case True
      then show ?thesis using x out RdData by (subst read_full.simps) auto
    next
      case False
      then have "same_out c' (snd (read_full conn_read (n - length b) (acc @ b) c'))"
        by (intro less.IH) simp
      moreover have "read_full conn_read n acc c = read_full conn_read (n - length b) (acc @ b) c'"
        using x RdData False by (subst read_full.simps) simp
      ultimately show ?thesis using out by (simp add: same_out_def)
    qed
  next
    case (RdErr e)
    then show ?thesis using x out by (subst read_full.simps) simp
  next
    case RdBlock
    then show ?thesis using x out by (subst read_full.simps) simp
  qed
qed

lemma conn_read_same_out: "same_out c (snd (conn_read n c))"
  by (auto simp: conn_read_def same_out_def split: list.splits option.splits)

lemma conn_read_full_same_out: "read_full conn_read n acc c = (x, c') \<Longrightarrow> same_out c c'"
  using read_full_same_out [OF conn_read_same_out, of c n acc] by simp

end
