(* ===== verification/Stream_Races.thy ===== *)
theory Stream_Races
  imports Streams
begin

text \<open>
  The interleavings of \<open>streamReader\<close> in \<open>multiplexer.go\<close>.  The read loop calls \<open>WriteData\<close>, which tests
  the flag under the lock and sends on the channel after releasing it; any number of goroutines call
  \<open>Close\<close>, which sets the flag under the lock and closes the channel after releasing it; the client's
  \<open>Read\<close> takes frames and, on the end marker, sets the flag and closes the channel under the lock.
  A send on a closed channel and a second close panic.
\<close>

datatype w_pc = WIdle | WSend bytes
datatype c_pc = CStart | CMarked | CDone
datatype r_pc = RIdle | REnd
datatype panic = SendPanic | ClosePanic

record race =
  rc_sr :: stream_reader
  rc_todo :: "bytes list"
  rc_w :: w_pc
  rc_c :: "c_pc list"
  rc_r :: r_pc
  rc_panic :: "panic option"

text \<open>The frames still to come from the connection and the number of goroutines that will close.\<close>

definition race_init :: "u32 \<Rightarrow> bytes list \<Rightarrow> nat \<Rightarrow> race" where
  "race_init i ds k = \<lparr>rc_sr = newStreamReader i, rc_todo = ds, rc_w = WIdle,
     rc_c = replicate k CStart, rc_r = RIdle, rc_panic = None\<rparr>"

inductive race_step :: "race \<Rightarrow> race \<Rightarrow> bool" where
  write_test: "rc_panic s = None \<Longrightarrow> rc_w s = WIdle \<Longrightarrow> rc_todo s = d # ds \<Longrightarrow>
    race_step s (if sr_closed (rc_sr s) then s\<lparr>rc_todo := ds\<rparr>
      else s\<lparr>rc_todo := ds, rc_w := WSend d,
             rc_sr := (rc_sr s)\<lparr>eofReceived := (eofReceived (rc_sr s) \<or> d = [])\<rparr>\<rparr>)"
| write_send: "rc_panic s = None \<Longrightarrow> rc_w s = WSend d \<Longrightarrow> chan_send d (rc_sr s) = Sent sr' \<Longrightarrow>
    race_step s (s\<lparr>rc_sr := sr', rc_w := WIdle\<rparr>)"
| write_panic: "rc_panic s = None \<Longrightarrow> rc_w s = WSend d \<Longrightarrow> chan_send d (rc_sr s) = SendOnClosed \<Longrightarrow>
    race_step s (s\<lparr>rc_panic := Some SendPanic\<rparr>)"
| close_mark: "rc_panic s = None \<Longrightarrow> c < length (rc_c s) \<Longrightarrow> rc_c s ! c = CStart \<Longrightarrow>
    race_step s (s\<lparr>rc_sr := (rc_sr s)\<lparr>sr_closed := True\<rparr>,
                   rc_c := (rc_c s)[c := (if sr_closed (rc_sr s) then CDone else CMarked)]\<rparr>)"
| close_chan: "rc_panic s = None \<Longrightarrow> c < length (rc_c s) \<Longrightarrow> rc_c s ! c = CMarked \<Longrightarrow>
    race_step s (if chanClosed (rc_sr s) then s\<lparr>rc_panic := Some ClosePanic\<rparr>
      else s\<lparr>rc_sr := (rc_sr s)\<lparr>chanClosed := True\<rparr>, rc_c := (rc_c s)[c := CDone]\<rparr>)"
| read_take: "rc_panic s = None \<Longrightarrow> rc_r s = RIdle \<Longrightarrow> dataChan (rc_sr s) = d # q \<Longrightarrow>
    race_step s (s\<lparr>rc_sr := (rc_sr s)\<lparr>dataChan := q\<rparr>, rc_r := (if d = [] then REnd else RIdle)\<rparr>)"
| read_end: "rc_panic s = None \<Longrightarrow> rc_r s = REnd \<Longrightarrow>
    race_step s (if sr_closed (rc_sr s) then s\<lparr>rc_r := RIdle\<rparr>
      else if chanClosed (rc_sr s) then s\<lparr>rc_panic := Some ClosePanic\<rparr>
      else s\<lparr>rc_sr := (rc_sr s)\<lparr>sr_closed := True, chanClosed := True\<rparr>, rc_r := RIdle\<rparr>)"

inductive_cases race_stepE: "race_step s s'"

definition race_reachable :: "race \<Rightarrow> race \<Rightarrow> bool" where
  "race_reachable s s' = race_step\<^sup>*\<^sup>* s s'"

section \<open>The channel is closed at most once\<close>

text \<open>
  Setting the flag decides who closes the channel: at most one goroutine is between the two halves of
  \<open>Close\<close>, and while one is, the flag is set and the channel is still open.
\<close>

definition race_inv :: "race \<Rightarrow> bool" where
  "race_inv s \<longleftrightarrow> (chanClosed (rc_sr s) \<longrightarrow> sr_closed (rc_sr s))
     \<and> (\<forall>c < length (rc_c s). rc_c s ! c = CMarked \<longrightarrow>
          sr_closed (rc_sr s) \<and> \<not> chanClosed (rc_sr s)
          \<and> (\<forall>c' < length (rc_c s). rc_c s ! c' = CMarked \<longrightarrow> c' = c))
     \<and> rc_panic s \<noteq> Some ClosePanic"

lemma race_inv_init: "race_inv (race_init i ds k)"
  by (simp add: race_inv_def race_init_def newStreamReader_def)

lemma chan_send_simps:
  "chan_send d sr = Sent sr' \<Longrightarrow> sr' = sr\<lparr>dataChan := dataChan sr @ [d]\<rparr> \<and> \<not> chanClosed sr"
  by (auto simp: chan_send_def split: if_splits)

lemma race_inv_step: "race_step s s' \<Longrightarrow> race_inv s \<Longrightarrow> race_inv s'"
proof (induction rule: race_step.induct)
  case (write_send s d sr')
  then show ?case by (auto simp: race_inv_def dest: chan_send_simps)
next
  case (close_mark s c)
  then show ?case by (auto simp: race_inv_def nth_list_update)
next
  case (close_chan s c)
  then show ?case by (auto simp: race_inv_def nth_list_update)
qed (auto simp: race_inv_def)

lemma race_inv_reachable: "race_reachable s s' \<Longrightarrow> race_inv s \<Longrightarrow> race_inv s'"
  unfolding race_reachable_def by (induction rule: rtranclp_induct) (auto intro: race_inv_step)

section \<open>An orderly end is safe\<close>

text \<open>
  If nobody calls \<open>Close\<close> and the peer sends nothing after its end marker, the marker is the last frame
  to pass, and the client's \<open>Read\<close> closes the channel only when the read loop is done with the stream.
\<close>

definition end_last :: "bytes list \<Rightarrow> bool" where
  "end_last ds \<longleftrightarrow> from_end ds \<in> {[], [[]]}"

definition quiet :: "race \<Rightarrow> bool" where
  "quiet s \<longleftrightarrow> rc_todo s = [] \<and> rc_w s = WIdle"

definition orderly :: "race \<Rightarrow> bool" where
  "orderly s \<longleftrightarrow> rc_c s = [] \<and> end_last (rc_todo s) \<and> (rc_w s = WSend [] \<longrightarrow> rc_todo s = [])
     \<and> ([] \<in> set (dataChan (rc_sr s)) \<or> rc_r s = REnd \<or> sr_closed (rc_sr s) \<longrightarrow> quiet s)
     \<and> (chanClosed (rc_sr s) \<longrightarrow> sr_closed (rc_sr s)) \<and> rc_panic s = None"

lemma end_last_Cons: "end_last (d # ds) \<longleftrightarrow> (if d = [] then ds = [] else end_last ds)"
  by (auto simp: end_last_def)

lemma end_last_Nil: "end_last []"
  by (simp add: end_last_def)

lemma orderly_step: "race_step s s' \<Longrightarrow> orderly s \<Longrightarrow> orderly s'"
proof (induction rule: race_step.induct)
  case (write_send s d sr')
  then show ?case by (auto simp: orderly_def quiet_def dest: chan_send_simps)
next
  case (write_panic s d)
  then show ?case by (auto simp: orderly_def quiet_def chan_send_def split: if_splits)
qed (auto simp: orderly_def quiet_def end_last_Cons end_last_Nil split: if_splits)

section \<open>Properties\<close>

text \<open>
  However \<open>WriteData\<close>, \<open>Read\<close> and any number of \<open>Close\<close> calls interleave, the data channel is
  closed at most once: the double-close panic cannot happen.
\<close>

theorem no_double_close:
  assumes "race_reachable (race_init i ds k) s"
  shows "rc_panic s \<noteq> Some ClosePanic"
  using race_inv_reachable [OF assms race_inv_init] by (simp add: race_inv_def)

theorem no_double_close_witness:
  "rc_panic ((race_init 3 [''a''] 2)\<lparr>rc_todo := [], rc_w := WSend ''a''\<rparr>) \<noteq> Some ClosePanic"
proof (rule no_double_close [of 3 "[''a'']" 2])
  show "race_reachable (race_init 3 [''a''] 2) ((race_init 3 [''a''] 2)\<lparr>rc_todo := [], rc_w := WSend ''a''\<rparr>)"
    unfolding race_reachable_def
    using write_test [of "race_init 3 [''a''] 2" "''a''" "[]"]
    by (simp add: race_init_def newStreamReader_def r_into_rtranclp)
qed

text \<open>
  A stream that ends in order (nobody calls \<open>Close\<close>, and the peer's end marker is its last frame)
  never panics the read loop, although the client's \<open>Read\<close> closes the channel.
\<close>

theorem orderly_end_no_panic:
  assumes "race_reachable (race_init i ds 0) s" "end_last ds"
  shows "rc_panic s = None"
proof -
  have "orderly (race_init i ds 0)"
    using assms(2) by (simp add: orderly_def race_init_def newStreamReader_def)
  with assms(1) have "orderly s"
    unfolding race_reachable_def by (induction rule: rtranclp_induct) (auto intro: orderly_step)
  then show ?thesis by (simp add: orderly_def)
qed

theorem orderly_end_witness: "rc_panic (race_init 3 [''a'', []] 0) = None"
  by (rule orderly_end_no_panic [of 3 "[''a'', []]"])
    (simp_all add: race_reachable_def end_last_def)

text \<open>
  A \<open>Close\<close> that runs between the flag test and the channel send of \<open>WriteData\<close> makes the read loop
  panic: a schedule of four steps reaches a send on the closed channel.
\<close>

theorem close_races_with_WriteData:
  "\<exists>s. race_reachable (race_init i (d # ds) 1) s \<and> rc_panic s = Some SendPanic"
proof -
  let ?s0 = "race_init i (d # ds) 1"
  let ?s1 = "?s0\<lparr>rc_todo := ds, rc_w := WSend d, rc_sr := (newStreamReader i)\<lparr>eofReceived := (d = [])\<rparr>\<rparr>"
  let ?s2 = "?s1\<lparr>rc_sr := (rc_sr ?s1)\<lparr>sr_closed := True\<rparr>, rc_c := [CMarked]\<rparr>"
  let ?s3 = "?s2\<lparr>rc_sr := (rc_sr ?s2)\<lparr>chanClosed := True\<rparr>, rc_c := [CDone]\<rparr>"
  let ?s4 = "?s3\<lparr>rc_panic := Some SendPanic\<rparr>"
  note race_start = race_init_def newStreamReader_def
  have "race_step ?s0 ?s1"
    using write_test [of ?s0 d ds] by (simp add: race_start)
  moreover have "race_step ?s1 ?s2"
    using close_mark [of ?s1 0] by (simp add: race_start)
  moreover have "race_step ?s2 ?s3"
    using close_chan [of ?s2 0] by (simp add: race_start)
  moreover have "race_step ?s3 ?s4"
    using write_panic [of ?s3 d] by (simp add: race_start chan_send_def)
  ultimately have "race_reachable ?s0 ?s4"
    unfolding race_reachable_def by (meson converse_rtranclp_into_rtranclp rtranclp.rtrancl_refl)
  then show ?thesis by (intro exI [of _ ?s4]) simp
qed

end
