(* ===== verification/Json.thy ===== *)
theory Json
  imports Go_Prelude
begin

text \<open>
  What the program uses of \<open>encoding/base64\<close> and \<open>encoding/json\<close>: the standard base64 alphabet
  with padding, JSON values, the compact text that \<open>json.Marshal\<close> writes (with its HTML-safe string
  escapes), the parser behind \<open>json.Unmarshal\<close> (white space, escapes, surrogate pairs, replacement
  of invalid UTF-8, the nesting limit of 10000) and the field-by-field decoding of an object into a
  Go struct (exact, then case-folded names, unknown fields ignored, \<open>null\<close> a no-op).  Nothing here
  models a line of the repository; the wire formats of the other theories are built on it.
\<close>

section \<open>Base64, standard alphabet\<close>

definition b64_char :: "nat \<Rightarrow> char" where
  "b64_char n = (if n < 26 then char_of (65 + n) else if n < 52 then char_of (71 + n)
     else if n < 62 then char_of (n - 4) else if n = 62 then CHR ''+'' else CHR ''/'')"

definition b64_val :: "char \<Rightarrow> nat option" where
  "b64_val c = (let b = of_char c :: nat in
     if 65 \<le> b \<and> b \<le> 90 then Some (b - 65)
     else if 97 \<le> b \<and> b \<le> 122 then Some (b - 71)
     else if 48 \<le> b \<and> b \<le> 57 then Some (b + 4)
     else if b = 43 then Some 62 else if b = 47 then Some 63 else None)"

fun b64_enc :: "bytes \<Rightarrow> string" where
  "b64_enc [] = []"
| "b64_enc [a] = (let x = of_char a in
     [b64_char (x div 4), b64_char (x mod 4 * 16), CHR ''='', CHR ''=''])"
| "b64_enc [a, b] = (let x = of_char a; y = of_char b in
     [b64_char (x div 4), b64_char (x mod 4 * 16 + y div 16), b64_char (y mod 16 * 4), CHR ''=''])"
| "b64_enc (a # b # c # r) = (let x = of_char a; y = of_char b; z = of_char c in
     b64_char (x div 4) # b64_char (x mod 4 * 16 + y div 16) # b64_char (y mod 16 * 4 + z div 64)
       # b64_char (z mod 64) # b64_enc r)"

fun b64_quads :: "string \<Rightarrow> bytes option" where
  "b64_quads [] = Some []"
| "b64_quads (w # x # y # z # r) = (case (b64_val w, b64_val x) of
     (Some p, Some q) \<Rightarrow>
       if y = CHR ''='' then
         (if z = CHR ''='' \<and> r = [] then Some [char_of (p * 4 + q div 16)] else None)
       else (case b64_val y of
           None \<Rightarrow> None
         | Some s \<Rightarrow>
             if z = CHR ''='' then
               (if r = [] then Some [char_of (p * 4 + q div 16), char_of (q mod 16 * 16 + s div 4)]
                else None)
             else (case b64_val z of
                 None \<Rightarrow> None
               | Some t \<Rightarrow> map_option (\<lambda>bs. char_of (p * 4 + q div 16)
                     # char_of (q mod 16 * 16 + s div 4) # char_of (s mod 4 * 64 + t) # bs)
                   (b64_quads r)))
   | _ \<Rightarrow> None)"
| "b64_quads _ = None"

text \<open>The decoder skips carriage returns and line feeds.\<close>

definition b64_dec :: "string \<Rightarrow> bytes option" where
  "b64_dec s = b64_quads (filter (\<lambda>c. c \<noteq> CHR 0x0A \<and> c \<noteq> CHR 0x0D) s)"

lemma of_char_b64:
  "n < 64 \<Longrightarrow> (of_char (b64_char n) :: nat) =
     (if n < 26 then 65 + n else if n < 52 then 71 + n else if n < 62 then n - 4
      else if n = 62 then 43 else 47)"
  by (simp add: b64_char_def)

lemma b64_val_char [simp]: "n < 64 \<Longrightarrow> b64_val (b64_char n) = Some n"
  by (auto simp: b64_val_def of_char_b64 Let_def)

lemma b64_char_plain:
  assumes "n < 64"
  shows "b64_char n \<noteq> CHR ''=''" "b64_char n \<noteq> CHR 0x0A" "b64_char n \<noteq> CHR 0x0D"
  using of_char_b64 [OF assms] assms by (auto split: if_splits)

lemma of_char_less [simp]: "(of_char c :: nat) < 256"
  using mod_less_divisor [of 256 "of_char c :: nat"] by simp

lemma b64_quads_enc: "b64_quads (b64_enc bs) = Some bs"
proof (induction bs rule: b64_enc.induct)
  case (2 a)
  have "(of_char a :: nat) div 4 < 64" by (simp add: div_less_iff_less_mult)
  then show ?case by (simp add: Let_def)
next
  case (3 a b)
  have "(of_char a :: nat) div 4 < 64" by (simp add: div_less_iff_less_mult)
  moreover have "(of_char b :: nat) div 16 < 16" by (simp add: div_less_iff_less_mult)
  ultimately show ?case by (simp add: Let_def b64_char_plain)
next
  case (4 a b c r)
  have "(of_char a :: nat) div 4 < 64" by (simp add: div_less_iff_less_mult)
  moreover have "(of_char b :: nat) div 16 < 16" by (simp add: div_less_iff_less_mult)
  moreover have "(of_char c :: nat) div 64 < 4" by (simp add: div_less_iff_less_mult)
  ultimately show ?case using 4 by (simp add: Let_def b64_char_plain)
qed simp

lemma b64_enc_no_newline: "c \<in> set (b64_enc bs) \<Longrightarrow> c \<noteq> CHR 0x0A \<and> c \<noteq> CHR 0x0D"
proof (induction bs rule: b64_enc.induct)
  case (2 a)
  have "(of_char a :: nat) div 4 < 64" by (simp add: div_less_iff_less_mult)
  with 2 show ?case by (auto simp: Let_def b64_char_plain)
next
  case (3 a b)
  have "(of_char a :: nat) div 4 < 64" by (simp add: div_less_iff_less_mult)
  moreover have "(of_char b :: nat) div 16 < 16" by (simp add: div_less_iff_less_mult)
  ultimately show ?case using 3 by (auto simp: Let_def b64_char_plain)
next
  case (4 a b c' r)
  have "(of_char a :: nat) div 4 < 64" by (simp add: div_less_iff_less_mult)
  moreover have "(of_char b :: nat) div 16 < 16" by (simp add: div_less_iff_less_mult)
  moreover have "(of_char c' :: nat) div 64 < 4" by (simp add: div_less_iff_less_mult)
  ultimately show ?case using 4 by (auto simp: Let_def b64_char_plain)
qed simp

lemma b64_dec_enc [codec_simps, simp]: "b64_dec (b64_enc bs) = Some bs"
proof -
  have "filter (\<lambda>c. c \<noteq> CHR 0x0A \<and> c \<noteq> CHR 0x0D) (b64_enc bs) = b64_enc bs"
    using b64_enc_no_newline by (intro filter_True) blast
  then show ?thesis by (simp add: b64_dec_def b64_quads_enc)
qed

interpretation base64: codec b64_enc b64_dec "\<lambda>_. True"
  by unfold_locales simp

section \<open>JSON values and their text\<close>

text \<open>
  A number keeps its literal, an object its members in order with duplicates, as the decoder of
  \<open>encoding/json\<close> meets them.
\<close>

datatype json = JNull | JBool bool | JNum string | JStr bytes | JArr "json list" | JObj "(bytes \<times> json) list"

subsection \<open>UTF-8\<close>

text \<open>
  The table of \<open>unicode/utf8\<close>: for a lead byte, the number of bytes of its encoding (0 for an
  invalid lead byte) and the range its second byte must lie in.
\<close>

definition utf8_lead :: "nat \<Rightarrow> nat \<times> nat \<times> nat" where
  "utf8_lead b =
     (if b < 128 then (1, 0, 255)
      else if b < 194 then (0, 0, 0)
      else if b < 224 then (2, 128, 191)
      else if b = 224 then (3, 160, 191)
      else if b = 237 then (3, 128, 159)
      else if b < 240 then (3, 128, 191)
      else if b = 240 then (4, 144, 191)
      else if b < 244 then (4, 128, 191)
      else if b = 244 then (4, 128, 143)
      else (0, 0, 0))"

definition utf8_cont :: "char \<Rightarrow> bool" where
  "utf8_cont c \<longleftrightarrow> 128 \<le> (of_char c :: nat) \<and> (of_char c :: nat) \<le> 191"

text \<open>
  The number of bytes of the rune at the front of a string, 0 where \<open>utf8.DecodeRune\<close> reports an
  invalid encoding.
\<close>

definition utf8_len :: "bytes \<Rightarrow> nat" where
  "utf8_len s = (case s of [] \<Rightarrow> 0
     | c # cs \<Rightarrow> (case utf8_lead (of_char c) of (n, lo, hi) \<Rightarrow>
         if n \<le> length s \<and> (2 \<le> n \<longrightarrow> lo \<le> of_char (s ! 1) \<and> of_char (s ! 1) \<le> hi)
            \<and> list_all utf8_cont (take (n - 2) (drop 2 s)) then n else 0))"

definition utf8_replacement :: bytes where
  "utf8_replacement = [CHR 0xEF, CHR 0xBF, CHR 0xBD]"

text \<open>\<open>utf8.AppendRune\<close> for the code points a JSON escape can name.\<close>

definition utf8_rune :: "nat \<Rightarrow> bytes" where
  "utf8_rune r =
     (if r < 128 then [char_of r]
      else if r < 2048 then [char_of (192 + r div 64), char_of (128 + r mod 64)]
      else if 55296 \<le> r \<and> r < 57344 \<or> 1114112 \<le> r then utf8_replacement
      else if r < 65536 then
        [char_of (224 + r div 4096), char_of (128 + r div 64 mod 64), char_of (128 + r mod 64)]
      else [char_of (240 + r div 262144), char_of (128 + r div 4096 mod 64),
            char_of (128 + r div 64 mod 64), char_of (128 + r mod 64)])"

lemma utf8_len_le: "utf8_len s \<le> length s"
  by (auto simp: utf8_len_def split: list.splits prod.splits)

text \<open>The length of the first rune depends on the bytes of that rune only.\<close>

lemma utf8_len_take:
  assumes n: "utf8_len s = n" "n \<noteq> 0"
  shows "utf8_len (take n s @ t) = n"
proof -
  obtain c cs where s: "s = c # cs" using n by (cases s) (auto simp: utf8_len_def)
  obtain m lo hi where lead: "utf8_lead (of_char c) = (m, lo, hi)" by (metis prod_cases3)
  have m: "m = n" "n \<le> length s" "2 \<le> n \<Longrightarrow> lo \<le> of_char (s ! 1) \<and> of_char (s ! 1) \<le> hi"
      "list_all utf8_cont (take (n - 2) (drop 2 s))"
    using n by (auto simp: utf8_len_def s lead split: if_splits)
  define w where "w = take n s @ t"
  obtain ws where w: "w = c # ws"
    using n s by (cases n) (auto simp: w_def)
  have "n \<le> length w"
    using m(2) by (simp add: w_def)
  moreover have "w ! 1 = s ! 1" if "2 \<le> n"
    using that m(2) by (simp add: w_def nth_append)
  moreover have "take (n - 2) (drop 2 w) = take (n - 2) (drop 2 s)"
    using m(2) by (cases "n = 1") (simp_all add: w_def drop_take)
  ultimately have "utf8_len w = n"
    using m by (simp add: utf8_len_def lead w)
  then show ?thesis by (simp add: w_def)
qed

subsection \<open>String literals\<close>

definition hex_char :: "nat \<Rightarrow> char" where
  "hex_char n = (if n < 10 then char_of (48 + n) else char_of (87 + n))"

definition hex_val :: "char \<Rightarrow> nat option" where
  "hex_val c = (let b = of_char c :: nat in
     if 48 \<le> b \<and> b \<le> 57 then Some (b - 48)
     else if 97 \<le> b \<and> b \<le> 102 then Some (b - 87)
     else if 65 \<le> b \<and> b \<le> 70 then Some (b - 55) else None)"

fun hex4 :: "string \<Rightarrow> (nat \<times> string) option" where
  "hex4 (a # b # c # d # r) = (case (hex_val a, hex_val b, hex_val c, hex_val d) of
     (Some w, Some x, Some y, Some z) \<Rightarrow> Some (((w * 16 + x) * 16 + y) * 16 + z, r)
   | _ \<Rightarrow> None)"
| "hex4 _ = None"

text \<open>The escapes of one ASCII byte, HTML-safe as \<open>json.Marshal\<close> writes them.\<close>

definition esc_ascii :: "char \<Rightarrow> string" where
  "esc_ascii c = (let b = of_char c :: nat in
     if b = 92 \<or> b = 34 then [CHR 0x5C, c]
     else if b = 8 then [CHR 0x5C, CHR ''b'']
     else if b = 12 then [CHR 0x5C, CHR ''f'']
     else if b = 10 then [CHR 0x5C, CHR ''n'']
     else if b = 13 then [CHR 0x5C, CHR ''r'']
     else if b = 9 then [CHR 0x5C, CHR ''t'']
     else if b < 32 \<or> b = 38 \<or> b = 60 \<or> b = 62 then
       [CHR 0x5C, CHR ''u'', CHR ''0'', CHR ''0'', hex_char (b div 16), hex_char (b mod 16)]
     else [c])"

definition esc_rune :: "bytes \<Rightarrow> string" where
  "esc_rune s =
     (if s = [CHR 0xE2, CHR 0x80, CHR 0xA8] then CHR 0x5C # ''u2028''
      else if s = [CHR 0xE2, CHR 0x80, CHR 0xA9] then CHR 0x5C # ''u2029''
      else s)"

function json_esc :: "bytes \<Rightarrow> string" where
  "json_esc [] = []"
| "json_esc (c # cs) =
     (if (of_char c :: nat) < 128 then esc_ascii c @ json_esc cs
      else let n = utf8_len (c # cs) in
        if n = 0 then CHR 0x5C # ''ufffd'' @ json_esc cs
        else esc_rune (take n (c # cs)) @ json_esc (drop (n - 1) cs))"
  by pat_completeness auto
termination by (relation "measure length") auto

function valid_utf8 :: "bytes \<Rightarrow> bool" where
  "valid_utf8 [] = True"
| "valid_utf8 (c # cs) =
     (utf8_len (c # cs) \<noteq> 0 \<and> valid_utf8 (drop (utf8_len (c # cs) - 1) cs))"
  by pat_completeness auto
termination by (relation "measure length") auto

text \<open>What follows a backslash: the bytes it stands for and the rest of the input.\<close>

definition json_escape :: "string \<Rightarrow> (bytes \<times> string) option" where
  "json_escape s = (case s of [] \<Rightarrow> None | e # r \<Rightarrow>
     if e \<in> {CHR 0x22, CHR 0x5C, CHR ''/''} then Some ([e], r)
     else if e = CHR ''b'' then Some ([CHR 0x08], r)
     else if e = CHR ''f'' then Some ([CHR 0x0C], r)
     else if e = CHR ''n'' then Some ([CHR 0x0A], r)
     else if e = CHR ''r'' then Some ([CHR 0x0D], r)
     else if e = CHR ''t'' then Some ([CHR 0x09], r)
     else if e = CHR ''u'' then
       (case hex4 r of None \<Rightarrow> None
        | Some (u, r') \<Rightarrow>
            if 55296 \<le> u \<and> u < 57344 then
              (case r' of
                 b # v # r2 \<Rightarrow>
                   if b = CHR 0x5C \<and> v = CHR ''u'' then
                     (case hex4 r2 of
                        Some (u2, r3) \<Rightarrow>
                          if u < 56320 \<and> 56320 \<le> u2 \<and> u2 < 57344
                          then Some (utf8_rune (65536 + (u - 55296) * 1024 + (u2 - 56320)), r3)
                          else Some (utf8_replacement, r')
                      | None \<Rightarrow> Some (utf8_replacement, r'))
                   else Some (utf8_replacement, r')
               | _ \<Rightarrow> Some (utf8_replacement, r'))
            else Some (utf8_rune u, r'))
     else None)"

lemma hex4_length: "hex4 s = Some (u, r) \<Longrightarrow> length r < length s"
  by (induction s rule: hex4.induct) (auto split: option.splits)

lemma json_escape_length: "json_escape s = Some (b, r) \<Longrightarrow> length r < length s"
  by (auto simp: json_escape_def dest!: hex4_length split: list.splits if_splits option.splits)

function json_str :: "string \<Rightarrow> (bytes \<times> string) option" where
  "json_str [] = None"
| "json_str (c # cs) =
     (if c = CHR 0x22 then Some ([], cs)
      else if c = CHR 0x5C then
        (case json_escape cs of None \<Rightarrow> None
         | Some (b, r) \<Rightarrow> map_option (map_prod ((@) b) id) (json_str r))
      else if (of_char c :: nat) < 32 then None
      else let n = utf8_len (c # cs) in
        if n = 0 then map_option (map_prod ((@) utf8_replacement) id) (json_str cs)
        else map_option (map_prod ((@) (take n (c # cs))) id) (json_str (drop (n - 1) cs)))"
  by pat_completeness auto
termination
  by (relation "measure length") (auto dest: json_escape_length)

definition json_quote :: "bytes \<Rightarrow> string" where
  "json_quote s = CHR 0x22 # json_esc s @ [CHR 0x22]"

lemma hex_val_char [simp]: "n < 16 \<Longrightarrow> hex_val (hex_char n) = Some n"
  by (auto simp: hex_val_def hex_char_def Let_def)

lemma utf8_len_ascii: "(of_char c :: nat) < 128 \<Longrightarrow> utf8_len (c # t) = 1"
  by (simp add: utf8_len_def utf8_lead_def)

lemma char_eq_of_char: "c = d \<longleftrightarrow> (of_char c :: nat) = of_char d"
  by simp

lemma hex4_control:
  "b < 256 \<Longrightarrow> hex4 (CHR ''0'' # CHR ''0'' # hex_char (b div 16) # hex_char (b mod 16) # t) = Some (b, t)"
proof -
  assume "b < 256"
  then have "hex_val (hex_char (b div 16)) = Some (b div 16)" by simp
  moreover have "hex_val (CHR ''0'') = Some 0" by (simp add: hex_val_def)
  ultimately show ?thesis by simp
qed

lemma json_str_plain:
  "(of_char c :: nat) < 128 \<Longrightarrow> 32 \<le> (of_char c :: nat) \<Longrightarrow> c \<noteq> CHR 0x22 \<Longrightarrow> c \<noteq> CHR 0x5C \<Longrightarrow>
   json_str (c # t) = map_option (map_prod ((@) [c]) id) (json_str t)"
  by (simp add: utf8_len_ascii)

lemma json_str_escaped:
  "json_escape s = Some (b, t) \<Longrightarrow>
   json_str (CHR 0x5C # s) = map_option (map_prod ((@) b) id) (json_str t)"
  by simp

lemma json_escape_control:
  assumes "(of_char c :: nat) < 128"
  shows "json_escape (CHR ''u'' # CHR ''0'' # CHR ''0'' # hex_char (of_char c div 16)
           # hex_char (of_char c mod 16) # t) = Some ([c], t)"
  using assms by (simp add: json_escape_def hex4_control utf8_rune_def del: hex4.simps)

lemma json_str_esc_ascii:
  assumes c: "(of_char c :: nat) < 128"
  shows "json_str (esc_ascii c @ t) = map_option (map_prod ((@) [c]) id) (json_str t)"
proof -
  let ?b = "of_char c :: nat"
  have char: "c = char_of ?b" by simp
  consider "?b = 92 \<or> ?b = 34" | "?b = 8" | "?b = 12" | "?b = 10" | "?b = 13" | "?b = 9"
    | "?b < 32 \<or> ?b = 38 \<or> ?b = 60 \<or> ?b = 62" "?b \<notin> {8, 9, 10, 12, 13}"
    | "32 \<le> ?b" "?b \<notin> {34, 38, 60, 62, 92}"
    by fastforce
  then show ?thesis
  proof cases
    case 1
    then have "c = CHR 0x5C \<or> c = CHR 0x22"
      by (simp add: char_eq_of_char del: of_char_eq_iff)
    then have "json_escape (c # t) = Some ([c], t)" by (auto simp: json_escape_def)
    then show ?thesis using 1 json_str_escaped by (simp add: esc_ascii_def Let_def)
  next
    case 2
    then have "c = CHR 0x08" by (simp add: char_eq_of_char del: of_char_eq_iff)
    then show ?thesis by (simp add: esc_ascii_def json_escape_def)
  next
    case 3
    then have "c = CHR 0x0C" by (simp add: char_eq_of_char del: of_char_eq_iff)
    then show ?thesis by (simp add: esc_ascii_def json_escape_def)
  next
    case 4
    then have "c = CHR 0x0A" by (simp add: char_eq_of_char del: of_char_eq_iff)
    then show ?thesis by (simp add: esc_ascii_def json_escape_def)
  next
    case 5
    then have "c = CHR 0x0D" by (simp add: char_eq_of_char del: of_char_eq_iff)
    then show ?thesis by (simp add: esc_ascii_def json_escape_def)
  next
    case 6
    then have "c = CHR 0x09" by (simp add: char_eq_of_char del: of_char_eq_iff)
    then show ?thesis by (simp add: esc_ascii_def json_escape_def)
  next
    case 7
    then have "esc_ascii c @ t = CHR 0x5C # CHR ''u'' # CHR ''0'' # CHR ''0''
        # hex_char (?b div 16) # hex_char (?b mod 16) # t"
      by (auto simp: esc_ascii_def Let_def)
    then show ?thesis using json_str_escaped [OF json_escape_control [OF c]] by simp
  next
    case 8
    then have "esc_ascii c = [c]" by (simp add: esc_ascii_def Let_def)
    moreover have "c \<noteq> CHR 0x22" "c \<noteq> CHR 0x5C"
      using 8 by (auto simp: char_eq_of_char simp del: of_char_eq_iff)
    ultimately show ?thesis using json_str_plain [OF c] 8 by simp
  qed
qed

lemma utf8_len_lead:
  assumes "utf8_len (c # cs) = n" "n \<noteq> 0" "128 \<le> (of_char c :: nat)"
  shows "2 \<le> n" "n \<le> Suc (length cs)"
  using assms utf8_len_le [of "c # cs"]
  by (auto simp: utf8_len_def utf8_lead_def split: if_splits)

lemma json_str_multibyte:
  assumes n: "utf8_len (c # cs) = n" "n \<noteq> 0" and c: "128 \<le> (of_char c :: nat)"
  shows "json_str (take n (c # cs) @ t) = map_option (map_prod ((@) (take n (c # cs))) id) (json_str t)"
proof -
  let ?w = "take n (c # cs) @ t"
  have w: "?w = c # (take (n - 1) cs @ t)" using n by (cases n) auto
  have len: "utf8_len ?w = n" using utf8_len_take n by blast
  have le: "n \<le> Suc (length cs)" using utf8_len_lead n c by blast
  have "take n ?w = take n (c # cs)" "drop (n - 1) (take (n - 1) cs @ t) = t"
    using le by auto
  moreover have "c \<noteq> CHR 0x22" "c \<noteq> CHR 0x5C" "\<not> (of_char c :: nat) < 32"
    using c by auto
  ultimately show ?thesis using len n by (simp add: w Let_def)
qed

lemma json_str_esc_rune:
  assumes n: "utf8_len (c # cs) = n" "n \<noteq> 0" and c: "128 \<le> (of_char c :: nat)"
  shows "json_str (esc_rune (take n (c # cs)) @ t)
    = map_option (map_prod ((@) (take n (c # cs))) id) (json_str t)"
proof (cases "take n (c # cs) \<in> {[CHR 0xE2, CHR 0x80, CHR 0xA8], [CHR 0xE2, CHR 0x80, CHR 0xA9]}")
  case True
  have "char_of (226 :: nat) = CHR 0xE2" "char_of (128 :: nat) = CHR 0x80"
      "char_of (168 :: nat) = CHR 0xA8" "char_of (169 :: nat) = CHR 0xA9"
    by (simp_all add: char_eq_of_char del: of_char_eq_iff)
  with True show ?thesis
    by (auto simp: esc_rune_def json_escape_def hex_val_def utf8_rune_def)
next
  case False
  then show ?thesis using json_str_multibyte [OF assms] by (auto simp: esc_rune_def)
qed

text \<open>Decoding a string literal gives back the string, for every valid UTF-8 string.\<close>

lemma json_str_esc: "valid_utf8 s \<Longrightarrow> json_str (json_esc s @ CHR 0x22 # t) = Some (s, t)"
proof (induction s rule: json_esc.induct)
  case 1
  show ?case by simp
next
  case (2 c cs)
  define n where "n = utf8_len (c # cs)"
  have valid: "n \<noteq> 0" "valid_utf8 (drop (n - 1) cs)"
    using "2.prems" by (simp_all add: n_def)
  show ?case
  proof (cases "(of_char c :: nat) < 128")
    case True
    then have "valid_utf8 cs" using valid utf8_len_ascii [OF True, of cs] by (simp add: n_def)
    with True "2.IH"(1) show ?thesis by (simp add: json_str_esc_ascii del: json_str.simps)
  next
    case False
    then have "json_str (json_esc (drop (n - 1) cs) @ CHR 0x22 # t) = Some (drop (n - 1) cs, t)"
      using "2.IH"(3) valid n_def by metis
    moreover have "take n (c # cs) @ drop (n - 1) cs = c # cs"
      using valid(1) by (cases n) auto
    ultimately show ?thesis
      using False valid(1) json_str_esc_rune [OF n_def [symmetric], of "json_esc (drop (n - 1) cs) @ CHR 0x22 # t"]
      by (simp add: n_def [symmetric] Let_def del: json_str.simps)
  qed
qed

lemma json_str_quote: "valid_utf8 s \<Longrightarrow> json_str (json_esc s @ [CHR 0x22] @ t) = Some (s, t)"
  using json_str_esc by simp

declare json_str.simps [simp del] json_esc.simps(2) [simp del]

subsection \<open>Printing\<close>

fun commas :: "string list \<Rightarrow> string" where
  "commas [] = []"
| "commas [x] = x"
| "commas (x # y # r) = x @ CHR '','' # commas (y # r)"

fun json_text :: "json \<Rightarrow> string" where
  "json_text JNull = ''null''"
| "json_text (JBool b) = (if b then ''true'' else ''false'')"
| "json_text (JNum l) = l"
| "json_text (JStr s) = json_quote s"
| "json_text (JArr vs) = CHR ''['' # commas (map json_text vs) @ '']''"
| "json_text (JObj ms) =
     CHR ''{'' # commas (map (\<lambda>(k, v). json_quote k @ CHR '':'' # json_text v) ms) @ ''}''"

fun json_depth :: "json \<Rightarrow> nat" where
  "json_depth (JArr vs) = Suc (foldr max (map json_depth vs) 0)"
| "json_depth (JObj ms) = Suc (foldr max (map (\<lambda>(k, v). json_depth v) ms) 0)"
| "json_depth _ = 0"

subsection \<open>Parsing\<close>

definition is_ws :: "char \<Rightarrow> bool" where
  "is_ws c \<longleftrightarrow> c \<in> {CHR '' '', CHR 0x09, CHR 0x0A, CHR 0x0D}"

definition skip_ws :: "string \<Rightarrow> string" where
  "skip_ws = dropWhile is_ws"

text \<open>
  A number literal is the longest run of number characters, which then has to have the form the
  grammar asks for.
\<close>

definition num_char :: "char \<Rightarrow> bool" where
  "num_char c \<longleftrightarrow> is_digit c \<or> c \<in> {CHR ''-'', CHR ''+'', CHR ''.'', CHR ''e'', CHR ''E''}"

definition exp_ok :: "string \<Rightarrow> bool" where
  "exp_ok s = (case s of [] \<Rightarrow> True | c # r \<Rightarrow> c \<in> {CHR ''e'', CHR ''E''} \<and>
     (let d = (case r of [] \<Rightarrow> [] | x # y \<Rightarrow> if x \<in> {CHR ''+'', CHR ''-''} then y else r)
      in d \<noteq> [] \<and> list_all is_digit d))"

definition frac_ok :: "string \<Rightarrow> bool" where
  "frac_ok s = (case s of c # r \<Rightarrow>
       if c = CHR ''.'' then takeWhile is_digit r \<noteq> [] \<and> exp_ok (dropWhile is_digit r) else exp_ok s
     | [] \<Rightarrow> True)"

definition number_ok :: "string \<Rightarrow> bool" where
  "number_ok s = (let u = (case s of c # r \<Rightarrow> if c = CHR ''-'' then r else s | [] \<Rightarrow> []);
      ip = takeWhile is_digit u in
     ip \<noteq> [] \<and> (hd ip = CHR ''0'' \<longrightarrow> length ip = 1) \<and> frac_ok (dropWhile is_digit u))"

definition json_num :: "string \<Rightarrow> (string \<times> string) option" where
  "json_num s = (let l = takeWhile num_char s in
     if number_ok l then Some (l, dropWhile num_char s) else None)"

fun strip_prefix :: "string \<Rightarrow> string \<Rightarrow> string option" where
  "strip_prefix [] s = Some s"
| "strip_prefix (p # ps) [] = None"
| "strip_prefix (p # ps) (c # cs) = (if p = c then strip_prefix ps cs else None)"

text \<open>
  The recursive-descent reading of a value, of the rest of an array after its first bracket and of
  an object's members.  The first argument is fuel: one unit per call.
\<close>

fun json_val :: "nat \<Rightarrow> string \<Rightarrow> (json \<times> string) option"
  and json_elems :: "nat \<Rightarrow> string \<Rightarrow> (json list \<times> string) option"
  and json_members :: "nat \<Rightarrow> string \<Rightarrow> ((bytes \<times> json) list \<times> string) option" where
  "json_val 0 s = None"
| "json_val (Suc n) s = (case skip_ws s of [] \<Rightarrow> None | c # r \<Rightarrow>
     if c = CHR 0x22 then map_option (map_prod JStr id) (json_str r)
     else if c = CHR ''['' then
       (case skip_ws r of [] \<Rightarrow> None | d # r' \<Rightarrow>
          if d = CHR '']'' then Some (JArr [], r')
          else map_option (map_prod JArr id) (json_elems n (d # r')))
     else if c = CHR ''{'' then
       (case skip_ws r of [] \<Rightarrow> None | d # r' \<Rightarrow>
          if d = CHR ''}'' then Some (JObj [], r')
          else map_option (map_prod JObj id) (json_members n (d # r')))
     else if c = CHR ''n'' then map_option (Pair JNull) (strip_prefix ''null'' (c # r))
     else if c = CHR ''t'' then map_option (Pair (JBool True)) (strip_prefix ''true'' (c # r))
     else if c = CHR ''f'' then map_option (Pair (JBool False)) (strip_prefix ''false'' (c # r))
     else map_option (map_prod JNum id) (json_num (c # r)))"
| "json_elems 0 s = None"
| "json_elems (Suc n) s = (case json_val n s of None \<Rightarrow> None | Some (v, r) \<Rightarrow>
     (case skip_ws r of [] \<Rightarrow> None | c # r' \<Rightarrow>
        if c = CHR '','' then map_option (map_prod (Cons v) id) (json_elems n r')
        else if c = CHR '']'' then Some ([v], r') else None))"
| "json_members 0 s = None"
| "json_members (Suc n) s = (case skip_ws s of [] \<Rightarrow> None | q # r \<Rightarrow>
     if q \<noteq> CHR 0x22 then None else
     (case json_str r of None \<Rightarrow> None | Some (k, r1) \<Rightarrow>
     (case skip_ws r1 of [] \<Rightarrow> None | c # r2 \<Rightarrow>
     if c \<noteq> CHR '':'' then None else
     (case json_val n r2 of None \<Rightarrow> None | Some (v, r3) \<Rightarrow>
     (case skip_ws r3 of [] \<Rightarrow> None | d # r4 \<Rightarrow>
        if d = CHR '','' then map_option (map_prod (Cons (k, v)) id) (json_members n r4)
        else if d = CHR ''}'' then Some ([(k, v)], r4) else None)))))"

text \<open>Every reader consumes input, so twice the length of the input is fuel enough.\<close>

lemma skip_ws_length: "length (skip_ws s) \<le> length s"
  by (simp add: skip_ws_def length_dropWhile_le)

lemma json_str_length: "json_str s = Some (b, r) \<Longrightarrow> length r < length s"
proof (induction s arbitrary: b r rule: length_induct)
  case (1 s)
  then obtain c cs where s: "s = c # cs" by (cases s) (auto simp: json_str.simps)
  have IH: "length r' \<le> length cs" if "json_str u = Some (a, r')" "length u \<le> length cs" for u a r'
    using "1.IH" that s by (metis le_imp_less_Suc length_Cons less_imp_le_nat order.trans)
  have esc: "length r' \<le> length cs" if "json_escape cs = Some (a, u)" "json_str u = Some (a', r')" for u a a' r'
    using json_escape_length [OF that(1)] IH [OF that(2)] by simp
  from "1.prems" show ?case
    by (auto simp: s json_str.simps(2) [of c cs] Let_def less_Suc_eq_le
        split: if_splits option.splits dest: esc intro: IH)
qed

lemma json_num_length: "json_num s = Some (l, r) \<Longrightarrow> length r < length s"
proof -
  assume num: "json_num s = Some (l, r)"
  then have "l \<noteq> []" by (auto simp: json_num_def number_ok_def Let_def split: if_splits)
  moreover have "s = l @ r" using num by (auto simp: json_num_def Let_def split: if_splits)
  ultimately show ?thesis by simp
qed

lemma strip_prefix_length: "strip_prefix p s = Some r \<Longrightarrow> length s = length p + length r"
  by (induction p s rule: strip_prefix.induct) (auto split: if_splits)

lemma skip_ws_ConsD: "skip_ws s = c # r \<Longrightarrow> length r < length s"
  using skip_ws_length [of s] by simp

lemma json_length:
  "json_val n s = Some (v, r) \<Longrightarrow> length r < length s"
  "json_elems n s = Some (vs, r) \<Longrightarrow> length r < length s"
  "json_members n s = Some (ms, r) \<Longrightarrow> length r < length s"
proof (induction n s and n s and n s arbitrary: v r and vs r and ms r
    rule: json_val_json_elems_json_members.induct)
  case (2 n s)
  then show ?case
    by (force split: list.splits if_splits dest!: skip_ws_ConsD dest: json_str_length json_num_length
        strip_prefix_length)
next
  case (4 n s)
  then show ?case
    by (force split: list.splits if_splits option.splits dest!: skip_ws_ConsD)
next
  case (6 n s)
  then show ?case
    by (force split: list.splits if_splits option.splits dest!: skip_ws_ConsD json_str_length)
qed simp_all

lemma json_fuel:
  "2 * length s < n \<Longrightarrow> json_val (Suc n) s = json_val n s"
  "2 * length s + 1 < n \<Longrightarrow> json_elems (Suc n) s = json_elems n s"
  "2 * length s + 1 < n \<Longrightarrow> json_members (Suc n) s = json_members n s"
proof (induction n s and n s and n s rule: json_val_json_elems_json_members.induct)
  case (2 n s)
  show ?case
  proof (cases "skip_ws s")
    case Nil
    then show ?thesis by simp
  next
    case (Cons c r)
    have "(c = CHR ''['' \<longrightarrow> d \<noteq> CHR '']'' \<longrightarrow> json_elems (Suc n) (d # r') = json_elems n (d # r'))
        \<and> (c = CHR ''{'' \<longrightarrow> d \<noteq> CHR ''}'' \<longrightarrow> json_members (Suc n) (d # r') = json_members n (d # r'))"
      if "skip_ws r = d # r'" for d r'
    proof -
      have "2 * length (d # r') + 1 < n"
        using that 2(3) skip_ws_ConsD [OF Cons] skip_ws_length [of r] by simp
      then show ?thesis using 2(1,2) Cons that by simp
    qed
    then show ?thesis using Cons by (auto split: list.splits)
  qed
next
  case (4 n s)
  then have val: "json_val (Suc n) s = json_val n s" by simp
  show ?case
  proof (cases "json_val n s")
    case None
    then show ?thesis using val by simp
  next
    case (Some vr)
    obtain v r where vr: "vr = (v, r)" by force
    have "json_elems (Suc n) r' = json_elems n r'" if "skip_ws r = CHR '','' # r'" for r'
    proof -
      have "length r' < length s"
        using json_length(1) [of n s v r] Some vr skip_ws_ConsD [OF that] by simp
      then have "2 * length r' + 1 < n" using 4(3) by simp
      then show ?thesis using 4(2) Some vr that by blast
    qed
    then show ?thesis using Some vr val by (auto split: list.splits simp del: json_val.simps)
  qed
next
  case (6 n s)
  have val: "json_val (Suc n) r2 = json_val n r2 \<and>
      (\<forall>v r3 r4. json_val n r2 = Some (v, r3) \<and> skip_ws r3 = CHR '','' # r4
         \<longrightarrow> json_members (Suc n) r4 = json_members n r4)"
    if r2: "skip_ws s = CHR 0x22 # r" "json_str r = Some (k, r1)" "skip_ws r1 = CHR '':'' # r2" for r k r1 r2
  proof -
    have "length r2 < length s"
      using skip_ws_ConsD [OF r2(1)] json_str_length [OF r2(2)] skip_ws_ConsD [OF r2(3)] by simp
    then have le: "2 * length r2 + 1 < n" using 6(3) by simp
    moreover have "json_members (Suc n) r4 = json_members n r4"
      if v: "json_val n r2 = Some (v, r3)" "skip_ws r3 = CHR '','' # r4" for v r3 r4
    proof -
      have "2 * length r4 + 1 < n"
        using json_length(1) [OF v(1)] skip_ws_ConsD [OF v(2)] le by simp
      then show ?thesis using 6(2) r2 v by blast
    qed
    ultimately show ?thesis using 6(1) r2 by auto
  qed
  show ?case
    using val by (auto split: list.splits option.splits simp del: json_val.simps)
qed simp_all

definition json_parse :: "string \<Rightarrow> json option" where
  "json_parse s = (case json_val (Suc (2 * length s)) s of
      Some (v, r) \<Rightarrow> if skip_ws r = [] \<and> json_depth v \<le> 10000 then Some v else None
    | None \<Rightarrow> None)"

subsection \<open>Reading what was printed\<close>

text \<open>The values \<open>json.Marshal\<close> produces: valid strings and number literals.\<close>

fun json_ok :: "json \<Rightarrow> bool" where
  "json_ok (JNum l) \<longleftrightarrow> number_ok l \<and> list_all num_char l"
| "json_ok (JStr s) \<longleftrightarrow> valid_utf8 s"
| "json_ok (JArr vs) \<longleftrightarrow> list_all json_ok vs"
| "json_ok (JObj ms) \<longleftrightarrow> list_all (\<lambda>(k, v). valid_utf8 k \<and> json_ok v) ms"
| "json_ok JNull \<longleftrightarrow> True"
| "json_ok (JBool b) \<longleftrightarrow> True"

definition num_end :: "string \<Rightarrow> bool" where
  "num_end t \<longleftrightarrow> (case t of [] \<Rightarrow> True | c # _ \<Rightarrow> \<not> num_char c)"

definition reads :: "json \<Rightarrow> bool" where
  "reads v \<longleftrightarrow> (\<forall>n t. length (json_text v) \<le> n \<longrightarrow> num_end t \<longrightarrow>
     json_val n (json_text v @ t) = Some (v, t))"

lemma skip_ws_Cons [simp]: "\<not> is_ws c \<Longrightarrow> skip_ws (c # s) = c # s"
  by (simp add: skip_ws_def)

lemma num_end_simps [simp]:
  "num_end (CHR '','' # t)" "num_end (CHR '']'' # t)" "num_end (CHR ''}'' # t)" "num_end []"
  by (simp_all add: num_end_def num_char_def is_digit_def)

lemma not_ws_punct [simp]:
  "\<not> is_ws (CHR '','')" "\<not> is_ws (CHR '']'')" "\<not> is_ws (CHR ''}'')" "\<not> is_ws (CHR ''['')"
  "\<not> is_ws (CHR ''{'')" "\<not> is_ws (CHR '':'')" "\<not> is_ws (CHR 0x22)"
  by (simp_all add: is_ws_def)

lemma num_char_head: "num_char c \<Longrightarrow> \<not> is_ws c \<and> c \<notin> {CHR 0x22, CHR ''['', CHR ''{'', CHR ''n'',
    CHR ''t'', CHR ''f'', CHR '']'', CHR ''}''}"
  by (auto simp: num_char_def is_ws_def is_digit_def)

lemma json_text_head:
  "json_ok v \<Longrightarrow> \<exists>c r. json_text v = c # r \<and> \<not> is_ws c \<and> c \<noteq> CHR '']'' \<and> c \<noteq> CHR ''}''"
proof (cases v)
  case (JNum l)
  assume "json_ok v"
  then obtain c r where "l = c # r" "num_char c"
    using JNum by (cases l) (auto simp: number_ok_def)
  then show ?thesis using JNum num_char_head [of c] by auto
qed (auto simp: json_quote_def is_ws_def)

lemma json_num_literal:
  assumes "number_ok l" "list_all num_char l" "num_end t"
  shows "json_num (l @ t) = Some (l, t)"
proof -
  have "takeWhile num_char (l @ t) = l @ takeWhile num_char t"
    "dropWhile num_char (l @ t) = dropWhile num_char t"
    using assms(2) by (simp_all add: list_all_iff takeWhile_append2 dropWhile_append2)
  moreover have "takeWhile num_char t = []" "dropWhile num_char t = t"
    using assms(3) by (cases t; simp add: num_end_def)+
  ultimately show ?thesis using assms(1) by (simp add: json_num_def)
qed

lemma strip_prefix_append [simp]: "strip_prefix p (p @ s) = Some s"
  by (induction p) auto

lemma reads_elems:
  assumes "vs \<noteq> []" "\<forall>v \<in> set vs. reads v"
    and "length (commas (map json_text vs)) < n"
  shows "json_elems n (commas (map json_text vs) @ CHR '']'' # t) = Some (vs, t)"
  using assms
proof (induction vs arbitrary: n rule: list_nonempty_induct)
  case (single v)
  then obtain k where "n = Suc k" "length (json_text v) \<le> k" by (cases n) auto
  with single show ?case by (auto simp: reads_def)
next
  case (cons v vs)
  then obtain k w ws where k: "n = Suc k" and vs: "vs = w # ws" by (cases n; cases vs) auto
  have "json_val k (json_text v @ CHR '','' # commas (map json_text vs) @ CHR '']'' # t)
      = Some (v, CHR '','' # commas (map json_text vs) @ CHR '']'' # t)"
    using cons.prems k vs by (simp add: reads_def)
  moreover have "json_elems k (commas (map json_text vs) @ CHR '']'' # t) = Some (vs, t)"
    using cons k vs by simp
  ultimately show ?case using k vs by simp
qed

lemma reads_members:
  assumes "ms \<noteq> []" "\<forall>(k, v) \<in> set ms. valid_utf8 k \<and> reads v"
    and "length (commas (map (\<lambda>(k, v). json_quote k @ CHR '':'' # json_text v) ms)) < n"
  shows "json_members n (commas (map (\<lambda>(k, v). json_quote k @ CHR '':'' # json_text v) ms)
     @ CHR ''}'' # t) = Some (ms, t)"
  using assms
proof (induction ms arbitrary: n rule: list_nonempty_induct)
  case (single m)
  obtain key v where m: "m = (key, v)" by force
  with single obtain k where "n = Suc k" "length (json_text v) \<le> k" by (cases n) auto
  with single m show ?case by (auto simp: reads_def json_quote_def json_str_esc)
next
  case (cons m ms)
  obtain key v where m: "m = (key, v)" by force
  obtain k w ws where k: "n = Suc k" and ms: "ms = w # ws"
    using cons by (cases n; cases ms) auto
  let ?body = "commas (map (\<lambda>(k, v). json_quote k @ CHR '':'' # json_text v) ms) @ CHR ''}'' # t"
  have "json_val k (json_text v @ CHR '','' # ?body) = Some (v, CHR '','' # ?body)"
    using cons.prems k ms m by (simp add: reads_def)
  moreover have "json_members k ?body = Some (ms, t)"
    using cons k ms m by simp
  ultimately show ?case
    using k ms m cons.prems by (simp add: json_quote_def json_str_esc)
qed

lemma reads_json: "json_ok v \<Longrightarrow> reads v"
proof (induction v rule: json_ok.induct)
  case (1 l)
  then obtain c r where l: "l = c # r" "num_char c"
    by (cases l) (auto simp: number_ok_def)
  have "json_val n (l @ t) = Some (JNum l, t)" if "length l \<le> n" "num_end t" for n t
    using 1 that l num_char_head [OF l(2)] json_num_literal [of l t] by (cases n) auto
  then show ?case by (simp add: reads_def)
next
  case (2 s)
  have "json_val n (json_quote s @ t) = Some (JStr s, t)" if "length (json_quote s) \<le> n" for n t
    using 2 that by (cases n) (auto simp: json_quote_def json_str_esc)
  then show ?case by (simp add: reads_def)
next
  case (3 vs)
  have "json_val n (json_text (JArr vs) @ t) = Some (JArr vs, t)"
    if n: "length (json_text (JArr vs)) \<le> n" for n t
  proof (cases vs)
    case Nil
    then show ?thesis using n by (cases n) auto
  next
    case (Cons w ws)
    have reads: "\<forall>v \<in> set vs. reads v" using 3 by (auto simp: list_all_iff)
    obtain k where k: "n = Suc k" "length (commas (map json_text vs)) < k" using n by (cases n) auto
    obtain c r where "json_text w = c # r" "\<not> is_ws c" "c \<noteq> CHR '']''"
      using json_text_head [of w] 3 Cons by auto
    moreover from this obtain r' where "commas (map json_text vs) = c # r'"
      using Cons by (cases ws) auto
    ultimately show ?thesis
      using reads_elems [of vs k t] reads k Cons by auto
  qed
  then show ?case by (simp add: reads_def)
next
  case (4 ms)
  have "json_val n (json_text (JObj ms) @ t) = Some (JObj ms, t)"
    if n: "length (json_text (JObj ms)) \<le> n" for n t
  proof (cases ms)
    case Nil
    then show ?thesis using n by (cases n) auto
  next
    case (Cons w ws)
    have reads: "\<forall>(k, v) \<in> set ms. valid_utf8 k \<and> reads v"
      using 4 by (fastforce simp: list_all_iff)
    obtain k where k: "n = Suc k"
        "length (commas (map (\<lambda>(k, v). json_quote k @ CHR '':'' # json_text v) ms)) < k"
      using n by (cases n) auto
    obtain r' where "commas (map (\<lambda>(k, v). json_quote k @ CHR '':'' # json_text v) ms) = CHR 0x22 # r'"
      using Cons by (cases ws; cases w) (auto simp: json_quote_def)
    then show ?thesis
      using reads_members [of ms k t] reads k Cons by auto
  qed
  then show ?case by (simp add: reads_def)
next
  case 5
  have "json_val n (''null'' @ t) = Some (JNull, t)" if "4 \<le> n" for n t
    using that by (cases n) (auto simp: is_ws_def)
  then show ?case by (simp add: reads_def)
next
  case (6 b)
  have "json_val n (''true'' @ t) = Some (JBool True, t)"
       "json_val n (''false'' @ t) = Some (JBool False, t)" if "4 \<le> n" for n t
    using that by (cases n; auto simp: is_ws_def)+
  then show ?case by (simp add: reads_def)
qed

lemma json_parse_text [codec_simps]:
  assumes "json_ok v" "json_depth v \<le> 10000"
  shows "json_parse (json_text v) = Some v"
proof -
  have "json_val (Suc (2 * length (json_text v))) (json_text v) = Some (v, [])"
    using reads_json [OF assms(1), unfolded reads_def, rule_format,
        of "Suc (2 * length (json_text v))" "[]"] by (simp del: json_val.simps)
  then show ?thesis using assms(2) by (simp add: json_parse_def skip_ws_def del: json_val.simps)
qed

interpretation json_wire: codec json_text json_parse "\<lambda>v. json_ok v \<and> json_depth v \<le> 10000"
  by unfold_locales (simp add: json_parse_text)

end
