(* ===== verification/Json_Struct.thy ===== *)
theory Json_Struct
  imports Json "HOL-Library.AList" "HOL-Library.List_Lexorder" "HOL-Library.Char_ord"
begin

text \<open>
  How \<open>encoding/json\<close> maps a Go struct to an object and back: members in field order, \<open>omitempty\<close>
  members left out, and on decoding one setter per field.  A setter answers \<open>None\<close> on a type
  mismatch; the decoder then goes on with the other members and reports an error at the end, so the
  result is the struct with a flag that is false after any mismatch.
\<close>

declare valid_utf8.simps(2) [simp del]

section \<open>Writing structs\<close>

definition jobj :: "(string \<times> json) option list \<Rightarrow> json" where
  "jobj fs = JObj (concat (map (\<lambda>f. case f of None \<Rightarrow> [] | Some m \<Rightarrow> [m]) fs))"

definition fld :: "string \<Rightarrow> json \<Rightarrow> (string \<times> json) option" where
  "fld k v = Some (k, v)"

definition fld_omit :: "bool \<Rightarrow> string \<Rightarrow> json \<Rightarrow> (string \<times> json) option" where
  "fld_omit e k v = (if e then None else Some (k, v))"

definition jnat :: "nat \<Rightarrow> json" where
  "jnat n = JNum (show_nat n)"

definition jint :: "int \<Rightarrow> json" where
  "jint i = JNum (show_int i)"

text \<open>A nil slice is \<open>None\<close> and is written as \<open>null\<close>.  A map is written with sorted keys.\<close>

definition jslice :: "('a \<Rightarrow> json) \<Rightarrow> 'a list option \<Rightarrow> json" where
  "jslice f x = (case x of None \<Rightarrow> JNull | Some l \<Rightarrow> JArr (map f l))"

definition jstrmap :: "(bytes \<times> bytes) list option \<Rightarrow> json" where
  "jstrmap x = (case x of None \<Rightarrow> JNull
     | Some kvs \<Rightarrow> JObj (map (\<lambda>(k, v). (k, JStr v)) (sort_key fst kvs)))"

section \<open>Reading structs\<close>

text \<open>
  Field names match exactly or after Unicode case folding.  Among the runes that fold to an ASCII
  letter are the long s (C5 BF) and the Kelvin sign (E2 84 AA).
\<close>

definition upper_char :: "char \<Rightarrow> char" where
  "upper_char c = (let b = of_char c :: nat in if 97 \<le> b \<and> b \<le> 122 then char_of (b - 32) else c)"

fun fold_name :: "bytes \<Rightarrow> bytes" where
  "fold_name [] = []"
| "fold_name (a # s) =
     (if a = CHR 0xC5 \<and> take 1 s = [CHR 0xBF] then CHR ''S'' # fold_name (drop 1 s)
      else if a = CHR 0xE2 \<and> take 2 s = [CHR 0x84, CHR 0xAA] then CHR ''K'' # fold_name (drop 2 s)
      else upper_char a # fold_name s)"

type_synonym 'r setter = "json \<Rightarrow> 'r \<Rightarrow> 'r option"
type_synonym 'r fields = "(string \<times> 'r setter) list"

definition find_field :: "(string \<times> 'f) list \<Rightarrow> bytes \<Rightarrow> 'f option" where
  "find_field fs k = (case map_of fs k of
      Some f \<Rightarrow> Some f
    | None \<Rightarrow> map_option snd (List.find (\<lambda>(n, f). fold_name n = fold_name k) fs))"

fun set_fields :: "'r fields \<Rightarrow> (bytes \<times> json) list \<Rightarrow> 'r \<Rightarrow> bool \<Rightarrow> 'r \<times> bool" where
  "set_fields fs [] r good = (r, good)"
| "set_fields fs ((k, v) # ms) r good = (case find_field fs k of
      None \<Rightarrow> set_fields fs ms r good
    | Some f \<Rightarrow> (case f v r of
          None \<Rightarrow> set_fields fs ms r False
        | Some r' \<Rightarrow> set_fields fs ms r' good))"

definition into_struct :: "'r fields \<Rightarrow> json \<Rightarrow> 'r \<Rightarrow> 'r \<times> bool" where
  "into_struct fs v r = (case v of JNull \<Rightarrow> (r, True) | JObj ms \<Rightarrow> set_fields fs ms r True | _ \<Rightarrow> (r, False))"

text \<open>\<open>json.Unmarshal\<close> of a text into a struct: a syntax error leaves the struct as it was.\<close>

definition unmarshal :: "'r fields \<Rightarrow> string \<Rightarrow> 'r \<Rightarrow> 'r \<times> bool" where
  "unmarshal fs s r = (case json_parse s of None \<Rightarrow> (r, False) | Some v \<Rightarrow> into_struct fs v r)"

definition set_val :: "(json \<Rightarrow> 'a option) \<Rightarrow> ('a \<Rightarrow> 'r \<Rightarrow> 'r) \<Rightarrow> 'r setter" where
  "set_val conv upd v r = (if v = JNull then Some r else map_option (\<lambda>x. upd x r) (conv v))"

text \<open>Pointers, slices and maps become nil on \<open>null\<close>; a raw message keeps the \<open>null\<close>.\<close>

definition set_ref :: "(json \<Rightarrow> 'a option) \<Rightarrow> ('a option \<Rightarrow> 'r \<Rightarrow> 'r) \<Rightarrow> 'r setter" where
  "set_ref conv upd v r = (if v = JNull then Some (upd None r) else map_option (\<lambda>x. upd (Some x) r) (conv v))"

definition set_raw :: "(json option \<Rightarrow> 'r \<Rightarrow> 'r) \<Rightarrow> 'r setter" where
  "set_raw upd v r = Some (upd (Some v) r)"

fun as_str :: "json \<Rightarrow> bytes option" where
  "as_str (JStr s) = Some s"
| "as_str _ = None"

fun as_bool :: "json \<Rightarrow> bool option" where
  "as_bool (JBool b) = Some b"
| "as_bool _ = None"

fun as_bytes :: "json \<Rightarrow> bytes option" where
  "as_bytes (JStr s) = b64_dec s"
| "as_bytes _ = None"

definition as_u32 :: "json \<Rightarrow> u32 option" where
  "as_u32 v = (case v of
      JNum l \<Rightarrow> (case read_nat l of Some n \<Rightarrow> if n < 2 ^ 32 then Some (of_nat n) else None | None \<Rightarrow> None)
    | _ \<Rightarrow> None)"

definition as_i64 :: "json \<Rightarrow> int option" where
  "as_i64 v = (case v of
      JNum l \<Rightarrow> (case read_int l of Some i \<Rightarrow> if - (2 ^ 63) \<le> i \<and> i < 2 ^ 63 then Some i else None | None \<Rightarrow> None)
    | _ \<Rightarrow> None)"

text \<open>An element that is \<open>null\<close> stays the zero value of its type.\<close>

definition as_list :: "'a \<Rightarrow> (json \<Rightarrow> 'a option) \<Rightarrow> json \<Rightarrow> 'a list option" where
  "as_list zero conv v = (case v of
      JArr vs \<Rightarrow> those (map (\<lambda>w. if w = JNull then Some zero else conv w) vs)
    | _ \<Rightarrow> None)"

definition as_struct :: "'r fields \<Rightarrow> 'r \<Rightarrow> json \<Rightarrow> 'r option" where
  "as_struct fs zero v = (case into_struct fs v zero of (r, good) \<Rightarrow> if good then Some r else None)"

definition as_strmap :: "json \<Rightarrow> (bytes \<times> bytes) list option" where
  "as_strmap v = (case v of
      JObj ms \<Rightarrow> map_option (\<lambda>kvs. fold (\<lambda>(k, s). AList.update k s) kvs [])
        (those (map (\<lambda>(k, w). if w = JNull then Some (k, []) else map_option (Pair k) (as_str w)) ms))
    | _ \<Rightarrow> None)"

section \<open>Round trips of the pieces\<close>

lemma show_nat_head: "n \<noteq> 0 \<Longrightarrow> hd (show_nat n) \<noteq> CHR ''0''"
proof (induction n rule: show_nat.induct)
  case (1 n)
  show ?case
  proof (cases "n < 10")
    case True
    have "digit_char n \<noteq> CHR ''0''"
      using True 1(2) by (simp add: char_eq_of_char del: of_char_eq_iff)
    then show ?thesis using True by (subst show_nat.simps) simp
  next
    case False
    then have "hd (show_nat (n div 10)) \<noteq> CHR ''0''" using 1(1) by simp
    then show ?thesis using False by (subst show_nat.simps) simp
  qed
qed

lemma show_nat_0: "show_nat 0 = ''0''"
  by (subst show_nat.simps) (simp add: digit_char_def char_eq_of_char del: of_char_eq_iff)

lemma takeWhile_show_nat [simp]: "takeWhile is_digit (show_nat n) = show_nat n"
  by (simp add: takeWhile_eq_all_conv show_nat_digits)

lemma dropWhile_show_nat [simp]: "dropWhile is_digit (show_nat n) = []"
  by (simp add: show_nat_digits)

lemma number_ok_show_nat: "number_ok (show_nat n)" "number_ok (CHR ''-'' # show_nat n)"
proof -
  obtain c cs where c: "show_nat n = c # cs" by (cases "show_nat n") auto
  have head: "hd (show_nat n) = CHR ''0'' \<longrightarrow> length (show_nat n) = 1"
    using show_nat_head [of n] show_nat_0 by (cases "n = 0") auto
  show "number_ok (CHR ''-'' # show_nat n)"
    using head by (simp add: number_ok_def frac_ok_def)
  have "c \<noteq> CHR ''-''" using c hd_show_nat_not_minus by blast
  then have "(case show_nat n of c # r \<Rightarrow> if c = CHR ''-'' then r else show_nat n | [] \<Rightarrow> []) = show_nat n"
    by (simp add: c)
  then show "number_ok (show_nat n)"
    using head by (simp add: number_ok_def frac_ok_def)
qed

lemma num_char_show_nat: "list_all num_char (show_nat n)"
  by (auto simp: list_all_iff num_char_def show_nat_digits)

lemma json_ok_jnat [simp]: "json_ok (jnat n)"
  by (simp add: jnat_def number_ok_show_nat num_char_show_nat)

lemma json_ok_jint [simp]: "json_ok (jint i)"
  by (simp add: jint_def show_int_def number_ok_show_nat num_char_show_nat)
    (simp add: num_char_def)

lemma json_depth_num [simp]: "json_depth (jnat n) = 0" "json_depth (jint i) = 0"
  by (simp_all add: jnat_def jint_def)

lemma not_null_num [simp]: "jnat n \<noteq> JNull" "jint i \<noteq> JNull"
  by (simp_all add: jnat_def jint_def)

lemma as_u32_jnat [codec_simps, simp]: "as_u32 (jnat (unat (w :: u32))) = Some w"
  using unsigned_less [of w] by (simp add: as_u32_def jnat_def)

lemma as_i64_jint [codec_simps, simp]:
  "- (2 ^ 63) \<le> i \<Longrightarrow> i < 2 ^ 63 \<Longrightarrow> as_i64 (jint i) = Some i"
  by (simp add: as_i64_def jint_def)

lemma as_bytes_b64 [codec_simps, simp]: "as_bytes (JStr (b64_enc b)) = Some b"
  by simp

lemma set_val_simps [simp]:
  "set_val conv upd JNull r = Some r"
  "v \<noteq> JNull \<Longrightarrow> set_val conv upd v r = map_option (\<lambda>x. upd x r) (conv v)"
  by (simp_all add: set_val_def)

lemma set_ref_simps [simp]:
  "set_ref conv upd JNull r = Some (upd None r)"
  "v \<noteq> JNull \<Longrightarrow> set_ref conv upd v r = map_option (\<lambda>x. upd (Some x) r) (conv v)"
  by (simp_all add: set_ref_def)

lemma those_map_Some [simp]: "those (map Some xs) = Some xs"
  by (induction xs) auto

lemma those_map_eq: "(\<And>x. x \<in> set xs \<Longrightarrow> f x = Some (g x)) \<Longrightarrow> those (map f xs) = Some (map g xs)"
  by (induction xs) auto

lemma as_list_map [codec_simps]:
  assumes "\<And>x. x \<in> set xs \<Longrightarrow> conv (f x) = Some x \<and> f x \<noteq> JNull"
  shows "as_list zero conv (JArr (map f xs)) = Some xs"
  using those_map_eq [of xs "\<lambda>x. if f x = JNull then Some zero else conv (f x)" "\<lambda>x. x"] assms
  by (simp add: as_list_def comp_def)

lemma b64_char_ascii: "n < 64 \<Longrightarrow> (of_char (b64_char n) :: nat) < 128"
  by (auto simp: of_char_b64)

lemma valid_utf8_ascii: "\<forall>c \<in> set s. (of_char c :: nat) < 128 \<Longrightarrow> valid_utf8 s"
  by (induction s) (auto simp: utf8_len_ascii valid_utf8.simps(2))

lemma b64_enc_ascii: "c \<in> set (b64_enc bs) \<Longrightarrow> (of_char c :: nat) < 128"
proof (induction bs rule: b64_enc.induct)
  case (2 a)
  have "(of_char a :: nat) div 4 < 64" by (simp add: div_less_iff_less_mult)
  with 2 show ?case by (auto simp: Let_def b64_char_ascii)
next
  case (3 a b)
  have "(of_char a :: nat) div 4 < 64" by (simp add: div_less_iff_less_mult)
  moreover have "(of_char b :: nat) div 16 < 16" by (simp add: div_less_iff_less_mult)
  ultimately show ?case using 3 by (auto simp: Let_def b64_char_ascii)
next
  case (4 a b d r)
  have "(of_char a :: nat) div 4 < 64" by (simp add: div_less_iff_less_mult)
  moreover have "(of_char b :: nat) div 16 < 16" by (simp add: div_less_iff_less_mult)
  moreover have "(of_char d :: nat) div 64 < 4" by (simp add: div_less_iff_less_mult)
  ultimately show ?case using 4 by (auto simp: Let_def b64_char_ascii)
qed simp

lemma valid_utf8_b64 [simp]: "valid_utf8 (b64_enc bs)"
  by (simp add: valid_utf8_ascii b64_enc_ascii)

section \<open>Struct encodings\<close>

text \<open>
  A Go struct type with its encoding: what \<open>json.Marshal\<close> writes for a good value is read back by
  \<open>json.Unmarshal\<close> into a zero struct without an error.  Each message type of the wire protocol is
  an instance.
\<close>

locale struct_codec =
  fixes tj :: "'a \<Rightarrow> json"
    and flds :: "'a fields"
    and zero :: 'a
    and good :: "'a \<Rightarrow> bool"
  assumes decode: "good x \<Longrightarrow> into_struct flds (tj x) zero = (x, True)"
    and encode_ok: "good x \<Longrightarrow> json_ok (tj x)"
    and encode_depth: "good x \<Longrightarrow> json_depth (tj x) \<le> 9999"
begin

lemma unmarshal_text: "good x \<Longrightarrow> unmarshal flds (json_text (tj x)) zero = (x, True)"
  by (simp add: unmarshal_def json_parse_text encode_ok le_trans [OF encode_depth] decode)

lemma as_struct_tj: "good x \<Longrightarrow> as_struct flds zero (tj x) = Some x"
  by (simp add: as_struct_def decode)

end

sublocale struct_codec \<subseteq> tree: codec tj "as_struct flds zero" good
  by unfold_locales (rule as_struct_tj)

sublocale struct_codec \<subseteq> marshalled: codec "\<lambda>x. json_text (tj x)" "\<lambda>s. Option.bind (json_parse s) (as_struct flds zero)" good
  by unfold_locales (simp add: json_parse_text encode_ok le_trans [OF encode_depth] as_struct_tj)

lemmas struct_simps = jobj_def fld_def fld_omit_def into_struct_def find_field_def set_raw_def
  jslice_def as_list_def

end
