(* ===== verification/Packet.thy ===== *)
theory Packet
  imports Go_IO Json_Struct
begin

text \<open>
  \<open>p2p/protocols/common/protocol/packet.go\<close>: the JSON packet of the control stream, its tunneling
  content, and its length-prefixed framing.  A \<open>json.RawMessage\<close> is the JSON value its text denotes
  (\<open>None\<close> for the nil message).  A nil interface or pointer argument is \<open>None\<close>.  Error texts are
  the constant part of the source's message followed by its string arguments.
\<close>

section \<open>Packets\<close>

definition PacketTypeTunneling :: string where "PacketTypeTunneling = ''tunneling''"
definition PacketTypeHandshake :: string where "PacketTypeHandshake = ''handshake''"
definition PacketTypeStatus :: string where "PacketTypeStatus = ''status''"
definition PacketTypeNested :: string where "PacketTypeNested = ''nested''"

record packet =
  p_type :: bytes
  p_content :: "json option"

record tunneling_content =
  tc_data :: bytes

definition packet_to_json :: "packet \<Rightarrow> json" where
  "packet_to_json p = jobj
     [fld ''type'' (JStr (p_type p)),
      fld ''content'' (case p_content p of None \<Rightarrow> JNull | Some v \<Rightarrow> v)]"

definition packet_fields :: "packet fields" where
  "packet_fields =
     [(''type'', set_val as_str (\<lambda>s p. p\<lparr>p_type := s\<rparr>)),
      (''content'', set_raw (\<lambda>v p. p\<lparr>p_content := v\<rparr>))]"

definition tunneling_to_json :: "tunneling_content \<Rightarrow> json" where
  "tunneling_to_json t = jobj [fld ''data'' (JStr (b64_enc (tc_data t)))]"

definition tunneling_fields :: "tunneling_content fields" where
  "tunneling_fields = [(''data'', set_ref as_bytes (\<lambda>d t. t\<lparr>tc_data := (case d of None \<Rightarrow> [] | Some b \<Rightarrow> b)\<rparr>))]"

definition packet_Marshal :: "packet option \<Rightarrow> string result" where
  "packet_Marshal p = (case p of
      None \<Rightarrow> Inl (Err ''packet is nil'')
    | Some p \<Rightarrow> Inr (json_text (packet_to_json p)))"

text \<open>The receiver is the struct to fill; the answer is the filled struct and the error.\<close>

definition packet_Unmarshal :: "packet option \<Rightarrow> bytes \<Rightarrow> packet option \<times> goerr option" where
  "packet_Unmarshal p data = (case p of
      None \<Rightarrow> (None, Some (Err ''packet is nil''))
    | Some p \<Rightarrow> (case unmarshal packet_fields data p of
          (p', good) \<Rightarrow> (Some p', if good then None else Some JsonErr)))"

definition NewTunnelingPacket :: "bytes option \<Rightarrow> packet result" where
  "NewTunnelingPacket data =
     (let d = (case data of None \<Rightarrow> [] | Some b \<Rightarrow> b)
      in Inr \<lparr>p_type = PacketTypeTunneling, p_content = Some (tunneling_to_json \<lparr>tc_data = d\<rparr>)\<rparr>)"

definition UnmarshalTunnelingContent :: "packet option \<Rightarrow> tunneling_content result" where
  "UnmarshalTunnelingContent p = (case p of
      None \<Rightarrow> Inl (Err ''packet is nil'')
    | Some p \<Rightarrow>
        if p_type p \<noteq> PacketTypeTunneling then Inl (Err (''not a tunneling packet: '' @ p_type p))
        else (case p_content p of
            None \<Rightarrow> Inl (Wrap ''unmarshal content'' JsonErr)
          | Some v \<Rightarrow> (case into_struct tunneling_fields v \<lparr>tc_data = []\<rparr> of
                (t, True) \<Rightarrow> Inr t
              | (_, False) \<Rightarrow> Inl (Wrap ''unmarshal content'' JsonErr))))"

section \<open>Framing\<close>

text \<open>A read operation ends with a value, an error, or waits for input.\<close>

datatype 'a rres = Done 'a | Fail goerr | Blocked

definition writeUint32 :: "'s writer \<Rightarrow> u32 \<Rightarrow> 's \<Rightarrow> goerr option \<times> 's" where
  "writeUint32 w v s = w (put_u32 v) s"

definition readUint32 :: "'s reader \<Rightarrow> 's \<Rightarrow> u32 rres \<times> 's" where
  "readUint32 r s = (case read_full r 4 [] s of
      (FullOk b, s') \<Rightarrow> (Done (get_u32 b), s')
    | (FullErr e, s') \<Rightarrow> (Fail e, s')
    | (FullBlock, s') \<Rightarrow> (Blocked, s'))"

definition WritePacket :: "'s writer option \<Rightarrow> packet option \<Rightarrow> 's \<Rightarrow> goerr option \<times> 's" where
  "WritePacket w p s = (case p of None \<Rightarrow> (Some (Err ''packet is nil''), s) | Some _ \<Rightarrow>
     (case w of None \<Rightarrow> (Some (Err ''writer is nil''), s) | Some w \<Rightarrow>
     (case packet_Marshal p of Inl e \<Rightarrow> (Some (Wrap ''marshal'' e), s) | Inr data \<Rightarrow>
     (case writeUint32 w (of_nat (length data)) s of
        (Some e, s') \<Rightarrow> (Some (Wrap ''write length'' e), s')
      | (None, s') \<Rightarrow>
         (case w data s' of
            (Some e, s'') \<Rightarrow> (Some (Wrap ''write data'' e), s'')
          | (None, s'') \<Rightarrow> (None, s''))))))"

definition maxPacketSize :: u32 where "maxPacketSize = 1024 * 1024 * 1024"
definition reasonableMaxPacketSize :: u32 where "reasonableMaxPacketSize = 10 * 1024 * 1024"
definition httpGetLength :: u32 where "httpGetLength = 0x47455420"

definition ReadPacket :: "'s reader option \<Rightarrow> 's \<Rightarrow> packet rres \<times> 's" where
  "ReadPacket r s = (case r of None \<Rightarrow> (Fail (Err ''reader is nil''), s) | Some r \<Rightarrow>
     (case readUint32 r s of
        (Blocked, s') \<Rightarrow> (Blocked, s')
      | (Fail e, s') \<Rightarrow> (Fail (Wrap ''read length'' e), s')
      | (Done len, s') \<Rightarrow>
          if len = httpGetLength then (Fail (Err ''packet too large: GET''), s')
          else if len > maxPacketSize then (Fail (Err ''packet too large''), s')
          else if len > reasonableMaxPacketSize then (Fail (Err ''packet too large for control message''), s')
          else (case read_full r (unat len) [] s' of
              (FullBlock, s'') \<Rightarrow> (Blocked, s'')
            | (FullErr e, s'') \<Rightarrow> (Fail (Wrap ''read data'' e), s'')
            | (FullOk data, s'') \<Rightarrow>
                (case packet_Unmarshal (Some \<lparr>p_type = [], p_content = None\<rparr>) data of
                   (_, Some e) \<Rightarrow> (Fail (Wrap ''unmarshal'' e), s'')
                 | (Some p, None) \<Rightarrow> (Done p, s'')
                 | (None, None) \<Rightarrow> (Fail (Wrap ''unmarshal'' JsonErr), s'')))))"

text \<open>
  \<open>PacketReadWriteCloser\<close> over a connection state: \<open>None\<close> is the nil receiver or nil connection.
  Its write lock makes each \<open>WritePacket\<close> one step.
\<close>

definition prwc_Read :: "'s reader \<Rightarrow> nat \<Rightarrow> 's option \<Rightarrow> rd \<times> 's option" where
  "prwc_Read r n c = (case c of None \<Rightarrow> (RdErr ErrClosedPipe, None)
     | Some s \<Rightarrow> (case r n s of (x, s') \<Rightarrow> (x, Some s')))"

definition prwc_Write :: "'s writer \<Rightarrow> bytes \<Rightarrow> 's option \<Rightarrow> goerr option \<times> 's option" where
  "prwc_Write w b c = (case c of None \<Rightarrow> (Some ErrClosedPipe, None)
     | Some s \<Rightarrow> (case w b s of (x, s') \<Rightarrow> (x, Some s')))"

definition prwc_Close :: "('s \<Rightarrow> goerr option \<times> 's) \<Rightarrow> 's option \<Rightarrow> goerr option \<times> 's option" where
  "prwc_Close cl c = (case c of None \<Rightarrow> (None, None)
     | Some s \<Rightarrow> (case cl s of (x, s') \<Rightarrow> (x, Some s')))"

definition prwc_ReadPacket :: "'s reader \<Rightarrow> 's option \<Rightarrow> packet rres \<times> 's option" where
  "prwc_ReadPacket r c = (case c of None \<Rightarrow> (Fail ErrClosedPipe, None)
     | Some s \<Rightarrow> (case ReadPacket (Some r) s of (x, s') \<Rightarrow> (x, Some s')))"

definition prwc_WritePacket :: "'s writer \<Rightarrow> packet option \<Rightarrow> 's option \<Rightarrow> goerr option \<times> 's option" where
  "prwc_WritePacket w p c = (case c of None \<Rightarrow> (Some ErrClosedPipe, None)
     | Some s \<Rightarrow> (case WritePacket (Some w) p s of (x, s') \<Rightarrow> (x, Some s')))"

section \<open>Round trips\<close>

definition packet_ok :: "packet \<Rightarrow> bool" where
  "packet_ok p \<longleftrightarrow> valid_utf8 (p_type p)
     \<and> (case p_content p of None \<Rightarrow> False | Some v \<Rightarrow> json_ok v \<and> json_depth v \<le> 9998)"

text \<open>The bytes of a packet on the control stream.\<close>

definition packet_data :: "packet \<Rightarrow> bytes" where
  "packet_data p = json_text (packet_to_json p)"

definition packet_bytes :: "packet \<Rightarrow> bytes" where
  "packet_bytes p = put_u32 (of_nat (length (packet_data p))) @ packet_data p"

lemma valid_utf8_literals [simp]: "valid_utf8 ''type''" "valid_utf8 ''content''" "valid_utf8 ''data''"
    "valid_utf8 ''payload''" "valid_utf8 ''tunneling''"
  by (simp_all add: valid_utf8_ascii)

interpretation packet_struct: struct_codec packet_to_json packet_fields "\<lparr>p_type = [], p_content = None\<rparr>" packet_ok
  by unfold_locales
    (auto simp: packet_to_json_def packet_fields_def packet_ok_def struct_simps split: option.splits)

interpretation tunneling_struct: struct_codec tunneling_to_json tunneling_fields "\<lparr>tc_data = []\<rparr>" "\<lambda>_. True"
  by unfold_locales (auto simp: tunneling_to_json_def tunneling_fields_def struct_simps)

interpretation packet_wire: codec_stack json_text json_parse "\<lambda>v. json_ok v \<and> json_depth v \<le> 10000"
    packet_to_json "as_struct packet_fields \<lparr>p_type = [], p_content = None\<rparr>" packet_ok
  by unfold_locales
    (auto intro: packet_struct.as_struct_tj packet_struct.encode_ok le_trans [OF packet_struct.encode_depth])

lemma packet_data_head: "\<exists>r. packet_data p = CHR ''{'' # r"
  by (simp add: packet_data_def packet_to_json_def jobj_def)

lemma packet_Unmarshal_data:
  "packet_ok p \<Longrightarrow> packet_Unmarshal (Some \<lparr>p_type = [], p_content = None\<rparr>) (packet_data p) = (Some p, None)"
  by (simp add: packet_Unmarshal_def packet_data_def packet_struct.unmarshal_text)

lemma tunneling_roundtrip:
  "NewTunnelingPacket data = Inr p \<Longrightarrow>
   UnmarshalTunnelingContent (Some p) = Inr \<lparr>tc_data = (case data of None \<Rightarrow> [] | Some b \<Rightarrow> b)\<rparr>"
  by (auto simp: NewTunnelingPacket_def UnmarshalTunnelingContent_def tunneling_struct.decode)

lemma NewTunnelingPacket_ok: "NewTunnelingPacket data = Inr p \<Longrightarrow> packet_ok p"
  by (auto simp: NewTunnelingPacket_def packet_ok_def PacketTypeTunneling_def tunneling_to_json_def
      struct_simps)

context byte_sink
begin

text \<open>Two writes, of the length and of the data, put the packet's bytes on the sink.\<close>

lemma WritePacket_sends:
  assumes "wf s" "accepts (put_u32 (of_nat (length (packet_data p)))) s" "accepts (packet_data p) s"
  shows "\<exists>s'. WritePacket (Some wr) (Some p) s = (None, s')
    \<and> sent_bytes s' = sent_bytes s @ packet_bytes p \<and> wf s'"
proof -
  obtain s1 s2 where "wr (put_u32 (of_nat (length (packet_data p)))) s = (None, s1)"
      "wr (packet_data p) s1 = (None, s2)" "wf s2"
      "sent_bytes s2 = sent_bytes s @ put_u32 (of_nat (length (packet_data p))) @ packet_data p"
    using wr_twice [OF assms] by blast
  then show ?thesis
    by (simp add: WritePacket_def packet_Marshal_def writeUint32_def packet_bytes_def packet_data_def)
qed

end

context byte_source
begin

lemma readUint32_pending:
  assumes "wf s" "pending s = put_u32 v @ t"
  shows "\<exists>s'. readUint32 rd s = (Done v, s') \<and> pending s' = t \<and> wf s'"
  using read_full_exact [OF assms] by (auto simp: readUint32_def)

text \<open>A packet of at most 10 MiB is read back whatever follows it on the stream.\<close>

lemma ReadPacket_pending:
  assumes "wf s" "pending s = packet_bytes p @ t" "packet_ok p"
    and small: "length (packet_data p) \<le> 10485760"
  shows "\<exists>s'. ReadPacket (Some rd) s = (Done p, s') \<and> pending s' = t \<and> wf s'"
proof -
  let ?len = "of_nat (length (packet_data p)) :: u32"
  obtain s1 where s1: "readUint32 rd s = (Done ?len, s1)" "pending s1 = packet_data p @ t" "wf s1"
    using readUint32_pending [of s ?len "packet_data p @ t"] assms by (auto simp: packet_bytes_def)
  have len: "unat ?len = length (packet_data p)"
    using small by (simp add: unat_of_nat)
  obtain s2 where "read_full rd (unat ?len) [] s1 = (FullOk (packet_data p), s2)"
      "pending s2 = t" "wf s2"
    using read_full_exact [OF s1(3,2)] len by auto
  moreover have "?len \<noteq> httpGetLength" "\<not> ?len > maxPacketSize" "\<not> ?len > reasonableMaxPacketSize"
    using len small
    by (auto simp: word_less_nat_alt httpGetLength_def maxPacketSize_def reasonableMaxPacketSize_def)
  ultimately show ?thesis
    using s1 packet_Unmarshal_data [OF assms(3)] by (simp add: ReadPacket_def)
qed

text \<open>A larger packet is written without an error but refused by the reader.\<close>

lemma ReadPacket_oversize:
  assumes "wf s" "pending s = packet_bytes p @ t"
    and "10485760 < length (packet_data p)" "length (packet_data p) < 2 ^ 32"
  shows "\<exists>e s'. ReadPacket (Some rd) s = (Fail (Err e), s')"
proof -
  let ?len = "of_nat (length (packet_data p)) :: u32"
  obtain s1 where s1: "readUint32 rd s = (Done ?len, s1)"
    using readUint32_pending [of s ?len "packet_data p @ t"] assms by (auto simp: packet_bytes_def)
  have "unat ?len = length (packet_data p)"
    using assms(4) by (simp add: unat_of_nat)
  then have "?len > reasonableMaxPacketSize"
    using assms(3) by (simp add: word_less_nat_alt reasonableMaxPacketSize_def)
  then show ?thesis using s1 by (auto simp: ReadPacket_def)
qed

lemma ReadPacket_http:
  assumes "wf s" "pending s = ''GET '' @ t"
  shows "\<exists>s'. ReadPacket (Some rd) s = (Fail (Err ''packet too large: GET''), s')"
proof -
  have "''GET '' = put_u32 httpGetLength"
    by (simp add: put_u32_def httpGetLength_def char_eq_of_char del: of_char_eq_iff)
  then show ?thesis
    using readUint32_pending [of s httpGetLength t] assms by (auto simp: ReadPacket_def)
qed

end

end
