(* ===== verification/Message_Codecs.thy ===== *)
theory Message_Codecs
  imports Messages
begin

text \<open>
  Every payload struct of the handshake protocol is read back as it was written: one interpretation
  of \<open>payload_codec\<close> per struct, flat structs by automation, the nested ones from the codecs of
  their parts.
\<close>

section \<open>Every payload struct is read back\<close>

text \<open>A payload is an encoding of its struct, shallow enough to be nested in a handshake.\<close>

locale payload_codec = struct_codec +
  assumes payload_depth: "good x \<Longrightarrow> json_depth (tj x) \<le> 9998"
begin

lemma text_of_payload: "good x \<Longrightarrow> json_ok (tj x) \<and> json_depth (tj x) \<le> 9998"
  by (simp add: encode_ok payload_depth)

end

lemma as_struct_into: "into_struct fs v z = (r, True) \<Longrightarrow> as_struct fs z v = Some r"
  by (simp add: as_struct_def)

lemma jobj_not_null [simp]: "jobj fs \<noteq> JNull"
  by (simp add: jobj_def)


section \<open>Flat payloads\<close>

interpretation hello_msg: payload_codec hello_payload_to_json hello_payload_fields no_hello_payload hello_payload_ok
  by unfold_locales
    (auto simp: hello_payload_to_json_def hello_payload_fields_def no_hello_payload_def hello_payload_ok_def
      struct_simps(1-7) jslice_def valid_utf8_ascii split: option.splits)

interpretation proxy_open_request_msg: payload_codec proxy_open_request_to_json proxy_open_request_fields no_proxy_open_request proxy_open_request_ok
  by unfold_locales
    (auto simp: proxy_open_request_to_json_def proxy_open_request_fields_def no_proxy_open_request_def proxy_open_request_ok_def
      struct_simps(1-7) jslice_def valid_utf8_ascii split: option.splits)

interpretation proxy_close_request_msg: payload_codec proxy_close_request_to_json proxy_close_request_fields no_proxy_close_request proxy_close_request_ok
  by unfold_locales
    (auto simp: proxy_close_request_to_json_def proxy_close_request_fields_def no_proxy_close_request_def proxy_close_request_ok_def
      struct_simps(1-7) jslice_def valid_utf8_ascii split: option.splits)

interpretation proxy_closed_response_msg: payload_codec proxy_closed_response_to_json proxy_closed_response_fields no_proxy_closed_response proxy_closed_response_ok
  by unfold_locales
    (auto simp: proxy_closed_response_to_json_def proxy_closed_response_fields_def no_proxy_closed_response_def proxy_closed_response_ok_def
      struct_simps(1-7) jslice_def valid_utf8_ascii split: option.splits)

interpretation proxy_open_response_msg: payload_codec proxy_open_response_to_json proxy_open_response_fields no_proxy_open_response proxy_open_response_ok
  by unfold_locales
    (auto simp: proxy_open_response_to_json_def proxy_open_response_fields_def no_proxy_open_response_def proxy_open_response_ok_def
      struct_simps(1-7) jslice_def valid_utf8_ascii split: option.splits)

interpretation proxy_info_msg: payload_codec proxy_info_to_json proxy_info_fields no_proxy_info proxy_info_ok
  by unfold_locales
    (auto simp: proxy_info_to_json_def proxy_info_fields_def no_proxy_info_def proxy_info_ok_def
      struct_simps(1-7) jslice_def valid_utf8_ascii split: option.splits)

interpretation error_msg: payload_codec error_payload_to_json error_payload_fields no_error_payload error_payload_ok
  by unfold_locales
    (auto simp: error_payload_to_json_def error_payload_fields_def no_error_payload_def error_payload_ok_def
      struct_simps(1-7) jslice_def valid_utf8_ascii split: option.splits)

interpretation compute_hello_msg: payload_codec compute_hello_payload_to_json compute_hello_payload_fields no_compute_hello_payload compute_hello_payload_ok
  by unfold_locales
    (auto simp: compute_hello_payload_to_json_def compute_hello_payload_fields_def no_compute_hello_payload_def compute_hello_payload_ok_def
      struct_simps(1-7) jslice_def valid_utf8_ascii split: option.splits)

interpretation compute_hello_ack_msg: payload_codec compute_hello_ack_payload_to_json compute_hello_ack_payload_fields no_compute_hello_ack_payload compute_hello_ack_payload_ok
  by unfold_locales
    (auto simp: compute_hello_ack_payload_to_json_def compute_hello_ack_payload_fields_def no_compute_hello_ack_payload_def compute_hello_ack_payload_ok_def
      struct_simps(1-7) jslice_def valid_utf8_ascii split: option.splits)

interpretation compute_run_response_msg: payload_codec compute_run_response_to_json compute_run_response_fields no_compute_run_response compute_run_response_ok
  by unfold_locales
    (auto simp: compute_run_response_to_json_def compute_run_response_fields_def no_compute_run_response_def compute_run_response_ok_def
      struct_simps(1-7) jslice_def valid_utf8_ascii split: option.splits)

interpretation compute_cancel_request_msg: payload_codec compute_cancel_request_to_json compute_cancel_request_fields no_compute_cancel_request compute_cancel_request_ok
  by unfold_locales
    (auto simp: compute_cancel_request_to_json_def compute_cancel_request_fields_def no_compute_cancel_request_def compute_cancel_request_ok_def
      struct_simps(1-7) jslice_def valid_utf8_ascii split: option.splits)

interpretation compute_cancel_response_msg: payload_codec compute_cancel_response_to_json compute_cancel_response_fields no_compute_cancel_response compute_cancel_response_ok
  by unfold_locales
    (auto simp: compute_cancel_response_to_json_def compute_cancel_response_fields_def no_compute_cancel_response_def compute_cancel_response_ok_def
      struct_simps(1-7) jslice_def valid_utf8_ascii split: option.splits)

interpretation compute_status_request_msg: payload_codec compute_status_request_to_json compute_status_request_fields no_compute_status_request compute_status_request_ok
  by unfold_locales
    (auto simp: compute_status_request_to_json_def compute_status_request_fields_def no_compute_status_request_def compute_status_request_ok_def
      struct_simps(1-7) jslice_def valid_utf8_ascii split: option.splits)

interpretation compute_status_response_msg: payload_codec compute_status_response_to_json compute_status_response_fields no_compute_status_response compute_status_response_ok
  by unfold_locales
    (auto simp: compute_status_response_to_json_def compute_status_response_fields_def no_compute_status_response_def compute_status_response_ok_def
      struct_simps(1-7) jslice_def valid_utf8_ascii split: option.splits)

interpretation compute_error_msg: payload_codec compute_error_payload_to_json compute_error_payload_fields no_compute_error_payload compute_error_payload_ok
  by unfold_locales
    (auto simp: compute_error_payload_to_json_def compute_error_payload_fields_def no_compute_error_payload_def compute_error_payload_ok_def
      struct_simps(1-7) jslice_def valid_utf8_ascii split: option.splits)

interpretation file_hello_msg: payload_codec file_hello_payload_to_json file_hello_payload_fields no_file_hello_payload file_hello_payload_ok
  by unfold_locales
    (auto simp: file_hello_payload_to_json_def file_hello_payload_fields_def no_file_hello_payload_def file_hello_payload_ok_def
      struct_simps(1-7) jslice_def valid_utf8_ascii split: option.splits)

interpretation file_list_request_msg: payload_codec file_list_request_to_json file_list_request_fields no_file_list_request file_list_request_ok
  by unfold_locales
    (auto simp: file_list_request_to_json_def file_list_request_fields_def no_file_list_request_def file_list_request_ok_def
      struct_simps(1-7) jslice_def valid_utf8_ascii split: option.splits)

interpretation file_get_request_msg: payload_codec file_get_request_to_json file_get_request_fields no_file_get_request file_get_request_ok
  by unfold_locales
    (auto simp: file_get_request_to_json_def file_get_request_fields_def no_file_get_request_def file_get_request_ok_def
      struct_simps(1-7) jslice_def valid_utf8_ascii split: option.splits)

interpretation file_info_msg: payload_codec file_info_to_json file_info_fields no_file_info file_info_ok
  by unfold_locales
    (auto simp: file_info_to_json_def file_info_fields_def no_file_info_def file_info_ok_def
      struct_simps(1-7) jslice_def valid_utf8_ascii split: option.splits)

interpretation file_send_request_msg: payload_codec file_send_request_to_json file_send_request_fields no_file_send_request file_send_request_ok
  by unfold_locales
    (auto simp: file_send_request_to_json_def file_send_request_fields_def no_file_send_request_def file_send_request_ok_def
      struct_simps(1-7) jslice_def valid_utf8_ascii split: option.splits)

interpretation file_send_response_msg: payload_codec file_send_response_to_json file_send_response_fields no_file_send_response file_send_response_ok
  by unfold_locales
    (auto simp: file_send_response_to_json_def file_send_response_fields_def no_file_send_response_def file_send_response_ok_def
      struct_simps(1-7) jslice_def valid_utf8_ascii split: option.splits)

section \<open>Nested payloads\<close>

lemma foldr_max_ge: "x \<in> set xs \<Longrightarrow> x \<le> foldr max xs (0 :: nat)"
  by (induction xs) auto

lemma file_entry_decode:
  "file_entry_ok e \<Longrightarrow> json_depth (file_entry_to_json e) \<le> n \<Longrightarrow>
   into_struct (file_entry_fields n) (file_entry_to_json e) no_entry = (e, True)"
proof (induction e arbitrary: n)
  case (FileEntry d f s i c)
  have child: "as_struct (file_entry_fields (n - 1)) no_entry (file_entry_to_json x) = Some x
      \<and> file_entry_to_json x \<noteq> JNull" if "c = Some l" "x \<in> set l" for x l
  proof -
    have "file_entry_ok x" using FileEntry.prems(1) that by (auto simp: list_all_iff)
    moreover have "json_depth (file_entry_to_json x) \<le> n - 1"
      using FileEntry.prems(2) that foldr_max_ge [of "json_depth (file_entry_to_json x)"
          "map (json_depth \<circ> file_entry_to_json) l"]
      by (cases "l = []") (auto simp: struct_simps)
    moreover have "file_entry_to_json x \<noteq> JNull"
      by (cases x) (simp add: struct_simps)
    ultimately show ?thesis
      using FileEntry.IH [of l x] that by (simp add: as_struct_def)
  qed
  obtain m where m: "n = Suc m"
    using FileEntry.prems(2) by (cases n) (auto simp: struct_simps)
  have kids: "as_list no_entry (as_struct (file_entry_fields m) no_entry) (JArr (map file_entry_to_json l)) = Some l"
    if "c = Some l" for l
    using child [OF that] m by (intro as_list_map) simp
  show ?case
    using FileEntry.prems(1) kids m
    by (cases c) (simp_all add: struct_simps(1-6) no_entry_def)
qed

lemma json_ok_map [simp]: "json_ok (JArr (map f l)) \<longleftrightarrow> (\<forall>x \<in> set l. json_ok (f x))"
  by (simp add: list_all_iff)

lemma proxy_info_depth: "json_depth (proxy_info_to_json x) = 1"
  by (simp add: proxy_info_to_json_def struct_simps)

lemma proxy_info_not_null: "proxy_info_to_json x \<noteq> JNull"
  by (simp add: proxy_info_to_json_def)

lemma file_info_depth: "json_depth (file_info_to_json x) = 1"
  by (simp add: file_info_to_json_def struct_simps)

lemma proxy_infos_read:
  "list_all proxy_info_ok l \<Longrightarrow>
   as_list no_proxy_info (as_struct proxy_info_fields no_proxy_info) (JArr (map proxy_info_to_json l)) = Some l"
  by (intro as_list_map) (auto simp: list_all_iff proxy_info_msg.as_struct_tj proxy_info_not_null)

interpretation proxy_list_response_msg: payload_codec proxy_list_response_to_json
    proxy_list_response_fields no_proxy_list_response proxy_list_response_ok
proof
  fix x
  assume ok: "proxy_list_response_ok x"
  show "into_struct proxy_list_response_fields (proxy_list_response_to_json x) no_proxy_list_response = (x, True)"
    using ok proxy_infos_read
    by (auto simp: proxy_list_response_ok_def proxy_list_response_to_json_def
        proxy_list_response_fields_def no_proxy_list_response_def struct_simps(1-7) split: option.splits)
  show "json_ok (proxy_list_response_to_json x)"
    using ok proxy_info_msg.encode_ok
    by (auto simp: proxy_list_response_ok_def proxy_list_response_to_json_def struct_simps(1-7)
        list_all_iff valid_utf8_ascii split: option.splits)
  show "json_depth (proxy_list_response_to_json x) \<le> 9999" "json_depth (proxy_list_response_to_json x) \<le> 9998"
    by (auto simp: proxy_list_response_to_json_def struct_simps(1-7) proxy_info_depth split: option.splits)
qed

interpretation file_get_response_msg: payload_codec file_get_response_to_json
    file_get_response_fields no_file_get_response file_get_response_ok
proof
  fix x
  assume ok: "file_get_response_ok x"
  have not_null: "file_info_to_json i \<noteq> JNull" for i
    by (simp add: file_info_to_json_def)
  show "into_struct file_get_response_fields (file_get_response_to_json x) no_file_get_response = (x, True)"
    using ok not_null file_info_msg.as_struct_tj
    by (cases "fgr_file_info x")
      (auto simp: file_get_response_ok_def file_get_response_to_json_def
        file_get_response_fields_def no_file_get_response_def struct_simps(1-6))
  show "json_ok (file_get_response_to_json x)"
    using ok file_info_msg.encode_ok
    by (auto simp: file_get_response_ok_def file_get_response_to_json_def struct_simps(1-6)
        valid_utf8_ascii split: option.splits)
  show "json_depth (file_get_response_to_json x) \<le> 9999" "json_depth (file_get_response_to_json x) \<le> 9998"
    by (auto simp: file_get_response_to_json_def struct_simps(1-6) file_info_depth split: option.splits)
qed

lemma jstrmap_Some: "strmap_ok l \<Longrightarrow> jstrmap (Some l) = JObj (map (\<lambda>(k, v). (k, JStr v)) l)"
  by (simp add: jstrmap_def strmap_sorted)

interpretation compute_run_request_msg: payload_codec compute_run_request_to_json
    compute_run_request_fields no_compute_run_request compute_run_request_ok
proof
  fix x
  assume ok: "compute_run_request_ok x"
  have nil: "jstrmap None = JNull"
    by (simp add: jstrmap_def)
  show "into_struct compute_run_request_fields (compute_run_request_to_json x) no_compute_run_request = (x, True)"
    using ok
    by (cases "crq_env x"; cases "crq_args x")
      (auto simp: compute_run_request_ok_def compute_run_request_to_json_def jstrmap_Some nil
        compute_run_request_fields_def no_compute_run_request_def struct_simps(1-7))
  show "json_ok (compute_run_request_to_json x)"
    using ok
    by (cases "crq_env x"; cases "crq_args x")
      (auto simp: compute_run_request_ok_def compute_run_request_to_json_def jstrmap_Some nil
        strmap_json_ok struct_simps(1-7) valid_utf8_ascii list_all_iff [of valid_utf8] simp del: json_ok_map)
  show "json_depth (compute_run_request_to_json x) \<le> 9999" "json_depth (compute_run_request_to_json x) \<le> 9998"
    using ok
    by (cases "crq_env x"; cases "crq_args x";
        auto simp: compute_run_request_ok_def compute_run_request_to_json_def jstrmap_Some nil struct_simps(1-7))+
qed

lemma file_entry_json_ok: "file_entry_ok e \<Longrightarrow> json_ok (file_entry_to_json e)"
proof (induction e)
  case (FileEntry d f s i c)
  then show ?case
    by (cases c) (auto simp: struct_simps(1-6) valid_utf8_ascii list_all_iff)
qed

lemma file_entries_read:
  assumes "list_all file_entry_ok l" "list_all (\<lambda>e. json_depth (file_entry_to_json e) \<le> 9990) l"
  shows "as_list no_entry (as_struct (file_entry_fields 10000) no_entry) (JArr (map file_entry_to_json l)) = Some l"
proof (rule as_list_map)
  fix e
  assume "e \<in> set l"
  then have "file_entry_ok e" "json_depth (file_entry_to_json e) \<le> 10000"
    using assms by (auto simp: list_all_iff)
  then have "as_struct (file_entry_fields 10000) no_entry (file_entry_to_json e) = Some e"
    by (intro as_struct_into file_entry_decode)
  moreover have "file_entry_to_json e \<noteq> JNull" by (cases e) simp
  ultimately show "as_struct (file_entry_fields 10000) no_entry (file_entry_to_json e) = Some e
      \<and> file_entry_to_json e \<noteq> JNull" ..
qed

interpretation file_list_response_msg: payload_codec file_list_response_to_json
    file_list_response_fields no_file_list_response file_list_response_ok
proof
  fix x
  assume ok: "file_list_response_ok x"
  show "into_struct file_list_response_fields (file_list_response_to_json x) no_file_list_response = (x, True)"
    using ok file_entries_read
    by (cases "flr_files x")
      (auto simp: file_list_response_ok_def file_list_response_to_json_def
        file_list_response_fields_def no_file_list_response_def struct_simps(1-7))
  show "json_ok (file_list_response_to_json x)"
    using ok
    by (cases "flr_files x")
      (auto simp: file_list_response_ok_def file_list_response_to_json_def struct_simps(1-7)
        valid_utf8_ascii list_all_iff file_entry_json_ok)
  have "json_depth (file_list_response_to_json x) \<le> 9992"
    using ok
    by (cases "flr_files x")
      (auto simp: file_list_response_ok_def file_list_response_to_json_def struct_simps(1-7)
        list_all_iff)
  then show "json_depth (file_list_response_to_json x) \<le> 9999"
    "json_depth (file_list_response_to_json x) \<le> 9998" by simp_all
qed

end
