(* ===== verification/Handshake.thy ===== *)
theory Handshake
  imports Message_Codecs
begin

text \<open>
  \<open>p2p/protocols/common/protocol/handshake.go\<close>: a handshake is a JSON object with a type and an
  optional payload, carried as the data of a tunneling packet.  The constructors build the packet of
  each message; the interpretations of \<open>message\<close> show that the peer's decoder gets the message back.
\<close>

section \<open>Handshake packets\<close>

record handshake =
  h_type :: handshake_type
  h_payload :: "json option"

definition handshake_to_json :: "handshake \<Rightarrow> json" where
  "handshake_to_json h = jobj
     [fld ''type'' (JStr (h_type h)),
      fld_omit (h_payload h = None) ''payload'' (case h_payload h of None \<Rightarrow> JNull | Some v \<Rightarrow> v)]"

definition handshake_fields :: "handshake fields" where
  "handshake_fields =
     [(''type'', set_val as_str (\<lambda>s h. h\<lparr>h_type := s\<rparr>)),
      (''payload'', set_raw (\<lambda>v h. h\<lparr>h_payload := v\<rparr>))]"

definition no_handshake :: handshake where
  "no_handshake = \<lparr>h_type = [], h_payload = None\<rparr>"

text \<open>The payload argument is the JSON value of the payload struct, or \<open>None\<close> for a nil interface.\<close>

definition NewHandshakePacket :: "handshake_type \<Rightarrow> json option \<Rightarrow> packet result" where
  "NewHandshakePacket t payload =
     NewTunnelingPacket (Some (json_text (handshake_to_json \<lparr>h_type = t, h_payload = payload\<rparr>)))"

definition UnmarshalHandshakePacket :: "packet option \<Rightarrow> handshake result" where
  "UnmarshalHandshakePacket p = (case p of
      None \<Rightarrow> Inl (Err ''packet is nil'')
    | Some pk \<Rightarrow>
        if p_type pk \<noteq> PacketTypeTunneling
        then Inl (Err (''packet is not a tunneling packet, got type: '' @ p_type pk))
        else (case UnmarshalTunnelingContent p of
            Inl e \<Rightarrow> Inl (Wrap ''failed to unmarshal tunneling content'' e)
          | Inr tc \<Rightarrow> (case unmarshal handshake_fields (tc_data tc) no_handshake of
                (h, True) \<Rightarrow> Inr h
              | (_, False) \<Rightarrow> Inl (Wrap ''failed to unmarshal handshake packet content'' JsonErr))))"

text \<open>The target is the struct to fill (\<open>None\<close>: nil); the answer is the target and the error.\<close>

definition UnmarshalPayload :: "'r fields \<Rightarrow> handshake option \<Rightarrow> 'r option \<Rightarrow> 'r option \<times> goerr option" where
  "UnmarshalPayload flds h v = (case h of
      None \<Rightarrow> (v, Some (Err ''handshake packet is nil''))
    | Some h \<Rightarrow> (case h_payload h of
          None \<Rightarrow> (v, None)
        | Some w \<Rightarrow> (case v of
              None \<Rightarrow> (None, Some (Err ''target is nil''))
            | Some r \<Rightarrow> (case into_struct flds w r of
                  (r', True) \<Rightarrow> (Some r', None)
                | (r', False) \<Rightarrow> (Some r', Some (Wrap ''failed to unmarshal handshake payload'' JsonErr))))))"

definition MarshalPayload :: "handshake option \<Rightarrow> json option \<Rightarrow> handshake option \<times> goerr option" where
  "MarshalPayload h v = (case h of
      None \<Rightarrow> (None, Some (Err ''handshake packet is nil''))
    | Some h \<Rightarrow> (Some (h\<lparr>h_payload := Some (case v of None \<Rightarrow> JNull | Some w \<Rightarrow> w)\<rparr>), None))"

text \<open>What a handler does with a packet: decode the handshake, then its payload into a zero struct.\<close>

definition receive_payload :: "'r fields \<Rightarrow> 'r \<Rightarrow> packet option \<Rightarrow> (handshake_type \<times> 'r) result" where
  "receive_payload flds zero p = (case UnmarshalHandshakePacket p of
      Inl e \<Rightarrow> Inl e
    | Inr h \<Rightarrow> (case UnmarshalPayload flds (Some h) (Some zero) of
          (Some r, None) \<Rightarrow> Inr (h_type h, r)
        | (_, Some e) \<Rightarrow> Inl e
        | (None, None) \<Rightarrow> Inr (h_type h, zero)))"

section \<open>Constructors\<close>

definition NewHelloPacket :: "bytes \<Rightarrow> bytes \<Rightarrow> packet result" where
  "NewHelloPacket version clientID = NewHandshakePacket HandshakeTypeHello (Some (hello_payload_to_json
       \<lparr>hp_version = version, hp_client_id = clientID\<rparr>))"

definition NewHelloAckPacket :: "packet result" where
  "NewHelloAckPacket = NewHandshakePacket HandshakeTypeHelloAck None"

definition NewProxyOpenPacket :: "bytes \<Rightarrow> bytes \<Rightarrow> bytes \<Rightarrow> packet result" where
  "NewProxyOpenPacket proxyID remoteAddr protocol = NewHandshakePacket HandshakeTypeProxyOpen (Some (proxy_open_request_to_json
       \<lparr>po_proxy_id = proxyID, po_remote_addr = remoteAddr, po_protocol = protocol\<rparr>))"

definition NewProxyOpenedPacket :: "bytes \<Rightarrow> bool \<Rightarrow> u32 \<Rightarrow> bytes \<Rightarrow> packet result" where
  "NewProxyOpenedPacket proxyID ok streamID errMsg = NewHandshakePacket HandshakeTypeProxyOpened (Some (proxy_open_response_to_json
       \<lparr>por_proxy_id = proxyID, por_success = ok, por_error = errMsg, por_stream_id = streamID\<rparr>))"

definition NewProxyClosePacket :: "bytes \<Rightarrow> packet result" where
  "NewProxyClosePacket proxyID = NewHandshakePacket HandshakeTypeProxyClose (Some (proxy_close_request_to_json
       \<lparr>pc_proxy_id = proxyID\<rparr>))"

definition NewProxyClosedPacket :: "bytes \<Rightarrow> bool \<Rightarrow> bytes \<Rightarrow> packet result" where
  "NewProxyClosedPacket proxyID ok errMsg = NewHandshakePacket HandshakeTypeProxyClosed (Some (proxy_closed_response_to_json
       \<lparr>pcr_proxy_id = proxyID, pcr_success = ok, pcr_error = errMsg\<rparr>))"

definition NewProxyListPacket :: "packet result" where
  "NewProxyListPacket = NewHandshakePacket HandshakeTypeProxyList (Some (JObj []))"

definition NewProxyListResponsePacket :: "proxy_info list option \<Rightarrow> packet result" where
  "NewProxyListResponsePacket proxies = NewHandshakePacket HandshakeTypeProxyListResp (Some (proxy_list_response_to_json
       \<lparr>plr_proxies = proxies\<rparr>))"

definition NewErrorPacket :: "bytes \<Rightarrow> bytes \<Rightarrow> packet result" where
  "NewErrorPacket code message = NewHandshakePacket HandshakeTypeError (Some (error_payload_to_json
       \<lparr>ep_code = code, ep_message = message\<rparr>))"

definition NewFileHelloPacket :: "bytes \<Rightarrow> bytes \<Rightarrow> bytes list option \<Rightarrow> packet result" where
  "NewFileHelloPacket version clientID features = NewHandshakePacket HandshakeTypeFileHello (Some (file_hello_payload_to_json
       \<lparr>fh_version = version, fh_client_id = clientID, fh_features = features\<rparr>))"

definition NewFileHelloAckPacket :: "packet result" where
  "NewFileHelloAckPacket = NewHandshakePacket HandshakeTypeFileHelloAck None"

definition NewFileListPacket :: "bytes \<Rightarrow> bool \<Rightarrow> packet result" where
  "NewFileListPacket path recursive = NewHandshakePacket HandshakeTypeFileList (Some (file_list_request_to_json
       \<lparr>flq_path = path, flq_recursive = recursive\<rparr>))"

definition NewFileListResponsePacket :: "bool \<Rightarrow> file_entry list option \<Rightarrow> bytes \<Rightarrow> packet result" where
  "NewFileListResponsePacket ok files errMsg = NewHandshakePacket HandshakeTypeFileListResponse (Some (file_list_response_to_json
       \<lparr>flr_success = ok, flr_files = files, flr_error = errMsg\<rparr>))"

definition NewFileGetPacket :: "bytes \<Rightarrow> packet result" where
  "NewFileGetPacket fileName = NewHandshakePacket HandshakeTypeFileGet (Some (file_get_request_to_json
       \<lparr>fgq_file_name = fileName\<rparr>))"

definition NewFileGetResponsePacket :: "bool \<Rightarrow> u32 \<Rightarrow> file_info option \<Rightarrow> bytes \<Rightarrow> packet result" where
  "NewFileGetResponsePacket ok streamID fileInfo errMsg = NewHandshakePacket HandshakeTypeFileGetResponse (Some (file_get_response_to_json
       \<lparr>fgr_success = ok, fgr_stream_id = streamID, fgr_file_info = fileInfo, fgr_error = errMsg\<rparr>))"

definition NewFileSendPacket :: "bytes \<Rightarrow> packet result" where
  "NewFileSendPacket fileName = NewHandshakePacket HandshakeTypeFileSend (Some (file_send_request_to_json
       \<lparr>fsq_file_name = fileName\<rparr>))"

definition NewFileSendResponsePacket :: "bool \<Rightarrow> u32 \<Rightarrow> bytes \<Rightarrow> packet result" where
  "NewFileSendResponsePacket ok streamID errMsg = NewHandshakePacket HandshakeTypeFileSendResponse (Some (file_send_response_to_json
       \<lparr>fsr_success = ok, fsr_stream_id = streamID, fsr_error = errMsg\<rparr>))"

definition NewFileErrorPacket :: "bytes \<Rightarrow> bytes \<Rightarrow> packet result" where
  "NewFileErrorPacket code message = NewHandshakePacket HandshakeTypeFileError (Some (error_payload_to_json
       \<lparr>ep_code = code, ep_message = message\<rparr>))"

definition NewComputeHelloPacket :: "bytes \<Rightarrow> bytes \<Rightarrow> packet result" where
  "NewComputeHelloPacket version clientID = NewHandshakePacket HandshakeTypeComputeHello (Some (compute_hello_payload_to_json
       \<lparr>ch_client_id = clientID, ch_version = version\<rparr>))"

definition NewComputeHelloAckPacket :: "packet result" where
  "NewComputeHelloAckPacket = NewHandshakePacket HandshakeTypeComputeHelloAck (Some (compute_hello_ack_payload_to_json
       \<lparr>cha_server_id = [], cha_version = []\<rparr>))"

definition NewComputeRunPacket :: "compute_run_request \<Rightarrow> packet result" where
  "NewComputeRunPacket req = NewHandshakePacket HandshakeTypeComputeRun (Some (compute_run_request_to_json req))"

definition NewComputeRunResponsePacket :: "bytes \<Rightarrow> bool \<Rightarrow> u32 \<Rightarrow> u32 \<Rightarrow> u32 \<Rightarrow> u32 \<Rightarrow> bytes \<Rightarrow> packet result" where
  "NewComputeRunResponsePacket runID accepted stdinID stdoutID stderrID logID errMsg = NewHandshakePacket HandshakeTypeComputeRunResponse (Some (compute_run_response_to_json
       \<lparr>crr_run_id = runID, crr_accepted = accepted, crr_stdin_id = stdinID, crr_stdout_id = stdoutID, crr_stderr_id = stderrID, crr_log_id = logID, crr_error = errMsg\<rparr>))"

definition NewComputeCancelPacket :: "compute_cancel_request \<Rightarrow> packet result" where
  "NewComputeCancelPacket req = NewHandshakePacket HandshakeTypeComputeCancel (Some (compute_cancel_request_to_json req))"

definition NewComputeCancelResponsePacket :: "bytes \<Rightarrow> bool \<Rightarrow> bytes \<Rightarrow> packet result" where
  "NewComputeCancelResponsePacket runID ok errMsg = NewHandshakePacket HandshakeTypeComputeCancelResponse (Some (compute_cancel_response_to_json
       \<lparr>ccr_run_id = runID, ccr_success = ok, ccr_error = errMsg\<rparr>))"

definition NewComputeStatusPacket :: "compute_status_request \<Rightarrow> packet result" where
  "NewComputeStatusPacket req = NewHandshakePacket HandshakeTypeComputeStatus (Some (compute_status_request_to_json req))"

definition NewComputeStatusResponsePacket :: "compute_status_response \<Rightarrow> packet result" where
  "NewComputeStatusResponsePacket resp = NewHandshakePacket HandshakeTypeComputeStatusResponse (Some (compute_status_response_to_json resp))"

definition NewComputeErrorPacket :: "bytes \<Rightarrow> bytes \<Rightarrow> packet result" where
  "NewComputeErrorPacket code detail = NewHandshakePacket HandshakeTypeComputeError (Some (compute_error_payload_to_json
       \<lparr>cep_run_id = [], cep_code = code, cep_detail = detail\<rparr>))"

section \<open>Round trips\<close>

definition handshake_ok :: "handshake \<Rightarrow> bool" where
  "handshake_ok h \<longleftrightarrow> valid_utf8 (h_type h)
     \<and> (case h_payload h of None \<Rightarrow> True | Some v \<Rightarrow> json_ok v \<and> json_depth v \<le> 9998)"

text \<open>The constructor's packet can be framed, and the peer's handler gets this type and payload.\<close>

definition delivers :: "packet result \<Rightarrow> 'r fields \<Rightarrow> 'r \<Rightarrow> handshake_type \<Rightarrow> 'r \<Rightarrow> bool" where
  "delivers r flds zero ty x \<longleftrightarrow> (case r of
      Inl _ \<Rightarrow> False
    | Inr p \<Rightarrow> packet_ok p \<and> receive_payload flds zero (Some p) = Inr (ty, x))"

interpretation handshake_struct: struct_codec handshake_to_json handshake_fields no_handshake handshake_ok
  by unfold_locales
    (auto simp: handshake_to_json_def handshake_fields_def no_handshake_def handshake_ok_def
      struct_simps(1-7) valid_utf8_ascii split: option.splits)

lemma NewHandshakePacket_Inr: "\<exists>p. NewHandshakePacket t v = Inr p"
  by (simp add: NewHandshakePacket_def NewTunnelingPacket_def)

lemma NewHandshakePacket_ok: "NewHandshakePacket t v = Inr p \<Longrightarrow> packet_ok p"
  using NewTunnelingPacket_ok by (auto simp: NewHandshakePacket_def)

lemma handshake_received:
  assumes "NewHandshakePacket t v = Inr p" "handshake_ok \<lparr>h_type = t, h_payload = v\<rparr>"
  shows "UnmarshalHandshakePacket (Some p) = Inr \<lparr>h_type = t, h_payload = v\<rparr>"
proof -
  have "p_type p = PacketTypeTunneling"
    using assms(1) by (auto simp: NewHandshakePacket_def NewTunnelingPacket_def)
  moreover have "UnmarshalTunnelingContent (Some p) =
      Inr \<lparr>tc_data = json_text (handshake_to_json \<lparr>h_type = t, h_payload = v\<rparr>)\<rparr>"
    using tunneling_roundtrip assms(1) unfolding NewHandshakePacket_def by fastforce
  ultimately show ?thesis
    using handshake_struct.unmarshal_text [OF assms(2)] by (simp add: UnmarshalHandshakePacket_def)
qed

text \<open>
  A message: a payload struct sent under a handshake type.  Whatever a constructor sends is what the
  peer's handler receives, and the packet can be framed on the control stream.
\<close>

locale message = payload_codec +
  fixes ty :: handshake_type
  assumes ty_ok: "valid_utf8 ty"
begin

lemma received:
  assumes "NewHandshakePacket ty (Some (tj x)) = Inr p" "good x"
  shows "receive_payload flds zero (Some p) = Inr (ty, x)"
proof -
  have "handshake_ok \<lparr>h_type = ty, h_payload = Some (tj x)\<rparr>"
    using ty_ok text_of_payload [OF assms(2)] by (simp add: handshake_ok_def)
  then have "UnmarshalHandshakePacket (Some p) = Inr \<lparr>h_type = ty, h_payload = Some (tj x)\<rparr>"
    by (rule handshake_received [OF assms(1)])
  then show ?thesis
    using decode [OF assms(2)] by (simp add: receive_payload_def UnmarshalPayload_def)
qed

lemma delivered: "good x \<Longrightarrow> delivers (NewHandshakePacket ty (Some (tj x))) flds zero ty x"
  using received [of x] NewHandshakePacket_ok [of ty "Some (tj x)"] NewHandshakePacket_Inr [of ty "Some (tj x)"]
  by (auto simp: delivers_def)

end

lemma types_valid: "\<forall>t \<in> set handshake_types. valid_utf8 t"
  by (simp add: handshake_types_def type_defs valid_utf8_ascii)

interpretation hello: message hello_payload_to_json hello_payload_fields no_hello_payload hello_payload_ok HandshakeTypeHello
  by unfold_locales (use types_valid in \<open>simp add: handshake_types_def\<close>)

interpretation proxy_open: message proxy_open_request_to_json proxy_open_request_fields no_proxy_open_request proxy_open_request_ok HandshakeTypeProxyOpen
  by unfold_locales (use types_valid in \<open>simp add: handshake_types_def\<close>)

interpretation proxy_opened: message proxy_open_response_to_json proxy_open_response_fields no_proxy_open_response proxy_open_response_ok HandshakeTypeProxyOpened
  by unfold_locales (use types_valid in \<open>simp add: handshake_types_def\<close>)

interpretation proxy_close: message proxy_close_request_to_json proxy_close_request_fields no_proxy_close_request proxy_close_request_ok HandshakeTypeProxyClose
  by unfold_locales (use types_valid in \<open>simp add: handshake_types_def\<close>)

interpretation proxy_closed: message proxy_closed_response_to_json proxy_closed_response_fields no_proxy_closed_response proxy_closed_response_ok HandshakeTypeProxyClosed
  by unfold_locales (use types_valid in \<open>simp add: handshake_types_def\<close>)

interpretation proxy_listed: message proxy_list_response_to_json proxy_list_response_fields no_proxy_list_response proxy_list_response_ok HandshakeTypeProxyListResp
  by unfold_locales (use types_valid in \<open>simp add: handshake_types_def\<close>)

interpretation error_sent: message error_payload_to_json error_payload_fields no_error_payload error_payload_ok HandshakeTypeError
  by unfold_locales (use types_valid in \<open>simp add: handshake_types_def\<close>)

interpretation file_hello: message file_hello_payload_to_json file_hello_payload_fields no_file_hello_payload file_hello_payload_ok HandshakeTypeFileHello
  by unfold_locales (use types_valid in \<open>simp add: handshake_types_def\<close>)

interpretation file_list: message file_list_request_to_json file_list_request_fields no_file_list_request file_list_request_ok HandshakeTypeFileList
  by unfold_locales (use types_valid in \<open>simp add: handshake_types_def\<close>)

interpretation file_listed: message file_list_response_to_json file_list_response_fields no_file_list_response file_list_response_ok HandshakeTypeFileListResponse
  by unfold_locales (use types_valid in \<open>simp add: handshake_types_def\<close>)

interpretation file_get: message file_get_request_to_json file_get_request_fields no_file_get_request file_get_request_ok HandshakeTypeFileGet
  by unfold_locales (use types_valid in \<open>simp add: handshake_types_def\<close>)

interpretation file_got: message file_get_response_to_json file_get_response_fields no_file_get_response file_get_response_ok HandshakeTypeFileGetResponse
  by unfold_locales (use types_valid in \<open>simp add: handshake_types_def\<close>)

interpretation file_send: message file_send_request_to_json file_send_request_fields no_file_send_request file_send_request_ok HandshakeTypeFileSend
  by unfold_locales (use types_valid in \<open>simp add: handshake_types_def\<close>)

interpretation file_sent: message file_send_response_to_json file_send_response_fields no_file_send_response file_send_response_ok HandshakeTypeFileSendResponse
  by unfold_locales (use types_valid in \<open>simp add: handshake_types_def\<close>)

interpretation file_err: message error_payload_to_json error_payload_fields no_error_payload error_payload_ok HandshakeTypeFileError
  by unfold_locales (use types_valid in \<open>simp add: handshake_types_def\<close>)

interpretation compute_hello: message compute_hello_payload_to_json compute_hello_payload_fields no_compute_hello_payload compute_hello_payload_ok HandshakeTypeComputeHello
  by unfold_locales (use types_valid in \<open>simp add: handshake_types_def\<close>)

interpretation compute_hello_ack: message compute_hello_ack_payload_to_json compute_hello_ack_payload_fields no_compute_hello_ack_payload compute_hello_ack_payload_ok HandshakeTypeComputeHelloAck
  by unfold_locales (use types_valid in \<open>simp add: handshake_types_def\<close>)

interpretation compute_run: message compute_run_request_to_json compute_run_request_fields no_compute_run_request compute_run_request_ok HandshakeTypeComputeRun
  by unfold_locales (use types_valid in \<open>simp add: handshake_types_def\<close>)

interpretation compute_ran: message compute_run_response_to_json compute_run_response_fields no_compute_run_response compute_run_response_ok HandshakeTypeComputeRunResponse
  by unfold_locales (use types_valid in \<open>simp add: handshake_types_def\<close>)

interpretation compute_cancel: message compute_cancel_request_to_json compute_cancel_request_fields no_compute_cancel_request compute_cancel_request_ok HandshakeTypeComputeCancel
  by unfold_locales (use types_valid in \<open>simp add: handshake_types_def\<close>)

interpretation compute_canceled: message compute_cancel_response_to_json compute_cancel_response_fields no_compute_cancel_response compute_cancel_response_ok HandshakeTypeComputeCancelResponse
  by unfold_locales (use types_valid in \<open>simp add: handshake_types_def\<close>)

interpretation compute_status: message compute_status_request_to_json compute_status_request_fields no_compute_status_request compute_status_request_ok HandshakeTypeComputeStatus
  by unfold_locales (use types_valid in \<open>simp add: handshake_types_def\<close>)

interpretation compute_statused: message compute_status_response_to_json compute_status_response_fields no_compute_status_response compute_status_response_ok HandshakeTypeComputeStatusResponse
  by unfold_locales (use types_valid in \<open>simp add: handshake_types_def\<close>)

interpretation compute_err: message compute_error_payload_to_json compute_error_payload_fields no_compute_error_payload compute_error_payload_ok HandshakeTypeComputeError
  by unfold_locales (use types_valid in \<open>simp add: handshake_types_def\<close>)

lemma handshake_types_distinct: "distinct handshake_types"
  by (simp add: handshake_types_def type_defs)

section \<open>How long packets are\<close>

lemma length_b64_enc: "length (b64_enc b) \<le> 4 * length b"
proof (induction b rule: b64_enc.induct)
  case (4 a b c r)
  then have "length (b64_enc r) \<le> 4 * length r" by blast
  then show ?case by (simp add: Let_def)
qed (simp_all add: Let_def)

lemma length_json_esc: "length (json_esc s) \<le> 6 * length s"
proof (induction s rule: json_esc.induct)
  case (2 c cs)
  have ascii: "length (esc_ascii c) \<le> 6" by (simp add: esc_ascii_def Let_def)
  have rune: "length (esc_rune s) \<le> 2 * length s" for s by (simp add: esc_rune_def)
  have "length (esc_rune (take n (c # cs))) + length (json_esc (drop (n - 1) cs)) \<le> 6 * length (c # cs)"
    if "length (json_esc (drop (n - 1) cs)) \<le> 6 * length (drop (n - 1) cs)" "0 < n" for n
    using rune [of "take n (c # cs)"] that by (auto simp: min_def split: if_splits)
  then show ?case using 2 ascii by (auto simp: json_esc.simps(2) Let_def)
qed (simp add: json_esc.simps)

lemma length_json_quote: "length (json_quote s) \<le> 6 * length s + 2"
  using length_json_esc [of s] by (simp add: json_quote_def)

lemma length_handshake_text:
  "length (json_text (handshake_to_json \<lparr>h_type = t, h_payload = v\<rparr>))
     \<le> 6 * length t + 100 + (case v of None \<Rightarrow> 0 | Some w \<Rightarrow> length (json_text w))"
  using length_json_quote [of t] length_json_quote [of "''type''"] length_json_quote [of "''payload''"]
  by (cases v) (simp_all add: handshake_to_json_def struct_simps(1-3))

lemma NewHandshakePacket_length:
  assumes "NewHandshakePacket t v = Inr p"
  shows "length (packet_data p) \<le> 144 * length t + 3000 + 24 * (case v of None \<Rightarrow> 0 | Some w \<Rightarrow> length (json_text w))"
proof -
  let ?d = "json_text (handshake_to_json \<lparr>h_type = t, h_payload = v\<rparr>)"
  have "length (packet_data p) \<le> 24 * length ?d + 200"
    using assms length_json_quote [of "''type''"] length_json_quote [of "''content''"]
      length_json_quote [of "''data''"] length_json_quote [of "''tunneling''"]
      length_json_quote [of "b64_enc ?d"] length_b64_enc [of ?d]
    by (auto simp: NewHandshakePacket_def NewTunnelingPacket_def packet_data_def packet_to_json_def
        tunneling_to_json_def struct_simps(1-3) PacketTypeTunneling_def)
  then show ?thesis using length_handshake_text [of t v] by simp
qed

section \<open>Properties\<close>

text \<open>
  A handshake built from any type and any JSON payload is decoded by the peer to the same type
  and payload, also when there is no payload.
\<close>

theorem handshake_roundtrip:
  assumes "handshake_ok \<lparr>h_type = t, h_payload = v\<rparr>"
  shows "\<exists>p. NewHandshakePacket t v = Inr p \<and> packet_ok p
    \<and> UnmarshalHandshakePacket (Some p) = Inr \<lparr>h_type = t, h_payload = v\<rparr>"
  using NewHandshakePacket_Inr [of t v] NewHandshakePacket_ok handshake_received assms by blast

theorem handshake_roundtrip_witness:
  "\<exists>p. NewHandshakePacket ''hello'' (Some (JObj [(''version'', JStr ''1.0'')])) = Inr p \<and> packet_ok p
    \<and> UnmarshalHandshakePacket (Some p)
        = Inr \<lparr>h_type = ''hello'', h_payload = Some (JObj [(''version'', JStr ''1.0'')])\<rparr>"
  by (rule handshake_roundtrip) (simp add: handshake_ok_def valid_utf8_ascii)

text \<open>
  The proxy control messages: what a client or server sends with a constructor arrives at the
  other side as the same request or response, for every proxy id, address, protocol, stream id and
  error text that is valid UTF-8.
\<close>

theorem proxy_messages_delivered:
  assumes "valid_utf8 i" "valid_utf8 addr" "valid_utf8 proto" "valid_utf8 msg" "list_all proxy_info_ok l"
  shows "delivers (NewProxyOpenPacket i addr proto) proxy_open_request_fields no_proxy_open_request
      HandshakeTypeProxyOpen \<lparr>po_proxy_id = i, po_remote_addr = addr, po_protocol = proto\<rparr>
    \<and> delivers (NewProxyOpenedPacket i ok sid msg) proxy_open_response_fields no_proxy_open_response
      HandshakeTypeProxyOpened \<lparr>por_proxy_id = i, por_success = ok, por_error = msg, por_stream_id = sid\<rparr>
    \<and> delivers (NewProxyClosePacket i) proxy_close_request_fields no_proxy_close_request
      HandshakeTypeProxyClose \<lparr>pc_proxy_id = i\<rparr>
    \<and> delivers (NewProxyClosedPacket i ok msg) proxy_closed_response_fields no_proxy_closed_response
      HandshakeTypeProxyClosed \<lparr>pcr_proxy_id = i, pcr_success = ok, pcr_error = msg\<rparr>
    \<and> delivers (NewProxyListResponsePacket (Some l)) proxy_list_response_fields no_proxy_list_response
      HandshakeTypeProxyListResp \<lparr>plr_proxies = Some l\<rparr>
    \<and> delivers (NewErrorPacket i msg) error_payload_fields no_error_payload
      HandshakeTypeError \<lparr>ep_code = i, ep_message = msg\<rparr>"
  unfolding NewProxyOpenPacket_def NewProxyOpenedPacket_def NewProxyClosePacket_def
    NewProxyClosedPacket_def NewProxyListResponsePacket_def NewErrorPacket_def
  by (intro conjI proxy_open.delivered proxy_opened.delivered proxy_close.delivered
      proxy_closed.delivered proxy_listed.delivered error_sent.delivered)
    (use assms in \<open>simp_all add: proxy_open_request_ok_def proxy_open_response_ok_def
      proxy_close_request_ok_def proxy_closed_response_ok_def proxy_list_response_ok_def error_payload_ok_def\<close>)

theorem proxy_messages_witness:
  "delivers (NewProxyOpenPacket ''p1'' ''10.0.0.1:22'' ''tcp'') proxy_open_request_fields
      no_proxy_open_request HandshakeTypeProxyOpen
      \<lparr>po_proxy_id = ''p1'', po_remote_addr = ''10.0.0.1:22'', po_protocol = ''tcp''\<rparr>"
  using proxy_messages_delivered [of "''p1''" "''10.0.0.1:22''" "''tcp''" "[]" "[]"]
  by (simp add: valid_utf8_ascii)

text \<open>
  A directory listing of any shape, subdirectories included, arrives as it was sent, as long as
  it is not nested deeper than \<open>encoding/json\<close> allows.
\<close>

theorem file_list_delivered:
  assumes "file_list_response_ok \<lparr>flr_success = ok, flr_files = fs, flr_error = msg\<rparr>"
  shows "delivers (NewFileListResponsePacket ok fs msg) file_list_response_fields no_file_list_response
    HandshakeTypeFileListResponse \<lparr>flr_success = ok, flr_files = fs, flr_error = msg\<rparr>"
  unfolding NewFileListResponsePacket_def by (rule file_listed.delivered [OF assms])

theorem file_list_witness:
  "delivers (NewFileListResponsePacket True
      (Some [FileEntry ''/'' ''d'' 0 True (Some [FileEntry ''d'' ''a'' 3 False None])]) [])
     file_list_response_fields no_file_list_response HandshakeTypeFileListResponse
     \<lparr>flr_success = True,
      flr_files = Some [FileEntry ''/'' ''d'' 0 True (Some [FileEntry ''d'' ''a'' 3 False None])],
      flr_error = []\<rparr>"
  by (rule file_list_delivered)
    (simp add: file_list_response_ok_def valid_utf8_ascii struct_simps(1-3))

text \<open>
  The file transfer messages arrive as they were sent, with the identifier of the data stream and
  the file's size and checksum.
\<close>

theorem file_messages_delivered:
  assumes "valid_utf8 n" "valid_utf8 msg" "case fi of None \<Rightarrow> True | Some i \<Rightarrow> file_info_ok i"
  shows "delivers (NewFileListPacket n rec) file_list_request_fields no_file_list_request
      HandshakeTypeFileList \<lparr>flq_path = n, flq_recursive = rec\<rparr>
    \<and> delivers (NewFileGetPacket n) file_get_request_fields no_file_get_request
      HandshakeTypeFileGet \<lparr>fgq_file_name = n\<rparr>
    \<and> delivers (NewFileGetResponsePacket ok sid fi msg) file_get_response_fields no_file_get_response
      HandshakeTypeFileGetResponse
      \<lparr>fgr_success = ok, fgr_stream_id = sid, fgr_file_info = fi, fgr_error = msg\<rparr>
    \<and> delivers (NewFileSendPacket n) file_send_request_fields no_file_send_request
      HandshakeTypeFileSend \<lparr>fsq_file_name = n\<rparr>
    \<and> delivers (NewFileSendResponsePacket ok sid msg) file_send_response_fields no_file_send_response
      HandshakeTypeFileSendResponse \<lparr>fsr_success = ok, fsr_stream_id = sid, fsr_error = msg\<rparr>
    \<and> delivers (NewFileErrorPacket n msg) error_payload_fields no_error_payload
      HandshakeTypeFileError \<lparr>ep_code = n, ep_message = msg\<rparr>"
  unfolding NewFileListPacket_def NewFileGetPacket_def NewFileGetResponsePacket_def
    NewFileSendPacket_def NewFileSendResponsePacket_def NewFileErrorPacket_def
  by (intro conjI file_list.delivered file_get.delivered file_got.delivered
      file_send.delivered file_sent.delivered file_err.delivered)
    (use assms in \<open>simp_all add: file_list_request_ok_def file_get_request_ok_def
      file_get_response_ok_def file_send_request_ok_def file_send_response_ok_def error_payload_ok_def\<close>)

theorem file_messages_witness:
  "delivers (NewFileGetResponsePacket True 7 (Some \<lparr>fi_filename = ''a'', fi_size = 3, fi_checksum = ''00ff''\<rparr>) [])
     file_get_response_fields no_file_get_response HandshakeTypeFileGetResponse
     \<lparr>fgr_success = True, fgr_stream_id = 7,
      fgr_file_info = Some \<lparr>fi_filename = ''a'', fi_size = 3, fi_checksum = ''00ff''\<rparr>, fgr_error = []\<rparr>"
  using file_messages_delivered [of "''a''" "[]" "Some \<lparr>fi_filename = ''a'', fi_size = 3, fi_checksum = ''00ff''\<rparr>"]
  by (simp add: valid_utf8_ascii file_info_ok_def)

text \<open>
  The compute messages arrive as they were sent: the command with its arguments, environment and
  directory, the four stream identifiers of the answer, and the status of a run with its exit code.
\<close>

theorem compute_messages_delivered:
  assumes "compute_run_request_ok q" "compute_status_response_ok s" "valid_utf8 i" "valid_utf8 msg"
  shows "delivers (NewComputeRunPacket q) compute_run_request_fields no_compute_run_request
      HandshakeTypeComputeRun q
    \<and> delivers (NewComputeRunResponsePacket i ok n0 n1 n2 n3 msg) compute_run_response_fields
      no_compute_run_response HandshakeTypeComputeRunResponse
      \<lparr>crr_run_id = i, crr_accepted = ok, crr_stdin_id = n0, crr_stdout_id = n1, crr_stderr_id = n2,
       crr_log_id = n3, crr_error = msg\<rparr>
    \<and> delivers (NewComputeCancelPacket \<lparr>ccq_run_id = i\<rparr>) compute_cancel_request_fields
      no_compute_cancel_request HandshakeTypeComputeCancel \<lparr>ccq_run_id = i\<rparr>
    \<and> delivers (NewComputeCancelResponsePacket i ok msg) compute_cancel_response_fields
      no_compute_cancel_response HandshakeTypeComputeCancelResponse
      \<lparr>ccr_run_id = i, ccr_success = ok, ccr_error = msg\<rparr>
    \<and> delivers (NewComputeStatusPacket \<lparr>csq_run_id = i\<rparr>) compute_status_request_fields
      no_compute_status_request HandshakeTypeComputeStatus \<lparr>csq_run_id = i\<rparr>
    \<and> delivers (NewComputeStatusResponsePacket s) compute_status_response_fields
      no_compute_status_response HandshakeTypeComputeStatusResponse s"
  unfolding NewComputeRunPacket_def NewComputeRunResponsePacket_def NewComputeCancelPacket_def
    NewComputeCancelResponsePacket_def NewComputeStatusPacket_def NewComputeStatusResponsePacket_def
  by (intro conjI compute_run.delivered compute_ran.delivered compute_cancel.delivered
      compute_canceled.delivered compute_status.delivered compute_statused.delivered)
    (use assms in \<open>simp_all add: compute_run_response_ok_def compute_cancel_request_ok_def
      compute_cancel_response_ok_def compute_status_request_ok_def\<close>)

theorem compute_messages_witness:
  "delivers (NewComputeRunPacket \<lparr>crq_run_id = ''r1'', crq_command = ''ls'', crq_args = Some [''-l''],
       crq_env = Some [(''A'', ''1'')], crq_working_dir = []\<rparr>)
     compute_run_request_fields no_compute_run_request HandshakeTypeComputeRun
     \<lparr>crq_run_id = ''r1'', crq_command = ''ls'', crq_args = Some [''-l''],
      crq_env = Some [(''A'', ''1'')], crq_working_dir = []\<rparr>"
  using compute_messages_delivered [of "\<lparr>crq_run_id = ''r1'', crq_command = ''ls'', crq_args = Some [''-l''],
      crq_env = Some [(''A'', ''1'')], crq_working_dir = []\<rparr>" no_compute_status_response "[]" "[]"]
  by (simp add: compute_run_request_ok_def compute_status_response_ok_def no_compute_status_response_def
      strmap_ok_def valid_utf8_ascii)

end
