(* ===== verification/Multiplexer.thy ===== *)
theory Multiplexer
  imports Streams
begin

text \<open>
  \<open>Multiplexer\<close> of \<open>p2p/protocols/common/multiplexer/multiplexer.go\<close>.  Stream objects live in a heap
  (\<open>objs\<close>, a \<open>*Stream\<close> is an index), because a client keeps its pointer after \<open>CloseStream\<close> has taken
  the identifier out of the map.  A method is one atomic step; a goroutine that would wait leaves the
  state as it was.  Where the code ranges over its map the visiting order is an argument.
\<close>

section \<open>State\<close>

definition MaxStreamID :: u32 where "MaxStreamID = 0xFFFFFFFF"

type_synonym addr = nat

record mux =
  m_conn :: conn
  objs :: "stream list"
  streams :: "u32 \<rightharpoonup> addr"
  nextID :: u32
  m_closed :: bool
  readErr :: "goerr option"

definition NewMultiplexer :: "conn option \<Rightarrow> mux option" where
  "NewMultiplexer c = (case c of
      None \<Rightarrow> None
    | Some c \<Rightarrow> Some \<lparr>m_conn = c, objs = [], streams = Map.empty, nextID = 1, m_closed = False, readErr = None\<rparr>)"

definition newStream :: "u32 \<Rightarrow> mux \<Rightarrow> addr \<times> mux" where
  "newStream i m = (length (objs m), m\<lparr>objs := objs m @ [fresh_stream i]\<rparr>)"

definition upd_obj :: "addr \<Rightarrow> (stream \<Rightarrow> stream) \<Rightarrow> mux \<Rightarrow> mux" where
  "upd_obj a f m = (if a < length (objs m) then m\<lparr>objs := (objs m)[a := f (objs m ! a)]\<rparr> else m)"

section \<open>Opening streams\<close>

text \<open>One round of the search in \<open>OpenStream\<close>: increment, and the two tests after it.\<close>

definition bump_id :: "u32 \<Rightarrow> u32" where
  "bump_id i = (let i = i + 1; i = (if i > MaxStreamID then 1 else i) in if i = 0 then 1 else i)"

text \<open>The search never ends when every identifier is taken.\<close>

partial_function (option) find_id :: "(u32 \<rightharpoonup> addr) \<Rightarrow> u32 \<Rightarrow> u32 option" where
  "find_id m i = (if m i = None then Some i else find_id m (bump_id i))"

text \<open>\<open>None\<close>: the call does not return.\<close>

definition OpenStream :: "mux \<Rightarrow> (addr result \<times> mux) option" where
  "OpenStream m =
     (if m_closed m then Some (Inl ErrClosedPipe, m)
      else case find_id (streams m) (nextID m) of
          None \<Rightarrow> None
        | Some i \<Rightarrow> (case newStream i (m\<lparr>nextID := i + 1\<rparr>) of
              (a, m') \<Rightarrow> Some (Inr a, m'\<lparr>streams := (streams m')(i \<mapsto> a)\<rparr>)))"

definition ControlStream :: "mux \<Rightarrow> addr result \<times> mux" where
  "ControlStream m =
     (if m_closed m then (Inl ErrClosedPipe, m)
      else case streams m 0 of
          Some a \<Rightarrow> (Inr a, m)
        | None \<Rightarrow> (case newStream 0 m of
              (a, m') \<Rightarrow> (Inr a, m'\<lparr>streams := (streams m')(0 \<mapsto> a)\<rparr>)))"

definition OpenStreamWithID :: "u32 \<Rightarrow> mux \<Rightarrow> addr result \<times> mux" where
  "OpenStreamWithID requestedID m =
     (if m_closed m then (Inl ErrClosedPipe, m)
      else if requestedID = 0 then (Inl ErrInvalidStreamID, m)
      else if streams m requestedID \<noteq> None
        then (Inl (Err (''stream '' @ show_nat (unat requestedID) @ '' already exists'')), m)
      else case newStream requestedID m of
          (a, m') \<Rightarrow>
            (let m' = m'\<lparr>streams := (streams m')(requestedID \<mapsto> a)\<rparr> in
             (Inr a, if requestedID \<ge> nextID m' then m'\<lparr>nextID := requestedID + 1\<rparr> else m')))"

definition GetStream :: "u32 \<Rightarrow> mux \<Rightarrow> addr result" where
  "GetStream i m = (case streams m i of None \<Rightarrow> Inl ErrStreamNotFound | Some a \<Rightarrow> Inr a)"

definition HasStream :: "u32 \<Rightarrow> mux option \<Rightarrow> bool" where
  "HasStream i m = (case m of None \<Rightarrow> False
     | Some m \<Rightarrow> (case GetStream i m of Inl _ \<Rightarrow> False | Inr _ \<Rightarrow> True))"

definition StreamCount :: "mux option \<Rightarrow> nat" where
  "StreamCount m = (case m of None \<Rightarrow> 0 | Some m \<Rightarrow> card (dom (streams m)))"

definition mux_IsClosed :: "mux option \<Rightarrow> bool" where
  "mux_IsClosed m = (case m of None \<Rightarrow> True | Some m \<Rightarrow> m_closed m)"

definition ReadError :: "mux option \<Rightarrow> goerr option" where
  "ReadError m = (case m of None \<Rightarrow> None | Some m \<Rightarrow> readErr m)"

section \<open>Writing\<close>

definition http_prefix :: "bytes \<Rightarrow> bool" where
  "http_prefix data \<longleftrightarrow> length data \<ge> 4 \<and>
     take 4 data \<in> {''GET '', ''POST'', ''PUT '', ''HEAD'', ''DELE'', ''OPTI''}"

text \<open>\<open>writeFull\<close>: write until everything is taken; \<open>w\<close> is \<open>totalWritten\<close>.\<close>

function writeFull :: "bytes \<Rightarrow> nat \<Rightarrow> conn \<Rightarrow> goerr option \<times> conn" where
  "writeFull p w c =
     (if w < length p then
        (case conn_write (drop w p) c of
           ((n, Some e), c') \<Rightarrow> (Some (if w > 0 then Wrap ''partial write'' e else e), c')
         | ((n, None), c') \<Rightarrow>
             if n = 0 then (Some (if w > 0 then Err ''partial write'' else ErrShortWrite), c')
             else writeFull p (w + n) c')
      else (None, c))"
  by pat_completeness auto
termination
  by (relation "measure (\<lambda>(p, w, c). length p - w)") auto

declare writeFull.simps [simp del]

definition writeData :: "u32 \<Rightarrow> bytes \<Rightarrow> mux \<Rightarrow> goerr option \<times> mux" where
  "writeData i data m =
     (if i = 0 \<and> length data > 0 \<and> http_prefix data
        then (Some (Err ''CRITICAL BUG: HTTP data written to stream ID 0 (control stream).''), m)
      else if http_prefix data \<and> i = 0
        then (Some (Err ''CRITICAL BUG: HTTP data written to stream ID 0 (control stream). Stream ID''), m)
      else if m_closed m then (Some ErrClosedPipe, m)
      else (case writeFull (put_u32 i @ put_u32 (of_nat (length data))) 0 (m_conn m) of
          (Some e, c) \<Rightarrow> (Some e, m\<lparr>m_conn := c\<rparr>)
        | (None, c) \<Rightarrow> (case writeFull data 0 c of
              (Some e, c') \<Rightarrow> (Some e, m\<lparr>m_conn := c'\<rparr>)
            | (None, c') \<Rightarrow> (None, m\<lparr>m_conn := c'\<rparr>))))"

section \<open>Streams of a multiplexer\<close>

definition stream_Read :: "addr \<Rightarrow> mux reader" where
  "stream_Read a n m = (case sr_Read n (s_reader (objs m ! a)) of
      (r, sr) \<Rightarrow> (r, upd_obj a (\<lambda>s. s\<lparr>s_reader := sr\<rparr>) m))"

definition stream_Write :: "addr \<Rightarrow> bytes \<Rightarrow> mux \<Rightarrow> (nat \<times> goerr option) \<times> mux" where
  "stream_Write a p m =
     (let sw = s_writer (objs m ! a) in
      if sw_closed sw then ((0, Some ErrClosedPipe), m)
      else case writeData (sw_id sw) p m of
          (Some e, m') \<Rightarrow> ((0, Some e), m')
        | (None, m') \<Rightarrow> ((length p, None), m'))"

definition writer_Close :: "addr \<Rightarrow> mux \<Rightarrow> mux" where
  "writer_Close a m = (case writeData (sw_id (s_writer (objs m ! a))) [] m of
      (_, m') \<Rightarrow> upd_obj a (\<lambda>s. s\<lparr>s_writer := (s_writer s)\<lparr>sw_closed := True\<rparr>\<rparr>) m')"

definition stream_Close :: "addr \<Rightarrow> mux \<Rightarrow> goerr option \<times> mux" where
  "stream_Close a m =
     (if s_closed (objs m ! a) then (Some ErrStreamClosed, m)
      else (let m = upd_obj a (\<lambda>s. s\<lparr>s_closed := True\<rparr>) m;
                m = upd_obj a (\<lambda>s. s\<lparr>s_reader := sr_Close (s_reader s)\<rparr>) m
            in (None, writer_Close a m)))"

definition stream_IsClosed :: "addr \<Rightarrow> mux \<Rightarrow> bool" where
  "stream_IsClosed a m = s_closed (objs m ! a)"

definition CloseStream :: "u32 \<Rightarrow> mux \<Rightarrow> goerr option \<times> mux" where
  "CloseStream i m = (case streams m i of
      None \<Rightarrow> (Some ErrStreamNotFound, m)
    | Some a \<Rightarrow> stream_Close a (m\<lparr>streams := (streams m)(i := None)\<rparr>))"

section \<open>The read loop\<close>

text \<open>
  One round of \<open>readLoop\<close>.  \<open>LoopWait\<close>: it waits for the connection; \<open>LoopStuck\<close>: it waits for room in
  a stream's channel; \<open>LoopPanic\<close>: it sent on a closed channel.  A waiting round runs again from the
  state before it.  \<open>ks\<close> is the order in which the streams are told of a read error.
\<close>

datatype loop = LoopNext | LoopEnd | LoopWait | LoopStuck | LoopPanic

definition notify :: "goerr \<Rightarrow> u32 list \<Rightarrow> mux \<Rightarrow> mux" where
  "notify e ks m = fold (\<lambda>i m. case streams m i of
      None \<Rightarrow> m
    | Some a \<Rightarrow> upd_obj a (\<lambda>s. s\<lparr>s_reader := sr_WriteError (Some e) (s_reader s)\<rparr>) m) ks m"

definition fail_read :: "goerr \<Rightarrow> mux \<Rightarrow> mux" where
  "fail_read e m = m\<lparr>readErr := Some e, m_closed := True\<rparr>"

text \<open>The last part of a round: find or create the stream and hand it the data.\<close>

definition deliver_frame :: "u32 \<Rightarrow> bytes \<Rightarrow> mux \<Rightarrow> loop \<times> mux" where
  "deliver_frame i data m =
     (case (case streams m i of
          Some a \<Rightarrow> (a, m)
        | None \<Rightarrow> (case newStream i m of (a, m') \<Rightarrow> (a, m'\<lparr>streams := (streams m')(i \<mapsto> a)\<rparr>))) of
      (a, m') \<Rightarrow> (case sr_WriteData data (s_reader (objs m' ! a)) of
          Sent sr \<Rightarrow> (LoopNext, upd_obj a (\<lambda>s. s\<lparr>s_reader := sr\<rparr>) m')
        | ChanFull _ \<Rightarrow> (LoopStuck, m')
        | SendOnClosed \<Rightarrow> (LoopPanic, m')))"

definition httpGetLen :: u32 where "httpGetLen = 0x47455420"

definition readLoop_step :: "u32 list \<Rightarrow> mux \<Rightarrow> loop \<times> mux" where
  "readLoop_step ks m = (case read_full conn_read 8 [] (m_conn m) of
      (FullBlock, _) \<Rightarrow> (LoopWait, m)
    | (FullErr e, c) \<Rightarrow> (LoopEnd, notify e ks (fail_read e (m\<lparr>m_conn := c\<rparr>)))
    | (FullOk header, c) \<Rightarrow>
        (let streamID = get_u32 (take 4 header); len = get_u32 (drop 4 header) in
         if len = httpGetLen
         then (LoopEnd, fail_read (Err ''CRITICAL BUG: Multiplexer readLoop detected HTTP data as packet length'')
                 (m\<lparr>m_conn := c\<rparr>))
         else (case read_full conn_read (unat len) [] c of
             (FullBlock, _) \<Rightarrow> (LoopWait, m)
           | (FullErr e, c') \<Rightarrow> (LoopEnd, fail_read e (m\<lparr>m_conn := c'\<rparr>))
           | (FullOk data, c') \<Rightarrow>
               if streamID = 0 \<and> http_prefix data
               then (LoopEnd, fail_read
                 (Err ''CRITICAL BUG: Multiplexer readLoop detected HTTP data being delivered to control stream (ID 0).'')
                 (m\<lparr>m_conn := c'\<rparr>))
               else (case deliver_frame streamID data (m\<lparr>m_conn := c'\<rparr>) of
                   (LoopStuck, _) \<Rightarrow> (LoopStuck, m)
                 | r \<Rightarrow> r))))"

text \<open>The loop runs until a round ends it or waits; the first argument bounds the rounds.\<close>

fun readLoop :: "nat \<Rightarrow> u32 list \<Rightarrow> mux \<Rightarrow> loop \<times> mux" where
  "readLoop 0 ks m = (LoopNext, m)"
| "readLoop (Suc k) ks m = (case readLoop_step ks m of
      (LoopNext, m') \<Rightarrow> readLoop k ks m'
    | r \<Rightarrow> r)"

section \<open>Closing\<close>

text \<open>
  \<open>as\<close> is the order in which the collected streams are closed.  The final wait for the read loop
  changes nothing: the loop's own last round is \<open>readLoop_step\<close> on the closed connection.
\<close>

definition mux_Close :: "addr list \<Rightarrow> mux option \<Rightarrow> goerr option \<times> mux option" where
  "mux_Close as m = (case m of
      None \<Rightarrow> (None, None)
    | Some m \<Rightarrow>
        if m_closed m then (None, Some m)
        else (case conn_close (m_conn m) of
            (e, c) \<Rightarrow> (e, Some (fold (\<lambda>a m. snd (stream_Close a m)) as (m\<lparr>m_closed := True, m_conn := c\<rparr>)))))"

end
