(* ===== verification/Mux_Invariant.thy ===== *)
theory Mux_Invariant
  imports Multiplexer
begin

text \<open>
  What every method of the multiplexer keeps: each identifier in the map leads to a stream object that
  carries it, and each object's reader and writer belong to its identifier.  Then the identifiers
  \<open>OpenStream\<close> hands out, and which objects a method can touch.
\<close>

section \<open>Well-formed multiplexers\<close>

definition obj_ok :: "stream \<Rightarrow> bool" where
  "obj_ok s \<longleftrightarrow> sr_id (s_reader s) = s_ID s \<and> sw_id (s_writer s) = s_ID s \<and> reader_ok (s_reader s)
     \<and> (s_closed s \<longrightarrow> sr_closed (s_reader s) \<and> sw_closed (s_writer s))"

definition mux_ok :: "mux \<Rightarrow> bool" where
  "mux_ok m \<longleftrightarrow> (\<forall>i a. streams m i = Some a \<longrightarrow> a < length (objs m) \<and> s_ID (objs m ! a) = i)
     \<and> list_all obj_ok (objs m)"

interpretation mux_streams: table streams "\<lambda>i a m. m\<lparr>streams := (streams m)(i \<mapsto> a)\<rparr>"
    "\<lambda>i m. m\<lparr>streams := (streams m)(i := None)\<rparr>"
  by unfold_locales auto

lemma fresh_obj_ok [simp]: "obj_ok (fresh_stream i)" "s_ID (fresh_stream i) = i"
  by (simp_all add: obj_ok_def fresh_stream_def newStreamWriter_def newStreamReader_def reader_ok_def)

lemma mux_okD:
  assumes "mux_ok m" "streams m i = Some a"
  shows "a < length (objs m)" "s_ID (objs m ! a) = i" "obj_ok (objs m ! a)"
  using assms by (auto simp: mux_ok_def list_all_length)

lemma upd_obj_simps [simp]:
  "streams (upd_obj a f m) = streams m" "m_conn (upd_obj a f m) = m_conn m"
  "nextID (upd_obj a f m) = nextID m" "m_closed (upd_obj a f m) = m_closed m"
  "readErr (upd_obj a f m) = readErr m" "length (objs (upd_obj a f m)) = length (objs m)"
  by (simp_all add: upd_obj_def)

lemma nth_upd_obj:
  "b < length (objs m) \<Longrightarrow> objs (upd_obj a f m) ! b = (if b = a then f (objs m ! b) else objs m ! b)"
  by (simp add: upd_obj_def)

lemma upd_obj_ok:
  assumes "mux_ok m" "a < length (objs m) \<Longrightarrow> obj_ok (f (objs m ! a)) \<and> s_ID (f (objs m ! a)) = s_ID (objs m ! a)"
  shows "mux_ok (upd_obj a f m)"
  using assms by (auto simp: mux_ok_def list_all_length nth_upd_obj)

text \<open>A reader operation keeps the reader's identifier, its laws and a set flag.\<close>

definition reader_op :: "(stream_reader \<Rightarrow> stream_reader) \<Rightarrow> bool" where
  "reader_op f \<longleftrightarrow> (\<forall>sr. reader_ok sr \<longrightarrow>
     reader_ok (f sr) \<and> sr_id (f sr) = sr_id sr \<and> (sr_closed sr \<longrightarrow> sr_closed (f sr)))"

lemma upd_reader_ok: "mux_ok m \<Longrightarrow> reader_op f \<Longrightarrow> mux_ok (upd_obj a (\<lambda>s. s\<lparr>s_reader := f (s_reader s)\<rparr>) m)"
  by (intro upd_obj_ok) (auto simp: mux_ok_def list_all_length obj_ok_def reader_op_def)

lemma set_reader_ok:
  assumes "mux_ok m" "reader_op f" "f (s_reader (objs m ! a)) = sr"
  shows "mux_ok (upd_obj a (\<lambda>s. s\<lparr>s_reader := sr\<rparr>) m)"
proof -
  have "upd_obj a (\<lambda>s. s\<lparr>s_reader := sr\<rparr>) m = upd_obj a (\<lambda>s. s\<lparr>s_reader := f (s_reader s)\<rparr>) m"
    using assms(3) by (simp add: upd_obj_def)
  then show ?thesis using upd_reader_ok [OF assms(1,2)] by simp
qed

lemma mux_ok_fields [simp]:
  "mux_ok (m\<lparr>m_conn := c\<rparr>) = mux_ok m" "mux_ok (m\<lparr>nextID := i\<rparr>) = mux_ok m"
  "mux_ok (m\<lparr>m_closed := b\<rparr>) = mux_ok m" "mux_ok (m\<lparr>readErr := e\<rparr>) = mux_ok m"
  by (simp_all add: mux_ok_def)

lemma mux_ok_delete: "mux_ok m \<Longrightarrow> mux_ok (m\<lparr>streams := (streams m)(i := None)\<rparr>)"
  by (auto simp: mux_ok_def split: if_splits)

lemma mux_ok_new:
  assumes "mux_ok m" "newStream i m = (a, m')"
  shows "mux_ok (m'\<lparr>streams := (streams m')(i \<mapsto> a)\<rparr>)" "streams m' = streams m" "a = length (objs m)"
    "objs m' = objs m @ [fresh_stream i]" "m_conn m' = m_conn m" "m_closed m' = m_closed m"
    "nextID m' = nextID m"
  using assms by (auto simp: mux_ok_def newStream_def nth_append split: if_splits; fastforce)+

lemma NewMultiplexer_ok: "NewMultiplexer (Some c) = Some m \<Longrightarrow> mux_ok m"
  by (auto simp: NewMultiplexer_def mux_ok_def)

section \<open>The identifiers handed out\<close>

lemma MaxStreamID_max: "MaxStreamID = - 1" "unat MaxStreamID = 4294967295"
  by (simp_all add: MaxStreamID_def)

lemma bump_id_simp: "bump_id i = (if i = MaxStreamID then 1 else i + 1)"
proof -
  have "\<not> j > MaxStreamID" for j
    by (simp add: MaxStreamID_max(1) not_less)
  moreover have "i + 1 = 0 \<longleftrightarrow> i = MaxStreamID"
    by (simp add: MaxStreamID_max(1) eq_neg_iff_add_eq_0)
  ultimately show ?thesis by (simp add: bump_id_def Let_def)
qed

lemma unat_max_iff: "unat i = 4294967295 \<longleftrightarrow> i = MaxStreamID"
  using MaxStreamID_max(2) by (metis word_unat_eq_iff)

lemma unat_u32: "unat (w :: u32) < 4294967296"
  using unsigned_less [of w, where 'a = nat] by simp

lemma unat_bump_id: "unat (bump_id i) = (if unat i = 4294967295 then 1 else unat i + 1)"
proof -
  have "unat (i + 1) = unat i + 1" if "unat i \<noteq> 4294967295"
  proof -
    have "unat i + 1 < 4294967296" using unat_u32 [of i] that by simp
    then show ?thesis by (simp add: unat_word_ariths)
  qed
  then show ?thesis by (simp add: bump_id_simp unat_max_iff [symmetric])
qed

text \<open>How many rounds the search can need before it meets the free identifier \<open>f\<close>.\<close>

definition id_dist :: "u32 \<Rightarrow> u32 \<Rightarrow> nat" where
  "id_dist f i = (if unat i = 0 then 4294967296
     else if unat i \<le> unat f then unat f - unat i else 4294967296 - unat i + unat f)"

lemma id_dist_bump: "f \<noteq> 0 \<Longrightarrow> i \<noteq> f \<Longrightarrow> id_dist f (bump_id i) < id_dist f i"
  using unat_u32 [of f] unat_u32 [of i] word_unat_eq_iff [of f 0]
    unat_bump_id [of i] word_unat_eq_iff [of i f]
  by (auto simp: id_dist_def split: if_splits)

lemma find_id_returns:
  assumes "f \<noteq> 0" "m f = None"
  shows "\<exists>j. find_id m i = Some j"
proof (induction "id_dist f i" arbitrary: i rule: less_induct)
  case less
  show ?case
  proof (cases "m i = None")
    case True
    then show ?thesis by (subst find_id.simps) simp
  next
    case False
    then have "i \<noteq> f" using assms by auto
    then obtain j where "find_id m (bump_id i) = Some j"
      using less id_dist_bump [OF assms(1)] by blast
    then show ?thesis using False by (subst find_id.simps) simp
  qed
qed

lemma bump_id_pos: "bump_id i \<noteq> 0"
  using unat_bump_id [of i] by (auto split: if_splits)

lemma find_id_free:
  assumes "find_id m i = Some j"
  shows "m j = None \<and> (j = 0 \<longrightarrow> i = 0)"
proof (rule find_id.raw_induct [OF _ assms])
  fix search :: "(u32 \<rightharpoonup> addr) \<Rightarrow> u32 \<Rightarrow> u32 option" and m i j
  assume IH: "\<And>m i j. search m i = Some j \<Longrightarrow> m j = None \<and> (j = 0 \<longrightarrow> i = 0)"
    and step: "(if m i = None then Some i else search m (bump_id i)) = Some j"
  show "m j = None \<and> (j = 0 \<longrightarrow> i = 0)"
    using IH [of m "bump_id i" j] step bump_id_pos [of i] by (auto split: if_splits)
qed

text \<open>A search over a full table does not return.\<close>

lemma find_id_full:
  assumes "\<And>j. m j \<noteq> None"
  shows "find_id m i = None"
proof (rule ccontr)
  assume "find_id m i \<noteq> None"
  then obtain j where "find_id m i = Some j" by auto
  then show False using find_id_free assms by blast
qed

section \<open>Every method keeps the multiplexer well-formed\<close>

lemma OpenStream_new:
  assumes "mux_ok m" "OpenStream m = Some (Inr a, m')"
  shows "mux_ok m' \<and> a = length (objs m) \<and> (\<exists>i. find_id (streams m) (nextID m) = Some i
    \<and> streams m' = (streams m)(i \<mapsto> a) \<and> objs m' = objs m @ [fresh_stream i])"
proof -
  obtain i b mm where i: "\<not> m_closed m" "find_id (streams m) (nextID m) = Some i"
      "newStream i (m\<lparr>nextID := i + 1\<rparr>) = (b, mm)" "a = b" "m' = mm\<lparr>streams := (streams mm)(i \<mapsto> b)\<rparr>"
    using assms(2) by (auto simp: OpenStream_def split: if_splits option.splits prod.splits)
  have "mux_ok (m\<lparr>nextID := i + 1\<rparr>)" using assms(1) by simp
  from mux_ok_new [OF this i(3)] i show ?thesis by simp
qed

lemma OpenStream_ok: "mux_ok m \<Longrightarrow> OpenStream m = Some (r, m') \<Longrightarrow> mux_ok m'"
proof (cases r)
  case (Inl e)
  moreover assume "mux_ok m" "OpenStream m = Some (r, m')"
  ultimately show "mux_ok m'"
    by (auto simp: OpenStream_def split: if_splits option.splits prod.splits)
qed (auto dest: OpenStream_new)

lemma ControlStream_ok: "mux_ok m \<Longrightarrow> ControlStream m = (r, m') \<Longrightarrow> mux_ok m'"
  using mux_ok_new(1) [of m 0]
  by (auto simp: ControlStream_def split: if_splits option.splits prod.splits)

lemma OpenStreamWithID_ok: "mux_ok m \<Longrightarrow> OpenStreamWithID i m = (r, m') \<Longrightarrow> mux_ok m'"
  using mux_ok_new(1) [of m i]
  by (auto simp: OpenStreamWithID_def Let_def split: if_splits option.splits prod.splits)

lemma writeData_conn: "\<exists>c. snd (writeData i data m) = m\<lparr>m_conn := c\<rparr>"
proof -
  have same: "\<exists>c. m = m\<lparr>m_conn := c\<rparr>" by (rule exI [of _ "m_conn m"]) simp
  show ?thesis
    by (auto simp: writeData_def same split: prod.split option.split)
qed

lemma stream_Write_conn: "\<exists>c. snd (stream_Write a p m) = m\<lparr>m_conn := c\<rparr>"
proof -
  have same: "\<exists>c. m = m\<lparr>m_conn := c\<rparr>" by (rule exI [of _ "m_conn m"]) simp
  obtain c where "snd (writeData (sw_id (s_writer (objs m ! a))) p m) = m\<lparr>m_conn := c\<rparr>"
    using writeData_conn by blast
  then show ?thesis
    using same by (auto simp: stream_Write_def Let_def split: prod.split option.split)
qed

lemma stream_Write_ok: "mux_ok m \<Longrightarrow> mux_ok (snd (stream_Write a p m))"
  using stream_Write_conn [of a p m] by auto

lemma sr_Read_op: "reader_op (\<lambda>sr. snd (sr_Read n sr))"
  by (simp add: reader_op_def sr_Read_ok sr_Read_closed)

lemma stream_Read_ok: "mux_ok m \<Longrightarrow> mux_ok (snd (stream_Read a n m))"
  using set_reader_ok [OF _ sr_Read_op]
  by (simp add: stream_Read_def case_prod_beta)

definition closed_obj :: "stream \<Rightarrow> stream" where
  "closed_obj s = s\<lparr>s_closed := True, s_reader := sr_Close (s_reader s),
     s_writer := (s_writer s)\<lparr>sw_closed := True\<rparr>\<rparr>"

lemma closed_obj_fun: "closed_obj = (\<lambda>s. s\<lparr>s_closed := True, s_reader := sr_Close (s_reader s),
     s_writer := (s_writer s)\<lparr>sw_closed := True\<rparr>\<rparr>)"
  by (rule ext) (simp add: closed_obj_def)

text \<open>Closing a stream closes its three parts and may write to the connection; nothing else changes.\<close>

lemma upd_obj_comp: "upd_obj a g (upd_obj a f m) = upd_obj a (\<lambda>s. g (f s)) m"
  by (simp add: upd_obj_def)

lemma upd_obj_conn: "upd_obj a f (m\<lparr>m_conn := c\<rparr>) = (upd_obj a f m)\<lparr>m_conn := c\<rparr>"
  by (simp add: upd_obj_def)

lemma stream_Close_cases:
  "s_closed (objs m ! a) \<and> stream_Close a m = (Some ErrStreamClosed, m)
   \<or> \<not> s_closed (objs m ! a) \<and> (\<exists>c. stream_Close a m = (None, (upd_obj a closed_obj m)\<lparr>m_conn := c\<rparr>))"
proof (cases "s_closed (objs m ! a)")
  case True
  then show ?thesis by (simp add: stream_Close_def)
next
  case False
  let ?m = "upd_obj a (\<lambda>s. s\<lparr>s_closed := True, s_reader := sr_Close (s_reader s)\<rparr>) m"
  obtain c where c: "snd (writeData (sw_id (s_writer (objs ?m ! a))) [] ?m) = ?m\<lparr>m_conn := c\<rparr>"
    using writeData_conn by blast
  have "stream_Close a m = (None, writer_Close a ?m)"
    using False by (simp add: stream_Close_def upd_obj_comp)
  moreover have "writer_Close a ?m = (upd_obj a closed_obj m)\<lparr>m_conn := c\<rparr>"
    using c by (simp add: writer_Close_def case_prod_beta upd_obj_conn upd_obj_comp closed_obj_fun)
  ultimately show ?thesis using False by auto
qed

lemma closed_obj_ok: "obj_ok s \<Longrightarrow> obj_ok (closed_obj s)" "s_ID (closed_obj s) = s_ID s"
  by (simp_all add: obj_ok_def closed_obj_def sr_Close_ok)

lemma stream_Close_ok: "mux_ok m \<Longrightarrow> mux_ok (snd (stream_Close a m))"
  using stream_Close_cases [of m a] by (auto simp: mux_ok_def list_all_length closed_obj_ok nth_upd_obj)

lemma CloseStream_ok: "mux_ok m \<Longrightarrow> mux_ok (snd (CloseStream i m))"
  by (auto simp: CloseStream_def mux_ok_delete stream_Close_ok split: option.split)

lemma fold_keeps: "(\<And>x s. P s \<Longrightarrow> P (f x s)) \<Longrightarrow> P s \<Longrightarrow> P (fold f xs s)"
  by (induction xs arbitrary: s) auto

lemma sr_WriteError_op: "reader_op (sr_WriteError e)"
  by (simp add: reader_op_def sr_WriteError_ok)

lemma notify_ok: "mux_ok m \<Longrightarrow> mux_ok (notify e ks m)"
  unfolding notify_def
  by (rule fold_keeps [of mux_ok]) (auto intro: upd_reader_ok sr_WriteError_op split: option.split)

text \<open>The object a frame for \<open>i\<close> goes to, after creating it if needed.\<close>

definition ensure_stream :: "u32 \<Rightarrow> mux \<Rightarrow> addr \<times> mux" where
  "ensure_stream i m = (case streams m i of
      Some a \<Rightarrow> (a, m)
    | None \<Rightarrow> (case newStream i m of (a, m') \<Rightarrow> (a, m'\<lparr>streams := (streams m')(i \<mapsto> a)\<rparr>)))"

lemma ensure_stream_ok:
  assumes "mux_ok m" "ensure_stream i m = (a, m')"
  shows "mux_ok m'" "streams m' i = Some a" "a < length (objs m')"
proof -
  have "mux_ok m' \<and> streams m' i = Some a"
  proof (cases "streams m i")
    case None
    obtain b mm where new: "newStream i m = (b, mm)" by force
    then have "a = b" "m' = mm\<lparr>streams := (streams mm)(i \<mapsto> b)\<rparr>"
      using assms(2) None by (auto simp: ensure_stream_def)
    then show ?thesis using mux_ok_new(1) [OF assms(1) new] by simp
  next
    case (Some b)
    then show ?thesis using assms by (simp add: ensure_stream_def)
  qed
  then show ok: "mux_ok m'" and at: "streams m' i = Some a" by simp_all
  show "a < length (objs m')" by (rule mux_okD(1) [OF ok at])
qed

lemma sr_Sent_op: "reader_op (\<lambda>sr. case sr_WriteData data sr of Sent sr' \<Rightarrow> sr' | _ \<Rightarrow> sr)"
  by (auto simp: reader_op_def sr_WriteData_def chan_send_def reader_ok_def)

lemma deliver_frame_ensure:
  assumes "ensure_stream i m = (a, m')"
  shows "deliver_frame i data m = (case sr_WriteData data (s_reader (objs m' ! a)) of
          Sent sr \<Rightarrow> (LoopNext, upd_obj a (\<lambda>s. s\<lparr>s_reader := sr\<rparr>) m')
        | ChanFull _ \<Rightarrow> (LoopStuck, m')
        | SendOnClosed \<Rightarrow> (LoopPanic, m'))"
  using assms by (simp add: deliver_frame_def ensure_stream_def)

lemma deliver_frame_ok:
  assumes "mux_ok m"
  shows "mux_ok (snd (deliver_frame i data m))" "fst (deliver_frame i data m) \<noteq> LoopPanic"
proof -
  obtain a m' where am: "ensure_stream i m = (a, m')" by force
  note ok = ensure_stream_ok [OF assms am]
  note eq = deliver_frame_ensure [OF am, of data]
  show "mux_ok (snd (deliver_frame i data m))"
    using set_reader_ok [OF ok(1) sr_Sent_op, where a = a and data1 = data] ok(1) by (auto simp: eq split: push.split)
  show "fst (deliver_frame i data m) \<noteq> LoopPanic"
    using sr_WriteData_no_panic [of "s_reader (objs m' ! a)" data] mux_okD(3) [OF ok(1,2)]
    by (auto simp: eq obj_ok_def split: push.split)
qed

lemma readLoop_step_ok: "mux_ok m \<Longrightarrow> mux_ok (snd (readLoop_step ks m))"
proof -
  assume ok: "mux_ok m"
  have "mux_ok (snd (case deliver_frame i data (m\<lparr>m_conn := c\<rparr>) of (LoopStuck, _) \<Rightarrow> (LoopStuck, m) | r \<Rightarrow> r))"
    for i data c
    using deliver_frame_ok(1) [of "m\<lparr>m_conn := c\<rparr>" i data] ok by (auto split: prod.splits loop.splits)
  then show ?thesis
    using ok by (auto simp: readLoop_step_def Let_def fail_read_def intro!: notify_ok
        split: prod.split full.split)
qed

lemma readLoop_ok: "mux_ok m \<Longrightarrow> mux_ok (snd (readLoop k ks m))"
proof (induction k arbitrary: m)
  case (Suc k)
  have "mux_ok (snd (readLoop_step ks m))" by (rule readLoop_step_ok [OF Suc.prems])
  then show ?case using Suc.IH by (auto split: prod.split loop.split)
qed simp

lemma mux_Close_ok: "mux_ok m \<Longrightarrow> mux_Close as (Some m) = (e, Some m') \<Longrightarrow> mux_ok m'"
  using fold_keeps [of mux_ok "\<lambda>a m. snd (stream_Close a m)", OF stream_Close_ok]
  by (auto simp: mux_Close_def split: if_splits prod.splits)

section \<open>Reachable multiplexers\<close>

text \<open>
  Any sequence of method calls, read loop rounds and events on the connection.  The last rule lets the
  network replace the connection's state at any time.
\<close>

inductive mux_reach :: "conn \<Rightarrow> mux \<Rightarrow> bool" for c where
  start: "NewMultiplexer (Some c) = Some m \<Longrightarrow> mux_reach c m"
| open_auto: "mux_reach c m \<Longrightarrow> OpenStream m = Some (r, m') \<Longrightarrow> mux_reach c m'"
| open_control: "mux_reach c m \<Longrightarrow> ControlStream m = (r, m') \<Longrightarrow> mux_reach c m'"
| open_id: "mux_reach c m \<Longrightarrow> OpenStreamWithID i m = (r, m') \<Longrightarrow> mux_reach c m'"
| read_stream: "mux_reach c m \<Longrightarrow> mux_reach c (snd (stream_Read a n m))"
| write_stream: "mux_reach c m \<Longrightarrow> mux_reach c (snd (stream_Write a p m))"
| close_object: "mux_reach c m \<Longrightarrow> mux_reach c (snd (stream_Close a m))"
| close_id: "mux_reach c m \<Longrightarrow> mux_reach c (snd (CloseStream i m))"
| loop_round: "mux_reach c m \<Longrightarrow> mux_reach c (snd (readLoop_step ks m))"
| close_all: "mux_reach c m \<Longrightarrow> mux_Close as (Some m) = (e, Some m') \<Longrightarrow> mux_reach c m'"
| network: "mux_reach c m \<Longrightarrow> mux_reach c (m\<lparr>m_conn := c'\<rparr>)"

lemma mux_reach_ok: "mux_reach c m \<Longrightarrow> mux_ok m"
proof (induction rule: mux_reach.induct)
  case (start m)
  then show ?case by (rule NewMultiplexer_ok)
qed (auto intro: OpenStream_ok ControlStream_ok OpenStreamWithID_ok stream_Read_ok stream_Write_ok
    stream_Close_ok CloseStream_ok readLoop_step_ok mux_Close_ok)

lemma readLoop_step_no_panic: "mux_ok m \<Longrightarrow> fst (readLoop_step ks m) \<noteq> LoopPanic"
proof -
  assume ok: "mux_ok m"
  have "fst (case deliver_frame i data (m\<lparr>m_conn := c\<rparr>) of (LoopStuck, _) \<Rightarrow> (LoopStuck, m) | r \<Rightarrow> r) \<noteq> LoopPanic"
    for i data c
    using deliver_frame_ok(2) [of "m\<lparr>m_conn := c\<rparr>" i data] ok by (auto split: prod.splits loop.splits)
  then show ?thesis
    by (auto simp: readLoop_step_def Let_def split: prod.split full.split)
qed

text \<open>A multiplexer with one stream, for the examples.\<close>

definition sample_mux :: mux where
  "sample_mux = \<lparr>m_conn = conn_of [], objs = [fresh_stream 1], streams = [1 \<mapsto> 0], nextID = 1,
     m_closed = False, readErr = None\<rparr>"

lemma sample_mux_ok: "mux_ok sample_mux"
  by (auto simp: sample_mux_def mux_ok_def split: if_splits)

section \<open>Properties\<close>



text \<open>
  \<open>OpenStream\<close> returns whenever some non-zero identifier is free, and then the new stream has a fresh
  non-zero identifier and is the only change to the map: it never hands out the control stream's
  identifier 0 once the control stream exists or the counter has not wrapped to 0.
\<close>

theorem OpenStream_fresh:
  assumes "mux_ok m" "\<not> m_closed m" "f \<noteq> 0" "streams m f = None" "nextID m \<noteq> 0 \<or> streams m 0 \<noteq> None"
  shows "\<exists>a i m'. OpenStream m = Some (Inr a, m') \<and> mux_ok m' \<and> s_ID (objs m' ! a) = i
    \<and> i \<noteq> 0 \<and> streams m i = None \<and> streams m' = (streams m)(i \<mapsto> a)"
proof -
  obtain i where i: "find_id (streams m) (nextID m) = Some i"
    using find_id_returns assms(3,4) by blast
  obtain a m' where opened: "OpenStream m = Some (Inr a, m')"
    using assms(2) i by (simp add: OpenStream_def newStream_def)
  have new: "mux_ok m'" "streams m' = (streams m)(i \<mapsto> a)" "objs m' ! a = fresh_stream i"
    using OpenStream_new [OF assms(1) opened] i by auto
  moreover have "i \<noteq> 0"
    using find_id_free [OF i] assms(5) by auto
  ultimately show ?thesis
    using opened find_id_free [OF i] by (intro exI [of _ a] exI [of _ i] exI [of _ m']) simp
qed

theorem OpenStream_fresh_witness:
  "\<exists>a i m'. OpenStream sample_mux = Some (Inr a, m') \<and> mux_ok m' \<and> s_ID (objs m' ! a) = i
    \<and> i \<noteq> 0 \<and> streams sample_mux i = None \<and> streams m' = (streams sample_mux)(i \<mapsto> a)"
  by (rule OpenStream_fresh [of _ 2]) (simp_all add: sample_mux_ok, simp_all add: sample_mux_def)

text \<open>
  C37: The counter can wrap to the reserved identifier: after \<open>OpenStreamWithID\<close> with the largest
  identifier on a new multiplexer without a control stream, the next \<open>OpenStream\<close> returns stream 0.
\<close>

theorem OpenStream_reserved_id:
  "\<exists>m a m1 b m2. NewMultiplexer (Some c) = Some m \<and> OpenStreamWithID MaxStreamID m = (Inr a, m1)
    \<and> OpenStream m1 = Some (Inr b, m2) \<and> s_ID (objs m2 ! b) = 0"
proof -
  let ?m = "\<lparr>m_conn = c, objs = [], streams = Map.empty, nextID = 1, m_closed = False, readErr = None\<rparr>"
  let ?m1 = "?m\<lparr>objs := [fresh_stream MaxStreamID], streams := [MaxStreamID \<mapsto> 0], nextID := 0\<rparr>"
  have "OpenStreamWithID MaxStreamID ?m = (Inr 0, ?m1)"
    by (simp add: OpenStreamWithID_def newStream_def Let_def MaxStreamID_def)
  moreover have "find_id [MaxStreamID \<mapsto> 0] 0 = Some 0"
    by (subst find_id.simps) (simp add: MaxStreamID_def)
  then have "OpenStream ?m1 = Some (Inr 1,
      ?m1\<lparr>objs := [fresh_stream MaxStreamID, fresh_stream 0], streams := [MaxStreamID \<mapsto> 0, 0 \<mapsto> 1], nextID := 1\<rparr>)"
    by (simp add: OpenStream_def newStream_def)
  moreover have "NewMultiplexer (Some c) = Some ?m"
    by (simp add: NewMultiplexer_def)
  ultimately show ?thesis
    by (intro exI conjI) (assumption+, simp)
qed

text \<open>C38: With every identifier taken, \<open>OpenStream\<close> searches forever, holding the lock.\<close>

theorem OpenStream_exhausted:
  assumes "\<not> m_closed m" "dom (streams m) = UNIV"
  shows "OpenStream m = None"
proof -
  have "find_id (streams m) (nextID m) = None"
    using assms(2) by (intro find_id_full) auto
  then show ?thesis using assms(1) by (simp add: OpenStream_def)
qed

theorem OpenStream_exhausted_witness:
  "OpenStream \<lparr>m_conn = conn_of [], objs = [], streams = (\<lambda>_. Some 0), nextID = 1, m_closed = False, readErr = None\<rparr> = None"
  by (rule OpenStream_exhausted) (simp_all add: dom_def)

text \<open>
  \<open>CloseStream\<close> takes exactly one identifier out of the map and closes exactly that stream's reader
  and writer; every other stream object is untouched, a later lookup or close of the identifier reports
  that it is not found, and a second \<open>Close\<close> on the kept object reports that it is closed.
\<close>

theorem CloseStream_effect:
  assumes "mux_ok m" "streams m i = Some a" "\<not> s_closed (objs m ! a)" "CloseStream i m = (e, m')"
  shows "e = None \<and> streams m' = (streams m)(i := None) \<and> objs m' ! a = closed_obj (objs m ! a)
    \<and> (\<forall>b < length (objs m). b \<noteq> a \<longrightarrow> objs m' ! b = objs m ! b)
    \<and> GetStream i m' = Inl ErrStreamNotFound \<and> CloseStream i m' = (Some ErrStreamNotFound, m')
    \<and> stream_Close a m' = (Some ErrStreamClosed, m')"
proof -
  let ?m = "m\<lparr>streams := (streams m)(i := None)\<rparr>"
  have a: "a < length (objs m)" by (rule mux_okD(1) [OF assms(1,2)])
  obtain c where "stream_Close a ?m = (None, (upd_obj a closed_obj ?m)\<lparr>m_conn := c\<rparr>)"
    using stream_Close_cases [of ?m a] assms(3) by auto
  then have m': "e = None" "m' = (upd_obj a closed_obj ?m)\<lparr>m_conn := c\<rparr>"
    using assms(2,4) by (simp_all add: CloseStream_def)
  have gone: "streams m' = (streams m)(i := None)" and len: "length (objs m') = length (objs m)"
    by (simp_all add: m'(2))
  have objs: "objs m' ! b = (if b = a then closed_obj (objs m ! a) else objs m ! b)" if "b < length (objs m)" for b
    using that by (simp add: m'(2) nth_upd_obj)
  have "s_closed (objs m' ! a)" using objs [OF a] by (simp add: closed_obj_def)
  then have "stream_Close a m' = (Some ErrStreamClosed, m')" by (simp add: stream_Close_def)
  then show ?thesis
    using m'(1) gone objs a by (simp add: GetStream_def CloseStream_def)
qed

theorem CloseStream_effect_witness:
  "GetStream 1 (snd (CloseStream 1 sample_mux)) = Inl ErrStreamNotFound"
proof -
  have "streams sample_mux 1 = Some 0" "\<not> s_closed (objs sample_mux ! 0)"
    by (simp_all add: sample_mux_def fresh_stream_def)
  from CloseStream_effect [OF sample_mux_ok this prod.collapse [symmetric]] show ?thesis by blast
qed

end
