(* ===== verification/Mux_Frames.thy ===== *)
theory Mux_Frames
  imports Mux_Invariant Packet
begin

text \<open>
  The frames of the multiplexer on the wire: what a stream's \<open>Write\<close> sends through short writes, what
  the peer's read loop makes of bytes that arrive in any chunks, and the two together, up to the
  packets of the control plane.
\<close>

section \<open>Frames\<close>

definition frame :: "u32 \<times> bytes \<Rightarrow> bytes" where
  "frame f = put_u32 (fst f) @ put_u32 (of_nat (length (snd f))) @ snd f"

text \<open>The frames the read loop accepts: the length fits, and nothing looks like HTTP in the wrong place.\<close>

definition frame_ok :: "u32 \<times> bytes \<Rightarrow> bool" where
  "frame_ok f \<longleftrightarrow> length (snd f) < 2 ^ 32 \<and> length (snd f) \<noteq> unat httpGetLen
     \<and> \<not> (fst f = 0 \<and> http_prefix (snd f))"

text \<open>The frames of a byte stream; the rest is an incomplete frame.\<close>

function parse_frames :: "bytes \<Rightarrow> (u32 \<times> bytes) list \<times> bytes" where
  "parse_frames b =
     (if length b < 8 then ([], b)
      else let len = unat (get_u32 (take 4 (drop 4 b))) in
        if length b < 8 + len then ([], b)
        else (case parse_frames (drop (8 + len) b) of
            (fs, r) \<Rightarrow> ((get_u32 (take 4 b), take len (drop 8 b)) # fs, r)))"
  by pat_completeness auto
termination
  by (relation "measure length") auto

declare parse_frames.simps [simp del]

lemma parse_frames_Cons:
  assumes "length (snd f) < 2 ^ 32"
  shows "parse_frames (frame f @ b) = (case parse_frames b of (fs, r) \<Rightarrow> (f # fs, r))"
  using assms by (subst parse_frames.simps) (simp add: frame_def Let_def unat_of_nat split: prod.split)

lemma parse_frames_concat:
  "list_all (\<lambda>f. length (snd f) < 2 ^ 32) fs \<Longrightarrow> parse_frames (concat (map frame fs)) = (fs, [])"
proof (induction fs)
  case Nil
  show ?case by (subst parse_frames.simps) simp
qed (simp add: parse_frames_Cons)

interpretation frames_wire: codec "\<lambda>fs. concat (map frame fs)"
    "\<lambda>b. if snd (parse_frames b) = [] then Some (fst (parse_frames b)) else None"
    "list_all (\<lambda>f. length (snd f) < 2 ^ 32)"
  by unfold_locales (simp add: parse_frames_concat)

section \<open>Writing\<close>

text \<open>A connection that takes at least one byte per write and reports no error.\<close>

definition writable :: "conn \<Rightarrow> bool" where
  "writable c \<longleftrightarrow> \<not> shut c \<and> (\<forall>(n, e) \<in> set (wplan c). 0 < n \<and> e = None)"

lemma conn_write_progress:
  assumes "writable c" "p \<noteq> []"
  shows "\<exists>n c'. conn_write p c = ((n, None), c') \<and> 0 < n \<and> n \<le> length p
    \<and> sent c' = sent c @ take n p \<and> writable c' \<and> inbox c' = inbox c \<and> fin c' = fin c"
proof (cases "wplan c")
  case Nil
  then show ?thesis using assms by (auto simp: conn_write_def writable_def)
next
  case (Cons ne pl)
  obtain n where "ne = (n, None)" "0 < n"
    using assms(1) Cons by (auto simp: writable_def)
  then show ?thesis
    using assms Cons by (auto simp: conn_write_def writable_def min_def)
qed

text \<open>Short writes are completed: everything from position \<open>w\<close> on is sent, once and in order.\<close>

lemma writeFull_sends:
  assumes "writable c"
  shows "\<exists>c'. writeFull p w c = (None, c') \<and> sent c' = sent c @ drop w p \<and> writable c'
    \<and> inbox c' = inbox c \<and> fin c' = fin c"
  using assms
proof (induction "length p - w" arbitrary: w c rule: less_induct)
  case less
  show ?case
  proof (cases "w < length p")
    case False
    then show ?thesis using less.prems by (subst writeFull.simps) simp
  next
    case True
    then obtain n c' where n: "conn_write (drop w p) c = ((n, None), c')" "0 < n" "n \<le> length p - w"
        "sent c' = sent c @ take n (drop w p)" "writable c'" "inbox c' = inbox c" "fin c' = fin c"
      using conn_write_progress [OF less.prems, of "drop w p"] by auto
    have "length p - (w + n) < length p - w" using True n(2) by simp
    then obtain c2 where "writeFull p (w + n) c' = (None, c2)" "sent c2 = sent c' @ drop (w + n) p"
        "writable c2" "inbox c2 = inbox c'" "fin c2 = fin c'"
      using less.hyps n(5) by blast
    moreover have "take n (drop w p) @ drop (w + n) p = drop w p"
      by (metis append_take_drop_id drop_drop add.commute)
    ultimately show ?thesis
      using True n by (subst writeFull.simps) (simp add: n(4))
  qed
qed

lemma writeData_sends:
  assumes "writable (m_conn m)" "\<not> m_closed m" "\<not> (i = 0 \<and> http_prefix data)"
  shows "\<exists>c. writeData i data m = (None, m\<lparr>m_conn := c\<rparr>) \<and> sent c = sent (m_conn m) @ frame (i, data)
    \<and> writable c \<and> inbox c = inbox (m_conn m) \<and> fin c = fin (m_conn m)"
proof -
  let ?h = "put_u32 i @ put_u32 (of_nat (length data))"
  obtain c1 where c1: "writeFull ?h 0 (m_conn m) = (None, c1)" "sent c1 = sent (m_conn m) @ ?h"
      "writable c1" "inbox c1 = inbox (m_conn m)" "fin c1 = fin (m_conn m)"
    using writeFull_sends [OF assms(1), of ?h 0] by auto
  obtain c2 where "writeFull data 0 c1 = (None, c2)" "sent c2 = sent c1 @ data"
      "writable c2" "inbox c2 = inbox c1" "fin c2 = fin c1"
    using writeFull_sends [OF c1(3), of data 0] by auto
  then show ?thesis
    using c1 assms by (auto simp: writeData_def frame_def)
qed

text \<open>The two guards of \<open>writeData\<close> are one: HTTP data is never put on the control stream.\<close>

lemma writeData_http: "http_prefix data \<Longrightarrow> \<exists>e. writeData 0 data m = (Some e, m)"
  by (auto simp: writeData_def)

lemma stream_Write_sends:
  assumes "writable (m_conn m)" "\<not> m_closed m" "\<not> sw_closed (s_writer (objs m ! a))"
    and "sw_id (s_writer (objs m ! a)) = i" "\<not> (i = 0 \<and> http_prefix p)"
  shows "\<exists>c. stream_Write a p m = ((length p, None), m\<lparr>m_conn := c\<rparr>)
    \<and> sent c = sent (m_conn m) @ frame (i, p) \<and> writable c
    \<and> inbox c = inbox (m_conn m) \<and> fin c = fin (m_conn m)"
  using writeData_sends [OF assms(1,2,5)] assms(3,4) by (auto simp: stream_Write_def Let_def)

section \<open>One round of the read loop\<close>

lemma frame_split: "frame (i, d) = (put_u32 i @ put_u32 (of_nat (length d))) @ d"
  by (simp add: frame_def)

text \<open>A complete frame is consumed and handed over, whatever follows it on the wire.\<close>

lemma readLoop_step_frame:
  assumes "conn_live (m_conn m)" "conn_pending (m_conn m) = frame (i, d) @ t" "frame_ok (i, d)"
    and "fst (deliver_frame i d m) \<noteq> LoopStuck"
  shows "\<exists>c. readLoop_step ks m = (fst (deliver_frame i d m), (snd (deliver_frame i d m))\<lparr>m_conn := c\<rparr>)
    \<and> conn_live c \<and> conn_pending c = t \<and> same_out (m_conn m) c"
proof -
  let ?h = "put_u32 i @ put_u32 (of_nat (length d))"
  have "conn_pending (m_conn m) = ?h @ (d @ t)"
    using assms(2) by (simp add: frame_def)
  from conn_src.read_full_exact [OF assms(1) this]
  obtain c1 where c1: "read_full conn_read 8 [] (m_conn m) = (FullOk ?h, c1)" "conn_pending c1 = d @ t"
      "conn_live c1" by auto
  from conn_src.read_full_exact [OF c1(3,2)]
  obtain c2 where c2: "read_full conn_read (length d) [] c1 = (FullOk d, c2)" "conn_pending c2 = t"
      "conn_live c2" by auto
  have len: "unat (of_nat (length d) :: u32) = length d"
    using assms(3) by (simp add: frame_ok_def unat_of_nat)
  then have "of_nat (length d) \<noteq> httpGetLen" "\<not> (i = 0 \<and> http_prefix d)"
    using assms(3) by (auto simp: frame_ok_def)
  moreover have "deliver_frame i d (m\<lparr>m_conn := c2\<rparr>) =
      (fst (deliver_frame i d m), (snd (deliver_frame i d m))\<lparr>m_conn := c2\<rparr>)"
    by (auto simp: deliver_frame_def newStream_def upd_obj_def split: option.split push.split)
  ultimately have "readLoop_step ks m = (fst (deliver_frame i d m), (snd (deliver_frame i d m))\<lparr>m_conn := c2\<rparr>)"
    using c1(1) c2(1) len assms(4) by (auto simp: readLoop_step_def Let_def split: loop.split)
  moreover have "same_out (m_conn m) c2"
    using conn_read_full_same_out [OF c1(1)] conn_read_full_same_out [OF c2(1)] by (simp add: same_out_def)
  ultimately show ?thesis using c2 by blast
qed

section \<open>Demultiplexing\<close>

text \<open>The frames queued for an identifier; the payloads of a sequence of frames for an identifier.\<close>

definition queue_of :: "mux \<Rightarrow> u32 \<Rightarrow> bytes list" where
  "queue_of m i = (case streams m i of None \<Rightarrow> [] | Some a \<Rightarrow> dataChan (s_reader (objs m ! a)))"

definition buffer_of :: "mux \<Rightarrow> u32 \<Rightarrow> bytes" where
  "buffer_of m i = (case streams m i of None \<Rightarrow> [] | Some a \<Rightarrow> buffer (s_reader (objs m ! a)))"

definition payloads :: "u32 \<Rightarrow> (u32 \<times> bytes) list \<Rightarrow> bytes list" where
  "payloads i fs = map snd (filter (\<lambda>f. fst f = i) fs)"

text \<open>No reader in the map is closed.\<close>

definition readers_open :: "mux \<Rightarrow> bool" where
  "readers_open m \<longleftrightarrow> (\<forall>i a. streams m i = Some a \<longrightarrow> \<not> sr_closed (s_reader (objs m ! a)))"

lemma payloads_simps [simp]:
  "payloads i [] = []" "payloads i (f # fs) = (if fst f = i then snd f # payloads i fs else payloads i fs)"
  by (simp_all add: payloads_def)

lemma ensure_stream_queue:
  assumes "mux_ok m" "ensure_stream i m = (a, m')"
  shows "queue_of m' j = queue_of m j" "buffer_of m' j = buffer_of m j" "readers_open m \<Longrightarrow> readers_open m'"
    "\<forall>b < length (objs m). objs m' ! b = objs m ! b" "m_conn m' = m_conn m" "m_closed m' = m_closed m"
proof -
  have "queue_of m' j = queue_of m j \<and> buffer_of m' j = buffer_of m j \<and> (readers_open m \<longrightarrow> readers_open m')
    \<and> (\<forall>b < length (objs m). objs m' ! b = objs m ! b) \<and> m_conn m' = m_conn m \<and> m_closed m' = m_closed m"
  proof (cases "streams m i")
    case None
    then have a: "a = length (objs m)"
        "m' = m\<lparr>objs := objs m @ [fresh_stream i], streams := (streams m)(i \<mapsto> length (objs m))\<rparr>"
      using assms(2) by (auto simp: ensure_stream_def newStream_def)
    show ?thesis
      using None mux_okD(1) [OF assms(1)]
      by (auto simp: a queue_of_def buffer_of_def readers_open_def nth_append fresh_stream_def newStreamReader_def
          split: option.split if_splits)
  next
    case (Some b)
    then show ?thesis using assms by (simp add: ensure_stream_def)
  qed
  then show "queue_of m' j = queue_of m j" "buffer_of m' j = buffer_of m j" "readers_open m \<Longrightarrow> readers_open m'"
    "\<forall>b < length (objs m). objs m' ! b = objs m ! b" "m_conn m' = m_conn m" "m_closed m' = m_closed m"
    by blast+
qed

lemma deliver_frame_queue:
  assumes "mux_ok m" "readers_open m" "length (queue_of m i) < dataChanCap"
  shows "\<exists>m'. deliver_frame i d m = (LoopNext, m') \<and> mux_ok m' \<and> readers_open m'
    \<and> m_conn m' = m_conn m \<and> m_closed m' = m_closed m
    \<and> (\<forall>j. queue_of m' j = queue_of m j @ payloads j [(i, d)] \<and> buffer_of m' j = buffer_of m j)"
proof -
  obtain a m1 where am: "ensure_stream i m = (a, m1)" by force
  note ok = ensure_stream_ok [OF assms(1) am] and q = ensure_stream_queue [OF assms(1) am]
  let ?sr = "s_reader (objs m1 ! a)"
  have open_sr: "\<not> sr_closed ?sr" "reader_ok ?sr"
    using q(3) [OF assms(2)] ok mux_okD(3) [OF ok(1,2)] by (auto simp: readers_open_def obj_ok_def)
  have "length (dataChan ?sr) < dataChanCap"
    using assms(3) q(1) [of i] ok(2) by (simp add: queue_of_def)
  then obtain sr' where sr': "sr_WriteData d ?sr = Sent sr'" "dataChan sr' = dataChan ?sr @ [d]"
      "sr_closed sr' = sr_closed ?sr" "buffer sr' = buffer ?sr"
    using open_sr by (cases "d = []") (auto simp: sr_WriteData_def chan_send_def reader_ok_def)
  let ?m' = "upd_obj a (\<lambda>s. s\<lparr>s_reader := sr'\<rparr>) m1"
  have eq: "deliver_frame i d m = (LoopNext, ?m')"
    by (simp add: deliver_frame_ensure [OF am] sr'(1))
  have same: "b = a \<longleftrightarrow> j = i" if "streams m1 j = Some b" for j b
    using mux_okD(2) [OF ok(1) that] mux_okD(2) [OF ok(1,2)] ok(2) that by (metis option.inject)
  have objs: "s_reader (objs ?m' ! b) = (if b = a then sr' else s_reader (objs m1 ! b))" if "b < length (objs m1)" for b
    using that by (simp add: nth_upd_obj)
  have "queue_of ?m' j = queue_of m1 j @ payloads j [(i, d)]" "buffer_of ?m' j = buffer_of m1 j" for j
    using same objs mux_okD(1) [OF ok(1)] ok(2) sr'(2,4)
    by (auto simp: queue_of_def buffer_of_def split: option.split)
  moreover have "readers_open ?m'"
    using q(3) [OF assms(2)] objs mux_okD(1) [OF ok(1)] sr'(3) open_sr(1) by (auto simp: readers_open_def)
  moreover have "mux_ok ?m'"
    using deliver_frame_ok(1) [OF assms(1), of i d] by (simp add: eq)
  ultimately show ?thesis
    using eq q by auto
qed

lemma queue_of_conn [simp]: "queue_of (m\<lparr>m_conn := c\<rparr>) i = queue_of m i"
  by (simp add: queue_of_def split: option.split)

lemma buffer_of_conn [simp]: "buffer_of (m\<lparr>m_conn := c\<rparr>) i = buffer_of m i"
  by (simp add: buffer_of_def split: option.split)

lemma readers_open_conn [simp]: "readers_open (m\<lparr>m_conn := c\<rparr>) = readers_open m"
  by (simp add: readers_open_def)

lemma readLoop_demux:
  assumes "mux_ok m" "readers_open m" "conn_live (m_conn m)"
    and "conn_pending (m_conn m) = concat (map frame fs) @ t" "list_all frame_ok fs"
    and "\<And>i. length (queue_of m i) + length (payloads i fs) \<le> dataChanCap"
  shows "\<exists>m'. readLoop (length fs) ks m = (LoopNext, m') \<and> mux_ok m' \<and> readers_open m'
    \<and> conn_pending (m_conn m') = t \<and> conn_live (m_conn m')
    \<and> (\<forall>i. queue_of m' i = queue_of m i @ payloads i fs \<and> buffer_of m' i = buffer_of m i)"
  using assms
proof (induction fs arbitrary: m)
  case (Cons f fs)
  obtain i d where f: "f = (i, d)" by force
  have "length (queue_of m i) < dataChanCap"
    using Cons.prems(6) [of i] by (simp add: f)
  then obtain m1 where m1: "deliver_frame i d m = (LoopNext, m1)" "mux_ok m1" "readers_open m1"
      "\<forall>j. queue_of m1 j = queue_of m j @ payloads j [(i, d)] \<and> buffer_of m1 j = buffer_of m j"
    using deliver_frame_queue [OF Cons.prems(1,2), of i d] by blast
  have "conn_pending (m_conn m) = frame (i, d) @ (concat (map frame fs) @ t)" "frame_ok (i, d)"
    using Cons.prems(4,5) by (simp_all add: f)
  from readLoop_step_frame [OF Cons.prems(3) this, of ks] m1(1)
  obtain c where c: "readLoop_step ks m = (LoopNext, m1\<lparr>m_conn := c\<rparr>)" "conn_live c"
      "conn_pending c = concat (map frame fs) @ t" by auto
  have "length (queue_of m1 j) + length (payloads j fs) \<le> dataChanCap" for j
    using Cons.prems(6) [of j] m1(4) by (cases "j = i") (simp_all add: f)
  then obtain m2 where "readLoop (length fs) ks (m1\<lparr>m_conn := c\<rparr>) = (LoopNext, m2)" "mux_ok m2"
      "readers_open m2" "conn_pending (m_conn m2) = t" "conn_live (m_conn m2)"
      "\<forall>j. queue_of m2 j = queue_of m1 j @ payloads j fs \<and> buffer_of m2 j = buffer_of m1 j"
    using Cons.IH [of "m1\<lparr>m_conn := c\<rparr>"] m1(2,3) c(2,3) Cons.prems(5) by (auto simp: f)
  then show ?case using c(1) m1(4) by (auto simp: f)
qed simp

end
