(* ===== verification/Mux_Transport.thy ===== *)
theory Mux_Transport
  imports Mux_Frames
begin

text \<open>
  A multiplexer stream as a byte source and a byte sink, so that everything proved about readers and
  writers (packets, \<open>io.ReadAll\<close>) holds for streams, and the end-to-end guarantees that two
  multiplexers at the ends of one connection give to their clients.
\<close>

section \<open>Streams as sources and sinks\<close>

definition stream_pending :: "addr \<Rightarrow> mux \<Rightarrow> bytes" where
  "stream_pending a m = sr_pending (s_reader (objs m ! a))"

definition stream_ended :: "addr \<Rightarrow> mux \<Rightarrow> bool" where
  "stream_ended a m = sr_ended (s_reader (objs m ! a))"

lemma stream_Read_reader:
  assumes "a < length (objs m)" "sr_Read n (s_reader (objs m ! a)) = (r, sr)"
  shows "\<exists>m'. stream_Read a n m = (r, m') \<and> s_reader (objs m' ! a) = sr \<and> a < length (objs m')"
  using assms by (simp add: stream_Read_def nth_upd_obj)

interpretation stream_src: byte_stream "stream_Read a" "stream_pending a" "\<lambda>m. a < length (objs m)"
    "stream_ended a" for a
proof
  fix m :: mux and n :: nat
  assume a: "a < length (objs m)"
  show "\<exists>b s'. stream_Read a n m = (RdData b, s') \<and> b \<noteq> [] \<and> length b \<le> n
      \<and> stream_pending a m = b @ stream_pending a s' \<and> a < length (objs s')"
    if "0 < n" "stream_pending a m \<noteq> []"
    using sr_Read_some [of n "s_reader (objs m ! a)"] that stream_Read_reader [OF a]
    unfolding stream_pending_def by metis
  show "\<exists>s'. stream_Read a n m = (RdErr EOF, s')" if "stream_ended a m" "stream_pending a m = []"
    using sr_Read_end [of "s_reader (objs m ! a)" n] that stream_Read_reader [OF a]
    unfolding stream_pending_def stream_ended_def by metis
  show "stream_ended a (snd (stream_Read a n m))"
    if "stream_ended a m" "0 < n" "stream_pending a m \<noteq> []"
  proof -
    obtain r sr where sr: "sr_Read n (s_reader (objs m ! a)) = (r, sr)" by force
    have "sr_ended sr"
      using reader_stream.ended_rd [of "s_reader (objs m ! a)" n] that
      by (simp add: sr stream_pending_def stream_ended_def)
    then show ?thesis using stream_Read_reader [OF a sr] by (auto simp: stream_ended_def)
  qed
qed

text \<open>The writer's view: the payload bytes sent for the stream's identifier so far.\<close>

definition stream_writer_fn :: "addr \<Rightarrow> mux writer" where
  "stream_writer_fn a b m = (case stream_Write a b m of ((_, e), m') \<Rightarrow> (e, m'))"

definition writer_id :: "addr \<Rightarrow> mux \<Rightarrow> u32" where
  "writer_id a m = sw_id (s_writer (objs m ! a))"

definition sent_frames :: "mux \<Rightarrow> (u32 \<times> bytes) list" where
  "sent_frames m = fst (parse_frames (sent (m_conn m)))"

definition stream_sent :: "addr \<Rightarrow> mux \<Rightarrow> bytes" where
  "stream_sent a m = concat (payloads (writer_id a m) (sent_frames m))"

text \<open>Everything sent so far is a sequence of complete frames.\<close>

definition framed :: "mux \<Rightarrow> bool" where
  "framed m \<longleftrightarrow> sent (m_conn m) = concat (map frame (sent_frames m))
     \<and> list_all (\<lambda>f. length (snd f) < 2 ^ 32) (sent_frames m)"

definition stream_accepts :: "addr \<Rightarrow> bytes \<Rightarrow> mux \<Rightarrow> bool" where
  "stream_accepts a b m \<longleftrightarrow> writable (m_conn m) \<and> \<not> m_closed m \<and> \<not> sw_closed (s_writer (objs m ! a))
     \<and> length b < 2 ^ 32 \<and> \<not> (writer_id a m = 0 \<and> http_prefix b)"

lemma sent_frames_append:
  assumes "framed m" "sent c = sent (m_conn m) @ frame f" "length (snd f) < 2 ^ 32"
  shows "sent_frames (m\<lparr>m_conn := c\<rparr>) = sent_frames m @ [f]" "framed (m\<lparr>m_conn := c\<rparr>)"
proof -
  have "sent c = concat (map frame (sent_frames m @ [f]))"
      "list_all (\<lambda>f. length (snd f) < 2 ^ 32) (sent_frames m @ [f])"
    using assms by (simp_all add: framed_def)
  with parse_frames_concat [OF this(2)]
  show "sent_frames (m\<lparr>m_conn := c\<rparr>) = sent_frames m @ [f]" "framed (m\<lparr>m_conn := c\<rparr>)"
    by (simp_all add: framed_def sent_frames_def)
qed

lemma payloads_append [simp]: "payloads i (fs @ gs) = payloads i fs @ payloads i gs"
  by (simp add: payloads_def)

text \<open>One write on a stream is one frame, the connection aside nothing changes.\<close>

lemma stream_write_frame:
  assumes "framed m" "stream_accepts a b m"
  shows "\<exists>c. stream_writer_fn a b m = (None, m\<lparr>m_conn := c\<rparr>) \<and> framed (m\<lparr>m_conn := c\<rparr>)
    \<and> sent_frames (m\<lparr>m_conn := c\<rparr>) = sent_frames m @ [(writer_id a m, b)] \<and> writable c"
proof -
  obtain c where c: "stream_Write a b m = ((length b, None), m\<lparr>m_conn := c\<rparr>)"
      "sent c = sent (m_conn m) @ frame (writer_id a m, b)" "writable c"
    using stream_Write_sends [of m a "writer_id a m" b] assms(2)
    by (auto simp: stream_accepts_def writer_id_def)
  moreover have "length b < 2 ^ 32" using assms(2) by (simp add: stream_accepts_def)
  ultimately show ?thesis
    using sent_frames_append [OF assms(1) c(2)] by (intro exI [of _ c]) (simp add: stream_writer_fn_def)
qed

lemma stream_state_conn [simp]:
  "writer_id a (m\<lparr>m_conn := c\<rparr>) = writer_id a m"
  "stream_accepts a b (m\<lparr>m_conn := c\<rparr>) \<longleftrightarrow> writable c \<and> \<not> m_closed m
     \<and> \<not> sw_closed (s_writer (objs m ! a)) \<and> length b < 2 ^ 32 \<and> \<not> (writer_id a m = 0 \<and> http_prefix b)"
  by (simp_all add: writer_id_def stream_accepts_def)

interpretation stream_sink: byte_sink "stream_writer_fn a" "stream_sent a" "stream_accepts a" framed for a
proof
  fix m b
  assume m: "framed m" "stream_accepts a b m"
  obtain c where c: "stream_writer_fn a b m = (None, m\<lparr>m_conn := c\<rparr>)" "framed (m\<lparr>m_conn := c\<rparr>)"
      "sent_frames (m\<lparr>m_conn := c\<rparr>) = sent_frames m @ [(writer_id a m, b)]" "writable c"
    using stream_write_frame [OF m] by blast
  then show "\<exists>s'. stream_writer_fn a b m = (None, s') \<and> stream_sent a s' = stream_sent a m @ b \<and> framed s'"
    by (simp add: stream_sent_def)
  show "stream_accepts a b' s'" if "stream_accepts a b' m" "stream_writer_fn a b m = (None, s')" for b' s'
  proof -
    have "s' = m\<lparr>m_conn := c\<rparr>" using c(1) that(2) by simp
    then show ?thesis using c(4) that(1) by (simp add: stream_accepts_def writer_id_def)
  qed
qed

section \<open>Two multiplexers\<close>

text \<open>A sequence of writes, each \<open>(stream, bytes)\<close>; the result says whether all succeeded.\<close>

fun write_all :: "(addr \<times> bytes) list \<Rightarrow> mux \<Rightarrow> bool \<times> mux" where
  "write_all [] m = (True, m)"
| "write_all ((a, b) # ws) m = (case stream_Write a b m of
      ((_, None), m') \<Rightarrow> write_all ws m'
    | ((_, Some e), m') \<Rightarrow> (False, m'))"

definition frames_of :: "mux \<Rightarrow> (addr \<times> bytes) list \<Rightarrow> (u32 \<times> bytes) list" where
  "frames_of m ws = map (\<lambda>(a, b). (writer_id a m, b)) ws"

lemma frames_of_conn [simp]: "frames_of (m\<lparr>m_conn := c\<rparr>) ws = frames_of m ws"
  by (simp add: frames_of_def)

lemma frames_of_simps [simp]:
  "frames_of m [] = []" "frames_of m ((a, b) # ws) = (writer_id a m, b) # frames_of m ws"
  by (simp_all add: frames_of_def)

text \<open>Every write of a sequence is accepted.\<close>

definition all_accepted :: "(addr \<times> bytes) list \<Rightarrow> mux \<Rightarrow> bool" where
  "all_accepted ws m \<longleftrightarrow> (\<forall>(a, b) \<in> set ws. stream_accepts a b m)"

lemma write_all_frames:
  "framed m \<Longrightarrow> writable (m_conn m) \<Longrightarrow> all_accepted ws m \<Longrightarrow>
   \<exists>c. write_all ws m = (True, m\<lparr>m_conn := c\<rparr>) \<and> framed (m\<lparr>m_conn := c\<rparr>) \<and> writable c
     \<and> sent_frames (m\<lparr>m_conn := c\<rparr>) = sent_frames m @ frames_of m ws"
proof (induction ws arbitrary: m)
  case Nil
  then show ?case by (intro exI [of _ "m_conn m"]) simp
next
  case (Cons ab ws)
  obtain a b where ab: "ab = (a, b)" by force
  have "stream_accepts a b m" using Cons.prems(3) by (simp add: all_accepted_def ab)
  then obtain c where c: "stream_writer_fn a b m = (None, m\<lparr>m_conn := c\<rparr>)" "framed (m\<lparr>m_conn := c\<rparr>)"
      "sent_frames (m\<lparr>m_conn := c\<rparr>) = sent_frames m @ [(writer_id a m, b)]" "writable c"
    using stream_write_frame [OF Cons.prems(1)] by blast
  have "all_accepted ws (m\<lparr>m_conn := c\<rparr>)"
    using Cons.prems(3) c(4) by (auto simp: all_accepted_def stream_accepts_def writer_id_def)
  then obtain c' where "write_all ws (m\<lparr>m_conn := c\<rparr>) = (True, m\<lparr>m_conn := c'\<rparr>)" "framed (m\<lparr>m_conn := c'\<rparr>)"
      "writable c'" "sent_frames (m\<lparr>m_conn := c'\<rparr>) = sent_frames (m\<lparr>m_conn := c\<rparr>) @ frames_of m ws"
    using Cons.IH [of "m\<lparr>m_conn := c\<rparr>"] c(2,4) by auto
  moreover have "write_all (ab # ws) m = write_all ws (m\<lparr>m_conn := c\<rparr>)"
    using c(1) by (auto simp: ab stream_writer_fn_def split: prod.splits)
  ultimately show ?case using c(3) by (auto simp: ab)
qed

text \<open>
  The receiving end, before anything arrived: no frame is queued, its readers are open, and its
  connection carries what the sender wrote, in chunks of any sizes.
\<close>

definition receiving :: "mux \<Rightarrow> bytes \<Rightarrow> bool" where
  "receiving m b \<longleftrightarrow> mux_ok m \<and> readers_open m \<and> conn_live (m_conn m) \<and> conn_pending (m_conn m) = b
     \<and> (\<forall>i a. streams m i = Some a \<longrightarrow> dataChan (s_reader (objs m ! a)) = []
          \<and> buffer (s_reader (objs m ! a)) = [])"

lemma receiving_queue: "receiving m b \<Longrightarrow> queue_of m i = []" "receiving m b \<Longrightarrow> buffer_of m i = []"
  by (auto simp: receiving_def queue_of_def buffer_of_def split: option.split)

lemma payloads_length: "length (payloads i fs) \<le> length fs"
  by (simp add: payloads_def)

lemma received_frames:
  assumes "receiving m (concat (map frame fs))" "list_all frame_ok fs" "length fs \<le> dataChanCap"
  shows "\<exists>m'. readLoop (length fs) ks m = (LoopNext, m') \<and> mux_ok m' \<and> readers_open m'
    \<and> (\<forall>i. queue_of m' i = payloads i fs \<and> buffer_of m' i = [])"
proof -
  have "length (queue_of m i) + length (payloads i fs) \<le> dataChanCap" for i
    using receiving_queue(1) [OF assms(1)] payloads_length [of i fs] assms(3) by simp
  then show ?thesis
    using readLoop_demux [of m fs "[]" ks] assms receiving_queue [OF assms(1)]
    by (auto simp: receiving_def)
qed

section \<open>The end of the connection\<close>

lemma conn_read_full_short:
  "conn_live c \<Longrightarrow> length (conn_pending c) < n \<Longrightarrow> fin c = Some e \<Longrightarrow>
   \<exists>c'. read_full conn_read n acc c
      = (FullErr (if (acc \<noteq> [] \<or> conn_pending c \<noteq> []) \<and> e = EOF then ErrUnexpectedEOF else e), c')
    \<and> same_out c c'"
proof (induction n arbitrary: acc c rule: less_induct)
  case (less n)
  show ?case
  proof (cases "conn_pending c = []")
    case True
    then have "inbox c = []"
      using less.prems(1) by (cases "inbox c") (auto simp: conn_live_def conn_pending_def)
    then have "conn_read n c = (RdErr e, c)"
      using less.prems(1,3) by (simp add: conn_read_def conn_live_def)
    then show ?thesis using less.prems(2) True by (subst read_full.simps) simp
  next
    case False
    then obtain b c' where b: "conn_read n c = (RdData b, c')" "b \<noteq> []" "length b \<le> n"
        "conn_pending c = b @ conn_pending c'" "conn_live c'" "same_out c c'"
      using conn_read_some [OF less.prems(1), of n] less.prems(2) by auto
    have "n - length b < n" "length (conn_pending c') < n - length b" "fin c' = Some e"
      using b less.prems by (auto simp: same_out_def)
    then obtain c2 where "read_full conn_read (n - length b) (acc @ b) c'
        = (FullErr (if e = EOF then ErrUnexpectedEOF else e), c2)" "same_out c' c2"
      using less.IH [of "n - length b" c' "acc @ b"] b(2,5) by auto
    moreover have "read_full conn_read n acc c = read_full conn_read (n - length b) (acc @ b) c'"
      using b(1,2) less.prems(2) by (subst read_full.simps) simp
    ultimately show ?thesis
      using False b(6) by (auto simp: same_out_def)
  qed
qed

text \<open>Telling the readers of an error changes no queue and reaches every stream in the map.\<close>

lemma notify_frame:
  "m_closed (notify e ks m) = m_closed m" "readErr (notify e ks m) = readErr m"
  "streams (notify e ks m) = streams m" "length (objs (notify e ks m)) = length (objs m)"
  "m_conn (notify e ks m) = m_conn m"
proof -
  have "m_closed (notify e ks m) = m_closed m \<and> readErr (notify e ks m) = readErr m
    \<and> streams (notify e ks m) = streams m \<and> length (objs (notify e ks m)) = length (objs m)
    \<and> m_conn (notify e ks m) = m_conn m"
    by (induction ks arbitrary: m) (auto simp: notify_def split: option.split)
  then show "m_closed (notify e ks m) = m_closed m" "readErr (notify e ks m) = readErr m"
    "streams (notify e ks m) = streams m" "length (objs (notify e ks m)) = length (objs m)"
    "m_conn (notify e ks m) = m_conn m" by blast+
qed

lemma notify_reader:
  assumes "mux_ok m" "streams m i = Some a" "distinct ks" "\<not> sr_closed (s_reader (objs m ! a))"
  shows "s_reader (objs (notify e ks m) ! a)
    = (if i \<in> set ks then sr_WriteError (Some e) (s_reader (objs m ! a)) else s_reader (objs m ! a))"
  using assms
proof (induction ks arbitrary: m)
  case (Cons k ks)
  define m1 where "m1 = (case streams m k of None \<Rightarrow> m
    | Some a \<Rightarrow> upd_obj a (\<lambda>s. s\<lparr>s_reader := sr_WriteError (Some e) (s_reader s)\<rparr>) m)"
  have step: "notify e (k # ks) m = notify e ks m1"
    by (simp add: notify_def m1_def)
  have ok1: "mux_ok m1" "streams m1 i = Some a"
    using Cons.prems(1,2) upd_reader_ok [OF _ sr_WriteError_op] by (auto simp: m1_def split: option.split)
  have a: "a < length (objs m)" by (rule mux_okD(1) [OF Cons.prems(1,2)])
  have same: "b = a \<longleftrightarrow> k = i" if "streams m k = Some b" for b
    using mux_okD(2) [OF Cons.prems(1) that] mux_okD(2) [OF Cons.prems(1,2)] Cons.prems(2) that
    by (metis option.inject)
  have at: "s_reader (objs m1 ! a)
      = (if k = i then sr_WriteError (Some e) (s_reader (objs m ! a)) else s_reader (objs m ! a))"
    using same a Cons.prems(2) by (auto simp: m1_def nth_upd_obj split: option.split)
  show ?case
    using Cons.IH [OF ok1] Cons.prems(3,4) by (auto simp: step at)
qed (simp add: notify_def)

section \<open>Packets between multiplexers\<close>

text \<open>A packet on the wire never looks like HTTP: its length is small and its text is an object.\<close>

lemma packet_not_http:
  assumes "length (packet_data p) \<le> 10485760"
  shows "\<not> http_prefix (put_u32 (of_nat (length (packet_data p))))" "\<not> http_prefix (packet_data p)"
proof -
  obtain r where head: "packet_data p = CHR ''{'' # r" using packet_data_head by blast
  have "unat (of_nat (length (packet_data p)) :: u32) = length (packet_data p)"
    using assms by (simp add: unat_of_nat)
  then have "put_u32 (of_nat (length (packet_data p))) \<notin> {''GET '', ''POST'', ''PUT '', ''HEAD'', ''DELE'', ''OPTI''}"
    using assms by (auto simp: put_u32_def Let_def char_eq_of_char simp del: of_char_eq_iff)
  then show "\<not> http_prefix (put_u32 (of_nat (length (packet_data p))))" "\<not> http_prefix (packet_data p)"
    by (auto simp: http_prefix_def head)
qed

text \<open>
  \<open>WritePacket\<close> on a stream is two frames; the peer's read loop then has the packet pending on its stream.
\<close>

lemma packet_written:
  assumes "framed m" "writable (m_conn m)" "\<not> m_closed m" "\<not> sw_closed (s_writer (objs m ! a))"
    and "length (packet_data p) \<le> 10485760"
  shows "\<exists>c. WritePacket (Some (stream_writer_fn a)) (Some p) m = (None, m\<lparr>m_conn := c\<rparr>) \<and> framed (m\<lparr>m_conn := c\<rparr>)
    \<and> writable c \<and> sent_frames (m\<lparr>m_conn := c\<rparr>) = sent_frames m
        @ [(writer_id a m, put_u32 (of_nat (length (packet_data p)))), (writer_id a m, packet_data p)]"
proof -
  let ?i = "writer_id a m" and ?h = "put_u32 (of_nat (length (packet_data p)))"
  note http = packet_not_http [OF assms(5)]
  have acc: "stream_accepts a ?h m" "stream_accepts a (packet_data p) m"
    using assms(2-5) http by (simp_all add: stream_accepts_def)
  obtain c where c: "stream_writer_fn a ?h m = (None, m\<lparr>m_conn := c\<rparr>)" "framed (m\<lparr>m_conn := c\<rparr>)"
      "sent_frames (m\<lparr>m_conn := c\<rparr>) = sent_frames m @ [(?i, ?h)]" "writable c"
    using stream_write_frame [OF assms(1) acc(1)] by auto
  have "stream_accepts a (packet_data p) (m\<lparr>m_conn := c\<rparr>)"
    using acc(2) c(4) by (simp add: stream_accepts_def writer_id_def)
  from stream_write_frame [OF c(2) this] c(3)
  obtain c' where c': "stream_writer_fn a (packet_data p) (m\<lparr>m_conn := c\<rparr>) = (None, m\<lparr>m_conn := c'\<rparr>)"
      "framed (m\<lparr>m_conn := c'\<rparr>)" "writable c'"
      "sent_frames (m\<lparr>m_conn := c'\<rparr>) = sent_frames m @ [(?i, ?h), (?i, packet_data p)]"
    by auto
  have "WritePacket (Some (stream_writer_fn a)) (Some p) m = (None, m\<lparr>m_conn := c'\<rparr>)"
    using c(1) c'(1) by (simp add: WritePacket_def packet_Marshal_def packet_data_def writeUint32_def)
  with c' show ?thesis by blast
qed

lemma packet_received:
  assumes "receiving r (concat (map frame [(i, put_u32 (of_nat (length (packet_data p)))), (i, packet_data p)]))"
    and "length (packet_data p) \<le> 10485760"
  shows "\<exists>r' b. readLoop 2 ks r = (LoopNext, r') \<and> mux_ok r' \<and> streams r' i = Some b
    \<and> stream_pending b r' = packet_bytes p"
proof -
  let ?h = "put_u32 (of_nat (length (packet_data p)))"
  obtain q where head: "packet_data p = CHR ''{'' # q" using packet_data_head by blast
  have "list_all frame_ok [(i, ?h), (i, packet_data p)]"
    using packet_not_http [OF assms(2)] assms(2) by (simp add: frame_ok_def httpGetLen_def)
  then obtain r' where r': "readLoop 2 ks r = (LoopNext, r')" "mux_ok r'"
      "\<forall>j. queue_of r' j = payloads j [(i, ?h), (i, packet_data p)] \<and> buffer_of r' j = []"
    using received_frames [of r "[(i, ?h), (i, packet_data p)]" ks] assms(1)
    by (auto simp: dataChanCap_def eval_nat_numeral)
  then have q: "queue_of r' i = [?h, packet_data p]" by simp
  then obtain b where b: "streams r' i = Some b"
    by (cases "streams r' i") (auto simp: queue_of_def)
  have "dataChan (s_reader (objs r' ! b)) = [?h, packet_data p]" "buffer (s_reader (objs r' ! b)) = []"
    using q b r'(3)[THEN spec, of i] by (auto simp: queue_of_def buffer_of_def)
  then have "stream_pending b r' = packet_bytes p"
    by (simp add: stream_pending_def sr_pending_def packet_bytes_def head)
  then show ?thesis using r'(1,2) b by blast
qed

section \<open>Sample multiplexers\<close>

definition fresh_receiver :: "bytes \<Rightarrow> mux" where
  "fresh_receiver b = \<lparr>m_conn = conn_of [b], objs = [], streams = Map.empty, nextID = 1, m_closed = False, readErr = None\<rparr>"

lemma receiving_fresh: "b \<noteq> [] \<Longrightarrow> receiving (fresh_receiver b) b"
  by (simp add: receiving_def fresh_receiver_def mux_ok_def readers_open_def conn_live_def conn_of_def
      conn_pending_def)

lemma writeFull_plain: "wplan c = [] \<Longrightarrow> \<not> shut c \<Longrightarrow> writeFull p 0 c = (None, c\<lparr>sent := sent c @ p\<rparr>)"
  by (subst writeFull.simps) (auto simp: conn_write_def writeFull.simps [of p "length p"])

lemma sample_mux_sends:
  "framed sample_mux" "sent_frames sample_mux = []" "writable (m_conn sample_mux)" "\<not> m_closed sample_mux"
  "\<not> sw_closed (s_writer (objs sample_mux ! 0))" "writer_id 0 sample_mux = 1" "\<not> s_closed (objs sample_mux ! 0)"
  "0 < length (objs sample_mux)"
  by (simp_all add: framed_def sent_frames_def parse_frames.simps sample_mux_def conn_of_def writable_def
      fresh_stream_def newStreamWriter_def writer_id_def)

definition sample_sent :: mux where
  "sample_sent = sample_mux\<lparr>m_conn := (conn_of [])\<lparr>sent := frame (1, ''ab'')\<rparr>\<rparr>"

lemma sample_write: "write_all [(0, ''ab'')] sample_mux = (True, sample_sent)"
  by (simp add: stream_Write_def Let_def sample_mux_def fresh_stream_def newStreamWriter_def writeData_def
      http_prefix_def writeFull_plain conn_of_def sample_sent_def frame_def)

lemma sample_close: "sent (m_conn (snd (stream_Close 0 sample_sent))) = frame (1, ''ab'') @ frame (1, [])"
  by (simp add: stream_Close_def Let_def sample_sent_def sample_mux_def fresh_stream_def newStreamWriter_def
      writer_Close_def writeData_def http_prefix_def writeFull_plain conn_of_def frame_def upd_obj_def)

lemma sample_accepted: "all_accepted [(0, ''ab'')] sample_mux"
    "list_all frame_ok (frames_of sample_mux [(0, ''ab'')])"
  using sample_mux_sends
  by (simp_all add: all_accepted_def stream_accepts_def frame_ok_def httpGetLen_def)

definition broken_mux :: mux where
  "broken_mux = sample_mux\<lparr>m_conn := conn_of [put_u32 1 @ put_u32 9 @ ''ab'']\<rparr>"

section \<open>Properties\<close>

text \<open>
  C1: Streams do not mix.  Whatever two sides write on any streams of one connection, through short
  writes and read back in any chunks, the receiver queues for each identifier exactly the pieces
  written for it, in the order in which they were written.
\<close>

theorem streams_end_to_end:
  assumes "framed m" "sent_frames m = []" "writable (m_conn m)" "all_accepted ws m"
    and "list_all frame_ok (frames_of m ws)" "length ws \<le> dataChanCap"
    and "write_all ws m = (ok, m')" "receiving r (sent (m_conn m'))"
  shows "ok \<and> (\<exists>r'. readLoop (length ws) ks r = (LoopNext, r')
    \<and> (\<forall>i. queue_of r' i = payloads i (frames_of m ws)))"
proof -
  obtain c where c: "write_all ws m = (True, m\<lparr>m_conn := c\<rparr>)" "framed (m\<lparr>m_conn := c\<rparr>)"
      "sent_frames (m\<lparr>m_conn := c\<rparr>) = frames_of m ws"
    using write_all_frames [OF assms(1,3,4)] assms(2) by auto
  then have "sent (m_conn m') = concat (map frame (frames_of m ws))" and ok: ok
    using assms(7) by (auto simp: framed_def)
  then have "receiving r (concat (map frame (frames_of m ws)))" using assms(8) by simp
  from received_frames [OF this assms(5), of ks] assms(6) ok show ?thesis
    by (auto simp: frames_of_def)
qed

theorem streams_end_to_end_witness:
  "\<exists>r'. readLoop 1 [] (fresh_receiver (frame (1, ''ab''))) = (LoopNext, r') \<and> queue_of r' 1 = [''ab'']"
proof -
  have "receiving (fresh_receiver (frame (1, ''ab''))) (sent (m_conn sample_sent))"
    by (simp add: sample_sent_def conn_of_def receiving_fresh frame_def)
  from streams_end_to_end [OF sample_mux_sends(1-3) sample_accepted _ sample_write this, of "[]"]
  show ?thesis by (auto simp: dataChanCap_def sample_mux_sends)
qed

text \<open>
  C2: A transfer is complete.  When a side writes the non-empty pieces of a file on a stream and closes
  it, the peer that copies the stream to the end (with a buffer of any size) gets exactly the bytes
  written and then the end of the input, not an error.
\<close>

theorem transfer_complete:
  assumes "framed m" "sent_frames m = []" "writable (m_conn m)" "all_accepted ws m" "\<not> m_closed m"
    and "\<forall>(b, p) \<in> set ws. b = a \<and> p \<noteq> []" "list_all frame_ok (frames_of m ws)" "length ws < dataChanCap"
    and "\<not> s_closed (objs m ! a)" "a < length (objs m)" "write_all ws m = (ok, m1)" "stream_Close a m1 = (e, m2)"
    and "receiving r (sent (m_conn m2))" "0 < k"
  shows "\<exists>r' b r''. readLoop (Suc (length ws)) ks r = (LoopNext, r') \<and> streams r' (writer_id a m) = Some b
    \<and> read_all (stream_Read b) k (Suc (length (concat (map snd ws)))) [] r' = (Some (concat (map snd ws), None), r'')"
proof -
  let ?i = "writer_id a m" and ?fs = "frames_of m ws @ [(writer_id a m, [])]"
  obtain c where c: "write_all ws m = (True, m\<lparr>m_conn := c\<rparr>)" "framed (m\<lparr>m_conn := c\<rparr>)" "writable c"
      "sent_frames (m\<lparr>m_conn := c\<rparr>) = frames_of m ws"
    using write_all_frames [OF assms(1,3,4)] assms(2) by auto
  then have m1: "m1 = m\<lparr>m_conn := c\<rparr>" using assms(11) by simp
  let ?mc = "upd_obj a (\<lambda>s. s\<lparr>s_closed := True, s_reader := sr_Close (s_reader s)\<rparr>) m1"
  have id: "sw_id (s_writer (objs ?mc ! a)) = ?i"
    using assms(10) by (simp add: nth_upd_obj m1 writer_id_def)
  obtain c2 where c2: "writeData ?i [] ?mc = (None, ?mc\<lparr>m_conn := c2\<rparr>)" "sent c2 = sent c @ frame (?i, [])"
    using writeData_sends [of ?mc ?i "[]"] c(3) assms(5) by (auto simp: m1 http_prefix_def)
  have "stream_Close a m1 = (None, writer_Close a ?mc)"
    using assms(9) by (simp add: stream_Close_def upd_obj_comp m1)
  then have "sent (m_conn m2) = sent c2"
    using assms(12) c2(1) id by (auto simp: writer_Close_def)
  also have "\<dots> = concat (map frame ?fs)"
    using c(2,4) c2(2) by (simp add: framed_def)
  finally have rec: "receiving r (concat (map frame ?fs))" using assms(13) by simp
  have "list_all frame_ok ?fs" "length ?fs \<le> dataChanCap"
    using assms(7,8) by (simp_all add: frame_ok_def httpGetLen_def http_prefix_def frames_of_def)
  from received_frames [OF rec this, of ks] obtain r' where r': "readLoop (length ?fs) ks r = (LoopNext, r')"
      "mux_ok r'" "\<forall>i. queue_of r' i = payloads i ?fs \<and> buffer_of r' i = []" by blast
  have "payloads ?i (frames_of m ws) = map snd ws"
    using assms(6) by (induction ws) (auto simp: frames_of_def)
  then have q: "queue_of r' ?i = map snd ws @ [[]]" using r'(3) by simp
  then obtain b where b: "streams r' ?i = Some b"
    by (cases "streams r' ?i") (auto simp: queue_of_def)
  have data: "dataChan (s_reader (objs r' ! b)) = map snd ws @ [[]]" "buffer (s_reader (objs r' ! b)) = []"
    using q b r'(3)[THEN spec, of ?i] by (auto simp: queue_of_def buffer_of_def)
  have nonempty: "[] \<notin> set (map snd ws)" using assms(6) by auto
  then have "stream_pending b r' = concat (map snd ws)" "stream_ended b r'"
    using data by (simp_all add: stream_pending_def sr_pending_def stream_ended_def sr_ended_def
        before_end_append from_end_append)
  then obtain r'' where "read_all (stream_Read b) k (Suc (length (concat (map snd ws)))) [] r'
      = (Some (concat (map snd ws), None), r'')"
    using stream_src.read_all_pending [of b r' k "Suc (length (concat (map snd ws)))" "[]"]
      mux_okD(1) [OF r'(2) b] assms(14) by auto
  then show ?thesis using r'(1) b by (auto simp: frames_of_def)
qed

theorem transfer_complete_witness:
  "\<exists>r' b r''. readLoop 2 [] (fresh_receiver (frame (1, ''ab'') @ frame (1, []))) = (LoopNext, r')
    \<and> streams r' 1 = Some b \<and> read_all (stream_Read b) 1 3 [] r' = (Some (''ab'', None), r'')"
proof -
  have "receiving (fresh_receiver (frame (1, ''ab'') @ frame (1, []))) (sent (m_conn (snd (stream_Close 0 sample_sent))))"
    by (simp add: sample_close receiving_fresh frame_def)
  from transfer_complete [OF sample_mux_sends(1-3) sample_accepted(1) sample_mux_sends(4) _ sample_accepted(2) _
      sample_mux_sends(7,8) sample_write prod.collapse [symmetric] this, of 1 "[]"]
  show ?thesis by (simp add: dataChanCap_def sample_mux_sends eval_nat_numeral)
qed

text \<open>
  The control plane end to end.  A packet of at most 10 MiB that \<open>WritePacket\<close> puts on any stream,
  the control stream included, is what \<open>ReadPacket\<close> gets from the peer's stream of the same identifier.
\<close>

theorem packet_end_to_end:
  assumes "framed m" "sent_frames m = []" "writable (m_conn m)" "\<not> m_closed m"
    and "\<not> sw_closed (s_writer (objs m ! a))" "packet_ok p" "length (packet_data p) \<le> 10485760"
  shows "\<exists>m'. WritePacket (Some (stream_writer_fn a)) (Some p) m = (None, m')
    \<and> (\<forall>r. receiving r (sent (m_conn m')) \<longrightarrow>
        (\<exists>r' b r''. readLoop 2 ks r = (LoopNext, r') \<and> streams r' (writer_id a m) = Some b
          \<and> ReadPacket (Some (stream_Read b)) r' = (Done p, r'')))"
proof -
  obtain c where c: "WritePacket (Some (stream_writer_fn a)) (Some p) m = (None, m\<lparr>m_conn := c\<rparr>)"
      "framed (m\<lparr>m_conn := c\<rparr>)" "sent_frames (m\<lparr>m_conn := c\<rparr>) =
        [(writer_id a m, put_u32 (of_nat (length (packet_data p)))), (writer_id a m, packet_data p)]"
    using packet_written [OF assms(1,3,4,5,7)] assms(2) by auto
  have "\<exists>r' b r''. readLoop 2 ks r = (LoopNext, r') \<and> streams r' (writer_id a m) = Some b
      \<and> ReadPacket (Some (stream_Read b)) r' = (Done p, r'')" if "receiving r (sent c)" for r
  proof -
    have "receiving r (concat (map frame [(writer_id a m, put_u32 (of_nat (length (packet_data p)))),
        (writer_id a m, packet_data p)]))"
      using that c(2,3) by (simp add: framed_def)
    from packet_received [where ks = ks, OF this assms(7)] obtain r' b where r': "readLoop 2 ks r = (LoopNext, r')" "mux_ok r'"
        "streams r' (writer_id a m) = Some b" "stream_pending b r' = packet_bytes p @ []" by auto
    from stream_src.ReadPacket_pending [OF mux_okD(1) [OF r'(2,3)] r'(4) assms(6,7)] r'(1,3)
    show ?thesis by blast
  qed
  then show ?thesis using c(1) by auto
qed

theorem packet_end_to_end_witness:
  "\<exists>m'. WritePacket (Some (stream_writer_fn 0)) (Some \<lparr>p_type = ''status'', p_content = Some (JBool True)\<rparr>) sample_mux
    = (None, m')"
  using packet_end_to_end [OF sample_mux_sends(1-5), of "\<lparr>p_type = ''status'', p_content = Some (JBool True)\<rparr>"]
  by (simp add: packet_ok_def valid_utf8_ascii packet_data_def packet_to_json_def struct_simps(1-3)
      json_quote_def json_esc.simps esc_ascii_def) blast

text \<open>
  When the connection ends between two frames, every open stream in the map with nothing left to
  read reports the error to its reader; nobody waits forever.
\<close>

theorem end_between_frames:
  assumes "mux_ok m" "conn_live (m_conn m)" "conn_pending (m_conn m) = []" "fin (m_conn m) = Some e"
    and "iterates ks (streams m)" "streams m i = Some a" "s_reader (objs m ! a) = newStreamReader i"
  shows "\<exists>m'. readLoop_step ks m = (LoopEnd, m') \<and> m_closed m' \<and> readErr m' = Some e
    \<and> fst (stream_Read a n m') = RdErr e"
proof -
  obtain c where c: "read_full conn_read 8 [] (m_conn m) = (FullErr e, c)"
    using conn_read_full_short [OF assms(2), of 8 e "[]"] assms(3,4) by auto
  let ?m = "fail_read e (m\<lparr>m_conn := c\<rparr>)"
  have "mux_ok ?m" "streams ?m i = Some a" "distinct ks" "i \<in> set ks" "s_reader (objs ?m ! a) = newStreamReader i"
    using assms by (auto simp: fail_read_def iterates_def)
  then have r: "s_reader (objs (notify e ks ?m) ! a) = sr_WriteError (Some e) (newStreamReader i)"
    by (subst notify_reader) (auto simp: newStreamReader_def)
  have "readLoop_step ks m = (LoopEnd, notify e ks ?m)"
    by (simp add: readLoop_step_def c)
  moreover have "fst (stream_Read a n (notify e ks ?m)) = RdErr e"
    by (simp add: stream_Read_def r case_prod_beta) (simp add: sr_Read_def sr_WriteError_def newStreamReader_def)
  ultimately show ?thesis
    by (simp add: notify_frame) (simp add: fail_read_def)
qed

theorem end_between_frames_witness:
  "\<exists>m'. readLoop_step [1] sample_mux = (LoopEnd, m') \<and> m_closed m' \<and> readErr m' = Some EOF
    \<and> fst (stream_Read 0 5 m') = RdErr EOF"
  by (rule end_between_frames [OF sample_mux_ok, where i = 1])
    (simp_all add: sample_mux_def conn_live_def conn_of_def conn_pending_def iterates_def fresh_stream_def)

text \<open>
  When the connection breaks inside a frame, no stream is told: a waiting reader stays blocked
  although the multiplexer is marked closed, and a later \<open>Close\<close> returns at once, closing neither the
  connection nor the stream.
\<close>

theorem end_inside_frame:
  assumes "conn_live (m_conn m)" "fin (m_conn m) = Some EOF" "\<not> m_closed m"
    and "conn_pending (m_conn m) = put_u32 i @ put_u32 (of_nat n) @ d" "length d < n" "n < 2 ^ 32"
    and "n \<noteq> unat httpGetLen" "s_reader (objs m ! a) = newStreamReader j"
  shows "\<exists>m'. readLoop_step ks m = (LoopEnd, m') \<and> m_closed m'
    \<and> fst (stream_Read a k m') = RdBlock
    \<and> mux_Close as (Some m') = (None, Some m') \<and> \<not> shut (m_conn m') \<and> \<not> sr_closed (s_reader (objs m' ! a))"
proof -
  let ?h = "put_u32 i @ put_u32 (of_nat n)"
  have "conn_pending (m_conn m) = ?h @ d" using assms(4) by simp
  from conn_src.read_full_exact [OF assms(1) this]
  obtain c1 where c1: "read_full conn_read 8 [] (m_conn m) = (FullOk ?h, c1)" "conn_pending c1 = d" "conn_live c1"
    by auto
  have out1: "same_out (m_conn m) c1" using conn_read_full_same_out [OF c1(1)] .
  then have "fin c1 = Some EOF" using assms(2) by (simp add: same_out_def)
  then obtain e c2 where c2: "read_full conn_read n [] c1 = (FullErr e, c2)" "same_out c1 c2"
    using conn_read_full_short [OF c1(3), of n EOF "[]"] assms(5) c1(2) by auto
  have n: "unat (of_nat n :: u32) = n" using assms(6) by (simp add: unat_of_nat)
  then have "of_nat n \<noteq> httpGetLen" using assms(7) by auto
  then have "readLoop_step ks m = (LoopEnd, fail_read e (m\<lparr>m_conn := c2\<rparr>))"
    using c1(1) c2(1) n by (simp add: readLoop_step_def Let_def)
  moreover have "\<not> shut c2"
    using out1 c2(2) assms(1) by (simp add: same_out_def conn_live_def)
  moreover have "fst (stream_Read a k (fail_read e (m\<lparr>m_conn := c2\<rparr>))) = RdBlock"
    by (simp add: stream_Read_def fail_read_def assms(8) case_prod_beta) (simp add: sr_Read_def newStreamReader_def)
  ultimately show ?thesis
    by (simp add: mux_Close_def) (simp add: fail_read_def assms(8) newStreamReader_def)
qed

theorem end_inside_frame_witness:
  "\<exists>m'. readLoop_step [1] broken_mux = (LoopEnd, m') \<and> m_closed m'
    \<and> fst (stream_Read 0 5 m') = RdBlock
    \<and> mux_Close [0] (Some m') = (None, Some m') \<and> \<not> shut (m_conn m') \<and> \<not> sr_closed (s_reader (objs m' ! 0))"
  by (rule end_inside_frame [where i = 1 and n = 9 and d = "''ab''" and j = 1])
    (simp_all add: broken_mux_def sample_mux_def conn_live_def conn_of_def conn_pending_def fresh_stream_def
      httpGetLen_def)

end
