(* ===== verification/Control_Plane.thy ===== *)
theory Control_Plane
  imports Handshake Mux_Transport
begin

text \<open>
  \<open>p2p/protocols/common/control_plane/control_plane.go\<close>: the goroutine that reads packets from the
  control stream into a channel of events, and \<open>Next\<close>, which takes them out.  One round of the
  goroutine is a step; a round that would wait, for a packet or for room, leaves the state as it was.
  Also the part of a session that client and server share: the multiplexer, its control stream and the
  control plane, with the reading of a handshake under a timeout.
\<close>

definition ControlBufferSize :: nat where "ControlBufferSize = 32"

record control_event =
  ev_packet :: "handshake option"
  ev_err :: "goerr option"

text \<open>\<open>cp_once\<close>: the \<open>sync.Once\<close> has run; \<open>cp_running\<close>: the goroutine is alive; \<open>cp_conn\<close>: the connection is not nil.\<close>

record control =
  cp_conn :: bool
  cp_once :: bool
  cp_startErr :: "goerr option"
  cp_cancelled :: bool
  cp_running :: bool
  cp_events :: "control_event list"
  cp_evClosed :: bool

definition NewControlPlane :: "bool \<Rightarrow> control" where
  "NewControlPlane conn = \<lparr>cp_conn = conn, cp_once = False, cp_startErr = None, cp_cancelled = False,
     cp_running = False, cp_events = [], cp_evClosed = False\<rparr>"

definition EnsureStarted :: "control option \<Rightarrow> goerr option \<times> control option" where
  "EnsureStarted c = (case c of
      None \<Rightarrow> (Some (Err ''control plane is nil''), None)
    | Some c \<Rightarrow>
        (let c' = (if cp_once c then c
           else if \<not> cp_conn c
             then c\<lparr>cp_once := True, cp_startErr := Some (Err ''control connection not initialized'')\<rparr>
           else c\<lparr>cp_once := True, cp_running := True\<rparr>)
         in (cp_startErr c', Some c')))"

text \<open>Take the next event; an event with neither packet nor error is skipped.\<close>

fun next_event :: "control_event list \<Rightarrow> bool \<Rightarrow> handshake rres \<times> control_event list" where
  "next_event [] closed = (if closed then Fail EOF else Blocked, [])"
| "next_event (e # es) closed = (case ev_err e of
      Some err \<Rightarrow> (Fail err, es)
    | None \<Rightarrow> (case ev_packet e of None \<Rightarrow> next_event es closed | Some p \<Rightarrow> (Done p, es)))"

text \<open>\<open>cancelled\<close>: the \<open>select\<close> takes the branch of the caller's context, which is done.\<close>

definition Next :: "bool \<Rightarrow> control option \<Rightarrow> handshake rres \<times> control option" where
  "Next cancelled c = (case c of
      None \<Rightarrow> (Fail (Err ''control plane is nil''), None)
    | Some _ \<Rightarrow> (case EnsureStarted c of
          (Some e, c') \<Rightarrow> (Fail e, c')
        | (None, None) \<Rightarrow> (Blocked, None)
        | (None, Some c') \<Rightarrow>
            if cancelled then (Fail CtxErr, Some c')
            else (case next_event (cp_events c') (cp_evClosed c') of
                (r, es) \<Rightarrow> (r, Some (c'\<lparr>cp_events := es\<rparr>)))))"

definition cp_Close :: "control option \<Rightarrow> control option" where
  "cp_Close c = map_option (\<lambda>c. if cp_running c then c\<lparr>cp_cancelled := True\<rparr> else c) c"

definition cp_stop :: "control \<Rightarrow> control" where
  "cp_stop c = c\<lparr>cp_running := False, cp_evClosed := True\<rparr>"

definition cp_push :: "control_event \<Rightarrow> control \<Rightarrow> control" where
  "cp_push e c = c\<lparr>cp_events := cp_events c @ [e]\<rparr>"

text \<open>One round of \<open>run\<close> reading from \<open>r\<close>; false: the round waits.\<close>

definition cp_run_round :: "'s reader \<Rightarrow> control \<Rightarrow> 's \<Rightarrow> bool \<times> control \<times> 's" where
  "cp_run_round r c s =
     (if \<not> cp_running c then (False, c, s)
      else if cp_cancelled c then (True, cp_stop c, s)
      else (case prwc_ReadPacket r (Some s) of
          (res, s') \<Rightarrow>
            (let s' = (case s' of None \<Rightarrow> s | Some s' \<Rightarrow> s');
                 ev = (case res of
                    Blocked \<Rightarrow> None
                  | Fail e \<Rightarrow> Some \<lparr>ev_packet = None, ev_err = Some (Wrap ''read message'' e)\<rparr>
                  | Done p \<Rightarrow> (case UnmarshalHandshakePacket (Some p) of
                        Inl e \<Rightarrow> Some \<lparr>ev_packet = None, ev_err = Some (Wrap ''unmarshal'' e)\<rparr>
                      | Inr h \<Rightarrow> Some \<lparr>ev_packet = Some h, ev_err = None\<rparr>))
             in (case ev of
                None \<Rightarrow> (False, c, s)
              | Some ev \<Rightarrow>
                  if length (cp_events c) < ControlBufferSize
                  then (True, (if ev_err ev = None then cp_push ev c else cp_stop (cp_push ev c)), s')
                  else (False, c, s)))))"

fun cp_run :: "nat \<Rightarrow> 's reader \<Rightarrow> control \<Rightarrow> 's \<Rightarrow> control \<times> 's" where
  "cp_run 0 r c s = (c, s)"
| "cp_run (Suc k) r c s = (case cp_run_round r c s of
      (True, c', s') \<Rightarrow> cp_run k r c' s'
    | (False, c', s') \<Rightarrow> (c', s'))"

section \<open>Sessions\<close>

record session =
  ss_mux :: mux
  ss_ctrl :: addr
  ss_control :: control

text \<open>\<open>controlConn.ReadPacket\<close> and \<open>controlConn.WritePacket\<close> on the control stream.\<close>

definition ctl_ReadPacket :: "'a session_scheme \<Rightarrow> packet rres \<times> 'a session_scheme" where
  "ctl_ReadPacket s = (case prwc_ReadPacket (stream_Read (ss_ctrl s)) (Some (ss_mux s)) of
      (Blocked, _) \<Rightarrow> (Blocked, s)
    | (r, None) \<Rightarrow> (r, s)
    | (r, Some m) \<Rightarrow> (r, s\<lparr>ss_mux := m\<rparr>))"

definition ctl_WritePacket :: "packet option \<Rightarrow> 'a session_scheme \<Rightarrow> goerr option \<times> 'a session_scheme" where
  "ctl_WritePacket p s = (case prwc_WritePacket (stream_writer_fn (ss_ctrl s)) p (Some (ss_mux s)) of
      (e, None) \<Rightarrow> (e, s)
    | (e, Some m) \<Rightarrow> (e, s\<lparr>ss_mux := m\<rparr>))"

text \<open>\<open>timeout\<close>: the timer fires before a whole packet has arrived.\<close>

definition readHandshakeWithTimeout :: "bool \<Rightarrow> 'a session_scheme \<Rightarrow> handshake rres \<times> 'a session_scheme" where
  "readHandshakeWithTimeout timeout s = (case ctl_ReadPacket s of
      (Blocked, s') \<Rightarrow> (if timeout then Fail (Err ''timeout'') else Blocked, s)
    | (Fail e, s') \<Rightarrow> (Fail (Wrap ''read'' e), s')
    | (Done p, s') \<Rightarrow> (case UnmarshalHandshakePacket (Some p) of
          Inl e \<Rightarrow> (Fail (Wrap ''unmarshal'' e), s')
        | Inr h \<Rightarrow> (Done h, s')))"

text \<open>The constructors of client and server: a multiplexer on the connection and its control stream.\<close>

definition new_session :: "conn \<Rightarrow> session result" where
  "new_session c = (case NewMultiplexer (Some c) of
      None \<Rightarrow> Inl ErrClosedPipe
    | Some m \<Rightarrow> (case ControlStream m of
          (Inl e, _) \<Rightarrow> Inl e
        | (Inr a, m') \<Rightarrow> Inr \<lparr>ss_mux = m', ss_ctrl = a, ss_control = NewControlPlane True\<rparr>))"

section \<open>Packets in order\<close>

context byte_source
begin

lemma prwc_ReadPacket_pending:
  assumes "wf s" "pending s = packet_bytes p @ t" "packet_ok p" "length (packet_data p) \<le> 10485760"
  shows "\<exists>s'. prwc_ReadPacket rd (Some s) = (Done p, Some s') \<and> pending s' = t \<and> wf s'"
  using ReadPacket_pending [OF assms] by (auto simp: prwc_ReadPacket_def)

lemma cp_run_round_packet:
  assumes "wf s" "pending s = packet_bytes p @ t" "packet_ok p" "length (packet_data p) \<le> 10485760"
    and "UnmarshalHandshakePacket (Some p) = Inr h" "cp_running c" "\<not> cp_cancelled c"
    and "length (cp_events c) < ControlBufferSize"
  shows "\<exists>s'. cp_run_round rd c s = (True, cp_push \<lparr>ev_packet = Some h, ev_err = None\<rparr> c, s')
    \<and> pending s' = t \<and> wf s'"
  using prwc_ReadPacket_pending [OF assms(1-4)] assms(5-8) by (auto simp: cp_run_round_def Let_def)

lemma cp_run_packets:
  "wf s \<Longrightarrow> pending s = concat (map packet_bytes ps) @ t \<Longrightarrow>
   list_all (\<lambda>p. packet_ok p \<and> length (packet_data p) \<le> 10485760) ps \<Longrightarrow>
   list_all2 (\<lambda>p h. UnmarshalHandshakePacket (Some p) = Inr h) ps hs \<Longrightarrow>
   cp_running c \<Longrightarrow> \<not> cp_cancelled c \<Longrightarrow> length (cp_events c) + length ps \<le> ControlBufferSize \<Longrightarrow>
   \<exists>s'. cp_run (length ps) rd c s
      = (c\<lparr>cp_events := cp_events c @ map (\<lambda>h. \<lparr>ev_packet = Some h, ev_err = None\<rparr>) hs\<rparr>, s')
     \<and> pending s' = t \<and> wf s'"
proof (induction ps arbitrary: s c hs)
  case (Cons p ps)
  obtain h hs' where hs: "hs = h # hs'" "UnmarshalHandshakePacket (Some p) = Inr h"
      "list_all2 (\<lambda>p h. UnmarshalHandshakePacket (Some p) = Inr h) ps hs'"
    using Cons.prems(4) by (auto simp: list_all2_Cons1)
  let ?c = "cp_push \<lparr>ev_packet = Some h, ev_err = None\<rparr> c"
  obtain s1 where s1: "cp_run_round rd c s = (True, ?c, s1)"
      "pending s1 = concat (map packet_bytes ps) @ t" "wf s1"
    using cp_run_round_packet [OF Cons.prems(1) _ _ _ hs(2) Cons.prems(5,6)] Cons.prems by auto
  have "length (cp_events ?c) + length ps \<le> ControlBufferSize" "cp_running ?c" "\<not> cp_cancelled ?c"
    using Cons.prems(5-7) by (simp_all add: cp_push_def)
  from Cons.IH [OF s1(3,2) _ hs(3) this(2,3,1)] Cons.prems(3)
  obtain s' where "cp_run (length ps) rd ?c s1
      = (?c\<lparr>cp_events := cp_events ?c @ map (\<lambda>h. \<lparr>ev_packet = Some h, ev_err = None\<rparr>) hs'\<rparr>, s')"
      "pending s' = t" "wf s'" by auto
  then show ?case using s1(1) by (auto simp: hs(1) cp_push_def)
qed simp

end

text \<open>Taking \<open>k\<close> packets out of the control plane.\<close>

fun take_next :: "nat \<Rightarrow> control option \<Rightarrow> handshake rres list \<times> control option" where
  "take_next 0 c = ([], c)"
| "take_next (Suc k) c = (case Next False c of
      (r, c') \<Rightarrow> (case take_next k c' of (rs, c'') \<Rightarrow> (r # rs, c'')))"

lemma Next_queued:
  assumes "cp_once c" "cp_startErr c = None" "cp_events c = \<lparr>ev_packet = Some h, ev_err = None\<rparr> # es"
  shows "Next False (Some c) = (Done h, Some (c\<lparr>cp_events := es\<rparr>))"
  using assms by (simp add: Next_def EnsureStarted_def)

lemma take_next_queued:
  "cp_once c \<Longrightarrow> cp_startErr c = None \<Longrightarrow>
   cp_events c = map (\<lambda>h. \<lparr>ev_packet = Some h, ev_err = None\<rparr>) hs @ es \<Longrightarrow>
   take_next (length hs) (Some c) = (map Done hs, Some (c\<lparr>cp_events := es\<rparr>))"
proof (induction hs arbitrary: c)
  case (Cons h hs)
  then show ?case
    using Cons.IH [of "c\<lparr>cp_events := map (\<lambda>h. \<lparr>ev_packet = Some h, ev_err = None\<rparr>) hs @ es\<rparr>"]
    by (simp add: Next_queued)
qed simp

text \<open>A multiplexer whose first stream has one frame queued, and the acknowledgement as an example packet.\<close>

definition queued_mux :: "bytes \<Rightarrow> mux" where
  "queued_mux b = \<lparr>m_conn = conn_of [], objs = [(fresh_stream 0)\<lparr>s_reader := (newStreamReader 0)\<lparr>dataChan := [b]\<rparr>\<rparr>],
     streams = [0 \<mapsto> 0], nextID = 1, m_closed = False, readErr = None\<rparr>"

lemma queued_mux_pending: "0 < length (objs (queued_mux b))" "stream_pending 0 (queued_mux b) = b"
  by (simp_all add: queued_mux_def stream_pending_def sr_pending_def newStreamReader_def)

lemma hello_ack:
  assumes "NewHelloAckPacket = Inr p"
  shows "packet_ok p" "UnmarshalHandshakePacket (Some p) = Inr \<lparr>h_type = HandshakeTypeHelloAck, h_payload = None\<rparr>"
    "length (packet_data p) \<le> 10485760"
proof -
  have p: "NewHandshakePacket HandshakeTypeHelloAck None = Inr p"
    using assms by (simp add: NewHelloAckPacket_def)
  show "packet_ok p" by (rule NewHandshakePacket_ok [OF p])
  show "UnmarshalHandshakePacket (Some p) = Inr \<lparr>h_type = HandshakeTypeHelloAck, h_payload = None\<rparr>"
    by (rule handshake_received [OF p]) (simp add: handshake_ok_def HandshakeTypeHelloAck_def valid_utf8_ascii)
  show "length (packet_data p) \<le> 10485760"
    using NewHandshakePacket_length [OF p] by (simp add: HandshakeTypeHelloAck_def)
qed

section \<open>Properties\<close>

text \<open>
  The control plane is a queue of handshakes: up to 32 packets lying on a stream are read by the
  goroutine and handed out by \<open>Next\<close> in the order in which they were sent, none lost or repeated.
\<close>

theorem control_plane_order:
  assumes "a < length (objs m)" "stream_pending a m = concat (map packet_bytes ps)"
    and "list_all (\<lambda>p. packet_ok p \<and> length (packet_data p) \<le> 10485760) ps"
    and "list_all2 (\<lambda>p h. UnmarshalHandshakePacket (Some p) = Inr h) ps hs" "length ps \<le> ControlBufferSize"
    and "EnsureStarted (Some (NewControlPlane True)) = (None, Some c)"
  shows "fst (take_next (length hs) (Some (fst (cp_run (length ps) (stream_Read a) c m)))) = map Done hs"
proof -
  have c: "cp_running c" "\<not> cp_cancelled c" "cp_events c = []" "cp_once c" "cp_startErr c = None"
    using assms(6) by (auto simp: EnsureStarted_def NewControlPlane_def)
  obtain m' where "cp_run (length ps) (stream_Read a) c m
      = (c\<lparr>cp_events := map (\<lambda>h. \<lparr>ev_packet = Some h, ev_err = None\<rparr>) hs\<rparr>, m')"
    using stream_src.cp_run_packets [of a m ps "[]" hs c] assms(1-5) c by auto
  then show ?thesis
    using take_next_queued [of _ hs "[]"] c by simp
qed

theorem control_plane_order_witness:
  "\<exists>p c. EnsureStarted (Some (NewControlPlane True)) = (None, Some c)
    \<and> fst (take_next 1 (Some (fst (cp_run 1 (stream_Read 0) c (queued_mux (packet_bytes p))))))
      = [Done \<lparr>h_type = HandshakeTypeHelloAck, h_payload = None\<rparr>]"
proof -
  obtain p where p: "NewHelloAckPacket = Inr p"
    using NewHandshakePacket_Inr by (auto simp: NewHelloAckPacket_def)
  obtain c where c: "EnsureStarted (Some (NewControlPlane True)) = (None, Some c)"
    by (simp add: EnsureStarted_def NewControlPlane_def)
  show ?thesis
    using control_plane_order [of 0 "queued_mux (packet_bytes p)" "[p]"
        "[\<lparr>h_type = HandshakeTypeHelloAck, h_payload = None\<rparr>]" c]
      queued_mux_pending [of "packet_bytes p"] hello_ack [OF p] c
    by (intro exI [of _ p] exI [of _ c]) (simp add: ControlBufferSize_def)
qed

end
