(* ===== verification/Base_Server.thy ===== *)
theory Base_Server
  imports Control_Plane
begin

text \<open>
  \<open>p2p/protocols/common/service/base_server.go\<close> and the two halves of the handshake.  \<open>BaseServer\<close> is a
  record that the servers of the protocols extend; its protocol-specific handlers are records of
  functions.  The locale \<open>handshake_protocol\<close> is the contract between the two ends' handlers; it is
  interpreted on the handlers of the proxy, file and compute protocols.
\<close>

section \<open>State\<close>

record base_server = session +
  bs_clientID :: bytes
  bs_handshakeDone :: bool
  bs_streamIDCounter :: u32

text \<open>\<open>HandshakeHandler\<close> of the server and \<open>ClientHelloHandler\<close> of the client.\<close>

record 'h handshake_handler =
  hh_type :: handshake_type
  hh_unmarshal :: "json option \<Rightarrow> 'h result"
  hh_ack :: "packet result"
  hh_client :: "'h \<Rightarrow> bytes"

record hello_handler =
  hl_hello :: "bytes \<Rightarrow> bytes \<Rightarrow> packet result"
  hl_ack :: handshake_type
  hl_error :: handshake_type

definition NewBaseServer :: "conn option \<Rightarrow> base_server option" where
  "NewBaseServer c = (case c of
      None \<Rightarrow> None
    | Some c \<Rightarrow> (case new_session c of
          Inl _ \<Rightarrow> None
        | Inr s \<Rightarrow> Some (session.extend s
            \<lparr>bs_clientID = [], bs_handshakeDone = False, bs_streamIDCounter = 0\<rparr>)))"

section \<open>Operations\<close>

text \<open>\<open>Accept\<close>; \<open>timeout\<close> says that the timer wins if the hello is not there.\<close>

definition Accept :: "bool \<Rightarrow> 'h handshake_handler option \<Rightarrow> 'a base_server_scheme option
    \<Rightarrow> unit rres \<times> 'a base_server_scheme option" where
  "Accept timeout hh s = (case s of None \<Rightarrow> (Fail (Err ''server is nil''), None) | Some s \<Rightarrow>
     (case hh of None \<Rightarrow> (Fail (Err ''handshake handler not set''), Some s) | Some hh \<Rightarrow>
     if bs_handshakeDone s then (Fail (Err ''already accepted''), Some s)
     else (case readHandshakeWithTimeout timeout s of
        (Blocked, s1) \<Rightarrow> (Blocked, Some s1)
      | (Fail e, s1) \<Rightarrow> (Fail e, Some s1)
      | (Done h, s1) \<Rightarrow>
          if h_type h \<noteq> hh_type hh
          then (Fail (Err (''unexpected type: '' @ h_type h @ '', expected '' @ hh_type hh)), Some s1)
          else (case hh_unmarshal hh (h_payload h) of
              Inl e \<Rightarrow> (Fail (Wrap ''unmarshal payload'' e), Some s1)
            | Inr hello \<Rightarrow> (case hh_ack hh of
                  Inl e \<Rightarrow> (Fail (Wrap ''create ack'' e), Some s1)
                | Inr ack \<Rightarrow> (case ctl_WritePacket (Some ack) s1 of
                      (Some e, s2) \<Rightarrow> (Fail (Wrap ''send ack'' e), Some s2)
                    | (None, s2) \<Rightarrow>
                        (Done (), Some (s2\<lparr>bs_clientID := hh_client hh hello, bs_handshakeDone := True\<rparr>))))))))"

definition ensureAccepted :: "'a base_server_scheme option \<Rightarrow> goerr option" where
  "ensureAccepted s = (case s of
      None \<Rightarrow> Some (Err ''server is nil'')
    | Some s \<Rightarrow> if \<not> bs_handshakeDone s then Some (Err ''not accepted - call Accept() first'') else None)"

text \<open>
  One round of the loop of \<open>Serve\<close>, with the dispatcher as an argument (\<open>None\<close>: not set).  \<open>Done\<close> says
  that the loop goes on.
\<close>

definition Serve_round :: "bool \<Rightarrow> (handshake \<Rightarrow> 'a base_server_scheme \<Rightarrow> goerr option \<times> 'a base_server_scheme) option
    \<Rightarrow> 'a base_server_scheme \<Rightarrow> unit rres \<times> 'a base_server_scheme" where
  "Serve_round cancelled disp s = (case ensureAccepted (Some s) of
      Some e \<Rightarrow> (Fail e, s)
    | None \<Rightarrow> (case disp of
          None \<Rightarrow> (Fail (Err ''packet dispatcher not set''), s)
        | Some disp \<Rightarrow> (case Next cancelled (Some (ss_control s)) of
              (r, c) \<Rightarrow>
                (let s1 = (case c of None \<Rightarrow> s | Some c \<Rightarrow> s\<lparr>ss_control := c\<rparr>) in
                 (case r of
                    Blocked \<Rightarrow> (Blocked, s1)
                  | Fail e \<Rightarrow> (Fail e, s1)
                  | Done p \<Rightarrow> (case disp p s1 of
                        (Some e, s2) \<Rightarrow> (Fail e, s2)
                      | (None, s2) \<Rightarrow> (Done (), s2)))))))"

fun Serve :: "nat \<Rightarrow> bool \<Rightarrow> (handshake \<Rightarrow> 'a base_server_scheme \<Rightarrow> goerr option \<times> 'a base_server_scheme) option
    \<Rightarrow> 'a base_server_scheme \<Rightarrow> unit rres \<times> 'a base_server_scheme" where
  "Serve 0 cancelled disp s = (Done (), s)"
| "Serve (Suc k) cancelled disp s = (case Serve_round cancelled disp s of
      (Done _, s') \<Rightarrow> Serve k cancelled disp s'
    | r \<Rightarrow> r)"

definition NextStreamID :: "'a base_server_scheme \<Rightarrow> u32 \<times> 'a base_server_scheme" where
  "NextStreamID s =
     (let s = (if bs_streamIDCounter s = 0 then s\<lparr>bs_streamIDCounter := 1\<rparr> else s)
      in (bs_streamIDCounter s, s\<lparr>bs_streamIDCounter := bs_streamIDCounter s + 1\<rparr>))"

definition bs_ClientID :: "'a base_server_scheme option \<Rightarrow> bytes" where
  "bs_ClientID s = (case s of None \<Rightarrow> [] | Some s \<Rightarrow> bs_clientID s)"

definition bs_IsHandshakeDone :: "'a base_server_scheme option \<Rightarrow> bool" where
  "bs_IsHandshakeDone s = (case s of None \<Rightarrow> False | Some s \<Rightarrow> bs_handshakeDone s)"

text \<open>\<open>as\<close> is the order in which the multiplexer closes its streams.\<close>

definition bs_Close :: "addr list \<Rightarrow> 'a base_server_scheme option \<Rightarrow> goerr option \<times> 'a base_server_scheme option" where
  "bs_Close as s = (case s of
      None \<Rightarrow> (None, None)
    | Some s \<Rightarrow>
        (let s = (case cp_Close (Some (ss_control s)) of None \<Rightarrow> s | Some c \<Rightarrow> s\<lparr>ss_control := c\<rparr>)
         in (case mux_Close as (Some (ss_mux s)) of
            (e, None) \<Rightarrow> (e, Some s)
          | (e, Some m) \<Rightarrow> (e, Some (s\<lparr>ss_mux := m\<rparr>)))))"

section \<open>The handlers of the three protocols\<close>

text \<open>\<open>json.Unmarshal\<close> of a payload; an absent payload is an empty text, which is an error.\<close>

definition unmarshal_hello :: "'r fields \<Rightarrow> 'r \<Rightarrow> json option \<Rightarrow> 'r result" where
  "unmarshal_hello flds zero payload = (case payload of
      None \<Rightarrow> Inl (Wrap ''unmarshal hello payload'' JsonErr)
    | Some v \<Rightarrow> (case into_struct flds v zero of
          (r, True) \<Rightarrow> Inr r
        | (_, False) \<Rightarrow> Inl (Wrap ''unmarshal hello payload'' JsonErr)))"

definition proxyHandshakeHandler :: "hello_payload handshake_handler" where
  "proxyHandshakeHandler = \<lparr>hh_type = HandshakeTypeHello,
     hh_unmarshal = unmarshal_hello hello_payload_fields no_hello_payload,
     hh_ack = NewHelloAckPacket, hh_client = hp_client_id\<rparr>"

definition proxyHelloHandler :: hello_handler where
  "proxyHelloHandler = \<lparr>hl_hello = NewHelloPacket, hl_ack = HandshakeTypeHelloAck, hl_error = HandshakeTypeError\<rparr>"

definition fileHandshakeHandler :: "file_hello_payload handshake_handler" where
  "fileHandshakeHandler = \<lparr>hh_type = HandshakeTypeFileHello,
     hh_unmarshal = unmarshal_hello file_hello_payload_fields no_file_hello_payload,
     hh_ack = NewFileHelloAckPacket, hh_client = fh_client_id\<rparr>"

definition fileHelloHandler :: hello_handler where
  "fileHelloHandler = \<lparr>hl_hello = (\<lambda>version clientID. NewFileHelloPacket version clientID
       (Some [''list'', ''get'', ''send'', ''checksum'', ''recursive''])),
     hl_ack = HandshakeTypeFileHelloAck, hl_error = HandshakeTypeFileError\<rparr>"

definition computeHandshakeHandler :: "compute_hello_payload handshake_handler" where
  "computeHandshakeHandler = \<lparr>hh_type = HandshakeTypeComputeHello,
     hh_unmarshal = unmarshal_hello compute_hello_payload_fields no_compute_hello_payload,
     hh_ack = NewComputeHelloAckPacket, hh_client = ch_client_id\<rparr>"

definition computeHelloHandler :: hello_handler where
  "computeHelloHandler = \<lparr>hl_hello = NewComputeHelloPacket, hl_ack = HandshakeTypeComputeHelloAck,
     hl_error = HandshakeTypeComputeError\<rparr>"

section \<open>The contract of the two handlers\<close>

text \<open>
  The client's hello is what the server expects and carries the client's identifier, and the server's
  acknowledgement is what the client expects, and not its error type.
\<close>

locale handshake_protocol =
  fixes hh :: "'h handshake_handler" and hl :: hello_handler
  assumes hello_ok: "valid_utf8 v \<Longrightarrow> valid_utf8 i \<Longrightarrow> \<exists>p h x. hl_hello hl v i = Inr p \<and> packet_ok p
      \<and> UnmarshalHandshakePacket (Some p) = Inr h \<and> h_type h = hh_type hh
      \<and> hh_unmarshal hh (h_payload h) = Inr x \<and> hh_client hh x = i"
    and hello_small: "hl_hello hl ''1.0'' i = Inr p \<Longrightarrow> length i \<le> 1000 \<Longrightarrow> length (packet_data p) \<le> 10485760"
    and ack_ok: "\<exists>p h. hh_ack hh = Inr p \<and> packet_ok p \<and> length (packet_data p) \<le> 10485760
      \<and> UnmarshalHandshakePacket (Some p) = Inr h \<and> h_type h = hl_ack hl"
    and ack_no_error: "hl_ack hl \<noteq> hl_error hl"

text \<open>A hello message meets the first law whenever its payload codec carries the identifier.\<close>

context message
begin

lemma hello_message:
  assumes "good x"
  shows "\<exists>p h. NewHandshakePacket ty (Some (tj x)) = Inr p \<and> packet_ok p
    \<and> UnmarshalHandshakePacket (Some p) = Inr h \<and> h_type h = ty
    \<and> unmarshal_hello flds zero (h_payload h) = Inr x"
proof -
  obtain p where p: "NewHandshakePacket ty (Some (tj x)) = Inr p"
    using NewHandshakePacket_Inr by blast
  have "handshake_ok \<lparr>h_type = ty, h_payload = Some (tj x)\<rparr>"
    using ty_ok text_of_payload [OF assms] by (simp add: handshake_ok_def)
  from handshake_received [OF p this] decode [OF assms] p NewHandshakePacket_ok [OF p] show ?thesis
    by (simp add: unmarshal_hello_def)
qed

end

lemma empty_ack:
  assumes "t \<in> set handshake_types" "length t \<le> 100"
  shows "\<exists>p h. NewHandshakePacket t None = Inr p \<and> packet_ok p \<and> length (packet_data p) \<le> 10485760
    \<and> UnmarshalHandshakePacket (Some p) = Inr h \<and> h_type h = t"
proof -
  obtain p where p: "NewHandshakePacket t None = Inr p"
    using NewHandshakePacket_Inr by blast
  have "handshake_ok \<lparr>h_type = t, h_payload = None\<rparr>"
    using types_valid assms(1) by (simp add: handshake_ok_def)
  from handshake_received [OF p this] p NewHandshakePacket_ok [OF p] NewHandshakePacket_length [OF p] assms(2)
  show ?thesis by simp
qed

text \<open>A message whose payload text is short makes a packet within the reader's limit.\<close>

lemma small_message:
  assumes "NewHandshakePacket t (Some v) = Inr p" "length t \<le> 100" "length (json_text v) \<le> 100000"
  shows "length (packet_data p) \<le> 10485760"
  using NewHandshakePacket_length [OF assms(1)] assms(2,3) by simp

interpretation proxy_shake: handshake_protocol proxyHandshakeHandler proxyHelloHandler
proof
  show "\<exists>p h x. hl_hello proxyHelloHandler v i = Inr p \<and> packet_ok p
      \<and> UnmarshalHandshakePacket (Some p) = Inr h \<and> h_type h = hh_type proxyHandshakeHandler
      \<and> hh_unmarshal proxyHandshakeHandler (h_payload h) = Inr x \<and> hh_client proxyHandshakeHandler x = i"
    if "valid_utf8 v" "valid_utf8 i" for v i
    using hello.hello_message [of "\<lparr>hp_version = v, hp_client_id = i\<rparr>"] that
    by (fastforce simp: proxyHelloHandler_def proxyHandshakeHandler_def NewHelloPacket_def hello_payload_ok_def)
  show "length (packet_data p) \<le> 10485760" if "hl_hello proxyHelloHandler ''1.0'' i = Inr p" "length i \<le> 1000" for i p
  proof (rule small_message)
    show "NewHandshakePacket HandshakeTypeHello (Some (hello_payload_to_json \<lparr>hp_version = ''1.0'', hp_client_id = i\<rparr>)) = Inr p"
      using that(1) by (simp add: proxyHelloHandler_def NewHelloPacket_def)
    show "length HandshakeTypeHello \<le> 100" by (simp add: HandshakeTypeHello_def)
    show "length (json_text (hello_payload_to_json \<lparr>hp_version = ''1.0'', hp_client_id = i\<rparr>)) \<le> 100000"
      using that(2) length_json_quote [of i]
      by (simp add: hello_payload_to_json_def struct_simps(1-3))
        (simp add: json_quote_def json_esc.simps esc_ascii_def)
  qed
  show "\<exists>p h. hh_ack proxyHandshakeHandler = Inr p \<and> packet_ok p \<and> length (packet_data p) \<le> 10485760
      \<and> UnmarshalHandshakePacket (Some p) = Inr h \<and> h_type h = hl_ack proxyHelloHandler"
    using empty_ack [of HandshakeTypeHelloAck]
    by (simp add: proxyHandshakeHandler_def proxyHelloHandler_def NewHelloAckPacket_def handshake_types_def)
      (simp add: HandshakeTypeHelloAck_def)
qed (simp add: proxyHelloHandler_def type_defs)

interpretation file_shake: handshake_protocol fileHandshakeHandler fileHelloHandler
proof
  show "\<exists>p h x. hl_hello fileHelloHandler v i = Inr p \<and> packet_ok p
      \<and> UnmarshalHandshakePacket (Some p) = Inr h \<and> h_type h = hh_type fileHandshakeHandler
      \<and> hh_unmarshal fileHandshakeHandler (h_payload h) = Inr x \<and> hh_client fileHandshakeHandler x = i"
    if "valid_utf8 v" "valid_utf8 i" for v i
    using file_hello.hello_message [of "\<lparr>fh_version = v, fh_client_id = i,
        fh_features = Some [''list'', ''get'', ''send'', ''checksum'', ''recursive'']\<rparr>"] that
    by (fastforce simp: fileHelloHandler_def fileHandshakeHandler_def NewFileHelloPacket_def
        file_hello_payload_ok_def valid_utf8_ascii)
  show "length (packet_data p) \<le> 10485760" if "hl_hello fileHelloHandler ''1.0'' i = Inr p" "length i \<le> 1000" for i p
  proof (rule small_message)
    show "NewHandshakePacket HandshakeTypeFileHello (Some (file_hello_payload_to_json \<lparr>fh_version = ''1.0'', fh_client_id = i,
        fh_features = Some [''list'', ''get'', ''send'', ''checksum'', ''recursive'']\<rparr>)) = Inr p"
      using that(1) by (simp add: fileHelloHandler_def NewFileHelloPacket_def)
    show "length HandshakeTypeFileHello \<le> 100" by (simp add: HandshakeTypeFileHello_def)
    show "length (json_text (file_hello_payload_to_json \<lparr>fh_version = ''1.0'', fh_client_id = i,
        fh_features = Some [''list'', ''get'', ''send'', ''checksum'', ''recursive'']\<rparr>)) \<le> 100000"
      using that(2) length_json_quote [of i]
      by (simp add: file_hello_payload_to_json_def struct_simps(1-3) jslice_def)
        (simp add: json_quote_def json_esc.simps esc_ascii_def)
  qed
  show "\<exists>p h. hh_ack fileHandshakeHandler = Inr p \<and> packet_ok p \<and> length (packet_data p) \<le> 10485760
      \<and> UnmarshalHandshakePacket (Some p) = Inr h \<and> h_type h = hl_ack fileHelloHandler"
    using empty_ack [of HandshakeTypeFileHelloAck]
    by (simp add: fileHandshakeHandler_def fileHelloHandler_def NewFileHelloAckPacket_def handshake_types_def)
      (simp add: HandshakeTypeFileHelloAck_def)
qed (simp add: fileHelloHandler_def type_defs)

interpretation compute_shake: handshake_protocol computeHandshakeHandler computeHelloHandler
proof
  show "\<exists>p h x. hl_hello computeHelloHandler v i = Inr p \<and> packet_ok p
      \<and> UnmarshalHandshakePacket (Some p) = Inr h \<and> h_type h = hh_type computeHandshakeHandler
      \<and> hh_unmarshal computeHandshakeHandler (h_payload h) = Inr x \<and> hh_client computeHandshakeHandler x = i"
    if "valid_utf8 v" "valid_utf8 i" for v i
    using compute_hello.hello_message [of "\<lparr>ch_client_id = i, ch_version = v\<rparr>"] that
    by (fastforce simp: computeHelloHandler_def computeHandshakeHandler_def NewComputeHelloPacket_def
        compute_hello_payload_ok_def)
  show "length (packet_data p) \<le> 10485760" if "hl_hello computeHelloHandler ''1.0'' i = Inr p" "length i \<le> 1000" for i p
  proof (rule small_message)
    show "NewHandshakePacket HandshakeTypeComputeHello (Some (compute_hello_payload_to_json \<lparr>ch_client_id = i, ch_version = ''1.0''\<rparr>)) = Inr p"
      using that(1) by (simp add: computeHelloHandler_def NewComputeHelloPacket_def)
    show "length HandshakeTypeComputeHello \<le> 100" by (simp add: HandshakeTypeComputeHello_def)
    show "length (json_text (compute_hello_payload_to_json \<lparr>ch_client_id = i, ch_version = ''1.0''\<rparr>)) \<le> 100000"
      using that(2) length_json_quote [of i]
      by (simp add: compute_hello_payload_to_json_def struct_simps(1-3))
        (simp add: json_quote_def json_esc.simps esc_ascii_def)
  qed
  let ?ack = "\<lparr>cha_server_id = [], cha_version = []\<rparr>"
  obtain p h where p: "NewComputeHelloAckPacket = Inr p" "packet_ok p"
      "UnmarshalHandshakePacket (Some p) = Inr h" "h_type h = HandshakeTypeComputeHelloAck"
    using compute_hello_ack.hello_message [of ?ack]
    by (auto simp: NewComputeHelloAckPacket_def compute_hello_ack_payload_ok_def)
  have "length (json_text (compute_hello_ack_payload_to_json ?ack)) \<le> 1000"
    using length_json_quote [of "''server_id''"] length_json_quote [of "''version''"]
    by (simp add: compute_hello_ack_payload_to_json_def struct_simps(1-3)) (simp add: json_quote_def json_esc.simps)
  then have "length (packet_data p) \<le> 10485760"
    using NewHandshakePacket_length p(1)
    by (fastforce simp: NewComputeHelloAckPacket_def HandshakeTypeComputeHelloAck_def)
  then show "\<exists>p h. hh_ack computeHandshakeHandler = Inr p \<and> packet_ok p \<and> length (packet_data p) \<le> 10485760
      \<and> UnmarshalHandshakePacket (Some p) = Inr h \<and> h_type h = hl_ack computeHelloHandler"
    using p by (auto simp: computeHandshakeHandler_def computeHelloHandler_def)
qed (simp add: computeHelloHandler_def type_defs)

end
