(* ===== verification/Base_Client.thy ===== *)
theory Base_Client
  imports Base_Server
begin

text \<open>
  \<open>p2p/protocols/common/service/base_client.go\<close> and \<open>types.go\<close>: the handshake of the client, the table of
  pending requests, the dispatcher goroutine that matches incoming packets with them, and data streams
  on demand.  Request objects live in a heap because the caller of \<open>SendRequest\<close> keeps its pointer after
  the table has dropped it.  A blocking call is split where it waits.
\<close>

section \<open>State\<close>

record response =
  rp_packet :: "handshake option"
  rp_err :: "goerr option"

type_synonym matcher = "handshake \<Rightarrow> bool result"

record request =
  rq_ID :: u64
  rq_Match :: matcher
  rq_Response :: "response list"

record base_client = session +
  bc_clientID :: bytes
  bc_handshakeDone :: bool
  bc_reqs :: "request list"
  bc_pending :: "u64 \<rightharpoonup> nat"
  bc_nextRequestID :: u64
  bc_dispatchOnce :: bool
  bc_dispatching :: bool
  bc_dispatchCancelled :: bool

definition NewBaseClient :: "bytes \<Rightarrow> conn option \<Rightarrow> hello_handler option \<Rightarrow> base_client option" where
  "NewBaseClient clientID c hl = (case c of
      None \<Rightarrow> None
    | Some c \<Rightarrow>
        if clientID = [] \<or> hl = None then None
        else (case new_session c of
          Inl _ \<Rightarrow> None
        | Inr s \<Rightarrow> Some (session.extend s
            \<lparr>bc_clientID = clientID, bc_handshakeDone = False, bc_reqs = [], bc_pending = Map.empty,
             bc_nextRequestID = 0, bc_dispatchOnce = False, bc_dispatching = False,
             bc_dispatchCancelled = False\<rparr>)))"

section \<open>Pending requests\<close>

text \<open>\<open>Deliver\<close>: the response channel holds one element and a delivery never waits.\<close>

definition Deliver :: "response \<Rightarrow> request \<Rightarrow> request" where
  "Deliver r q = (if length (rq_Response q) < 1 then q\<lparr>rq_Response := rq_Response q @ [r]\<rparr> else q)"

definition deliver_at :: "nat \<Rightarrow> response \<Rightarrow> 'a base_client_scheme \<Rightarrow> 'a base_client_scheme" where
  "deliver_at a r c = c\<lparr>bc_reqs := (bc_reqs c)[a := Deliver r (bc_reqs c ! a)]\<rparr>"

definition delete_pending :: "u64 \<Rightarrow> 'a base_client_scheme \<Rightarrow> 'a base_client_scheme" where
  "delete_pending i c = c\<lparr>bc_pending := (bc_pending c)(i := None)\<rparr>"

definition registerPending :: "matcher \<Rightarrow> 'a base_client_scheme \<Rightarrow> nat \<times> 'a base_client_scheme" where
  "registerPending match c =
     (let i = bc_nextRequestID c + 1; a = length (bc_reqs c)
      in (a, c\<lparr>bc_nextRequestID := i, bc_reqs := bc_reqs c @ [\<lparr>rq_ID = i, rq_Match = match, rq_Response = []\<rparr>],
               bc_pending := (bc_pending c)(i \<mapsto> a)\<rparr>))"

definition completePending :: "u64 \<Rightarrow> response \<Rightarrow> 'a base_client_scheme \<Rightarrow> 'a base_client_scheme" where
  "completePending i r c = (case bc_pending c i of
      None \<Rightarrow> c
    | Some a \<Rightarrow> deliver_at a r (delete_pending i c))"

text \<open>The order \<open>ks\<close> in which \<open>dispatchPending\<close> visits the table is up to the runtime.\<close>

fun dispatchPending :: "u64 list \<Rightarrow> handshake \<Rightarrow> 'a base_client_scheme \<Rightarrow> bool \<times> 'a base_client_scheme" where
  "dispatchPending [] p c = (False, c)"
| "dispatchPending (i # ks) p c = (case bc_pending c i of
      None \<Rightarrow> dispatchPending ks p c
    | Some a \<Rightarrow> (case rq_Match (bc_reqs c ! a) p of
          Inl e \<Rightarrow> (True, deliver_at a \<lparr>rp_packet = None, rp_err = Some e\<rparr> (delete_pending i c))
        | Inr True \<Rightarrow> (True, deliver_at a \<lparr>rp_packet = Some p, rp_err = None\<rparr> (delete_pending i c))
        | Inr False \<Rightarrow> dispatchPending ks p c))"

definition failAllPending :: "u64 list \<Rightarrow> goerr \<Rightarrow> 'a base_client_scheme \<Rightarrow> 'a base_client_scheme" where
  "failAllPending ks e c = fold (\<lambda>i. completePending i \<lparr>rp_packet = None, rp_err = Some e\<rparr>) ks c"

section \<open>The dispatcher\<close>

definition ensureDispatcher :: "'a base_client_scheme \<Rightarrow> goerr option \<times> 'a base_client_scheme" where
  "ensureDispatcher c =
     (if bc_dispatchOnce c then (None, c)
      else (let c = c\<lparr>bc_dispatchOnce := True\<rparr> in
        (case EnsureStarted (Some (ss_control c)) of
            (Some e, Some cp) \<Rightarrow> (Some e, c\<lparr>ss_control := cp\<rparr>)
          | (Some e, None) \<Rightarrow> (Some e, c)
          | (None, Some cp) \<Rightarrow> (None, c\<lparr>ss_control := cp, bc_dispatching := True\<rparr>)
          | (None, None) \<Rightarrow> (None, c\<lparr>bc_dispatching := True\<rparr>))))"

text \<open>
  One round of \<open>runDispatcher\<close>; false: it waits for a packet or has ended.  \<open>ev\<close> is the optional events
  handler of the protocol, which gets the packets no request claims.
\<close>

definition runDispatcher_round :: "u64 list \<Rightarrow> (handshake \<Rightarrow> 'a base_client_scheme \<Rightarrow> 'a base_client_scheme) option
    \<Rightarrow> 'a base_client_scheme \<Rightarrow> bool \<times> 'a base_client_scheme" where
  "runDispatcher_round ks ev c =
     (if \<not> bc_dispatching c then (False, c)
      else (case Next (bc_dispatchCancelled c) (Some (ss_control c)) of
          (r, cp) \<Rightarrow>
            (let c1 = (case cp of None \<Rightarrow> c | Some cp \<Rightarrow> c\<lparr>ss_control := cp\<rparr>) in
             (case r of
                Blocked \<Rightarrow> (False, c1)
              | Fail e \<Rightarrow> (True, (failAllPending ks e c1)\<lparr>bc_dispatching := False\<rparr>)
              | Done p \<Rightarrow> (case dispatchPending ks p c1 of
                    (True, c2) \<Rightarrow> (True, c2)
                  | (False, c2) \<Rightarrow> (True, case ev of None \<Rightarrow> c2 | Some ev \<Rightarrow> ev p c2))))))"

section \<open>Requests\<close>

text \<open>\<open>SendRequest\<close> up to its wait; the result is the request object to wait for.\<close>

definition SendRequest_begin :: "packet option \<Rightarrow> matcher \<Rightarrow> 'a base_client_scheme
    \<Rightarrow> nat result \<times> 'a base_client_scheme" where
  "SendRequest_begin p match c = (case ensureDispatcher c of
      (Some e, c1) \<Rightarrow> (Inl e, c1)
    | (None, c1) \<Rightarrow> (case registerPending match c1 of
        (a, c2) \<Rightarrow> (case ctl_WritePacket p c2 of
            (Some e, c3) \<Rightarrow>
              (Inl e, completePending (rq_ID (bc_reqs c3 ! a))
                 \<lparr>rp_packet = None, rp_err = Some (Wrap ''send request'' e)\<rparr> c3)
          | (None, c3) \<Rightarrow> (Inr a, c3))))"

text \<open>The wait of \<open>SendRequest\<close>; \<open>cancelled\<close>: the \<open>select\<close> takes the branch of the done context.\<close>

definition SendRequest_wait :: "bool \<Rightarrow> nat \<Rightarrow> 'a base_client_scheme
    \<Rightarrow> handshake option rres \<times> 'a base_client_scheme" where
  "SendRequest_wait cancelled a c =
     (if cancelled
      then (Fail CtxErr, completePending (rq_ID (bc_reqs c ! a)) \<lparr>rp_packet = None, rp_err = Some CtxErr\<rparr> c)
      else (case rq_Response (bc_reqs c ! a) of
          [] \<Rightarrow> (Blocked, c)
        | r # rs \<Rightarrow>
            (let c = c\<lparr>bc_reqs := (bc_reqs c)[a := (bc_reqs c ! a)\<lparr>rq_Response := rs\<rparr>]\<rparr> in
             (case rp_err r of Some e \<Rightarrow> (Fail e, c) | None \<Rightarrow> (Done (rp_packet r), c)))))"

section \<open>Connecting\<close>

definition Connect_hello :: "hello_handler option \<Rightarrow> 'a base_client_scheme option
    \<Rightarrow> goerr option \<times> 'a base_client_scheme option" where
  "Connect_hello hl c = (case c of None \<Rightarrow> (Some (Err ''client is nil''), None) | Some c \<Rightarrow>
     (case hl of None \<Rightarrow> (Some (Err ''hello handler not set''), Some c) | Some hl \<Rightarrow>
     if bc_handshakeDone c then (Some (Err ''already connected''), Some c)
     else (case hl_hello hl ''1.0'' (bc_clientID c) of
         Inl e \<Rightarrow> (Some (Wrap ''create hello'' e), Some c)
       | Inr p \<Rightarrow> (case ctl_WritePacket (Some p) c of
             (Some e, c1) \<Rightarrow> (Some (Wrap ''send hello'' e), Some c1)
           | (None, c1) \<Rightarrow> (None, Some c1)))))"

definition Connect_reply :: "bool \<Rightarrow> hello_handler \<Rightarrow> 'a base_client_scheme
    \<Rightarrow> unit rres \<times> 'a base_client_scheme" where
  "Connect_reply timeout hl c = (case readHandshakeWithTimeout timeout c of
      (Blocked, c1) \<Rightarrow> (Blocked, c1)
    | (Fail e, c1) \<Rightarrow> (Fail e, c1)
    | (Done r, c1) \<Rightarrow>
        if h_type r = hl_error hl then
          (case UnmarshalPayload error_payload_fields (Some r) (Some no_error_payload) of
             (Some ep, None) \<Rightarrow> (Fail (Err (ep_code ep @ '': '' @ ep_message ep)), c1)
           | _ \<Rightarrow> (Fail (Err ''handshake error''), c1))
        else if h_type r \<noteq> hl_ack hl
          then (Fail (Err (''unexpected type: '' @ h_type r @ '', expected '' @ hl_ack hl)), c1)
        else (case ensureDispatcher c1 of
            (Some e, c2) \<Rightarrow> (Fail e, c2)
          | (None, c2) \<Rightarrow> (Done (), c2\<lparr>bc_handshakeDone := True\<rparr>)))"

definition Connect :: "bool \<Rightarrow> hello_handler option \<Rightarrow> 'a base_client_scheme option
    \<Rightarrow> unit rres \<times> 'a base_client_scheme option" where
  "Connect timeout hl c = (case Connect_hello hl c of
      (Some e, c1) \<Rightarrow> (Fail e, c1)
    | (None, c1) \<Rightarrow> (case (c1, hl) of
          (Some c1, Some hl) \<Rightarrow> (case Connect_reply timeout hl c1 of (r, c2) \<Rightarrow> (r, Some c2))
        | _ \<Rightarrow> (Fail (Err ''client is nil''), c1)))"

definition EnsureConnected :: "'a base_client_scheme option \<Rightarrow> goerr option" where
  "EnsureConnected c = (case c of
      None \<Rightarrow> Some (Err ''client is nil'')
    | Some c \<Rightarrow> if \<not> bc_handshakeDone c then Some (Err ''not connected - call Connect() first'') else None)"

section \<open>Streams and shutdown\<close>

definition GetOrCreateStream :: "u32 \<Rightarrow> mux option \<Rightarrow> addr result \<times> mux option" where
  "GetOrCreateStream i m =
     (if i = 0 then (Inl (Err ''invalid stream ID 0 - reserved for control stream''), m)
      else (case m of
          None \<Rightarrow> (Inl (Err ''multiplexer is nil - cannot create stream with ID''), None)
        | Some m \<Rightarrow>
            (let create = (\<lambda>m. case OpenStreamWithID i m of
                  (Inl e, m') \<Rightarrow> (Inl e, Some m')
                | (Inr a, m') \<Rightarrow>
                    if s_ID (objs m' ! a) = 0
                    then (Inl (Err ''CRITICAL BUG: Created stream has ID 0 (control stream)''), Some m')
                    else (Inr a, Some m'))
             in (case GetStream i m of
                Inr a \<Rightarrow>
                  if s_ID (objs m ! a) = 0
                  then (Inl (Err ''CRITICAL BUG: Retrieved stream has ID 0 (control stream)''), Some m)
                  else if stream_IsClosed a m then create (snd (CloseStream i m))
                  else (Inr a, Some m)
              | Inl _ \<Rightarrow> create m))))"

definition bc_Close :: "addr list \<Rightarrow> 'a base_client_scheme option \<Rightarrow> goerr option \<times> 'a base_client_scheme option" where
  "bc_Close as c = (case c of
      None \<Rightarrow> (None, None)
    | Some c \<Rightarrow>
        (let c = (if bc_dispatching c then c\<lparr>bc_dispatchCancelled := True\<rparr> else c);
             c = (case cp_Close (Some (ss_control c)) of None \<Rightarrow> c | Some cp \<Rightarrow> c\<lparr>ss_control := cp\<rparr>)
         in (case mux_Close as (Some (ss_mux c)) of
            (e, None) \<Rightarrow> (e, Some c)
          | (e, Some m) \<Rightarrow> (e, Some (c\<lparr>ss_mux := m\<rparr>)))))"

section \<open>Every request gets at most one response\<close>

interpretation pending_table: table bc_pending "\<lambda>i a c. c\<lparr>bc_pending := (bc_pending c)(i \<mapsto> a)\<rparr>" delete_pending
  by unfold_locales (auto simp: delete_pending_def)

text \<open>
  A request is in the table under its own number and without a response, or it is out of the table and
  has exactly one response (or its caller has taken it).  \<open>taken\<close> lists the objects whose response was taken.
\<close>

definition requests_ok :: "nat set \<Rightarrow> 'a base_client_scheme \<Rightarrow> bool" where
  "requests_ok taken c \<longleftrightarrow>
     (\<forall>i a. bc_pending c i = Some a \<longrightarrow> a < length (bc_reqs c) \<and> rq_ID (bc_reqs c ! a) = i
        \<and> rq_Response (bc_reqs c ! a) = [] \<and> unat i \<le> unat (bc_nextRequestID c) \<and> a \<notin> taken)
     \<and> (\<forall>a < length (bc_reqs c). bc_pending c (rq_ID (bc_reqs c ! a)) = Some a
          \<or> length (rq_Response (bc_reqs c ! a)) = (if a \<in> taken then 0 else 1))
     \<and> (\<forall>a \<in> taken. a < length (bc_reqs c))"

lemma requests_okD:
  assumes "requests_ok taken c" "bc_pending c i = Some a"
  shows "a < length (bc_reqs c)" "rq_ID (bc_reqs c ! a) = i" "rq_Response (bc_reqs c ! a) = []" "a \<notin> taken"
    "unat i \<le> unat (bc_nextRequestID c)"
  using assms unfolding requests_ok_def by blast+

lemma requests_ok_settled:
  assumes "requests_ok taken c" "a < length (bc_reqs c)"
  shows "bc_pending c (rq_ID (bc_reqs c ! a)) = Some a
    \<or> length (rq_Response (bc_reqs c ! a)) = (if a \<in> taken then 0 else 1)"
  using assms unfolding requests_ok_def by blast

lemma requests_ok_taken: "requests_ok taken c \<Longrightarrow> a \<in> taken \<Longrightarrow> a < length (bc_reqs c)"
  unfolding requests_ok_def by blast

lemma registerPending_simps:
  assumes "registerPending match c = (a, c')"
  shows "a = length (bc_reqs c)" "bc_nextRequestID c' = bc_nextRequestID c + 1"
    "bc_reqs c' = bc_reqs c @ [\<lparr>rq_ID = bc_nextRequestID c + 1, rq_Match = match, rq_Response = []\<rparr>]"
    "bc_pending c' = (bc_pending c)(bc_nextRequestID c + 1 \<mapsto> a)"
  using assms by (auto simp: registerPending_def Let_def)

lemma register_ok:
  assumes "requests_ok taken c" "unat (bc_nextRequestID c) < 2 ^ 64 - 1" "registerPending match c = (a, c')"
  shows "requests_ok taken c'" "bc_pending c (bc_nextRequestID c + 1) = None"
proof -
  note c' = registerPending_simps [OF assms(3)]
  have bumped: "unat (bc_nextRequestID c + 1) = unat (bc_nextRequestID c) + 1"
    using assms(2) by (simp add: unat_word_ariths)
  show new: "bc_pending c (bc_nextRequestID c + 1) = None"
  proof (rule ccontr)
    assume "bc_pending c (bc_nextRequestID c + 1) \<noteq> None"
    then obtain b where "bc_pending c (bc_nextRequestID c + 1) = Some b" by auto
    from requests_okD(5) [OF assms(1) this] bumped show False by simp
  qed
  show "requests_ok taken c'"
    unfolding requests_ok_def
  proof (intro conjI allI ballI impI)
    fix j b
    assume j: "bc_pending c' j = Some b"
    have "b < length (bc_reqs c') \<and> rq_ID (bc_reqs c' ! b) = j \<and> rq_Response (bc_reqs c' ! b) = []
      \<and> unat j \<le> unat (bc_nextRequestID c') \<and> b \<notin> taken"
    proof (cases "j = bc_nextRequestID c + 1")
      case True
      then have "b = length (bc_reqs c)" using j c'(1,4) by simp
      then show ?thesis using True requests_ok_taken [OF assms(1)] by (auto simp: c')
    next
      case False
      then have "bc_pending c j = Some b" using j c'(4) by simp
      from requests_okD [OF assms(1) this] bumped show ?thesis by (simp add: c' nth_append)
    qed
    then show "b < length (bc_reqs c')" "rq_ID (bc_reqs c' ! b) = j" "rq_Response (bc_reqs c' ! b) = []"
      "unat j \<le> unat (bc_nextRequestID c')" "b \<notin> taken" by simp_all
  next
    fix b
    assume "b < length (bc_reqs c')"
    then consider "b = length (bc_reqs c)" | "b < length (bc_reqs c)" by (fastforce simp: c'(3))
    then show "bc_pending c' (rq_ID (bc_reqs c' ! b)) = Some b
        \<or> length (rq_Response (bc_reqs c' ! b)) = (if b \<in> taken then 0 else 1)"
    proof cases
      case 1
      then show ?thesis by (simp add: c')
    next
      case 2
      show ?thesis
        using requests_ok_settled [OF assms(1) 2] new 2 by (auto simp: c' nth_append)
    qed
  next
    fix b
    assume "b \<in> taken"
    then show "b < length (bc_reqs c')" using requests_ok_taken [OF assms(1)] by (fastforce simp: c'(3))
  qed
qed

lemma deliver_ok:
  assumes "requests_ok taken c" "bc_pending c i = Some a"
  shows "requests_ok taken (deliver_at a r (delete_pending i c))"
proof -
  let ?c = "deliver_at a r (delete_pending i c)"
  note a = requests_okD [OF assms]
  have at: "bc_reqs ?c ! b = (if b = a then (bc_reqs c ! a)\<lparr>rq_Response := [r]\<rparr> else bc_reqs c ! b)" for b
    using a(1,3) by (simp add: deliver_at_def delete_pending_def Deliver_def nth_list_update)
  have rest: "bc_pending ?c = (bc_pending c)(i := None)" "length (bc_reqs ?c) = length (bc_reqs c)"
      "bc_nextRequestID ?c = bc_nextRequestID c"
    by (simp_all add: deliver_at_def delete_pending_def)
  have other: "b \<noteq> a" if "bc_pending c j = Some b" "j \<noteq> i" for j b
    using requests_okD(2) [OF assms(1) that(1)] a(2) that(2) by auto
  show ?thesis
    unfolding requests_ok_def rest
  proof (intro conjI allI ballI impI)
    fix j b
    assume "((bc_pending c)(i := None)) j = Some b"
    then have j: "bc_pending c j = Some b" "j \<noteq> i" by (auto split: if_splits)
    have "bc_reqs ?c ! b = bc_reqs c ! b" using other [OF j] by (simp add: at)
    then show "b < length (bc_reqs c)" "rq_ID (bc_reqs ?c ! b) = j" "rq_Response (bc_reqs ?c ! b) = []"
        "unat j \<le> unat (bc_nextRequestID c)" "b \<notin> taken"
      using requests_okD [OF assms(1) j(1)] by simp_all
  next
    fix b
    assume b: "b < length (bc_reqs c)"
    show "((bc_pending c)(i := None)) (rq_ID (bc_reqs ?c ! b)) = Some b
        \<or> length (rq_Response (bc_reqs ?c ! b)) = (if b \<in> taken then 0 else 1)"
    proof (cases "b = a")
      case True
      then show ?thesis using a(4) by (simp add: at)
    next
      case False
      have "rq_ID (bc_reqs c ! b) \<noteq> i" if "bc_pending c (rq_ID (bc_reqs c ! b)) = Some b"
        using that assms(2) False by auto
      then show ?thesis using requests_ok_settled [OF assms(1) b] False by (auto simp: at)
    qed
  next
    fix b
    assume "b \<in> taken"
    then show "b < length (bc_reqs c)" by (rule requests_ok_taken [OF assms(1)])
  qed
qed

lemma completePending_ok: "requests_ok taken c \<Longrightarrow> requests_ok taken (completePending i r c)"
  by (auto simp: completePending_def deliver_ok split: option.split)

lemma failAllPending_ok: "requests_ok taken c \<Longrightarrow> requests_ok taken (failAllPending ks e c)"
  unfolding failAllPending_def by (rule fold_keeps) (simp_all add: completePending_ok)

lemma dispatchPending_ok: "requests_ok taken c \<Longrightarrow> requests_ok taken (snd (dispatchPending ks p c))"
  by (induction ks) (auto simp: deliver_ok split: option.split sum.split bool.split)

section \<open>Who gets a packet\<close>

text \<open>A pending request claims a packet when its matcher answers yes or fails.\<close>

definition claims :: "handshake \<Rightarrow> 'a base_client_scheme \<Rightarrow> u64 \<Rightarrow> bool" where
  "claims p c i \<longleftrightarrow> (case bc_pending c i of
      None \<Rightarrow> False | Some a \<Rightarrow> rq_Match (bc_reqs c ! a) p \<noteq> Inr False)"

definition answer :: "handshake \<Rightarrow> request \<Rightarrow> response" where
  "answer p q = (case rq_Match q p of
      Inl e \<Rightarrow> \<lparr>rp_packet = None, rp_err = Some e\<rparr> | Inr _ \<Rightarrow> \<lparr>rp_packet = Some p, rp_err = None\<rparr>)"

lemma dispatch_unclaimed: "\<forall>i \<in> set ks. \<not> claims p c i \<Longrightarrow> dispatchPending ks p c = (False, c)"
  by (induction ks) (auto simp: claims_def split: option.splits sum.splits bool.splits)

text \<open>The first claimant in the visiting order gets the packet and leaves the table.\<close>

lemma dispatch_first:
  assumes "\<forall>i \<in> set ks. \<not> claims p c i" "claims p c j" "bc_pending c j = Some a"
  shows "dispatchPending (ks @ j # ks') p c = (True, deliver_at a (answer p (bc_reqs c ! a)) (delete_pending j c))"
  using assms
proof (induction ks)
  case Nil
  then show ?case
    by (auto simp: claims_def answer_def split: sum.splits bool.splits)
next
  case (Cons i ks)
  then show ?case
    by (cases "bc_pending c i") (auto simp: claims_def split: sum.splits bool.splits)
qed

lemma split_first_claim:
  assumes "\<exists>i \<in> set ks. claims p c i"
  shows "\<exists>us j vs. ks = us @ j # vs \<and> claims p c j \<and> (\<forall>i \<in> set us. \<not> claims p c i)"
  using split_list_first_prop [OF assms] by blast

lemma completePending_pending: "bc_pending (completePending k r c) i = (if i = k then None else bc_pending c i)"
  by (auto simp: completePending_def deliver_at_def delete_pending_def split: option.split)

lemma failAll_pending:
  "bc_pending (failAllPending ks e c) i = (if i \<in> set ks then None else bc_pending c i)"
  by (induction ks arbitrary: c) (simp_all add: failAllPending_def completePending_pending)

section \<open>Reachable clients\<close>

text \<open>
  Anything the client does with its requests, in any order: sending, waiting, giving up, dispatcher
  rounds; the connection and the control plane change freely.  Numbers are not reused within the first
  \<open>2 ^ 64\<close> requests.
\<close>

inductive client_reach :: "nat set \<Rightarrow> base_client \<Rightarrow> bool" where
  start: "NewBaseClient i (Some conn) (Some hl) = Some c \<Longrightarrow> client_reach {} c"
| send: "client_reach T c \<Longrightarrow> unat (bc_nextRequestID c) < 2 ^ 64 - 1 \<Longrightarrow>
    SendRequest_begin p match c = (r, c') \<Longrightarrow> client_reach T c'"
| wait: "client_reach T c \<Longrightarrow> a < length (bc_reqs c) \<Longrightarrow> SendRequest_wait cancelled a c = (r, c') \<Longrightarrow>
    client_reach (if \<not> cancelled \<and> rq_Response (bc_reqs c ! a) \<noteq> [] then insert a T else T) c'"
| dispatch: "client_reach T c \<Longrightarrow> runDispatcher_round ks None c = (b, c') \<Longrightarrow> client_reach T c'"
| elsewhere: "client_reach T c \<Longrightarrow> client_reach T (c\<lparr>ss_mux := m, ss_control := cp, bc_handshakeDone := d\<rparr>)"

text \<open>Only these three fields matter to the invariant.\<close>

lemma requests_ok_cong:
  "bc_reqs c' = bc_reqs c \<Longrightarrow> bc_pending c' = bc_pending c \<Longrightarrow> bc_nextRequestID c' = bc_nextRequestID c \<Longrightarrow>
   requests_ok T c' = requests_ok T c"
  unfolding requests_ok_def by simp

lemma ctl_WritePacket_same:
  assumes "ctl_WritePacket p c = (e, c')"
  shows "\<exists>m. c' = c\<lparr>ss_mux := m\<rparr>"
proof -
  have "\<exists>m. c = c\<lparr>ss_mux := m\<rparr>" by (rule exI [of _ "ss_mux c"]) simp
  then show ?thesis
    using assms by (auto simp: ctl_WritePacket_def split: prod.splits option.splits)
qed

lemma ensureDispatcher_same:
  assumes "ensureDispatcher c = (e, c')"
  shows "bc_reqs c' = bc_reqs c" "bc_pending c' = bc_pending c" "bc_nextRequestID c' = bc_nextRequestID c"
  using assms by (auto simp: ensureDispatcher_def Let_def split: if_splits prod.splits option.splits)

lemma SendRequest_begin_ok:
  assumes "requests_ok T c" "unat (bc_nextRequestID c) < 2 ^ 64 - 1" "SendRequest_begin p match c = (r, c')"
  shows "requests_ok T c'"
proof -
  obtain e c1 where c1: "ensureDispatcher c = (e, c1)" by force
  note same = ensureDispatcher_same [OF c1]
  have ok1: "requests_ok T c1" "unat (bc_nextRequestID c1) < 2 ^ 64 - 1"
    using requests_ok_cong [OF same] assms(1,2) same by simp_all
  obtain a c2 where c2: "registerPending match c1 = (a, c2)" by force
  note ok2 = register_ok(1) [OF ok1 c2]
  obtain e3 c3 where c3: "ctl_WritePacket p c2 = (e3, c3)" by force
  then obtain m where m: "c3 = c2\<lparr>ss_mux := m\<rparr>" using ctl_WritePacket_same by blast
  then have ok3: "requests_ok T c3"
    using ok2 requests_ok_cong [of c3 c2 T] by simp
  show ?thesis
    using assms(3) c1 c2 c3 ok1(1) ok3 completePending_ok [OF ok3]
    by (auto simp: SendRequest_begin_def split: option.splits)
qed

lemma SendRequest_wait_ok:
  assumes "requests_ok T c" "a < length (bc_reqs c)" "SendRequest_wait cancelled a c = (r, c')"
  shows "requests_ok (if \<not> cancelled \<and> rq_Response (bc_reqs c ! a) \<noteq> [] then insert a T else T) c'"
proof (cases "\<not> cancelled \<and> rq_Response (bc_reqs c ! a) \<noteq> []")
  case False
  then show ?thesis
    using assms completePending_ok [OF assms(1)]
    by (cases cancelled) (auto simp: SendRequest_wait_def)
next
  case True
  then obtain q rs where q: "rq_Response (bc_reqs c ! a) = q # rs" by (cases "rq_Response (bc_reqs c ! a)") auto
  have free: "bc_pending c i \<noteq> Some a" for i
    using requests_okD(3) [OF assms(1), of i a] q by auto
  then have rs: "rs = []" "a \<notin> T"
    using requests_ok_settled [OF assms(1,2)] q by (auto split: if_splits)
  let ?q = "(bc_reqs c ! a)\<lparr>rq_Response := []\<rparr>"
  have c': "c' = c\<lparr>bc_reqs := (bc_reqs c)[a := ?q]\<rparr>"
    using assms(3) True q rs(1) by (auto simp: SendRequest_wait_def Let_def split: option.splits)
  have at: "bc_reqs c' ! b = (if b = a then ?q else bc_reqs c ! b)" for b
    using assms(2) by (simp add: c' nth_list_update)
  have rest: "bc_pending c' = bc_pending c" "length (bc_reqs c') = length (bc_reqs c)"
      "bc_nextRequestID c' = bc_nextRequestID c" by (simp_all add: c')
  have "requests_ok (insert a T) c'"
    unfolding requests_ok_def rest
  proof (intro conjI allI ballI impI)
    fix j b
    assume j: "bc_pending c j = Some b"
    then have "b \<noteq> a" using free by auto
    then show "b < length (bc_reqs c)" "rq_ID (bc_reqs c' ! b) = j" "rq_Response (bc_reqs c' ! b) = []"
        "unat j \<le> unat (bc_nextRequestID c)" "b \<notin> insert a T"
      using requests_okD [OF assms(1) j] by (simp_all add: at)
  next
    fix b
    assume "b < length (bc_reqs c)"
    then show "bc_pending c (rq_ID (bc_reqs c' ! b)) = Some b
        \<or> length (rq_Response (bc_reqs c' ! b)) = (if b \<in> insert a T then 0 else 1)"
      using requests_ok_settled [OF assms(1)] by (cases "b = a") (auto simp: at)
  next
    fix b
    assume "b \<in> insert a T"
    then show "b < length (bc_reqs c)" using assms(2) requests_ok_taken [OF assms(1)] by blast
  qed
  then show ?thesis using True by simp
qed

lemma runDispatcher_round_ok:
  assumes "requests_ok T c" "runDispatcher_round ks None c = (b, c')"
  shows "requests_ok T c'"
proof -
  obtain r cp where cp: "Next (bc_dispatchCancelled c) (Some (ss_control c)) = (r, cp)" by force
  let ?c = "case cp of None \<Rightarrow> c | Some cp \<Rightarrow> c\<lparr>ss_control := cp\<rparr>"
  have ok: "requests_ok T ?c"
    by (rule requests_ok_cong [THEN iffD2, OF _ _ _ assms(1)]) (simp_all split: option.split)
  have stop: "requests_ok T ((failAllPending ks e ?c)\<lparr>bc_dispatching := False\<rparr>)" for e
    by (rule requests_ok_cong [THEN iffD2, OF _ _ _ failAllPending_ok [OF ok]]) simp_all
  show ?thesis
  proof (cases "bc_dispatching c")
    case False
    then show ?thesis using assms by (simp add: runDispatcher_round_def)
  next
    case True
    obtain d c2 where d: "dispatchPending ks p ?c = (d, c2)" if "r = Done p" for p
      by (cases r) force+
    then have "requests_ok T c2" if "r = Done p" for p
      using dispatchPending_ok [OF ok, of ks p] that by simp
    then show ?thesis
      using assms(2) True cp ok stop d
      by (cases r; cases d) (auto simp: runDispatcher_round_def Let_def)
  qed
qed

lemma client_reach_ok: "client_reach T c \<Longrightarrow> requests_ok T c"
proof (induction rule: client_reach.induct)
  case (start i conn hl c)
  then have "bc_pending c = Map.empty" "bc_reqs c = []"
    by (auto simp: NewBaseClient_def session.defs split: sum.splits if_splits)
  then show ?case by (simp add: requests_ok_def)
next
  case (send T c p match r c')
  then show ?case using SendRequest_begin_ok by blast
next
  case (wait T c a cancelled r c')
  then show ?case by (intro SendRequest_wait_ok)
next
  case (dispatch T c ks b c')
  then show ?case using runDispatcher_round_ok by blast
next
  case (elsewhere T c m cp d)
  show ?case by (rule requests_ok_cong [THEN iffD2, OF _ _ _ elsewhere.IH]) simp_all
qed

text \<open>A client with two pending requests for the same type of answer, matched by type only.\<close>

definition type_matcher :: "handshake_type \<Rightarrow> matcher" where
  "type_matcher t h = Inr (h_type h = t)"

definition sample_client :: base_client where
  "sample_client = \<lparr>ss_mux = sample_mux, ss_ctrl = 0, ss_control = NewControlPlane True, bc_clientID = ''me'',
     bc_handshakeDone = True,
     bc_reqs = [\<lparr>rq_ID = 1, rq_Match = type_matcher HandshakeTypeProxyListResp, rq_Response = []\<rparr>,
                \<lparr>rq_ID = 2, rq_Match = type_matcher HandshakeTypeError, rq_Response = []\<rparr>],
     bc_pending = [1 \<mapsto> 0, 2 \<mapsto> 1], bc_nextRequestID = 2, bc_dispatchOnce = True, bc_dispatching = True,
     bc_dispatchCancelled = False\<rparr>"

lemma sample_client_ok: "requests_ok {} sample_client"
  by (auto simp: requests_ok_def sample_client_def less_Suc_eq split: if_splits)

lemma GetOrCreateStream_ok:
  assumes "mux_ok m" "\<not> m_closed m" "i \<noteq> 0"
  shows "\<exists>a m'. GetOrCreateStream i (Some m) = (Inr a, Some m') \<and> mux_ok m' \<and> streams m' i = Some a
    \<and> s_ID (objs m' ! a) = i \<and> \<not> s_closed (objs m' ! a)"
proof -
  have create: "\<exists>a m'. OpenStreamWithID i d = (Inr a, m') \<and> mux_ok m' \<and> streams m' i = Some a
      \<and> s_ID (objs m' ! a) = i \<and> \<not> s_closed (objs m' ! a)"
    if d: "mux_ok d" "\<not> m_closed d" "streams d i = None" for d
  proof -
    obtain a mm where new: "newStream i d = (a, mm)" by force
    note n = mux_ok_new [OF d(1) new]
    obtain m' where m': "OpenStreamWithID i d = (Inr a, m')" "streams m' = (streams mm)(i \<mapsto> a)" "objs m' = objs mm"
      using d(2,3) assms(3) new by (simp add: OpenStreamWithID_def Let_def)
    have "mux_ok m'" by (rule OpenStreamWithID_ok [OF d(1) m'(1)])
    then show ?thesis using m' n(3,4) by (simp add: fresh_stream_def)
  qed
  show ?thesis
  proof (cases "streams m i")
    case None
    then show ?thesis
      using create [OF assms(1,2) None] assms(3) by (auto simp: GetOrCreateStream_def GetStream_def)
  next
    case (Some a)
    note a = mux_okD [OF assms(1) Some]
    show ?thesis
    proof (cases "s_closed (objs m ! a)")
      case False
      then show ?thesis
        using Some a assms(1,3) by (simp add: GetOrCreateStream_def GetStream_def stream_IsClosed_def)
    next
      case True
      let ?d = "m\<lparr>streams := (streams m)(i := None)\<rparr>"
      have "snd (CloseStream i m) = ?d"
        using True by (simp add: CloseStream_def Some stream_Close_def)
      then show ?thesis
        using create [of ?d] mux_ok_delete [OF assms(1)] assms(2,3) True Some a
        by (auto simp: GetOrCreateStream_def GetStream_def stream_IsClosed_def)
    qed
  qed
qed

section \<open>Properties\<close>



text \<open>
  The dispatcher hands a packet to the one pending request that claims it, whatever the order in
  which the runtime visits the table; that request leaves the table and every other one is untouched.
\<close>

theorem dispatch_to_claimant:
  assumes "requests_ok T c" "iterates ks (bc_pending c)" "bc_pending c j = Some a"
    and "claims p c j" "\<And>i. claims p c i \<Longrightarrow> i = j"
  shows "\<exists>c'. dispatchPending ks p c = (True, c') \<and> rq_Response (bc_reqs c' ! a) = [answer p (bc_reqs c ! a)]
    \<and> bc_pending c' = (bc_pending c)(j := None) \<and> (\<forall>b. b \<noteq> a \<longrightarrow> bc_reqs c' ! b = bc_reqs c ! b)"
proof -
  have "j \<in> set ks" using assms(2,3) by (auto simp: iterates_def)
  then obtain us k vs where split: "ks = us @ k # vs" "claims p c k" "\<forall>i \<in> set us. \<not> claims p c i"
    using split_first_claim assms(4) by blast
  then have "k = j" using assms(5) by blast
  then have "dispatchPending ks p c = (True, deliver_at a (answer p (bc_reqs c ! a)) (delete_pending j c))"
    using dispatch_first split assms(3) by blast
  then show ?thesis
    using requests_okD [OF assms(1,3)]
    by (simp add: deliver_at_def delete_pending_def Deliver_def)
qed

theorem dispatch_to_claimant_witness:
  "\<exists>c'. dispatchPending [2, 1] \<lparr>h_type = HandshakeTypeError, h_payload = None\<rparr> sample_client = (True, c')
    \<and> rq_Response (bc_reqs c' ! 1) = [answer \<lparr>h_type = HandshakeTypeError, h_payload = None\<rparr> (bc_reqs sample_client ! 1)]
    \<and> bc_pending c' = (bc_pending sample_client)(2 := None)
    \<and> (\<forall>b. b \<noteq> 1 \<longrightarrow> bc_reqs c' ! b = bc_reqs sample_client ! b)"
  by (rule dispatch_to_claimant [OF sample_client_ok])
    (auto simp: iterates_def sample_client_def claims_def type_matcher_def type_defs split: if_splits)

text \<open>
  When two pending requests claim the same packet (as two concurrent requests whose matchers look
  only at the type do), the visiting order of the map decides which of them gets it.
\<close>

theorem dispatch_order_matters:
  assumes "requests_ok T c" "claims p c i" "claims p c j" "bc_pending c i = Some a" "bc_pending c j = Some b" "i \<noteq> j"
  shows "bc_pending (snd (dispatchPending (i # j # ks) p c)) i = None
    \<and> bc_pending (snd (dispatchPending (i # j # ks) p c)) j = Some b
    \<and> bc_pending (snd (dispatchPending (j # i # ks) p c)) i = Some a
    \<and> bc_pending (snd (dispatchPending (j # i # ks) p c)) j = None"
proof -
  have "dispatchPending (i # j # ks) p c = (True, deliver_at a (answer p (bc_reqs c ! a)) (delete_pending i c))"
    using dispatch_first [of "[]" p c i a "j # ks"] assms by simp
  moreover have "dispatchPending (j # i # ks) p c = (True, deliver_at b (answer p (bc_reqs c ! b)) (delete_pending j c))"
    using dispatch_first [of "[]" p c j b "i # ks"] assms by simp
  ultimately show ?thesis using assms(4-6) by (simp add: deliver_at_def delete_pending_def)
qed

definition twin_client :: base_client where
  "twin_client = sample_client\<lparr>bc_reqs := [\<lparr>rq_ID = 1, rq_Match = type_matcher HandshakeTypeFileGetResponse, rq_Response = []\<rparr>,
     \<lparr>rq_ID = 2, rq_Match = type_matcher HandshakeTypeFileGetResponse, rq_Response = []\<rparr>]\<rparr>"

theorem dispatch_order_witness:
  "bc_pending (snd (dispatchPending [1, 2] \<lparr>h_type = HandshakeTypeFileGetResponse, h_payload = None\<rparr> twin_client)) 2 = Some 1
    \<and> bc_pending (snd (dispatchPending [2, 1] \<lparr>h_type = HandshakeTypeFileGetResponse, h_payload = None\<rparr> twin_client)) 1 = Some 0"
proof -
  have "requests_ok {} twin_client"
    by (auto simp: requests_ok_def twin_client_def sample_client_def less_Suc_eq split: if_splits)
  from dispatch_order_matters [OF this, of "\<lparr>h_type = HandshakeTypeFileGetResponse, h_payload = None\<rparr>" 1 2 0 1 "[]"]
  show ?thesis by (simp add: claims_def twin_client_def sample_client_def type_matcher_def)
qed

text \<open>
  When the dispatcher ends, for whatever error, every outstanding request is answered with that
  error: no caller of \<open>SendRequest\<close> is left waiting.
\<close>

theorem dispatcher_end_answers_all:
  assumes "requests_ok T c" "bc_dispatching c" "Next (bc_dispatchCancelled c) (Some (ss_control c)) = (Fail e, cp)"
    and "iterates ks (bc_pending c)" "a < length (bc_reqs c)" "a \<notin> T"
  shows "\<exists>c'. runDispatcher_round ks None c = (True, c') \<and> \<not> bc_dispatching c' \<and> bc_pending c' = Map.empty
    \<and> fst (SendRequest_wait False a c') \<noteq> Blocked"
proof -
  obtain c' where c': "runDispatcher_round ks None c = (True, c')" "\<not> bc_dispatching c'"
      "bc_pending c' = bc_pending (failAllPending ks e (case cp of None \<Rightarrow> c | Some cp \<Rightarrow> c\<lparr>ss_control := cp\<rparr>))"
      "length (bc_reqs c') = length (bc_reqs (failAllPending ks e (case cp of None \<Rightarrow> c | Some cp \<Rightarrow> c\<lparr>ss_control := cp\<rparr>)))"
    using assms(2,3) by (simp add: runDispatcher_round_def Let_def)
  have "bc_pending (case cp of None \<Rightarrow> c | Some cp \<Rightarrow> c\<lparr>ss_control := cp\<rparr>) = bc_pending c"
    by (simp split: option.split)
  then have empty: "bc_pending c' = Map.empty"
    using assms(4) by (auto simp: c'(3) failAll_pending iterates_def fun_eq_iff)
  have len: "length (bc_reqs (failAllPending ks e d)) = length (bc_reqs d)" for d :: "'a base_client_scheme"
    unfolding failAllPending_def
    by (induction ks arbitrary: d)
      (simp_all add: completePending_def deliver_at_def delete_pending_def split: option.split)
  have "a < length (bc_reqs c')"
    using assms(5) c'(4) by (simp add: len split: option.split)
  then have "rq_Response (bc_reqs c' ! a) \<noteq> []"
    using requests_ok_settled [OF runDispatcher_round_ok [OF assms(1) c'(1)]] assms(6) by (force simp: empty)
  then have "fst (SendRequest_wait False a c') \<noteq> Blocked"
    by (auto simp: SendRequest_wait_def Let_def neq_Nil_conv split: option.splits)
  then show ?thesis using c'(1,2) empty by blast
qed

theorem dispatcher_end_witness:
  "\<exists>c'. runDispatcher_round [1, 2] None (sample_client\<lparr>bc_dispatchCancelled := True\<rparr>) = (True, c') \<and> \<not> bc_dispatching c'
    \<and> bc_pending c' = Map.empty \<and> fst (SendRequest_wait False 0 c') \<noteq> Blocked"
proof -
  have "requests_ok {} (sample_client\<lparr>bc_dispatchCancelled := True\<rparr>)"
    by (rule requests_ok_cong [THEN iffD2, OF _ _ _ sample_client_ok]) simp_all
  then show ?thesis
    by (rule dispatcher_end_answers_all [where e = CtxErr])
      (auto simp: sample_client_def iterates_def Next_def EnsureStarted_def NewControlPlane_def)
qed

text \<open>
  A request sent after the dispatcher has ended is never answered: \<open>ensureDispatcher\<close> does not start
  a second one, so without a deadline the caller waits forever, although the request was written.
\<close>

theorem late_request_hangs:
  assumes "bc_dispatchOnce c" "\<not> bc_dispatching c" "SendRequest_begin p match c = (Inr a, c')"
  shows "fst (SendRequest_wait False a c') = Blocked \<and> runDispatcher_round ks ev c' = (False, c')"
proof -
  have e: "ensureDispatcher c = (None, c)" using assms(1) by (simp add: ensureDispatcher_def)
  obtain b c2 where c2: "registerPending match c = (b, c2)" by force
  obtain e3 c3 where c3: "ctl_WritePacket p c2 = (e3, c3)" by force
  then obtain m where m: "c3 = c2\<lparr>ss_mux := m\<rparr>" using ctl_WritePacket_same by blast
  have r: "a = b" "c' = c3" using assms(3) e c2 c3 by (auto simp: SendRequest_begin_def split: option.splits)
  note reg = registerPending_simps [OF c2]
  have "rq_Response (bc_reqs c' ! a) = []" by (simp add: r m reg)
  moreover have "\<not> bc_dispatching c'"
    using assms(2) c2 by (auto simp: r m registerPending_def Let_def)
  ultimately show ?thesis by (simp add: SendRequest_wait_def runDispatcher_round_def)
qed

theorem late_request_witness:
  "\<exists>a c'. SendRequest_begin (Some \<lparr>p_type = ''status'', p_content = Some (JBool True)\<rparr>)
      (type_matcher HandshakeTypeError) (sample_client\<lparr>bc_dispatching := False\<rparr>) = (Inr a, c')
    \<and> fst (SendRequest_wait False a c') = Blocked"
proof -
  let ?p = "\<lparr>p_type = ''status'', p_content = Some (JBool True)\<rparr>" and ?c = "sample_client\<lparr>bc_dispatching := False\<rparr>"
  have acc: "stream_accepts 0 b sample_mux" if "length b < 2 ^ 32" for b
    using sample_mux_sends that by (simp add: stream_accepts_def)
  have "length (packet_data ?p) < 2 ^ 32"
    by (simp add: packet_data_def packet_to_json_def struct_simps(1-3) json_quote_def json_esc.simps esc_ascii_def)
  then obtain m where "WritePacket (Some (stream_writer_fn 0)) (Some ?p) sample_mux = (None, m)"
    using stream_sink.WritePacket_sends [OF sample_mux_sends(1) acc acc] by fastforce
  then have w: "ctl_WritePacket (Some ?p) d = (None, d\<lparr>ss_mux := m\<rparr>)"
    if "ss_mux d = sample_mux" "ss_ctrl d = 0" for d :: base_client
    using that by (simp add: ctl_WritePacket_def prwc_WritePacket_def)
  obtain a c2 where reg: "registerPending (type_matcher HandshakeTypeError) ?c = (a, c2)" by force
  then have "ss_mux c2 = sample_mux" "ss_ctrl c2 = 0"
    by (auto simp: registerPending_def Let_def sample_client_def)
  then have "SendRequest_begin (Some ?p) (type_matcher HandshakeTypeError) ?c = (Inr a, c2\<lparr>ss_mux := m\<rparr>)"
    using reg w by (simp add: SendRequest_begin_def ensureDispatcher_def sample_client_def)
  from this late_request_hangs [OF _ _ this] show ?thesis
    by (auto simp: sample_client_def)
qed

text \<open>
  \<open>GetOrCreateStream\<close> never returns the control stream or a closed stream: for a non-zero identifier
  on an open multiplexer it returns the registered stream of that identifier, a closed one replaced by
  a new one.
\<close>

theorem GetOrCreateStream_usable:
  assumes "mux_ok m" "\<not> m_closed m" "i \<noteq> 0"
  shows "\<exists>a m'. GetOrCreateStream i (Some m) = (Inr a, Some m') \<and> mux_ok m' \<and> streams m' i = Some a
    \<and> s_ID (objs m' ! a) = i \<and> \<not> s_closed (objs m' ! a)"
  by (rule GetOrCreateStream_ok [OF assms])

theorem GetOrCreateStream_witness:
  "\<exists>a m'. GetOrCreateStream 1 (Some sample_mux) = (Inr a, Some m') \<and> mux_ok m' \<and> streams m' 1 = Some a
    \<and> s_ID (objs m' ! a) = 1 \<and> \<not> s_closed (objs m' ! a)"
  by (rule GetOrCreateStream_usable [OF sample_mux_ok]) (simp_all add: sample_mux_def)

end
