(* ===== verification/Handshake_Agreement.thy ===== *)
theory Handshake_Agreement
  imports Base_Client
begin

text \<open>
  The two halves of the handshake composed over the multiplexer: what the read loop, reads and packet
  reads leave alone, the effect of \<open>Accept\<close> and \<open>Connect\<close> inside the contract of the handlers, and the
  agreement of the two ends, for each of the three protocols.
\<close>

section \<open>What reading leaves alone\<close>

text \<open>The outgoing side of the connection, the registered streams and every stream's writer.\<close>

definition mux_kept :: "mux \<Rightarrow> mux \<Rightarrow> bool" where
  "mux_kept m m' \<longleftrightarrow> same_out (m_conn m) (m_conn m') \<and> m_closed m' = m_closed m
     \<and> (\<forall>i a. streams m i = Some a \<longrightarrow> streams m' i = Some a) \<and> length (objs m) \<le> length (objs m')
     \<and> (\<forall>b < length (objs m). s_writer (objs m' ! b) = s_writer (objs m ! b))"

lemma mux_kept_refl [simp]: "mux_kept m m"
  by (simp add: mux_kept_def)

lemma mux_kept_trans: "mux_kept m m1 \<Longrightarrow> mux_kept m1 m2 \<Longrightarrow> mux_kept m m2"
  by (auto simp: mux_kept_def same_out_def)

lemma upd_reader_kept: "mux_kept m (upd_obj a (\<lambda>s. s\<lparr>s_reader := r\<rparr>) m)"
  by (auto simp: mux_kept_def nth_upd_obj)

lemma ensure_stream_kept: "ensure_stream i m = (a, m') \<Longrightarrow> mux_kept m m'"
  by (auto simp: ensure_stream_def newStream_def mux_kept_def nth_append split: option.splits)

lemma deliver_frame_kept: "mux_kept m (snd (deliver_frame i d m))"
proof -
  obtain a m' where am: "ensure_stream i m = (a, m')" by force
  note kept = ensure_stream_kept [OF am]
  have "mux_kept m (upd_obj a (\<lambda>s. s\<lparr>s_reader := sr\<rparr>) m')" for sr
    by (rule mux_kept_trans [OF kept upd_reader_kept])
  then show ?thesis
    using kept by (simp add: deliver_frame_ensure [OF am] split: push.split)
qed

lemma mux_kept_conn: "mux_kept (m\<lparr>m_conn := c\<rparr>) m' \<Longrightarrow> same_out (m_conn m) c \<Longrightarrow> mux_kept m m'"
  by (auto simp: mux_kept_def same_out_def)

lemma readLoop_step_kept:
  assumes "readLoop_step ks m = (LoopNext, m')"
  shows "mux_kept m m'"
proof -
  obtain f c where f: "read_full conn_read 8 [] (m_conn m) = (f, c)" by force
  then obtain h where h: "f = FullOk h"
    using assms by (cases f) (auto simp: readLoop_step_def)
  let ?n = "get_u32 (drop 4 h)" and ?i = "get_u32 (take 4 h)"
  obtain g c' where g: "read_full conn_read (unat ?n) [] c = (g, c')" by force
  then obtain d where d: "g = FullOk d"
    using assms f h by (cases g) (auto simp: readLoop_step_def Let_def split: if_splits)
  obtain l mm where l: "deliver_frame ?i d (m\<lparr>m_conn := c'\<rparr>) = (l, mm)" by force
  have "m' = mm"
    using assms f h g d l by (cases l) (auto simp: readLoop_step_def Let_def split: if_splits)
  moreover have "mux_kept (m\<lparr>m_conn := c'\<rparr>) mm"
    using deliver_frame_kept [of "m\<lparr>m_conn := c'\<rparr>" ?i d] l by simp
  moreover have "same_out (m_conn m) c'"
    using conn_read_full_same_out [OF f] conn_read_full_same_out [OF g] by (simp add: same_out_def)
  ultimately show ?thesis using mux_kept_conn by blast
qed

lemma readLoop_kept: "readLoop k ks m = (LoopNext, m') \<Longrightarrow> mux_kept m m'"
proof (induction k arbitrary: m)
  case (Suc k)
  then obtain m1 where "readLoop_step ks m = (LoopNext, m1)" "readLoop k ks m1 = (LoopNext, m')"
    by (auto split: prod.splits loop.splits)
  then show ?case using Suc.IH readLoop_step_kept mux_kept_trans by blast
qed simp

lemma stream_Read_kept: "mux_kept m (snd (stream_Read a n m))"
  by (simp add: stream_Read_def upd_reader_kept split: prod.split)

lemma read_full_keeps:
  assumes "\<And>n s. P s \<Longrightarrow> P (snd (r n s))"
  shows "P s \<Longrightarrow> P (snd (read_full r n acc s))"
proof (induction n arbitrary: acc s rule: less_induct)
  case (less n)
  obtain x s' where x: "r n s = (x, s')" by force
  then have s': "P s'" using assms [OF less.prems, of n] by simp
  show ?case
  proof (cases "\<exists>b. x = RdData b \<and> b \<noteq> [] \<and> n \<noteq> 0")
    case True
    then obtain b where b: "x = RdData b" "b \<noteq> []" "n \<noteq> 0" by blast
    then have "P (snd (read_full r (n - length b) (acc @ b) s'))"
      using less.IH [of "n - length b"] s' by simp
    then show ?thesis using x b by (subst read_full.simps) simp
  next
    case False
    then show ?thesis using x s' less.prems by (subst read_full.simps) (auto split: rd.split)
  qed
qed

lemma ReadPacket_keeps:
  assumes "\<And>n s. P s \<Longrightarrow> P (snd (r n s))" "P s"
  shows "P (snd (ReadPacket (Some r) s))"
proof -
  obtain x s1 where x: "read_full r 4 [] s = (x, s1)" by force
  have s1: "P s1" using read_full_keeps [of P r s 4 "[]", OF assms] x by simp
  have "P (snd (read_full r k [] s1))" for k
    by (rule read_full_keeps [OF assms(1) s1])
  then have s2: "read_full r k [] s1 = (y, s2) \<Longrightarrow> P s2" for k y s2
    by (metis snd_conv)
  show ?thesis
    using x s1 s2
    by (auto simp: ReadPacket_def readUint32_def split: prod.split full.split option.split)
qed

lemma ctl_ReadPacket_kept:
  assumes "ctl_ReadPacket s = (r, s')"
  shows "\<exists>m. s' = s\<lparr>ss_mux := m\<rparr> \<and> mux_kept (ss_mux s) m"
proof -
  have same: "\<exists>m. s = s\<lparr>ss_mux := m\<rparr> \<and> mux_kept (ss_mux s) m"
    by (rule exI [of _ "ss_mux s"]) simp
  have "mux_kept (ss_mux s) (snd (ReadPacket (Some (stream_Read (ss_ctrl s))) (ss_mux s)))"
    by (rule ReadPacket_keeps) (auto intro: mux_kept_trans stream_Read_kept)
  then show ?thesis
    using assms same by (auto simp: ctl_ReadPacket_def prwc_ReadPacket_def split: prod.splits rres.splits)
qed

section \<open>The two ends of a handshake\<close>

text \<open>A session whose control stream can be written.\<close>

definition can_send :: "'a session_scheme \<Rightarrow> bool" where
  "can_send s \<longleftrightarrow> framed (ss_mux s) \<and> writable (m_conn (ss_mux s)) \<and> \<not> m_closed (ss_mux s)
     \<and> ss_ctrl s < length (objs (ss_mux s)) \<and> \<not> sw_closed (s_writer (objs (ss_mux s) ! ss_ctrl s))"

lemma ctl_WritePacket_sends:
  assumes "can_send s" "length (packet_data p) \<le> 10485760"
  shows "\<exists>c. ctl_WritePacket (Some p) s = (None, s\<lparr>ss_mux := (ss_mux s)\<lparr>m_conn := c\<rparr>\<rparr>)
    \<and> framed ((ss_mux s)\<lparr>m_conn := c\<rparr>) \<and> writable c
    \<and> sent_frames ((ss_mux s)\<lparr>m_conn := c\<rparr>) = sent_frames (ss_mux s)
        @ [(writer_id (ss_ctrl s) (ss_mux s), put_u32 (of_nat (length (packet_data p)))),
           (writer_id (ss_ctrl s) (ss_mux s), packet_data p)]"
  using packet_written [of "ss_mux s" "ss_ctrl s" p] assms
  by (auto simp: can_send_def ctl_WritePacket_def prwc_WritePacket_def)

lemma ctl_ReadPacket_pending:
  assumes "ss_ctrl s < length (objs (ss_mux s))" "stream_pending (ss_ctrl s) (ss_mux s) = packet_bytes p"
    and "packet_ok p" "length (packet_data p) \<le> 10485760"
  shows "\<exists>m. ctl_ReadPacket s = (Done p, s\<lparr>ss_mux := m\<rparr>) \<and> mux_kept (ss_mux s) m"
proof -
  have "stream_pending (ss_ctrl s) (ss_mux s) = packet_bytes p @ []" using assms(2) by simp
  from stream_src.prwc_ReadPacket_pending [OF assms(1) this assms(3,4)]
  obtain m where "ctl_ReadPacket s = (Done p, s\<lparr>ss_mux := m\<rparr>)"
    by (auto simp: ctl_ReadPacket_def)
  with ctl_ReadPacket_kept [OF this] show ?thesis by auto
qed

lemma can_send_kept: "can_send s \<Longrightarrow> mux_kept (ss_mux s) m \<Longrightarrow> can_send (s\<lparr>ss_mux := m\<rparr>)"
  by (auto simp: can_send_def mux_kept_def same_out_def framed_def sent_frames_def writable_def)

lemma kept_sent:
  "mux_kept m m' \<Longrightarrow> sent_frames m' = sent_frames m"
  "mux_kept m m' \<Longrightarrow> a < length (objs m) \<Longrightarrow> writer_id a m' = writer_id a m"
  by (auto simp: mux_kept_def same_out_def sent_frames_def writer_id_def)

context handshake_protocol
begin

text \<open>A server with a hello on its control stream accepts it and sends the acknowledgement.\<close>

lemma Accept_hello:
  assumes "\<not> bs_handshakeDone s" "can_send s" "valid_utf8 i" "valid_utf8 v" "hl_hello hl v i = Inr p"
    and "stream_pending (ss_ctrl s) (ss_mux s) = packet_bytes p" "length (packet_data p) \<le> 10485760"
    and "hh_ack hh = Inr ack"
  shows "\<exists>s'. Accept t (Some hh) (Some s) = (Done (), Some s') \<and> bs_handshakeDone s' \<and> bs_clientID s' = i
    \<and> framed (ss_mux s') \<and> sent_frames (ss_mux s') = sent_frames (ss_mux s)
        @ [(writer_id (ss_ctrl s) (ss_mux s), put_u32 (of_nat (length (packet_data ack)))),
           (writer_id (ss_ctrl s) (ss_mux s), packet_data ack)]"
proof -
  obtain h x where p: "packet_ok p" "UnmarshalHandshakePacket (Some p) = Inr h" "h_type h = hh_type hh"
      "hh_unmarshal hh (h_payload h) = Inr x" "hh_client hh x = i"
    using hello_ok [OF assms(4,3)] assms(5) by auto
  have ack: "length (packet_data ack) \<le> 10485760" using ack_ok assms(8) by auto
  have ctrl: "ss_ctrl s < length (objs (ss_mux s))" using assms(2) by (simp add: can_send_def)
  obtain m where m: "ctl_ReadPacket s = (Done p, s\<lparr>ss_mux := m\<rparr>)" "mux_kept (ss_mux s) m"
    using ctl_ReadPacket_pending [OF ctrl assms(6) p(1) assms(7)] by blast
  obtain c where c: "ctl_WritePacket (Some ack) (s\<lparr>ss_mux := m\<rparr>)
      = (None, s\<lparr>ss_mux := m\<lparr>m_conn := c\<rparr>\<rparr>)" "framed (m\<lparr>m_conn := c\<rparr>)"
      "sent_frames (m\<lparr>m_conn := c\<rparr>) = sent_frames m
        @ [(writer_id (ss_ctrl s) m, put_u32 (of_nat (length (packet_data ack)))), (writer_id (ss_ctrl s) m, packet_data ack)]"
    using ctl_WritePacket_sends [OF can_send_kept [OF assms(2) m(2)] ack] by auto
  have "readHandshakeWithTimeout t s = (Done h, s\<lparr>ss_mux := m\<rparr>)"
    using m(1) p(2) by (simp add: readHandshakeWithTimeout_def)
  then have "Accept t (Some hh) (Some s) = (Done (),
      Some (s\<lparr>ss_mux := m\<lparr>m_conn := c\<rparr>, bs_clientID := i, bs_handshakeDone := True\<rparr>))"
    using assms(1,8) p(3-5) c(1) by (simp add: Accept_def)
  then show ?thesis
    using c(2,3) kept_sent [OF m(2)] ctrl by simp
qed

text \<open>A client with the acknowledgement on its control stream is connected.\<close>

lemma Connect_reply_ack:
  assumes "ss_ctrl c < length (objs (ss_mux c))" "hh_ack hh = Inr ack"
    and "stream_pending (ss_ctrl c) (ss_mux c) = packet_bytes ack" "ss_control c = NewControlPlane True"
  shows "\<exists>c'. Connect_reply t hl c = (Done (), c') \<and> bc_handshakeDone c'"
proof -
  obtain h where ack: "packet_ok ack" "length (packet_data ack) \<le> 10485760"
      "UnmarshalHandshakePacket (Some ack) = Inr h" "h_type h = hl_ack hl"
    using ack_ok assms(2) by auto
  obtain m where m: "ctl_ReadPacket c = (Done ack, c\<lparr>ss_mux := m\<rparr>)"
    using ctl_ReadPacket_pending [OF assms(1,3) ack(1,2)] by blast
  then have "readHandshakeWithTimeout t c = (Done h, c\<lparr>ss_mux := m\<rparr>)"
    using ack(3) by (simp add: readHandshakeWithTimeout_def)
  moreover have "h_type h \<noteq> hl_error hl" using ack(4) ack_no_error by simp
  moreover have "\<exists>d. ensureDispatcher (c\<lparr>ss_mux := m\<rparr>) = (None, d)"
    using assms(4) by (simp add: ensureDispatcher_def EnsureStarted_def NewControlPlane_def Let_def)
  ultimately show ?thesis using ack(4) by (auto simp: Connect_reply_def)
qed

end

section \<open>Both ends\<close>

text \<open>The bytes in flight towards a multiplexer, in chunks.\<close>

definition arrive :: "bytes list \<Rightarrow> mux \<Rightarrow> mux" where
  "arrive bs m = m\<lparr>m_conn := (m_conn m)\<lparr>inbox := bs\<rparr>\<rparr>"

text \<open>A session as the constructors make it.\<close>

definition fresh_session :: "conn \<Rightarrow> 'a session_scheme \<Rightarrow> bool" where
  "fresh_session k s \<longleftrightarrow> ss_mux s = \<lparr>m_conn = k, objs = [fresh_stream 0], streams = [0 \<mapsto> 0], nextID = 1,
       m_closed = False, readErr = None\<rparr>
     \<and> ss_ctrl s = 0 \<and> ss_control s = NewControlPlane True"

lemma new_session_fresh: "\<exists>s. new_session k = Inr s \<and> fresh_session k s"
  by (simp add: new_session_def NewMultiplexer_def ControlStream_def newStream_def fresh_session_def)

lemma NewBaseServer_fresh: "NewBaseServer (Some k) = Some s \<Longrightarrow> fresh_session k s \<and> \<not> bs_handshakeDone s"
  using new_session_fresh [of k] by (auto simp: NewBaseServer_def fresh_session_def session.defs)

lemma NewBaseClient_fresh:
  "NewBaseClient i (Some k) (Some hl) = Some c \<Longrightarrow> fresh_session k c \<and> \<not> bc_handshakeDone c \<and> bc_clientID c = i"
  using new_session_fresh [of k] by (auto simp: NewBaseClient_def fresh_session_def session.defs split: if_splits)

lemma fresh_can_send:
  assumes "fresh_session k s" "writable k" "sent k = []"
  shows "can_send s" "sent_frames (ss_mux s) = []" "writer_id (ss_ctrl s) (ss_mux s) = 0"
  using assms
  by (simp_all add: fresh_session_def can_send_def framed_def sent_frames_def parse_frames.simps
      fresh_stream_def newStreamWriter_def writer_id_def)

text \<open>The connection of a session may have changed; then bytes arrive.\<close>

lemma fresh_receiving:
  assumes "fresh_session k s" "\<not> shut k'" "[] \<notin> set bs"
  shows "receiving (arrive bs ((ss_mux s)\<lparr>m_conn := k'\<rparr>)) (concat bs)"
  using assms
  by (auto simp: receiving_def arrive_def fresh_session_def mux_ok_def readers_open_def conn_live_def
      conn_pending_def fresh_stream_def newStreamReader_def obj_ok_def newStreamWriter_def reader_ok_def
      split: if_splits)

text \<open>A packet that arrives for a session lies on its control stream.\<close>

lemma packet_at_control:
  assumes "fresh_session k s" "\<not> shut k'" "[] \<notin> set bs" "length (packet_data p) \<le> 10485760"
    and "concat bs = concat (map frame [(0, put_u32 (of_nat (length (packet_data p)))), (0, packet_data p)])"
    and "readLoop 2 ks (arrive bs ((ss_mux s)\<lparr>m_conn := k'\<rparr>)) = (l, m)"
  shows "l = LoopNext" "mux_kept ((ss_mux s)\<lparr>m_conn := k'\<rparr>) m" "stream_pending 0 m = packet_bytes p"
    "0 < length (objs m)"
proof -
  let ?m = "arrive bs ((ss_mux s)\<lparr>m_conn := k'\<rparr>)"
  have rec: "receiving ?m (concat (map frame [(0, put_u32 (of_nat (length (packet_data p)))), (0, packet_data p)]))"
    using fresh_receiving [OF assms(1-3)] assms(5) by simp
  obtain b where b: "l = LoopNext" "mux_ok m" "streams m 0 = Some b" "stream_pending b m = packet_bytes p"
    using packet_received [OF rec assms(4), of ks] assms(6) by auto
  show "l = LoopNext" by (rule b(1))
  have kept: "mux_kept ?m m" using readLoop_kept assms(6) b(1) by blast
  have at: "streams ?m 0 = Some 0" using assms(1) by (simp add: arrive_def fresh_session_def)
  then have "streams m 0 = Some 0" using kept by (simp add: mux_kept_def)
  then show "stream_pending 0 m = packet_bytes p" "0 < length (objs m)"
    using b mux_okD(1) [OF b(2)] by auto
  show "mux_kept ((ss_mux s)\<lparr>m_conn := k'\<rparr>) m"
    using kept by (auto simp: mux_kept_def arrive_def same_out_def)
qed

context handshake_protocol
begin

lemma agreement:
  assumes "NewBaseClient i (Some k0) (Some hl) = Some c" "writable k0" "sent k0 = []"
    and "NewBaseServer (Some k1) = Some s" "writable k1" "sent k1 = []"
    and "valid_utf8 i" "hl_hello hl ''1.0'' i = Inr p" "length (packet_data p) \<le> 10485760"
    and "Connect_hello (Some hl) (Some c) = (e, Some c1)"
    and "concat bs = sent (m_conn (ss_mux c1))" "[] \<notin> set bs"
    and "readLoop 2 ks (arrive bs (ss_mux s)) = (l, ms)"
    and "Accept t (Some hh) (Some (s\<lparr>ss_mux := ms\<rparr>)) = (r, Some s')"
    and "concat bs' = sent (m_conn (ss_mux s'))" "[] \<notin> set bs'"
    and "readLoop 2 ks' (arrive bs' (ss_mux c1)) = (l', mc)"
    and "Connect_reply t' hl (c1\<lparr>ss_mux := mc\<rparr>) = (r', c')"
  shows "e = None \<and> l = LoopNext \<and> l' = LoopNext \<and> r = Done () \<and> bs_handshakeDone s' \<and> bs_clientID s' = i \<and> r' = Done () \<and> bc_handshakeDone c'"
proof -
  note cf = NewBaseClient_fresh [OF assms(1)] and sf = NewBaseServer_fresh [OF assms(4)]
  note csend = fresh_can_send [OF conjunct1 [OF cf] assms(2,3)] and ssend = fresh_can_send [OF conjunct1 [OF sf] assms(5,6)]
  obtain k where k: "ctl_WritePacket (Some p) c = (None, c\<lparr>ss_mux := (ss_mux c)\<lparr>m_conn := k\<rparr>\<rparr>)"
      "framed ((ss_mux c)\<lparr>m_conn := k\<rparr>)" "writable k"
      "sent_frames ((ss_mux c)\<lparr>m_conn := k\<rparr>) = [(0, put_u32 (of_nat (length (packet_data p)))), (0, packet_data p)]"
    using ctl_WritePacket_sends [OF csend(1) assms(9)] csend(2,3) by auto
  then have c1: "e = None" "c1 = c\<lparr>ss_mux := (ss_mux c)\<lparr>m_conn := k\<rparr>\<rparr>"
    using assms(8,10) cf by (auto simp: Connect_hello_def)
  have bs: "concat bs = concat (map frame [(0, put_u32 (of_nat (length (packet_data p)))), (0, packet_data p)])"
    using assms(11) k(2,4) by (simp add: framed_def c1)
  have same: "ss_mux s = (ss_mux s)\<lparr>m_conn := k1\<rparr>" using sf by (simp add: fresh_session_def)
  have shut1: "\<not> shut k1" using assms(5) by (simp add: writable_def)
  note at = packet_at_control [OF conjunct1 [OF sf] shut1 assms(12,9) bs, folded same, OF assms(13)]
  obtain ack where ack: "hh_ack hh = Inr ack" "length (packet_data ack) \<le> 10485760" using ack_ok by auto
  let ?s = "s\<lparr>ss_mux := ms\<rparr>"
  have "can_send ?s" by (rule can_send_kept [OF ssend(1) at(2)])
  moreover have "ss_ctrl s = 0" "valid_utf8 ''1.0''" using sf by (simp_all add: fresh_session_def valid_utf8_ascii)
  moreover have "sent_frames ms = []" "writer_id 0 ms = 0"
    using kept_sent [OF at(2)] ssend(2,3) sf by (simp_all add: fresh_session_def)
  ultimately have s': "r = Done ()" "bs_handshakeDone s'" "bs_clientID s' = i" "framed (ss_mux s')"
      "sent_frames (ss_mux s') = [(0, put_u32 (of_nat (length (packet_data ack)))), (0, packet_data ack)]"
    using Accept_hello [of ?s i "''1.0''" p ack t] sf at(3) assms(7,8,9,14) ack(1) by auto
  then have bs': "concat bs' = concat (map frame [(0, put_u32 (of_nat (length (packet_data ack)))), (0, packet_data ack)])"
    using assms(15) by (simp add: framed_def)
  have "readLoop 2 ks' (arrive bs' ((ss_mux c)\<lparr>m_conn := k\<rparr>)) = (l', mc)" "\<not> shut k"
    using assms(17) k(3) by (simp_all add: c1 writable_def)
  note at' = packet_at_control [OF conjunct1 [OF cf] this(2) assms(16) ack(2) bs' this(1)]
  have "ss_ctrl c = 0" "ss_control c = NewControlPlane True" using cf by (simp_all add: fresh_session_def)
  then have "r' = Done () \<and> bc_handshakeDone c'"
    using Connect_reply_ack [of "c1\<lparr>ss_mux := mc\<rparr>" ack t'] ack(1) at'(3,4) assms(18) by (auto simp: c1)
  then show ?thesis using c1(1) s' at(1) at'(1) by simp
qed

end

text \<open>The whole exchange; \<open>ch\<close> cuts the bytes on their way into chunks.\<close>

definition run_handshake :: "'h handshake_handler \<Rightarrow> hello_handler \<Rightarrow> bytes \<Rightarrow> conn \<Rightarrow> conn
    \<Rightarrow> (bytes \<Rightarrow> bytes list) \<Rightarrow> (base_client \<times> base_server) option" where
  "run_handshake hh hl i k0 k1 ch =
     (case (NewBaseClient i (Some k0) (Some hl), NewBaseServer (Some k1)) of
        (Some c, Some s) \<Rightarrow>
          (case Connect_hello (Some hl) (Some c) of
             (None, Some c1) \<Rightarrow>
               (case readLoop 2 [0] (arrive (ch (sent (m_conn (ss_mux c1)))) (ss_mux s)) of
                  (LoopNext, ms) \<Rightarrow>
                    (case Accept False (Some hh) (Some (s\<lparr>ss_mux := ms\<rparr>)) of
                       (Done _, Some s') \<Rightarrow>
                         (case readLoop 2 [0] (arrive (ch (sent (m_conn (ss_mux s')))) (ss_mux c1)) of
                            (LoopNext, mc) \<Rightarrow>
                              (case Connect_reply False hl (c1\<lparr>ss_mux := mc\<rparr>) of
                                 (Done _, c') \<Rightarrow> Some (c', s')
                               | _ \<Rightarrow> None)
                          | _ \<Rightarrow> None)
                     | _ \<Rightarrow> None)
                | _ \<Rightarrow> None)
           | _ \<Rightarrow> None)
      | _ \<Rightarrow> None)"

definition cuts :: "(bytes \<Rightarrow> bytes list) \<Rightarrow> bool" where
  "cuts ch \<longleftrightarrow> (\<forall>b. concat (ch b) = b \<and> [] \<notin> set (ch b))"

definition agreed :: "bytes \<Rightarrow> (base_client \<times> base_server) option \<Rightarrow> bool" where
  "agreed i r \<longleftrightarrow> (case r of None \<Rightarrow> False
     | Some (c, s) \<Rightarrow> bc_handshakeDone c \<and> bs_handshakeDone s \<and> bs_clientID s = i)"

context handshake_protocol
begin

lemma run_agreement:
  assumes "writable k0" "sent k0 = []" "writable k1" "sent k1 = []" "cuts ch"
    and "valid_utf8 i" "i \<noteq> []" "length i \<le> 1000"
  shows "agreed i (run_handshake hh hl i k0 k1 ch)"
proof -
  obtain c where c: "NewBaseClient i (Some k0) (Some hl) = Some c"
    using new_session_fresh [of k0] assms(7) by (auto simp: NewBaseClient_def)
  obtain s where s: "NewBaseServer (Some k1) = Some s"
    using new_session_fresh [of k1] by (auto simp: NewBaseServer_def)
  obtain p where p: "hl_hello hl ''1.0'' i = Inr p"
    using hello_ok [of "''1.0''" i] assms(6) by (auto simp: valid_utf8_ascii)
  have small: "length (packet_data p) \<le> 10485760" by (rule hello_small [OF p assms(8)])
  obtain e c1 where h: "Connect_hello (Some hl) (Some c) = (e, Some c1)"
    by (cases "Connect_hello (Some hl) (Some c)")
      (auto simp: Connect_hello_def split: if_splits sum.splits option.splits prod.splits)
  obtain l ms where l: "readLoop 2 [0] (arrive (ch (sent (m_conn (ss_mux c1)))) (ss_mux s)) = (l, ms)" by force
  obtain r s' where r: "Accept False (Some hh) (Some (s\<lparr>ss_mux := ms\<rparr>)) = (r, Some s')"
    by (cases "Accept False (Some hh) (Some (s\<lparr>ss_mux := ms\<rparr>))")
      (auto simp: Accept_def split: if_splits sum.splits option.splits prod.splits rres.splits)
  obtain l' mc where l': "readLoop 2 [0] (arrive (ch (sent (m_conn (ss_mux s')))) (ss_mux c1)) = (l', mc)" by force
  obtain r' c' where r': "Connect_reply False hl (c1\<lparr>ss_mux := mc\<rparr>) = (r', c')" by force
  have ch: "concat (ch b) = b" "[] \<notin> set (ch b)" for b using assms(5) by (simp_all add: cuts_def)
  have "e = None \<and> l = LoopNext \<and> l' = LoopNext \<and> r = Done () \<and> bs_handshakeDone s' \<and> bs_clientID s' = i
      \<and> r' = Done () \<and> bc_handshakeDone c'"
    by (rule agreement [OF c assms(1,2) s assms(3,4,6) p small h ch(1) ch(2) l r ch(1) ch(2) l' r'])
  then show ?thesis
    using c s h l r l' r' by (simp add: run_handshake_def agreed_def)
qed

end

section \<open>Properties\<close>

text \<open>
  C3: The handshake of each protocol succeeds over a real connection: with two multiplexers, writes that
  may be short and bytes that arrive in any chunks, the client's \<open>Connect\<close> and the server's \<open>Accept\<close>
  both complete, and the server knows the client's identifier.
\<close>

theorem handshake_agreement:
  assumes "writable k0" "sent k0 = []" "writable k1" "sent k1 = []" "cuts ch"
    and "valid_utf8 i" "i \<noteq> []" "length i \<le> 1000"
  shows "agreed i (run_handshake proxyHandshakeHandler proxyHelloHandler i k0 k1 ch)
    \<and> agreed i (run_handshake fileHandshakeHandler fileHelloHandler i k0 k1 ch)
    \<and> agreed i (run_handshake computeHandshakeHandler computeHelloHandler i k0 k1 ch)"
  using proxy_shake.run_agreement file_shake.run_agreement compute_shake.run_agreement assms by blast

theorem handshake_agreement_witness:
  "agreed ''alice'' (run_handshake computeHandshakeHandler computeHelloHandler ''alice''
     (conn_of []) ((conn_of [])\<lparr>wplan := [(3, None), (1, None)]\<rparr>) (\<lambda>b. map (\<lambda>x. [x]) b))"
proof -
  have "concat (map (\<lambda>x. [x]) b) = b" for b :: bytes by (induction b) auto
  then have "cuts (\<lambda>b. map (\<lambda>x. [x]) b)" by (auto simp: cuts_def)
  from handshake_agreement [OF _ _ _ _ this, of "conn_of []" "(conn_of [])\<lparr>wplan := [(3, None), (1, None)]\<rparr>" "''alice''"]
  show ?thesis by (simp add: writable_def conn_of_def valid_utf8_ascii)
qed

end
