(* ===== verification/Go_Copy.thy ===== *)
theory Go_Copy
  imports Mux_Transport
begin

text \<open>
  \<open>io.Copy\<close>, which moves the bytes of every proxy, run and file of the program: read up to 32 KiB, write
  them, until the source ends or one side fails.  The locale \<open>copier\<close> puts a source with an end and a sink
  together; it is interpreted on the pairs the program copies between, a connection and a stream.
\<close>

type_synonym 'd nwriter = "bytes \<Rightarrow> 'd \<Rightarrow> (nat \<times> goerr option) \<times> 'd"

text \<open>\<open>CopyWait\<close>: the source has nothing to read yet; a waiting round leaves both sides as they were.\<close>

datatype copy = CopyNext | CopyWait | CopyEnd "goerr option"

definition copyBuf :: nat where "copyBuf = 32768"

definition copy_round :: "'s reader \<Rightarrow> 'd nwriter \<Rightarrow> 's \<times> 'd \<Rightarrow> copy \<times> 's \<times> 'd" where
  "copy_round r w sd = (case r copyBuf (fst sd) of
      (RdBlock, _) \<Rightarrow> (CopyWait, sd)
    | (RdErr e, s') \<Rightarrow> (CopyEnd (if e = EOF then None else Some e), s', snd sd)
    | (RdData b, s') \<Rightarrow>
        if b = [] then (CopyNext, s', snd sd)
        else (case w b (snd sd) of
            ((n, Some e), d') \<Rightarrow> (CopyEnd (Some e), s', d')
          | ((n, None), d') \<Rightarrow> (if n = length b then CopyNext else CopyEnd (Some ErrShortWrite), s', d')))"

fun io_copy :: "nat \<Rightarrow> 's reader \<Rightarrow> 'd nwriter \<Rightarrow> 's \<times> 'd \<Rightarrow> copy \<times> 's \<times> 'd" where
  "io_copy 0 r w sd = (CopyNext, sd)"
| "io_copy (Suc k) r w sd = (case copy_round r w sd of
      (CopyNext, sd') \<Rightarrow> io_copy k r w sd'
    | x \<Rightarrow> x)"

text \<open>The error of a write alone, as the sinks see it.\<close>

definition err_of :: "'d nwriter \<Rightarrow> 'd writer" where
  "err_of w b d = (case w b d of ((_, e), d') \<Rightarrow> (e, d'))"

locale copier =
  src: byte_stream rd pending swf ended + snk: byte_sink "err_of w" sent_bytes accepts dwf
  for rd :: "'s reader" and pending swf ended
    and w :: "'d nwriter" and sent_bytes accepts dwf +
  assumes takes_all: "w b d = ((n, None), d') \<Longrightarrow> accepts b d \<Longrightarrow> n = length b"
begin

lemma copy_round_data:
  assumes "swf s" "pending s \<noteq> []" "dwf d" "\<And>b. length b \<le> copyBuf \<Longrightarrow> accepts b d"
  shows "\<exists>b s' d'. copy_round rd w (s, d) = (CopyNext, s', d') \<and> b \<noteq> [] \<and> pending s = b @ pending s' \<and> swf s'
    \<and> (ended s \<longrightarrow> ended s') \<and> sent_bytes d' = sent_bytes d @ b \<and> dwf d' \<and> (\<forall>b. length b \<le> copyBuf \<longrightarrow> accepts b d')"
proof -
  have k: "0 < copyBuf" by (simp add: copyBuf_def)
  obtain b s' where b: "rd copyBuf s = (RdData b, s')" "b \<noteq> []" "length b \<le> copyBuf"
      "pending s = b @ pending s'" "swf s'"
    using src.rd_some [OF assms(1) k assms(2)] by blast
  obtain d' where d': "err_of w b d = (None, d')" "sent_bytes d' = sent_bytes d @ b" "dwf d'"
    using snk.wr_ok [OF assms(3) assms(4) [OF b(3)]] by blast
  then obtain n where n: "w b d = ((n, None), d')"
    by (auto simp: err_of_def split: prod.splits)
  have "n = length b" by (rule takes_all [OF n assms(4) [OF b(3)]])
  then have "copy_round rd w (s, d) = (CopyNext, s', d')"
    using b(1,2) n by (simp add: copy_round_def)
  moreover have "ended s \<longrightarrow> ended s'"
    using src.ended_rd [OF assms(1) _ k assms(2)] b(1) by auto
  moreover have "\<forall>b'. length b' \<le> copyBuf \<longrightarrow> accepts b' d'"
    using snk.accepts_mono [OF assms(3) assms(4) [OF b(3)] assms(4) d'(1)] by blast
  ultimately show ?thesis using b d' by blast
qed

text \<open>One round per pending byte and one for the end are fuel enough to copy everything.\<close>

lemma copy_all:
  "swf s \<Longrightarrow> ended s \<Longrightarrow> dwf d \<Longrightarrow> (\<And>b. length b \<le> copyBuf \<Longrightarrow> accepts b d) \<Longrightarrow> length (pending s) < fuel \<Longrightarrow>
   \<exists>s' d'. io_copy fuel rd w (s, d) = (CopyEnd None, s', d') \<and> sent_bytes d' = sent_bytes d @ pending s \<and> dwf d'"
proof (induction fuel arbitrary: s d)
  case (Suc fuel)
  show ?case
  proof (cases "pending s = []")
    case True
    moreover obtain s' where "rd copyBuf s = (RdErr EOF, s')"
      using src.ended_eof [OF Suc.prems(1,2) _ True, of copyBuf] by (auto simp: copyBuf_def)
    ultimately show ?thesis using Suc.prems(3) by (simp add: copy_round_def)
  next
    case False
    obtain b s' d' where r: "copy_round rd w (s, d) = (CopyNext, s', d')" "b \<noteq> []" "pending s = b @ pending s'"
        "swf s'" "ended s'" "sent_bytes d' = sent_bytes d @ b" "dwf d'" "\<forall>b. length b \<le> copyBuf \<longrightarrow> accepts b d'"
      using copy_round_data [OF Suc.prems(1) False Suc.prems(3,4)] Suc.prems(2) by blast
    have "length (pending s') < fuel" using r(2,3) Suc.prems(5) by (cases b) auto
    then obtain s2 d2 where "io_copy fuel rd w (s', d') = (CopyEnd None, s2, d2)"
        "sent_bytes d2 = sent_bytes d' @ pending s'" "dwf d2"
      using Suc.IH [OF r(4,5,7)] r(8) by blast
    then show ?thesis using r(1,3,6) by simp
  qed
qed simp

end

section \<open>Connections and streams\<close>

interpretation conn_stream: byte_stream conn_read conn_pending conn_live "\<lambda>c. fin c = Some EOF"
proof
  fix c :: conn and n :: nat
  assume c: "conn_live c" "fin c = Some EOF" "0 < n"
  show "\<exists>s'. conn_read n c = (RdErr EOF, s')" if "conn_pending c = []"
    using c that by (cases "inbox c") (auto simp: conn_read_def conn_live_def conn_pending_def)
  show "fin (snd (conn_read n c)) = Some EOF"
    using c conn_read_same_out [of c n] by (simp add: same_out_def)
qed

text \<open>A connection that takes every write whole.\<close>

definition conn_steady :: "conn \<Rightarrow> bool" where
  "conn_steady c \<longleftrightarrow> \<not> shut c \<and> wplan c = []"

interpretation conn_sink: byte_sink "err_of conn_write" sent "\<lambda>b. conn_steady" conn_steady
  by unfold_locales (auto simp: err_of_def conn_write_def conn_steady_def)

lemma err_of_stream_Write: "err_of (stream_Write a) = stream_writer_fn a"
  by (intro ext) (simp add: err_of_def stream_writer_fn_def)

interpretation conn_to_stream: copier conn_read conn_pending conn_live "\<lambda>c. fin c = Some EOF"
    "stream_Write a" "stream_sent a" "stream_accepts a" framed for a
  by (rule copier.intro, unfold err_of_stream_Write, rule conn_stream.byte_stream_axioms, rule stream_sink.byte_sink_axioms)
    (unfold_locales, auto simp: stream_Write_def Let_def split: if_splits prod.splits option.splits)

interpretation stream_to_conn: copier "stream_Read a" "stream_pending a" "\<lambda>m. a < length (objs m)" "stream_ended a"
    conn_write sent "\<lambda>b. conn_steady" conn_steady for a
  by unfold_locales (auto simp: conn_write_def conn_steady_def)

text \<open>A stream takes every chunk of \<open>io.Copy\<close> when it and its connection are open and it is not the control stream.\<close>

lemma stream_accepts_chunks:
  assumes "writable (m_conn m)" "\<not> m_closed m" "\<not> sw_closed (s_writer (objs m ! a))" "writer_id a m \<noteq> 0"
  shows "length b \<le> copyBuf \<Longrightarrow> stream_accepts a b m"
  using assms by (simp add: stream_accepts_def copyBuf_def)

section \<open>Sending on a stream\<close>

text \<open>Stream \<open>a\<close> of \<open>m\<close> can be written to and closed.\<close>

definition sendable :: "addr \<Rightarrow> mux \<Rightarrow> bool" where
  "sendable a m \<longleftrightarrow> framed m \<and> writable (m_conn m) \<and> \<not> m_closed m \<and> a < length (objs m) \<and> \<not> sw_closed (s_writer (objs m ! a))
     \<and> \<not> s_closed (objs m ! a) \<and> writer_id a m \<noteq> 0"

lemma sendable_accepts: "sendable a m \<Longrightarrow> length b < 2 ^ 32 \<Longrightarrow> stream_accepts a b m"
  by (simp add: sendable_def stream_accepts_def)

text \<open>One write is one frame; the other streams stay as they are.\<close>

lemma sendable_frame:
  assumes "sendable a m" "length b < 2 ^ 32"
  shows "\<exists>c. stream_Write a b m = ((length b, None), m\<lparr>m_conn := c\<rparr>) \<and> (\<forall>d. sendable d m \<longrightarrow> sendable d (m\<lparr>m_conn := c\<rparr>))
    \<and> sent_frames (m\<lparr>m_conn := c\<rparr>) = sent_frames m @ [(writer_id a m, b)]"
proof -
  obtain c where c: "stream_writer_fn a b m = (None, m\<lparr>m_conn := c\<rparr>)" "framed (m\<lparr>m_conn := c\<rparr>)"
      "sent_frames (m\<lparr>m_conn := c\<rparr>) = sent_frames m @ [(writer_id a m, b)]" "writable c"
    using stream_write_frame [OF _ sendable_accepts [OF assms]] assms(1) by (auto simp: sendable_def)
  then have "stream_Write a b m = ((length b, None), m\<lparr>m_conn := c\<rparr>)"
    by (auto simp: stream_writer_fn_def stream_Write_def Let_def split: prod.splits option.splits if_splits)
  then show ?thesis using c by (auto simp: sendable_def)
qed

lemma sendable_write:
  assumes "sendable a m" "length b < 2 ^ 32"
  shows "\<exists>c. stream_Write a b m = ((length b, None), m\<lparr>m_conn := c\<rparr>) \<and> sendable a (m\<lparr>m_conn := c\<rparr>)
    \<and> stream_sent a (m\<lparr>m_conn := c\<rparr>) = stream_sent a m @ b"
proof -
  obtain c where "stream_Write a b m = ((length b, None), m\<lparr>m_conn := c\<rparr>)" "\<forall>d. sendable d m \<longrightarrow> sendable d (m\<lparr>m_conn := c\<rparr>)"
      "sent_frames (m\<lparr>m_conn := c\<rparr>) = sent_frames m @ [(writer_id a m, b)]"
    using sendable_frame [OF assms] by blast
  then show ?thesis using assms(1) by (intro exI [of _ c]) (simp add: stream_sent_def)
qed

text \<open>Closing sends the end frame.\<close>

lemma sendable_end:
  assumes "sendable a m"
  shows "\<exists>m'. stream_Close a m = (None, m') \<and> sent_frames m' = sent_frames m @ [(writer_id a m, [])]
    \<and> (\<forall>d. writer_id d m' = writer_id d m) \<and> s_closed (objs m' ! a) \<and> (\<forall>d. d \<noteq> a \<longrightarrow> sendable d m \<longrightarrow> sendable d m')
    \<and> streams m' = streams m"
proof -
  let ?mc = "upd_obj a (\<lambda>s. s\<lparr>s_closed := True, s_reader := sr_Close (s_reader s)\<rparr>) m" and ?i = "writer_id a m"
  have a: "a < length (objs m)" using assms by (simp add: sendable_def)
  have id: "sw_id (s_writer (objs ?mc ! a)) = ?i" using a by (simp add: nth_upd_obj writer_id_def)
  obtain c where c: "writeData ?i [] ?mc = (None, ?mc\<lparr>m_conn := c\<rparr>)" "sent c = sent (m_conn m) @ frame (?i, [])" "writable c"
    using writeData_sends [of ?mc ?i "[]"] assms by (auto simp: sendable_def http_prefix_def)
  have e: "stream_Close a m = (None, writer_Close a ?mc)"
    using assms by (simp add: stream_Close_def upd_obj_comp sendable_def)
  let ?m = "writer_Close a ?mc"
  have m: "m_conn ?m = c" "streams ?m = streams m" "m_closed ?m = m_closed m" "length (objs ?m) = length (objs m)"
    using c(1) id by (auto simp: writer_Close_def upd_obj_def)
  have obj: "s_closed (objs ?m ! a)" "d \<noteq> a \<Longrightarrow> objs ?m ! d = objs m ! d" "writer_id d ?m = writer_id d m" for d
    using c(1) id a by (cases "d = a"; auto simp: writer_Close_def writer_id_def nth_upd_obj upd_obj_def nth_list_update)+
  have fr: "framed m" using assms by (simp add: sendable_def)
  have "sent_frames ?m = sent_frames m @ [(?i, [])]" "framed ?m"
    using sent_frames_append [OF fr c(2)] by (simp_all add: m sent_frames_def framed_def)
  then show ?thesis using e obj m c(3) by (auto simp: sendable_def)
qed

lemma sendable_close:
  assumes "sendable a m"
  shows "\<exists>m'. stream_Close a m = (None, m') \<and> stream_sent a m' = stream_sent a m"
  using sendable_end [OF assms] by (auto simp: stream_sent_def)

end
