(* ===== verification/Proxy_Manager.thy ===== *)
theory Proxy_Manager
  imports Handshake_Agreement Go_Copy
begin

text \<open>
  \<open>p2p/protocols/proxy/service/manager.go\<close>: the proxies of a client or server by identifier.  A
  \<open>*Proxy\<close> is an index into a heap of proxy objects, because forwarders and callers keep theirs after the
  manager has dropped it.  Closing a proxy acts on the multiplexer (its stream), on the remote
  connections and on the contexts of the forwarders; \<open>proxy_world\<close> holds them.  A range over the map
  takes its visiting order as an argument.
\<close>

section \<open>State\<close>

definition ProxyStatusActive :: bytes where "ProxyStatusActive = ''active''"
definition ProxyStatusClosing :: bytes where "ProxyStatusClosing = ''closing''"
definition ProxyStatusClosed :: bytes where "ProxyStatusClosed = ''closed''"

type_synonym paddr = nat

record proxy =
  px_ID :: bytes
  px_RemoteAddr :: bytes
  px_Protocol :: bytes
  px_Stream :: "addr option"
  px_status :: bytes
  px_remoteConn :: "nat option"
  px_forwardCancel :: "nat option"

text \<open>The remote connections, the contexts (true: cancelled) and the proxy objects.\<close>

record proxy_world =
  pw_mux :: mux
  pw_conns :: "conn list"
  pw_ctxs :: "bool list"
  pw_objs :: "proxy list"

record manager =
  mg_proxies :: "bytes \<rightharpoonup> paddr"

definition upd_proxy :: "paddr \<Rightarrow> (proxy \<Rightarrow> proxy) \<Rightarrow> proxy_world \<Rightarrow> proxy_world" where
  "upd_proxy a f w = w\<lparr>pw_objs := (pw_objs w)[a := f (pw_objs w ! a)]\<rparr>"

section \<open>Proxies\<close>

definition SetStatus :: "bytes \<Rightarrow> paddr option \<Rightarrow> proxy_world \<Rightarrow> proxy_world" where
  "SetStatus st p w = (case p of None \<Rightarrow> w | Some a \<Rightarrow> upd_proxy a (\<lambda>x. x\<lparr>px_status := st\<rparr>) w)"

definition GetStatus :: "paddr option \<Rightarrow> proxy_world \<Rightarrow> bytes" where
  "GetStatus p w = (case p of None \<Rightarrow> ProxyStatusClosed | Some a \<Rightarrow> px_status (pw_objs w ! a))"

definition IsActive :: "paddr option \<Rightarrow> proxy_world \<Rightarrow> bool" where
  "IsActive p w \<longleftrightarrow> GetStatus p w = ProxyStatusActive"

definition proxy_IsClosed :: "paddr option \<Rightarrow> proxy_world \<Rightarrow> bool" where
  "proxy_IsClosed p w \<longleftrightarrow> GetStatus p w = ProxyStatusClosed"

definition setForwardCancel :: "nat option \<Rightarrow> paddr option \<Rightarrow> proxy_world \<Rightarrow> proxy_world" where
  "setForwardCancel c p w = (case p of None \<Rightarrow> w | Some a \<Rightarrow> upd_proxy a (\<lambda>x. x\<lparr>px_forwardCancel := c\<rparr>) w)"

definition cancelForwarding :: "paddr option \<Rightarrow> proxy_world \<Rightarrow> proxy_world" where
  "cancelForwarding p w = (case p of
      None \<Rightarrow> w
    | Some a \<Rightarrow>
        (let cancel = px_forwardCancel (pw_objs w ! a);
             w = upd_proxy a (\<lambda>x. x\<lparr>px_forwardCancel := None\<rparr>) w
         in (case cancel of None \<Rightarrow> w | Some k \<Rightarrow> w\<lparr>pw_ctxs := (pw_ctxs w)[k := True]\<rparr>)))"

text \<open>The guarded calls \<open>if p.Stream != nil { p.Stream.Close() }\<close> and the same for the remote connection.\<close>

definition close_stream_of :: "paddr \<Rightarrow> proxy_world \<Rightarrow> goerr option \<times> proxy_world" where
  "close_stream_of a w = (case px_Stream (pw_objs w ! a) of
      None \<Rightarrow> (None, w)
    | Some s \<Rightarrow> (case stream_Close s (pw_mux w) of (e, m) \<Rightarrow> (e, w\<lparr>pw_mux := m\<rparr>)))"

definition close_conn :: "nat \<Rightarrow> proxy_world \<Rightarrow> goerr option \<times> proxy_world" where
  "close_conn k w = (case conn_close (pw_conns w ! k) of (e, c) \<Rightarrow> (e, w\<lparr>pw_conns := (pw_conns w)[k := c]\<rparr>))"

definition close_remote_of :: "paddr \<Rightarrow> proxy_world \<Rightarrow> goerr option \<times> proxy_world" where
  "close_remote_of a w = (case px_remoteConn (pw_objs w ! a) of
      None \<Rightarrow> (None, w)
    | Some k \<Rightarrow> close_conn k w)"

fun join_words :: "string list \<Rightarrow> string" where
  "join_words [] = []"
| "join_words [s] = s"
| "join_words (s # ss) = s @ '' '' @ join_words ss"

definition proxy_Close :: "paddr option \<Rightarrow> proxy_world \<Rightarrow> goerr option \<times> proxy_world" where
  "proxy_Close p w = (case p of
      None \<Rightarrow> (None, w)
    | Some a \<Rightarrow>
        (case close_stream_of a (SetStatus ProxyStatusClosed p (cancelForwarding p w)) of
          (e1, w1) \<Rightarrow> (case close_remote_of a w1 of
            (e2, w2) \<Rightarrow>
              (let errs = (case e1 of None \<Rightarrow> [] | Some e \<Rightarrow> [e]) @ (case e2 of None \<Rightarrow> [] | Some e \<Rightarrow> [e])
               in (if errs = [] then None
                   else Some (Err (''close errors: ['' @ join_words (map err_text errs) @ '']'')), w2)))))"

section \<open>The manager\<close>

definition NewManager :: manager where
  "NewManager = \<lparr>mg_proxies = Map.empty\<rparr>"

definition AddProxy :: "bytes \<Rightarrow> bytes \<Rightarrow> bytes \<Rightarrow> addr option \<Rightarrow> manager option \<Rightarrow> proxy_world
    \<Rightarrow> paddr option \<times> manager option \<times> proxy_world" where
  "AddProxy i remoteAddr protocol stream mg w = (case mg of
      None \<Rightarrow> (None, None, w)
    | Some mg \<Rightarrow>
        if i = [] then (None, Some mg, w)
        else
          (let w = (case mg_proxies mg i of
                None \<Rightarrow> w
              | Some b \<Rightarrow> snd (close_stream_of b (cancelForwarding (Some b) w)));
               a = length (pw_objs w)
           in (Some a, Some (mg\<lparr>mg_proxies := (mg_proxies mg)(i \<mapsto> a)\<rparr>),
               w\<lparr>pw_objs := pw_objs w @ [\<lparr>px_ID = i, px_RemoteAddr = remoteAddr, px_Protocol = protocol,
                  px_Stream = stream, px_status = ProxyStatusActive, px_remoteConn = None,
                  px_forwardCancel = None\<rparr>]\<rparr>)))"

text \<open>What \<open>RemoveProxy\<close>, \<open>CloseAll\<close> and \<open>CloseInactive\<close> do with one registered proxy.\<close>

definition drop_proxy :: "bytes \<Rightarrow> paddr \<Rightarrow> manager \<times> proxy_world \<Rightarrow> manager \<times> proxy_world" where
  "drop_proxy i a mw = (case mw of (mg, w) \<Rightarrow>
     (mg\<lparr>mg_proxies := (mg_proxies mg)(i := None)\<rparr>, snd (close_stream_of a w)))"

definition RemoveProxy :: "bytes \<Rightarrow> manager option \<Rightarrow> proxy_world \<Rightarrow> manager option \<times> proxy_world" where
  "RemoveProxy i mg w = (case mg of
      None \<Rightarrow> (None, w)
    | Some mg \<Rightarrow>
        if i = [] then (Some mg, w)
        else (case mg_proxies mg i of
            None \<Rightarrow> (Some mg, w)
          | Some a \<Rightarrow> (case drop_proxy i a (mg, w) of (mg, w) \<Rightarrow> (Some mg, w))))"

definition GetProxy :: "bytes \<Rightarrow> manager option \<Rightarrow> paddr option" where
  "GetProxy i mg = (case mg of None \<Rightarrow> None | Some mg \<Rightarrow> if i = [] then None else mg_proxies mg i)"

definition HasProxy :: "bytes \<Rightarrow> manager option \<Rightarrow> bool" where
  "HasProxy i mg \<longleftrightarrow> GetProxy i mg \<noteq> None"

definition ListProxies :: "bytes list \<Rightarrow> manager option \<Rightarrow> paddr list" where
  "ListProxies ks mg = (case mg of None \<Rightarrow> [] | Some mg \<Rightarrow> List.map_filter (mg_proxies mg) ks)"

definition mg_Count :: "manager option \<Rightarrow> nat" where
  "mg_Count mg = (case mg of None \<Rightarrow> 0 | Some mg \<Rightarrow> card (dom (mg_proxies mg)))"

definition mg_IsEmpty :: "manager option \<Rightarrow> bool" where
  "mg_IsEmpty mg \<longleftrightarrow> mg_Count mg = 0"

definition mg_CloseAll :: "bytes list \<Rightarrow> manager option \<Rightarrow> proxy_world \<Rightarrow> manager option \<times> proxy_world" where
  "mg_CloseAll ks mg w = (case mg of
      None \<Rightarrow> (None, w)
    | Some mg \<Rightarrow>
        (case fold (\<lambda>i mw. case mg_proxies (fst mw) i of None \<Rightarrow> mw | Some a \<Rightarrow> drop_proxy i a mw) ks (mg, w) of
          (mg, w) \<Rightarrow> (Some mg, w)))"

definition CloseProxy :: "bytes \<Rightarrow> manager option \<Rightarrow> proxy_world
    \<Rightarrow> goerr option \<times> manager option \<times> proxy_world" where
  "CloseProxy i mg w = (case GetProxy i mg of
      None \<Rightarrow> (None, mg, w)
    | Some a \<Rightarrow> (case proxy_Close (Some a) w of
          (e, w) \<Rightarrow> (case RemoveProxy i mg w of (mg, w) \<Rightarrow> (e, mg, w))))"

definition GetActiveProxies :: "bytes list \<Rightarrow> manager option \<Rightarrow> proxy_world \<Rightarrow> paddr list" where
  "GetActiveProxies ks mg w =
     filter (\<lambda>a. GetStatus (Some a) w = ProxyStatusActive) (ListProxies ks mg)"

definition CloseInactive :: "bytes list \<Rightarrow> manager option \<Rightarrow> proxy_world \<Rightarrow> manager option \<times> proxy_world" where
  "CloseInactive ks mg w = (case mg of
      None \<Rightarrow> (None, w)
    | Some mg \<Rightarrow>
        (case fold (\<lambda>i mw. case mg_proxies (fst mw) i of
              None \<Rightarrow> mw
            | Some a \<Rightarrow> if GetStatus (Some a) (snd mw) \<noteq> ProxyStatusActive then drop_proxy i a mw else mw)
          ks (mg, w) of (mg, w) \<Rightarrow> (Some mg, w)))"

definition ToProtocolProxyInfo :: "paddr \<Rightarrow> proxy_world \<Rightarrow> proxy_info" where
  "ToProtocolProxyInfo a w = (let p = pw_objs w ! a in
     \<lparr>pi_proxy_id = px_ID p, pi_remote_addr = px_RemoteAddr p, pi_protocol = px_Protocol p,
      pi_status = GetStatus (Some a) w\<rparr>)"

interpretation proxies: table mg_proxies "\<lambda>i a mg. mg\<lparr>mg_proxies := (mg_proxies mg)(i \<mapsto> a)\<rparr>"
    "\<lambda>i mg. mg\<lparr>mg_proxies := (mg_proxies mg)(i := None)\<rparr>"
  by unfold_locales auto


section \<open>What the operations leave alone\<close>

text \<open>Streams are only added, and a closed stream stays closed.\<close>

definition mux_later :: "mux \<Rightarrow> mux \<Rightarrow> bool" where
  "mux_later m m' \<longleftrightarrow> length (objs m) \<le> length (objs m')
     \<and> (\<forall>b < length (objs m). s_closed (objs m ! b) \<longrightarrow> s_closed (objs m' ! b))"

text \<open>The proxies keep their names and streams.\<close>

definition same_proxies :: "proxy_world \<Rightarrow> proxy_world \<Rightarrow> bool" where
  "same_proxies w w' \<longleftrightarrow> length (pw_objs w') = length (pw_objs w)
     \<and> (\<forall>a < length (pw_objs w). px_ID (pw_objs w' ! a) = px_ID (pw_objs w ! a)
          \<and> px_Stream (pw_objs w' ! a) = px_Stream (pw_objs w ! a))"

definition world_later :: "proxy_world \<Rightarrow> proxy_world \<Rightarrow> bool" where
  "world_later w w' \<longleftrightarrow> same_proxies w w' \<and> mux_later (pw_mux w) (pw_mux w')"

lemma world_later_refl [simp]: "world_later w w"
  by (simp add: world_later_def same_proxies_def mux_later_def)

lemma world_later_trans: "world_later w w1 \<Longrightarrow> world_later w1 w2 \<Longrightarrow> world_later w w2"
  by (auto simp: world_later_def same_proxies_def mux_later_def)

lemma upd_proxy_later:
  "(\<And>x. px_ID (f x) = px_ID x \<and> px_Stream (f x) = px_Stream x) \<Longrightarrow> world_later w (upd_proxy a f w)"
  by (cases "a < length (pw_objs w)")
    (auto simp: world_later_def same_proxies_def mux_later_def upd_proxy_def nth_list_update)

lemma world_later_fields [simp]:
  "world_later w (w\<lparr>pw_conns := cs\<rparr>)" "world_later w (w\<lparr>pw_ctxs := ks\<rparr>)"
  "world_later w (w1\<lparr>pw_conns := cs\<rparr>) = world_later w w1" "world_later w (w1\<lparr>pw_ctxs := ks\<rparr>) = world_later w w1"
  by (simp_all add: world_later_def same_proxies_def mux_later_def)

lemma SetStatus_later [simp]: "world_later w (SetStatus st p w)"
  by (auto simp: SetStatus_def intro: upd_proxy_later split: option.split)

lemma cancelForwarding_later [simp]: "world_later w (cancelForwarding p w)"
  by (auto simp: cancelForwarding_def Let_def intro: upd_proxy_later split: option.split)

lemma stream_Close_later: "mux_later m (snd (stream_Close a m))"
  using stream_Close_cases [of m a]
  by (auto simp: mux_later_def nth_upd_obj closed_obj_def)

lemma close_stream_of_later [simp]: "world_later w (snd (close_stream_of a w))"
  using stream_Close_later
  by (auto simp: close_stream_of_def world_later_def same_proxies_def mux_later_def case_prod_beta split: option.split)

lemma close_conn_later [simp]: "world_later w (snd (close_conn k w))"
  by (simp add: close_conn_def case_prod_beta)

lemma close_remote_of_later [simp]: "world_later w (snd (close_remote_of a w))"
  by (auto simp: close_remote_of_def split: option.split)

lemma proxy_Close_later: "world_later w (snd (proxy_Close p w))"
proof (cases p)
  case (Some a)
  let ?w = "SetStatus ProxyStatusClosed p (cancelForwarding p w)"
  have "world_later w (snd (close_remote_of a (snd (close_stream_of a ?w))))"
    by (meson world_later_trans cancelForwarding_later SetStatus_later close_stream_of_later close_remote_of_later)
  then show ?thesis by (simp add: Some proxy_Close_def Let_def case_prod_beta)
qed (simp add: proxy_Close_def)

section \<open>No stream is leaked\<close>

definition stream_shut :: "proxy_world \<Rightarrow> paddr \<Rightarrow> bool" where
  "stream_shut w a \<longleftrightarrow> (case px_Stream (pw_objs w ! a) of None \<Rightarrow> True | Some s \<Rightarrow> s_closed (objs (pw_mux w) ! s))"

text \<open>
  Every registered proxy carries its key, and every proxy is registered under its identifier or has no
  open stream.
\<close>

definition held :: "manager \<Rightarrow> proxy_world \<Rightarrow> bool" where
  "held mg w \<longleftrightarrow>
     (\<forall>i a. mg_proxies mg i = Some a \<longrightarrow> i \<noteq> [] \<and> a < length (pw_objs w) \<and> px_ID (pw_objs w ! a) = i)
     \<and> (\<forall>a < length (pw_objs w). \<forall>s. px_Stream (pw_objs w ! a) = Some s \<longrightarrow> s < length (objs (pw_mux w)))
     \<and> (\<forall>a < length (pw_objs w). mg_proxies mg (px_ID (pw_objs w ! a)) = Some a \<or> stream_shut w a)"

lemma heldD:
  assumes "held mg w" "mg_proxies mg i = Some a"
  shows "i \<noteq> []" "a < length (pw_objs w)" "px_ID (pw_objs w ! a) = i"
  using assms by (auto simp: held_def)

lemma held_stream: "held mg w \<Longrightarrow> a < length (pw_objs w) \<Longrightarrow> px_Stream (pw_objs w ! a) = Some s \<Longrightarrow> s < length (objs (pw_mux w))"
  by (auto simp: held_def)

lemma stream_shut_later:
  assumes "held mg w" "world_later w w'" "a < length (pw_objs w)" "stream_shut w a"
  shows "stream_shut w' a"
  using assms held_stream [OF assms(1,3)]
  by (auto simp: world_later_def same_proxies_def mux_later_def stream_shut_def split: option.splits)

lemma held_later:
  assumes "held mg w" "world_later w w'"
  shows "held mg w'"
proof -
  have same: "length (pw_objs w') = length (pw_objs w)" "length (objs (pw_mux w)) \<le> length (objs (pw_mux w'))"
    using assms(2) by (simp_all add: world_later_def same_proxies_def mux_later_def)
  have fields: "px_ID (pw_objs w' ! a) = px_ID (pw_objs w ! a)" "px_Stream (pw_objs w' ! a) = px_Stream (pw_objs w ! a)"
    if "a < length (pw_objs w)" for a
    using assms(2) that by (simp_all add: world_later_def same_proxies_def)
  show ?thesis
    unfolding held_def same(1)
  proof (intro conjI allI impI)
    fix i a
    assume "mg_proxies mg i = Some a"
    from heldD [OF assms(1) this] show "i \<noteq> []" "a < length (pw_objs w)" "px_ID (pw_objs w' ! a) = i"
      by (simp_all add: fields)
  next
    fix a s
    assume "a < length (pw_objs w)" "px_Stream (pw_objs w' ! a) = Some s"
    then show "s < length (objs (pw_mux w'))"
      using held_stream [OF assms(1)] fields(2) same(2) by fastforce
  next
    fix a
    assume a: "a < length (pw_objs w)"
    then show "mg_proxies mg (px_ID (pw_objs w' ! a)) = Some a \<or> stream_shut w' a"
      using assms(1) stream_shut_later [OF assms a] fields(1) [OF a] unfolding held_def by auto
  qed
qed

lemma close_stream_shuts:
  assumes "held mg w" "a < length (pw_objs w)"
  shows "stream_shut (snd (close_stream_of a w)) a"
proof (cases "px_Stream (pw_objs w ! a)")
  case None
  then show ?thesis by (simp add: close_stream_of_def stream_shut_def)
next
  case (Some s)
  then show ?thesis
    using stream_Close_cases [of "pw_mux w" s] held_stream [OF assms Some]
    by (auto simp: close_stream_of_def stream_shut_def nth_upd_obj closed_obj_def)
qed

text \<open>A proxy whose stream is shut may leave the table.\<close>

lemma held_forget:
  assumes "held mg w" "stream_shut w a" "mg_proxies mg i = Some a"
  shows "held (mg\<lparr>mg_proxies := (mg_proxies mg)(i := None)\<rparr>) w"
proof -
  have "mg_proxies mg (px_ID (pw_objs w ! b)) = Some b \<or> stream_shut w b" if "b < length (pw_objs w)" for b
    using assms(1) that unfolding held_def by blast
  then have "stream_shut w b" if "px_ID (pw_objs w ! b) = i" "b < length (pw_objs w)" for b
    using assms(2,3) that by fastforce
  then show ?thesis
    using assms(1) unfolding held_def by (simp split: if_split_asm)
qed

lemma held_drop:
  assumes "held (fst mw) (snd mw)" "mg_proxies (fst mw) i = Some a"
  shows "held (fst (drop_proxy i a mw)) (snd (drop_proxy i a mw))"
proof -
  obtain mg w where mw: "mw = (mg, w)" by force
  have h: "held mg w" "mg_proxies mg i = Some a" using assms by (simp_all add: mw)
  have "held mg (snd (close_stream_of a w))" by (rule held_later [OF h(1)]) simp
  from held_forget [OF this close_stream_shuts [OF h(1) heldD(2) [OF h]] h(2)]
  show ?thesis by (simp add: mw drop_proxy_def)
qed

lemma held_Remove: "held mg w \<Longrightarrow> RemoveProxy i (Some mg) w = (Some mg', w') \<Longrightarrow> held mg' w'"
  using held_drop [of "(mg, w)" i]
  by (auto simp: RemoveProxy_def split: if_splits option.splits prod.splits)

text \<open>A range over the map that drops some of the visited proxies.\<close>

lemma held_fold:
  assumes "held mg w" "fold f ks (mg, w) = (mg', w')"
    and "\<And>i mw. f i mw = mw \<or> (\<exists>a. mg_proxies (fst mw) i = Some a \<and> f i mw = drop_proxy i a mw)"
  shows "held mg' w'"
proof -
  have "held (fst (f i mw)) (snd (f i mw))" if "held (fst mw) (snd mw)" for i mw
    using assms(3) [of i mw] held_drop that by fastforce
  then have "held (fst (fold f ks (mg, w))) (snd (fold f ks (mg, w)))"
    by (intro fold_keeps [of "\<lambda>mw. held (fst mw) (snd mw)" f]) (simp_all add: assms(1))
  then show ?thesis by (simp add: assms(2))
qed

lemma held_CloseAll: "held mg w \<Longrightarrow> mg_CloseAll ks (Some mg) w = (Some mg', w') \<Longrightarrow> held mg' w'"
  unfolding mg_CloseAll_def
  by (auto split: prod.splits elim!: held_fold split: option.split)

lemma held_CloseInactive: "held mg w \<Longrightarrow> CloseInactive ks (Some mg) w = (Some mg', w') \<Longrightarrow> held mg' w'"
  unfolding CloseInactive_def
  by (auto split: prod.splits elim!: held_fold split: option.split)

lemma held_CloseProxy: "held mg w \<Longrightarrow> CloseProxy i (Some mg) w = (e, Some mg', w') \<Longrightarrow> held mg' w'"
proof -
  assume h: "held mg w" "CloseProxy i (Some mg) w = (e, Some mg', w')"
  show "held mg' w'"
  proof (cases "GetProxy i (Some mg)")
    case None
    then show ?thesis using h by (simp add: CloseProxy_def)
  next
    case (Some a)
    have "held mg (snd (proxy_Close (Some a) w))" by (rule held_later [OF h(1) proxy_Close_later])
    moreover have "RemoveProxy i (Some mg) (snd (proxy_Close (Some a) w)) = (Some mg', w')"
      using h(2) Some by (simp add: CloseProxy_def case_prod_beta prod_eq_iff)
    ultimately show ?thesis by (rule held_Remove)
  qed
qed

lemma held_Add:
  assumes "held mg w" "AddProxy i ra pr st (Some mg) w = (p, Some mg', w')"
    and "\<And>s. st = Some s \<Longrightarrow> s < length (objs (pw_mux w))"
  shows "held mg' w'"
proof (cases "i = []")
  case True
  then show ?thesis using assms by (simp add: AddProxy_def)
next
  case False
  define w1 where "w1 = (case mg_proxies mg i of None \<Rightarrow> w
      | Some b \<Rightarrow> snd (close_stream_of b (cancelForwarding (Some b) w)))"
  have later: "world_later w w1"
    using world_later_trans [OF cancelForwarding_later close_stream_of_later]
    by (auto simp: w1_def split: option.split)
  note h1 = held_later [OF assms(1) later]
  have shut: "stream_shut w1 b" if "mg_proxies mg i = Some b" for b
  proof -
    have "held mg (cancelForwarding (Some b) w)" by (rule held_later [OF assms(1)]) simp
    from close_stream_shuts [OF this heldD(2) [OF this that]] that show ?thesis by (simp add: w1_def)
  qed
  have len: "length (objs (pw_mux w)) \<le> length (objs (pw_mux w1))"
    using later by (simp add: world_later_def mux_later_def)
  have w': "mg' = mg\<lparr>mg_proxies := (mg_proxies mg)(i \<mapsto> length (pw_objs w1))\<rparr>"
      "pw_mux w' = pw_mux w1" "pw_objs w' = pw_objs w1 @ [\<lparr>px_ID = i, px_RemoteAddr = ra, px_Protocol = pr,
         px_Stream = st, px_status = ProxyStatusActive, px_remoteConn = None, px_forwardCancel = None\<rparr>]"
    using assms(2) False unfolding AddProxy_def w1_def by (auto simp: Let_def)
  show ?thesis
    unfolding held_def
  proof (intro conjI allI impI)
    fix j a
    assume "mg_proxies mg' j = Some a"
    then show "j \<noteq> []" "a < length (pw_objs w')" "px_ID (pw_objs w' ! a) = j"
      using heldD [OF h1, of j a] False by (auto simp: w' nth_append split: if_splits)
  next
    fix a s
    assume "a < length (pw_objs w')" "px_Stream (pw_objs w' ! a) = Some s"
    then show "s < length (objs (pw_mux w'))"
      using held_stream [OF h1, of a s] assms(3) [of s] len by (auto simp: w' nth_append less_Suc_eq split: if_splits)
  next
    fix a
    assume a: "a < length (pw_objs w')"
    show "mg_proxies mg' (px_ID (pw_objs w' ! a)) = Some a \<or> stream_shut w' a"
    proof (cases "a = length (pw_objs w1)")
      case True
      then show ?thesis by (simp add: w')
    next
      case False
      then have a1: "a < length (pw_objs w1)" "pw_objs w' ! a = pw_objs w1 ! a"
        using a by (simp_all add: w' nth_append)
      have "stream_shut w' a = stream_shut w1 a" by (simp add: stream_shut_def a1(2) w'(2) split: option.split)
      moreover have "mg_proxies mg (px_ID (pw_objs w1 ! a)) = Some a \<or> stream_shut w1 a"
        using h1 a1(1) unfolding held_def by blast
      ultimately show ?thesis using shut [of a] by (auto simp: w'(1) a1(2))
    qed
  qed
qed

text \<open>
  Everything that happens to a manager: its operations in any order, statuses and cancellations, and
  anything else on the multiplexer and the connections, where streams once closed stay closed.
\<close>

inductive manager_reach :: "manager \<Rightarrow> proxy_world \<Rightarrow> bool" where
  start: "pw_objs w = [] \<Longrightarrow> manager_reach NewManager w"
| world: "manager_reach mg w \<Longrightarrow> world_later w w' \<Longrightarrow> manager_reach mg w'"
| add: "manager_reach mg w \<Longrightarrow> AddProxy i ra pr st (Some mg) w = (p, Some mg', w') \<Longrightarrow>
    (\<And>s. st = Some s \<Longrightarrow> s < length (objs (pw_mux w))) \<Longrightarrow> manager_reach mg' w'"
| remove: "manager_reach mg w \<Longrightarrow> RemoveProxy i (Some mg) w = (Some mg', w') \<Longrightarrow> manager_reach mg' w'"
| close: "manager_reach mg w \<Longrightarrow> CloseProxy i (Some mg) w = (e, Some mg', w') \<Longrightarrow> manager_reach mg' w'"
| closeAll: "manager_reach mg w \<Longrightarrow> mg_CloseAll ks (Some mg) w = (Some mg', w') \<Longrightarrow> manager_reach mg' w'"
| closeInactive: "manager_reach mg w \<Longrightarrow> CloseInactive ks (Some mg) w = (Some mg', w') \<Longrightarrow> manager_reach mg' w'"

lemma manager_reach_held: "manager_reach mg w \<Longrightarrow> held mg w"
proof (induction rule: manager_reach.induct)
  case (start w)
  then show ?case by (simp add: held_def NewManager_def)
qed (blast intro: held_later held_Add held_Remove held_CloseProxy held_CloseAll held_CloseInactive)+

section \<open>Properties\<close>

text \<open>A manager with one proxy: stream 1 of the sample multiplexer, a remote connection and a context.\<close>

definition sample_world :: proxy_world where
  "sample_world = \<lparr>pw_mux = sample_mux, pw_conns = [conn_of []], pw_ctxs = [False],
     pw_objs = [\<lparr>px_ID = ''p1'', px_RemoteAddr = ''host:80'', px_Protocol = ''tcp'', px_Stream = Some 0,
       px_status = ProxyStatusActive, px_remoteConn = Some 0, px_forwardCancel = Some 0\<rparr>]\<rparr>"

definition sample_manager :: manager where
  "sample_manager = \<lparr>mg_proxies = [''p1'' \<mapsto> 0]\<rparr>"

lemma sample_held: "held sample_manager sample_world"
  by (auto simp: held_def sample_manager_def sample_world_def sample_mux_def split: if_splits)

text \<open>
  C39: In every history of a manager a registered proxy carries the identifier it is registered under, and a
  proxy that is not registered has no open stream: whatever replaces or removes a proxy closes its stream.
\<close>

theorem proxies_not_leaked:
  assumes "manager_reach mg w" "a < length (pw_objs w)"
  shows "(GetProxy (px_ID (pw_objs w ! a)) (Some mg) = Some a \<or> stream_shut w a)
    \<and> (\<forall>i. GetProxy i (Some mg) = Some a \<longrightarrow> px_ID (pw_objs w ! a) = i)"
proof -
  have h: "held mg w" by (rule manager_reach_held [OF assms(1)])
  have "mg_proxies mg (px_ID (pw_objs w ! a)) = Some a \<or> stream_shut w a"
    using h assms(2) unfolding held_def by blast
  then show ?thesis using heldD [OF h] by (auto simp: GetProxy_def)
qed

theorem proxies_not_leaked_witness:
  "\<exists>mg w. manager_reach mg w \<and> length (pw_objs w) = 1 \<and> GetProxy ''p1'' (Some mg) = None \<and> stream_shut w 0"
proof -
  let ?w0 = "sample_world\<lparr>pw_objs := []\<rparr>"
  obtain a mg1 w1 where add: "AddProxy ''p1'' ''host:80'' ''tcp'' (Some 0) (Some NewManager) ?w0 = (a, Some mg1, w1)"
    by (simp add: AddProxy_def Let_def)
  have r1: "manager_reach mg1 w1"
    by (rule manager_reach.add [OF manager_reach.start add]) (simp_all add: sample_world_def sample_mux_def)
  obtain mg2 w2 where rm: "RemoveProxy ''p1'' (Some mg1) w1 = (Some mg2, w2)"
    by (cases "RemoveProxy ''p1'' (Some mg1) w1")
      (auto simp: RemoveProxy_def drop_proxy_def split: option.splits if_splits)
  have r2: "manager_reach mg2 w2" by (rule manager_reach.remove [OF r1 rm])
  have one: "length (pw_objs w2) = 1" "GetProxy ''p1'' (Some mg2) = None" "px_ID (pw_objs w2 ! 0) = ''p1''"
    using add rm
    by (auto simp: AddProxy_def Let_def NewManager_def RemoveProxy_def drop_proxy_def GetProxy_def close_stream_of_def
        case_prod_beta)
  then show ?thesis using proxies_not_leaked [OF r2, of 0] r2 by auto
qed

text \<open>
  \<open>CloseProxy\<close> releases everything a registered proxy holds: its status becomes closed, its stream and
  its remote connection are closed and its forwarding context is cancelled, and only its identifier
  leaves the table.
\<close>

theorem CloseProxy_releases:
  assumes "held mg w" "GetProxy i (Some mg) = Some a"
  shows "\<exists>e mg' w'. CloseProxy i (Some mg) w = (e, Some mg', w') \<and> mg_proxies mg' = (mg_proxies mg)(i := None)
    \<and> GetStatus (Some a) w' = ProxyStatusClosed \<and> stream_shut w' a
    \<and> (\<forall>k < length (pw_conns w). px_remoteConn (pw_objs w ! a) = Some k \<longrightarrow> shut (pw_conns w' ! k))
    \<and> (\<forall>k < length (pw_ctxs w). px_forwardCancel (pw_objs w ! a) = Some k \<longrightarrow> pw_ctxs w' ! k)"
proof -
  have reg: "i \<noteq> []" "mg_proxies mg i = Some a" using assms(2) by (simp_all add: GetProxy_def split: if_splits)
  have a: "a < length (pw_objs w)" by (rule heldD(2) [OF assms(1) reg(2)])
  obtain e w1 where c: "proxy_Close (Some a) w = (e, w1)" by force
  have h1: "held mg w1" using held_later [OF assms(1) proxy_Close_later] c by (metis snd_conv)
  have rel: "px_status (pw_objs w1 ! a) = ProxyStatusClosed"
      "\<forall>k < length (pw_conns w). px_remoteConn (pw_objs w ! a) = Some k \<longrightarrow> shut (pw_conns w1 ! k)"
      "\<forall>k < length (pw_ctxs w). px_forwardCancel (pw_objs w ! a) = Some k \<longrightarrow> pw_ctxs w1 ! k"
    using c a
    by (auto simp: proxy_Close_def cancelForwarding_def SetStatus_def upd_proxy_def Let_def close_stream_of_def
        close_remote_of_def close_conn_def conn_close_def split: option.splits prod.splits if_splits)
  let ?w2 = "snd (close_stream_of a w1)"
  have "CloseProxy i (Some mg) w = (e, Some (mg\<lparr>mg_proxies := (mg_proxies mg)(i := None)\<rparr>), ?w2)"
    using assms(2) c reg by (simp add: CloseProxy_def RemoveProxy_def drop_proxy_def)
  moreover have "pw_objs ?w2 = pw_objs w1" "pw_conns ?w2 = pw_conns w1" "pw_ctxs ?w2 = pw_ctxs w1"
    by (simp_all add: close_stream_of_def case_prod_beta split: option.split)
  ultimately show ?thesis
    using rel close_stream_shuts [OF h1 heldD(2) [OF h1 reg(2)]] by (simp add: GetStatus_def)
qed

theorem CloseProxy_releases_witness:
  "\<exists>e mg' w'. CloseProxy ''p1'' (Some sample_manager) sample_world = (e, Some mg', w')
    \<and> GetStatus (Some 0) w' = ProxyStatusClosed \<and> stream_shut w' 0 \<and> shut (pw_conns w' ! 0) \<and> pw_ctxs w' ! 0"
  using CloseProxy_releases [OF sample_held, of "''p1''" 0]
  by (auto simp: GetProxy_def sample_manager_def sample_world_def)

text \<open>
  \<open>RemoveProxy\<close>, \<open>CloseAll\<close> and the replacement in \<open>AddProxy\<close> do not: the remote connection of the
  dropped proxy stays open and its status stays what it was.
\<close>

theorem dropped_proxy_keeps_remote:
  assumes "mg_proxies mg i = Some a" "i \<noteq> []" "a < length (pw_objs w)"
  shows "pw_conns (snd (RemoveProxy i (Some mg) w)) = pw_conns w
    \<and> GetStatus (Some a) (snd (RemoveProxy i (Some mg) w)) = GetStatus (Some a) w
    \<and> pw_conns (snd (mg_CloseAll [i] (Some mg) w)) = pw_conns w
    \<and> GetStatus (Some a) (snd (mg_CloseAll [i] (Some mg) w)) = GetStatus (Some a) w
    \<and> pw_conns (snd (snd (AddProxy i ra pr st (Some mg) w))) = pw_conns w
    \<and> GetStatus (Some a) (snd (snd (AddProxy i ra pr st (Some mg) w))) = GetStatus (Some a) w"
proof -
  have "pw_conns (snd (close_stream_of b v)) = pw_conns v" "pw_objs (snd (close_stream_of b v)) = pw_objs v" for b v
    by (simp_all add: close_stream_of_def case_prod_beta split: option.split)
  then show ?thesis
    using assms
    by (auto simp: RemoveProxy_def mg_CloseAll_def AddProxy_def drop_proxy_def case_prod_beta Let_def GetStatus_def nth_append
        cancelForwarding_def upd_proxy_def split: option.split)
qed

theorem dropped_proxy_keeps_remote_witness:
  "\<not> shut (pw_conns (snd (mg_CloseAll [''p1''] (Some sample_manager) sample_world)) ! 0)
    \<and> GetStatus (Some 0) (snd (mg_CloseAll [''p1''] (Some sample_manager) sample_world)) = ProxyStatusActive"
  using dropped_proxy_keeps_remote [of sample_manager "''p1''" 0 sample_world "''host:80''" "''tcp''" None]
  by (simp add: sample_manager_def sample_world_def GetStatus_def conn_of_def)

end
