(* ===== verification/Service_Replies.thy ===== *)
theory Service_Replies
  imports Handshake_Agreement
begin

text \<open>
  What the request handlers of the three services share: the end of every handler, where a response
  packet is built and written to the control connection, and what it means for the peer that one packet
  was sent.
\<close>

lemma valid_utf8_prefix: "\<forall>c \<in> set a. (of_char c :: nat) < 128 \<Longrightarrow> valid_utf8 (a @ s) = valid_utf8 s"
  by (induction a) (auto simp: utf8_len_ascii valid_utf8.simps(2))

text \<open>The decimal text of a number with at most \<open>k\<close> digits.\<close>

lemma length_show_nat: "0 < k \<Longrightarrow> n < 10 ^ k \<Longrightarrow> length (show_nat n) \<le> k"
proof (induction k arbitrary: n)
  case (Suc k)
  show ?case
  proof (cases "n < 10")
    case True
    then show ?thesis by (subst show_nat.simps) simp
  next
    case False
    then have "0 < k" using Suc.prems(2) by (cases k) auto
    moreover have "n div 10 < 10 ^ k" using Suc.prems(2) by (simp add: div_less_iff_less_mult mult.commute)
    ultimately have "length (show_nat (n div 10)) \<le> k" by (rule Suc.IH)
    then show ?thesis using False by (subst show_nat.simps) simp
  qed
qed simp

lemma length_show_u32: "length (show_nat (unat (w :: u32))) \<le> 10"
  using length_show_nat [of 10 "unat w"] unat_u32 [of w] by simp

text \<open>\<open>packet, err := protocol.New...Packet(...); if err != nil { return err }; return s.ControlConn().WritePacket(packet)\<close>.\<close>

definition reply :: "packet result \<Rightarrow> 'a session_scheme \<Rightarrow> goerr option \<times> 'a session_scheme" where
  "reply r s = (case r of Inl e \<Rightarrow> (Some e, s) | Inr p \<Rightarrow> ctl_WritePacket (Some p) s)"

text \<open>\<open>s'\<close> is \<open>s\<close> after exactly the packet \<open>p\<close> was sent on its control stream.\<close>

definition packet_sent :: "packet \<Rightarrow> 'a session_scheme \<Rightarrow> 'b session_scheme \<Rightarrow> bool" where
  "packet_sent p s s' \<longleftrightarrow> can_send s' \<and> sent_frames (ss_mux s') = sent_frames (ss_mux s)
     @ [(writer_id (ss_ctrl s) (ss_mux s), put_u32 (of_nat (length (packet_data p)))),
        (writer_id (ss_ctrl s) (ss_mux s), packet_data p)]"

text \<open>A response the peer's reader accepts and decodes as \<open>x\<close>.\<close>

definition answers :: "'r fields \<Rightarrow> 'r \<Rightarrow> handshake_type \<Rightarrow> 'r \<Rightarrow> packet \<Rightarrow> bool" where
  "answers flds zero ty x p \<longleftrightarrow> packet_ok p \<and> length (packet_data p) \<le> 10485760
     \<and> receive_payload flds zero (Some p) = Inr (ty, x)"

lemma answersD:
  assumes "answers flds zero ty x p"
  shows "\<exists>h. UnmarshalHandshakePacket (Some p) = Inr h \<and> h_type h = ty
    \<and> UnmarshalPayload flds (Some h) (Some zero) = (Some x, None)"
  using assms
  by (auto simp: answers_def receive_payload_def UnmarshalPayload_def split: sum.splits option.splits prod.splits bool.splits)

lemma reply_sent:
  assumes "can_send s" "length (packet_data p) \<le> 10485760"
  shows "\<exists>c. reply (Inr p) s = (None, s\<lparr>ss_mux := (ss_mux s)\<lparr>m_conn := c\<rparr>\<rparr>)
    \<and> packet_sent p s (s\<lparr>ss_mux := (ss_mux s)\<lparr>m_conn := c\<rparr>\<rparr>)"
  using ctl_WritePacket_sends [OF assms] assms(1)
  by (auto simp: reply_def packet_sent_def can_send_def)

lemma reply_same: "reply r s = (e, s') \<Longrightarrow> \<exists>m. s' = s\<lparr>ss_mux := m\<rparr>"
proof -
  assume r: "reply r s = (e, s')"
  have "\<exists>m. s = s\<lparr>ss_mux := m\<rparr>" by (rule exI [of _ "ss_mux s"]) simp
  moreover have "\<exists>m. snd (prwc_WritePacket w p (Some d)) = Some m" for w and p :: "packet option" and d :: mux
    by (auto simp: prwc_WritePacket_def split: prod.splits)
  ultimately show ?thesis
    using r by (auto simp: reply_def ctl_WritePacket_def split: sum.splits prod.splits option.splits)
qed

context message
begin

text \<open>A handler that replies with a message of this type sends it and nothing else.\<close>

lemma reply_message:
  assumes "can_send s" "good x" "length ty \<le> 100" "length (json_text (tj x)) \<le> 100000"
  shows "\<exists>p c. reply (NewHandshakePacket ty (Some (tj x))) s = (None, s\<lparr>ss_mux := (ss_mux s)\<lparr>m_conn := c\<rparr>\<rparr>)
    \<and> packet_sent p s (s\<lparr>ss_mux := (ss_mux s)\<lparr>m_conn := c\<rparr>\<rparr>) \<and> answers flds zero ty x p"
proof -
  obtain p where p: "NewHandshakePacket ty (Some (tj x)) = Inr p" using NewHandshakePacket_Inr by blast
  have small: "length (packet_data p) \<le> 10485760" by (rule small_message [OF p assms(3,4)])
  then have "answers flds zero ty x p"
    using received [OF p assms(2)] NewHandshakePacket_ok [OF p] by (simp add: answers_def)
  then show ?thesis using reply_sent [OF assms(1) small] p by auto
qed

end

section \<open>A data stream for a request\<close>

lemma OpenStreamWithID_new:
  assumes "\<not> m_closed m" "i \<noteq> 0" "streams m i = None"
  shows "\<exists>m'. OpenStreamWithID i m = (Inr (length (objs m)), m') \<and> streams m' = (streams m)(i \<mapsto> length (objs m))
    \<and> objs m' = objs m @ [fresh_stream i] \<and> m_conn m' = m_conn m \<and> m_closed m' = m_closed m"
  using assms by (simp add: OpenStreamWithID_def newStream_def Let_def)

lemma can_send_opened:
  assumes "can_send s" "objs m' = objs (ss_mux s) @ [fresh_stream i]" "m_conn m' = m_conn (ss_mux s)"
    and "m_closed m' = m_closed (ss_mux s)" "ss_mux d = m'" "ss_ctrl d = ss_ctrl s"
  shows "can_send d" "sent_frames (ss_mux d) = sent_frames (ss_mux s)"
    "writer_id (ss_ctrl d) (ss_mux d) = writer_id (ss_ctrl s) (ss_mux s)"
  using assms by (auto simp: can_send_def framed_def sent_frames_def nth_append writer_id_def)

lemma packet_sent_from:
  "packet_sent p d s' \<Longrightarrow> sent_frames (ss_mux d) = sent_frames (ss_mux s) \<Longrightarrow>
   writer_id (ss_ctrl d) (ss_mux d) = writer_id (ss_ctrl s) (ss_mux s) \<Longrightarrow> packet_sent p s s'"
  by (simp add: packet_sent_def)

lemma packet_sent_to: "packet_sent p s d \<Longrightarrow> ss_mux s' = ss_mux d \<Longrightarrow> ss_ctrl s' = ss_ctrl d \<Longrightarrow> packet_sent p s s'"
  by (simp add: packet_sent_def can_send_def)

lemma NextStreamID_session:
  assumes "NextStreamID s = (i, d)"
  shows "ss_mux d = ss_mux s" "ss_ctrl d = ss_ctrl s" "base_server.more d = base_server.more s" "i \<noteq> 0"
  using assms by (auto simp: NextStreamID_def Let_def split: if_splits)

text \<open>
  A server that takes the next number and opens the stream under it can still send, and what it sends then
  it has sent since before.
\<close>

lemma open_next_stream:
  fixes s :: "'a base_server_scheme"
  assumes "can_send s" "NextStreamID s = (n, d)" "streams (ss_mux s) n = None"
  shows "\<exists>m. OpenStreamWithID n (ss_mux d) = (Inr (length (objs (ss_mux s))), m)
    \<and> GetStream n m = Inr (length (objs (ss_mux s))) \<and> can_send (d\<lparr>ss_mux := m\<rparr>)
    \<and> (\<forall>p (s' :: 'a base_server_scheme). packet_sent p (d\<lparr>ss_mux := m\<rparr>) s' \<longrightarrow> packet_sent p s s')"
proof -
  note dd = NextStreamID_session [OF assms(2)]
  have open_mux: "\<not> m_closed (ss_mux s)" using assms(1) by (simp add: can_send_def)
  obtain m where m: "OpenStreamWithID n (ss_mux s) = (Inr (length (objs (ss_mux s))), m)"
      "streams m = (streams (ss_mux s))(n \<mapsto> length (objs (ss_mux s)))" "objs m = objs (ss_mux s) @ [fresh_stream n]"
      "m_conn m = m_conn (ss_mux s)" "m_closed m = m_closed (ss_mux s)"
    using OpenStreamWithID_new [OF open_mux dd(4) assms(3)] by blast
  note cs = can_send_opened [OF assms(1) m(3-5), of "d\<lparr>ss_mux := m\<rparr>"]
  show ?thesis using m(1,2) cs dd by (intro exI [of _ m]) (auto simp: GetStream_def intro: packet_sent_from)
qed

section \<open>Requests and their responses\<close>

text \<open>Build the request packet and send it.\<close>

definition send_request :: "packet result \<Rightarrow> matcher \<Rightarrow> 'a base_client_scheme \<Rightarrow> nat result \<times> 'a base_client_scheme" where
  "send_request r match c = (case r of
      Inl e \<Rightarrow> (Inl (Wrap ''create request'' e), c)
    | Inr p \<Rightarrow> SendRequest_begin (Some p) match c)"

text \<open>The dispatcher has delivered packet \<open>h\<close> to request \<open>a\<close>.\<close>

definition answered :: "nat \<Rightarrow> handshake \<Rightarrow> 'a base_client_scheme \<Rightarrow> 'a base_client_scheme" where
  "answered a h c = c\<lparr>bc_reqs := (bc_reqs c)[a := (bc_reqs c ! a)\<lparr>rq_Response := [\<lparr>rp_packet = Some h, rp_err = None\<rparr>]\<rparr>]\<rparr>"

lemma SendRequest_wait_answered:
  assumes "a < length (bc_reqs c)"
  shows "\<exists>c'. SendRequest_wait False a (answered a h c) = (Done (Some h), c') \<and> ss_mux c' = ss_mux c
    \<and> base_client.more c' = base_client.more c"
  using assms by (simp add: SendRequest_wait_def answered_def)

text \<open>Getting a stream leaves every stream object as it is, and the other identifiers.\<close>

lemma GetOrCreateStream_keeps:
  assumes "GetOrCreateStream i (Some m) = (r, Some m')"
  shows "\<exists>xs. objs m' = objs m @ xs" "j \<noteq> i \<Longrightarrow> streams m' j = streams m j" "m_closed m' = m_closed m"
proof -
  have open': "OpenStreamWithID i m = (x, m1) \<Longrightarrow> (\<exists>xs. objs m1 = objs m @ xs) \<and> (j \<noteq> i \<longrightarrow> streams m1 j = streams m j) \<and> m_closed m1 = m_closed m"
    for x m m1
    by (auto simp: OpenStreamWithID_def newStream_def Let_def split: if_splits)
  have close': "s_closed (objs m ! a) \<Longrightarrow> streams m i = Some a \<Longrightarrow> snd (CloseStream i m) = m\<lparr>streams := (streams m)(i := None)\<rparr>" for a
    by (simp add: CloseStream_def stream_Close_def)
  have "(\<exists>xs. objs m' = objs m @ xs) \<and> (j \<noteq> i \<longrightarrow> streams m' j = streams m j) \<and> m_closed m' = m_closed m"
  proof (cases "i \<noteq> 0 \<and> streams m i \<noteq> None \<and> s_ID (objs m ! the (streams m i)) \<noteq> 0 \<and> s_closed (objs m ! the (streams m i))")
    case True
    then obtain a where a: "streams m i = Some a" "s_closed (objs m ! a)" by auto
    obtain x m1 where m1: "OpenStreamWithID i (m\<lparr>streams := (streams m)(i := None)\<rparr>) = (x, m1)" by force
    then have "m' = m1"
      using assms True a close' [OF a(2,1)]
      by (auto simp: GetOrCreateStream_def GetStream_def stream_IsClosed_def Let_def split: if_splits sum.splits)
    then show ?thesis using open' [OF m1] by simp
  next
    case False
    then show ?thesis
      using assms open' [of m]
      by (auto simp: GetOrCreateStream_def GetStream_def stream_IsClosed_def Let_def split: if_splits sum.splits option.splits prod.splits)
  qed
  then show "\<exists>xs. objs m' = objs m @ xs" "j \<noteq> i \<Longrightarrow> streams m' j = streams m j" "m_closed m' = m_closed m" by auto
qed

end
