(* ===== verification/Proxy_Server.thy ===== *)
theory Proxy_Server
  imports Proxy_Manager Service_Replies
begin

text \<open>
  \<open>p2p/protocols/proxy/service/server.go\<close> and the dispatcher of \<open>handlers.go\<close>.  The server extends
  \<open>base_server\<close> with its manager and the objects the proxies refer to.  \<open>net.Dialer\<close> is the argument
  \<open>dial\<close>.  The goroutine \<open>forward\<close> is a \<open>forwarder\<close> that advances in steps: an attempt of
  \<open>waitForStream\<close>, a round of one of its two copies, and its deferred cleanup.
\<close>

section \<open>State\<close>

text \<open>\<open>FwdWait n\<close>: \<open>n\<close> attempts made; \<open>FwdCopy a out in\<close>: copying with stream \<open>a\<close>, which copies have returned.\<close>

datatype fwd_phase = FwdWait nat | FwdCopy addr bool bool | FwdDone

record forwarder =
  fw_proxy :: paddr
  fw_conn :: nat
  fw_streamID :: u32
  fw_phase :: fwd_phase

record proxy_server = base_server +
  ps_manager :: manager
  ps_conns :: "conn list"
  ps_ctxs :: "bool list"
  ps_objs :: "proxy list"
  ps_forwards :: "forwarder list"

definition server_world :: "proxy_server \<Rightarrow> proxy_world" where
  "server_world s = \<lparr>pw_mux = ss_mux s, pw_conns = ps_conns s, pw_ctxs = ps_ctxs s, pw_objs = ps_objs s\<rparr>"

definition set_world :: "proxy_world \<Rightarrow> proxy_server \<Rightarrow> proxy_server" where
  "set_world w s = s\<lparr>ss_mux := pw_mux w, ps_conns := pw_conns w, ps_ctxs := pw_ctxs w, ps_objs := pw_objs w\<rparr>"

definition ps_NewServer :: "conn option \<Rightarrow> proxy_server option" where
  "ps_NewServer c = (case c of
      None \<Rightarrow> None
    | Some _ \<Rightarrow> (case NewBaseServer c of
          None \<Rightarrow> None
        | Some b \<Rightarrow> Some (base_server.extend b \<lparr>ps_manager = NewManager, ps_conns = [], ps_ctxs = [],
            ps_objs = [], ps_forwards = []\<rparr>)))"

section \<open>Handlers\<close>

definition connectRemote :: "(bytes \<Rightarrow> conn result) \<Rightarrow> bytes \<Rightarrow> bytes \<Rightarrow> conn result" where
  "connectRemote dial addr protocol =
     (if protocol = ''tcp'' then dial addr
      else if protocol = ''udp'' then Inl (Err ''UDP not supported'')
      else Inl (Err (''unsupported protocol: '' @ protocol)))"

definition ps_sendSuccess :: "bytes \<Rightarrow> u32 \<Rightarrow> proxy_server \<Rightarrow> goerr option \<times> proxy_server" where
  "ps_sendSuccess proxyID streamID s = reply (NewProxyOpenedPacket proxyID True streamID []) s"

definition ps_sendError :: "bytes \<Rightarrow> bytes \<Rightarrow> proxy_server \<Rightarrow> goerr option \<times> proxy_server" where
  "ps_sendError proxyID msg s = reply (NewProxyOpenedPacket proxyID False 0 msg) s"

text \<open>The end of \<open>handleOpen\<close>: register the proxy, note its remote connection, start the forwarder.\<close>

definition open_proxy :: "bytes \<Rightarrow> bytes \<Rightarrow> bytes \<Rightarrow> nat \<Rightarrow> u32 \<Rightarrow> proxy_server \<Rightarrow> goerr option \<times> proxy_server" where
  "open_proxy proxyID remoteAddr protocol k streamID s =
     (case AddProxy proxyID remoteAddr protocol None (Some (ps_manager s)) (server_world s) of
       (p, mg, w) \<Rightarrow>
         (let w = (case p of None \<Rightarrow> w | Some a \<Rightarrow> upd_proxy a (\<lambda>x. x\<lparr>px_remoteConn := Some k\<rparr>) w);
              s = set_world w s;
              s = (case mg of None \<Rightarrow> s | Some mg \<Rightarrow> s\<lparr>ps_manager := mg\<rparr>)
          in (None, case p of None \<Rightarrow> s
             | Some a \<Rightarrow> s\<lparr>ps_forwards := ps_forwards s
                 @ [\<lparr>fw_proxy = a, fw_conn = k, fw_streamID = streamID, fw_phase = FwdWait 0\<rparr>]\<rparr>)))"

definition ps_handleOpen :: "(bytes \<Rightarrow> conn result) \<Rightarrow> handshake \<Rightarrow> proxy_server \<Rightarrow> goerr option \<times> proxy_server" where
  "ps_handleOpen dial h s =
     (case UnmarshalPayload proxy_open_request_fields (Some h) (Some no_proxy_open_request) of
       (r, err) \<Rightarrow>
        (let r = (case r of None \<Rightarrow> no_proxy_open_request | Some r \<Rightarrow> r); proxyID = po_proxy_id r in
         (case err of Some e \<Rightarrow> ps_sendError proxyID (''invalid request: '' @ err_text e) s | None \<Rightarrow>
          if proxyID = [] then ps_sendError [] ''proxy ID required'' s
          else if po_remote_addr r = [] then ps_sendError proxyID ''remote address required'' s
          else
            (let protocol = (if po_protocol r = [] then ''tcp'' else po_protocol r) in
             (case connectRemote dial (po_remote_addr r) protocol of
                Inl e \<Rightarrow> ps_sendError proxyID (''connect failed: '' @ err_text e) s
              | Inr c \<Rightarrow>
                  (let k = length (ps_conns s); s = s\<lparr>ps_conns := ps_conns s @ [c]\<rparr> in
                   (case NextStreamID s of (streamID, s) \<Rightarrow>
                    (case OpenStreamWithID streamID (ss_mux s) of
                       (Inl e, m) \<Rightarrow> ps_sendError proxyID (''allocate stream: '' @ err_text e) (s\<lparr>ss_mux := m\<rparr>)
                     | (Inr _, m) \<Rightarrow>
                        (case ps_sendSuccess proxyID streamID (s\<lparr>ss_mux := m\<rparr>) of
                           (Some e, s) \<Rightarrow> (Some e, set_world (snd (close_conn k (server_world s))) s)
                         | (None, s) \<Rightarrow> open_proxy proxyID (po_remote_addr r) protocol k streamID s)))))))))"

definition ps_handleClose :: "handshake \<Rightarrow> proxy_server \<Rightarrow> goerr option \<times> proxy_server" where
  "ps_handleClose h s =
     (case UnmarshalPayload proxy_close_request_fields (Some h) (Some no_proxy_close_request) of
       (_, Some e) \<Rightarrow> (Some (Wrap ''invalid request'' e), s)
     | (r, None) \<Rightarrow>
        (let proxyID = (case r of None \<Rightarrow> [] | Some r \<Rightarrow> pc_proxy_id r) in
         if proxyID = [] then reply (NewProxyClosedPacket [] False ''proxy ID required'') s
         else
           (let w = (case GetProxy proxyID (Some (ps_manager s)) of
                  None \<Rightarrow> server_world s
                | Some a \<Rightarrow> snd (proxy_Close (Some a) (SetStatus ProxyStatusClosing (Some a) (server_world s))))
            in (case RemoveProxy proxyID (Some (ps_manager s)) w of
               (mg, w) \<Rightarrow>
                 (let s = set_world w s; s = (case mg of None \<Rightarrow> s | Some mg \<Rightarrow> s\<lparr>ps_manager := mg\<rparr>)
                  in reply (NewProxyClosedPacket proxyID True []) s)))))"

definition ps_handleList :: "bytes list \<Rightarrow> handshake \<Rightarrow> proxy_server \<Rightarrow> goerr option \<times> proxy_server" where
  "ps_handleList ks h s =
     (let infos = map (\<lambda>a. ToProtocolProxyInfo a (server_world s)) (ListProxies ks (Some (ps_manager s)))
      in reply (NewProxyListResponsePacket (Some infos)) s)"

text \<open>\<open>Dispatch\<close>; \<open>ks\<close> is the order in which a listing visits the manager's map.\<close>

definition ps_Dispatch :: "bytes list \<Rightarrow> (bytes \<Rightarrow> conn result) \<Rightarrow> handshake option \<Rightarrow> proxy_server
    \<Rightarrow> goerr option \<times> proxy_server" where
  "ps_Dispatch ks dial h s = (case h of
      None \<Rightarrow> (Some (Err ''nil handshake packet''), s)
    | Some h \<Rightarrow>
        if h_type h = HandshakeTypeProxyOpen then ps_handleOpen dial h s
        else if h_type h = HandshakeTypeProxyClose then ps_handleClose h s
        else if h_type h = HandshakeTypeProxyList then ps_handleList ks h s
        else (Some (Err (''unknown type: '' @ h_type h)), s))"

section \<open>The server\<close>

definition ps_Accept :: "bool \<Rightarrow> proxy_server option \<Rightarrow> unit rres \<times> proxy_server option" where
  "ps_Accept timeout s = (case s of
      None \<Rightarrow> (Fail (Err ''server is nil''), None)
    | Some _ \<Rightarrow> Accept timeout (Some proxyHandshakeHandler) s)"

definition ps_Serve :: "nat \<Rightarrow> bool \<Rightarrow> bytes list \<Rightarrow> (bytes \<Rightarrow> conn result) \<Rightarrow> proxy_server option
    \<Rightarrow> unit rres \<times> proxy_server option" where
  "ps_Serve k cancelled ks dial s = (case s of
      None \<Rightarrow> (Fail (Err ''server is nil''), None)
    | Some s \<Rightarrow> (case Serve k cancelled (Some (\<lambda>h. ps_Dispatch ks dial (Some h))) s of (r, s) \<Rightarrow> (r, Some s)))"

definition ps_Get :: "bytes \<Rightarrow> proxy_server option \<Rightarrow> paddr option" where
  "ps_Get proxyID s = (case s of None \<Rightarrow> None | Some s \<Rightarrow> GetProxy proxyID (Some (ps_manager s)))"

definition ps_Count :: "proxy_server option \<Rightarrow> nat" where
  "ps_Count s = (case s of None \<Rightarrow> 0 | Some s \<Rightarrow> mg_Count (Some (ps_manager s)))"

definition ps_ClientID :: "proxy_server option \<Rightarrow> bytes" where
  "ps_ClientID s = (case s of None \<Rightarrow> [] | Some s \<Rightarrow> bs_ClientID (Some s))"

definition ps_Close :: "bytes list \<Rightarrow> addr list \<Rightarrow> proxy_server option \<Rightarrow> goerr option \<times> proxy_server option" where
  "ps_Close ks as s = (case s of
      None \<Rightarrow> (None, None)
    | Some s \<Rightarrow> (case mg_CloseAll ks (Some (ps_manager s)) (server_world s) of
        (mg, w) \<Rightarrow>
          (let s = set_world w s; s = (case mg of None \<Rightarrow> s | Some mg \<Rightarrow> s\<lparr>ps_manager := mg\<rparr>)
           in bs_Close as (Some s))))"

section \<open>Forwarding\<close>

definition set_phase :: "nat \<Rightarrow> fwd_phase \<Rightarrow> proxy_server \<Rightarrow> proxy_server" where
  "set_phase f ph s = s\<lparr>ps_forwards := (ps_forwards s)[f := (ps_forwards s ! f)\<lparr>fw_phase := ph\<rparr>]\<rparr>"

definition maxAttempts :: nat where "maxAttempts = 30"

text \<open>An attempt of \<open>waitForStream\<close> after \<open>n\<close> failed ones.\<close>

datatype waited = Found addr | Again | GaveUp

definition waitForStream :: "nat \<Rightarrow> u32 \<Rightarrow> mux \<Rightarrow> waited" where
  "waitForStream n streamID m =
     (if n < maxAttempts
      then (case GetStream streamID m of Inr a \<Rightarrow> Found a | Inl _ \<Rightarrow> Again)
      else GaveUp)"

text \<open>\<open>forward\<close> while it waits, and the start of the copies or the cleanup after the last failure.\<close>

definition forward_wait :: "nat \<Rightarrow> proxy_server \<Rightarrow> proxy_server" where
  "forward_wait f s = (let fw = ps_forwards s ! f; p = Some (fw_proxy fw) in
     (case fw_phase fw of
        FwdWait n \<Rightarrow>
          (case waitForStream n (fw_streamID fw) (ss_mux s) of
             Again \<Rightarrow> set_phase f (FwdWait (n + 1)) s
           | Found a \<Rightarrow>
              (let w = upd_proxy (fw_proxy fw) (\<lambda>x. x\<lparr>px_Stream := Some a\<rparr>) (server_world s);
                   k = length (pw_ctxs w); w = w\<lparr>pw_ctxs := pw_ctxs w @ [False]\<rparr>
               in set_phase f (FwdCopy a False False) (set_world (setForwardCancel (Some k) p w) s))
           | GaveUp \<Rightarrow>
              set_phase f FwdDone
                (set_world (SetStatus ProxyStatusClosed p (snd (close_conn (fw_conn fw) (server_world s)))) s))
      | _ \<Rightarrow> s))"

text \<open>A round of \<open>io.Copy(stream, remoteConn)\<close>.\<close>

definition forward_out :: "nat \<Rightarrow> proxy_server \<Rightarrow> proxy_server" where
  "forward_out f s = (let fw = ps_forwards s ! f; k = fw_conn fw in
     (case fw_phase fw of
        FwdCopy a False din \<Rightarrow>
          (case copy_round conn_read (stream_Write a) (ps_conns s ! k, ss_mux s) of
            (r, c, m) \<Rightarrow>
              (let s = s\<lparr>ss_mux := m, ps_conns := (ps_conns s)[k := c]\<rparr> in
               (case r of CopyEnd _ \<Rightarrow> set_phase f (FwdCopy a True din) s | _ \<Rightarrow> s)))
      | _ \<Rightarrow> s))"

text \<open>A round of \<open>io.Copy(remoteConn, stream)\<close>.\<close>

definition forward_in :: "nat \<Rightarrow> proxy_server \<Rightarrow> proxy_server" where
  "forward_in f s = (let fw = ps_forwards s ! f; k = fw_conn fw in
     (case fw_phase fw of
        FwdCopy a dout False \<Rightarrow>
          (case copy_round (stream_Read a) conn_write (ss_mux s, ps_conns s ! k) of
            (r, m, c) \<Rightarrow>
              (let s = s\<lparr>ss_mux := m, ps_conns := (ps_conns s)[k := c]\<rparr> in
               (case r of CopyEnd _ \<Rightarrow> set_phase f (FwdCopy a dout True) s | _ \<Rightarrow> s)))
      | _ \<Rightarrow> s))"

text \<open>The deferred calls, once both copies have returned.\<close>

definition forward_finish :: "nat \<Rightarrow> proxy_server \<Rightarrow> proxy_server" where
  "forward_finish f s = (let fw = ps_forwards s ! f; p = Some (fw_proxy fw) in
     (case fw_phase fw of
        FwdCopy a True True \<Rightarrow>
          (let w = SetStatus ProxyStatusClosed p (server_world s);
               w = snd (close_conn (fw_conn fw) w);
               w = w\<lparr>pw_mux := snd (stream_Close a (pw_mux w))\<rparr>;
               w = w\<lparr>pw_mux := snd (CloseStream (fw_streamID fw) (pw_mux w))\<rparr>
           in set_phase f FwdDone (set_world (cancelForwarding p w) s))
      | _ \<Rightarrow> s))"


section \<open>Opening\<close>

lemma NextStreamID_simps:
  "ss_mux (snd (NextStreamID s)) = ss_mux s" "ss_ctrl (snd (NextStreamID s)) = ss_ctrl s"
  "base_server.more (snd (NextStreamID s)) = base_server.more s"
  "bs_streamIDCounter s \<noteq> 0 \<Longrightarrow> fst (NextStreamID s) = bs_streamIDCounter s"
  by (auto simp: NextStreamID_def Let_def)

lemma more_fields:
  "base_server.more s' = base_server.more s \<Longrightarrow>
    ps_manager s' = ps_manager s \<and> ps_conns s' = ps_conns s \<and> ps_ctxs s' = ps_ctxs s \<and> ps_objs s' = ps_objs s
    \<and> ps_forwards s' = ps_forwards s"
  by (cases s; cases s') simp

lemma opened_json_small:
  assumes "length i \<le> 10000" "length e \<le> 5000"
  shows "length (json_text (proxy_open_response_to_json
    \<lparr>por_proxy_id = i, por_success = b, por_error = e, por_stream_id = n\<rparr>)) \<le> 100000"
  using assms length_json_quote [of i] length_json_quote [of e] length_show_u32 [of n]
  by (simp add: proxy_open_response_to_json_def struct_simps(1-3) jnat_def)
    (simp add: json_quote_def json_esc.simps esc_ascii_def)


lemma opened_reply:
  assumes "can_send s" "valid_utf8 i" "valid_utf8 e" "length i \<le> 10000" "length e \<le> 5000"
  shows "\<exists>p c. reply (NewProxyOpenedPacket i b n e) s = (None, s\<lparr>ss_mux := (ss_mux s)\<lparr>m_conn := c\<rparr>\<rparr>)
    \<and> packet_sent p s (s\<lparr>ss_mux := (ss_mux s)\<lparr>m_conn := c\<rparr>\<rparr>)
    \<and> answers proxy_open_response_fields no_proxy_open_response HandshakeTypeProxyOpened
        \<lparr>por_proxy_id = i, por_success = b, por_error = e, por_stream_id = n\<rparr> p"
  using proxy_opened.reply_message [OF assms(1), of "\<lparr>por_proxy_id = i, por_success = b, por_error = e, por_stream_id = n\<rparr>"]
    opened_json_small [OF assms(4,5)] assms(2,3)
  by (simp add: NewProxyOpenedPacket_def proxy_open_response_ok_def HandshakeTypeProxyOpened_def)

lemma NextStreamID_more:
  assumes "NextStreamID s = (i, d)"
  shows "ss_mux d = ss_mux s" "ss_ctrl d = ss_ctrl s" "ps_manager d = ps_manager s" "ps_conns d = ps_conns s"
    "ps_ctxs d = ps_ctxs s" "ps_objs d = ps_objs s" "ps_forwards d = ps_forwards s" "i \<noteq> 0"
  using assms by (auto simp: NextStreamID_def Let_def split: if_splits)

lemma open_proxy_new:
  assumes "i \<noteq> []" "mg_proxies (ps_manager s) i = None"
  shows "\<exists>s'. open_proxy i ra pr k n s = (None, s') \<and> ss_mux s' = ss_mux s \<and> ss_ctrl s' = ss_ctrl s \<and> ps_conns s' = ps_conns s
    \<and> ps_Get i (Some s') = Some (length (ps_objs s))
    \<and> ps_objs s' = ps_objs s @ [\<lparr>px_ID = i, px_RemoteAddr = ra, px_Protocol = pr, px_Stream = None,
         px_status = ProxyStatusActive, px_remoteConn = Some k, px_forwardCancel = None\<rparr>]
    \<and> ps_forwards s' = ps_forwards s
        @ [\<lparr>fw_proxy = length (ps_objs s), fw_conn = k, fw_streamID = n, fw_phase = FwdWait 0\<rparr>]"
  using assms
  by (simp add: open_proxy_def AddProxy_def Let_def server_world_def set_world_def upd_proxy_def ps_Get_def GetProxy_def)

text \<open>A server as its constructor makes it, and a request for it.\<close>

definition sample_server :: proxy_server where
  "sample_server = \<lparr>ss_mux = \<lparr>m_conn = conn_of [], objs = [fresh_stream 0], streams = [0 \<mapsto> 0], nextID = 1,
     m_closed = False, readErr = None\<rparr>, ss_ctrl = 0, ss_control = NewControlPlane True, bs_clientID = [],
     bs_handshakeDone = False, bs_streamIDCounter = 0, ps_manager = NewManager, ps_conns = [], ps_ctxs = [],
     ps_objs = [], ps_forwards = []\<rparr>"

lemma sample_server_new: "ps_NewServer (Some (conn_of [])) = Some sample_server"
  by (simp add: ps_NewServer_def NewBaseServer_def new_session_def NewMultiplexer_def ControlStream_def newStream_def
      sample_server_def session.defs base_server.defs)

lemma sample_server_sends: "can_send sample_server"
  by (rule fresh_can_send(1) [of "conn_of []"])
    (simp_all add: fresh_session_def sample_server_def conn_of_def writable_def)

definition open_handshake :: "bytes \<Rightarrow> bytes \<Rightarrow> bytes \<Rightarrow> handshake" where
  "open_handshake i ra pr = \<lparr>h_type = HandshakeTypeProxyOpen, h_payload = Some (proxy_open_request_to_json
     \<lparr>po_proxy_id = i, po_remote_addr = ra, po_protocol = pr\<rparr>)\<rparr>"

lemma open_handshake_payload:
  assumes "valid_utf8 i" "valid_utf8 ra" "valid_utf8 pr"
  shows "UnmarshalPayload proxy_open_request_fields (Some (open_handshake i ra pr)) (Some no_proxy_open_request)
    = (Some \<lparr>po_proxy_id = i, po_remote_addr = ra, po_protocol = pr\<rparr>, None)"
  using proxy_open_request_msg.decode [of "\<lparr>po_proxy_id = i, po_remote_addr = ra, po_protocol = pr\<rparr>"] assms
  by (simp add: open_handshake_def UnmarshalPayload_def proxy_open_request_ok_def)

section \<open>Copying\<close>

text \<open>A forwarder that is copying with stream \<open>a\<close>.\<close>

definition copying :: "nat \<Rightarrow> addr \<Rightarrow> bool \<Rightarrow> bool \<Rightarrow> proxy_server \<Rightarrow> bool" where
  "copying f a dout din s \<longleftrightarrow> f < length (ps_forwards s) \<and> fw_phase (ps_forwards s ! f) = FwdCopy a dout din
     \<and> fw_conn (ps_forwards s ! f) < length (ps_conns s)"

definition remote_of :: "nat \<Rightarrow> proxy_server \<Rightarrow> conn" where
  "remote_of f s = ps_conns s ! fw_conn (ps_forwards s ! f)"

lemma forward_out_step:
  assumes "copying f a False din s" "copy_round conn_read (stream_Write a) (remote_of f s, ss_mux s) = (r, c, m)"
  shows "copying f a (case r of CopyEnd _ \<Rightarrow> True | _ \<Rightarrow> False) din (forward_out f s)"
    "remote_of f (forward_out f s) = c" "ss_mux (forward_out f s) = m"
  using assms
  by (cases r; simp add: copying_def remote_of_def forward_out_def set_phase_def Let_def)+

lemma forward_in_step:
  assumes "copying f a dout False s" "copy_round (stream_Read a) conn_write (ss_mux s, remote_of f s) = (r, m, c)"
  shows "copying f a dout (case r of CopyEnd _ \<Rightarrow> True | _ \<Rightarrow> False) (forward_in f s)"
    "remote_of f (forward_in f s) = c" "ss_mux (forward_in f s) = m"
  using assms
  by (cases r; simp add: copying_def remote_of_def forward_in_def set_phase_def Let_def)+

lemma CloseStream_streams: "streams (snd (CloseStream i m)) = (streams m)(i := None)"
proof (cases "streams m i")
  case (Some a)
  then show ?thesis
    using stream_Close_cases [of "m\<lparr>streams := (streams m)(i := None)\<rparr>" a] by (auto simp: CloseStream_def)
qed (auto simp: CloseStream_def)

lemma forward_out_done: "copying f a True din s \<Longrightarrow> (forward_out f ^^ n) s = s"
  by (induction n) (simp_all add: copying_def forward_out_def Let_def)

lemma forward_in_done: "copying f a dout True s \<Longrightarrow> (forward_in f ^^ n) s = s"
  by (induction n) (simp_all add: copying_def forward_in_def Let_def)

lemma forward_out_all:
  "copying f a False din s \<Longrightarrow> conn_live (remote_of f s) \<Longrightarrow> fin (remote_of f s) = Some EOF \<Longrightarrow> framed (ss_mux s) \<Longrightarrow>
   (\<And>b. length b \<le> copyBuf \<Longrightarrow> stream_accepts a b (ss_mux s)) \<Longrightarrow> length (conn_pending (remote_of f s)) < n \<Longrightarrow>
   copying f a True din ((forward_out f ^^ n) s)
   \<and> stream_sent a (ss_mux ((forward_out f ^^ n) s)) = stream_sent a (ss_mux s) @ conn_pending (remote_of f s)"
proof (induction n arbitrary: s)
  case (Suc n)
  show ?case
  proof (cases "conn_pending (remote_of f s) = []")
    case True
    then obtain c where "conn_read copyBuf (remote_of f s) = (RdErr EOF, c)"
      using conn_stream.ended_eof [OF Suc.prems(2,3), of copyBuf] by (auto simp: copyBuf_def)
    then have "copy_round conn_read (stream_Write a) (remote_of f s, ss_mux s) = (CopyEnd None, c, ss_mux s)"
      by (simp add: copy_round_def)
    from forward_out_step [OF Suc.prems(1) this] True show ?thesis
      by (simp add: funpow_Suc_right forward_out_done del: funpow.simps)
  next
    case False
    obtain b c m where r: "copy_round conn_read (stream_Write a) (remote_of f s, ss_mux s) = (CopyNext, c, m)" "b \<noteq> []"
        "conn_pending (remote_of f s) = b @ conn_pending c" "conn_live c" "fin c = Some EOF"
        "stream_sent a m = stream_sent a (ss_mux s) @ b" "framed m" "\<forall>b. length b \<le> copyBuf \<longrightarrow> stream_accepts a b m"
      using conn_to_stream.copy_round_data [OF Suc.prems(2) False Suc.prems(4,5)] Suc.prems(3) by blast
    note step = forward_out_step [OF Suc.prems(1) r(1)]
    have "length (conn_pending c) < n" using r(2,3) Suc.prems(6) by (cases b) auto
    then show ?thesis
      using Suc.IH [of "forward_out f s"] step r
      by (simp add: funpow_Suc_right del: funpow.simps)
  qed
qed simp

lemma forward_in_all:
  "copying f a dout False s \<Longrightarrow> a < length (objs (ss_mux s)) \<Longrightarrow> stream_ended a (ss_mux s) \<Longrightarrow> conn_steady (remote_of f s) \<Longrightarrow>
   length (stream_pending a (ss_mux s)) < n \<Longrightarrow>
   copying f a dout True ((forward_in f ^^ n) s)
   \<and> sent (remote_of f ((forward_in f ^^ n) s)) = sent (remote_of f s) @ stream_pending a (ss_mux s)"
proof (induction n arbitrary: s)
  case (Suc n)
  show ?case
  proof (cases "stream_pending a (ss_mux s) = []")
    case True
    then obtain m where "stream_Read a copyBuf (ss_mux s) = (RdErr EOF, m)"
      using stream_src.ended_eof [OF Suc.prems(2,3), of copyBuf] by (auto simp: copyBuf_def)
    then have "copy_round (stream_Read a) conn_write (ss_mux s, remote_of f s) = (CopyEnd None, m, remote_of f s)"
      by (simp add: copy_round_def)
    from forward_in_step [OF Suc.prems(1) this] True show ?thesis
      by (simp add: funpow_Suc_right forward_in_done del: funpow.simps)
  next
    case False
    obtain b c m where r: "copy_round (stream_Read a) conn_write (ss_mux s, remote_of f s) = (CopyNext, m, c)" "b \<noteq> []"
        "stream_pending a (ss_mux s) = b @ stream_pending a m" "a < length (objs m)" "stream_ended a m"
        "sent c = sent (remote_of f s) @ b" "conn_steady c"
      using stream_to_conn.copy_round_data [OF Suc.prems(2) False Suc.prems(4,4)] Suc.prems(3) by blast
    note step = forward_in_step [OF Suc.prems(1) r(1)]
    have "length (stream_pending a m) < n" using r(2,3) Suc.prems(5) by (cases b) auto
    then show ?thesis
      using Suc.IH [of "forward_in f s"] step r
      by (simp add: funpow_Suc_right del: funpow.simps)
  qed
qed simp

text \<open>
  A valid request whose address can be dialled is answered with exactly one success message, and the
  stream it names is open at the server, the proxy is registered with the dialled connection and a
  forwarder between the two has been started.
\<close>

lemma handleOpen_ok:
  assumes "can_send s" "ps_Get (po_proxy_id r) (Some s) = None"
    and "UnmarshalPayload proxy_open_request_fields (Some h) (Some no_proxy_open_request) = (Some r, None)"
    and "po_proxy_id r \<noteq> []" "valid_utf8 (po_proxy_id r)" "length (po_proxy_id r) \<le> 10000"
    and "po_remote_addr r \<noteq> []" "po_protocol r \<in> {[], ''tcp''}" "dial (po_remote_addr r) = Inr c"
    and "fst (NextStreamID s) = n" "streams (ss_mux s) n = None"
  shows "\<exists>s' p a. ps_handleOpen dial h s = (None, s') \<and> packet_sent p s s'
    \<and> answers proxy_open_response_fields no_proxy_open_response HandshakeTypeProxyOpened
        \<lparr>por_proxy_id = po_proxy_id r, por_success = True, por_error = [], por_stream_id = n\<rparr> p
    \<and> GetStream n (ss_mux s') = Inr (length (objs (ss_mux s))) \<and> ps_Get (po_proxy_id r) (Some s') = Some a
    \<and> ps_conns s' = ps_conns s @ [c] \<and> px_remoteConn (ps_objs s' ! a) = Some (length (ps_conns s))
    \<and> ps_forwards s' = ps_forwards s
        @ [\<lparr>fw_proxy = a, fw_conn = length (ps_conns s), fw_streamID = n, fw_phase = FwdWait 0\<rparr>]"
proof -
  let ?k = "length (ps_conns s)" and ?i = "po_proxy_id r"
  obtain d where d: "NextStreamID (s\<lparr>ps_conns := ps_conns s @ [c]\<rparr>) = (n, d)"
    using assms(10) by (cases "NextStreamID (s\<lparr>ps_conns := ps_conns s @ [c]\<rparr>)") (auto simp: NextStreamID_def Let_def)
  note dd = NextStreamID_more [OF d]
  have open_mux: "\<not> m_closed (ss_mux s)" using assms(1) by (simp add: can_send_def)
  obtain m where m: "OpenStreamWithID n (ss_mux s) = (Inr (length (objs (ss_mux s))), m)"
      "streams m = (streams (ss_mux s))(n \<mapsto> length (objs (ss_mux s)))" "objs m = objs (ss_mux s) @ [fresh_stream n]"
      "m_conn m = m_conn (ss_mux s)" "m_closed m = m_closed (ss_mux s)"
    using OpenStreamWithID_new [OF open_mux dd(8) assms(11)] by blast
  let ?d = "d\<lparr>ss_mux := m\<rparr>"
  note cs = can_send_opened [OF assms(1) m(3-5), of ?d]
  obtain p k where p: "reply (NewProxyOpenedPacket ?i True n []) ?d = (None, ?d\<lparr>ss_mux := m\<lparr>m_conn := k\<rparr>\<rparr>)"
      "packet_sent p ?d (?d\<lparr>ss_mux := m\<lparr>m_conn := k\<rparr>\<rparr>)"
      "answers proxy_open_response_fields no_proxy_open_response HandshakeTypeProxyOpened
        \<lparr>por_proxy_id = ?i, por_success = True, por_error = [], por_stream_id = n\<rparr> p"
    using opened_reply [of ?d ?i "[]" True n] cs(1) dd assms(5,6) by (auto simp: valid_utf8_ascii)
  let ?e = "?d\<lparr>ss_mux := m\<lparr>m_conn := k\<rparr>\<rparr>"
  have free: "mg_proxies (ps_manager ?e) ?i = None"
    using assms(2,4) dd by (simp add: ps_Get_def GetProxy_def)
  obtain s' where s': "open_proxy ?i (po_remote_addr r) ''tcp'' ?k n ?e = (None, s')" "ss_mux s' = ss_mux ?e"
      "ss_ctrl s' = ss_ctrl ?e" "ps_conns s' = ps_conns ?e" "ps_Get ?i (Some s') = Some (length (ps_objs ?e))"
      "ps_objs s' = ps_objs ?e @ [\<lparr>px_ID = ?i, px_RemoteAddr = po_remote_addr r, px_Protocol = ''tcp'', px_Stream = None,
         px_status = ProxyStatusActive, px_remoteConn = Some ?k, px_forwardCancel = None\<rparr>]"
      "ps_forwards s' = ps_forwards ?e
        @ [\<lparr>fw_proxy = length (ps_objs ?e), fw_conn = ?k, fw_streamID = n, fw_phase = FwdWait 0\<rparr>]"
    using open_proxy_new [OF assms(4) free] by blast
  have "ps_handleOpen dial h s = (None, s')"
    using assms(3,4,7,8,9) d dd(1) m(1) p(1) s'(1)
    by (auto simp: ps_handleOpen_def connectRemote_def ps_sendSuccess_def Let_def)
  moreover have "packet_sent p s s'"
    by (rule packet_sent_to [OF packet_sent_from [OF p(2)]]) (use cs(2,3) dd s'(2,3) in simp_all)
  ultimately show ?thesis
    using p(3) s' m(2) dd by (intro exI [of _ s'] exI [of _ p]) (simp add: GetStream_def)
qed


section \<open>Properties\<close>

text \<open>
  A request without a proxy identifier or an address, or whose address cannot be reached, is answered
  with exactly one failure message; nothing else of the server changes.
\<close>

theorem handleOpen_rejects:
  assumes "can_send s" "UnmarshalPayload proxy_open_request_fields (Some h) (Some no_proxy_open_request) = (Some r, None)"
    and "valid_utf8 (po_proxy_id r)" "length (po_proxy_id r) \<le> 10000"
    and "po_proxy_id r = [] \<or> po_remote_addr r = []
      \<or> connectRemote dial (po_remote_addr r) (if po_protocol r = [] then ''tcp'' else po_protocol r) = Inl e"
    and "valid_utf8 (err_text e)" "length (err_text e) \<le> 1000"
  shows "\<exists>c p x. ps_handleOpen dial h s = (None, s\<lparr>ss_mux := (ss_mux s)\<lparr>m_conn := c\<rparr>\<rparr>)
    \<and> packet_sent p s (s\<lparr>ss_mux := (ss_mux s)\<lparr>m_conn := c\<rparr>\<rparr>)
    \<and> answers proxy_open_response_fields no_proxy_open_response HandshakeTypeProxyOpened x p
    \<and> por_proxy_id x = po_proxy_id r \<and> \<not> por_success x"
proof -
  let ?pr = "if po_protocol r = [] then ''tcp'' else po_protocol r"
  let ?msg = "if po_proxy_id r = [] then ''proxy ID required'' else if po_remote_addr r = [] then ''remote address required''
    else ''connect failed: '' @ err_text e"
  have "ps_handleOpen dial h s = ps_sendError (po_proxy_id r) ?msg s"
    using assms(2,5) by (auto simp: ps_handleOpen_def Let_def)
  moreover have "valid_utf8 ?msg" "length ?msg \<le> 5000"
    using assms(6,7) valid_utf8_prefix [of "''connect failed: ''" "err_text e"] by (simp_all add: valid_utf8_ascii)
  ultimately show ?thesis
    using opened_reply [OF assms(1,3) _ assms(4), of ?msg False 0] by (fastforce simp: ps_sendError_def)
qed

theorem handleOpen_rejects_witness:
  "\<exists>c x p. ps_handleOpen (\<lambda>_. Inl (Err ''refused'')) (open_handshake ''p1'' ''host:80'' []) sample_server
      = (None, sample_server\<lparr>ss_mux := (ss_mux sample_server)\<lparr>m_conn := c\<rparr>\<rparr>)
    \<and> answers proxy_open_response_fields no_proxy_open_response HandshakeTypeProxyOpened x p
    \<and> por_proxy_id x = ''p1'' \<and> \<not> por_success x"
  using handleOpen_rejects [OF sample_server_sends open_handshake_payload, of "''p1''" "''host:80''" "[]"
      "\<lambda>_. Inl (Err ''refused'')" "Err ''refused''"]
  by (fastforce simp: valid_utf8_ascii connectRemote_def)

text \<open>
  When the identifier the server chose is already in use, because the client has opened it, the
  request fails but the dialled connection stays open, and no proxy refers to it.
\<close>

theorem handleOpen_leaks_connection:
  assumes "can_send s" "UnmarshalPayload proxy_open_request_fields (Some h) (Some no_proxy_open_request) = (Some r, None)"
    and "po_proxy_id r \<noteq> []" "po_remote_addr r \<noteq> []" "po_protocol r \<in> {[], ''tcp''}" "dial (po_remote_addr r) = Inr c"
    and "streams (ss_mux s) (fst (NextStreamID s)) \<noteq> None" "ps_handleOpen dial h s = (e, s')"
  shows "ps_conns s' = ps_conns s @ [c] \<and> ps_manager s' = ps_manager s \<and> ps_objs s' = ps_objs s
    \<and> ps_forwards s' = ps_forwards s"
proof -
  obtain n d where d: "NextStreamID (s\<lparr>ps_conns := ps_conns s @ [c]\<rparr>) = (n, d)" by force
  note dd = NextStreamID_more [OF d]
  have "fst (NextStreamID s) = n" using d by (auto simp: NextStreamID_def Let_def split: if_splits)
  then obtain er m where m: "OpenStreamWithID n (ss_mux s) = (Inl er, m)"
    using assms(7) by (cases "OpenStreamWithID n (ss_mux s)") (auto simp: OpenStreamWithID_def split: if_splits)
  have "ps_sendError (po_proxy_id r) (''allocate stream: '' @ err_text er) (d\<lparr>ss_mux := m\<rparr>) = (e, s')"
    using assms(2-6,8) d dd(1) m by (auto simp: ps_handleOpen_def connectRemote_def Let_def)
  then obtain m' where "s' = d\<lparr>ss_mux := m'\<rparr>"
    using reply_same by (fastforce simp: ps_sendError_def)
  then show ?thesis using dd by simp
qed

definition taken_server :: proxy_server where
  "taken_server = sample_server\<lparr>bs_streamIDCounter := 1, ss_mux := (ss_mux sample_server)\<lparr>streams := [0 \<mapsto> 0, 1 \<mapsto> 0]\<rparr>\<rparr>"

theorem handleOpen_leaks_connection_witness:
  "ps_conns (snd (ps_handleOpen (\<lambda>_. Inr (conn_of [''hi''])) (open_handshake ''p1'' ''host:80'' []) taken_server))
      = [conn_of [''hi'']]
    \<and> ps_manager (snd (ps_handleOpen (\<lambda>_. Inr (conn_of [''hi''])) (open_handshake ''p1'' ''host:80'' []) taken_server))
      = NewManager"
proof -
  have "can_send taken_server"
    using sample_server_sends by (simp add: taken_server_def can_send_def framed_def sent_frames_def)
  from handleOpen_leaks_connection [OF this open_handshake_payload _ _ _ _ _ prod.collapse [symmetric],
      of "''p1''" "''host:80''" "[]" "\<lambda>_. Inr (conn_of [''hi''])" "conn_of [''hi'']"]
  show ?thesis
    by (simp add: taken_server_def sample_server_def valid_utf8_ascii NextStreamID_def Let_def)
qed



definition copying_server :: proxy_server where
  "copying_server = sample_server\<lparr>ss_mux := sample_mux\<lparr>objs := [(fresh_stream 1)\<lparr>s_reader := (newStreamReader 1)\<lparr>dataChan := [''yes'', []]\<rparr>\<rparr>]\<rparr>,
     ps_conns := [conn_of [''ab'', ''c'']],
     ps_forwards := [\<lparr>fw_proxy = 0, fw_conn = 0, fw_streamID = 1, fw_phase = FwdCopy 0 False False\<rparr>]\<rparr>"


text \<open>
  When both copies have returned the forwarder's cleanup releases what it holds: the proxy is marked
  closed, the remote connection and the stream are closed, and the stream's identifier is free.
\<close>

theorem forward_finish_releases:
  assumes "copying f a True True s" "a < length (objs (ss_mux s))"
    and "fw_proxy (ps_forwards s ! f) < length (ps_objs s)"
  shows "fw_phase (ps_forwards (forward_finish f s) ! f) = FwdDone
    \<and> GetStatus (Some (fw_proxy (ps_forwards s ! f))) (server_world (forward_finish f s)) = ProxyStatusClosed
    \<and> shut (ps_conns (forward_finish f s) ! fw_conn (ps_forwards s ! f))
    \<and> s_closed (objs (ss_mux (forward_finish f s)) ! a)
    \<and> streams (ss_mux (forward_finish f s)) (fw_streamID (ps_forwards s ! f)) = None"
proof -
  let ?fw = "ps_forwards s ! f" and ?s' = "forward_finish f s"
  define m1 where "m1 = snd (stream_Close a (ss_mux s))"
  define m2 where "m2 = snd (CloseStream (fw_streamID ?fw) m1)"
  have s': "ss_mux ?s' = m2" "fw_phase (ps_forwards ?s' ! f) = FwdDone"
      "px_status (ps_objs ?s' ! fw_proxy ?fw) = ProxyStatusClosed" "shut (ps_conns ?s' ! fw_conn ?fw)"
    using assms(1,3)
    by (auto simp: forward_finish_def copying_def Let_def set_phase_def set_world_def server_world_def SetStatus_def
        upd_proxy_def cancelForwarding_def close_conn_def conn_close_def m1_def m2_def case_prod_beta
        split: option.split)
  have later: "mux_later m1 m2"
  proof (cases "streams m1 (fw_streamID ?fw)")
    case None
    then show ?thesis by (simp add: m2_def CloseStream_def mux_later_def)
  next
    case (Some b)
    then show ?thesis
      using stream_Close_later [of "m1\<lparr>streams := (streams m1)(fw_streamID ?fw := None)\<rparr>" b]
      by (simp add: m2_def CloseStream_def mux_later_def)
  qed
  have m1: "s_closed (objs m1 ! a)" "a < length (objs m1)"
    using stream_Close_cases [of "ss_mux s" a] assms(2) by (auto simp: m1_def nth_upd_obj closed_obj_def)
  then have "s_closed (objs m2 ! a)" using later by (simp add: mux_later_def)
  moreover have "streams m2 (fw_streamID ?fw) = None"
    by (simp add: m2_def CloseStream_streams)
  ultimately show ?thesis using s' by (simp add: GetStatus_def server_world_def)
qed

theorem forward_finish_releases_witness:
  "s_closed (objs (ss_mux (forward_finish 0 (copying_server\<lparr>ps_objs := pw_objs sample_world,
      ps_forwards := [\<lparr>fw_proxy = 0, fw_conn = 0, fw_streamID = 1, fw_phase = FwdCopy 0 True True\<rparr>]\<rparr>))) ! 0)"
proof -
  let ?s = "copying_server\<lparr>ps_objs := pw_objs sample_world,
      ps_forwards := [\<lparr>fw_proxy = 0, fw_conn = 0, fw_streamID = 1, fw_phase = FwdCopy 0 True True\<rparr>]\<rparr>"
  have "copying 0 0 True True ?s" "0 < length (objs (ss_mux ?s))" "fw_proxy (ps_forwards ?s ! 0) < length (ps_objs ?s)"
    by (simp_all add: copying_def copying_server_def sample_world_def)
  then show ?thesis using forward_finish_releases [of 0 0 ?s] by blast
qed

end
