(* ===== verification/Proxy_Client.thy ===== *)
theory Proxy_Client
  imports Proxy_Server
begin

text \<open>
  \<open>p2p/protocols/proxy/service/client.go\<close>: opening, closing and listing proxies over \<open>SendRequest\<close>.  A call
  is split where it waits for its response.  The two goroutines of \<open>OpenWithLocalConn\<close> are rounds of
  \<open>io.Copy\<close>; a multiplexer stream has no \<open>CloseWrite\<close>, so the first of them ends without a half-close.
\<close>

section \<open>State\<close>

record proxy_client = base_client +
  pc_manager :: manager
  pc_events :: "handshake list"
  pc_conns :: "conn list"
  pc_ctxs :: "bool list"
  pc_objs :: "proxy list"

definition client_world :: "proxy_client \<Rightarrow> proxy_world" where
  "client_world c = \<lparr>pw_mux = ss_mux c, pw_conns = pc_conns c, pw_ctxs = pc_ctxs c, pw_objs = pc_objs c\<rparr>"

definition set_client_world :: "proxy_world \<Rightarrow> proxy_client \<Rightarrow> proxy_client" where
  "set_client_world w c = c\<lparr>ss_mux := pw_mux w, pc_conns := pw_conns w, pc_ctxs := pw_ctxs w, pc_objs := pw_objs w\<rparr>"

definition set_manager :: "manager option \<Rightarrow> proxy_client \<Rightarrow> proxy_client" where
  "set_manager mg c = (case mg of None \<Rightarrow> c | Some mg \<Rightarrow> c\<lparr>pc_manager := mg\<rparr>)"

definition eventsCap :: nat where "eventsCap = 32"

definition pc_HandleEvent :: "handshake \<Rightarrow> proxy_client \<Rightarrow> proxy_client" where
  "pc_HandleEvent p c = (if length (pc_events c) < eventsCap then c\<lparr>pc_events := pc_events c @ [p]\<rparr> else c)"

definition pc_NewClient :: "bytes \<Rightarrow> conn option \<Rightarrow> proxy_client option" where
  "pc_NewClient clientID c =
     (if c = None \<or> clientID = [] then None
      else (case NewBaseClient clientID c (Some proxyHelloHandler) of
          None \<Rightarrow> None
        | Some b \<Rightarrow> Some (base_client.extend b \<lparr>pc_manager = NewManager, pc_events = [], pc_conns = [],
            pc_ctxs = [], pc_objs = []\<rparr>)))"

section \<open>Matchers\<close>

definition matchProxyOpened :: "bytes \<Rightarrow> matcher" where
  "matchProxyOpened expectedProxy h =
     (if h_type h \<noteq> HandshakeTypeProxyOpened then Inr False
      else (case UnmarshalPayload proxy_open_response_fields (Some h) (Some no_proxy_open_response) of
          (_, Some e) \<Rightarrow> Inl e
        | (None, None) \<Rightarrow> Inr False
        | (Some payload, None) \<Rightarrow> Inr (por_proxy_id payload = expectedProxy)))"

definition matchProxyClosed :: "bytes \<Rightarrow> matcher" where
  "matchProxyClosed expectedProxy h =
     (if h_type h \<noteq> HandshakeTypeProxyClosed then Inr False
      else (case UnmarshalPayload proxy_closed_response_fields (Some h) (Some no_proxy_closed_response) of
          (_, Some e) \<Rightarrow> Inl e
        | (None, None) \<Rightarrow> Inr False
        | (Some payload, None) \<Rightarrow> Inr (pcr_proxy_id payload = expectedProxy)))"

definition matchHandshakeType :: "handshake_type \<Rightarrow> matcher" where
  "matchHandshakeType ht h = Inr (h_type h = ht)"

section \<open>Operations\<close>

definition proto_or_tcp :: "bytes \<Rightarrow> bytes" where
  "proto_or_tcp proto = (if proto = [] then ''tcp'' else proto)"

definition pc_Open :: "bytes \<Rightarrow> bytes \<Rightarrow> bytes \<Rightarrow> proxy_client \<Rightarrow> nat result \<times> proxy_client" where
  "pc_Open proxyID remoteAddr proto c = (case EnsureConnected (Some c) of
      Some e \<Rightarrow> (Inl e, c)
    | None \<Rightarrow>
        if proxyID = [] then (Inl (Err ''proxy ID required''), c)
        else if remoteAddr = [] then (Inl (Err ''remote address required''), c)
        else send_request (NewProxyOpenPacket proxyID remoteAddr (proto_or_tcp proto)) (matchProxyOpened proxyID) c)"

text \<open>\<open>Open\<close> after its request was sent: \<open>a\<close> is the request it waits for.\<close>

definition pc_Open_reply :: "nat \<Rightarrow> bytes \<Rightarrow> bytes \<Rightarrow> bytes \<Rightarrow> proxy_client \<Rightarrow> paddr option rres \<times> proxy_client" where
  "pc_Open_reply a proxyID remoteAddr proto c = (case SendRequest_wait False a c of
      (Blocked, c) \<Rightarrow> (Blocked, c)
    | (Fail e, c) \<Rightarrow> (Fail e, c)
    | (Done response, c) \<Rightarrow>
        (case UnmarshalPayload proxy_open_response_fields response (Some no_proxy_open_response) of
          (_, Some e) \<Rightarrow> (Fail (Wrap ''unmarshal response'' e), c)
        | (r, None) \<Rightarrow>
            (let r = (case r of None \<Rightarrow> no_proxy_open_response | Some r \<Rightarrow> r) in
             if \<not> por_success r then (Fail (Err (por_error r)), c)
             else (case GetOrCreateStream (por_stream_id r) (Some (ss_mux c)) of
                (x, m) \<Rightarrow>
                  (let c = (case m of None \<Rightarrow> c | Some m \<Rightarrow> c\<lparr>ss_mux := m\<rparr>) in
                   (case x of
                      Inl e \<Rightarrow> (Fail (Wrap ''get stream'' e), c)
                    | Inr s \<Rightarrow>
                        (case AddProxy proxyID remoteAddr (proto_or_tcp proto) (Some s) (Some (pc_manager c)) (client_world c) of
                          (p, mg, w) \<Rightarrow> (Done p, set_manager mg (set_client_world w c)))))))))"

definition pc_Close :: "bytes \<Rightarrow> proxy_client \<Rightarrow> nat result \<times> proxy_client" where
  "pc_Close proxyID c = (case EnsureConnected (Some c) of
      Some e \<Rightarrow> (Inl e, c)
    | None \<Rightarrow>
        if proxyID = [] then (Inl (Err ''proxy ID required''), c)
        else send_request (NewProxyClosePacket proxyID) (matchProxyClosed proxyID) c)"

definition pc_Close_reply :: "nat \<Rightarrow> bytes \<Rightarrow> proxy_client \<Rightarrow> unit rres \<times> proxy_client" where
  "pc_Close_reply a proxyID c = (case SendRequest_wait False a c of
      (Blocked, c) \<Rightarrow> (Blocked, c)
    | (Fail e, c) \<Rightarrow> (Fail e, c)
    | (Done response, c) \<Rightarrow>
        (case UnmarshalPayload proxy_closed_response_fields response (Some no_proxy_closed_response) of
          (r, err) \<Rightarrow>
            (let r = (case r of None \<Rightarrow> no_proxy_closed_response | Some r \<Rightarrow> r) in
             if err = None \<and> \<not> pcr_success r then (Fail (Err (pcr_error r)), c)
             else (case RemoveProxy proxyID (Some (pc_manager c)) (client_world c) of
                 (mg, w) \<Rightarrow> (Done (), set_manager mg (set_client_world w c))))))"

definition pc_List :: "proxy_client \<Rightarrow> nat result \<times> proxy_client" where
  "pc_List c = (case EnsureConnected (Some c) of
      Some e \<Rightarrow> (Inl e, c)
    | None \<Rightarrow> send_request NewProxyListPacket (matchHandshakeType HandshakeTypeProxyListResp) c)"

definition proxy_of_info :: "proxy_info \<Rightarrow> proxy" where
  "proxy_of_info i = \<lparr>px_ID = pi_proxy_id i, px_RemoteAddr = pi_remote_addr i, px_Protocol = pi_protocol i,
     px_Stream = None, px_status = pi_status i, px_remoteConn = None, px_forwardCancel = None\<rparr>"

text \<open>The listed proxies are new objects that no manager holds.\<close>

definition pc_List_reply :: "nat \<Rightarrow> proxy_client \<Rightarrow> proxy list rres \<times> proxy_client" where
  "pc_List_reply a c = (case SendRequest_wait False a c of
      (Blocked, c) \<Rightarrow> (Blocked, c)
    | (Fail e, c) \<Rightarrow> (Fail e, c)
    | (Done response, c) \<Rightarrow>
        (case UnmarshalPayload proxy_list_response_fields response (Some no_proxy_list_response) of
          (_, Some e) \<Rightarrow> (Fail (Wrap ''unmarshal response'' e), c)
        | (r, None) \<Rightarrow>
            (let r = (case r of None \<Rightarrow> no_proxy_list_response | Some r \<Rightarrow> r) in
             (Done (case plr_proxies r of None \<Rightarrow> [] | Some infos \<Rightarrow> map proxy_of_info infos), c))))"

definition pc_Get :: "bytes \<Rightarrow> proxy_client option \<Rightarrow> paddr option" where
  "pc_Get proxyID c = (case c of None \<Rightarrow> None | Some c \<Rightarrow> GetProxy proxyID (Some (pc_manager c)))"

definition pc_Count :: "proxy_client option \<Rightarrow> nat" where
  "pc_Count c = (case c of None \<Rightarrow> 0 | Some c \<Rightarrow> mg_Count (Some (pc_manager c)))"

definition pc_ClientID :: "proxy_client option \<Rightarrow> bytes" where
  "pc_ClientID c = (case c of None \<Rightarrow> [] | Some c \<Rightarrow> bc_clientID c)"

definition pc_Connect :: "bool \<Rightarrow> proxy_client option \<Rightarrow> unit rres \<times> proxy_client option" where
  "pc_Connect timeout c = (case c of
      None \<Rightarrow> (Fail (Err ''client is nil''), None)
    | Some _ \<Rightarrow> Connect timeout (Some proxyHelloHandler) c)"

definition pc_CloseAll :: "bytes list \<Rightarrow> addr list \<Rightarrow> proxy_client option \<Rightarrow> goerr option \<times> proxy_client option" where
  "pc_CloseAll ks as c = (case c of
      None \<Rightarrow> (None, None)
    | Some c \<Rightarrow> (case mg_CloseAll ks (Some (pc_manager c)) (client_world c) of
        (mg, w) \<Rightarrow> bc_Close as (Some (set_manager mg (set_client_world w c)))))"

section \<open>Local connections\<close>

text \<open>A round of \<open>forwardLocalToRemote\<close> between local connection \<open>k\<close> and stream \<open>a\<close>.\<close>

definition forwardLocalToRemote :: "nat \<Rightarrow> addr \<Rightarrow> proxy_client \<Rightarrow> copy \<times> proxy_client" where
  "forwardLocalToRemote k a c = (case copy_round conn_read (stream_Write a) (pc_conns c ! k, ss_mux c) of
      (r, l, m) \<Rightarrow> (r, c\<lparr>ss_mux := m, pc_conns := (pc_conns c)[k := l]\<rparr>))"

text \<open>A round of \<open>forwardRemoteToLocal\<close>; its deferred calls close both ends.\<close>

definition forwardRemoteToLocal :: "nat \<Rightarrow> addr \<Rightarrow> proxy_client \<Rightarrow> copy \<times> proxy_client" where
  "forwardRemoteToLocal k a c = (case copy_round (stream_Read a) conn_write (ss_mux c, pc_conns c ! k) of
      (r, m, l) \<Rightarrow>
        (case r of
           CopyEnd _ \<Rightarrow> (r, c\<lparr>ss_mux := snd (stream_Close a m), pc_conns := (pc_conns c)[k := snd (conn_close l)]\<rparr>)
         | _ \<Rightarrow> (r, c\<lparr>ss_mux := m, pc_conns := (pc_conns c)[k := l]\<rparr>)))"


section \<open>Responses\<close>

lemma client_more:
  "base_client.more c' = base_client.more c \<Longrightarrow>
    pc_manager c' = pc_manager c \<and> pc_conns c' = pc_conns c \<and> pc_ctxs c' = pc_ctxs c \<and> pc_objs c' = pc_objs c"
  by (cases c; cases c') simp

lemma Open_reply_ok:
  assumes "a < length (bc_reqs c)" "mux_ok (ss_mux c)" "\<not> m_closed (ss_mux c)" "i \<noteq> []" "pc_Get i (Some c) = None"
    and "UnmarshalPayload proxy_open_response_fields (Some h) (Some no_proxy_open_response)
      = (Some \<lparr>por_proxy_id = i, por_success = True, por_error = [], por_stream_id = n\<rparr>, None)" "n \<noteq> 0"
  shows "\<exists>x b c'. pc_Open_reply a i ra pr (answered a h c) = (Done (Some x), c') \<and> pc_Get i (Some c') = Some x
    \<and> px_Stream (pc_objs c' ! x) = Some b \<and> streams (ss_mux c') n = Some b \<and> s_ID (objs (ss_mux c') ! b) = n
    \<and> \<not> s_closed (objs (ss_mux c') ! b)"
proof -
  obtain c1 where c1: "SendRequest_wait False a (answered a h c) = (Done (Some h), c1)" "ss_mux c1 = ss_mux c"
      "base_client.more c1 = base_client.more c"
    using SendRequest_wait_answered [OF assms(1)] by blast
  obtain b m where m: "GetOrCreateStream n (Some (ss_mux c)) = (Inr b, Some m)" "streams m n = Some b"
      "s_ID (objs m ! b) = n" "\<not> s_closed (objs m ! b)"
    using GetOrCreateStream_ok [OF assms(2,3,7)] by blast
  let ?c = "c1\<lparr>ss_mux := m\<rparr>"
  have "mg_proxies (pc_manager ?c) i = None"
    using assms(4,5) client_more [OF c1(3)] by (simp add: pc_Get_def GetProxy_def)
  then have add: "AddProxy i ra (proto_or_tcp pr) (Some b) (Some (pc_manager ?c)) (client_world ?c)
      = (Some (length (pc_objs ?c)), Some ((pc_manager ?c)\<lparr>mg_proxies := (mg_proxies (pc_manager ?c))(i \<mapsto> length (pc_objs ?c))\<rparr>),
         (client_world ?c)\<lparr>pw_objs := pc_objs ?c @ [\<lparr>px_ID = i, px_RemoteAddr = ra, px_Protocol = proto_or_tcp pr,
            px_Stream = Some b, px_status = ProxyStatusActive, px_remoteConn = None, px_forwardCancel = None\<rparr>]\<rparr>)"
    using assms(4) by (simp add: AddProxy_def Let_def client_world_def)
  define d where "d = snd (pc_Open_reply a i ra pr (answered a h c))"
  have r: "pc_Open_reply a i ra pr (answered a h c) = (Done (Some (length (pc_objs ?c))), d)"
    unfolding d_def using c1(1,2) m(1) add by (simp add: pc_Open_reply_def assms(6) Let_def)
  have d: "mg_proxies (pc_manager d) i = Some (length (pc_objs ?c))" "px_Stream (pc_objs d ! length (pc_objs ?c)) = Some b"
      "ss_mux d = m"
    unfolding d_def using c1(1,2) m(1) add
    by (simp_all add: pc_Open_reply_def assms(6) Let_def set_manager_def set_client_world_def client_world_def)
  show ?thesis
    by (rule exI [of _ "length (pc_objs ?c)"], rule exI [of _ b], rule exI [of _ d])
      (use r d m(2-4) assms(4) in \<open>simp add: pc_Get_def GetProxy_def\<close>)
qed

lemma opened_matches:
  assumes "answers proxy_open_response_fields no_proxy_open_response HandshakeTypeProxyOpened x p"
  shows "\<exists>h. UnmarshalHandshakePacket (Some p) = Inr h \<and> matchProxyOpened j h = Inr (por_proxy_id x = j)
    \<and> matchProxyClosed j h = Inr False
    \<and> UnmarshalPayload proxy_open_response_fields (Some h) (Some no_proxy_open_response) = (Some x, None)"
proof -
  obtain h where h: "UnmarshalHandshakePacket (Some p) = Inr h" "h_type h = HandshakeTypeProxyOpened"
      "UnmarshalPayload proxy_open_response_fields (Some h) (Some no_proxy_open_response) = (Some x, None)"
    using answersD [OF assms] by blast
  moreover have "HandshakeTypeProxyOpened \<noteq> HandshakeTypeProxyClosed" by (simp add: type_defs)
  ultimately show ?thesis by (simp add: matchProxyOpened_def matchProxyClosed_def)
qed

section \<open>Properties\<close>

text \<open>
  C4: Client and server agree on a proxy: the request \<open>Open\<close> sends makes the server dial, open a stream and
  answer; the answer matches this request and no other; and with it the client gets a proxy whose open
  stream has the identifier the server forwards on.
\<close>

theorem proxy_open_agreement:
  assumes "i \<noteq> []" "valid_utf8 i" "length i \<le> 10000" "ra \<noteq> []" "valid_utf8 ra" "pr \<in> {[], ''tcp''}"
    and "can_send s" "ps_Get i (Some s) = None" "dial ra = Inr k" "streams (ss_mux s) (fst (NextStreamID s)) = None"
    and "a < length (bc_reqs c)" "mux_ok (ss_mux c)" "\<not> m_closed (ss_mux c)" "pc_Get i (Some c) = None"
    and "NewProxyOpenPacket i ra (proto_or_tcp pr) = Inr q"
  shows "\<exists>h s' p h' x b f c'. UnmarshalHandshakePacket (Some q) = Inr h \<and> ps_handleOpen dial h s = (None, s')
    \<and> packet_sent p s s' \<and> UnmarshalHandshakePacket (Some p) = Inr h'
    \<and> (\<forall>j. matchProxyOpened j h' = Inr (j = i) \<and> matchProxyClosed j h' = Inr False)
    \<and> pc_Open_reply a i ra pr (answered a h' c) = (Done (Some x), c') \<and> px_Stream (pc_objs c' ! x) = Some b
    \<and> \<not> s_closed (objs (ss_mux c') ! b) \<and> f \<in> set (ps_forwards s') \<and> ps_Get i (Some s') = Some (fw_proxy f)
    \<and> ps_conns s' ! fw_conn f = k \<and> fw_streamID f = s_ID (objs (ss_mux c') ! b)
    \<and> HasStream (fw_streamID f) (Some (ss_mux s'))"
proof -
  define r where "r = \<lparr>po_proxy_id = i, po_remote_addr = ra, po_protocol = proto_or_tcp pr\<rparr>"
  let ?n = "fst (NextStreamID s)"
  have good: "proxy_open_request_ok r"
    using assms(2,5,6) by (auto simp: r_def proxy_open_request_ok_def proto_or_tcp_def valid_utf8_ascii)
  obtain h where h: "UnmarshalHandshakePacket (Some q) = Inr h"
      "UnmarshalPayload proxy_open_request_fields (Some h) (Some no_proxy_open_request) = (Some r, None)"
  proof -
    have q: "NewHandshakePacket HandshakeTypeProxyOpen (Some (proxy_open_request_to_json r)) = Inr q"
      using assms(15) by (simp add: NewProxyOpenPacket_def r_def)
    then have "receive_payload proxy_open_request_fields no_proxy_open_request (Some q) = Inr (HandshakeTypeProxyOpen, r)"
      by (rule proxy_open.received [OF _ good])
    moreover have "packet_ok q" by (rule NewHandshakePacket_ok [OF q])
    ultimately show ?thesis
      using that by (auto simp: receive_payload_def UnmarshalPayload_def split: sum.splits option.splits prod.splits bool.splits)
  qed
  have "dial (po_remote_addr r) = Inr k" "po_proxy_id r \<noteq> []" "po_remote_addr r \<noteq> []" "po_protocol r \<in> {[], ''tcp''}"
      "ps_Get (po_proxy_id r) (Some s) = None" "valid_utf8 (po_proxy_id r)" "length (po_proxy_id r) \<le> 10000"
    using assms by (auto simp: r_def proto_or_tcp_def)
  from handleOpen_ok [where c = k and dial = dial, OF assms(7) this(5) h(2) this(2,6,7,3,4,1) refl assms(10)]
  obtain s' p y where s': "ps_handleOpen dial h s = (None, s')" "packet_sent p s s'"
      "answers proxy_open_response_fields no_proxy_open_response HandshakeTypeProxyOpened
        \<lparr>por_proxy_id = i, por_success = True, por_error = [], por_stream_id = ?n\<rparr> p"
      "GetStream ?n (ss_mux s') = Inr (length (objs (ss_mux s)))" "ps_Get i (Some s') = Some y" "ps_conns s' = ps_conns s @ [k]"
      "ps_forwards s' = ps_forwards s
        @ [\<lparr>fw_proxy = y, fw_conn = length (ps_conns s), fw_streamID = ?n, fw_phase = FwdWait 0\<rparr>]"
    by (auto simp: r_def)
  obtain h' where h': "UnmarshalHandshakePacket (Some p) = Inr h'"
      "UnmarshalPayload proxy_open_response_fields (Some h') (Some no_proxy_open_response)
        = (Some \<lparr>por_proxy_id = i, por_success = True, por_error = [], por_stream_id = ?n\<rparr>, None)"
    using opened_matches [OF s'(3)] by blast
  have "?n \<noteq> 0" using NextStreamID_more(8) [of s ?n "snd (NextStreamID s)"] by simp
  from Open_reply_ok [OF assms(11-13,1,14) h'(2) this, of ra pr]
  obtain x b c' where "pc_Open_reply a i ra pr (answered a h' c) = (Done (Some x), c')" "px_Stream (pc_objs c' ! x) = Some b"
      "s_ID (objs (ss_mux c') ! b) = ?n" "\<not> s_closed (objs (ss_mux c') ! b)"
    by blast
  then show ?thesis
    using h(1) s' h'(1) opened_matches [OF s'(3)]
    by (intro exI [of _ h] exI [of _ s'] exI [of _ p] exI [of _ h'] exI [of _ x] exI [of _ b]
        exI [of _ "\<lparr>fw_proxy = y, fw_conn = length (ps_conns s), fw_streamID = ?n, fw_phase = FwdWait 0\<rparr>"] exI [of _ c'])
      (auto simp: HasStream_def)
qed

text \<open>A client with one request waiting.\<close>

definition sample_proxy_client :: proxy_client where
  "sample_proxy_client = \<lparr>ss_mux = sample_mux, ss_ctrl = 0, ss_control = NewControlPlane True, bc_clientID = ''me'',
     bc_handshakeDone = True, bc_reqs = [\<lparr>rq_ID = 1, rq_Match = matchProxyOpened ''p1'', rq_Response = []\<rparr>],
     bc_pending = Map.empty, bc_nextRequestID = 1, bc_dispatchOnce = True, bc_dispatching = True,
     bc_dispatchCancelled = False, pc_manager = NewManager, pc_events = [], pc_conns = [], pc_ctxs = [], pc_objs = []\<rparr>"

theorem proxy_open_agreement_witness:
  "\<exists>h s' h' x c'. ps_handleOpen (\<lambda>_. Inr (conn_of [''hi''])) h sample_server = (None, s')
    \<and> matchProxyOpened ''p1'' h' = Inr True
    \<and> pc_Open_reply 0 ''p1'' ''host:80'' [] (answered 0 h' sample_proxy_client) = (Done (Some x), c')"
proof -
  obtain q where q: "NewProxyOpenPacket ''p1'' ''host:80'' (proto_or_tcp []) = Inr q"
    using NewHandshakePacket_Inr by (auto simp: NewProxyOpenPacket_def)
  have "ps_Get ''p1'' (Some sample_server) = None" "streams (ss_mux sample_server) (fst (NextStreamID sample_server)) = None"
    by (simp_all add: ps_Get_def GetProxy_def sample_server_def NewManager_def NextStreamID_def Let_def)
  moreover have "mux_ok (ss_mux sample_proxy_client)" "\<not> m_closed (ss_mux sample_proxy_client)"
      "0 < length (bc_reqs sample_proxy_client)" "pc_Get ''p1'' (Some sample_proxy_client) = None"
    using sample_mux_ok sample_mux_sends
    by (simp_all add: sample_proxy_client_def sample_mux_def pc_Get_def GetProxy_def NewManager_def)
  moreover have "valid_utf8 ''p1''" "valid_utf8 ''host:80''" by (simp_all add: valid_utf8_ascii)
  ultimately have "\<exists>h s' p h' x b f c'. UnmarshalHandshakePacket (Some q) = Inr h
      \<and> ps_handleOpen (\<lambda>_. Inr (conn_of [''hi''])) h sample_server = (None, s')
      \<and> packet_sent p sample_server s' \<and> UnmarshalHandshakePacket (Some p) = Inr h'
      \<and> (\<forall>j. matchProxyOpened j h' = Inr (j = ''p1'') \<and> matchProxyClosed j h' = Inr False)
      \<and> pc_Open_reply 0 ''p1'' ''host:80'' [] (answered 0 h' sample_proxy_client) = (Done (Some x), c')
      \<and> px_Stream (pc_objs c' ! x) = Some b \<and> \<not> s_closed (objs (ss_mux c') ! b) \<and> f \<in> set (ps_forwards s')
      \<and> ps_Get ''p1'' (Some s') = Some (fw_proxy f) \<and> ps_conns s' ! fw_conn f = conn_of [''hi'']
      \<and> fw_streamID f = s_ID (objs (ss_mux c') ! b) \<and> HasStream (fw_streamID f) (Some (ss_mux s'))"
    by (intro proxy_open_agreement) (use q sample_server_sends in simp_all)
  then obtain h s' h' x c' where r: "ps_handleOpen (\<lambda>_. Inr (conn_of [''hi''])) h sample_server = (None, s')"
      "\<And>j. matchProxyOpened j h' = Inr (j = ''p1'')"
      "pc_Open_reply 0 ''p1'' ''host:80'' [] (answered 0 h' sample_proxy_client) = (Done (Some x), c')"
    by (elim exE conjE) metis
  moreover have "matchProxyOpened ''p1'' h' = Inr True" using r(2) [of "''p1''"] by simp
  ultimately show ?thesis by blast
qed

end
