(* ===== verification/Proxy_Ports.thy ===== *)
theory Proxy_Ports
  imports Proxy_Client
begin

text \<open>
  \<open>p2p/protocols/proxy/manager.go\<close> and \<open>tcpProxy.go\<close>: the services that listen on local ports and open one
  proxy per accepted connection.  A \<open>*ProxyService\<close> is an index into a heap.  The operating system's
  answer to \<open>net.ListenTCP\<close> (the port, or an error), the node's \<open>GetDevice\<close> and the stream from
  \<open>Host.NewStream\<close> are arguments.
\<close>

section \<open>Services\<close>

record proxy_service =
  pv_Port :: u64
  pv_Dest :: bytes
  pv_DestAddr :: bytes
  pv_done :: bool
  pv_client :: "proxy_client option"
  pv_connCounter :: u64

definition NewProxyService :: "u64 \<Rightarrow> bytes \<Rightarrow> bytes \<Rightarrow> proxy_service" where
  "NewProxyService port dest destAddr = \<lparr>pv_Port = port, pv_Dest = dest, pv_DestAddr = destAddr,
     pv_done = False, pv_client = None, pv_connCounter = 0\<rparr>"

definition pv_Close :: "bytes list \<Rightarrow> addr list \<Rightarrow> proxy_service \<Rightarrow> proxy_service" where
  "pv_Close ks as p =
     (let p = p\<lparr>pv_done := True\<rparr>
      in (case pv_client p of
          None \<Rightarrow> p
        | Some c \<Rightarrow> p\<lparr>pv_client := snd (pc_CloseAll ks as (Some c))\<rparr>))"

definition pv_Done :: "proxy_service \<Rightarrow> bool" where
  "pv_Done p = pv_done p"

text \<open>\<open>getOrCreateClient\<close>; \<open>connect\<close> is the handshake of a fresh client over the new stream.\<close>

definition getOrCreateClient :: "bytes \<Rightarrow> conn result \<Rightarrow> (proxy_client \<Rightarrow> unit rres \<times> proxy_client)
    \<Rightarrow> proxy_service \<Rightarrow> unit rres \<times> proxy_service" where
  "getOrCreateClient nodeID openStream connect p = (case pv_client p of
      Some _ \<Rightarrow> (Done (), p)
    | None \<Rightarrow> (case openStream of
        Inl e \<Rightarrow> (Fail (Wrap ''failed to create stream'' e), p)
      | Inr s \<Rightarrow> (case pc_NewClient nodeID (Some s) of
          None \<Rightarrow> (Fail (Err ''failed to create proxy client''), p)
        | Some c \<Rightarrow> (case connect c of
            (Blocked, _) \<Rightarrow> (Blocked, p)
          | (Fail e, _) \<Rightarrow> (Fail (Wrap ''failed to connect'' e), p)
          | (Done _, c) \<Rightarrow> (Done (), p\<lparr>pv_client := Some c\<rparr>)))))"

text \<open>\<open>Serve\<close> up to its two goroutines: resolve and listen, and note the port that was given.\<close>

definition pv_Serve :: "(u64 \<Rightarrow> u64 result) \<Rightarrow> proxy_service \<Rightarrow> goerr option \<times> proxy_service" where
  "pv_Serve listen p =
     (if pv_DestAddr p = [] then (Some (Err ''destination address required''), p)
      else (case listen (pv_Port p) of
          Inl e \<Rightarrow> (Some e, p)
        | Inr port \<Rightarrow> (None, p\<lparr>pv_Port := port\<rparr>)))"

definition nextProxyID :: "bytes \<Rightarrow> proxy_service \<Rightarrow> bytes \<times> proxy_service" where
  "nextProxyID base p =
     (let n = pv_connCounter p + 1
      in (base @ '':'' @ show_nat (unat (pv_Port p)) @ '':'' @ show_nat (unat n), p\<lparr>pv_connCounter := n\<rparr>))"

text \<open>\<open>acceptConnection\<close> up to the wait for the open response: the request it waits for, if it got that far.\<close>

definition acceptConnection :: "bytes \<Rightarrow> conn result \<Rightarrow> (proxy_client \<Rightarrow> unit rres \<times> proxy_client) \<Rightarrow> (bytes \<Rightarrow> bool)
    \<Rightarrow> bytes \<Rightarrow> proxy_service \<Rightarrow> (nat \<times> bytes) option \<times> proxy_service" where
  "acceptConnection nodeID openStream connect GetDevice peer p =
     (if \<not> GetDevice peer then (None, p)
      else (case getOrCreateClient nodeID openStream connect p of
          (Done _, p) \<Rightarrow> (case nextProxyID peer p of
             (proxyID, p) \<Rightarrow> (case pv_client p of
                None \<Rightarrow> (None, p)
              | Some c \<Rightarrow> (case pc_Open proxyID (pv_DestAddr p) ''tcp'' c of
                    (Inl e, c) \<Rightarrow> (None, p\<lparr>pv_client := Some c\<rparr>)
                  | (Inr a, c) \<Rightarrow> (Some (a, proxyID), p\<lparr>pv_client := Some c\<rparr>))))
        | (_, p) \<Rightarrow> (None, p)))"

section \<open>The manager of ports\<close>

record proxy_manager =
  pm_objs :: "proxy_service list"
  pm_proxies :: "nat list"

definition NewProxyManager :: proxy_manager where
  "NewProxyManager = \<lparr>pm_objs = [], pm_proxies = []\<rparr>"

definition pm_live :: "proxy_manager \<Rightarrow> nat list" where
  "pm_live m = filter (\<lambda>a. \<not> pv_Done (pm_objs m ! a)) (pm_proxies m)"

definition pm_Proxy :: "(u64 \<Rightarrow> u64 result) \<Rightarrow> bytes \<Rightarrow> u64 \<Rightarrow> bytes \<Rightarrow> proxy_manager \<Rightarrow> nat result \<times> proxy_manager" where
  "pm_Proxy listen peer hostPort destAddr m =
     (let m = m\<lparr>pm_proxies := pm_live m\<rparr> in
      if hostPort \<in> set (map (\<lambda>a. pv_Port (pm_objs m ! a)) (pm_proxies m))
      then (Inl (Err (''proxy port '' @ show_nat (unat hostPort) @ '' already exist'')), m)
      else
        (let a = length (pm_objs m);
             m = m\<lparr>pm_objs := pm_objs m @ [NewProxyService hostPort peer destAddr], pm_proxies := pm_proxies m @ [a]\<rparr>
         in (case pv_Serve listen (pm_objs m ! a) of
             (Some e, p) \<Rightarrow> (Inl e, m\<lparr>pm_objs := (pm_objs m)[a := p], pm_proxies := remove1 a (pm_proxies m)\<rparr>)
           | (None, p) \<Rightarrow> (Inr a, m\<lparr>pm_objs := (pm_objs m)[a := p]\<rparr>))))"

definition pm_Proxies :: "proxy_manager \<Rightarrow> nat list \<times> proxy_manager" where
  "pm_Proxies m = (pm_live m, m\<lparr>pm_proxies := pm_live m\<rparr>)"

text \<open>\<open>cl\<close> closes one service: \<open>pv_Close\<close> with its orders.\<close>

definition pm_Close :: "(proxy_service \<Rightarrow> proxy_service) \<Rightarrow> u64 \<Rightarrow> proxy_manager \<Rightarrow> proxy_manager" where
  "pm_Close cl port m =
     (let hit = filter (\<lambda>a. pv_Port (pm_objs m ! a) = port) (pm_proxies m)
      in m\<lparr>pm_objs := fold (\<lambda>a os. if pv_Done (os ! a) then os else os[a := cl (os ! a)]) hit (pm_objs m),
           pm_proxies := filter (\<lambda>a. pv_Port (pm_objs m ! a) \<noteq> port) (pm_proxies m)\<rparr>)"


section \<open>Identifiers\<close>

fun next_ids :: "nat \<Rightarrow> bytes \<Rightarrow> proxy_service \<Rightarrow> bytes list" where
  "next_ids 0 base p = []"
| "next_ids (Suc n) base p = (case nextProxyID base p of (i, p) \<Rightarrow> i # next_ids n base p)"

text \<open>The identifier of the call that found the counter at \<open>c\<close>.\<close>

definition id_at :: "bytes \<Rightarrow> u64 \<Rightarrow> u64 \<Rightarrow> bytes" where
  "id_at base port c = base @ '':'' @ show_nat (unat port) @ '':'' @ show_nat (unat (c + 1))"

lemma id_at_inject: "id_at base port c = id_at base port d \<longleftrightarrow> c = d"
proof -
  have "show_nat m = show_nat n \<longleftrightarrow> m = n" for m n
    by (metis read_show_nat option.inject)
  then show ?thesis by (simp add: id_at_def word_unat_eq_iff [symmetric])
qed

lemma next_ids_at: "next_ids n base p = map (\<lambda>k. id_at base (pv_Port p) (pv_connCounter p + of_nat k)) [0..<n]"
proof (induction n arbitrary: p)
  case (Suc n)
  let ?p = "p\<lparr>pv_connCounter := pv_connCounter p + 1\<rparr>"
  have "next_ids (Suc n) base p = id_at base (pv_Port p) (pv_connCounter p) # next_ids n base ?p"
    by (simp add: nextProxyID_def id_at_def Let_def)
  also have "\<dots> = map (\<lambda>k. id_at base (pv_Port p) (pv_connCounter p + of_nat k)) (0 # map Suc [0..<n])"
    by (simp add: Suc.IH add.assoc)
  finally show ?case by (simp only: map_Suc_upt upt_conv_Cons [OF zero_less_Suc])
qed simp

section \<open>Ports\<close>

definition ports :: "proxy_manager \<Rightarrow> u64 list" where
  "ports m = map (\<lambda>a. pv_Port (pm_objs m ! a)) (pm_live m)"

definition ports_ok :: "proxy_manager \<Rightarrow> bool" where
  "ports_ok m \<longleftrightarrow> list_all (\<lambda>a. a < length (pm_objs m)) (pm_proxies m) \<and> distinct (pm_proxies m)
     \<and> distinct (ports m) \<and> 0 \<notin> set (ports m)"

text \<open>
  What the operating system's listeners promise: a port asked for by number is the one that is given,
  and a port it chooses itself is not one that is being listened on.
\<close>

definition os_ports :: "(u64 \<Rightarrow> u64 result) \<Rightarrow> proxy_manager \<Rightarrow> bool" where
  "os_ports listen m \<longleftrightarrow> (\<forall>p q. listen p = Inr q \<longrightarrow> (if p = 0 then q \<noteq> 0 \<and> q \<notin> set (ports m) else q = p))"

text \<open>Services end by themselves, and their clients and counters change.\<close>

definition service_later :: "proxy_service \<Rightarrow> proxy_service \<Rightarrow> bool" where
  "service_later p q \<longleftrightarrow> pv_Port q = pv_Port p \<and> (pv_done p \<longrightarrow> pv_done q)"

lemma pv_Close_later: "service_later p (pv_Close ks as p)"
  by (simp add: service_later_def pv_Close_def Let_def split: option.split)

text \<open>Fewer live services keep their ports distinct.\<close>

lemma ports_ok_later:
  assumes "ports_ok m" "length os = length (pm_objs m)" "distinct ps" "set ps \<subseteq> set (pm_proxies m)"
    and "\<And>a. a < length os \<Longrightarrow> service_later (pm_objs m ! a) (os ! a)"
  shows "ports_ok (m\<lparr>pm_objs := os, pm_proxies := ps\<rparr>)"
proof -
  let ?live = "\<lambda>a. a \<in> set (pm_proxies m) \<and> \<not> pv_done (pm_objs m ! a)"
  have bound: "a < length os" if "a \<in> set (pm_proxies m)" for a
    using assms(1,2) that by (simp add: ports_ok_def list_all_iff)
  have inj: "inj_on (\<lambda>a. pv_Port (pm_objs m ! a)) (Collect ?live)" and nz: "?live a \<Longrightarrow> pv_Port (pm_objs m ! a) \<noteq> 0" for a
    using assms(1) by (auto simp: ports_ok_def ports_def pm_live_def pv_Done_def distinct_map image_iff Collect_conj_eq
        intro!: inj_on_subset)
  have sub: "?live a \<and> pv_Port (os ! a) = pv_Port (pm_objs m ! a)" if "a \<in> set ps" "\<not> pv_done (os ! a)" for a
    using assms(4) assms(5) [of a] bound that by (auto simp: service_later_def)
  have "inj_on (\<lambda>a. pv_Port (os ! a)) {a \<in> set ps. \<not> pv_done (os ! a)}"
    by (rule inj_onI) (use sub inj in \<open>auto dest: inj_onD\<close>)
  then show ?thesis
    using assms(3,4) bound sub nz
    by (auto simp: ports_ok_def ports_def pm_live_def pv_Done_def list_all_iff distinct_map image_iff)
qed

lemma live_append:
  assumes "ports_ok m" "\<And>a. a \<in> set ps \<Longrightarrow> a < length (pm_objs m)"
  shows "filter (\<lambda>a. \<not> pv_Done ((pm_objs m @ [p]) ! a)) ps = filter (\<lambda>a. \<not> pv_Done (pm_objs m ! a)) ps"
    "map (\<lambda>a. pv_Port ((pm_objs m @ [p]) ! a)) (filter f ps) = map (\<lambda>a. pv_Port (pm_objs m ! a)) (filter f ps)"
  using assms(2) by (auto simp: nth_append intro!: filter_cong map_cong)

lemma ports_ok_object:
  assumes "ports_ok m"
  shows "ports_ok (m\<lparr>pm_objs := pm_objs m @ [p]\<rparr>)" "ports (m\<lparr>pm_objs := pm_objs m @ [p]\<rparr>) = ports m"
proof -
  have "\<And>a. a \<in> set (pm_proxies m) \<Longrightarrow> a < length (pm_objs m)"
    using assms by (simp add: ports_ok_def list_all_iff)
  note l = live_append [OF assms this, of "pm_proxies m" p]
  show "ports (m\<lparr>pm_objs := pm_objs m @ [p]\<rparr>) = ports m"
    by (simp add: ports_def pm_live_def l)
  then show "ports_ok (m\<lparr>pm_objs := pm_objs m @ [p]\<rparr>)"
    using assms by (fastforce simp: ports_ok_def list_all_iff)
qed

lemma ports_ok_add:
  assumes "ports_ok m" "pv_Port p \<notin> set (ports m)" "pv_Port p \<noteq> 0"
  shows "ports_ok (m\<lparr>pm_objs := pm_objs m @ [p], pm_proxies := pm_proxies m @ [length (pm_objs m)]\<rparr>)"
proof -
  have bound: "\<And>a. a \<in> set (pm_proxies m) \<Longrightarrow> a < length (pm_objs m)"
    using assms by (simp add: ports_ok_def list_all_iff)
  note l = live_append [OF assms(1) this, of "pm_proxies m" p]
  have "ports (m\<lparr>pm_objs := pm_objs m @ [p], pm_proxies := pm_proxies m @ [length (pm_objs m)]\<rparr>)
      = ports m @ (if pv_Done p then [] else [pv_Port p])"
    by (simp add: ports_def pm_live_def l)
  then show ?thesis
    using assms bound by (auto simp: ports_ok_def list_all_iff less_Suc_eq)
qed

text \<open>Everything that happens to a manager.\<close>

inductive ports_reach :: "proxy_manager \<Rightarrow> bool" where
  start: "ports_reach NewProxyManager"
| proxy: "ports_reach m \<Longrightarrow> os_ports listen m \<Longrightarrow> pm_Proxy listen peer p addr m = (r, m') \<Longrightarrow> ports_reach m'"
| proxies: "ports_reach m \<Longrightarrow> pm_Proxies m = (as, m') \<Longrightarrow> ports_reach m'"
| close: "ports_reach m \<Longrightarrow> ports_reach (pm_Close (pv_Close ks as) p m)"
| service: "ports_reach m \<Longrightarrow> a < length (pm_objs m) \<Longrightarrow> service_later (pm_objs m ! a) q \<Longrightarrow>
    ports_reach (m\<lparr>pm_objs := (pm_objs m)[a := q]\<rparr>)"

lemma ports_ok_live: "ports_ok m \<Longrightarrow> ports_ok (m\<lparr>pm_proxies := pm_live m\<rparr>)"
  using ports_ok_later [of m "pm_objs m" "pm_live m"]
  by (auto simp: ports_ok_def pm_live_def service_later_def)

lemma ports_live [simp]: "ports (m\<lparr>pm_proxies := pm_live m\<rparr>) = ports m"
  by (simp add: ports_def pm_live_def)

lemma pm_Proxy_ok:
  assumes "ports_ok m" "os_ports listen m" "pm_Proxy listen peer p addr m = (r, m')"
  shows "ports_ok m'"
proof -
  let ?m = "m\<lparr>pm_proxies := pm_live m\<rparr>" and ?new = "NewProxyService p peer addr"
  note ok = ports_ok_live [OF assms(1)]
  show ?thesis
  proof (cases "p \<in> set (map (\<lambda>a. pv_Port (pm_objs ?m ! a)) (pm_proxies ?m))")
    case True
    then show ?thesis using assms(3) ok by (simp add: pm_Proxy_def Let_def)
  next
    case False
    then have free: "p \<notin> set (ports ?m)" by (simp add: ports_def pm_live_def)
    obtain e q where q: "pv_Serve listen ?new = (e, q)" by force
    have fresh: "length (pm_objs m) \<notin> set (pm_live m)"
      using assms(1) by (auto simp: ports_ok_def list_all_iff pm_live_def)
    show ?thesis
    proof (cases e)
      case None
      then have m': "m' = ?m\<lparr>pm_objs := pm_objs ?m @ [q], pm_proxies := pm_proxies ?m @ [length (pm_objs ?m)]\<rparr>"
        using assms(3) False q by (auto simp: pm_Proxy_def Let_def)
      have "listen p = Inr (pv_Port q)"
        using q None by (auto simp: pv_Serve_def NewProxyService_def split: if_splits sum.splits)
      then have "pv_Port q \<notin> set (ports ?m) \<and> pv_Port q \<noteq> 0"
        using assms(2) free by (auto simp: os_ports_def split: if_splits)
      then show ?thesis using ports_ok_add [OF ok] m' by blast
    next
      case (Some x)
      then have "m' = ?m\<lparr>pm_objs := pm_objs ?m @ [q]\<rparr>"
        using assms(3) False q fresh by (auto simp: pm_Proxy_def Let_def remove1_append)
      then show ?thesis using ports_ok_object(1) [OF ok] by simp
    qed
  qed
qed

lemma fold_close:
  assumes "\<And>p. service_later p (cl p)"
  shows "length (fold (\<lambda>a os. if pv_Done (os ! a) then os else os[a := cl (os ! a)]) hit os) = length os
    \<and> (\<forall>a < length os. service_later (os ! a) (fold (\<lambda>a os. if pv_Done (os ! a) then os else os[a := cl (os ! a)]) hit os ! a))"
proof (induction hit arbitrary: os)
  case (Cons b hit)
  have "service_later (os ! a) ((if pv_Done (os ! b) then os else os[b := cl (os ! b)]) ! a)" if "a < length os" for a
    using assms [of "os ! b"] that
    by (cases "b < length os"; cases "a = b") (auto simp: nth_list_update service_later_def)
  then show ?case
    using Cons.IH [of "if pv_Done (os ! b) then os else os[b := cl (os ! b)]"]
    by (fastforce simp: service_later_def)
qed (simp add: service_later_def)

lemma pm_Close_ok: "ports_ok m \<Longrightarrow> ports_ok (pm_Close (pv_Close ks as) p m)"
  unfolding pm_Close_def Let_def
  using fold_close [of "pv_Close ks as" "filter (\<lambda>a. pv_Port (pm_objs m ! a) = p) (pm_proxies m)" "pm_objs m", OF pv_Close_later]
  by (intro ports_ok_later) (auto simp: ports_ok_def)

lemma ports_reach_ok: "ports_reach m \<Longrightarrow> ports_ok m"
proof (induction rule: ports_reach.induct)
  case start
  then show ?case by (simp add: NewProxyManager_def ports_ok_def ports_def pm_live_def)
next
  case (service m a q)
  then show ?case
    using ports_ok_later [of m "(pm_objs m)[a := q]" "pm_proxies m"]
    by (auto simp: ports_ok_def nth_list_update service_later_def)
qed (auto intro: pm_Proxy_ok pm_Close_ok simp: pm_Proxies_def ports_ok_live)

section \<open>Properties\<close>

text \<open>
  C40: In every history of a node's proxies no two live services listen on the same port, whether the ports
  were asked for or chosen by the operating system.
\<close>

theorem proxy_ports_distinct:
  assumes "ports_reach m" "a \<in> set (fst (pm_Proxies m))" "b \<in> set (fst (pm_Proxies m))"
    and "pv_Port (pm_objs m ! a) = pv_Port (pm_objs m ! b)"
  shows "a = b"
proof -
  have "distinct (map (\<lambda>a. pv_Port (pm_objs m ! a)) (pm_live m))"
    using ports_reach_ok [OF assms(1)] by (simp add: ports_ok_def ports_def)
  then show ?thesis using assms(2-4) by (auto simp: pm_Proxies_def distinct_map dest: inj_onD)
qed

theorem proxy_ports_distinct_witness:
  "\<exists>m. ports_reach m \<and> fst (pm_Proxies m) = [0, 1]
    \<and> (pv_Port (pm_objs m ! 0) = pv_Port (pm_objs m ! 1) \<longrightarrow> (0 :: nat) = 1)"
proof -
  let ?l = "\<lambda>q p. Inr (if p = 0 then q else p) :: u64 result"
  obtain r m1 where m1: "pm_Proxy (?l 9) ''peer'' 8080 ''host:80'' NewProxyManager = (r, m1)" by force
  obtain r' m2 where m2: "pm_Proxy (?l 9) ''peer'' 0 ''host:80'' m1 = (r', m2)" by force
  have e1: "m1 = \<lparr>pm_objs = [(NewProxyService 8080 ''peer'' ''host:80'')], pm_proxies = [0]\<rparr>"
    using m1 by (auto simp: pm_Proxy_def NewProxyManager_def pm_live_def pv_Serve_def NewProxyService_def Let_def)
  have p1: "ports_reach m1"
    by (rule ports_reach.proxy [OF ports_reach.start _ m1])
      (simp add: os_ports_def NewProxyManager_def ports_def pm_live_def)
  have p2: "ports_reach m2"
    by (rule ports_reach.proxy [OF p1 _ m2])
      (simp add: os_ports_def e1 ports_def pm_live_def NewProxyService_def pv_Done_def)
  have two: "fst (pm_Proxies m2) = [0, 1]"
    using m2 by (auto simp: e1 pm_Proxies_def pm_Proxy_def pm_live_def pv_Serve_def NewProxyService_def pv_Done_def Let_def)
  show ?thesis
    using proxy_ports_distinct [OF p2, of 0 1] p2 two by auto
qed

text \<open>
  The connections a service accepts get pairwise different proxy identifiers, up to \<open>2 ^ 64\<close> of them, so
  a new connection never replaces the proxy of another one.
\<close>

theorem proxy_ids_distinct:
  assumes "n \<le> 2 ^ 64"
  shows "distinct (next_ids n base p)"
proof -
  have "inj_on (\<lambda>k. pv_connCounter p + of_nat k) (set [0..<n])"
  proof (rule inj_onI)
    fix j k
    assume "j \<in> set [0..<n]" "k \<in> set [0..<n]" "pv_connCounter p + of_nat j = pv_connCounter p + of_nat k"
    then have "(of_nat j :: u64) = of_nat k" "j < 2 ^ 64" "k < 2 ^ 64" using assms by auto
    then show "j = k" by (simp add: of_nat_inverse [where 'a = 64] word_of_nat_eq_iff take_bit_nat_eq_self)
  qed
  then show ?thesis
    by (auto simp: next_ids_at distinct_map inj_on_def id_at_inject)
qed

theorem proxy_ids_distinct_witness:
  "distinct (next_ids 3 ''peer'' (NewProxyService 8080 ''peer'' ''host:80''))"
  by (rule proxy_ids_distinct) simp

end
