(* ===== verification/Go_Strings.thy ===== *)
theory Go_Strings
  imports Go_Prelude "HOL-Library.Sublist"
begin

text \<open>
  What the program uses of \<open>strings\<close> and of \<open>path/filepath\<close> on Unix: splitting and joining at a
  separator, trimming Unicode white space, and the lexical operations \<open>Clean\<close>, \<open>Join\<close>, \<open>Dir\<close> and
  \<open>Base\<close>.  \<open>strings.HasPrefix(s, p)\<close> is \<open>prefix p s\<close>.
\<close>

section \<open>Strings\<close>

definition trim_prefix :: "bytes \<Rightarrow> bytes \<Rightarrow> bytes" where
  "trim_prefix p s = (if prefix p s then drop (length p) s else s)"

text \<open>\<open>strings.Split\<close> at a one-byte separator.\<close>

fun split_on :: "char \<Rightarrow> bytes \<Rightarrow> bytes list" where
  "split_on c [] = [[]]"
| "split_on c (x # xs) =
     (if x = c then [] # split_on c xs
      else (case split_on c xs of [] \<Rightarrow> [[x]] | w # ws \<Rightarrow> (x # w) # ws))"

fun join_with :: "bytes \<Rightarrow> bytes list \<Rightarrow> bytes" where
  "join_with sep [] = []"
| "join_with sep [w] = w"
| "join_with sep (w # v # ws) = w @ sep @ join_with sep (v # ws)"

lemma split_on_not_Nil [simp]: "split_on c s \<noteq> []"
  by (induction s) (auto split: list.split)

lemma join_split [simp]: "join_with [c] (split_on c s) = s"
proof (induction s)
  case (Cons x s)
  have "join_with [c] ((x # w) # ws) = x # join_with [c] (w # ws)" for w ws
    by (cases ws) auto
  with Cons show ?case by (cases "split_on c s") auto
qed simp

lemma split_on_append: "split_on c (u @ c # v) = split_on c u @ split_on c v"
  by (induction u) (auto split: list.split)

lemma split_on_plain: "c \<notin> set w \<Longrightarrow> split_on c w = [w]"
  by (induction w) auto

lemma split_join: "ws \<noteq> [] \<Longrightarrow> \<forall>w \<in> set ws. c \<notin> set w \<Longrightarrow> split_on c (join_with [c] ws) = ws"
proof (induction ws)
  case (Cons w ws)
  then show ?case using split_on_append [of c w] by (cases ws) (auto simp: split_on_plain)
qed simp

lemma split_on_no_sep: "w \<in> set (split_on c s) \<Longrightarrow> c \<notin> set w"
  by (induction s arbitrary: w) (auto split: list.splits if_splits)

text \<open>The UTF-8 encodings of the runes with \<open>unicode.IsSpace\<close>.\<close>

definition space_runes :: "bytes list" where
  "space_runes = [[CHR 0x09], [CHR 0x0A], [CHR 0x0B], [CHR 0x0C], [CHR 0x0D], [CHR 0x20],
     [CHR 0xC2, CHR 0x85], [CHR 0xC2, CHR 0xA0], [CHR 0xE1, CHR 0x9A, CHR 0x80],
     [CHR 0xE2, CHR 0x80, CHR 0x80], [CHR 0xE2, CHR 0x80, CHR 0x81], [CHR 0xE2, CHR 0x80, CHR 0x82],
     [CHR 0xE2, CHR 0x80, CHR 0x83], [CHR 0xE2, CHR 0x80, CHR 0x84], [CHR 0xE2, CHR 0x80, CHR 0x85],
     [CHR 0xE2, CHR 0x80, CHR 0x86], [CHR 0xE2, CHR 0x80, CHR 0x87], [CHR 0xE2, CHR 0x80, CHR 0x88],
     [CHR 0xE2, CHR 0x80, CHR 0x89], [CHR 0xE2, CHR 0x80, CHR 0x8A], [CHR 0xE2, CHR 0x80, CHR 0xA8],
     [CHR 0xE2, CHR 0x80, CHR 0xA9], [CHR 0xE2, CHR 0x80, CHR 0xAF], [CHR 0xE2, CHR 0x81, CHR 0x9F],
     [CHR 0xE3, CHR 0x80, CHR 0x80]]"

text \<open>Drop leading members of \<open>runes\<close>; the trailing ones are the leading ones of the reversal.\<close>

function drop_runes :: "bytes list \<Rightarrow> bytes \<Rightarrow> bytes" where
  "drop_runes runes s = (case find (\<lambda>r. r \<noteq> [] \<and> prefix r s) runes of
      None \<Rightarrow> s
    | Some r \<Rightarrow> drop_runes runes (drop (length r) s))"
  by pat_completeness auto
termination
  by (relation "measure (length \<circ> snd)") (auto simp: find_Some_iff prefix_def)

declare drop_runes.simps [simp del]

definition TrimSpace :: "bytes \<Rightarrow> bytes" where
  "TrimSpace s = rev (drop_runes (map rev space_runes) (rev (drop_runes space_runes s)))"

lemma drop_runes_suffix: "\<exists>u. s = u @ drop_runes runes s"
proof (induction runes s rule: drop_runes.induct)
  case (1 runes s)
  show ?case
  proof (cases "find (\<lambda>r. r \<noteq> [] \<and> prefix r s) runes")
    case None
    then show ?thesis by (subst drop_runes.simps) simp
  next
    case (Some r)
    then obtain v where v: "drop (length r) s = v @ drop_runes runes (drop (length r) s)"
      using 1 by blast
    have "s = take (length r) s @ drop (length r) s" by simp
    then have "s = (take (length r) s @ v) @ drop_runes runes (drop (length r) s)"
      using v by (metis append.assoc)
    then show ?thesis using Some by (subst drop_runes.simps) (simp only: option.case, blast)
  qed
qed

lemma drop_runes_none: "(\<And>r. r \<in> set runes \<Longrightarrow> r \<noteq> [] \<Longrightarrow> \<not> prefix r s) \<Longrightarrow> drop_runes runes s = s"
  by (subst drop_runes.simps) (auto split: option.split simp: find_Some_iff in_set_conv_nth)

lemma drop_runes_Nil [simp]: "drop_runes runes [] = []"
  by (rule drop_runes_none) auto

section \<open>Paths\<close>

text \<open>
  \<open>Clean\<close> element by element; \<open>out\<close> is the output so far, innermost element first.  A \<open>..\<close> removes the
  element before it, is dropped at the root, and is kept at the front of a relative path.
\<close>

fun clean_parts :: "bool \<Rightarrow> bytes list \<Rightarrow> bytes list \<Rightarrow> bytes list" where
  "clean_parts rooted out [] = rev out"
| "clean_parts rooted out (p # ps) =
     (if p = [] \<or> p = ''.'' then clean_parts rooted out ps
      else if p = ''..'' then
        (if out \<noteq> [] \<and> hd out \<noteq> ''..'' then clean_parts rooted (tl out) ps
         else if rooted then clean_parts rooted out ps
         else clean_parts rooted (p # out) ps)
      else clean_parts rooted (p # out) ps)"

definition is_rooted :: "bytes \<Rightarrow> bool" where
  "is_rooted s \<longleftrightarrow> prefix ''/'' s"

definition path_Clean :: "bytes \<Rightarrow> bytes" where
  "path_Clean s = (let rooted = is_rooted s; ps = clean_parts rooted [] (split_on CHR ''/'' s) in
     if rooted then CHR ''/'' # join_with ''/'' ps
     else if ps = [] then ''.'' else join_with ''/'' ps)"

text \<open>Empty elements are ignored; the result for no elements is the empty path.\<close>

definition path_Join :: "bytes list \<Rightarrow> bytes" where
  "path_Join es = (case dropWhile (\<lambda>e. e = []) es of [] \<Rightarrow> [] | e # es \<Rightarrow> path_Clean (join_with ''/'' (e # es)))"

text \<open>Everything up to the last slash, and the element after it.\<close>

definition path_Dir :: "bytes \<Rightarrow> bytes" where
  "path_Dir s = path_Clean (rev (dropWhile (\<lambda>c. c \<noteq> CHR ''/'') (rev s)))"

definition path_Base :: "bytes \<Rightarrow> bytes" where
  "path_Base s =
     (if s = [] then ''.''
      else (let t = rev (takeWhile (\<lambda>c. c \<noteq> CHR ''/'') (dropWhile (\<lambda>c. c = CHR ''/'') (rev s))) in
        if t = [] then ''/'' else t))"

text \<open>A plain element is neither empty nor a dot element and contains no slash.\<close>

definition plain :: "bytes \<Rightarrow> bool" where
  "plain p \<longleftrightarrow> p \<noteq> [] \<and> p \<noteq> ''.'' \<and> p \<noteq> ''..'' \<and> CHR ''/'' \<notin> set p"

lemma clean_parts_Cons: "plain p \<Longrightarrow> clean_parts rooted out (p # ps) = clean_parts rooted (p # out) ps"
  by (simp add: plain_def)

lemma clean_parts_plain: "\<forall>p \<in> set ps. plain p \<Longrightarrow> clean_parts rooted out ps = rev out @ ps"
  by (induction ps arbitrary: out) (auto simp: clean_parts_Cons simp del: clean_parts.simps(2))

lemma clean_parts_rooted:
  "\<forall>p \<in> set ps. CHR ''/'' \<notin> set p \<Longrightarrow> \<forall>p \<in> set out. plain p \<Longrightarrow> \<forall>p \<in> set (clean_parts True out ps). plain p"
proof (induction ps arbitrary: out)
  case (Cons p ps)
  have ps: "\<forall>p \<in> set ps. CHR ''/'' \<notin> set p" using Cons.prems(1) by simp
  have "\<forall>p \<in> set (tl out). plain p" using Cons.prems(2) by (cases out) simp_all
  then have tl: "\<forall>q \<in> set (clean_parts True (tl out) ps). plain q" by (rule Cons.IH [OF ps])
  have same: "\<forall>q \<in> set (clean_parts True out ps). plain q" by (rule Cons.IH [OF ps Cons.prems(2)])
  have push: "\<forall>q \<in> set (clean_parts True (p # out) ps). plain q" if "p \<noteq> []" "p \<noteq> ''.''" "p \<noteq> ''..''"
  proof (rule Cons.IH [OF ps])
    have "plain p" using that Cons.prems(1) by (simp add: plain_def)
    then show "\<forall>p \<in> set (p # out). plain p" using Cons.prems(2) by simp
  qed
  show ?case by (simp only: clean_parts.simps(2) split: if_split) (use tl same push in blast)
qed simp

lemma clean_parts_append:
  "\<forall>p \<in> set ps. plain p \<Longrightarrow> clean_parts rooted out (ps @ qs) = clean_parts rooted (rev ps @ out) qs"
  by (induction ps arbitrary: out) (auto simp: clean_parts_Cons simp del: clean_parts.simps(2))

lemma clean_parts_non_empty: "[] \<notin> set out \<Longrightarrow> [] \<notin> set (clean_parts rooted out ps)"
proof (induction ps arbitrary: out)
  case (Cons p ps)
  have "[] \<notin> set (tl out)" using Cons.prems by (cases out) auto
  then have "[] \<notin> set (clean_parts rooted (tl out) ps)" by (rule Cons.IH)
  moreover have "[] \<notin> set (clean_parts rooted out ps)" by (rule Cons.IH [OF Cons.prems])
  moreover have "p \<noteq> [] \<Longrightarrow> [] \<notin> set (clean_parts rooted (p # out) ps)"
    using Cons.prems by (intro Cons.IH) simp
  ultimately show ?case by (simp only: clean_parts.simps(2) split: if_split) blast
qed simp

lemma join_with_not_Nil: "ws \<noteq> [] \<Longrightarrow> [] \<notin> set ws \<Longrightarrow> join_with sep ws \<noteq> []"
  by (cases "(sep, ws)" rule: join_with.cases) auto

lemma path_Clean_not_Nil [simp]: "path_Clean s \<noteq> []"
proof -
  have "[] \<notin> set (clean_parts False [] (split_on CHR ''/'' s))" by (rule clean_parts_non_empty) simp
  then show ?thesis by (simp add: path_Clean_def Let_def join_with_not_Nil)
qed

text \<open>Without \<open>..\<close> nothing that is already in the output is removed.\<close>

lemma clean_parts_no_dotdot:
  "''..'' \<notin> set ps \<Longrightarrow> clean_parts rooted out ps = rev out @ filter (\<lambda>p. p \<noteq> [] \<and> p \<noteq> ''.'') ps"
  by (induction ps arbitrary: out) auto

lemma path_Clean_rooted: "is_rooted s \<Longrightarrow> split_on CHR ''/'' (path_Clean s) = [] # (case clean_parts True [] (split_on CHR ''/'' s) of
    [] \<Rightarrow> [[]] | p # ps \<Rightarrow> p # ps)"
proof -
  assume s: "is_rooted s"
  let ?ps = "clean_parts True [] (split_on CHR ''/'' s)"
  have "\<forall>p \<in> set ?ps. plain p"
    using split_on_no_sep [of _ "CHR ''/''" s] by (intro clean_parts_rooted) auto
  then have "?ps \<noteq> [] \<Longrightarrow> split_on CHR ''/'' (join_with ''/'' ?ps) = ?ps"
    by (intro split_join) (auto simp: plain_def)
  then show ?thesis using s by (cases ?ps) (auto simp: path_Clean_def Let_def)
qed

text \<open>\<open>Clean\<close> is idempotent on absolute paths.\<close>

lemma path_Clean_idem: "is_rooted s \<Longrightarrow> path_Clean (path_Clean s) = path_Clean s"
proof -
  assume s: "is_rooted s"
  let ?ps = "clean_parts True [] (split_on CHR ''/'' s)"
  have r: "is_rooted (path_Clean s)" using s by (simp add: path_Clean_def is_rooted_def Let_def)
  have p: "\<forall>p \<in> set ?ps. plain p"
    using split_on_no_sep [of _ "CHR ''/''" s] by (intro clean_parts_rooted) auto
  have "clean_parts True [] (split_on CHR ''/'' (path_Clean s)) = ?ps"
    using clean_parts_plain [OF p, of True "[]"] by (cases ?ps) (auto simp: path_Clean_rooted [OF s])
  then show ?thesis using s r by (simp add: path_Clean_def [of "path_Clean s"] Let_def) (simp add: path_Clean_def)
qed

end
