(* ===== verification/Go_Hash.thy ===== *)
theory Go_Hash
  imports Go_Prelude
begin

text \<open>
  \<open>crypto/sha256\<close> with \<open>encoding/hex\<close>: the checksum the file service compares.  The digest is FIPS 180-4
  on 32-bit words; nothing here models a line of the repository.
\<close>

unbundle bit_operations_syntax

text \<open>The round constants, four to a row of 128 bits.\<close>

definition sha_row :: "int \<Rightarrow> u32 list" where
  "sha_row r = map (\<lambda>i. of_int (r div 2 ^ (32 * i))) [3, 2, 1, 0]"

definition sha_K :: "u32 list" where
  "sha_K = concat (map sha_row [
     0x428a2f9871374491b5c0fbcfe9b5dba5, 0x3956c25b59f111f1923f82a4ab1c5ed5,
     0xd807aa9812835b01243185be550c7dc3, 0x72be5d7480deb1fe9bdc06a7c19bf174,
     0xe49b69c1efbe47860fc19dc6240ca1cc, 0x2de92c6f4a7484aa5cb0a9dc76f988da,
     0x983e5152a831c66db00327c8bf597fc7, 0xc6e00bf3d5a7914706ca635114292967,
     0x27b70a852e1b21384d2c6dfc53380d13, 0x650a7354766a0abb81c2c92e92722c85,
     0xa2bfe8a1a81a664bc24b8b70c76c51a3, 0xd192e819d6990624f40e3585106aa070,
     0x19a4c1161e376c082748774c34b0bcb5, 0x391c0cb34ed8aa4a5b9cca4f682e6ff3,
     0x748f82ee78a5636f84c878148cc70208, 0x90befffaa4506cebbef9a3f7c67178f2])"

definition sha_H :: "u32 list" where
  "sha_H = [
     0x6a09e667, 0xbb67ae85, 0x3c6ef372, 0xa54ff53a, 0x510e527f, 0x9b05688c, 0x1f83d9ab, 0x5be0cd19]"

section \<open>One block\<close>

definition sha_sched :: "u32 list \<Rightarrow> u32 list" where
  "sha_sched blk = fold (\<lambda>t ws.
     (let x = ws ! (t - 2); y = ws ! (t - 15);
          s1 = (word_rotr 17 x XOR word_rotr 19 x) XOR drop_bit 10 x;
          s0 = (word_rotr 7 y XOR word_rotr 18 y) XOR drop_bit 3 y
      in ws @ [s1 + ws ! (t - 7) + s0 + ws ! (t - 16)])) [16..<64] blk"

fun sha_round :: "u32 \<times> u32 \<Rightarrow> u32 list \<Rightarrow> u32 list" where
  "sha_round (k, w) [a, b, c, d, e, f, g, h] =
     (let t1 = h + ((word_rotr 6 e XOR word_rotr 11 e) XOR word_rotr 25 e) + ((e AND f) XOR (NOT e AND g)) + k + w;
          t2 = ((word_rotr 2 a XOR word_rotr 13 a) XOR word_rotr 22 a) + (((a AND b) XOR (a AND c)) XOR (b AND c))
      in [t1 + t2, a, b, c, d + t1, e, f, g])"
| "sha_round _ s = s"

definition sha_block :: "u32 list \<Rightarrow> u32 list \<Rightarrow> u32 list" where
  "sha_block s blk = map2 (+) s (fold sha_round (zip sha_K (sha_sched blk)) s)"

section \<open>Messages\<close>

definition be64 :: "nat \<Rightarrow> bytes" where
  "be64 n = map (\<lambda>i. char_of (n div 256 ^ (7 - i) mod 256)) [0..<8]"

text \<open>A one bit, zeros up to eight bytes before a block boundary, the length in bits.\<close>

definition sha_pad :: "bytes \<Rightarrow> bytes" where
  "sha_pad m = m @ CHR 0x80 # replicate ((119 - length m mod 64) mod 64) CHR 0x00 @ be64 (8 * length m)"

fun words_of :: "bytes \<Rightarrow> u32 list" where
  "words_of (a # b # c # d # r) = get_u32 [a, b, c, d] # words_of r"
| "words_of _ = []"

function sha_blocks :: "u32 list \<Rightarrow> u32 list \<Rightarrow> u32 list" where
  "sha_blocks s ws = (if ws = [] then s else sha_blocks (sha_block s (take 16 ws)) (drop 16 ws))"
  by pat_completeness auto
termination
  by (relation "measure (length \<circ> snd)") auto

declare sha_blocks.simps [simp del]

definition sha256 :: "bytes \<Rightarrow> bytes" where
  "sha256 m = concat (map put_u32 (sha_blocks sha_H (words_of (sha_pad m))))"

definition hex_digit :: "nat \<Rightarrow> char" where
  "hex_digit d = char_of (if d < 10 then 48 + d else 87 + d)"

definition hex_encode :: "bytes \<Rightarrow> bytes" where
  "hex_encode b = concat (map (\<lambda>c. [hex_digit (of_char c div 16), hex_digit (of_char c mod 16)]) b)"

definition checksum_of :: "bytes \<Rightarrow> bytes" where
  "checksum_of m = hex_encode (sha256 m)"

section \<open>Shape of a checksum\<close>

lemma length_sha_round: "length s = 8 \<Longrightarrow> length (sha_round kw s) = 8"
  by (cases "(kw, s)" rule: sha_round.cases) (auto simp: Let_def)

lemma length_sha_block: "length s = 8 \<Longrightarrow> length (sha_block s blk) = 8"
proof -
  have "length s = 8 \<Longrightarrow> length (fold sha_round ks s) = 8" for ks s
    by (induction ks arbitrary: s) (auto simp: length_sha_round)
  then show "length s = 8 \<Longrightarrow> length (sha_block s blk) = 8" by (simp add: sha_block_def)
qed

lemma length_sha_blocks: "length s = 8 \<Longrightarrow> length (sha_blocks s ws) = 8"
proof (induction s ws rule: sha_blocks.induct)
  case (1 s ws)
  then show ?case by (subst sha_blocks.simps) (simp add: length_sha_block)
qed

lemma length_checksum_of: "length (checksum_of m) = 64"
proof -
  have four: "length (concat (map put_u32 ws)) = 4 * length ws" for ws by (induction ws) auto
  have "length (sha_blocks sha_H (words_of (sha_pad m))) = 8" by (rule length_sha_blocks) (simp add: sha_H_def)
  then have "length (sha256 m) = 32" by (simp add: sha256_def four)
  moreover have "length (hex_encode b) = 2 * length b" for b by (induction b) (auto simp: hex_encode_def)
  ultimately show ?thesis by (simp add: checksum_of_def)
qed

lemma checksum_of_ascii: "c \<in> set (checksum_of m) \<Longrightarrow> (of_char c :: nat) < 128"
proof -
  have "(of_char (hex_digit d) :: nat) < 128" if "d < 16" for d using that by (simp add: hex_digit_def)
  moreover have "(of_char c :: nat) div 16 < 16" for c by (simp add: div_less_iff_less_mult)
  ultimately have "c \<in> set (hex_encode b) \<Longrightarrow> (of_char c :: nat) < 128" for b c
    by (auto simp: hex_encode_def)
  then show "c \<in> set (checksum_of m) \<Longrightarrow> (of_char c :: nat) < 128" by (simp add: checksum_of_def)
qed

end
