(* ===== verification/Filesystem.thy ===== *)
theory Filesystem
  imports Go_Strings Go_Copy Go_Hash "HOL-Library.AList" "HOL-Library.List_Lexorder" "HOL-Library.Char_ord"
begin

text \<open>
  What the file service uses of \<open>os\<close> on Unix: a tree of directories whose files refer to their contents
  by number, so an open file keeps its contents when its name goes.  The flag of a file says whether
  the process may read and write it, that of a directory whether entries can be made and removed.
  There are no symbolic links, every directory can be read, and only the program changes the tree.
  Nothing here models a line of the repository.
\<close>

section \<open>The tree\<close>

datatype fnode = FFile bool nat | FDir bool "(bytes \<times> fnode) list"

record filesys =
  fs_root :: fnode
  fs_data :: "bytes list"
  fs_cwd :: "bytes list"

fun node_at :: "fnode \<Rightarrow> bytes list \<Rightarrow> fnode option" where
  "node_at n [] = Some n"
| "node_at (FDir w es) (p # ps) = (case map_of es p of None \<Rightarrow> None | Some n \<Rightarrow> node_at n ps)"
| "node_at (FFile ok i) (p # ps) = None"

text \<open>Entries are kept in the order of their names, the order of \<open>os.ReadDir\<close>.\<close>

fun ins_entry :: "bytes \<Rightarrow> fnode \<Rightarrow> (bytes \<times> fnode) list \<Rightarrow> (bytes \<times> fnode) list" where
  "ins_entry p n [] = [(p, n)]"
| "ins_entry p n ((q, m) # es) =
     (if p = q then (p, n) # es else if p < q then (p, n) # (q, m) # es else (q, m) # ins_entry p n es)"

text \<open>Set or remove the entry at a location whose parent exists.\<close>

fun set_node :: "bytes list \<Rightarrow> fnode option \<Rightarrow> fnode \<Rightarrow> fnode" where
  "set_node [] x n = n"
| "set_node (p # ps) x (FFile ok i) = FFile ok i"
| "set_node (p # ps) x (FDir w es) =
     (if ps = [] then FDir w (case x of None \<Rightarrow> AList.delete p es | Some n \<Rightarrow> ins_entry p n es)
      else (case map_of es p of None \<Rightarrow> FDir w es | Some n \<Rightarrow> FDir w (ins_entry p (set_node ps x n) es)))"

interpretation entries: table map_of ins_entry AList.delete
proof
  show "map_of (ins_entry k v t) k' = (if k' = k then Some v else map_of t k')" for k k' :: bytes and v t
    by (induction k v t rule: ins_entry.induct) auto
  show "map_of (AList.delete k t) k' = (if k' = k then None else map_of t k')" for k k' :: bytes and t :: "(bytes \<times> fnode) list"
    by (simp add: delete_conv')
qed

fun parent_dir :: "fnode \<Rightarrow> bytes list \<Rightarrow> bool" where
  "parent_dir (FDir w es) [p] = True"
| "parent_dir (FDir w es) (p # q # ps) = (case map_of es p of None \<Rightarrow> False | Some n \<Rightarrow> parent_dir n (q # ps))"
| "parent_dir _ _ = False"

lemma node_at_set: "parent_dir n l \<Longrightarrow> node_at (set_node l x n) l = x"
proof (induction n l rule: parent_dir.induct)
  case (1 w es p)
  then show ?case by (auto simp: entries.find_ins entries.find_del split: option.split)
next
  case (2 w es p q ps)
  then show ?case by (auto simp: entries.find_ins split: option.splits)
qed auto

text \<open>A location that is neither above nor below keeps its node; a directory above keeps its flag.\<close>

lemma node_at_set_other: "\<not> prefix l l' \<Longrightarrow> \<not> prefix l' l \<Longrightarrow> node_at (set_node l x n) l' = node_at n l'"
proof (induction l x n arbitrary: l' rule: set_node.induct)
  case (3 p ps x w es)
  then obtain q qs where l': "l' = q # qs" by (cases l') auto
  show ?case
  proof (cases "q = p")
    case True
    then have "ps \<noteq> []" "\<not> prefix ps qs" "\<not> prefix qs ps" using 3 l' by auto
    then show ?thesis using 3 True l' by (auto simp: entries.find_ins split: option.split)
  next
    case False
    then show ?thesis using l'
      by (auto simp: entries.find_ins entries.find_del split: option.split)
  qed
qed auto

lemma node_at_append: "node_at n (l @ l') = Option.bind (node_at n l) (\<lambda>m. node_at m l')"
  by (induction n l rule: node_at.induct) (auto split: option.split)

lemma parent_dir_iff: "parent_dir n (l @ [p]) \<longleftrightarrow> (\<exists>w es. node_at n l = Some (FDir w es))"
proof (induction l arbitrary: n)
  case Nil
  then show ?case by (cases n) auto
next
  case (Cons q l)
  obtain r rs where r: "l @ [p] = r # rs" by (cases "l @ [p]") auto
  have "parent_dir (FDir w es) (q # l @ [p]) = (case map_of es q of None \<Rightarrow> False | Some m \<Rightarrow> parent_dir m (l @ [p]))" for w es
    using r by (simp split: option.split)
  moreover have "\<not> parent_dir (FFile ok i) (q # l @ [p])" for ok i by (simp add: r)
  ultimately show ?case using Cons.IH by (cases n) (auto split: option.split)
qed

lemma parent_dirI: "l \<noteq> [] \<Longrightarrow> node_at n (butlast l) = Some (FDir w es) \<Longrightarrow> parent_dir n l"
  using parent_dir_iff [of n "butlast l" "last l"] by auto

section \<open>Paths\<close>

definition ENOENT :: goerr where "ENOENT = Err ''no such file or directory''"
definition ENOTDIR :: goerr where "ENOTDIR = Err ''not a directory''"
definition EISDIR :: goerr where "EISDIR = Err ''is a directory''"
definition EACCES :: goerr where "EACCES = Err ''permission denied''"
definition ENOTEMPTY :: goerr where "ENOTEMPTY = Err ''directory not empty''"

lemma errnos_distinct [simp]: "ENOTDIR \<noteq> ENOENT" "EISDIR \<noteq> ENOENT" "EACCES \<noteq> ENOENT" "ENOTEMPTY \<noteq> ENOENT"
  by (simp_all add: ENOENT_def ENOTDIR_def EISDIR_def EACCES_def ENOTEMPTY_def)

text \<open>Follow a path element by element; everything before its last element has to be a directory.\<close>

fun walk :: "fnode \<Rightarrow> bytes list \<Rightarrow> bytes list \<Rightarrow> goerr + bytes list" where
  "walk root cur [] = Inr cur"
| "walk root cur (p # ps) = (case node_at root cur of
      None \<Rightarrow> Inl ENOENT
    | Some (FFile _ _) \<Rightarrow> Inl ENOTDIR
    | Some (FDir _ _) \<Rightarrow>
        if p = [] \<or> p = ''.'' then walk root cur ps
        else if p = ''..'' then walk root (butlast cur) ps
        else walk root (cur @ [p]) ps)"

definition start_dir :: "bytes \<Rightarrow> filesys \<Rightarrow> bytes list" where
  "start_dir path fs = (if is_rooted path then [] else fs_cwd fs)"

definition locate :: "bytes \<Rightarrow> filesys \<Rightarrow> goerr + bytes list" where
  "locate path fs = (if path = [] then Inl ENOENT
     else walk (fs_root fs) (start_dir path fs) (split_on CHR ''/'' path))"

text \<open>The error of operation \<open>op\<close>, \<open>os.PathError\<close>.\<close>

definition path_err :: "bytes \<Rightarrow> bytes \<Rightarrow> goerr \<Rightarrow> goerr" where
  "path_err op path e = Wrap (op @ '' '' @ path) e"

definition IsNotExist :: "goerr \<Rightarrow> bool" where
  "IsNotExist e = (case e of Wrap _ e' \<Rightarrow> e' = ENOENT | _ \<Rightarrow> False)"

definition os_Stat :: "bytes \<Rightarrow> filesys \<Rightarrow> fnode result" where
  "os_Stat path fs = (case locate path fs of
      Inl e \<Rightarrow> Inl (path_err ''stat'' path e)
    | Inr l \<Rightarrow> (case node_at (fs_root fs) l of None \<Rightarrow> Inl (path_err ''stat'' path ENOENT) | Some n \<Rightarrow> Inr n))"

fun is_file :: "fnode \<Rightarrow> bool" where
  "is_file (FFile _ _) = True"
| "is_file (FDir _ _) = False"

text \<open>\<open>Size\<close>; for a directory it depends on the system and is 0 here.\<close>

definition size_of :: "fnode \<Rightarrow> filesys \<Rightarrow> int" where
  "size_of n fs = (case n of FFile _ i \<Rightarrow> int (length (fs_data fs ! i)) | FDir _ _ \<Rightarrow> 0)"

definition os_ReadDir :: "bytes \<Rightarrow> filesys \<Rightarrow> (bytes \<times> fnode) list result" where
  "os_ReadDir path fs = (case locate path fs of
      Inl e \<Rightarrow> Inl (path_err ''open'' path e)
    | Inr l \<Rightarrow> (case node_at (fs_root fs) l of
          None \<Rightarrow> Inl (path_err ''open'' path ENOENT)
        | Some (FFile ok _) \<Rightarrow> Inl (if ok then path_err ''readdirent'' path ENOTDIR else path_err ''open'' path EACCES)
        | Some (FDir _ es) \<Rightarrow> Inr es))"

definition os_Open :: "bytes \<Rightarrow> filesys \<Rightarrow> fnode result" where
  "os_Open path fs = (case locate path fs of
      Inl e \<Rightarrow> Inl (path_err ''open'' path e)
    | Inr l \<Rightarrow> (case node_at (fs_root fs) l of
          None \<Rightarrow> Inl (path_err ''open'' path ENOENT)
        | Some (FFile ok i) \<Rightarrow> (if ok then Inr (FFile ok i) else Inl (path_err ''open'' path EACCES))
        | Some (FDir w es) \<Rightarrow> Inr (FDir w es)))"

text \<open>\<open>os.Create\<close>: the contents are emptied or a new file is made.\<close>

definition os_Create :: "bytes \<Rightarrow> filesys \<Rightarrow> nat result \<times> filesys" where
  "os_Create path fs = (case locate path fs of
      Inl e \<Rightarrow> (Inl (path_err ''open'' path e), fs)
    | Inr l \<Rightarrow> (case node_at (fs_root fs) l of
          Some (FDir _ _) \<Rightarrow> (Inl (path_err ''open'' path EISDIR), fs)
        | Some (FFile ok i) \<Rightarrow>
            if ok then (Inr i, fs\<lparr>fs_data := (fs_data fs)[i := []]\<rparr>)
            else (Inl (path_err ''open'' path EACCES), fs)
        | None \<Rightarrow> (case node_at (fs_root fs) (butlast l) of
              Some (FDir True _) \<Rightarrow>
                (let i = length (fs_data fs) in
                 (Inr i, fs\<lparr>fs_root := set_node l (Some (FFile True i)) (fs_root fs), fs_data := fs_data fs @ [[]]\<rparr>))
            | Some (FDir False _) \<Rightarrow> (Inl (path_err ''open'' path EACCES), fs)
            | _ \<Rightarrow> (Inl (path_err ''open'' path ENOENT), fs))))"

definition os_Remove :: "bytes \<Rightarrow> filesys \<Rightarrow> goerr option \<times> filesys" where
  "os_Remove path fs = (case locate path fs of
      Inl e \<Rightarrow> (Some (path_err ''remove'' path e), fs)
    | Inr l \<Rightarrow> (case node_at (fs_root fs) l of
          None \<Rightarrow> (Some (path_err ''remove'' path ENOENT), fs)
        | Some n \<Rightarrow>
            (case node_at (fs_root fs) (butlast l) of
               Some (FDir True _) \<Rightarrow>
                 if l = [] \<or> (\<not> is_file n \<and> n \<notin> {FDir True [], FDir False []})
                 then (Some (path_err ''remove'' path ENOTEMPTY), fs)
                 else (None, fs\<lparr>fs_root := set_node l None (fs_root fs)\<rparr>)
             | _ \<Rightarrow> (Some (path_err ''remove'' path EACCES), fs))))"

text \<open>\<open>os.MkdirAll\<close>: walk the path and make what is missing; what was made stays after a failure.\<close>

fun mkdir_walk :: "bytes list \<Rightarrow> bytes list \<Rightarrow> fnode \<Rightarrow> goerr option \<times> fnode" where
  "mkdir_walk cur [] root = (None, root)"
| "mkdir_walk cur (p # ps) root =
     (if p = [] \<or> p = ''.'' then mkdir_walk cur ps root
      else if p = ''..'' then mkdir_walk (butlast cur) ps root
      else (case node_at root (cur @ [p]) of
          Some (FDir _ _) \<Rightarrow> mkdir_walk (cur @ [p]) ps root
        | Some (FFile _ _) \<Rightarrow> (Some ENOTDIR, root)
        | None \<Rightarrow> (case node_at root cur of
              Some (FDir True _) \<Rightarrow> mkdir_walk (cur @ [p]) ps (set_node (cur @ [p]) (Some (FDir True [])) root)
            | Some (FDir False _) \<Rightarrow> (Some EACCES, root)
            | _ \<Rightarrow> (Some ENOENT, root))))"

definition os_MkdirAll :: "bytes \<Rightarrow> filesys \<Rightarrow> goerr option \<times> filesys" where
  "os_MkdirAll path fs =
     (if path = [] then (Some (path_err ''mkdir'' path ENOENT), fs)
      else (case mkdir_walk (start_dir path fs) (split_on CHR ''/'' path) (fs_root fs) of
          (e, root) \<Rightarrow> (map_option (path_err ''mkdir'' path) e, fs\<lparr>fs_root := root\<rparr>)))"

section \<open>Changes of the tree\<close>

lemma node_at_set_dir:
  "\<not> prefix l l' \<Longrightarrow> node_at n l' = Some (FDir w es) \<Longrightarrow> \<exists>es'. node_at (set_node l x n) l' = Some (FDir w es')"
proof (induction l x n arbitrary: l' rule: set_node.induct)
  case (3 p ps x u fs)
  show ?case
  proof (cases l')
    case Nil
    then show ?thesis using 3 by (auto split: option.split)
  next
    case (Cons q qs)
    show ?thesis
    proof (cases "q = p \<and> ps \<noteq> []")
      case True
      then show ?thesis using 3 Cons by (auto simp: entries.find_ins split: option.splits)
    next
      case False
      then have "q \<noteq> p" using 3 Cons by auto
      then show ?thesis using 3 Cons by (auto simp: entries.find_ins entries.find_del split: option.splits)
    qed
  qed
qed auto

text \<open>Nothing is below a location that is free or a file.\<close>

definition no_dir :: "fnode \<Rightarrow> bytes list \<Rightarrow> bool" where
  "no_dir n l \<longleftrightarrow> (case node_at n l of Some (FDir _ _) \<Rightarrow> False | _ \<Rightarrow> True)"

lemma below_no_dir: "no_dir n l \<Longrightarrow> node_at n (l @ p # ps) = None"
  by (auto simp: no_dir_def node_at_append split: option.splits fnode.splits)

lemma walk_set:
  "no_dir n l \<Longrightarrow> walk n cur ps = Inr l' \<Longrightarrow> walk (set_node l x n) cur ps = Inr l'"
proof (induction ps arbitrary: cur)
  case (Cons p ps)
  from Cons.prems(2) obtain w es where d: "node_at n cur = Some (FDir w es)"
    by (auto split: option.splits fnode.splits)
  have "\<not> prefix l cur"
  proof
    assume "prefix l cur"
    then obtain qs where qs: "cur = l @ qs" by (auto simp: prefix_def)
    show False
    proof (cases qs)
      case Nil
      then show ?thesis using d Cons.prems(1) qs by (simp add: no_dir_def)
    next
      case (Cons q rs)
      then show ?thesis using below_no_dir [OF Cons.prems(1)] d qs by simp
    qed
  qed
  then obtain es' where d': "node_at (set_node l x n) cur = Some (FDir w es')"
    using node_at_set_dir [OF _ d] by blast
  show ?case using Cons.prems(2) Cons.IH [OF Cons.prems(1)] by (auto simp: d d' split: if_splits)
qed simp

lemma locate_set:
  "no_dir (fs_root fs) l \<Longrightarrow> locate p fs = Inr l' \<Longrightarrow> locate p (fs\<lparr>fs_root := set_node l x (fs_root fs)\<rparr>) = Inr l'"
  using walk_set by (auto simp: locate_def start_dir_def split: if_splits)

lemma locate_same: "fs_root fs' = fs_root fs \<Longrightarrow> fs_cwd fs' = fs_cwd fs \<Longrightarrow> locate p fs' = locate p fs"
  by (simp add: locate_def start_dir_def)

text \<open>A path whose location is free in a writable directory or holds a file the process may use.\<close>

definition creatable :: "bytes \<Rightarrow> bytes list \<Rightarrow> filesys \<Rightarrow> bool" where
  "creatable p l fs \<longleftrightarrow> locate p fs = Inr l \<and> l \<noteq> [] \<and> (case node_at (fs_root fs) (butlast l) of Some (FDir w _) \<Rightarrow> w | _ \<Rightarrow> False)
     \<and> (case node_at (fs_root fs) l of None \<Rightarrow> True | Some (FFile ok i) \<Rightarrow> ok \<and> i < length (fs_data fs) | Some (FDir _ _) \<Rightarrow> False)"

lemma Create_ok:
  assumes "creatable p l fs"
  shows "\<exists>i fs'. os_Create p fs = (Inr i, fs') \<and> locate p fs' = Inr l \<and> node_at (fs_root fs') l = Some (FFile True i)
    \<and> i < length (fs_data fs') \<and> fs_data fs' ! i = [] \<and> creatable p l fs'"
proof -
  have l: "locate p fs = Inr l" "l \<noteq> []" using assms by (simp_all add: creatable_def)
  obtain es where d: "node_at (fs_root fs) (butlast l) = Some (FDir True es)"
    using assms by (auto simp: creatable_def split: option.splits fnode.splits)
  show ?thesis
  proof (cases "node_at (fs_root fs) l")
    case None
    then have nd: "no_dir (fs_root fs) l" by (simp add: no_dir_def)
    let ?i = "length (fs_data fs)"
    let ?root = "set_node l (Some (FFile True ?i)) (fs_root fs)"
    let ?fs = "fs\<lparr>fs_root := ?root, fs_data := fs_data fs @ [[]]\<rparr>"
    have "parent_dir (fs_root fs) l" using l(2) d by (rule parent_dirI)
    then have n: "node_at ?root l = Some (FFile True ?i)" by (rule node_at_set)
    have "locate p ?fs = locate p (fs\<lparr>fs_root := ?root\<rparr>)" by (rule locate_same) simp_all
    also have "\<dots> = Inr l" by (rule locate_set [OF nd l(1)])
    finally have loc: "locate p ?fs = Inr l" .
    have "\<not> prefix l (butlast l)" using prefix_length_le [of l "butlast l"] l(2) by (cases l) auto
    then obtain es' where "node_at ?root (butlast l) = Some (FDir True es')" using node_at_set_dir [OF _ d] by blast
    then have "creatable p l ?fs" using loc l(2) n by (simp add: creatable_def)
    moreover have "os_Create p fs = (Inr ?i, ?fs)" using None d l(1) by (simp add: os_Create_def Let_def)
    ultimately show ?thesis using loc n by auto
  next
    case (Some n)
    then obtain i where i: "n = FFile True i" "i < length (fs_data fs)"
      using assms by (cases n) (auto simp: creatable_def)
    let ?fs = "fs\<lparr>fs_data := (fs_data fs)[i := []]\<rparr>"
    have "locate p ?fs = Inr l" using l(1) locate_same [of ?fs fs] by simp
    then show ?thesis using Some i l d by (simp add: os_Create_def creatable_def)
  qed
qed

lemma Remove_ok:
  assumes "creatable p l fs" "node_at (fs_root fs) l = Some (FFile ok i)"
  shows "\<exists>fs'. os_Remove p fs = (None, fs') \<and> node_at (fs_root fs') l = None \<and> locate p fs' = Inr l \<and> fs_data fs' = fs_data fs"
proof -
  have l: "locate p fs = Inr l" "l \<noteq> []" using assms by (simp_all add: creatable_def)
  obtain es where d: "node_at (fs_root fs) (butlast l) = Some (FDir True es)"
    using assms by (auto simp: creatable_def split: option.splits fnode.splits)
  have nd: "no_dir (fs_root fs) l" using assms(2) by (simp add: no_dir_def)
  have "parent_dir (fs_root fs) l" using l(2) d by (rule parent_dirI)
  then have "node_at (set_node l None (fs_root fs)) l = None" by (rule node_at_set)
  then show ?thesis using assms(2) d l locate_set [OF nd l(1), of None] by (simp add: os_Remove_def)
qed

section \<open>Open files\<close>

text \<open>A handle is the number of the contents and an offset; the state of a reader or writer is the offset with the system.\<close>

definition overwrite :: "nat \<Rightarrow> bytes \<Rightarrow> bytes \<Rightarrow> bytes" where
  "overwrite off b c = take off c @ replicate (off - length c) (CHR 0x00) @ b @ drop (off + length b) c"

definition file_Read :: "nat \<Rightarrow> (nat \<times> filesys) reader" where
  "file_Read i n s = (case s of (off, fs) \<Rightarrow>
     (let b = take n (drop off (fs_data fs ! i)) in
      if b = [] then (RdErr EOF, s) else (RdData b, off + length b, fs)))"

definition file_Write :: "nat \<Rightarrow> (nat \<times> filesys) nwriter" where
  "file_Write i b s = (case s of (off, fs) \<Rightarrow>
     ((length b, None), off + length b, fs\<lparr>fs_data := (fs_data fs)[i := overwrite off b (fs_data fs ! i)]\<rparr>))"

definition file_pending :: "nat \<Rightarrow> nat \<times> filesys \<Rightarrow> bytes" where
  "file_pending i s = drop (fst s) (fs_data (snd s) ! i)"

text \<open>A writer at the end of its file.\<close>

definition at_end :: "nat \<Rightarrow> nat \<times> filesys \<Rightarrow> bool" where
  "at_end i s \<longleftrightarrow> i < length (fs_data (snd s)) \<and> fst s = length (fs_data (snd s) ! i)"

definition file_contents :: "nat \<Rightarrow> nat \<times> filesys \<Rightarrow> bytes" where
  "file_contents i s = fs_data (snd s) ! i"

lemma overwrite_end: "overwrite (length c) b c = c @ b"
  by (simp add: overwrite_def)

lemma drop_after_take: "drop (off + length (take n (drop off c))) c = drop n (drop off c)"
  by (auto simp: min_def add.commute)

interpretation file_source: byte_stream "file_Read i" "file_pending i" "\<lambda>_. True" "\<lambda>_. True" for i
proof
  fix s :: "nat \<times> filesys" and n :: nat
  assume n: "0 < n"
  show "\<exists>b s'. file_Read i n s = (RdData b, s') \<and> b \<noteq> [] \<and> length b \<le> n \<and> file_pending i s = b @ file_pending i s' \<and> True"
    if "file_pending i s \<noteq> []"
  proof -
    obtain off fs where s: "s = (off, fs)" by (cases s)
    let ?p = "drop off (fs_data fs ! i)"
    have "length (take n ?p) \<le> n" by simp
    moreover have "?p = take n ?p @ drop (off + length (take n ?p)) (fs_data fs ! i)"
      by (simp only: drop_after_take append_take_drop_id)
    moreover have "take n ?p \<noteq> []" using that n by (simp add: s file_pending_def)
    ultimately show ?thesis by (simp add: s file_Read_def file_pending_def Let_def del: length_take drop_drop)
  qed
  show "\<exists>s'. file_Read i n s = (RdErr EOF, s')" if "file_pending i s = []"
    using that by (cases s) (simp add: file_Read_def file_pending_def Let_def)
qed auto

interpretation file_sink: byte_sink "err_of (file_Write i)" "file_contents i" "\<lambda>b s. True" "at_end i" for i
  by unfold_locales (auto simp: err_of_def file_Write_def file_contents_def at_end_def overwrite_end)

interpretation file_to_stream: copier "file_Read i" "file_pending i" "\<lambda>_. True" "\<lambda>_. True"
    "stream_Write a" "stream_sent a" "stream_accepts a" framed for i a
  by (rule copier.intro, rule file_source.byte_stream_axioms, rule conn_to_stream.snk.byte_sink_axioms)
    (unfold copier_axioms_def, blast intro: conn_to_stream.takes_all)

text \<open>\<open>io.LimitReader\<close>: the state is what may still be read with the source.\<close>

definition limit_Read :: "'s reader \<Rightarrow> (nat \<times> 's) reader" where
  "limit_Read rd k s = (if fst s = 0 then (RdErr EOF, s)
     else (case rd (min k (fst s)) (snd s) of
         (RdData b, s') \<Rightarrow> (RdData b, fst s - length b, s')
       | (r, s') \<Rightarrow> (r, fst s, s')))"

context byte_source
begin

lemma limit_source: "byte_stream (limit_Read rd) (\<lambda>s. take (fst s) (pending (snd s)))
    (\<lambda>s. wf (snd s) \<and> fst s \<le> length (pending (snd s))) (\<lambda>_. True)"
proof
  fix s :: "nat \<times> 's" and n :: nat
  assume s: "wf (snd s) \<and> fst s \<le> length (pending (snd s))" and n: "0 < n"
  show "\<exists>b s'. limit_Read rd n s = (RdData b, s') \<and> b \<noteq> [] \<and> length b \<le> n
      \<and> take (fst s) (pending (snd s)) = b @ take (fst s') (pending (snd s'))
      \<and> wf (snd s') \<and> fst s' \<le> length (pending (snd s'))" if "take (fst s) (pending (snd s)) \<noteq> []"
  proof -
    have ne: "fst s \<noteq> 0" "pending (snd s) \<noteq> []" using that by auto
    then obtain b s' where b: "rd (min n (fst s)) (snd s) = (RdData b, s')" "b \<noteq> []" "length b \<le> min n (fst s)"
        "pending (snd s) = b @ pending s'" "wf s'"
      using rd_some [of "snd s" "min n (fst s)"] s n by auto
    then show ?thesis using ne s by (auto simp: limit_Read_def)
  qed
  show "\<exists>s'. limit_Read rd n s = (RdErr EOF, s')" if "take (fst s) (pending (snd s)) = []"
    using that s by (auto simp: limit_Read_def)
qed

end

interpretation limited_stream: byte_stream "limit_Read (stream_Read a)" "\<lambda>s. take (fst s) (stream_pending a (snd s))"
    "\<lambda>s. a < length (objs (snd s)) \<and> fst s \<le> length (stream_pending a (snd s))" "\<lambda>_. True" for a
  by (rule stream_src.limit_source)

interpretation stream_to_file: copier "limit_Read (stream_Read a)" "\<lambda>s. take (fst s) (stream_pending a (snd s))"
    "\<lambda>s. a < length (objs (snd s)) \<and> fst s \<le> length (stream_pending a (snd s))" "\<lambda>_. True"
    "file_Write i" "file_contents i" "\<lambda>b s. True" "at_end i" for a i
  by (rule copier.intro, rule limited_stream.byte_stream_axioms, rule file_sink.byte_sink_axioms)
    (auto simp: copier_axioms_def file_Write_def split: prod.splits)

section \<open>Copies that advance in steps\<close>

text \<open>
  A goroutine that copies is a step function whose state holds both ends; while it copies, a step is a
  round.  It reaches a state where everything pending has been moved.
\<close>

context copier
begin

lemma copy_drain:
  assumes step: "\<And>x s' d'. going x \<Longrightarrow> copy_round rd w (src x, dst x) = (CopyNext, s', d') \<Longrightarrow>
      going (step x) \<and> src (step x) = s' \<and> dst (step x) = d'"
  shows "going x \<Longrightarrow> swf (src x) \<Longrightarrow> dwf (dst x) \<Longrightarrow> ended (src x) \<Longrightarrow> (\<And>b. length b \<le> copyBuf \<Longrightarrow> accepts b (dst x)) \<Longrightarrow>
    \<exists>n \<le> length (pending (src x)). \<exists>x'. (step ^^ n) x = x' \<and> going x' \<and> swf (src x') \<and> ended (src x') \<and> dwf (dst x')
      \<and> pending (src x') = [] \<and> sent_bytes (dst x') = sent_bytes (dst x) @ pending (src x)"
proof (induction "length (pending (src x))" arbitrary: x rule: less_induct)
  case less
  show ?case
  proof (cases "pending (src x) = []")
    case True
    then show ?thesis using less.prems by (intro exI [of _ 0]) simp
  next
    case False
    obtain b s' d' where r: "copy_round rd w (src x, dst x) = (CopyNext, s', d')" "b \<noteq> []" "pending (src x) = b @ pending s'"
        "swf s'" "ended (src x) \<longrightarrow> ended s'" "sent_bytes d' = sent_bytes (dst x) @ b" "dwf d'"
        "\<forall>b. length b \<le> copyBuf \<longrightarrow> accepts b d'"
      using copy_round_data [OF less.prems(2) False less.prems(3,5)] by blast
    have x': "going (step x)" "src (step x) = s'" "dst (step x) = d'" using step [OF less.prems(1) r(1)] by blast+
    have "length (pending (src (step x))) < length (pending (src x))" using r(2,3) x'(2) by (cases b) auto
    then obtain n where n: "n \<le> length (pending s')" "going ((step ^^ n) (step x))" "swf (src ((step ^^ n) (step x)))"
        "ended (src ((step ^^ n) (step x)))" "dwf (dst ((step ^^ n) (step x)))" "pending (src ((step ^^ n) (step x))) = []"
        "sent_bytes (dst ((step ^^ n) (step x))) = sent_bytes d' @ pending s'"
      using less.hyps [of "step x"] x' r less.prems(4) by auto
    have "Suc n \<le> length (pending (src x))" using n(1) r(2,3) by (cases b) auto
    moreover have "(step ^^ Suc n) x = (step ^^ n) (step x)" by (simp add: funpow_Suc_right del: funpow.simps)
    ultimately show ?thesis using n r(3,6) by (intro exI [of _ "Suc n"]) (simp del: funpow.simps)
  qed
qed

end

end
