(* ===== verification/File_Server.thy ===== *)
theory File_Server
  imports Filesystem Service_Replies
begin

text \<open>
  \<open>p2p/protocols/file/service/server.go\<close> and the dispatcher of \<open>handlers.go\<close>.  The server extends
  \<open>base_server\<close> with its data directory and the file system.  The goroutines of a download
  (\<open>transferFile\<close>) and of an upload (\<open>receiveFile\<close>) are objects that advance in steps: a round of their
  copy, a byte of the header, the creation and the verification of the file.  The branch that a timeout
  takes is a step of its own.
\<close>

section \<open>State\<close>

text \<open>A transfer that copies has the number of the open contents and its offset; a receipt also what \<open>io.CopyN\<close> still expects.\<close>

datatype tf_phase = TfOpen | TfCopy nat nat | TfDone

record transfer =
  tf_stream :: addr
  tf_path :: bytes
  tf_phase :: tf_phase

datatype rv_phase = RvInfo bytes | RvCreate file_info | RvCopy file_info nat nat nat | RvVerify file_info | RvDone

record receipt =
  rv_stream :: addr
  rv_path :: bytes
  rv_phase :: rv_phase

record file_server = base_server +
  fv_dataDir :: bytes
  fv_fs :: filesys
  fv_transfers :: "transfer list"
  fv_receipts :: "receipt list"

definition fv_NewServer :: "conn option \<Rightarrow> bytes \<Rightarrow> filesys \<Rightarrow> file_server option" where
  "fv_NewServer c dataDir fs = (case c of
      None \<Rightarrow> None
    | Some _ \<Rightarrow> (case NewBaseServer c of
          None \<Rightarrow> None
        | Some b \<Rightarrow> Some (base_server.extend b \<lparr>fv_dataDir = dataDir, fv_fs = fs, fv_transfers = [], fv_receipts = []\<rparr>)))"

definition fv_Accept :: "bool \<Rightarrow> file_server option \<Rightarrow> unit rres \<times> file_server option" where
  "fv_Accept timeout s = Accept timeout (Some fileHandshakeHandler) s"

section \<open>Responses\<close>

definition sendListSuccess :: "file_entry list \<Rightarrow> file_server \<Rightarrow> goerr option \<times> file_server" where
  "sendListSuccess files s = reply (NewFileListResponsePacket True (Some files) []) s"

definition sendListError :: "bytes \<Rightarrow> file_server \<Rightarrow> goerr option \<times> file_server" where
  "sendListError errMsg s = reply (NewFileListResponsePacket False None errMsg) s"

definition sendGetSuccess :: "u32 \<Rightarrow> file_info \<Rightarrow> file_server \<Rightarrow> goerr option \<times> file_server" where
  "sendGetSuccess streamID fileInfo s = reply (NewFileGetResponsePacket True streamID (Some fileInfo) []) s"

definition sendGetError :: "bytes \<Rightarrow> file_server \<Rightarrow> goerr option \<times> file_server" where
  "sendGetError errMsg s = reply (NewFileGetResponsePacket False 0 None errMsg) s"

definition sendSendSuccess :: "u32 \<Rightarrow> file_server \<Rightarrow> goerr option \<times> file_server" where
  "sendSendSuccess streamID s = reply (NewFileSendResponsePacket True streamID []) s"

definition sendSendError :: "bytes \<Rightarrow> file_server \<Rightarrow> goerr option \<times> file_server" where
  "sendSendError errMsg s = reply (NewFileSendResponsePacket False 0 errMsg) s"

section \<open>Checksums\<close>

text \<open>Reading a directory fails.\<close>

definition calculateChecksum :: "bytes \<Rightarrow> filesys \<Rightarrow> bytes result" where
  "calculateChecksum filePath fs = (case os_Open filePath fs of
      Inl e \<Rightarrow> Inl e
    | Inr (FDir _ _) \<Rightarrow> Inl (path_err ''read'' filePath EISDIR)
    | Inr (FFile _ i) \<Rightarrow> Inr (checksum_of (fs_data fs ! i)))"

section \<open>Listing\<close>

text \<open>
  The body of the loops over the entries of \<open>dirPath\<close>: \<open>sub\<close> lists a subdirectory, an entry that cannot
  be examined is left out, and so are the children when listing them fails.  An outer \<open>None\<close> means that
  the fuel of the recursion is used up.
\<close>

definition list_entry :: "(bytes \<Rightarrow> file_entry list result option) \<Rightarrow> bytes \<Rightarrow> bytes \<Rightarrow> bytes \<Rightarrow> filesys
    \<Rightarrow> bytes \<times> fnode \<Rightarrow> file_entry list option" where
  "list_entry sub display dirPath relativePath fs e = (case e of (name, n) \<Rightarrow>
     if \<not> is_file n
     then map_option (\<lambda>r. [FileEntry display name 0 True (case r of Inl _ \<Rightarrow> None | Inr cs \<Rightarrow> Some cs)])
            (sub (path_Join [relativePath, name]))
     else (case os_Stat (path_Join [dirPath, name]) fs of
         Inl _ \<Rightarrow> Some []
       | Inr fi \<Rightarrow> Some [FileEntry display name (size_of fi fs) False None]))"

definition list_entries :: "(bytes \<Rightarrow> file_entry list result option) \<Rightarrow> bytes \<Rightarrow> bytes \<Rightarrow> bytes \<Rightarrow> filesys
    \<Rightarrow> (bytes \<times> fnode) list \<Rightarrow> file_entry list option" where
  "list_entries sub display dirPath relativePath fs es =
     map_option concat (those (map (list_entry sub display dirPath relativePath fs) es))"

fun listRecursive :: "nat \<Rightarrow> bytes \<Rightarrow> filesys \<Rightarrow> bytes \<Rightarrow> file_entry list result option" where
  "listRecursive 0 dataDir fs relativePath = None"
| "listRecursive (Suc k) dataDir fs relativePath =
     (let dirPath = path_Join [dataDir, relativePath] in
      (case os_ReadDir dirPath fs of
         Inl e \<Rightarrow> Some (Inl e)
       | Inr es \<Rightarrow> map_option Inr (list_entries (listRecursive k dataDir fs) relativePath dirPath relativePath fs es)))"

fun tree_height :: "fnode \<Rightarrow> nat" where
  "tree_height (FFile _ _) = 0"
| "tree_height (FDir _ es) = Suc (fold max (map (\<lambda>(_, n). tree_height n) es) 0)"

text \<open>A request's path without its leading slash.\<close>

definition relative_path :: "bytes \<Rightarrow> bytes" where
  "relative_path p = (if p \<noteq> [] \<and> hd p = CHR ''/'' then tl p else p)"

definition fv_handleList :: "handshake \<Rightarrow> file_server \<Rightarrow> goerr option \<times> file_server" where
  "fv_handleList h s =
     (case UnmarshalPayload file_list_request_fields (Some h) (Some no_file_list_request) of
       (_, Some e) \<Rightarrow> sendListError (''invalid request: '' @ err_text e) s
     | (r, None) \<Rightarrow>
        (let r = (case r of None \<Rightarrow> no_file_list_request | Some r \<Rightarrow> r);
             relativePath = relative_path (flq_path r);
             dirPath = path_Join [fv_dataDir s, relativePath];
             fs = fv_fs s;
             sub = (if flq_recursive r then listRecursive (tree_height (fs_root fs)) (fv_dataDir s) fs
                    else (\<lambda>_. Some (Inl (Err []))));
             display = (if relativePath = [] then ''/'' else relativePath)
         in if (case os_Stat dirPath fs of Inl e \<Rightarrow> IsNotExist e | Inr _ \<Rightarrow> False)
            then sendListError (''directory not found: '' @ flq_path r) s
            else (case os_ReadDir dirPath fs of
                Inl e \<Rightarrow> sendListError (''failed to read directory: '' @ err_text e) s
              | Inr es \<Rightarrow> (case list_entries sub display dirPath relativePath fs es of
                    None \<Rightarrow> (Some (Err ''stack overflow''), s)
                  | Some files \<Rightarrow> sendListSuccess files s))))"

section \<open>Downloads and uploads\<close>

definition fv_handleGet :: "handshake \<Rightarrow> file_server \<Rightarrow> goerr option \<times> file_server" where
  "fv_handleGet h s =
     (case UnmarshalPayload file_get_request_fields (Some h) (Some no_file_get_request) of
       (_, Some e) \<Rightarrow> sendGetError (''invalid request: '' @ err_text e) s
     | (r, None) \<Rightarrow>
        (let fileName = (case r of None \<Rightarrow> [] | Some r \<Rightarrow> fgq_file_name r);
             filePath = path_Join [fv_dataDir s, fileName]; fs = fv_fs s
         in if (case os_Stat filePath fs of Inl e \<Rightarrow> IsNotExist e | Inr _ \<Rightarrow> False)
            then sendGetError (''file not found: '' @ fileName) s
            else (case os_Stat filePath fs of
                Inl e \<Rightarrow> sendGetError (''failed to stat file: '' @ err_text e) s
              | Inr fi \<Rightarrow> (case calculateChecksum filePath fs of
                    Inl e \<Rightarrow> sendGetError (''failed to calculate checksum: '' @ err_text e) s
                  | Inr checksum \<Rightarrow> (case NextStreamID s of (streamID, s) \<Rightarrow>
                     (case OpenStreamWithID streamID (ss_mux s) of
                        (Inl e, m) \<Rightarrow> sendGetError (''failed to open data stream: '' @ err_text e) (s\<lparr>ss_mux := m\<rparr>)
                      | (Inr a, m) \<Rightarrow>
                         (case sendGetSuccess streamID \<lparr>fi_filename = fileName, fi_size = size_of fi fs, fi_checksum = checksum\<rparr>
                             (s\<lparr>ss_mux := m\<rparr>) of
                            (Some e, s) \<Rightarrow> (Some e, s\<lparr>ss_mux := snd (stream_Close a (ss_mux s))\<rparr>)
                          | (None, s) \<Rightarrow> (None, s\<lparr>fv_transfers := fv_transfers s
                               @ [\<lparr>tf_stream = a, tf_path = filePath, tf_phase = TfOpen\<rparr>]\<rparr>))))))))"

text \<open>The test file shows that the directory is writable.\<close>

definition write_test :: "bytes \<Rightarrow> filesys \<Rightarrow> goerr option \<times> filesys" where
  "write_test dir fs = (let testFile = path_Join [dir, ''.stellar_write_test''] in
     (case os_Create testFile fs of
        (Inl e, fs) \<Rightarrow> (Some e, fs)
      | (Inr _, fs) \<Rightarrow> (None, snd (os_Remove testFile fs))))"

definition fv_handleSend :: "handshake \<Rightarrow> file_server \<Rightarrow> goerr option \<times> file_server" where
  "fv_handleSend h s =
     (case UnmarshalPayload file_send_request_fields (Some h) (Some no_file_send_request) of
       (_, Some e) \<Rightarrow> sendSendError (''invalid request: '' @ err_text e) s
     | (r, None) \<Rightarrow>
        (let fileName = (case r of None \<Rightarrow> [] | Some r \<Rightarrow> fsq_file_name r);
             filePath = path_Join [fv_dataDir s, fileName]; dir = path_Dir filePath
         in (case os_MkdirAll dir (fv_fs s) of
               (Some e, fs) \<Rightarrow> sendSendError (''failed to create directory: '' @ err_text e) (s\<lparr>fv_fs := fs\<rparr>)
             | (None, fs) \<Rightarrow> (case write_test dir fs of
                  (Some e, fs) \<Rightarrow> sendSendError (''directory not writable: '' @ err_text e) (s\<lparr>fv_fs := fs\<rparr>)
                | (None, fs) \<Rightarrow> (case NextStreamID (s\<lparr>fv_fs := fs\<rparr>) of (streamID, s) \<Rightarrow>
                   (case OpenStreamWithID streamID (ss_mux s) of
                      (Inl e, m) \<Rightarrow> sendSendError (''failed to open data stream: '' @ err_text e) (s\<lparr>ss_mux := m\<rparr>)
                    | (Inr a, m) \<Rightarrow> (case sendSendSuccess streamID (s\<lparr>ss_mux := m\<rparr>) of
                          (Some e, s) \<Rightarrow> (Some e, s\<lparr>ss_mux := snd (stream_Close a (ss_mux s))\<rparr>)
                        | (None, s) \<Rightarrow> (None, s\<lparr>fv_receipts := fv_receipts s
                             @ [\<lparr>rv_stream = a, rv_path = filePath, rv_phase = RvInfo []\<rparr>]\<rparr>))))))))"

definition dispatchControlPacket :: "handshake option \<Rightarrow> file_server \<Rightarrow> goerr option \<times> file_server" where
  "dispatchControlPacket h s = (case h of
      None \<Rightarrow> (Some (Err ''nil handshake packet''), s)
    | Some h \<Rightarrow>
        if h_type h = HandshakeTypeFileList then fv_handleList h s
        else if h_type h = HandshakeTypeFileGet then fv_handleGet h s
        else if h_type h = HandshakeTypeFileSend then fv_handleSend h s
        else (Some (Err (''unknown type: '' @ h_type h)), s))"

text \<open>\<open>Dispatch\<close> of the packet dispatcher routes the same requests.\<close>

definition fv_Dispatch :: "handshake \<Rightarrow> file_server \<Rightarrow> goerr option \<times> file_server" where
  "fv_Dispatch h s =
     (if h_type h = HandshakeTypeFileList then fv_handleList h s
      else if h_type h = HandshakeTypeFileGet then fv_handleGet h s
      else if h_type h = HandshakeTypeFileSend then fv_handleSend h s
      else (Some (Err (''unknown type: '' @ h_type h)), s))"

definition fv_Serve :: "nat \<Rightarrow> bool \<Rightarrow> file_server \<Rightarrow> unit rres \<times> file_server" where
  "fv_Serve k cancelled s = Serve k cancelled (Some fv_Dispatch) s"

section \<open>The goroutine of a download\<close>

definition set_transfer :: "nat \<Rightarrow> tf_phase \<Rightarrow> file_server \<Rightarrow> file_server" where
  "set_transfer t ph s = s\<lparr>fv_transfers := (fv_transfers s)[t := (fv_transfers s ! t)\<lparr>tf_phase := ph\<rparr>]\<rparr>"

text \<open>The deferred \<open>stream.Close()\<close> at a return.\<close>

definition end_transfer :: "nat \<Rightarrow> file_server \<Rightarrow> file_server" where
  "end_transfer t s =
     (let s = s\<lparr>ss_mux := snd (stream_Close (tf_stream (fv_transfers s ! t)) (ss_mux s))\<rparr> in set_transfer t TfDone s)"

definition transferFile :: "nat \<Rightarrow> file_server \<Rightarrow> file_server" where
  "transferFile t s = (let tf = fv_transfers s ! t in
     (case tf_phase tf of
        TfOpen \<Rightarrow> (case os_Open (tf_path tf) (fv_fs s) of
            Inl _ \<Rightarrow> end_transfer t s
          | Inr (FDir _ _) \<Rightarrow> end_transfer t s
          | Inr (FFile _ i) \<Rightarrow> set_transfer t (TfCopy i 0) s)
      | TfCopy i off \<Rightarrow> (case copy_round (file_Read i) (stream_Write (tf_stream tf)) ((off, fv_fs s), ss_mux s) of
            (r, (off', fs), m) \<Rightarrow>
              (let s = s\<lparr>ss_mux := m\<rparr> in
               (case r of CopyEnd _ \<Rightarrow> end_transfer t s | _ \<Rightarrow> set_transfer t (TfCopy i off') s)))
      | TfDone \<Rightarrow> s))"

definition transfer_timeout :: "nat \<Rightarrow> file_server \<Rightarrow> file_server" where
  "transfer_timeout t s = (case tf_phase (fv_transfers s ! t) of TfCopy _ _ \<Rightarrow> end_transfer t s | _ \<Rightarrow> s)"

section \<open>The goroutine of an upload\<close>

definition set_receipt :: "nat \<Rightarrow> rv_phase \<Rightarrow> file_server \<Rightarrow> file_server" where
  "set_receipt t ph s = s\<lparr>fv_receipts := (fv_receipts s)[t := (fv_receipts s ! t)\<lparr>rv_phase := ph\<rparr>]\<rparr>"

definition end_receipt :: "nat \<Rightarrow> file_server \<Rightarrow> file_server" where
  "end_receipt t s =
     (let s = s\<lparr>ss_mux := snd (stream_Close (rv_stream (fv_receipts s ! t)) (ss_mux s))\<rparr> in set_receipt t RvDone s)"

text \<open>\<open>os.Remove(filePath)\<close> and return.\<close>

definition abandon :: "nat \<Rightarrow> file_server \<Rightarrow> file_server" where
  "abandon t s = end_receipt t (s\<lparr>fv_fs := snd (os_Remove (rv_path (fv_receipts s ! t)) (fv_fs s))\<rparr>)"

definition parse_info :: "bytes \<Rightarrow> file_info option" where
  "parse_info text = (case unmarshal file_info_fields text no_file_info of (r, True) \<Rightarrow> Some r | (_, False) \<Rightarrow> None)"

text \<open>Read one byte of the header; at its end decode it.\<close>

definition receive_header :: "nat \<Rightarrow> bytes \<Rightarrow> file_server \<Rightarrow> file_server" where
  "receive_header t acc s =
     (case stream_Read (rv_stream (fv_receipts s ! t)) 1 (ss_mux s) of
        (RdBlock, _) \<Rightarrow> s
      | (RdErr _, m) \<Rightarrow> end_receipt t (s\<lparr>ss_mux := m\<rparr>)
      | (RdData [], m) \<Rightarrow> s\<lparr>ss_mux := m\<rparr>
      | (RdData (c # _), m) \<Rightarrow>
          (let s = s\<lparr>ss_mux := m\<rparr> in
           if c \<noteq> CHR 0x0A then set_receipt t (RvInfo (acc @ [c])) s
           else (case parse_info acc of None \<Rightarrow> end_receipt t s | Some info \<Rightarrow> set_receipt t (RvCreate info) s)))"

definition receiveFile :: "nat \<Rightarrow> file_server \<Rightarrow> file_server" where
  "receiveFile t s = (let rv = fv_receipts s ! t in
     (case rv_phase rv of
        RvInfo acc \<Rightarrow> receive_header t acc s
      | RvCreate info \<Rightarrow> (case os_Create (rv_path rv) (fv_fs s) of
            (Inl _, fs) \<Rightarrow> end_receipt t (s\<lparr>fv_fs := fs\<rparr>)
          | (Inr i, fs) \<Rightarrow> set_receipt t (RvCopy info i 0 (nat (fi_size info))) (s\<lparr>fv_fs := fs\<rparr>))
      | RvCopy info i off rem \<Rightarrow>
          (case copy_round (limit_Read (stream_Read (rv_stream rv))) (file_Write i) ((rem, ss_mux s), (off, fv_fs s)) of
             (r, (rem', m), (off', fs)) \<Rightarrow>
               (let s = s\<lparr>ss_mux := m, fv_fs := fs\<rparr> in
                (case r of
                   CopyEnd e \<Rightarrow>
                     if e = None \<and> int (nat (fi_size info) - rem') = fi_size info
                     then set_receipt t (RvVerify info) s else abandon t s
                 | _ \<Rightarrow> set_receipt t (RvCopy info i off' rem') s)))
      | RvVerify info \<Rightarrow> (case calculateChecksum (rv_path rv) (fv_fs s) of
            Inl _ \<Rightarrow> abandon t s
          | Inr checksum \<Rightarrow> if checksum \<noteq> fi_checksum info then abandon t s else end_receipt t s)
      | RvDone \<Rightarrow> s))"

definition receive_timeout :: "nat \<Rightarrow> file_server \<Rightarrow> file_server" where
  "receive_timeout t s = (case rv_phase (fv_receipts s ! t) of
      RvInfo _ \<Rightarrow> end_receipt t s
    | RvCopy _ _ _ _ \<Rightarrow> abandon t s
    | _ \<Rightarrow> s)"

end
