(* ===== verification/File_Client.thy ===== *)
theory File_Client
  imports File_Server Base_Client
begin

text \<open>
  \<open>p2p/protocols/file/service/client.go\<close> and the entry type of \<open>file.go\<close>.  The client has a file system of
  its own.  A call is split where it waits for its response, and its copy advances in rounds; \<open>get_copy\<close>
  and \<open>send_copy\<close> are what a running call holds.  The pause before \<open>Send\<close> returns has no effect here.
\<close>

section \<open>State\<close>

record file_client = base_client +
  fc_fs :: filesys

definition fc_NewClient :: "bytes \<Rightarrow> conn option \<Rightarrow> filesys \<Rightarrow> file_client option" where
  "fc_NewClient clientID c fs =
     (if c = None \<or> clientID = [] then None
      else map_option (\<lambda>b. base_client.extend b \<lparr>fc_fs = fs\<rparr>) (NewBaseClient clientID c (Some fileHelloHandler)))"

definition fc_Connect :: "bool \<Rightarrow> file_client option \<Rightarrow> unit rres \<times> file_client option" where
  "fc_Connect timeout c = Connect timeout (Some fileHelloHandler) c"

definition matchFileListResponse :: matcher where
  "matchFileListResponse h = Inr (h_type h = HandshakeTypeFileListResponse)"

definition matchFileGetResponse :: matcher where
  "matchFileGetResponse h = Inr (h_type h = HandshakeTypeFileGetResponse)"

definition matchFileSendResponse :: matcher where
  "matchFileSendResponse h = Inr (h_type h = HandshakeTypeFileSendResponse)"

text \<open>Build the request packet and send it.\<close>

definition fc_request :: "packet result \<Rightarrow> matcher \<Rightarrow> file_client \<Rightarrow> nat result \<times> file_client" where
  "fc_request r match c = (case r of
      Inl e \<Rightarrow> (Inl (Wrap ''create request'' e), c)
    | Inr p \<Rightarrow> SendRequest_begin (Some p) match c)"

section \<open>List\<close>

definition fc_List :: "bytes \<Rightarrow> bool \<Rightarrow> file_client \<Rightarrow> nat result \<times> file_client" where
  "fc_List path recursive c = (case EnsureConnected (Some c) of
      Some e \<Rightarrow> (Inl e, c)
    | None \<Rightarrow> fc_request (NewFileListPacket path recursive) matchFileListResponse c)"

definition fc_List_reply :: "nat \<Rightarrow> file_client \<Rightarrow> file_entry list option rres \<times> file_client" where
  "fc_List_reply a c = (case SendRequest_wait False a c of
      (Blocked, c) \<Rightarrow> (Blocked, c)
    | (Fail e, c) \<Rightarrow> (Fail e, c)
    | (Done response, c) \<Rightarrow>
        (case UnmarshalPayload file_list_response_fields response (Some no_file_list_response) of
          (_, Some e) \<Rightarrow> (Fail (Wrap ''unmarshal response'' e), c)
        | (r, None) \<Rightarrow>
            (let r = (case r of None \<Rightarrow> no_file_list_response | Some r \<Rightarrow> r) in
             if \<not> flr_success r then (Fail (Err (''list failed: '' @ flr_error r)), c) else (Done (flr_files r), c))))"

section \<open>Get\<close>

record get_copy =
  gc_stream :: addr
  gc_ino :: nat
  gc_off :: nat
  gc_rem :: nat
  gc_info :: file_info

definition fc_Get :: "bytes \<Rightarrow> file_client \<Rightarrow> nat result \<times> file_client" where
  "fc_Get fileName c = (case EnsureConnected (Some c) of
      Some e \<Rightarrow> (Inl e, c)
    | None \<Rightarrow> fc_request (NewFileGetPacket fileName) matchFileGetResponse c)"

text \<open>The deferred \<open>stream.Close()\<close>.\<close>

definition close_stream :: "addr \<Rightarrow> file_client \<Rightarrow> file_client" where
  "close_stream a c = c\<lparr>ss_mux := snd (stream_Close a (ss_mux c))\<rparr>"

text \<open>From the response to the start of the copy.\<close>

definition get_start :: "bytes \<Rightarrow> file_info \<Rightarrow> addr \<Rightarrow> file_client \<Rightarrow> get_copy rres \<times> file_client" where
  "get_start destPath info s c = (case os_MkdirAll (path_Dir destPath) (fc_fs c) of
      (Some e, fs) \<Rightarrow> (Fail (Wrap ''create directory'' e), close_stream s (c\<lparr>fc_fs := fs\<rparr>))
    | (None, fs) \<Rightarrow> (case os_Create destPath fs of
          (Inl e, fs) \<Rightarrow> (Fail (Wrap ''create file'' e), close_stream s (c\<lparr>fc_fs := fs\<rparr>))
        | (Inr i, fs) \<Rightarrow> (Done \<lparr>gc_stream = s, gc_ino = i, gc_off = 0, gc_rem = nat (fi_size info), gc_info = info\<rparr>,
            c\<lparr>fc_fs := fs\<rparr>)))"

definition fc_Get_reply :: "nat \<Rightarrow> bytes \<Rightarrow> file_client \<Rightarrow> get_copy rres \<times> file_client" where
  "fc_Get_reply a destPath c = (case SendRequest_wait False a c of
      (Blocked, c) \<Rightarrow> (Blocked, c)
    | (Fail e, c) \<Rightarrow> (Fail e, c)
    | (Done response, c) \<Rightarrow>
        (case UnmarshalPayload file_get_response_fields response (Some no_file_get_response) of
          (_, Some e) \<Rightarrow> (Fail (Wrap ''unmarshal response'' e), c)
        | (r, None) \<Rightarrow>
            (let r = (case r of None \<Rightarrow> no_file_get_response | Some r \<Rightarrow> r) in
             if \<not> fgr_success r then (Fail (Err (''get failed: '' @ fgr_error r)), c)
             else (case fgr_file_info r of
                 None \<Rightarrow> (Fail (Err ''missing file info in response''), c)
               | Some info \<Rightarrow> (case GetOrCreateStream (fgr_stream_id r) (Some (ss_mux c)) of
                    (x, m) \<Rightarrow>
                      (let c = (case m of None \<Rightarrow> c | Some m \<Rightarrow> c\<lparr>ss_mux := m\<rparr>) in
                       (case x of
                          Inl e \<Rightarrow> (Fail (Wrap ''get stream'' e), c)
                        | Inr s \<Rightarrow> get_start destPath info s c)))))))"

definition get_abandon :: "goerr \<Rightarrow> bytes \<Rightarrow> addr \<Rightarrow> file_client \<Rightarrow> unit rres \<times> file_client" where
  "get_abandon e destPath a c = (Fail e, close_stream a (c\<lparr>fc_fs := snd (os_Remove destPath (fc_fs c))\<rparr>))"

text \<open>After the copy; an end before \<open>Size\<close> bytes is left to the checksum.\<close>

definition get_verify :: "bytes \<Rightarrow> get_copy \<Rightarrow> file_client \<Rightarrow> unit rres \<times> file_client" where
  "get_verify destPath g c = (case calculateChecksum destPath (fc_fs c) of
      Inl e \<Rightarrow> get_abandon (Wrap ''calculate checksum'' e) destPath (gc_stream g) c
    | Inr checksum \<Rightarrow>
        if checksum \<noteq> fi_checksum (gc_info g)
        then get_abandon (Err (''checksum mismatch: got '' @ checksum @ '', expected '' @ fi_checksum (gc_info g)))
               destPath (gc_stream g) c
        else (Done (), close_stream (gc_stream g) c))"

text \<open>A round of \<open>io.CopyN\<close>; the first component is the call's result once it returns.\<close>

definition fc_Get_copy :: "bytes \<Rightarrow> get_copy \<Rightarrow> file_client \<Rightarrow> unit rres option \<times> get_copy \<times> file_client" where
  "fc_Get_copy destPath g c =
     (case copy_round (limit_Read (stream_Read (gc_stream g))) (file_Write (gc_ino g))
         ((gc_rem g, ss_mux c), (gc_off g, fc_fs c)) of
        (r, (rem', m), (off', fs)) \<Rightarrow>
          (let c = c\<lparr>ss_mux := m, fc_fs := fs\<rparr>; g = g\<lparr>gc_off := off', gc_rem := rem'\<rparr> in
           (case r of
              CopyEnd (Some e) \<Rightarrow> (case get_abandon (Wrap ''copy file'' e) destPath (gc_stream g) c of (x, c) \<Rightarrow> (Some x, g, c))
            | CopyEnd None \<Rightarrow> (case get_verify destPath g c of (x, c) \<Rightarrow> (Some x, g, c))
            | _ \<Rightarrow> (None, g, c))))"

definition fc_Get_timeout :: "bytes \<Rightarrow> get_copy \<Rightarrow> file_client \<Rightarrow> unit rres \<times> file_client" where
  "fc_Get_timeout destPath g c = get_abandon (Err ''timeout'') destPath (gc_stream g) c"

section \<open>Send\<close>

record send_copy =
  sc_stream :: addr
  sc_ino :: nat
  sc_off :: nat

text \<open>The request is sent once the file was examined; the result is the request to wait for with the file's description.\<close>

definition fc_Send :: "bytes \<Rightarrow> bytes \<Rightarrow> file_client \<Rightarrow> (nat \<times> file_info) result \<times> file_client" where
  "fc_Send filePath remoteFileName c = (case EnsureConnected (Some c) of
      Some e \<Rightarrow> (Inl e, c)
    | None \<Rightarrow> (case os_Stat filePath (fc_fs c) of
          Inl e \<Rightarrow> (Inl (Wrap ''stat file'' e), c)
        | Inr fi \<Rightarrow> (case calculateChecksum filePath (fc_fs c) of
              Inl e \<Rightarrow> (Inl (Wrap ''calculate checksum'' e), c)
            | Inr checksum \<Rightarrow>
                (let info = \<lparr>fi_filename = remoteFileName, fi_size = size_of fi (fc_fs c), fi_checksum = checksum\<rparr> in
                 (case fc_request (NewFileSendPacket remoteFileName) matchFileSendResponse c of
                    (Inl e, c) \<Rightarrow> (Inl e, c)
                  | (Inr a, c) \<Rightarrow> (Inr (a, info), c))))))"

definition info_line :: "file_info \<Rightarrow> bytes" where
  "info_line info = json_text (file_info_to_json info) @ [CHR 0x0A]"

text \<open>Write the header and open the file.\<close>

definition send_start :: "bytes \<Rightarrow> file_info \<Rightarrow> addr \<Rightarrow> file_client \<Rightarrow> send_copy rres \<times> file_client" where
  "send_start filePath info s c = (case stream_Write s (info_line info) (ss_mux c) of
      ((_, Some e), m) \<Rightarrow> (Fail (Wrap ''write file info'' e), close_stream s (c\<lparr>ss_mux := m\<rparr>))
    | ((_, None), m) \<Rightarrow>
        (let c = c\<lparr>ss_mux := m\<rparr> in
         (case os_Open filePath (fc_fs c) of
            Inl e \<Rightarrow> (Fail (Wrap ''open file'' e), close_stream s c)
          | Inr (FDir _ _) \<Rightarrow> (Fail (Wrap ''io.Copy error after 0 bytes'' (path_err ''read'' filePath EISDIR)), close_stream s c)
          | Inr (FFile _ i) \<Rightarrow> (Done \<lparr>sc_stream = s, sc_ino = i, sc_off = 0\<rparr>, c))))"

definition fc_Send_reply :: "nat \<Rightarrow> bytes \<Rightarrow> file_info \<Rightarrow> file_client \<Rightarrow> send_copy rres \<times> file_client" where
  "fc_Send_reply a filePath info c = (case SendRequest_wait False a c of
      (Blocked, c) \<Rightarrow> (Blocked, c)
    | (Fail e, c) \<Rightarrow> (Fail e, c)
    | (Done response, c) \<Rightarrow>
        (case UnmarshalPayload file_send_response_fields response (Some no_file_send_response) of
          (_, Some e) \<Rightarrow> (Fail (Wrap ''unmarshal response'' e), c)
        | (r, None) \<Rightarrow>
            (let r = (case r of None \<Rightarrow> no_file_send_response | Some r \<Rightarrow> r) in
             if \<not> fsr_success r then (Fail (Err (''send failed: '' @ fsr_error r)), c)
             else (case GetOrCreateStream (fsr_stream_id r) (Some (ss_mux c)) of
                (x, m) \<Rightarrow>
                  (let c = (case m of None \<Rightarrow> c | Some m \<Rightarrow> c\<lparr>ss_mux := m\<rparr>) in
                   (case x of
                      Inl e \<Rightarrow> (Fail (Wrap ''get stream'' e), c)
                    | Inr s \<Rightarrow> send_start filePath info s c))))))"

text \<open>
  A round of \<open>io.Copy\<close>, and the check at its end that the file still has the size that was copied.
\<close>

definition fc_Send_copy :: "bytes \<Rightarrow> send_copy \<Rightarrow> file_client \<Rightarrow> unit rres option \<times> send_copy \<times> file_client" where
  "fc_Send_copy filePath g c =
     (case copy_round (file_Read (sc_ino g)) (stream_Write (sc_stream g)) ((sc_off g, fc_fs c), ss_mux c) of
        (r, (off', fs), m) \<Rightarrow>
          (let c = c\<lparr>ss_mux := m\<rparr> in
           (case r of
              CopyEnd (Some e) \<Rightarrow>
                (Some (Fail (Wrap (''io.Copy error after '' @ show_nat (sc_off g) @ '' bytes'') e)), g, close_stream (sc_stream g) c)
            | CopyEnd None \<Rightarrow>
                (Some (case os_Stat filePath (fc_fs c) of
                    Inr fi \<Rightarrow>
                      if int off' \<noteq> size_of fi (fc_fs c)
                      then Fail (Err (''partial write: wrote '' @ show_nat off' @ '' bytes, expected '' @ show_int (size_of fi (fc_fs c))))
                      else Done ()
                  | Inl _ \<Rightarrow> Done ()), g, close_stream (sc_stream g) c)
            | _ \<Rightarrow> (None, g\<lparr>sc_off := off'\<rparr>, c))))"

text \<open>\<open>bytesWritten\<close> is set when the copy returns, so the text of a timeout always tells of 0 bytes.\<close>

definition fc_Send_timeout :: "send_copy \<Rightarrow> file_client \<Rightarrow> unit rres \<times> file_client" where
  "fc_Send_timeout g c = (Fail (Err ''timeout after writing 0 bytes''), close_stream (sc_stream g) c)"

section \<open>The entries of \<open>file.go\<close>\<close>

datatype file_item = FileItem
  (it_DirectoryName: bytes) (it_Filename: bytes) (it_Size: int) (it_IsDir: bool) (it_Children: "file_item list option")

definition FullName :: "file_item \<Rightarrow> bytes" where
  "FullName e = path_Join [it_DirectoryName e, it_Filename e]"

fun protocolFileEntryToFileEntry :: "file_entry \<Rightarrow> file_item" where
  "protocolFileEntryToFileEntry (FileEntry d f n isDir cs) =
     FileItem d f n isDir (case cs of None \<Rightarrow> None
       | Some l \<Rightarrow> if l = [] then None else Some (map protocolFileEntryToFileEntry l))"

definition InitDataDir :: "bytes \<Rightarrow> bytes \<Rightarrow> bytes" where
  "InitDataDir configDataDir DataDir = (if configDataDir \<noteq> [] then configDataDir else DataDir)"

text \<open>\<open>FileChecksum\<close> ignores the error of the copy: a directory has the checksum of no bytes.\<close>

definition FileChecksum :: "bytes \<Rightarrow> filesys \<Rightarrow> bytes result" where
  "FileChecksum filePath fs = (case os_Open filePath fs of
      Inl e \<Rightarrow> Inl e
    | Inr (FDir _ _) \<Rightarrow> Inr (checksum_of [])
    | Inr (FFile _ i) \<Rightarrow> Inr (checksum_of (fs_data fs ! i)))"

text \<open>What \<open>List\<close>, \<open>ListFullTree\<close> return of a listing.\<close>

definition list_items :: "file_entry list \<Rightarrow> file_item list" where
  "list_items fs = map protocolFileEntryToFileEntry fs"

end
