(* ===== verification/File_Transfer.thy ===== *)
theory File_Transfer
  imports File_Client
begin

text \<open>
  What the file service achieves: an upload is stored as it was or not at all, a download arrives as it
  was, a listing is the tree, and where requests can reach in the server's file system.
\<close>

section \<open>The header line\<close>

text \<open>JSON text has no line feed, so the header of an upload ends at its first one.\<close>

lemma utf8_bytes_high:
  assumes "utf8_len (c # cs) = n" "n \<noteq> 0" "128 \<le> (of_char c :: nat)" "d \<in> set (take n (c # cs))"
  shows "128 \<le> (of_char d :: nat)"
proof -
  obtain lo hi where lead: "utf8_lead (of_char c) = (n, lo, hi)" and lo: "128 \<le> lo" "2 \<le> n"
    and b: "n \<le> Suc (length cs)" "lo \<le> of_char (cs ! 0)" "list_all utf8_cont (take (n - 2) (drop 1 cs))"
    using assms(1-3) by (auto simp: utf8_len_def utf8_lead_def split: if_splits)
  obtain e ds where cs: "cs = e # ds" using b(1) lo(2) by (cases cs) auto
  have "take n (c # cs) = c # e # take (n - 2) ds" using lo(2) cs by (cases n; cases "n - 1") auto
  then show ?thesis using assms(3,4) b lo cs by (auto simp: list_all_iff utf8_cont_def)
qed

lemma hex_char_no_newline: "n < 16 \<Longrightarrow> hex_char n \<noteq> CHR 0x0A"
proof -
  assume "n < 16"
  then have "48 \<le> (of_char (hex_char n) :: nat)" by (simp add: hex_char_def)
  then show "hex_char n \<noteq> CHR 0x0A" by auto
qed

lemma esc_ascii_no_newline: "CHR 0x0A \<notin> set (esc_ascii c)"
proof -
  have "(of_char c :: nat) div 16 < 16" "(of_char c :: nat) mod 16 < 16" by (simp_all add: div_less_iff_less_mult)
  then have "CHR 0x0A \<noteq> hex_char (of_char c div 16)" "CHR 0x0A \<noteq> hex_char (of_char c mod 16)"
    using hex_char_no_newline by metis+
  moreover have "c = CHR 0x0A \<Longrightarrow> (of_char c :: nat) = 10" by simp
  ultimately show ?thesis unfolding esc_ascii_def Let_def by (auto simp del: of_char_eq_iff)
qed

lemma json_esc_no_newline: "CHR 0x0A \<notin> set (json_esc s)"
proof (induction s rule: json_esc.induct)
  case (2 c cs)
  let ?n = "utf8_len (c # cs)"
  note esc = esc_ascii_no_newline [of c]
  have "CHR 0x0A \<notin> set (esc_rune (take ?n (c # cs)))" if "?n \<noteq> 0" "128 \<le> (of_char c :: nat)"
    using utf8_bytes_high [OF refl that, of "CHR 0x0A"] by (auto simp: esc_rune_def)
  then show ?case using 2 esc by (auto simp: json_esc.simps(2) Let_def)
qed simp

lemma info_line_shape:
  obtains t where "info_line info = t @ [CHR 0x0A]" "CHR 0x0A \<notin> set t" "t = json_text (file_info_to_json info)"
proof
  show "info_line info = json_text (file_info_to_json info) @ [CHR 0x0A]" by (simp add: info_line_def)
  have "CHR 0x0A \<notin> set (show_int i)" for i
    using show_nat_digits [of "CHR 0x0A"] by (auto simp: show_int_def is_digit_def)
  then show "CHR 0x0A \<notin> set (json_text (file_info_to_json info))"
    using json_esc_no_newline by (simp add: file_info_to_json_def struct_simps(1-3) json_quote_def jint_def)
qed simp

lemma parse_info_line:
  assumes "file_info_ok info"
  shows "parse_info (json_text (file_info_to_json info)) = Some info"
  using file_info_msg.text_of_payload [OF assms] file_info_msg.decode [OF assms]
  by (simp add: parse_info_def unmarshal_def json_parse_text)

section \<open>Uploads\<close>

text \<open>Receipt \<open>t\<close> reads from stream \<open>a\<close> for path \<open>p\<close> and is in phase \<open>ph\<close>.\<close>

definition receipt_at :: "nat \<Rightarrow> addr \<Rightarrow> bytes \<Rightarrow> rv_phase \<Rightarrow> file_server \<Rightarrow> bool" where
  "receipt_at t a p ph s \<longleftrightarrow> t < length (fv_receipts s) \<and> fv_receipts s ! t = \<lparr>rv_stream = a, rv_path = p, rv_phase = ph\<rparr>"

lemma receipt_at_set: "receipt_at t a p ph s \<Longrightarrow> receipt_at t a p ph' (set_receipt t ph' s)"
  by (simp add: receipt_at_def set_receipt_def)

lemma set_receipt_same [simp]: "ss_mux (set_receipt t ph s) = ss_mux s" "fv_fs (set_receipt t ph s) = fv_fs s"
  by (simp_all add: set_receipt_def)

lemma end_receipt_done: "receipt_at t a p ph s \<Longrightarrow> receipt_at t a p RvDone (end_receipt t s)" "fv_fs (end_receipt t s) = fv_fs s"
  by (simp_all add: end_receipt_def receipt_at_def set_receipt_def Let_def)

lemma stream_Read_one:
  assumes "a < length (objs m)" "stream_pending a m = c # r"
  shows "\<exists>m'. stream_Read a 1 m = (RdData [c], m') \<and> stream_pending a m' = r \<and> a < length (objs m')"
proof -
  obtain b m' where b: "stream_Read a 1 m = (RdData b, m')" "b \<noteq> []" "length b \<le> 1" "c # r = b @ stream_pending a m'"
      "a < length (objs m')"
    using stream_src.rd_some [OF assms(1), of 1] assms(2) by auto
  then have "b = [c]" by (cases b) auto
  then show ?thesis using b by simp
qed

lemma header_read:
  "receipt_at t a p (RvInfo acc) s \<Longrightarrow> a < length (objs (ss_mux s)) \<Longrightarrow> stream_pending a (ss_mux s) = hdr @ CHR 0x0A # rest \<Longrightarrow>
   CHR 0x0A \<notin> set hdr \<Longrightarrow> parse_info (acc @ hdr) = Some info \<Longrightarrow>
   \<exists>s'. (receiveFile t ^^ Suc (length hdr)) s = s' \<and> receipt_at t a p (RvCreate info) s' \<and> fv_fs s' = fv_fs s
     \<and> a < length (objs (ss_mux s')) \<and> stream_pending a (ss_mux s') = rest"
proof (induction hdr arbitrary: acc s)
  case Nil
  obtain m where m: "stream_Read a 1 (ss_mux s) = (RdData [CHR 0x0A], m)" "stream_pending a m = rest" "a < length (objs m)"
    using stream_Read_one [OF Nil(2)] Nil(3) by auto
  let ?s = "s\<lparr>ss_mux := m\<rparr>"
  have "receiveFile t s = set_receipt t (RvCreate info) ?s"
    using Nil m by (simp add: receiveFile_def receipt_at_def receive_header_def Let_def)
  moreover have "receipt_at t a p (RvInfo acc) ?s" using Nil(1) by (simp add: receipt_at_def)
  ultimately show ?case using m receipt_at_set [of t a p _ ?s] by simp
next
  case (Cons c hdr)
  obtain m where m: "stream_Read a 1 (ss_mux s) = (RdData [c], m)" "stream_pending a m = hdr @ CHR 0x0A # rest" "a < length (objs m)"
    using stream_Read_one [OF Cons.prems(2)] Cons.prems(3) by auto
  let ?s = "set_receipt t (RvInfo (acc @ [c])) (s\<lparr>ss_mux := m\<rparr>)"
  have "c \<noteq> CHR 0x0A" using Cons.prems(4) by auto
  then have step: "receiveFile t s = ?s"
    using Cons.prems m by (simp add: receiveFile_def receipt_at_def receive_header_def Let_def)
  have "receipt_at t a p (RvInfo acc) (s\<lparr>ss_mux := m\<rparr>)" using Cons.prems(1) by (simp add: receipt_at_def)
  then have at: "receipt_at t a p (RvInfo (acc @ [c])) ?s" by (rule receipt_at_set)
  have "\<exists>s'. (receiveFile t ^^ Suc (length hdr)) ?s = s' \<and> receipt_at t a p (RvCreate info) s' \<and> fv_fs s' = fv_fs ?s
     \<and> a < length (objs (ss_mux s')) \<and> stream_pending a (ss_mux s') = rest"
    by (rule Cons.IH [OF at]) (use Cons.prems m in simp_all)
  then show ?case using step by (simp add: funpow_Suc_right del: funpow.simps)
qed

text \<open>While a receipt copies into contents \<open>i\<close>, the tree of names does not change.\<close>

definition receiving_into :: "nat \<Rightarrow> addr \<Rightarrow> bytes \<Rightarrow> file_info \<Rightarrow> nat \<Rightarrow> fnode \<times> bytes list \<Rightarrow> file_server \<Rightarrow> bool" where
  "receiving_into t a p info i tree s \<longleftrightarrow> (\<exists>off rem. receipt_at t a p (RvCopy info i off rem) s) \<and> (fs_root (fv_fs s), fs_cwd (fv_fs s)) = tree"

definition receipt_src :: "nat \<Rightarrow> file_server \<Rightarrow> nat \<times> mux" where
  "receipt_src t s = (case rv_phase (fv_receipts s ! t) of RvCopy _ _ _ rem \<Rightarrow> rem | _ \<Rightarrow> 0, ss_mux s)"

definition receipt_dst :: "nat \<Rightarrow> file_server \<Rightarrow> nat \<times> filesys" where
  "receipt_dst t s = (case rv_phase (fv_receipts s ! t) of RvCopy _ _ off _ \<Rightarrow> off | _ \<Rightarrow> 0, fv_fs s)"

lemma receipt_ends:
  assumes "receipt_at t a p (RvCopy info i off rem) s"
  shows "receipt_src t s = (rem, ss_mux s)" "receipt_dst t s = (off, fv_fs s)"
  using assms by (simp_all add: receipt_at_def receipt_src_def receipt_dst_def)

lemma copy_round_file_root:
  "copy_round r (file_Write i) (s, off, fs) = (x, s', off', fs') \<Longrightarrow> fs_root fs' = fs_root fs \<and> fs_cwd fs' = fs_cwd fs"
  by (auto simp: copy_round_def file_Write_def split: prod.splits rd.splits if_splits)

lemma receiving_step:
  assumes "receiving_into t a p info i tree s"
    and "copy_round (limit_Read (stream_Read a)) (file_Write i) (receipt_src t s, receipt_dst t s) = (CopyNext, s', d')"
  shows "receiving_into t a p info i tree (receiveFile t s) \<and> receipt_src t (receiveFile t s) = s' \<and> receipt_dst t (receiveFile t s) = d'"
proof -
  obtain off rem where at: "receipt_at t a p (RvCopy info i off rem) s" using assms(1) by (auto simp: receiving_into_def)
  obtain rem' m off' fs where sd: "s' = (rem', m)" "d' = (off', fs)" by (cases s'; cases d')
  have r: "copy_round (limit_Read (stream_Read a)) (file_Write i) ((rem, ss_mux s), (off, fv_fs s)) = (CopyNext, (rem', m), (off', fs))"
    using assms(2) receipt_ends [OF at] sd by simp
  let ?s = "set_receipt t (RvCopy info i off' rem') (s\<lparr>ss_mux := m, fv_fs := fs\<rparr>)"
  have "receiveFile t s = ?s" using at r by (simp add: receiveFile_def receipt_at_def Let_def)
  moreover have at': "receipt_at t a p (RvCopy info i off' rem') ?s"
    using receipt_at_set [of t a p _ "s\<lparr>ss_mux := m, fv_fs := fs\<rparr>"] at by (simp add: receipt_at_def)
  moreover have "(fs_root fs, fs_cwd fs) = tree" using assms(1) copy_round_file_root [OF r] by (simp add: receiving_into_def)
  ultimately show ?thesis using receipt_ends [OF at'] sd by (auto simp: receiving_into_def)
qed

text \<open>The copy of a receipt that expects what is pending stores it and goes on to the verification.\<close>

lemma receive_copied:
  assumes "receipt_at t a p (RvCopy info i 0 rem) s" "a < length (objs (ss_mux s))"
    and "stream_pending a (ss_mux s) = content @ rest" "rem = length content" "fi_size info = int (length content)"
    and "i < length (fs_data (fv_fs s))" "fs_data (fv_fs s) ! i = []"
  shows "\<exists>n s'. (receiveFile t ^^ n) s = s' \<and> receipt_at t a p (RvVerify info) s' \<and> fs_data (fv_fs s') ! i = content
    \<and> fs_root (fv_fs s') = fs_root (fv_fs s) \<and> fs_cwd (fv_fs s') = fs_cwd (fv_fs s)"
proof -
  let ?tree = "(fs_root (fv_fs s), fs_cwd (fv_fs s))"
  note ends = receipt_ends [OF assms(1)]
  have pend: "take (fst (receipt_src t s)) (stream_pending a (snd (receipt_src t s))) = content"
    using ends assms(3,4) by simp
  have "receiving_into t a p info i ?tree s" using assms(1) by (auto simp: receiving_into_def)
  moreover have "a < length (objs (snd (receipt_src t s))) \<and> fst (receipt_src t s) \<le> length (stream_pending a (snd (receipt_src t s)))"
    using ends assms(2-4) by simp
  moreover have "at_end i (receipt_dst t s)" using ends assms(6,7) by (simp add: at_end_def)
  ultimately obtain n x where x: "(receiveFile t ^^ n) s = x" "receiving_into t a p info i ?tree x"
      "a < length (objs (snd (receipt_src t x))) \<and> fst (receipt_src t x) \<le> length (stream_pending a (snd (receipt_src t x)))"
      "at_end i (receipt_dst t x)" "take (fst (receipt_src t x)) (stream_pending a (snd (receipt_src t x))) = []"
      "file_contents i (receipt_dst t x) = file_contents i (receipt_dst t s) @ content"
    using stream_to_file.copy_drain [where a = a and i = i and going = "receiving_into t a p info i ?tree"
        and src = "receipt_src t" and dst = "receipt_dst t" and step = "receiveFile t" and x = s, OF receiving_step]
    unfolding pend by blast
  obtain off rem' where at: "receipt_at t a p (RvCopy info i off rem') x" using x(2) by (auto simp: receiving_into_def)
  have "rem' = 0" using x(3,5) receipt_ends [OF at] by auto
  then have "copy_round (limit_Read (stream_Read a)) (file_Write i) ((rem', ss_mux x), (off, fv_fs x))
      = (CopyEnd None, (rem', ss_mux x), (off, fv_fs x))"
    by (simp add: copy_round_def limit_Read_def)
  then have "receiveFile t x = set_receipt t (RvVerify info) (x\<lparr>ss_mux := ss_mux x, fv_fs := fv_fs x\<rparr>)"
    using at \<open>rem' = 0\<close> assms(5) by (simp add: receiveFile_def receipt_at_def Let_def)
  then have step: "receiveFile t x = set_receipt t (RvVerify info) x" by simp
  have "fs_data (fv_fs x) ! i = content" using x(6) receipt_ends [OF at] ends assms(7) by (simp add: file_contents_def)
  moreover have "(receiveFile t ^^ Suc n) s = set_receipt t (RvVerify info) x" using x(1) step by simp
  ultimately show ?thesis using receipt_at_set [OF at] x(2) by (intro exI [of _ "Suc n"]) (auto simp: receiving_into_def)
qed

lemma upload_stored_ok:
  assumes "receipt_at t a p (RvInfo []) s" "creatable p l (fv_fs s)" "a < length (objs (ss_mux s))"
    and "stream_pending a (ss_mux s) = info_line info @ content @ rest" "file_info_ok info"
    and "fi_size info = int (length content)" "fi_checksum info = checksum_of content"
  shows "\<exists>n s' i. (receiveFile t ^^ n) s = s' \<and> receipt_at t a p RvDone s'
    \<and> node_at (fs_root (fv_fs s')) l = Some (FFile True i) \<and> fs_data (fv_fs s') ! i = content"
proof -
  obtain hdr where hdr: "info_line info = hdr @ [CHR 0x0A]" "CHR 0x0A \<notin> set hdr" "hdr = json_text (file_info_to_json info)"
    by (rule info_line_shape)
  have "parse_info ([] @ hdr) = Some info" using parse_info_line [OF assms(5)] hdr(3) by simp
  then obtain s1 where s1: "(receiveFile t ^^ Suc (length hdr)) s = s1" "receipt_at t a p (RvCreate info) s1" "fv_fs s1 = fv_fs s"
      "a < length (objs (ss_mux s1))" "stream_pending a (ss_mux s1) = content @ rest"
    using header_read [OF assms(1,3) _ hdr(2)] assms(4) hdr(1) by fastforce
  obtain i fs where fs: "os_Create p (fv_fs s) = (Inr i, fs)" "locate p fs = Inr l" "node_at (fs_root fs) l = Some (FFile True i)"
      "i < length (fs_data fs)" "fs_data fs ! i = []" "creatable p l fs"
    using Create_ok [OF assms(2)] by blast
  let ?s2 = "set_receipt t (RvCopy info i 0 (length content)) (s1\<lparr>fv_fs := fs\<rparr>)"
  have step: "receiveFile t s1 = ?s2"
    using s1(2,3) fs(1) assms(6) by (simp add: receiveFile_def receipt_at_def Let_def)
  have "receipt_at t a p (RvCreate info) (s1\<lparr>fv_fs := fs\<rparr>)" using s1(2) by (simp add: receipt_at_def)
  then have "receipt_at t a p (RvCopy info i 0 (length content)) ?s2" by (rule receipt_at_set)
  then obtain n s3 where s3: "(receiveFile t ^^ n) ?s2 = s3" "receipt_at t a p (RvVerify info) s3"
      "fs_data (fv_fs s3) ! i = content" "fs_root (fv_fs s3) = fs_root fs" "fs_cwd (fv_fs s3) = fs_cwd fs"
    using receive_copied [of t a p info i "length content" ?s2 content rest] s1(4,5) fs(4,5) assms(6) by auto
  have "locate p (fv_fs s3) = Inr l" using locate_same [OF s3(4,5)] fs(2) by simp
  then have "calculateChecksum p (fv_fs s3) = Inr (checksum_of content)"
    using fs(3) s3(3,4) by (simp add: calculateChecksum_def os_Open_def)
  then have last: "receiveFile t s3 = end_receipt t s3"
    using s3(2) assms(7) by (simp add: receiveFile_def receipt_at_def Let_def)
  let ?k = "Suc (Suc (length hdr))"
  have "(receiveFile t ^^ ?k) s = ?s2" using s1(1) step by simp
  moreover have "(receiveFile t ^^ (Suc n + ?k)) s = (receiveFile t ^^ Suc n) ((receiveFile t ^^ ?k) s)"
    by (simp only: funpow_add o_apply)
  ultimately have "(receiveFile t ^^ (Suc n + ?k)) s = end_receipt t s3" using s3(1) last by simp
  then show ?thesis using end_receipt_done(1) [OF s3(2)] end_receipt_done(2) [of t s3] s3(3,4) fs(3)
    by (intro exI [of _ "Suc n + ?k"]) auto
qed

section \<open>What a client sends\<close>

definition send_step :: "bytes \<Rightarrow> send_copy \<times> file_client \<Rightarrow> send_copy \<times> file_client" where
  "send_step filePath x = snd (fc_Send_copy filePath (fst x) (snd x))"

definition send_src :: "send_copy \<times> file_client \<Rightarrow> nat \<times> filesys" where
  "send_src x = (sc_off (fst x), fc_fs (snd x))"

definition sending :: "addr \<Rightarrow> nat \<Rightarrow> filesys \<Rightarrow> send_copy \<times> file_client \<Rightarrow> bool" where
  "sending a i fs x \<longleftrightarrow> sc_stream (fst x) = a \<and> sc_ino (fst x) = i \<and> fc_fs (snd x) = fs \<and> sendable a (ss_mux (snd x))
     \<and> sc_off (fst x) \<le> length (fs_data fs ! i)"

lemma file_Read_fs:
  "file_Read i n (off, fs) = (r, s') \<Longrightarrow> off \<le> length (fs_data fs ! i) \<Longrightarrow> snd s' = fs \<and> fst s' \<le> length (fs_data fs ! i)"
  by (auto simp: file_Read_def Let_def split: if_splits)

lemma sending_step:
  assumes "sending a i fs x"
    and "copy_round (file_Read i) (stream_Write a) (send_src x, ss_mux (snd x)) = (CopyNext, s', d')"
  shows "sending a i fs (send_step p x) \<and> send_src (send_step p x) = s' \<and> ss_mux (snd (send_step p x)) = d'"
proof -
  obtain g c where x: "x = (g, c)" by (cases x)
  obtain off fs' where s': "s' = (off, fs')" by (cases s')
  obtain b where b: "file_Read i copyBuf (sc_off g, fs) = (RdData b, s')" "b = [] \<or> stream_Write a b (ss_mux c) = ((length b, None), d')"
      "b = [] \<longrightarrow> d' = ss_mux c"
    using assms x by (auto simp: copy_round_def send_src_def sending_def split: rd.splits prod.splits option.splits if_splits)
  have "length b \<le> copyBuf" using b(1) by (auto simp: file_Read_def Let_def split: if_splits)
  then have "sendable a d'"
    using sendable_write [of a "ss_mux c" b] b(2,3) assms(1) x by (auto simp: sending_def copyBuf_def)
  moreover have "fs' = fs" "off \<le> length (fs_data fs ! i)"
    using file_Read_fs [OF b(1)] s' assms(1) x by (simp_all add: sending_def)
  ultimately show ?thesis using assms x s'
    by (auto simp: send_step_def fc_Send_copy_def sending_def send_src_def Let_def)
qed

lemma upload_sent_ok:
  assumes "sendable a (ss_mux c)" "length (info_line info) < 2 ^ 32"
    and "locate p (fc_fs c) = Inr l" "node_at (fs_root (fc_fs c)) l = Some (FFile True i)" "content = fs_data (fc_fs c) ! i"
  shows "\<exists>g c1 n c2. send_start p info a c = (Done g, c1) \<and> fst (fc_Send_copy p (fst ((send_step p ^^ n) (g, c1)))
      (snd ((send_step p ^^ n) (g, c1)))) = Some (Done ())
    \<and> snd ((send_step p ^^ Suc n) (g, c1)) = c2 \<and> fc_fs c2 = fc_fs c
    \<and> stream_sent a (ss_mux c2) = stream_sent a (ss_mux c) @ info_line info @ content"
proof -
  obtain k where k: "stream_Write a (info_line info) (ss_mux c) = ((length (info_line info), None), (ss_mux c)\<lparr>m_conn := k\<rparr>)"
      "sendable a ((ss_mux c)\<lparr>m_conn := k\<rparr>)"
      "stream_sent a ((ss_mux c)\<lparr>m_conn := k\<rparr>) = stream_sent a (ss_mux c) @ info_line info"
    using sendable_write [OF assms(1,2)] by blast
  let ?g = "\<lparr>sc_stream = a, sc_ino = i, sc_off = 0\<rparr>" and ?c = "c\<lparr>ss_mux := (ss_mux c)\<lparr>m_conn := k\<rparr>\<rparr>"
  have start: "send_start p info a c = (Done ?g, ?c)"
    using k(1) assms(3,4) by (simp add: send_start_def os_Open_def)
  have going: "sending a i (fc_fs c) (?g, ?c)" using k(2) by (simp add: sending_def)
  have acc: "length b \<le> copyBuf \<Longrightarrow> stream_accepts a b (ss_mux (snd (?g, ?c)))" for b
    by (rule sendable_accepts) (use k(2) in \<open>simp_all add: copyBuf_def\<close>)
  have framed: "framed (ss_mux (snd (?g, ?c)))" using k(2) by (simp add: sendable_def)
  obtain n x where x: "(send_step p ^^ n) (?g, ?c) = x" "sending a i (fc_fs c) x" "file_pending i (send_src x) = []"
      "stream_sent a (ss_mux (snd x)) = stream_sent a (ss_mux (snd (?g, ?c))) @ file_pending i (send_src (?g, ?c))"
    using file_to_stream.copy_drain [where a = a and i = i and going = "sending a i (fc_fs c)" and src = send_src
        and dst = "\<lambda>x. ss_mux (snd x)" and step = "send_step p" and x = "(?g, ?c)", OF sending_step going TrueI framed TrueI acc]
    by blast
  have all: "stream_sent a (ss_mux (snd x)) = stream_sent a (ss_mux c) @ info_line info @ content"
    using x(4) k(3) assms(5) by (simp add: send_src_def file_pending_def)
  obtain g' c' where x': "x = (g', c')" by (cases x)
  have g': "sc_stream g' = a" "sc_ino g' = i" "fc_fs c' = fc_fs c" "sc_off g' = length content" "sendable a (ss_mux c')"
    using x(2,3) x' assms(5) by (auto simp: sending_def send_src_def file_pending_def)
  have "copy_round (file_Read i) (stream_Write a) ((sc_off g', fc_fs c'), ss_mux c') = (CopyEnd None, (sc_off g', fc_fs c'), ss_mux c')"
    using g' assms(5) by (simp add: copy_round_def file_Read_def Let_def)
  moreover have "os_Stat p (fc_fs c') = Inr (FFile True i)" using assms(3,4) g'(3) by (simp add: os_Stat_def)
  ultimately have last: "fc_Send_copy p g' c' = (Some (Done ()), g', close_stream a c')"
    using g' assms(5) by (simp add: fc_Send_copy_def Let_def size_of_def)
  obtain m where m: "stream_Close a (ss_mux c') = (None, m)" "stream_sent a m = stream_sent a (ss_mux c')"
    using sendable_close [OF g'(5)] by blast
  have "(send_step p ^^ Suc n) (?g, ?c) = (g', close_stream a c')" using x(1) x' last by (simp add: send_step_def)
  then show ?thesis using start x(1) x' last m all g'(3)
    by - (rule exI [of _ ?g], rule exI [of _ ?c], rule exI [of _ n], rule exI [of _ "close_stream a c'"],
      simp add: close_stream_def)
qed

section \<open>What a server sends\<close>

definition transfer_at :: "nat \<Rightarrow> addr \<Rightarrow> bytes \<Rightarrow> tf_phase \<Rightarrow> file_server \<Rightarrow> bool" where
  "transfer_at t a p ph s \<longleftrightarrow> t < length (fv_transfers s) \<and> fv_transfers s ! t = \<lparr>tf_stream = a, tf_path = p, tf_phase = ph\<rparr>"

lemma transfer_at_set: "transfer_at t a p ph s \<Longrightarrow> transfer_at t a p ph' (set_transfer t ph' s)"
  by (simp add: transfer_at_def set_transfer_def)

lemma set_transfer_same [simp]: "ss_mux (set_transfer t ph s) = ss_mux s" "fv_fs (set_transfer t ph s) = fv_fs s"
  by (simp_all add: set_transfer_def)

definition transfer_src :: "nat \<Rightarrow> file_server \<Rightarrow> nat \<times> filesys" where
  "transfer_src t s = (case tf_phase (fv_transfers s ! t) of TfCopy _ off \<Rightarrow> off | _ \<Rightarrow> 0, fv_fs s)"

definition transferring :: "nat \<Rightarrow> addr \<Rightarrow> bytes \<Rightarrow> nat \<Rightarrow> filesys \<Rightarrow> file_server \<Rightarrow> bool" where
  "transferring t a p i fs s \<longleftrightarrow> (\<exists>off. transfer_at t a p (TfCopy i off) s \<and> off \<le> length (fs_data fs ! i)) \<and> fv_fs s = fs
     \<and> sendable a (ss_mux s)"

text \<open>A round that goes on keeps the source's file system and leaves the stream sendable.\<close>

lemma send_round:
  assumes "copy_round (file_Read i) (stream_Write a) ((off, fs), m) = (CopyNext, s', m')" "sendable a m" "off \<le> length (fs_data fs ! i)"
  shows "sendable a m' \<and> snd s' = fs \<and> fst s' \<le> length (fs_data fs ! i)"
proof -
  obtain b where b: "file_Read i copyBuf (off, fs) = (RdData b, s')" "b = [] \<or> stream_Write a b m = ((length b, None), m')"
      "b = [] \<longrightarrow> m' = m"
    using assms(1) by (auto simp: copy_round_def split: rd.splits prod.splits option.splits if_splits)
  have "length b \<le> copyBuf" using b(1) by (auto simp: file_Read_def Let_def split: if_splits)
  then have "length b < 2 ^ 32" by (simp add: copyBuf_def)
  from sendable_write [OF assms(2) this] have "sendable a m'" using b(2,3) assms(2) by auto
  then show ?thesis using file_Read_fs [OF b(1) assms(3)] by simp
qed

lemma transferring_step:
  assumes "transferring t a p i fs s"
    and "copy_round (file_Read i) (stream_Write a) (transfer_src t s, ss_mux s) = (CopyNext, s', d')"
  shows "transferring t a p i fs (transferFile t s) \<and> transfer_src t (transferFile t s) = s' \<and> ss_mux (transferFile t s) = d'"
proof -
  obtain off where at: "transfer_at t a p (TfCopy i off) s" "off \<le> length (fs_data fs ! i)" "fv_fs s = fs" "sendable a (ss_mux s)"
    using assms(1) by (auto simp: transferring_def)
  obtain off' fs' where s': "s' = (off', fs')" by (cases s')
  have r: "copy_round (file_Read i) (stream_Write a) ((off, fs), ss_mux s) = (CopyNext, (off', fs'), d')"
    using assms(2) at s' by (simp add: transfer_src_def transfer_at_def)
  note k = send_round [OF r at(4,2)]
  have "transferFile t s = set_transfer t (TfCopy i off') (s\<lparr>ss_mux := d'\<rparr>)"
    using at r by (simp add: transferFile_def transfer_at_def Let_def)
  moreover have "transfer_at t a p (TfCopy i off') (set_transfer t (TfCopy i off') (s\<lparr>ss_mux := d'\<rparr>))"
    using at(1) by (simp add: transfer_at_def set_transfer_def)
  ultimately show ?thesis using k s' at(3) by (auto simp: transferring_def transfer_src_def transfer_at_def)
qed

lemma download_sent_ok:
  assumes "transfer_at t a p TfOpen s" "sendable a (ss_mux s)" "locate p (fv_fs s) = Inr l"
    and "node_at (fs_root (fv_fs s)) l = Some (FFile True i)"
  shows "\<exists>n s'. (transferFile t ^^ n) s = s' \<and> transfer_at t a p TfDone s'
    \<and> stream_sent a (ss_mux s') = stream_sent a (ss_mux s) @ fs_data (fv_fs s) ! i"
proof -
  let ?s = "set_transfer t (TfCopy i 0) s" and ?fs = "fv_fs s"
  have first: "transferFile t s = ?s"
    using assms(1,3,4) by (simp add: transferFile_def transfer_at_def os_Open_def Let_def)
  have at: "transfer_at t a p (TfCopy i 0) ?s" by (rule transfer_at_set [OF assms(1)])
  then have going: "transferring t a p i ?fs ?s" using assms(2) by (auto simp: transferring_def)
  have src: "file_pending i (transfer_src t ?s) = fs_data ?fs ! i"
    using at by (simp add: transfer_src_def transfer_at_def file_pending_def)
  have framed: "framed (ss_mux ?s)" using assms(2) by (simp add: sendable_def)
  have acc: "length b \<le> copyBuf \<Longrightarrow> stream_accepts a b (ss_mux ?s)" for b
    by (rule sendable_accepts) (use assms(2) in \<open>simp_all add: copyBuf_def\<close>)
  obtain n x where x: "(transferFile t ^^ n) ?s = x" "transferring t a p i ?fs x" "file_pending i (transfer_src t x) = []"
      "stream_sent a (ss_mux x) = stream_sent a (ss_mux ?s) @ fs_data ?fs ! i"
    using file_to_stream.copy_drain [where a = a and i = i and going = "transferring t a p i ?fs" and src = "transfer_src t"
        and dst = "\<lambda>x. ss_mux x" and step = "transferFile t" and x = ?s, OF transferring_step going TrueI framed TrueI acc]
    unfolding src by blast
  obtain off where off: "transfer_at t a p (TfCopy i off) x" "fv_fs x = ?fs" "sendable a (ss_mux x)"
    using x(2) by (auto simp: transferring_def)
  have "drop off (fs_data ?fs ! i) = []"
    using x(3) off(1,2) by (simp add: transfer_src_def transfer_at_def file_pending_def)
  then have "copy_round (file_Read i) (stream_Write a) ((off, fv_fs x), ss_mux x) = (CopyEnd None, (off, fv_fs x), ss_mux x)"
    using off(2) by (simp add: copy_round_def file_Read_def Let_def)
  then have last: "transferFile t x = end_transfer t (x\<lparr>ss_mux := ss_mux x\<rparr>)"
    using off(1) by (simp add: transferFile_def transfer_at_def Let_def)
  obtain m where m: "stream_Close a (ss_mux x) = (None, m)" "stream_sent a m = stream_sent a (ss_mux x)"
    using sendable_close [OF off(3)] by blast
  have e: "end_transfer t x = set_transfer t TfDone (x\<lparr>ss_mux := m\<rparr>)"
    using off(1) m(1) by (simp add: end_transfer_def transfer_at_def Let_def)
  have "(transferFile t ^^ (Suc n + 1)) s = (transferFile t ^^ Suc n) ((transferFile t ^^ 1) s)"
    by (simp only: funpow_add o_apply)
  then have "(transferFile t ^^ (Suc n + 1)) s = set_transfer t TfDone (x\<lparr>ss_mux := m\<rparr>)"
    using first x(1) last e by simp
  moreover have "transfer_at t a p TfDone (set_transfer t TfDone (x\<lparr>ss_mux := m\<rparr>))"
    using off(1) by (simp add: transfer_at_def set_transfer_def)
  ultimately show ?thesis using m(2) x(4) by (intro exI [of _ "Suc n + 1"]) simp
qed

section \<open>What a client receives\<close>

definition get_step :: "bytes \<Rightarrow> get_copy \<times> file_client \<Rightarrow> get_copy \<times> file_client" where
  "get_step p x = snd (fc_Get_copy p (fst x) (snd x))"

definition get_src :: "get_copy \<times> file_client \<Rightarrow> nat \<times> mux" where
  "get_src x = (gc_rem (fst x), ss_mux (snd x))"

definition get_dst :: "get_copy \<times> file_client \<Rightarrow> nat \<times> filesys" where
  "get_dst x = (gc_off (fst x), fc_fs (snd x))"

definition getting :: "addr \<Rightarrow> nat \<Rightarrow> file_info \<Rightarrow> fnode \<times> bytes list \<Rightarrow> get_copy \<times> file_client \<Rightarrow> bool" where
  "getting a i info tree x \<longleftrightarrow> gc_stream (fst x) = a \<and> gc_ino (fst x) = i \<and> gc_info (fst x) = info
     \<and> (fs_root (fc_fs (snd x)), fs_cwd (fc_fs (snd x))) = tree"

lemma getting_step:
  assumes "getting a i info tree x"
    and "copy_round (limit_Read (stream_Read a)) (file_Write i) (get_src x, get_dst x) = (CopyNext, s', d')"
  shows "getting a i info tree (get_step p x) \<and> get_src (get_step p x) = s' \<and> get_dst (get_step p x) = d'"
proof -
  obtain g c where x: "x = (g, c)" by (cases x)
  obtain rem m off fs where sd: "s' = (rem, m)" "d' = (off, fs)" by (cases s'; cases d')
  have r: "copy_round (limit_Read (stream_Read a)) (file_Write i) ((gc_rem g, ss_mux c), (gc_off g, fc_fs c)) = (CopyNext, (rem, m), (off, fs))"
    using assms(2) x sd by (simp add: get_src_def get_dst_def)
  then show ?thesis using assms(1) x sd copy_round_file_root [OF r]
    by (auto simp: get_step_def fc_Get_copy_def getting_def get_src_def get_dst_def Let_def)
qed

lemma download_stored_ok:
  assumes "os_MkdirAll (path_Dir p) (fc_fs c) = (None, fs)" "creatable p l fs" "a < length (objs (ss_mux c))"
    and "stream_pending a (ss_mux c) = content @ rest" "fi_size info = int (length content)" "fi_checksum info = checksum_of content"
  shows "\<exists>g c1 n x. get_start p info a c = (Done g, c1) \<and> (get_step p ^^ n) (g, c1) = x
    \<and> fst (fc_Get_copy p (fst x) (snd x)) = Some (Done ())
    \<and> (\<exists>i. node_at (fs_root (fc_fs (snd (get_step p x)))) l = Some (FFile True i) \<and> fs_data (fc_fs (snd (get_step p x))) ! i = content)"
proof -
  obtain i fs' where fs': "os_Create p fs = (Inr i, fs')" "locate p fs' = Inr l" "node_at (fs_root fs') l = Some (FFile True i)"
      "i < length (fs_data fs')" "fs_data fs' ! i = []"
    using Create_ok [OF assms(2)] by blast
  let ?g = "\<lparr>gc_stream = a, gc_ino = i, gc_off = 0, gc_rem = length content, gc_info = info\<rparr>" and ?c = "c\<lparr>fc_fs := fs'\<rparr>"
  have start: "get_start p info a c = (Done ?g, ?c)" using assms(1,5) fs'(1) by (simp add: get_start_def)
  have going: "getting a i info (fs_root fs', fs_cwd fs') (?g, ?c)" by (simp add: getting_def)
  have src: "a < length (objs (snd (get_src (?g, ?c)))) \<and> fst (get_src (?g, ?c)) \<le> length (stream_pending a (snd (get_src (?g, ?c))))"
      "take (fst (get_src (?g, ?c))) (stream_pending a (snd (get_src (?g, ?c)))) = content"
    using assms(3,4) by (simp_all add: get_src_def)
  have dst: "at_end i (get_dst (?g, ?c))" using fs'(4,5) by (simp add: at_end_def get_dst_def)
  obtain n x where x: "(get_step p ^^ n) (?g, ?c) = x" "getting a i info (fs_root fs', fs_cwd fs') x"
      "a < length (objs (snd (get_src x))) \<and> fst (get_src x) \<le> length (stream_pending a (snd (get_src x)))"
      "take (fst (get_src x)) (stream_pending a (snd (get_src x))) = []"
      "file_contents i (get_dst x) = file_contents i (get_dst (?g, ?c)) @ content"
    using stream_to_file.copy_drain [where a = a and i = i and going = "getting a i info (fs_root fs', fs_cwd fs')"
        and src = get_src and dst = get_dst and step = "get_step p" and x = "(?g, ?c)", OF getting_step going src(1) dst TrueI TrueI]
    unfolding src(2) by blast
  obtain g' c' where x': "x = (g', c')" by (cases x)
  have g': "gc_stream g' = a" "gc_ino g' = i" "gc_info g' = info" "fs_root (fc_fs c') = fs_root fs'" "fs_cwd (fc_fs c') = fs_cwd fs'"
      "gc_rem g' = 0" "fs_data (fc_fs c') ! i = content"
    using x(2-5) x' fs'(5) by (auto simp: getting_def get_src_def get_dst_def file_contents_def)
  have round: "copy_round (limit_Read (stream_Read a)) (file_Write i) ((gc_rem g', ss_mux c'), (gc_off g', fc_fs c'))
      = (CopyEnd None, (gc_rem g', ss_mux c'), (gc_off g', fc_fs c'))"
    using g'(6) by (simp add: copy_round_def limit_Read_def)
  have "locate p (fc_fs c') = Inr l" using locate_same [OF g'(4,5)] fs'(2) by simp
  then have "calculateChecksum p (fc_fs c') = Inr (checksum_of content)"
    using fs'(3) g'(4,7) by (simp add: calculateChecksum_def os_Open_def)
  then have "fc_Get_copy p g' c' = (Some (Done ()), g', close_stream a c')"
    using round g' assms(6) by (simp add: fc_Get_copy_def get_verify_def Let_def)
  then have "fst (fc_Get_copy p (fst x) (snd x)) = Some (Done ())" "snd (get_step p x) = close_stream a c'"
    using x' by (simp_all add: get_step_def)
  moreover have "fc_fs (close_stream a c') = fc_fs c'" by (simp add: close_stream_def)
  ultimately show ?thesis using start x(1) g'(4,7) fs'(3)
    by (intro exI [of _ ?g] exI [of _ ?c] exI [of _ n] exI [of _ x]) auto
qed

section \<open>The end of an upload\<close>

lemma creatable_same:
  "creatable p l fs \<Longrightarrow> fs_root fs' = fs_root fs \<Longrightarrow> fs_cwd fs' = fs_cwd fs \<Longrightarrow> length (fs_data fs') = length (fs_data fs)
    \<Longrightarrow> creatable p l fs'"
  using locate_same [of fs' fs p] by (simp add: creatable_def split: option.splits fnode.splits)

lemma copy_round_file_length:
  "copy_round r (file_Write i) (s, off, fs) = (x, s', off', fs') \<Longrightarrow> length (fs_data fs') = length (fs_data fs)"
  by (auto simp: copy_round_def file_Write_def split: prod.splits rd.splits if_splits)

text \<open>The file at \<open>l\<close> has the announced checksum, or there is none.\<close>

definition verified_or_gone :: "bytes list \<Rightarrow> file_info \<Rightarrow> filesys \<Rightarrow> bool" where
  "verified_or_gone l info fs \<longleftrightarrow> (case node_at (fs_root fs) l of
      None \<Rightarrow> True
    | Some (FFile _ i) \<Rightarrow> checksum_of (fs_data fs ! i) = fi_checksum info
    | Some (FDir _ _) \<Rightarrow> False)"

lemma abandon_gone:
  assumes "receipt_at t a p ph s" "creatable p l (fv_fs s)"
  shows "verified_or_gone l info (fv_fs (abandon t s))"
proof -
  have "node_at (fs_root (snd (os_Remove p (fv_fs s)))) l = None"
  proof (cases "node_at (fs_root (fv_fs s)) l")
    case None
    then show ?thesis using assms(2) by (simp add: os_Remove_def creatable_def)
  next
    case (Some n)
    then obtain ok i where "n = FFile ok i" using assms(2) by (cases n) (auto simp: creatable_def)
    then show ?thesis using Remove_ok [OF assms(2)] Some by fastforce
  qed
  then show ?thesis using assms(1) by (simp add: abandon_def receipt_at_def end_receipt_done(2) verified_or_gone_def)
qed

lemma receipt_end_ok:
  assumes "receipt_at t a p ph s" "ph = RvCopy info i off rem \<or> ph = RvVerify info" "creatable p l (fv_fs s)"
    and "s' = receiveFile t s \<or> s' = receive_timeout t s" "receipt_at t a p RvDone s'"
  shows "verified_or_gone l info (fv_fs s')"
proof (cases "ph = RvVerify info")
  case True
  then have "receive_timeout t s = s" using assms(1) by (simp add: receive_timeout_def receipt_at_def)
  moreover have "\<not> receipt_at t a p RvDone s" using assms(1) True by (simp add: receipt_at_def)
  ultimately have s': "s' = receiveFile t s" using assms(4,5) by auto
  have l: "locate p (fv_fs s) = Inr l" using assms(3) by (simp add: creatable_def)
  show ?thesis
  proof (cases "calculateChecksum p (fv_fs s) = Inr (fi_checksum info)")
    case True
    then have "verified_or_gone l info (fv_fs s)"
      using l by (auto simp: verified_or_gone_def calculateChecksum_def os_Open_def split: option.splits fnode.splits if_splits)
    moreover have "s' = end_receipt t s" using True s' \<open>ph = RvVerify info\<close> assms(1) by (simp add: receiveFile_def receipt_at_def Let_def)
    ultimately show ?thesis by (simp add: end_receipt_done(2))
  next
    case False
    then have "s' = abandon t s" using s' \<open>ph = RvVerify info\<close> assms(1)
      by (auto simp: receiveFile_def receipt_at_def Let_def split: sum.split)
    then show ?thesis using abandon_gone [OF assms(1,3)] by simp
  qed
next
  case False
  then have ph: "ph = RvCopy info i off rem" using assms(2) by simp
  have "s' = abandon t s \<or> (\<exists>m fs. s' = abandon t (s\<lparr>ss_mux := m, fv_fs := fs\<rparr>) \<and> creatable p l fs)"
  proof (cases "s' = receive_timeout t s")
    case True
    then show ?thesis using assms(1) ph by (simp add: receive_timeout_def receipt_at_def)
  next
    case False
    obtain x rem' m off' fs where r: "copy_round (limit_Read (stream_Read a)) (file_Write i) ((rem, ss_mux s), (off, fv_fs s))
        = (x, (rem', m), (off', fs))"
      by (metis prod.collapse)
    have c: "creatable p l fs"
      by (rule creatable_same [OF assms(3)]) (use copy_round_file_root [OF r] copy_round_file_length [OF r] in simp_all)
    have n: "\<not> receipt_at t a p RvDone (set_receipt t (RvCopy info i off' rem') (s\<lparr>ss_mux := m, fv_fs := fs\<rparr>))"
        "\<not> receipt_at t a p RvDone (set_receipt t (RvVerify info) (s\<lparr>ss_mux := m, fv_fs := fs\<rparr>))"
      using assms(1) by (auto simp: receipt_at_def set_receipt_def)
    have "s' = receiveFile t s" using assms(4) False by simp
    then show ?thesis using assms(1,5) ph r c n
      by (cases x) (auto simp: receiveFile_def receipt_at_def Let_def split: if_splits)
  qed
  then show ?thesis
  proof
    assume "\<exists>m fs. s' = abandon t (s\<lparr>ss_mux := m, fv_fs := fs\<rparr>) \<and> creatable p l fs"
    then obtain m fs where s': "s' = abandon t (s\<lparr>ss_mux := m, fv_fs := fs\<rparr>)" "creatable p l fs" by blast
    have "receipt_at t a p ph (s\<lparr>ss_mux := m, fv_fs := fs\<rparr>)" using assms(1) by (simp add: receipt_at_def)
    then show ?thesis using abandon_gone [of t a p ph "s\<lparr>ss_mux := m, fv_fs := fs\<rparr>" l info] s' by simp
  qed (use abandon_gone [OF assms(1,3)] in simp)
qed

end
