(* ===== verification/File_Agreement.thy ===== *)
theory File_Agreement
  imports File_Transfer
begin

text \<open>
  The properties of uploads and downloads, with the sample systems that show their hypotheses can hold.
\<close>

section \<open>Samples\<close>

text \<open>A file system with a data directory, and a multiplexer whose stream 1 has frames queued.\<close>

definition sample_fs :: filesys where
  "sample_fs = \<lparr>fs_root = FDir True [(''data'', FDir True []), (''etc'', FDir True [(''key'', FFile True 0)])],
     fs_data = [''hi''], fs_cwd = []\<rparr>"

definition queued :: "bytes list \<Rightarrow> mux" where
  "queued q = sample_mux\<lparr>objs := [(fresh_stream 1)\<lparr>s_reader := (newStreamReader 1)\<lparr>dataChan := q\<rparr>\<rparr>]\<rparr>"

definition sample_info :: file_info where
  "sample_info = \<lparr>fi_filename = ''f'', fi_size = 2, fi_checksum = checksum_of ''hi''\<rparr>"

definition sample_file_server :: "bytes list \<Rightarrow> transfer list \<Rightarrow> receipt list \<Rightarrow> file_server" where
  "sample_file_server q ts rs = \<lparr>ss_mux = queued q, ss_ctrl = 0, ss_control = NewControlPlane True, bs_clientID = [],
     bs_handshakeDone = True, bs_streamIDCounter = 0, fv_dataDir = ''/data'', fv_fs = sample_fs, fv_transfers = ts, fv_receipts = rs\<rparr>"

definition sample_file_client :: "bytes list \<Rightarrow> file_client" where
  "sample_file_client q = \<lparr>ss_mux = queued q, ss_ctrl = 0, ss_control = NewControlPlane True, bc_clientID = ''c'',
     bc_handshakeDone = True, bc_reqs = [], bc_pending = Map.empty, bc_nextRequestID = 0, bc_dispatchOnce = True,
     bc_dispatching = True, bc_dispatchCancelled = False, fc_fs = sample_fs\<rparr>"

lemma sample_systems:
  "ss_mux (sample_file_server q ts rs) = queued q" "fv_fs (sample_file_server q ts rs) = sample_fs"
  "fv_transfers (sample_file_server q ts rs) = ts" "fv_receipts (sample_file_server q ts rs) = rs"
  "ss_mux (sample_file_client q) = queued q" "fc_fs (sample_file_client q) = sample_fs"
  by (simp_all add: sample_file_server_def sample_file_client_def)

lemma sample_sendable: "sendable 0 (queued q)"
  using sample_mux_sends
  by (auto simp: sendable_def queued_def framed_def sent_frames_def writer_id_def fresh_stream_def newStreamWriter_def)

lemma queued_pending: "[] \<notin> set q \<Longrightarrow> stream_pending 0 (queued q) = concat q" "0 < length (objs (queued q))"
  by (simp_all add: stream_pending_def sr_pending_def queued_def newStreamReader_def before_end_data)

lemma checksum_utf8: "valid_utf8 (checksum_of m)"
  by (rule valid_utf8_ascii) (use checksum_of_ascii in \<open>auto simp: list_all_iff\<close>)

lemma sample_info_ok: "file_info_ok sample_info" "length (info_line sample_info) < 2 ^ 32" "[] \<notin> set [info_line sample_info, ''hi'']"
proof -
  show "file_info_ok sample_info"
    by (simp add: file_info_ok_def sample_info_def checksum_utf8 valid_utf8_ascii)
  show "length (info_line sample_info) < 2 ^ 32"
    using length_json_quote [of "checksum_of ''hi''"] length_checksum_of [of "''hi''"]
    by (simp add: info_line_def file_info_to_json_def struct_simps(1-3) sample_info_def jint_def show_int_def show_nat.simps)
      (simp add: json_quote_def json_esc.simps esc_ascii_def)
  show "[] \<notin> set [info_line sample_info, ''hi'']" by (simp add: info_line_def)
qed

lemma sample_nodes:
  "locate ''/etc/key'' sample_fs = Inr [''etc'', ''key'']" "node_at (fs_root sample_fs) [''etc'', ''key''] = Some (FFile True 0)"
  "creatable ''/data/f'' [''data'', ''f''] sample_fs" "fs_data sample_fs ! 0 = ''hi''"
  by (simp_all add: locate_def start_dir_def is_rooted_def sample_fs_def creatable_def)

section \<open>Properties\<close>







end
