(* ===== verification/File_Requests.thy ===== *)
theory File_Requests
  imports File_Agreement
begin

text \<open>
  Where the requests of a file client can reach in the server's tree, and what a listing holds: paths of
  the server as locations, the listing as a recursion over the tree, and the reach of a request whose name
  has no \<open>..\<close> element, with the name that leaves the data directory.
\<close>

section \<open>Joined paths\<close>

abbreviation slashed :: "bytes list \<Rightarrow> bytes" where
  "slashed ps \<equiv> join_with ''/'' ps"

definition parts :: "bytes \<Rightarrow> bytes list" where
  "parts p = clean_parts True [] (split_on CHR ''/'' p)"

definition named :: "bytes \<Rightarrow> bytes list" where
  "named n = filter (\<lambda>p. p \<noteq> [] \<and> p \<noteq> ''.'') (split_on CHR ''/'' n)"

lemma parts_plain: "\<forall>p \<in> set (parts d). plain p"
  unfolding parts_def using split_on_no_sep [of _ "CHR ''/''" d] by (intro clean_parts_rooted) auto

lemma named_plain: "''..'' \<notin> set (split_on CHR ''/'' n) \<Longrightarrow> \<forall>p \<in> set (named n). plain p"
  using split_on_no_sep [of _ "CHR ''/''" n] by (auto simp: named_def plain_def)

lemma split_slashed: "\<forall>p \<in> set ps. plain p \<Longrightarrow> split_on CHR ''/'' (slashed ps) = (if ps = [] then [[]] else ps)"
  using split_join [of ps "CHR ''/''"] by (auto simp: plain_def)

lemma slashed_not_rooted: "\<forall>p \<in> set ps. plain p \<Longrightarrow> \<not> is_rooted (slashed ps)"
proof (cases ps)
  case (Cons p qs)
  assume "\<forall>p \<in> set ps. plain p"
  then obtain c r where "p = c # r" "c \<noteq> CHR ''/''" using Cons by (cases p) (auto simp: plain_def)
  then show ?thesis using Cons by (cases qs) (auto simp: is_rooted_def)
qed (simp add: is_rooted_def)

lemma split_on_join2: "split_on CHR ''/'' (join_with ''/'' [u, v]) = split_on CHR ''/'' u @ split_on CHR ''/'' v"
  using split_on_append [of "CHR ''/''" u v] by simp

lemma clean_parts_later:
  "''..'' \<notin> set qs \<Longrightarrow> clean_parts r out (ps @ qs) = clean_parts r out ps @ filter (\<lambda>p. p \<noteq> [] \<and> p \<noteq> ''.'') qs"
proof (induction ps arbitrary: out)
  case Nil
  then show ?case by (simp add: clean_parts_no_dotdot)
next
  case (Cons p ps)
  then show ?case by (cases r) auto
qed

lemma path_Join_data:
  assumes "is_rooted d" "''..'' \<notin> set (split_on CHR ''/'' n)"
  shows "path_Join [d, n] = CHR ''/'' # slashed (parts d @ named n)"
proof -
  have "d \<noteq> []" using assms(1) by (auto simp: is_rooted_def)
  then have j: "path_Join [d, n] = path_Clean (join_with ''/'' [d, n])" by (simp add: path_Join_def)
  have "is_rooted (join_with ''/'' [d, n])" using assms(1) by (auto simp: is_rooted_def prefix_def)
  then have "path_Join [d, n] = CHR ''/'' # slashed (clean_parts True [] (split_on CHR ''/'' (join_with ''/'' [d, n])))"
    unfolding j by (simp add: path_Clean_def Let_def)
  then show ?thesis unfolding split_on_join2 clean_parts_later [OF assms(2)] by (simp add: parts_def named_def)
qed

lemma path_Clean_rooted_plain: "\<forall>p \<in> set qs. plain p \<Longrightarrow> path_Clean (CHR ''/'' # slashed qs) = CHR ''/'' # slashed qs"
proof -
  assume q: "\<forall>p \<in> set qs. plain p"
  have "split_on CHR ''/'' (CHR ''/'' # slashed qs) = [] # (if qs = [] then [[]] else qs)" using split_slashed [OF q] by simp
  moreover have "is_rooted (CHR ''/'' # slashed qs)" by (simp add: is_rooted_def)
  ultimately show ?thesis using clean_parts_plain [OF q, of True "[]"] by (simp add: path_Clean_def Let_def)
qed

lemma parts_plain_path: "\<forall>p \<in> set qs. plain p \<Longrightarrow> parts (CHR ''/'' # slashed qs) = qs"
  using split_slashed [of qs] clean_parts_plain [of qs True "[]"] by (simp add: parts_def)

lemma path_Join_relative:
  assumes "\<forall>p \<in> set ps. plain p" "plain n"
  shows "path_Join [slashed ps, n] = slashed (ps @ [n])"
proof -
  have all: "\<forall>p \<in> set (ps @ [n]). plain p" using assms by simp
  have clean: "path_Clean (slashed (ps @ [n])) = slashed (ps @ [n])"
    using slashed_not_rooted [OF all] split_slashed [OF all] clean_parts_plain [OF all, of False "[]"]
    by (simp add: path_Clean_def Let_def)
  have app: "slashed (ps @ [n]) = slashed ps @ ''/'' @ n" if "ps \<noteq> []"
    using that by (induction ps rule: induct_list012) auto
  have "slashed ps \<noteq> []" if "ps \<noteq> []"
    using that assms(1) by (intro join_with_not_Nil) (auto simp: plain_def)
  then show ?thesis using clean app assms(2) by (cases "ps = []") (auto simp: path_Join_def plain_def)
qed

lemma slashed_snoc: "ps \<noteq> [] \<Longrightarrow> slashed (ps @ [n]) = slashed ps @ CHR ''/'' # n"
  by (induction ps rule: induct_list012) auto

lemma path_Dir_rooted:
  assumes "\<forall>p \<in> set qs. plain p"
  shows "path_Dir (CHR ''/'' # slashed qs) = CHR ''/'' # slashed (butlast qs)"
proof (cases qs rule: rev_cases)
  case Nil
  then show ?thesis by (simp add: path_Dir_def path_Clean_def is_rooted_def)
next
  case (snoc ps n)
  have n: "CHR ''/'' \<notin> set n" and ps: "\<forall>p \<in> set ps. plain p" using assms snoc by (simp_all add: plain_def)
  obtain u where u: "CHR ''/'' # slashed qs = u @ CHR ''/'' # n" "u = (if ps = [] then [] else CHR ''/'' # slashed ps)"
    using snoc slashed_snoc [of ps n] by auto
  have "dropWhile (\<lambda>c. c \<noteq> CHR ''/'') (rev (u @ CHR ''/'' # n)) = CHR ''/'' # rev u"
    using n by (auto simp: dropWhile_append)
  then have d: "path_Dir (CHR ''/'' # slashed qs) = path_Clean (u @ ''/'')" unfolding u(1) by (simp add: path_Dir_def)
  have "path_Clean (CHR ''/'' # slashed ps @ ''/'') = CHR ''/'' # slashed ps" if "ps \<noteq> []"
  proof -
    have "split_on CHR ''/'' (CHR ''/'' # slashed ps @ ''/'') = [] # ps @ [[]]"
      using split_on_append [of "CHR ''/''" "slashed ps" "[]"] split_slashed [OF ps] that by simp
    moreover have "clean_parts True [] (ps @ [[]]) = ps"
      using clean_parts_later [of "[[]]" True "[]" ps] clean_parts_plain [OF ps, of True "[]"] by simp
    moreover have "is_rooted (CHR ''/'' # slashed ps @ ''/'')" by (simp add: is_rooted_def)
    ultimately show ?thesis by (simp add: path_Clean_def Let_def)
  qed
  then show ?thesis using d u(2) snoc by (cases "ps = []") (auto simp: path_Clean_def is_rooted_def)
qed

section \<open>Locations\<close>

lemma walk_plain: "\<forall>p \<in> set qs. plain p \<Longrightarrow> walk root cur qs = Inr l \<Longrightarrow> l = cur @ qs"
proof (induction qs arbitrary: cur)
  case (Cons q qs)
  then have "walk root (cur @ [q]) qs = Inr l" by (auto simp: plain_def split: option.splits fnode.splits)
  then show ?case using Cons.IH [of "cur @ [q]"] Cons.prems(1) by simp
qed simp

lemma walk_found: "\<forall>p \<in> set qs. plain p \<Longrightarrow> node_at root (cur @ qs) = Some n \<Longrightarrow> walk root cur qs = Inr (cur @ qs)"
proof (induction qs arbitrary: cur)
  case (Cons q qs)
  have "node_at root ((cur @ [q]) @ qs) = Some n" using Cons.prems(2) by simp
  moreover obtain m where m: "node_at root cur = Some m" "node_at m (q # qs) = Some n"
    using Cons.prems(2) by (auto simp: node_at_append split: bind_splits)
  moreover obtain w es where "m = FDir w es" using m(2) by (cases m) auto
  ultimately show ?case using Cons.IH [of "cur @ [q]"] Cons.prems(1) by (simp add: plain_def)
qed simp

lemma locate_plain:
  assumes "\<forall>p \<in> set qs. plain p"
  shows "locate (CHR ''/'' # slashed qs) fs = Inr l \<Longrightarrow> l = qs"
    "node_at (fs_root fs) qs = Some n \<Longrightarrow> qs \<noteq> [] \<or> \<not> is_file n \<Longrightarrow> locate (CHR ''/'' # slashed qs) fs = Inr qs"
proof -
  have e: "locate (CHR ''/'' # slashed qs) fs = walk (fs_root fs) [] ([] # (if qs = [] then [[]] else qs))"
    using split_slashed [OF assms] by (simp add: locate_def start_dir_def is_rooted_def)
  show "l = qs" if "locate (CHR ''/'' # slashed qs) fs = Inr l"
    using that walk_plain [OF assms, of "fs_root fs" "[]"] by (auto simp: e split: fnode.splits if_splits)
  show "locate (CHR ''/'' # slashed qs) fs = Inr qs" if "node_at (fs_root fs) qs = Some n" "qs \<noteq> [] \<or> \<not> is_file n"
  proof -
    note t = that
    have "walk (fs_root fs) [] qs = Inr qs" using walk_found [OF assms, of "fs_root fs" "[]" n] t(1) by simp
    moreover obtain w es where "fs_root fs = FDir w es"
      using t by (cases "fs_root fs"; cases qs) auto
    ultimately show ?thesis unfolding e by (cases qs) auto
  qed
qed

section \<open>Listings\<close>

text \<open>Every directory holds distinct names, each of which is a plain path element.\<close>

fun tree_ok :: "fnode \<Rightarrow> bool" where
  "tree_ok (FFile _ _) \<longleftrightarrow> True"
| "tree_ok (FDir _ es) \<longleftrightarrow> distinct (map fst es) \<and> list_all (\<lambda>(p, n). plain p \<and> tree_ok n) es"

text \<open>The reference: the entry of a node, with everything below it.\<close>

fun entry_of :: "filesys \<Rightarrow> bytes list \<Rightarrow> bytes \<times> fnode \<Rightarrow> file_entry" where
  "entry_of fs ps (name, FFile ok i) = FileEntry (slashed ps) name (int (length (fs_data fs ! i))) False None"
| "entry_of fs ps (name, FDir w es) = FileEntry (slashed ps) name 0 True (Some (map (entry_of fs (ps @ [name])) es))"

definition top_entry :: "bool \<Rightarrow> filesys \<Rightarrow> bytes list \<Rightarrow> bytes \<times> fnode \<Rightarrow> file_entry" where
  "top_entry recursive fs ps e = (case entry_of fs ps e of FileEntry _ f n isDir cs \<Rightarrow>
     FileEntry (if ps = [] then ''/'' else slashed ps) f n isDir (if recursive then cs else None))"

lemma fold_max_ge: "(k :: nat) \<le> fold max ks k \<and> (\<forall>x \<in> set ks. x \<le> fold max ks k)"
proof (induction ks arbitrary: k)
  case (Cons x ks)
  from Cons.IH [of "max x k"] show ?case by auto
qed simp

lemma tree_height_entry: "(p, n) \<in> set es \<Longrightarrow> tree_height n < tree_height (FDir w es)"
  using fold_max_ge [of 0 "map (\<lambda>(_, n). tree_height n) es"] by (force simp: less_Suc_eq_le)

lemma tree_height_below: "node_at n l = Some m \<Longrightarrow> tree_height m \<le> tree_height n"
proof (induction n l rule: node_at.induct)
  case (2 w es p ps)
  then obtain k where k: "map_of es p = Some k" "node_at k ps = Some m" by (auto split: option.splits)
  then show ?case using 2 tree_height_entry [of p k es w] map_of_SomeD by fastforce
qed auto

lemma those_Some: "those (map (\<lambda>e. Some (f e)) es) = Some (map f es)"
  by (induction es) auto

lemma list_entries_all:
  assumes "\<And>e. e \<in> set es \<Longrightarrow> list_entry sub d dirPath rel fs e = Some [f e]"
  shows "list_entries sub d dirPath rel fs es = Some (map f es)"
proof -
  have "map (list_entry sub d dirPath rel fs) es = map (\<lambda>e. Some [f e]) es" using assms by simp
  then show ?thesis by (simp only: list_entries_def those_Some) (simp add: concat_map_singleton)
qed

text \<open>A file entry, and a directory entry once its children are known.\<close>

lemma list_entry_file:
  assumes "\<forall>p \<in> set qs. plain p" "node_at (fs_root fs) qs = Some (FDir w es)" "(name, FFile ok i) \<in> set es" "tree_ok (FDir w es)"
  shows "list_entry sub d (CHR ''/'' # slashed qs) rel fs (name, FFile ok i)
    = Some [FileEntry d name (int (length (fs_data fs ! i))) False None]"
proof -
  have name: "plain name" "map_of es name = Some (FFile ok i)" using assms(3,4) by (auto simp: list_all_iff)
  then have q: "\<forall>p \<in> set (qs @ [name]). plain p" "named name = [name]" "''..'' \<notin> set (split_on CHR ''/'' name)"
    using assms(1) by (auto simp: named_def plain_def split_on_plain)
  have j: "path_Join [CHR ''/'' # slashed qs, name] = CHR ''/'' # slashed (qs @ [name])"
    using path_Join_data [of "CHR ''/'' # slashed qs" name] parts_plain_path [OF assms(1)] q by (simp add: is_rooted_def)
  have "node_at (fs_root fs) (qs @ [name]) = Some (FFile ok i)" using assms(2) name(2) by (simp add: node_at_append)
  then have "os_Stat (CHR ''/'' # slashed (qs @ [name])) fs = Inr (FFile ok i)"
    using locate_plain(2) [OF q(1)] by (simp add: os_Stat_def)
  then show ?thesis by (simp add: list_entry_def j size_of_def)
qed

lemma data_path:
  assumes "is_rooted d" "\<forall>p \<in> set ps. plain p"
  shows "path_Join [d, slashed ps] = CHR ''/'' # slashed (parts d @ ps)" "\<forall>p \<in> set (parts d @ ps). plain p"
proof -
  have "''..'' \<notin> set (split_on CHR ''/'' (slashed ps))" "named (slashed ps) = ps"
    using assms(2) split_slashed [OF assms(2)] by (auto simp: named_def plain_def intro: filter_True)
  then show "path_Join [d, slashed ps] = CHR ''/'' # slashed (parts d @ ps)" using path_Join_data [OF assms(1)] by simp
  show "\<forall>p \<in> set (parts d @ ps). plain p" using assms(2) parts_plain by auto
qed

lemma ReadDir_plain:
  assumes "\<forall>p \<in> set qs. plain p" "node_at (fs_root fs) qs = Some (FDir w es)"
  shows "os_ReadDir (CHR ''/'' # slashed qs) fs = Inr es" "os_Stat (CHR ''/'' # slashed qs) fs = Inr (FDir w es)"
  using locate_plain(2) [OF assms] assms(2) by (simp_all add: os_ReadDir_def os_Stat_def)

lemma listRecursive_tree:
  assumes "is_rooted d"
  shows "node_at (fs_root fs) (parts d @ ps) = Some (FDir w es) \<Longrightarrow> tree_ok (FDir w es) \<Longrightarrow> \<forall>p \<in> set ps. plain p \<Longrightarrow>
    tree_height (FDir w es) \<le> k \<Longrightarrow> listRecursive k d fs (slashed ps) = Some (Inr (map (entry_of fs ps) es))"
proof (induction k arbitrary: ps w es)
  case (Suc k)
  note dp = data_path [OF assms Suc.prems(3)]
  have "list_entry (listRecursive k d fs) (slashed ps) (CHR ''/'' # slashed (parts d @ ps)) (slashed ps) fs e = Some [entry_of fs ps e]"
    if "e \<in> set es" for e
  proof -
    obtain name n where e: "e = (name, n)" by (cases e)
    have name: "plain name" "map_of es name = Some n" "tree_ok n"
      using Suc.prems(2) that e by (auto simp: list_all_iff)
    show ?thesis
    proof (cases n)
      case (FFile ok i)
      then show ?thesis using list_entry_file [OF dp(2) Suc.prems(1) _ Suc.prems(2)] that e by simp
    next
      case (FDir u fs')
      have "node_at (fs_root fs) (parts d @ ps @ [name]) = Some (FDir u fs')"
        using Suc.prems(1) name(2) FDir by (simp add: node_at_append [of _ "parts d @ ps" "[name]", simplified])
      moreover have "tree_height (FDir u fs') \<le> k"
        using tree_height_entry [of name n es w] that e FDir Suc.prems(4) by simp
      ultimately have "listRecursive k d fs (slashed (ps @ [name])) = Some (Inr (map (entry_of fs (ps @ [name])) fs'))"
        using Suc.IH [of "ps @ [name]" u fs'] Suc.prems(3) name(1,3) FDir by simp
      then show ?thesis using path_Join_relative [OF Suc.prems(3) name(1)] e FDir by (simp add: list_entry_def)
    qed
  qed
  then have "list_entries (listRecursive k d fs) (slashed ps) (CHR ''/'' # slashed (parts d @ ps)) (slashed ps) fs es
      = Some (map (entry_of fs ps) es)" by (rule list_entries_all)
  then show ?case using ReadDir_plain(1) [OF dp(2) Suc.prems(1)] dp(1) by (simp add: Let_def)
qed simp

lemma handleList_tree:
  assumes "UnmarshalPayload file_list_request_fields (Some h) (Some no_file_list_request) = (Some r, None)"
    and "relative_path (flq_path r) = slashed ps" "\<forall>p \<in> set ps. plain p" "is_rooted (fv_dataDir s)"
    and "node_at (fs_root (fv_fs s)) (parts (fv_dataDir s) @ ps) = Some (FDir w es)" "tree_ok (FDir w es)"
  shows "fv_handleList h s = sendListSuccess (map (top_entry (flq_recursive r) (fv_fs s) ps) es) s"
proof -
  let ?d = "fv_dataDir s" and ?fs = "fv_fs s"
  let ?sub = "if flq_recursive r then listRecursive (tree_height (fs_root ?fs)) ?d ?fs else (\<lambda>_. Some (Inl (Err [])))"
  let ?display = "if slashed ps = [] then ''/'' else slashed ps"
  note dp = data_path [OF assms(4,3)]
  have display: "?display = (if ps = [] then ''/'' else slashed ps)"
    using join_with_not_Nil [of ps] assms(3) by (auto simp: plain_def)
  have "list_entry ?sub ?display (CHR ''/'' # slashed (parts ?d @ ps)) (slashed ps) ?fs e = Some [top_entry (flq_recursive r) ?fs ps e]"
    if "e \<in> set es" for e
  proof -
    obtain name n where e: "e = (name, n)" by (cases e)
    have name: "plain name" "map_of es name = Some n" "tree_ok n" using assms(6) that e by (auto simp: list_all_iff)
    show ?thesis
    proof (cases n)
      case (FFile ok i)
      then show ?thesis using list_entry_file [OF dp(2) assms(5) _ assms(6)] that e by (simp add: top_entry_def display)
    next
      case (FDir u fs')
      have at: "node_at (fs_root ?fs) (parts ?d @ ps @ [name]) = Some (FDir u fs')"
        using assms(5) name(2) FDir by (simp add: node_at_append [of _ "parts ?d @ ps" "[name]", simplified])
      have "listRecursive (tree_height (fs_root ?fs)) ?d ?fs (slashed (ps @ [name])) = Some (Inr (map (entry_of ?fs (ps @ [name])) fs'))"
        by (rule listRecursive_tree [OF assms(4) at]) (use assms(3) name(1,3) FDir tree_height_below [OF at] in simp_all)
      then show ?thesis using path_Join_relative [OF assms(3) name(1)] e FDir
        by (simp add: list_entry_def top_entry_def display)
    qed
  qed
  then have l: "list_entries ?sub ?display (CHR ''/'' # slashed (parts ?d @ ps)) (slashed ps) ?fs es
      = Some (map (top_entry (flq_recursive r) ?fs ps) es)" by (rule list_entries_all)
  note rd = ReadDir_plain [OF dp(2) assms(5)]
  show ?thesis
    unfolding fv_handleList_def assms(1) prod.case option.case Let_def assms(2) dp(1) rd sum.case l by simp
qed

text \<open>
  C24: A listing is the tree.  The response to a request for a directory below the data directory holds
  exactly its entries, in order, with their sizes, and if the request is recursive everything below them,
  as the recursion over the tree gives it; the height of the tree is fuel enough for the server's
  recursion over paths.
\<close>

theorem listing_is_tree:
  assumes "UnmarshalPayload file_list_request_fields (Some h) (Some no_file_list_request) = (Some r, None)"
    and "relative_path (flq_path r) = slashed ps" "\<forall>p \<in> set ps. plain p" "is_rooted (fv_dataDir s)"
    and "node_at (fs_root (fv_fs s)) (parts (fv_dataDir s) @ ps) = Some (FDir w es)" "tree_ok (FDir w es)"
  shows "fv_handleList h s = sendListSuccess (map (top_entry (flq_recursive r) (fv_fs s) ps) es) s"
  using assms by (rule handleList_tree)

definition file_list_handshake :: "bytes \<Rightarrow> bool \<Rightarrow> handshake" where
  "file_list_handshake p rec = \<lparr>h_type = HandshakeTypeFileList, h_payload = Some (file_list_request_to_json
     \<lparr>flq_path = p, flq_recursive = rec\<rparr>)\<rparr>"

definition file_get_handshake :: "bytes \<Rightarrow> handshake" where
  "file_get_handshake n = \<lparr>h_type = HandshakeTypeFileGet, h_payload = Some (file_get_request_to_json \<lparr>fgq_file_name = n\<rparr>)\<rparr>"

definition file_send_handshake :: "bytes \<Rightarrow> handshake" where
  "file_send_handshake n = \<lparr>h_type = HandshakeTypeFileSend, h_payload = Some (file_send_request_to_json \<lparr>fsq_file_name = n\<rparr>)\<rparr>"

lemma file_payloads:
  assumes "valid_utf8 n"
  shows "UnmarshalPayload file_list_request_fields (Some (file_list_handshake n rec)) (Some no_file_list_request)
      = (Some \<lparr>flq_path = n, flq_recursive = rec\<rparr>, None)"
    "UnmarshalPayload file_get_request_fields (Some (file_get_handshake n)) (Some no_file_get_request)
      = (Some \<lparr>fgq_file_name = n\<rparr>, None)"
    "UnmarshalPayload file_send_request_fields (Some (file_send_handshake n)) (Some no_file_send_request)
      = (Some \<lparr>fsq_file_name = n\<rparr>, None)"
  using file_list_request_msg.decode [of "\<lparr>flq_path = n, flq_recursive = rec\<rparr>"] file_get_request_msg.decode [of "\<lparr>fgq_file_name = n\<rparr>"]
    file_send_request_msg.decode [of "\<lparr>fsq_file_name = n\<rparr>"] assms
  by (simp_all add: file_list_handshake_def file_get_handshake_def file_send_handshake_def UnmarshalPayload_def
      file_list_request_ok_def file_get_request_ok_def file_send_request_ok_def)

theorem listing_is_tree_witness:
  "fv_handleList (file_list_handshake ''/'' True) ((sample_file_server [] [] [])\<lparr>fv_dataDir := ''/''\<rparr>)
    = sendListSuccess [FileEntry ''/'' ''data'' 0 True (Some []),
        FileEntry ''/'' ''etc'' 0 True (Some [FileEntry ''etc'' ''key'' 2 False None])]
        ((sample_file_server [] [] [])\<lparr>fv_dataDir := ''/''\<rparr>)"
proof -
  let ?s = "(sample_file_server [] [] [])\<lparr>fv_dataDir := ''/''\<rparr>"
  have u: "UnmarshalPayload file_list_request_fields (Some (file_list_handshake ''/'' True)) (Some no_file_list_request)
      = (Some \<lparr>flq_path = ''/'', flq_recursive = True\<rparr>, None)"
    by (rule file_payloads(1)) (simp add: valid_utf8_ascii)
  have root: "node_at (fs_root (fv_fs ?s)) (parts (fv_dataDir ?s) @ []) = Some (fs_root sample_fs)"
    by (simp add: parts_def sample_systems)
  have ok: "tree_ok (fs_root sample_fs)" by (simp add: sample_fs_def plain_def)
  obtain w es where fs: "fs_root sample_fs = FDir w es"
      "es = [(''data'', FDir True []), (''etc'', FDir True [(''key'', FFile True 0)])]"
    by (simp add: sample_fs_def)
  from listing_is_tree [OF u _ _ _ root [unfolded fs(1)] ok [unfolded fs(1)]] show ?thesis
    by (simp add: relative_path_def is_rooted_def fs(2) top_entry_def sample_systems) (simp add: sample_fs_def)
qed

section \<open>The reach of a request\<close>

lemma data_location:
  assumes "is_rooted d" "''..'' \<notin> set (split_on CHR ''/'' n)" "locate (path_Join [d, n]) fs = Inr l"
  shows "l = parts d @ named n"
proof -
  have "\<forall>p \<in> set (parts d @ named n). plain p" using parts_plain named_plain [OF assms(2)] by auto
  then show ?thesis using locate_plain(1) assms(3) unfolding path_Join_data [OF assms(1,2)] by blast
qed

text \<open>Making directories along \<open>qs\<close> leaves every location that is not on the way as it was.\<close>

lemma mkdir_frame:
  "\<forall>p \<in> set qs. plain p \<Longrightarrow> mkdir_walk cur qs root = (e, root') \<Longrightarrow> \<not> prefix l' (cur @ qs) \<Longrightarrow> node_at root' l' = node_at root l'"
proof (induction qs arbitrary: cur root)
  case (Cons q qs)
  have q: "q \<noteq> [] \<and> q \<noteq> ''.'' \<and> q \<noteq> ''..''" and qs: "\<forall>p \<in> set qs. plain p" using Cons.prems(1) by (auto simp: plain_def)
  have l': "\<not> prefix l' ((cur @ [q]) @ qs)" using Cons.prems(3) by simp
  show ?case
  proof (cases "node_at root (cur @ [q])")
    case None
    show ?thesis
    proof (cases "\<exists>es. node_at root cur = Some (FDir True es)")
      case True
      then obtain es where es: "node_at root cur = Some (FDir True es)" by blast
      let ?root = "set_node (cur @ [q]) (Some (FDir True [])) root"
      have set: "node_at ?root (cur @ [q]) = Some (FDir True [])"
        by (rule node_at_set) (rule parent_dirI [of _ _ True es], simp_all add: es)
      have "node_at ?root l' = node_at root l'"
      proof (cases "prefix (cur @ [q]) l'")
        case True
        then obtain rs where rs: "l' = (cur @ [q]) @ rs" by (auto simp: prefix_def)
        then obtain r r' where "rs = r # r'" using Cons.prems(3) by (cases rs) auto
        then show ?thesis using rs set None node_at_append [of _ "cur @ [q]" rs] by (simp del: append_assoc)
      next
        case False
        moreover have "\<not> prefix l' (cur @ [q])" using l' by (metis prefix_prefix)
        ultimately show ?thesis by (rule node_at_set_other)
      qed
      moreover have "mkdir_walk (cur @ [q]) qs ?root = (e, root')" using Cons.prems(2) q None es by simp
      ultimately show ?thesis using Cons.IH [OF qs _ l'] by simp
    next
      case False
      then show ?thesis using Cons.prems(2) q None by (auto split: option.splits fnode.splits bool.splits)
    qed
  next
    case (Some n)
    then show ?thesis using Cons.prems(2) q Cons.IH [OF qs _ l'] by (cases n) auto
  qed
qed simp

lemma write_test_frame:
  assumes "\<forall>p \<in> set ds. plain p" "\<not> prefix (ds @ [''.stellar_write_test'']) l'" "\<not> prefix l' (ds @ [''.stellar_write_test''])"
    and "write_test (CHR ''/'' # slashed ds) fs = (e, fs')"
  shows "node_at (fs_root fs') l' = node_at (fs_root fs) l'"
proof -
  let ?t = "''.stellar_write_test''"
  have q: "\<forall>p \<in> set (ds @ [?t]). plain p" using assms(1) by (auto simp: plain_def)
  have "named ?t = [?t]" "''..'' \<notin> set (split_on CHR ''/'' ?t)" by (simp_all add: named_def)
  then have j: "path_Join [CHR ''/'' # slashed ds, ?t] = CHR ''/'' # slashed (ds @ [?t])"
    using path_Join_data [of "CHR ''/'' # slashed ds" ?t] parts_plain_path [OF assms(1)] by (simp add: is_rooted_def)
  have loc: "locate (CHR ''/'' # slashed (ds @ [?t])) fs = Inr l \<Longrightarrow> l = ds @ [?t]" for fs l
    by (rule locate_plain(1) [OF q])
  have other: "node_at (set_node (ds @ [?t]) x n) l' = node_at n l'" for x n
    by (rule node_at_set_other [OF assms(2,3)])
  have create: "node_at (fs_root (snd (os_Create (CHR ''/'' # slashed (ds @ [?t])) fs))) l' = node_at (fs_root fs) l'" for fs
    using loc other by (auto simp: os_Create_def Let_def split: sum.split option.split fnode.split bool.split)
  have remove: "node_at (fs_root (snd (os_Remove (CHR ''/'' # slashed (ds @ [?t])) fs))) l' = node_at (fs_root fs) l'" for fs
    using loc other by (auto simp: os_Remove_def split: sum.split option.split fnode.split bool.split)
  show ?thesis using assms(4) create [of fs] remove
    by (auto simp: write_test_def j Let_def split: prod.splits sum.splits)
qed

lemma reply_keeps: "reply r s = (e, s') \<Longrightarrow> fv_fs s' = fv_fs s \<and> fv_receipts s' = fv_receipts s \<and> fv_transfers s' = fv_transfers s"
  using reply_same [of r s e s'] by auto

lemma NextStreamID_keeps:
  "NextStreamID s = (i, s') \<Longrightarrow> fv_fs s' = fv_fs s \<and> fv_receipts s' = fv_receipts s \<and> fv_transfers s' = fv_transfers s"
  by (auto simp: NextStreamID_def Let_def)

text \<open>Neither above nor below the data directory.\<close>

definition outside :: "bytes list \<Rightarrow> bytes list \<Rightarrow> bool" where
  "outside d l \<longleftrightarrow> \<not> prefix d l \<and> \<not> prefix l d"

definition reaches_below :: "bytes list \<Rightarrow> bytes \<Rightarrow> filesys \<Rightarrow> bool" where
  "reaches_below d p fs \<longleftrightarrow> (case locate p fs of Inl _ \<Rightarrow> True | Inr l \<Rightarrow> prefix d l)"

lemma outside_below: "outside d l \<Longrightarrow> \<not> prefix l (d @ xs) \<and> \<not> prefix (d @ xs) l"
  unfolding outside_def by (metis append_prefixD prefix_append prefix_order.trans prefixI prefix_same_cases)

lemma MkdirAll_frame:
  assumes "\<forall>p \<in> set ds. plain p" "os_MkdirAll (CHR ''/'' # slashed ds) fs = (e, fs')" "\<not> prefix l ds"
  shows "node_at (fs_root fs') l = node_at (fs_root fs) l"
proof -
  obtain e' root where w: "mkdir_walk [] (split_on CHR ''/'' (CHR ''/'' # slashed ds)) (fs_root fs) = (e', root)" "fs_root fs' = root"
    using assms(2) by (auto simp: os_MkdirAll_def start_dir_def is_rooted_def split: prod.splits)
  have "mkdir_walk [] ds (fs_root fs) = (e', root)" using w(1) split_slashed [OF assms(1)] by (cases "ds = []") auto
  then show ?thesis using mkdir_frame [OF assms(1), of "[]"] assms(3) w(2) by simp
qed

lemma handleSend_outcome:
  assumes "UnmarshalPayload file_send_request_fields (Some h) (Some no_file_send_request) = (Some r, None)"
    and "fv_handleSend h s = (e, s')" "p = path_Join [fv_dataDir s, fsq_file_name r]"
  shows "\<exists>e1 fs1. os_MkdirAll (path_Dir p) (fv_fs s) = (e1, fs1)
    \<and> (fv_fs s' = fs1 \<or> (\<exists>e2. write_test (path_Dir p) fs1 = (e2, fv_fs s')))
    \<and> (fv_receipts s' = fv_receipts s \<or> (\<exists>a. fv_receipts s' = fv_receipts s @ [\<lparr>rv_stream = a, rv_path = p, rv_phase = RvInfo []\<rparr>]))"
proof -
  obtain e1 fs1 where m: "os_MkdirAll (path_Dir p) (fv_fs s) = (e1, fs1)" by (cases "os_MkdirAll (path_Dir p) (fv_fs s)")
  obtain e2 fs2 where w: "write_test (path_Dir p) fs1 = (e2, fs2)" by (cases "write_test (path_Dir p) fs1")
  obtain i d where d: "NextStreamID (s\<lparr>fv_fs := fs2\<rparr>) = (i, d)" by (cases "NextStreamID (s\<lparr>fv_fs := fs2\<rparr>)")
  note dd = NextStreamID_keeps [OF d]
  show ?thesis
  proof (cases "e1 = None \<and> e2 = None")
    case False
    then show ?thesis using assms m w
      by (cases e1; cases e2) (auto simp: fv_handleSend_def sendSendError_def Let_def dest!: reply_keeps)
  next
    case True
    obtain x mx where o: "OpenStreamWithID i (ss_mux d) = (x, mx)" by (cases "OpenStreamWithID i (ss_mux d)")
    obtain e3 s3 where r3: "sendSendSuccess i (d\<lparr>ss_mux := mx\<rparr>) = (e3, s3)" by (cases "sendSendSuccess i (d\<lparr>ss_mux := mx\<rparr>)")
    then have k3: "fv_fs s3 = fs2" "fv_receipts s3 = fv_receipts s"
      using dd by (auto simp: sendSendSuccess_def dest!: reply_keeps)
    have "fv_fs s' = fs2 \<and> (fv_receipts s' = fv_receipts s \<or> (\<exists>a. fv_receipts s' = fv_receipts s @ [\<lparr>rv_stream = a, rv_path = p, rv_phase = RvInfo []\<rparr>]))"
    proof (cases x)
      case (Inl y)
      then have "sendSendError (''failed to open data stream: '' @ err_text y) (d\<lparr>ss_mux := mx\<rparr>) = (e, s')"
        using assms m w True d o by (simp add: fv_handleSend_def Let_def)
      then show ?thesis using dd by (auto simp: sendSendError_def dest!: reply_keeps)
    next
      case (Inr a)
      then show ?thesis using assms m w True d o r3 k3
        by (cases e3) (auto simp: fv_handleSend_def Let_def)
    qed
    then show ?thesis using m w by auto
  qed
qed

lemma handleGet_outcome:
  assumes "UnmarshalPayload file_get_request_fields (Some h) (Some no_file_get_request) = (Some r, None)"
    and "fv_handleGet h s = (e, s')" "p = path_Join [fv_dataDir s, fgq_file_name r]"
  shows "fv_fs s' = fv_fs s
    \<and> (fv_transfers s' = fv_transfers s \<or> (\<exists>a. fv_transfers s' = fv_transfers s @ [\<lparr>tf_stream = a, tf_path = p, tf_phase = TfOpen\<rparr>]))"
proof -
  obtain i d where d: "NextStreamID s = (i, d)" by (cases "NextStreamID s")
  note dd = NextStreamID_keeps [OF d]
  obtain x mx where o: "OpenStreamWithID i (ss_mux d) = (x, mx)" by (cases "OpenStreamWithID i (ss_mux d)")
  show ?thesis
    using assms d dd o
    by (auto simp: fv_handleGet_def sendGetError_def sendGetSuccess_def Let_def
        split: if_splits sum.splits prod.splits option.splits dest!: reply_keeps)
qed



section \<open>Accepted requests\<close>

lemma more_file_fields:
  "base_server.more s' = base_server.more s \<Longrightarrow>
    fv_dataDir s' = fv_dataDir s \<and> fv_fs s' = fv_fs s \<and> fv_transfers s' = fv_transfers s \<and> fv_receipts s' = fv_receipts s"
  by (cases s; cases s') simp

lemma got_json_small:
  assumes "length n \<le> 10000" "k < 2 ^ 63"
  shows "length (json_text (file_get_response_to_json \<lparr>fgr_success = True, fgr_stream_id = i,
    fgr_file_info = Some \<lparr>fi_filename = n, fi_size = int k, fi_checksum = checksum_of x\<rparr>, fgr_error = []\<rparr>)) \<le> 100000"
proof -
  have "length (show_nat k) \<le> 19" using length_show_nat [of 19 k] assms(2) by simp
  then have "length (show_int (int k)) \<le> 19" by (simp add: show_int_def)
  then show ?thesis
    using assms(1) length_json_quote [of n] length_json_quote [of "checksum_of x"] length_checksum_of [of x] length_show_u32 [of i]
    by (simp add: file_get_response_to_json_def file_info_to_json_def struct_simps(1-4) jnat_def jint_def)
      (simp add: json_quote_def json_esc.simps esc_ascii_def)
qed

lemma handleGet_ok:
  assumes "can_send s" "UnmarshalPayload file_get_request_fields (Some h) (Some no_file_get_request) = (Some r, None)"
    and "p = path_Join [fv_dataDir s, fgq_file_name r]" "locate p (fv_fs s) = Inr l"
    and "node_at (fs_root (fv_fs s)) l = Some (FFile True i)" "length (fs_data (fv_fs s) ! i) < 2 ^ 63"
    and "valid_utf8 (fgq_file_name r)" "length (fgq_file_name r) \<le> 10000"
    and "fst (NextStreamID s) = sid" "streams (ss_mux s) sid = None"
  shows "\<exists>s' pk. fv_handleGet h s = (None, s') \<and> packet_sent pk s s'
    \<and> answers file_get_response_fields no_file_get_response HandshakeTypeFileGetResponse
        \<lparr>fgr_success = True, fgr_stream_id = sid, fgr_file_info = Some \<lparr>fi_filename = fgq_file_name r,
           fi_size = int (length (fs_data (fv_fs s) ! i)), fi_checksum = checksum_of (fs_data (fv_fs s) ! i)\<rparr>, fgr_error = []\<rparr> pk
    \<and> GetStream sid (ss_mux s') = Inr (length (objs (ss_mux s)))
    \<and> fv_transfers s' = fv_transfers s @ [\<lparr>tf_stream = length (objs (ss_mux s)), tf_path = p, tf_phase = TfOpen\<rparr>]"
proof -
  let ?c = "fs_data (fv_fs s) ! i" and ?n = "fgq_file_name r"
  let ?info = "\<lparr>fi_filename = ?n, fi_size = int (length ?c), fi_checksum = checksum_of ?c\<rparr>"
  let ?resp = "\<lparr>fgr_success = True, fgr_stream_id = sid, fgr_file_info = Some ?info, fgr_error = []\<rparr>"
  obtain d where d: "NextStreamID s = (sid, d)" using assms(9) by (cases "NextStreamID s") auto
  have dd: "fv_transfers d = fv_transfers s" using NextStreamID_keeps [OF d] by simp
  obtain m where m: "OpenStreamWithID sid (ss_mux d) = (Inr (length (objs (ss_mux s))), m)"
      "GetStream sid m = Inr (length (objs (ss_mux s)))" "can_send (d\<lparr>ss_mux := m\<rparr>)"
      "\<forall>p (s' :: file_server). packet_sent p (d\<lparr>ss_mux := m\<rparr>) s' \<longrightarrow> packet_sent p s s'"
    using open_next_stream [OF assms(1) d assms(10)] by blast
  have ok: "file_get_response_ok ?resp"
    using assms(6,7) by (simp add: file_get_response_ok_def file_info_ok_def checksum_utf8 valid_utf8_ascii)
  have ty: "length HandshakeTypeFileGetResponse \<le> 100" by (simp add: HandshakeTypeFileGetResponse_def)
  obtain pk k where pk: "reply (NewFileGetResponsePacket True sid (Some ?info) []) (d\<lparr>ss_mux := m\<rparr>)
        = (None, d\<lparr>ss_mux := m\<lparr>m_conn := k\<rparr>\<rparr>)" "packet_sent pk (d\<lparr>ss_mux := m\<rparr>) (d\<lparr>ss_mux := m\<lparr>m_conn := k\<rparr>\<rparr>)"
      "answers file_get_response_fields no_file_get_response HandshakeTypeFileGetResponse ?resp pk"
    using file_got.reply_message [OF m(3) ok ty got_json_small [OF assms(8,6)]] by (auto simp: NewFileGetResponsePacket_def)
  let ?s = "d\<lparr>ss_mux := m\<lparr>m_conn := k\<rparr>, fv_transfers := fv_transfers s
      @ [\<lparr>tf_stream = length (objs (ss_mux s)), tf_path = p, tf_phase = TfOpen\<rparr>]\<rparr>"
  have "os_Stat p (fv_fs s) = Inr (FFile True i)" "calculateChecksum p (fv_fs s) = Inr (checksum_of ?c)"
    using assms(4,5) by (simp_all add: os_Stat_def calculateChecksum_def os_Open_def)
  then have "fv_handleGet h s = (None, ?s)"
    using assms(2,3) d m(1) pk(1) dd by (simp add: fv_handleGet_def sendGetSuccess_def size_of_def Let_def)
  moreover have "packet_sent pk s ?s"
    by (rule packet_sent_to [OF m(4) [THEN spec, THEN spec, THEN mp, OF pk(2)]]) simp_all
  ultimately show ?thesis using pk(3) m(2) by (intro exI [of _ ?s] exI [of _ pk]) (simp add: GetStream_def)
qed

text \<open>A server whose control stream is open, with the sample file system.\<close>

definition fresh_file_server :: file_server where
  "fresh_file_server = (sample_file_server [] [] [])\<lparr>ss_mux := \<lparr>m_conn = conn_of [], objs = [fresh_stream 0], streams = [0 \<mapsto> 0],
     nextID = 1, m_closed = False, readErr = None\<rparr>\<rparr>"

lemma fresh_file_server_facts:
  "can_send fresh_file_server" "fv_dataDir fresh_file_server = ''/data''" "fv_fs fresh_file_server = sample_fs"
  "fst (NextStreamID fresh_file_server) = 1" "streams (ss_mux fresh_file_server) 1 = None" "fv_transfers fresh_file_server = []"
  "objs (ss_mux fresh_file_server) = [fresh_stream 0]"
proof -
  show "can_send fresh_file_server"
    by (rule fresh_can_send(1) [of "conn_of []"])
      (simp_all add: fresh_session_def fresh_file_server_def sample_file_server_def conn_of_def writable_def)
qed (simp_all add: fresh_file_server_def sample_file_server_def NextStreamID_def)

text \<open>
  A download is offered as it is.  A request for a file the server can read is answered with one
  message that carries the size and the checksum of its contents and the number of a fresh stream; the
  stream is open and the transfer of this file on it has been started.
\<close>

theorem download_offered:
  assumes "can_send s" "UnmarshalPayload file_get_request_fields (Some h) (Some no_file_get_request) = (Some r, None)"
    and "p = path_Join [fv_dataDir s, fgq_file_name r]" "locate p (fv_fs s) = Inr l"
    and "node_at (fs_root (fv_fs s)) l = Some (FFile True i)" "length (fs_data (fv_fs s) ! i) < 2 ^ 63"
    and "valid_utf8 (fgq_file_name r)" "length (fgq_file_name r) \<le> 10000"
    and "fst (NextStreamID s) = sid" "streams (ss_mux s) sid = None"
  shows "\<exists>s' pk. fv_handleGet h s = (None, s') \<and> packet_sent pk s s'
    \<and> answers file_get_response_fields no_file_get_response HandshakeTypeFileGetResponse
        \<lparr>fgr_success = True, fgr_stream_id = sid, fgr_file_info = Some \<lparr>fi_filename = fgq_file_name r,
           fi_size = int (length (fs_data (fv_fs s) ! i)), fi_checksum = checksum_of (fs_data (fv_fs s) ! i)\<rparr>, fgr_error = []\<rparr> pk
    \<and> GetStream sid (ss_mux s') = Inr (length (objs (ss_mux s)))
    \<and> fv_transfers s' = fv_transfers s @ [\<lparr>tf_stream = length (objs (ss_mux s)), tf_path = p, tf_phase = TfOpen\<rparr>]"
  using assms by (rule handleGet_ok)

theorem download_offered_witness:
  "\<exists>s'. fv_handleGet (file_get_handshake ''key'') (fresh_file_server\<lparr>fv_dataDir := ''/etc''\<rparr>) = (None, s')
    \<and> fv_transfers s' = [\<lparr>tf_stream = 1, tf_path = ''/etc/key'', tf_phase = TfOpen\<rparr>]"
proof -
  let ?s = "fresh_file_server\<lparr>fv_dataDir := ''/etc''\<rparr>"
  have u: "UnmarshalPayload file_get_request_fields (Some (file_get_handshake ''key'')) (Some no_file_get_request)
      = (Some \<lparr>fgq_file_name = ''key''\<rparr>, None)" by (rule file_payloads(2)) (simp add: valid_utf8_ascii)
  have "can_send ?s" using fresh_file_server_facts(1) by (simp add: can_send_def)
  moreover have "''/etc/key'' = path_Join [fv_dataDir ?s, fgq_file_name \<lparr>fgq_file_name = ''key''\<rparr>]"
    by (simp add: path_Join_def path_Clean_def is_rooted_def Let_def)
  moreover have "fst (NextStreamID ?s) = 1" using fresh_file_server_facts(4) by (simp add: NextStreamID_def Let_def fresh_file_server_def sample_file_server_def)
  ultimately show ?thesis
    using download_offered [OF _ u, of ?s "''/etc/key''" "[''etc'', ''key'']" 0 1] sample_nodes fresh_file_server_facts(3,5-7)
    by (auto simp: valid_utf8_ascii)
qed

lemma path_Join_up:
  assumes "plain d" "\<forall>p \<in> set ps. plain p"
  shows "path_Join [CHR ''/'' # d, ''../'' @ slashed ps] = CHR ''/'' # slashed ps"
proof -
  have "split_on CHR ''/'' (''../'' @ slashed ps) = ''..'' # (if ps = [] then [[]] else ps)"
    using split_slashed [OF assms(2)] by simp
  moreover have "split_on CHR ''/'' (CHR ''/'' # d) = [[], d]" using assms(1) by (simp add: plain_def split_on_plain)
  ultimately have s: "split_on CHR ''/'' (join_with ''/'' [CHR ''/'' # d, ''../'' @ slashed ps])
      = [] # d # ''..'' # (if ps = [] then [[]] else ps)"
    unfolding split_on_join2 by simp
  have "clean_parts True [] ([] # d # ''..'' # (if ps = [] then [[]] else ps)) = ps"
    using assms clean_parts_plain [OF assms(2), of True "[]"] by (simp add: plain_def)
  moreover have "is_rooted (join_with ''/'' [CHR ''/'' # d, ''../'' @ slashed ps])" by (simp add: is_rooted_def)
  ultimately have "path_Clean (join_with ''/'' [CHR ''/'' # d, ''../'' @ slashed ps]) = CHR ''/'' # slashed ps"
    by (simp only: path_Clean_def s Let_def if_True)
  then show ?thesis by (simp add: path_Join_def)
qed

text \<open>
  A name that starts with \<open>../\<close> leaves the data directory.  Nothing in \<open>handleGet\<close> rejects it: every file
  the process can read, at whatever location \<open>ps\<close>, is offered and transferred to a client that asks a server
  whose data directory is \<open>/d\<close> for \<open>../\<close> and the path of the file.
\<close>

theorem dotdot_leaves_dataDir:
  assumes "can_send s" "fv_dataDir s = CHR ''/'' # d" "plain d" "\<forall>p \<in> set ps. plain p" "ps \<noteq> []"
    and "node_at (fs_root (fv_fs s)) ps = Some (FFile True i)" "length (fs_data (fv_fs s) ! i) < 2 ^ 63"
    and "valid_utf8 (slashed ps)" "length (slashed ps) \<le> 9000" "fst (NextStreamID s) = sid" "streams (ss_mux s) sid = None"
  shows "\<exists>s'. fv_handleGet (file_get_handshake (''../'' @ slashed ps)) s = (None, s')
    \<and> fv_transfers s' = fv_transfers s @ [\<lparr>tf_stream = length (objs (ss_mux s)), tf_path = CHR ''/'' # slashed ps, tf_phase = TfOpen\<rparr>]
    \<and> locate (CHR ''/'' # slashed ps) (fv_fs s) = Inr ps"
proof -
  let ?n = "''../'' @ slashed ps"
  have u: "valid_utf8 ?n" using assms(8) by (simp add: valid_utf8.simps(2) utf8_len_ascii)
  have l: "locate (CHR ''/'' # slashed ps) (fv_fs s) = Inr ps" using locate_plain(2) [OF assms(4,6)] assms(5) by simp
  have p: "CHR ''/'' # slashed ps = path_Join [fv_dataDir s, fgq_file_name \<lparr>fgq_file_name = ?n\<rparr>]"
    using path_Join_up [OF assms(3,4)] assms(2) by simp
  from handleGet_ok [OF assms(1) file_payloads(2) [OF u] p l assms(6,7) _ _ assms(10,11)] u assms(9) l show ?thesis by auto
qed

theorem dotdot_leaves_dataDir_witness:
  "\<exists>s'. fv_handleGet (file_get_handshake ''../etc/key'') fresh_file_server = (None, s')
    \<and> fv_transfers s' = [\<lparr>tf_stream = 1, tf_path = ''/etc/key'', tf_phase = TfOpen\<rparr>]"
  using dotdot_leaves_dataDir [OF fresh_file_server_facts(1,2), of "[''etc'', ''key'']" 0 1] fresh_file_server_facts(3-7) sample_nodes
  by (auto simp: plain_def valid_utf8_ascii)

end
