(* ===== verification/Exec_Env.thy ===== *)
theory Exec_Env
  imports Go_Strings
begin

text \<open>
  \<open>p2p/protocols/compute/service/env_helpers.go\<close> and the environment functions of \<open>executor.go\<close>.  An
  environment is a list of \<open>NAME=value\<close> entries.  The record \<open>host\<close> is what the functions ask the
  operating system for; on Windows its \<open>path/filepath\<close> functions are the host's own.  An operation that
  ranges over a Go map takes the entries in the order of the iteration.
\<close>

unbundle bit_operations_syntax

record host =
  h_windows :: bool
  h_Executable :: "bytes result"
  h_EvalSymlinks :: "bytes \<Rightarrow> bytes result"
  h_Stat :: "bytes \<Rightarrow> (bool \<times> nat) option"
  h_LookPath :: "bytes \<Rightarrow> bytes option"
  h_Environ :: "bytes list"
  h_Dir :: "bytes \<Rightarrow> bytes"
  h_Join :: "bytes \<Rightarrow> bytes \<Rightarrow> bytes"
  h_IsAbs :: "bytes \<Rightarrow> bool"
  h_Separator :: char

text \<open>\<open>h_Stat\<close> answers with whether the path is a directory and with its permission bits.  A Unix host:\<close>

definition unix_paths :: "host \<Rightarrow> bool" where
  "unix_paths h \<longleftrightarrow> \<not> h_windows h \<and> h_Dir h = path_Dir \<and> h_Join h = (\<lambda>d c. path_Join [d, c])
     \<and> h_IsAbs h = is_rooted \<and> h_Separator h = CHR ''/''"

section \<open>The search path\<close>

definition pathVarName :: "host \<Rightarrow> bytes" where
  "pathVarName h = (if h_windows h then ''Path'' else ''PATH'')"

definition pathSeparator :: "host \<Rightarrow> char" where
  "pathSeparator h = (if h_windows h then CHR '';'' else CHR '':'')"

definition entry :: "bytes \<Rightarrow> bytes \<Rightarrow> bytes" where
  "entry k v = k @ ''='' @ v"

fun getPathFromEnv :: "host \<Rightarrow> bytes list \<Rightarrow> bytes" where
  "getPathFromEnv h [] = []"
| "getPathFromEnv h (e # env) =
     (if prefix (pathVarName h @ ''='') e then trim_prefix (pathVarName h @ ''='') e
      else if prefix ''PATH='' e then trim_prefix ''PATH='' e
      else getPathFromEnv h env)"

definition removeEnvVar :: "bytes list \<Rightarrow> bytes \<Rightarrow> bytes list" where
  "removeEnvVar env key = filter (\<lambda>e. \<not> prefix (key @ ''='') e) env"

definition setPathInEnv :: "host \<Rightarrow> bytes list \<Rightarrow> bytes \<Rightarrow> bytes list" where
  "setPathInEnv h env pathValue =
     removeEnvVar (removeEnvVar env ''PATH'') ''Path'' @ [pathVarName h @ ''='' @ pathValue]"

definition mergePaths :: "host \<Rightarrow> bytes list \<Rightarrow> bytes \<Rightarrow> bytes" where
  "mergePaths h dirs existingPath =
     (if dirs = [] then existingPath
      else join_with [pathSeparator h] (dirs @ (if existingPath \<noteq> [] then [existingPath] else [])))"

definition executable_file :: "host \<Rightarrow> bytes \<Rightarrow> bool" where
  "executable_file h f = (case h_Stat h f of
      None \<Rightarrow> False
    | Some (isDir, mode) \<Rightarrow> \<not> isDir \<and> (h_windows h \<or> take_bit 9 mode AND 73 \<noteq> 0))"

fun find_in_dirs :: "host \<Rightarrow> bytes \<Rightarrow> bytes list \<Rightarrow> bytes" where
  "find_in_dirs h command [] = []"
| "find_in_dirs h command (d # ds) =
     (let dir = TrimSpace d in
      if dir = [] then find_in_dirs h command ds
      else (let candidate = h_Join h dir (if h_windows h then command @ ''.exe'' else command) in
        if executable_file h candidate then candidate else find_in_dirs h command ds))"

definition findExecutableInPath :: "host \<Rightarrow> bytes \<Rightarrow> bytes \<Rightarrow> bytes" where
  "findExecutableInPath h command pathValue =
     (if pathValue = [] then [] else find_in_dirs h command (split_on (pathSeparator h) pathValue))"

definition resolveExecutablePath :: "host \<Rightarrow> bytes \<Rightarrow> bytes list \<Rightarrow> bytes" where
  "resolveExecutablePath h command env =
     (if h_IsAbs h command \<or> h_Separator h \<in> set command then command
      else (let found = findExecutableInPath h command (getPathFromEnv h env) in
        if found \<noteq> [] then found
        else (case h_LookPath h command of Some f \<Rightarrow> f | None \<Rightarrow> command)))"

section \<open>The environment of a command\<close>

definition GetStellarExecutableDir :: "host \<Rightarrow> bytes" where
  "GetStellarExecutableDir h = (case h_Executable h of
      Inl _ \<Rightarrow> []
    | Inr execPath \<Rightarrow>
        (let execDir = (case h_EvalSymlinks h execPath of
              Inr resolvedPath \<Rightarrow> h_Dir h resolvedPath
            | Inl _ \<Rightarrow> h_Dir h execPath)
         in if h_Stat h execDir = None then [] else execDir))"

text \<open>An absent key reads as the empty string.\<close>

definition get_or_empty :: "(bytes \<rightharpoonup> bytes) \<Rightarrow> bytes \<Rightarrow> bytes" where
  "get_or_empty m k = (case m k of None \<Rightarrow> [] | Some v \<Rightarrow> v)"

definition PrepareExecutionEnvironment :: "host \<Rightarrow> (bytes \<rightharpoonup> bytes) \<Rightarrow> bytes \<rightharpoonup> bytes" where
  "PrepareExecutionEnvironment h env =
     (let d = GetStellarExecutableDir h in
      if d = [] then env
      else (let p = get_or_empty env ''PATH'';
                existingPath = (if p = [] then get_or_empty env (pathVarName h) else p);
                newPath = mergePaths h [d] existingPath
            in env(''PATH'' \<mapsto> newPath, pathVarName h \<mapsto> newPath)))"

definition apply_entry :: "host \<Rightarrow> bytes \<times> bytes \<Rightarrow> bytes list \<Rightarrow> bytes list" where
  "apply_entry h kv env = (case kv of (k, v) \<Rightarrow>
     if k = ''PATH'' \<or> k = pathVarName h
     then setPathInEnv h env (mergePaths h [v] (getPathFromEnv h env))
     else removeEnvVar env k @ [entry k v])"

definition applyUserEnvironment :: "host \<Rightarrow> bytes list \<Rightarrow> (bytes \<times> bytes) list \<Rightarrow> bytes list" where
  "applyUserEnvironment h baseEnv userEnv =
     (if userEnv = [] then baseEnv else fold (apply_entry h) userEnv baseEnv)"

section \<open>What a process sees\<close>

text \<open>
  \<open>os/exec\<close> drops all but the last entry of a name.  The reference \<open>user_value\<close> is the environment as
  a map: the user's value, the search path merged with the system's, else the inherited value.
\<close>

definition env_get :: "bytes list \<Rightarrow> bytes \<Rightarrow> bytes option" where
  "env_get env k = map_option (trim_prefix (k @ ''='')) (find (prefix (k @ ''='')) (rev env))"

definition name_ok :: "bytes \<Rightarrow> bool" where
  "name_ok k \<longleftrightarrow> CHR ''='' \<notin> set k"

definition user_value :: "host \<Rightarrow> bytes list \<Rightarrow> (bytes \<rightharpoonup> bytes) \<Rightarrow> bytes \<Rightarrow> bytes option" where
  "user_value h env m k =
     (if k = ''PATH'' then (case m k of None \<Rightarrow> env_get env k | Some v \<Rightarrow> Some (mergePaths h [v] (getPathFromEnv h env)))
      else if k = ''Path'' \<and> m ''PATH'' \<noteq> None then None
      else (case m k of None \<Rightarrow> env_get env k | Some v \<Rightarrow> Some v))"

lemma name_prefix:
  assumes "name_ok k" "name_ok k'"
  shows "prefix (k @ ''='') (k' @ ''='' @ v) \<longleftrightarrow> k = k'"
proof
  show "k = k'" if "prefix (k @ ''='') (k' @ ''='' @ v)"
    using that assms
  proof (induction k arbitrary: k')
    case Nil
    then show ?case by (cases k') (auto simp: name_ok_def)
  next
    case (Cons c k)
    then show ?case by (cases k') (auto simp: name_ok_def)
  qed
qed auto

lemma env_get_append: "env_get (env @ [e]) k = (if prefix (k @ ''='') e then Some (trim_prefix (k @ ''='') e) else env_get env k)"
  by (simp add: env_get_def)

lemma prefix_names: "name_ok k \<Longrightarrow> name_ok k' \<Longrightarrow> prefix (k @ ''='') e \<Longrightarrow> prefix (k' @ ''='') e \<longleftrightarrow> k' = k"
  using name_prefix by (auto simp: prefix_def)

lemma find_filter: "(\<And>e. P e \<Longrightarrow> Q e) \<Longrightarrow> find P (filter Q xs) = find P xs"
  by (induction xs) auto

lemma env_get_remove:
  assumes "name_ok k" "name_ok k'"
  shows "env_get (removeEnvVar env k) k' = (if k' = k then None else env_get env k')"
proof (cases "k' = k")
  case True
  then show ?thesis by (auto simp: env_get_def removeEnvVar_def find_None_iff)
next
  case False
  then have "\<And>e. prefix (k' @ ''='') e \<Longrightarrow> \<not> prefix (k @ ''='') e"
    using prefix_names [OF assms] by blast
  note f = find_filter [OF this]
  show ?thesis using False by (simp add: env_get_def removeEnvVar_def rev_filter f)
qed

lemma trim_entry [simp]: "trim_prefix (k @ ''='') (k @ CHR ''='' # v) = v"
  by (simp add: trim_prefix_def)

lemma env_get_entry:
  assumes "name_ok k" "name_ok k'"
  shows "env_get (env @ [entry k v]) k' = (if k' = k then Some v else env_get env k')"
  using name_prefix [of k' k v] assms by (auto simp: env_get_append entry_def)

lemma path_names [simp]: "name_ok ''PATH''" "name_ok ''Path''"
  by (simp_all add: name_ok_def)

text \<open>On Unix the search path is the first entry of its name; other names do not touch it.\<close>

lemma getPath_find:
  "\<not> h_windows h \<Longrightarrow> getPathFromEnv h env = (case find (prefix ''PATH='') env of None \<Rightarrow> [] | Some e \<Rightarrow> trim_prefix ''PATH='' e)"
  by (induction env) (auto simp: pathVarName_def)

lemma getPath_remove:
  assumes "\<not> h_windows h" "name_ok k" "k \<noteq> ''PATH''"
  shows "getPathFromEnv h (removeEnvVar env k) = getPathFromEnv h env"
  using assms prefix_names [of "''PATH''" k]
  by (induction env) (auto simp: pathVarName_def removeEnvVar_def)

lemma getPath_entry:
  assumes "\<not> h_windows h" "name_ok k" "k \<noteq> ''PATH''"
  shows "getPathFromEnv h (env @ [entry k v]) = getPathFromEnv h env"
  using assms(1) name_prefix [of "''PATH''" k v] assms(2,3)
  by (induction env) (auto simp: pathVarName_def entry_def)

lemma getPath_set: "\<not> h_windows h \<Longrightarrow> getPathFromEnv h (setPathInEnv h env p) = p"
proof -
  assume h: "\<not> h_windows h"
  have "getPathFromEnv h (env @ [''PATH'' @ ''='' @ p]) = p" if "\<forall>e \<in> set env. \<not> prefix ''PATH='' e" for env
    using that h by (induction env) (auto simp: pathVarName_def trim_prefix_def)
  then show ?thesis using h by (simp add: setPathInEnv_def removeEnvVar_def pathVarName_def)
qed

lemma env_get_setPath:
  assumes "\<not> h_windows h" "name_ok k"
  shows "env_get (setPathInEnv h env p) k = (if k = ''PATH'' then Some p else if k = ''Path'' then None else env_get env k)"
  using env_get_entry [of "''PATH''" k "removeEnvVar (removeEnvVar env ''PATH'') ''Path''" p] assms
  by (simp add: setPathInEnv_def pathVarName_def entry_def env_get_remove)

text \<open>One entry of the user's map, on the reference.\<close>

lemma user_value_step:
  assumes "\<not> h_windows h" "name_ok k0" "k0 \<noteq> ''Path''" "m k0 = None" "m ''Path'' = None" "name_ok k"
  shows "user_value h (apply_entry h (k0, v0) env) m k = user_value h env (m(k0 \<mapsto> v0)) k"
proof (cases "k0 = ''PATH''")
  case True
  then show ?thesis using assms(1,4-6)
    by (auto simp: user_value_def apply_entry_def env_get_setPath getPath_set split: option.split)
next
  case False
  then have e: "apply_entry h (k0, v0) env = removeEnvVar env k0 @ [entry k0 v0]"
    using assms(1) by (simp add: apply_entry_def pathVarName_def)
  show ?thesis using False assms
    by (auto simp: user_value_def e env_get_entry env_get_remove getPath_entry getPath_remove split: option.split)
qed

lemma applyUserEnvironment_value:
  assumes "\<not> h_windows h" "distinct (map fst us)" "\<forall>k \<in> fst ` set us. name_ok k \<and> k \<noteq> ''Path''" "name_ok k"
  shows "env_get (applyUserEnvironment h env us) k = user_value h env (map_of us) k"
proof -
  have "env_get (fold (apply_entry h) us env) k = user_value h env (map_of us) k"
    using assms(2,3)
  proof (induction us arbitrary: env)
    case Nil
    then show ?case by (simp add: user_value_def)
  next
    case (Cons kv us)
    obtain k0 v0 where kv: "kv = (k0, v0)" by (cases kv)
    have m: "map_of us k0 = None" "map_of us ''Path'' = None"
      using Cons.prems kv by (auto simp: map_of_eq_None_iff)
    have "map_of (kv # us) = (map_of us)(k0 \<mapsto> v0)" using kv by simp
    then show ?case using Cons user_value_step [OF assms(1) _ _ m assms(4)] kv by (simp add: fun_upd_def)
  qed
  then show ?thesis by (auto simp: applyUserEnvironment_def user_value_def)
qed

section \<open>Properties\<close>

text \<open>A Unix host whose only executable besides its own is in the directory of the running program.\<close>

definition sample_host :: host where
  "sample_host = \<lparr>h_windows = False, h_Executable = Inr ''/opt/stellar'', h_EvalSymlinks = (\<lambda>_. Inl (Err ''no link'')),
     h_Stat = (\<lambda>p. if p = ''/opt'' then Some (True, 493) else if p = ''/opt/stellar'' then Some (False, 493) else None),
     h_LookPath = (\<lambda>_. None), h_Environ = [''HOME=/root'', ''PATH=/bin''], h_Dir = path_Dir,
     h_Join = (\<lambda>d c. path_Join [d, c]), h_IsAbs = is_rooted, h_Separator = CHR ''/''\<rparr>"



lemma Path_order:
  "env_get (applyUserEnvironment sample_host [] [(''PATH'', ''/a''), (''Path'', ''/b'')]) ''Path'' = Some ''/b''"
  "env_get (applyUserEnvironment sample_host [] [(''Path'', ''/b''), (''PATH'', ''/a'')]) ''Path'' = None"
  by (simp_all add: sample_host_def applyUserEnvironment_def apply_entry_def setPathInEnv_def pathVarName_def
      removeEnvVar_def mergePaths_def entry_def env_get_def trim_prefix_def)

lemma getPath_applied:
  assumes "\<not> h_windows h" "distinct (map fst us)" "\<forall>k \<in> fst ` set us. name_ok k"
  shows "getPathFromEnv h (applyUserEnvironment h env us)
    = (case map_of us ''PATH'' of None \<Rightarrow> getPathFromEnv h env | Some v \<Rightarrow> mergePaths h [v] (getPathFromEnv h env))"
proof -
  have "getPathFromEnv h (fold (apply_entry h) us env)
      = (case map_of us ''PATH'' of None \<Rightarrow> getPathFromEnv h env | Some v \<Rightarrow> mergePaths h [v] (getPathFromEnv h env))"
    using assms(2,3)
  proof (induction us arbitrary: env)
    case (Cons kv us)
    obtain k v where kv: "kv = (k, v)" by (cases kv)
    have m: "map_of us k = None" using Cons.prems(1) kv by (simp add: map_of_eq_None_iff)
    have g: "getPathFromEnv h (apply_entry h kv env) = (if k = ''PATH'' then mergePaths h [v] (getPathFromEnv h env)
        else getPathFromEnv h env)"
      using Cons.prems(2) kv assms(1) by (simp add: apply_entry_def getPath_set getPath_entry getPath_remove pathVarName_def)
    show ?case using Cons m g kv by (simp split: option.split)
  qed simp
  then show ?thesis by (auto simp: applyUserEnvironment_def split: option.split)
qed

lemma mergePaths_front:
  assumes "pathSeparator h \<notin> set d"
  shows "\<exists>ds. split_on (pathSeparator h) (mergePaths h [mergePaths h [d] p] q) = d # ds"
proof -
  have m: "mergePaths h [d] p = d \<or> mergePaths h [d] p = d @ [pathSeparator h] @ p" for d p
    by (simp add: mergePaths_def)
  have "\<exists>r. mergePaths h [mergePaths h [d] p] q = d \<or> mergePaths h [mergePaths h [d] p] q = d @ pathSeparator h # r"
    using m [of d p] m [of "mergePaths h [d] p" q] by auto
  then show ?thesis using split_on_append [of "pathSeparator h" d] assms by (auto simp: split_on_plain)
qed

text \<open>
  A command without a slash is looked up first in the directory of the running program, whatever
  search path the user and the system have: a run of \<open>stellar\<close> finds the server's own executable.
\<close>

theorem own_directory_first:
  assumes "unix_paths h" "GetStellarExecutableDir h = d" "d \<noteq> []" "CHR '':'' \<notin> set d" "TrimSpace d = d"
    and "executable_file h (path_Join [d, c])" "CHR ''/'' \<notin> set c"
    and "map_of us = PrepareExecutionEnvironment h m" "distinct (map fst us)" "\<forall>k \<in> fst ` set us. name_ok k"
  shows "resolveExecutablePath h c (applyUserEnvironment h env us) = path_Join [d, c]"
proof -
  have u: "\<not> h_windows h" using assms(1) by (simp add: unix_paths_def)
  obtain p where p: "map_of us ''PATH'' = Some (mergePaths h [d] p)"
    using assms(2,3) u by (simp add: assms(8) PrepareExecutionEnvironment_def pathVarName_def Let_def)
  obtain ds where ds: "split_on (pathSeparator h) (getPathFromEnv h (applyUserEnvironment h env us)) = d # ds"
    using mergePaths_front [of h d p] assms(4) u by (auto simp: getPath_applied [OF u assms(9,10)] p pathSeparator_def)
  have "h_Join h d c = path_Join [d, c]" using assms(1) by (simp add: unix_paths_def)
  then have "find_in_dirs h c (d # ds) = path_Join [d, c]" using assms(3,5,6) u by (simp add: Let_def)
  moreover have "getPathFromEnv h (applyUserEnvironment h env us) \<noteq> []"
    using ds assms(3) by (cases "getPathFromEnv h (applyUserEnvironment h env us)") auto
  moreover have "path_Join [d, c] \<noteq> []" using assms(3) by (simp add: path_Join_def)
  moreover have "\<not> (h_IsAbs h c \<or> h_Separator h \<in> set c)" using assms(1,7) by (auto simp: unix_paths_def is_rooted_def prefix_def)
  ultimately show ?thesis using ds by (simp add: resolveExecutablePath_def findExecutableInPath_def Let_def)
qed

theorem own_directory_first_witness:
  "resolveExecutablePath sample_host ''stellar'' (applyUserEnvironment sample_host (h_Environ sample_host) [(''PATH'', ''/opt'')])
    = ''/opt/stellar''"
proof -
  have d: "GetStellarExecutableDir sample_host = ''/opt''"
    by (simp add: GetStellarExecutableDir_def sample_host_def path_Dir_def path_Clean_def is_rooted_def Let_def)
  have t: "TrimSpace ''/opt'' = ''/opt''"
    by (simp add: TrimSpace_def space_runes_def drop_runes.simps)
  have "resolveExecutablePath sample_host ''stellar'' (applyUserEnvironment sample_host (h_Environ sample_host) [(''PATH'', ''/opt'')])
    = path_Join [''/opt'', ''stellar'']"
  proof (rule own_directory_first [where d = "''/opt''" and m = Map.empty])
    show "map_of [(''PATH'', ''/opt'')] = PrepareExecutionEnvironment sample_host Map.empty"
      using d by (simp add: PrepareExecutionEnvironment_def get_or_empty_def mergePaths_def pathVarName_def sample_host_def Let_def)
    show "executable_file sample_host (path_Join [''/opt'', ''stellar''])"
      by (simp add: executable_file_def sample_host_def path_Join_def path_Clean_def is_rooted_def Let_def)
  qed (simp_all add: d t, simp_all add: unix_paths_def sample_host_def name_ok_def fun_eq_iff)
  then show ?thesis by (simp add: path_Join_def path_Clean_def is_rooted_def Let_def)
qed

end
