(* ===== verification/Executions.thy ===== *)
theory Executions
  imports Exec_Env Go_Copy
begin

text \<open>
  The command executions of \<open>p2p/protocols/compute/service\<close>: \<open>types.go\<close>, \<open>ExecuteRaw\<close> of \<open>executor.go\<close>,
  \<open>conda_operations.go\<close> and \<open>conda_handler_wrapper.go\<close>.  An execution holds the pipes of its process, its
  two channels and what its goroutines still have to do.  The process belongs to the operating system: it
  fills the pipes and ends with an outcome of its own.
\<close>

section \<open>Channels\<close>

text \<open>A buffered channel; a receive takes the oldest value, reports the close, or waits.\<close>

record 'a chan =
  ch_buf :: "'a list"
  ch_closed :: bool

datatype 'a recv = Got 'a | RecvClosed | RecvWait

definition new_chan :: "'a chan" where
  "new_chan = \<lparr>ch_buf = [], ch_closed = False\<rparr>"

definition ch_recv :: "'a chan \<Rightarrow> 'a recv \<times> 'a chan" where
  "ch_recv c = (case ch_buf c of
      x # xs \<Rightarrow> (Got x, c\<lparr>ch_buf := xs\<rparr>)
    | [] \<Rightarrow> (if ch_closed c then RecvClosed else RecvWait, c))"

definition ch_put :: "'a \<Rightarrow> 'a chan \<Rightarrow> 'a chan" where
  "ch_put x c = c\<lparr>ch_buf := ch_buf c @ [x]\<rparr>"

definition ch_close :: "'a chan \<Rightarrow> 'a chan" where
  "ch_close c = c\<lparr>ch_closed := True\<rparr>"

section \<open>Executions\<close>

record raw_execution_request =
  er_Command :: bytes
  er_Args :: "bytes list"
  er_Env :: "bytes \<rightharpoonup> bytes"
  er_WorkingDir :: bytes
  er_Stdin :: "addr option"

text \<open>
  \<open>ex_feed\<close> is the stream the standard input is copied from, \<open>ex_waiting\<close> says that the goroutine which
  waits for the process has not finished, \<open>ex_cancelled\<close> that \<open>Cancel\<close> or the context was cancelled.
  \<open>ex_full\<close> says that the value has the methods of a \<open>CommandExecution\<close>, not only those of a reader.
\<close>

record raw_execution =
  ex_RunID :: bytes
  ex_Stdin :: conn
  ex_Stdout :: conn
  ex_Stderr :: conn
  ex_Done :: "goerr option chan"
  ex_ExitCode :: "int chan"
  ex_cancelled :: bool
  ex_feed :: "addr option"
  ex_waiting :: bool
  ex_full :: bool

text \<open>How \<open>cmd.Wait\<close> ends: success, an exit error with its code (\<open>-1\<close> after a signal), another error.\<close>

datatype wait_result = WaitOk | WaitExit int goerr | WaitErr goerr

definition pipe :: conn where
  "pipe = \<lparr>inbox = [], fin = None, sent = [], wplan = [], shut = False\<rparr>"

section \<open>Starting a process\<close>

text \<open>
  \<open>os/exec\<close>: opening the standard input and \<open>cmd.Start()\<close> of a path with its arguments, environment and
  working directory; both may fail.
\<close>

record launcher =
  la_StdinPipe :: "goerr option"
  la_Start :: "bytes \<Rightarrow> bytes list \<Rightarrow> bytes list \<Rightarrow> bytes \<Rightarrow> goerr option"

text \<open>
  \<open>kvs\<close> are the entries of the requested environment in the order the code visits the map, \<open>uuid\<close> is the
  generated run identifier.
\<close>

definition ExecuteRaw :: "host \<Rightarrow> launcher \<Rightarrow> (bytes \<times> bytes) list \<Rightarrow> bytes \<Rightarrow> raw_execution_request
    \<Rightarrow> raw_execution result" where
  "ExecuteRaw h la kvs uuid req =
     (if er_Command req = [] then Inl (Err ''command is required'')
      else
        (let env = applyUserEnvironment h (h_Environ h) kvs;
             commandPath = resolveExecutablePath h (er_Command req) env
         in (case la_StdinPipe la of
               Some e \<Rightarrow> Inl (Wrap ''failed to create stdin pipe'' e)
             | None \<Rightarrow> (case la_Start la commandPath (er_Args req) env (er_WorkingDir req) of
                  Some e \<Rightarrow> Inl (Wrap ''failed to start command'' e)
                | None \<Rightarrow> Inr \<lparr>ex_RunID = uuid,
                    ex_Stdin = (if er_Stdin req = None then pipe\<lparr>shut := True\<rparr> else pipe),
                    ex_Stdout = pipe, ex_Stderr = pipe, ex_Done = new_chan, ex_ExitCode = new_chan,
                    ex_cancelled = False, ex_feed = er_Stdin req, ex_waiting = True, ex_full = True\<rparr>))))"

section \<open>Its goroutines\<close>

text \<open>
  The process writes to a pipe; \<open>io.Pipe\<close> hands the data over without storing it, so \<open>cmd.Wait\<close>, which
  waits for the copies of the output, does not return before the pipes are read.
\<close>

definition process_writes :: "bytes \<Rightarrow> bytes \<Rightarrow> raw_execution \<Rightarrow> raw_execution" where
  "process_writes out err x = (if ex_waiting x \<and> fin (ex_Stdout x) = None
     then x\<lparr>ex_Stdout := (ex_Stdout x)\<lparr>inbox := inbox (ex_Stdout x) @ (if out = [] then [] else [out])\<rparr>,
            ex_Stderr := (ex_Stderr x)\<lparr>inbox := inbox (ex_Stderr x) @ (if err = [] then [] else [err])\<rparr>\<rparr>
     else x)"

definition drained :: "raw_execution \<Rightarrow> bool" where
  "drained x \<longleftrightarrow> inbox (ex_Stdout x) = [] \<and> inbox (ex_Stderr x) = []"

text \<open>Closing the write end of a pipe.\<close>

definition end_pipe :: "conn \<Rightarrow> conn" where
  "end_pipe c = c\<lparr>fin := Some EOF\<rparr>"

definition exit_code :: "wait_result \<Rightarrow> int" where
  "exit_code w = (case w of WaitOk \<Rightarrow> 0 | WaitExit c _ \<Rightarrow> c | WaitErr _ \<Rightarrow> -1)"

definition wait_error :: "wait_result \<Rightarrow> goerr option" where
  "wait_error w = (case w of WaitOk \<Rightarrow> None | WaitExit _ e \<Rightarrow> Some e | WaitErr e \<Rightarrow> Some e)"

text \<open>The goroutine that waits for the process, which ends with \<open>w\<close>.\<close>

definition wait_step :: "wait_result \<Rightarrow> raw_execution \<Rightarrow> raw_execution" where
  "wait_step w x =
     (if ex_waiting x \<and> drained x
      then x\<lparr>ex_Stdout := end_pipe (ex_Stdout x), ex_Stderr := end_pipe (ex_Stderr x),
             ex_ExitCode := ch_close (ch_put (exit_code w) (ex_ExitCode x)),
             ex_Done := ch_close (ch_put (wait_error w) (ex_Done x)), ex_waiting := False\<rparr>
      else x)"

text \<open>A round of \<open>io.Copy(stdinPipe, req.Stdin)\<close> and the close after it.\<close>

definition feed_round :: "raw_execution \<Rightarrow> mux \<Rightarrow> raw_execution \<times> mux" where
  "feed_round x m = (case ex_feed x of
      None \<Rightarrow> (x, m)
    | Some a \<Rightarrow> (case copy_round (stream_Read a) conn_write (m, ex_Stdin x) of
        (r, m', c) \<Rightarrow> (case r of
            CopyEnd _ \<Rightarrow> (x\<lparr>ex_Stdin := snd (conn_close c), ex_feed := None\<rparr>, m')
          | _ \<Rightarrow> (x\<lparr>ex_Stdin := c\<rparr>, m'))))"

text \<open>
  Two ways to cancel: the context of the command, which kills the process, and the function \<open>Cancel\<close>, which
  also ends the pipes at once; what was not read from them is lost.
\<close>

definition cancel_context :: "raw_execution \<Rightarrow> raw_execution" where
  "cancel_context x = x\<lparr>ex_cancelled := True\<rparr>"

definition ex_Cancel :: "raw_execution \<Rightarrow> raw_execution" where
  "ex_Cancel x = (if ex_waiting x
     then x\<lparr>ex_cancelled := True, ex_Stdout := (end_pipe (ex_Stdout x))\<lparr>inbox := []\<rparr>,
            ex_Stderr := (end_pipe (ex_Stderr x))\<lparr>inbox := []\<rparr>\<rparr>
     else x\<lparr>ex_cancelled := True\<rparr>)"

section \<open>Conda subcommands\<close>

text \<open>\<open>CondaOperations\<close>: implemented in another package, its operations are the fields of a record.\<close>

record conda_operations =
  co_ListEnvironments :: "raw_execution result"
  co_GetEnvironment :: "bytes \<Rightarrow> bytes result"
  co_CreateEnvironment :: "bytes \<Rightarrow> bytes \<Rightarrow> raw_execution result"
  co_RemoveEnvironment :: "bytes \<Rightarrow> raw_execution result"
  co_UpdateEnvironment :: "bytes \<Rightarrow> bytes \<Rightarrow> raw_execution result"
  co_InstallPackage :: "bytes \<Rightarrow> bytes \<Rightarrow> raw_execution result"
  co_CommandPath :: "bytes result"
  co_GetCondaVersion :: "raw_execution result"
  co_Install :: "bytes \<Rightarrow> raw_execution result"
  co_RunPython :: "bytes \<Rightarrow> bytes \<Rightarrow> addr option \<Rightarrow> raw_execution result"
  co_RunScript :: "bytes \<Rightarrow> bytes \<Rightarrow> bytes list \<Rightarrow> addr option \<Rightarrow> raw_execution result"
  co_RunConda :: "bytes list \<Rightarrow> addr option \<Rightarrow> raw_execution result"

text \<open>What a registered creator returns: a handler, operations to wrap, or a value of another type.\<close>

datatype conda_created =
    CondaHandler "bytes \<Rightarrow> bytes list \<Rightarrow> addr option \<Rightarrow> raw_execution result"
  | CondaOps conda_operations
  | CondaOther

text \<open>An execution that is over from the start and outputs a line; its channels stay open.\<close>

definition createStringOutputExecution :: "bytes \<Rightarrow> raw_execution" where
  "createStringOutputExecution output = \<lparr>ex_RunID = [], ex_Stdin = pipe,
     ex_Stdout = conn_of [output @ [CHR 0x0A]], ex_Stderr = conn_of [],
     ex_Done = ch_put None new_chan, ex_ExitCode = ch_put 0 new_chan,
     ex_cancelled = False, ex_feed = None, ex_waiting = False, ex_full = False\<rparr>"

text \<open>The value after the first \<open>--python\<close>.\<close>

fun python_flag :: "bytes \<Rightarrow> bytes list \<Rightarrow> bytes" where
  "python_flag d (a # b # r) = (if a = ''--python'' then b else python_flag d (b # r))"
| "python_flag d _ = d"

definition HandleSubcommand :: "conda_operations \<Rightarrow> bytes \<Rightarrow> bytes list \<Rightarrow> addr option \<Rightarrow> raw_execution result" where
  "HandleSubcommand ops subcommand args stdin =
     (if subcommand = ''list'' then co_ListEnvironments ops
      else if subcommand = ''get'' then
        (if length args < 1 then Inl (Err ''environment name required'')
         else (case co_GetEnvironment ops (args ! 0) of
             Inl e \<Rightarrow> Inl e
           | Inr path \<Rightarrow> Inr (createStringOutputExecution path)))
      else if subcommand = ''create'' then
        (if length args < 1 then Inl (Err ''environment name required'')
         else co_CreateEnvironment ops (args ! 0) (python_flag ''3.9'' args))
      else if subcommand = ''remove'' then
        (if length args < 1 then Inl (Err ''environment name required'')
         else co_RemoveEnvironment ops (args ! 0))
      else if subcommand = ''update'' then
        (if length args < 2 then Inl (Err ''environment name and YAML file required'')
         else co_UpdateEnvironment ops (args ! 0) (args ! 1))
      else if subcommand = ''install'' then
        (if length args < 2 then Inl (Err ''environment name and package name required'')
         else co_InstallPackage ops (args ! 0) (args ! 1))
      else if subcommand = ''path'' then
        (case co_CommandPath ops of
           Inl e \<Rightarrow> Inl e
         | Inr path \<Rightarrow> Inr (createStringOutputExecution path))
      else if subcommand = ''version'' then co_GetCondaVersion ops
      else if subcommand = ''install-conda'' then
        co_Install ops (if length args > 0 then args ! 0 else ''py313'')
      else if subcommand = ''run-python'' then
        (if length args < 2 then Inl (Err ''environment name and code required'')
         else co_RunPython ops (args ! 0) (args ! 1) stdin)
      else if subcommand = ''run-script'' then
        (if length args < 2 then Inl (Err ''environment name and script path required'')
         else co_RunScript ops (args ! 0) (args ! 1) (drop 2 args) stdin)
      else if subcommand = ''run'' then
        (if args = [] then Inl (Err ''conda command requires at least one argument'')
         else co_RunConda ops args stdin)
      else Inl (Err (''unknown conda subcommand: '' @ subcommand)))"

end
