(* ===== verification/Compute_Server.thy ===== *)
theory Compute_Server
  imports Executions Service_Replies
begin

text \<open>
  \<open>p2p/protocols/compute/service/server.go\<close>.  The server extends \<open>base_server\<close> with the map of its runs,
  the \<open>RunInfo\<close> objects it points to, the executions, and the goroutines a run starts: two that forward
  the output, one that closes the log after them, one that waits for the end of the execution, and for a
  conda operation the one that carries it out.  Each goroutine is an object that advances in steps; the
  clock is an argument, a time is its text in the RFC 3339 layout and \<open>[]\<close> the zero time.
\<close>

section \<open>State\<close>

datatype run_status = RunStatusRunning | RunStatusCompleted | RunStatusCanceled | RunStatusFailed

fun status_text :: "run_status \<Rightarrow> bytes" where
  "status_text RunStatusRunning = ''running''"
| "status_text RunStatusCompleted = ''completed''"
| "status_text RunStatusCanceled = ''canceled''"
| "status_text RunStatusFailed = ''failed''"

text \<open>The \<open>CancelFunc\<close> of a run: the context of its command or the execution's own \<open>Cancel\<close>.\<close>

datatype cancel_func = CancelContext nat | CancelExecution nat

record run_info =
  ri_RunID :: bytes
  ri_Status :: run_status
  ri_StartTime :: bytes
  ri_EndTime :: "bytes option"
  ri_ExitCode :: "int option"
  ri_Execution :: "nat option"
  ri_CancelFunc :: "cancel_func option"

record output_forward =
  of_exec :: nat
  of_stderr :: bool
  of_stream :: addr
  of_log :: addr
  of_run :: bytes
  of_done :: bool

record log_closer =
  lc_first :: nat
  lc_log :: addr
  lc_done :: bool

datatype mo_phase = MoDone | MoExit | MoUpdate "int option" | MoOver

record monitor =
  mo_run :: bytes
  mo_exec :: nat
  mo_phase :: mo_phase

text \<open>\<open>CoDone x f\<close>: execution \<open>x\<close>, whose forwarders are \<open>f\<close> and the next.\<close>

datatype co_phase = CoStart | CoDone nat nat | CoExit nat nat "goerr option" | CoWait nat "goerr option" int | CoOver

record conda_run =
  cr_run :: bytes
  cr_info :: nat
  cr_handler :: "bytes \<Rightarrow> bytes list \<Rightarrow> addr option \<Rightarrow> raw_execution result"
  cr_subcommand :: bytes
  cr_args :: "bytes list"
  cr_ids :: "u32 list"
  cr_streams :: "addr list"
  cr_phase :: co_phase

record compute_server = base_server +
  cs_runs :: "bytes \<rightharpoonup> nat"
  cs_infos :: "run_info list"
  cs_execs :: "raw_execution list"
  cs_forwards :: "output_forward list"
  cs_closers :: "log_closer list"
  cs_monitors :: "monitor list"
  cs_condas :: "conda_run list"

definition cs_NewServer :: "conn option \<Rightarrow> compute_server option" where
  "cs_NewServer c = (case c of
      None \<Rightarrow> None
    | Some _ \<Rightarrow> (case NewBaseServer c of
          None \<Rightarrow> None
        | Some b \<Rightarrow> Some (base_server.extend b \<lparr>cs_runs = Map.empty, cs_infos = [], cs_execs = [],
            cs_forwards = [], cs_closers = [], cs_monitors = [], cs_condas = []\<rparr>)))"

definition upd_info :: "nat \<Rightarrow> (run_info \<Rightarrow> run_info) \<Rightarrow> compute_server \<Rightarrow> compute_server" where
  "upd_info i f s = (if i < length (cs_infos s) then s\<lparr>cs_infos := (cs_infos s)[i := f (cs_infos s ! i)]\<rparr> else s)"

definition upd_exec :: "nat \<Rightarrow> (raw_execution \<Rightarrow> raw_execution) \<Rightarrow> compute_server \<Rightarrow> compute_server" where
  "upd_exec e f s = (if e < length (cs_execs s) then s\<lparr>cs_execs := (cs_execs s)[e := f (cs_execs s ! e)]\<rparr> else s)"

definition run_cancel :: "cancel_func \<Rightarrow> compute_server \<Rightarrow> compute_server" where
  "run_cancel f s = (case f of CancelContext e \<Rightarrow> upd_exec e cancel_context s | CancelExecution e \<Rightarrow> upd_exec e ex_Cancel s)"

section \<open>Responses\<close>

definition sendRunSuccess :: "bytes \<Rightarrow> u32 list \<Rightarrow> compute_server \<Rightarrow> goerr option \<times> compute_server" where
  "sendRunSuccess runID ids s =
     reply (NewComputeRunResponsePacket runID True (ids ! 0) (ids ! 1) (ids ! 2) (ids ! 3) []) s"

definition sendRunError :: "bytes \<Rightarrow> bytes \<Rightarrow> compute_server \<Rightarrow> goerr option \<times> compute_server" where
  "sendRunError runID errMsg s = reply (NewComputeRunResponsePacket runID False 0 0 0 0 errMsg) s"

definition sendCancelSuccess :: "bytes \<Rightarrow> compute_server \<Rightarrow> goerr option \<times> compute_server" where
  "sendCancelSuccess runID s = reply (NewComputeCancelResponsePacket runID True []) s"

definition sendCancelError :: "bytes \<Rightarrow> bytes \<Rightarrow> compute_server \<Rightarrow> goerr option \<times> compute_server" where
  "sendCancelError runID errMsg s = reply (NewComputeCancelResponsePacket runID False errMsg) s"

definition sendStatusSuccess :: "bytes \<Rightarrow> run_status \<Rightarrow> int option \<Rightarrow> bytes \<Rightarrow> bytes option \<Rightarrow> compute_server
    \<Rightarrow> goerr option \<times> compute_server" where
  "sendStatusSuccess runID status exitCode startTime endTime s =
     reply (NewComputeStatusResponsePacket \<lparr>csr_run_id = runID, csr_status = status_text status,
       csr_exit_code = exitCode, csr_start_time = startTime,
       csr_end_time = (case endTime of None \<Rightarrow> [] | Some t \<Rightarrow> t), csr_error = []\<rparr>) s"

definition sendStatusError :: "bytes \<Rightarrow> bytes \<Rightarrow> compute_server \<Rightarrow> goerr option \<times> compute_server" where
  "sendStatusError runID errMsg s =
     reply (NewComputeStatusResponsePacket \<lparr>csr_run_id = runID, csr_status = [], csr_exit_code = None,
       csr_start_time = [], csr_end_time = [], csr_error = errMsg\<rparr>) s"

text \<open>The status event of a run, best effort.\<close>

definition emit_status :: "bytes \<Rightarrow> nat \<Rightarrow> compute_server \<Rightarrow> compute_server" where
  "emit_status runID i s = (let r = cs_infos s ! i in
     snd (sendStatusSuccess runID (ri_Status r) (ri_ExitCode r) (ri_StartTime r) (ri_EndTime r) s))"

section \<open>Runs\<close>

definition cleanupRun :: "bytes \<Rightarrow> compute_server \<Rightarrow> compute_server" where
  "cleanupRun runID s = s\<lparr>cs_runs := (cs_runs s)(runID := None)\<rparr>"

definition close_streams :: "u32 list \<Rightarrow> mux \<Rightarrow> mux" where
  "close_streams ids m = fold (\<lambda>i m. snd (CloseStream i m)) ids m"

text \<open>Open the streams of a run in order; a failure closes the ones opened before.\<close>

fun open_streams :: "(bytes \<times> u32) list \<Rightarrow> u32 list \<Rightarrow> addr list \<Rightarrow> mux \<Rightarrow> (bytes + addr list) \<times> mux" where
  "open_streams [] opened as m = (Inr as, m)"
| "open_streams ((name, i) # r) opened as m = (case OpenStreamWithID i m of
      (Inl e, m) \<Rightarrow> (Inl (''failed to open '' @ name @ '' stream: '' @ err_text e), close_streams opened m)
    | (Inr a, m) \<Rightarrow> open_streams r (opened @ [i]) (as @ [a]) m)"

definition run_streams :: "bytes list" where
  "run_streams = [''stdin'', ''stdout'', ''stderr'', ''log'']"

fun next_ids :: "nat \<Rightarrow> compute_server \<Rightarrow> u32 list \<times> compute_server" where
  "next_ids 0 s = ([], s)"
| "next_ids (Suc n) s = (case NextStreamID s of (i, s) \<Rightarrow> (case next_ids n s of (is, s) \<Rightarrow> (i # is, s)))"

definition forward_of :: "nat \<Rightarrow> bool \<Rightarrow> addr list \<Rightarrow> bytes \<Rightarrow> output_forward" where
  "forward_of e err as runID = \<lparr>of_exec = e, of_stderr = err, of_stream = as ! (if err then 2 else 1), of_log = as ! 3,
     of_run = runID, of_done = False\<rparr>"

text \<open>Execute the command, register the run, start its goroutines, answer.\<close>

definition start_run :: "host \<Rightarrow> (raw_execution_request \<Rightarrow> raw_execution result) \<Rightarrow> bytes \<Rightarrow> compute_run_request
    \<Rightarrow> u32 list \<Rightarrow> addr list \<Rightarrow> compute_server \<Rightarrow> goerr option \<times> compute_server" where
  "start_run h exec now req ids as s =
     (let env = PrepareExecutionEnvironment h (map_of (case crq_env req of None \<Rightarrow> [] | Some kvs \<Rightarrow> kvs));
          runID = crq_run_id req
      in (case exec \<lparr>er_Command = crq_command req, er_Args = (case crq_args req of None \<Rightarrow> [] | Some l \<Rightarrow> l), er_Env = env,
             er_WorkingDir = crq_working_dir req, er_Stdin = Some (as ! 0)\<rparr> of
            Inl e \<Rightarrow> sendRunError runID (''failed to execute command: '' @ err_text e)
                      (s\<lparr>ss_mux := close_streams ids (ss_mux s)\<rparr>)
          | Inr x \<Rightarrow>
              (let e = length (cs_execs s); f = length (cs_forwards s);
                   s = s\<lparr>cs_execs := cs_execs s @ [x\<lparr>ex_RunID := runID\<rparr>],
                     cs_infos := cs_infos s @ [\<lparr>ri_RunID = runID, ri_Status = RunStatusRunning, ri_StartTime = now,
                       ri_EndTime = None, ri_ExitCode = None, ri_Execution = Some e, ri_CancelFunc = Some (CancelContext e)\<rparr>],
                     cs_runs := (cs_runs s)(runID \<mapsto> length (cs_infos s)),
                     cs_forwards := cs_forwards s @ [forward_of e False as runID, forward_of e True as runID],
                     cs_closers := cs_closers s @ [\<lparr>lc_first = f, lc_log = as ! 3, lc_done = False\<rparr>],
                     cs_monitors := cs_monitors s @ [\<lparr>mo_run = runID, mo_exec = e, mo_phase = MoDone\<rparr>]\<rparr>
               in (case sendRunSuccess runID ids s of
                     (Some e, s) \<Rightarrow> (Some e, cleanupRun runID s)
                   | (None, s) \<Rightarrow> (None, s)))))"

definition closeStreamsAndSendError :: "bytes \<Rightarrow> u32 list \<Rightarrow> bytes \<Rightarrow> compute_server \<Rightarrow> goerr option \<times> compute_server" where
  "closeStreamsAndSendError runID ids errMsg s = sendRunError runID errMsg (s\<lparr>ss_mux := close_streams ids (ss_mux s)\<rparr>)"

text \<open>The creator registered by the conda package, if any; its argument is the path of conda.\<close>

type_synonym conda_creator = "(bytes \<Rightarrow> conda_created result) option"

text \<open>The value itself when it handles subcommands, else a wrapper around the operations.\<close>

definition conda_handler :: "conda_created \<Rightarrow> (bytes \<Rightarrow> bytes list \<Rightarrow> addr option \<Rightarrow> raw_execution result) option" where
  "conda_handler created = (case created of
      CondaHandler h \<Rightarrow> Some h
    | CondaOps ops \<Rightarrow> Some (HandleSubcommand ops)
    | CondaOther \<Rightarrow> None)"

definition handleCondaOperation :: "conda_creator \<Rightarrow> bytes \<Rightarrow> compute_run_request \<Rightarrow> u32 list \<Rightarrow> addr list
    \<Rightarrow> compute_server \<Rightarrow> goerr option \<times> compute_server" where
  "handleCondaOperation creator now req ids as s =
     (let runID = crq_run_id req in
      (case crq_args req of
         None \<Rightarrow> closeStreamsAndSendError runID ids ''__conda requires a subcommand'' s
       | Some [] \<Rightarrow> closeStreamsAndSendError runID ids ''__conda requires a subcommand'' s
       | Some (subcommand # args) \<Rightarrow> (case creator of
            None \<Rightarrow> closeStreamsAndSendError runID ids ''conda operations not available: conda package not imported'' s
          | Some mk \<Rightarrow> (case mk [] of
               Inl e \<Rightarrow> closeStreamsAndSendError runID ids (''failed to initialize conda operations: '' @ err_text e) s
             | Inr created \<Rightarrow> (case conda_handler created of
               None \<Rightarrow> closeStreamsAndSendError runID ids ''invalid conda operations type'' s
             | Some handler \<Rightarrow>
                 (let i = length (cs_infos s);
                      s = s\<lparr>cs_infos := cs_infos s @ [\<lparr>ri_RunID = runID, ri_Status = RunStatusRunning, ri_StartTime = now,
                             ri_EndTime = None, ri_ExitCode = None, ri_Execution = None, ri_CancelFunc = None\<rparr>],
                            cs_runs := (cs_runs s)(runID \<mapsto> i),
                            cs_condas := cs_condas s @ [\<lparr>cr_run = runID, cr_info = i, cr_handler = handler,
                             cr_subcommand = subcommand, cr_args = args, cr_ids = ids, cr_streams = as, cr_phase = CoStart\<rparr>]\<rparr>
                  in sendRunSuccess runID ids s))))))"

section \<open>Handlers\<close>

definition handleRun :: "host \<Rightarrow> (raw_execution_request \<Rightarrow> raw_execution result) \<Rightarrow> conda_creator \<Rightarrow> bytes
    \<Rightarrow> handshake \<Rightarrow> compute_server \<Rightarrow> goerr option \<times> compute_server" where
  "handleRun h exec creator now p s =
     (case UnmarshalPayload compute_run_request_fields (Some p) (Some no_compute_run_request) of
       (r, err) \<Rightarrow>
        (let req = (case r of None \<Rightarrow> no_compute_run_request | Some r \<Rightarrow> r); runID = crq_run_id req in
         (case err of Some e \<Rightarrow> sendRunError runID (''invalid request: '' @ err_text e) s | None \<Rightarrow>
          if runID = [] then sendRunError [] ''run_id is required'' s
          else if crq_command req = [] then sendRunError runID ''command is required'' s
          else if cs_runs s runID \<noteq> None then sendRunError runID ''run_id already exists'' s
          else (case next_ids 4 s of (ids, s) \<Rightarrow>
            (case open_streams (zip run_streams ids) [] [] (ss_mux s) of
               (Inl msg, m) \<Rightarrow> sendRunError runID msg (s\<lparr>ss_mux := m\<rparr>)
             | (Inr as, m) \<Rightarrow>
                (let s = s\<lparr>ss_mux := m\<rparr> in
                 if crq_command req = ''__conda'' then handleCondaOperation creator now req ids as s
                 else start_run h exec now req ids as s))))))"

text \<open>
  \<open>between\<close> is what the other goroutines do after the status was found to be running and before it is set:
  the lock of the run is given up there.
\<close>

definition handleCancel :: "(compute_server \<Rightarrow> compute_server) \<Rightarrow> bytes \<Rightarrow> handshake \<Rightarrow> compute_server
    \<Rightarrow> goerr option \<times> compute_server" where
  "handleCancel between now p s =
     (case UnmarshalPayload compute_cancel_request_fields (Some p) (Some no_compute_cancel_request) of
       (r, err) \<Rightarrow>
        (let runID = (case r of None \<Rightarrow> [] | Some r \<Rightarrow> ccq_run_id r) in
         (case err of Some e \<Rightarrow> sendCancelError runID (''invalid request: '' @ err_text e) s | None \<Rightarrow>
          if runID = [] then sendCancelError [] ''run_id is required'' s
          else (case cs_runs s runID of
              None \<Rightarrow> sendCancelError runID ''run_id not found'' s
            | Some i \<Rightarrow>
                (let status = ri_Status (cs_infos s ! i) in
                 if status \<noteq> RunStatusRunning
                 then sendCancelError runID (''run is not running (status: '' @ status_text status @ '')'') s
                 else
                   (let s = (case ri_CancelFunc (cs_infos s ! i) of None \<Rightarrow> s | Some f \<Rightarrow> run_cancel f s);
                        s = between s;
                        s = upd_info i (\<lambda>r. r\<lparr>ri_Status := RunStatusCanceled, ri_EndTime := Some now\<rparr>) s;
                        r = cs_infos s ! i;
                        s = snd (sendStatusSuccess runID RunStatusCanceled (ri_ExitCode r) (ri_StartTime r) (ri_EndTime r) s)
                    in sendCancelSuccess runID s))))))"

definition handleStatus :: "handshake \<Rightarrow> compute_server \<Rightarrow> goerr option \<times> compute_server" where
  "handleStatus p s =
     (case UnmarshalPayload compute_status_request_fields (Some p) (Some no_compute_status_request) of
       (r, err) \<Rightarrow>
        (let runID = (case r of None \<Rightarrow> [] | Some r \<Rightarrow> csq_run_id r) in
         (case err of Some e \<Rightarrow> sendStatusError runID (''invalid request: '' @ err_text e) s | None \<Rightarrow>
          if runID = [] then sendStatusError [] ''run_id is required'' s
          else (case cs_runs s runID of
              None \<Rightarrow> sendStatusError runID ''run_id not found'' s
            | Some i \<Rightarrow> (let r = cs_infos s ! i in
                sendStatusSuccess runID (ri_Status r) (ri_ExitCode r) (ri_StartTime r) (ri_EndTime r) s)))))"

text \<open>The packet dispatcher; \<open>d\<close> says whether it has its server.\<close>

definition cs_Dispatch :: "host \<Rightarrow> (raw_execution_request \<Rightarrow> raw_execution result) \<Rightarrow> conda_creator
    \<Rightarrow> (compute_server \<Rightarrow> compute_server) \<Rightarrow> bytes \<Rightarrow> handshake \<Rightarrow> compute_server \<Rightarrow> goerr option \<times> compute_server" where
  "cs_Dispatch h exec creator between now p s =
     (if h_type p = HandshakeTypeComputeRun then handleRun h exec creator now p s
      else if h_type p = HandshakeTypeComputeCancel then handleCancel between now p s
      else if h_type p = HandshakeTypeComputeStatus then handleStatus p s
      else (Some (Err (''unknown type: '' @ h_type p)), s))"

definition cs_Accept :: "bool \<Rightarrow> compute_server option \<Rightarrow> unit rres \<times> compute_server option" where
  "cs_Accept timeout s = Accept timeout (Some computeHandshakeHandler) s"

definition cs_Serve :: "nat \<Rightarrow> bool \<Rightarrow> host \<Rightarrow> (raw_execution_request \<Rightarrow> raw_execution result) \<Rightarrow> conda_creator
    \<Rightarrow> (compute_server \<Rightarrow> compute_server) \<Rightarrow> bytes \<Rightarrow> compute_server \<Rightarrow> unit rres \<times> compute_server" where
  "cs_Serve k cancelled h exec creator between now s =
     Serve k cancelled (Some (cs_Dispatch h exec creator between now)) s"

text \<open>The loop body of \<open>Close\<close>, which visits the runs in the order \<open>ks\<close>.\<close>

definition close_run :: "bytes \<Rightarrow> bytes \<Rightarrow> compute_server \<Rightarrow> compute_server" where
  "close_run now k s = (case cs_runs s k of
      None \<Rightarrow> s
    | Some i \<Rightarrow>
        if ri_Status (cs_infos s ! i) = RunStatusRunning
        then (let s = upd_info i (\<lambda>r. r\<lparr>ri_Status := RunStatusCanceled, ri_EndTime := Some now\<rparr>) s;
                  s = (case ri_CancelFunc (cs_infos s ! i) of None \<Rightarrow> s | Some f \<Rightarrow> run_cancel f s)
              in emit_status (ri_RunID (cs_infos s ! i)) i s)
        else s)"

definition cs_Close :: "bytes \<Rightarrow> bytes list \<Rightarrow> addr list \<Rightarrow> compute_server option
    \<Rightarrow> goerr option \<times> compute_server option" where
  "cs_Close now ks as s = (case s of
      None \<Rightarrow> (None, None)
    | Some s \<Rightarrow> bs_Close as (Some (fold (close_run now) ks s)))"

section \<open>The goroutines of a run\<close>

text \<open>A log entry is a line of JSON; \<open>json.Marshal\<close> sorts the keys of a map.\<close>

definition log_line :: "bytes \<Rightarrow> bytes \<Rightarrow> bytes \<Rightarrow> bytes \<Rightarrow> bytes" where
  "log_line now runID logType d =
     json_text (JObj [(''data'', JStr d), (''run_id'', JStr runID), (''time'', JStr now), (''type'', JStr logType)]) @ [CHR 0x0A]"

definition writeLogEntry :: "bytes \<Rightarrow> addr \<Rightarrow> bytes \<Rightarrow> bytes \<Rightarrow> bytes \<Rightarrow> mux \<Rightarrow> mux" where
  "writeLogEntry now logStream runID logType d m = snd (stream_Write logStream (log_line now runID logType d) m)"

definition outputBuf :: nat where "outputBuf = 4096"

text \<open>Whether a forwarder goes on.\<close>

definition forward_round :: "bytes \<Rightarrow> bytes \<Rightarrow> output_forward \<Rightarrow> conn \<times> mux \<Rightarrow> bool \<times> conn \<times> mux" where
  "forward_round now name fo cm = (case conn_read outputBuf (fst cm) of
      (RdBlock, _) \<Rightarrow> (True, cm)
    | (RdData b, c) \<Rightarrow>
        if b = [] then (True, c, snd cm)
        else (case stream_Write (of_stream fo) b (snd cm) of
            ((_, Some _), m) \<Rightarrow> (False, c, m)
          | ((_, None), m) \<Rightarrow> (True, c, writeLogEntry now (of_log fo) (of_run fo) name b m))
    | (RdErr e, c) \<Rightarrow> (False, c, if e = EOF then snd cm
        else writeLogEntry now (of_log fo) (of_run fo) ''error'' (name @ '' read error: '' @ err_text e) (snd cm)))"

definition forwardStdout :: "bytes \<Rightarrow> output_forward \<Rightarrow> raw_execution \<Rightarrow> mux \<Rightarrow> bool \<times> raw_execution \<times> mux" where
  "forwardStdout now fo x m = (case forward_round now ''stdout'' fo (ex_Stdout x, m) of
      (go, c, m) \<Rightarrow> (go, x\<lparr>ex_Stdout := c\<rparr>, m))"

definition forwardStderr :: "bytes \<Rightarrow> output_forward \<Rightarrow> raw_execution \<Rightarrow> mux \<Rightarrow> bool \<times> raw_execution \<times> mux" where
  "forwardStderr now fo x m = (case forward_round now ''stderr'' fo (ex_Stderr x, m) of
      (go, c, m) \<Rightarrow> (go, x\<lparr>ex_Stderr := c\<rparr>, m))"

text \<open>A round of forwarder \<open>f\<close>; when it returns, its stream is closed.\<close>

definition forward_step :: "bytes \<Rightarrow> nat \<Rightarrow> compute_server \<Rightarrow> compute_server" where
  "forward_step now f s = (let fo = cs_forwards s ! f; x = cs_execs s ! of_exec fo in
     if of_done fo then s
     else (case (if of_stderr fo then forwardStderr else forwardStdout) now fo x (ss_mux s) of
        (go, x, m) \<Rightarrow>
          (let s = upd_exec (of_exec fo) (\<lambda>_. x) (s\<lparr>ss_mux := m\<rparr>) in
           if go then s
           else s\<lparr>ss_mux := snd (stream_Close (of_stream fo) (ss_mux s)),
                  cs_forwards := (cs_forwards s)[f := fo\<lparr>of_done := True\<rparr>]\<rparr>)))"

text \<open>\<open>ioWg.Wait()\<close>, then the log is closed.\<close>

definition both_done :: "nat \<Rightarrow> compute_server \<Rightarrow> bool" where
  "both_done f s \<longleftrightarrow> of_done (cs_forwards s ! f) \<and> of_done (cs_forwards s ! Suc f)"

definition closer_step :: "nat \<Rightarrow> compute_server \<Rightarrow> compute_server" where
  "closer_step k s = (let lc = cs_closers s ! k in
     if \<not> lc_done lc \<and> both_done (lc_first lc) s
     then s\<lparr>ss_mux := snd (stream_Close (lc_log lc) (ss_mux s)), cs_closers := (cs_closers s)[k := lc\<lparr>lc_done := True\<rparr>]\<rparr>
     else s)"

text \<open>The update at the end of a monitored run.\<close>

definition monitor_update :: "bytes \<Rightarrow> bytes \<Rightarrow> int option \<Rightarrow> compute_server \<Rightarrow> compute_server" where
  "monitor_update now runID exitCode s = (case cs_runs s runID of
      None \<Rightarrow> s
    | Some i \<Rightarrow>
        (let s = (if ri_Status (cs_infos s ! i) = RunStatusRunning
                  then upd_info i (\<lambda>r. r\<lparr>ri_Status := (case exitCode of
                           Some c \<Rightarrow> if c \<le> 0 then RunStatusCompleted else RunStatusFailed
                         | None \<Rightarrow> RunStatusFailed),
                         ri_EndTime := Some now, ri_ExitCode := exitCode\<rparr>) s
                  else s)
         in emit_status runID i s))"

definition set_monitor :: "nat \<Rightarrow> mo_phase \<Rightarrow> compute_server \<Rightarrow> compute_server" where
  "set_monitor k ph s = s\<lparr>cs_monitors := (cs_monitors s)[k := (cs_monitors s ! k)\<lparr>mo_phase := ph\<rparr>]\<rparr>"

definition recv_done :: "nat \<Rightarrow> compute_server \<Rightarrow> goerr option recv \<times> compute_server" where
  "recv_done e s = (case ch_recv (ex_Done (cs_execs s ! e)) of (r, c) \<Rightarrow> (r, upd_exec e (\<lambda>x. x\<lparr>ex_Done := c\<rparr>) s))"

definition recv_exit :: "nat \<Rightarrow> compute_server \<Rightarrow> int recv \<times> compute_server" where
  "recv_exit e s = (case ch_recv (ex_ExitCode (cs_execs s ! e)) of (r, c) \<Rightarrow> (r, upd_exec e (\<lambda>x. x\<lparr>ex_ExitCode := c\<rparr>) s))"

definition monitorExecution :: "bytes \<Rightarrow> nat \<Rightarrow> compute_server \<Rightarrow> compute_server" where
  "monitorExecution now k s = (let mo = cs_monitors s ! k in
     (case mo_phase mo of
        MoDone \<Rightarrow> (case recv_done (mo_exec mo) s of
            (RecvWait, _) \<Rightarrow> s
          | (_, s) \<Rightarrow> set_monitor k MoExit s)
      | MoExit \<Rightarrow> (case recv_exit (mo_exec mo) s of
            (RecvWait, _) \<Rightarrow> s
          | (RecvClosed, s) \<Rightarrow> set_monitor k (MoUpdate None) s
          | (Got c, s) \<Rightarrow> set_monitor k (MoUpdate (Some c)) s)
      | MoUpdate exitCode \<Rightarrow> set_monitor k MoOver (monitor_update now (mo_run mo) exitCode s)
      | MoOver \<Rightarrow> s))"

section \<open>The goroutine of a conda operation\<close>

definition set_conda :: "nat \<Rightarrow> co_phase \<Rightarrow> compute_server \<Rightarrow> compute_server" where
  "set_conda k ph s = s\<lparr>cs_condas := (cs_condas s)[k := (cs_condas s ! k)\<lparr>cr_phase := ph\<rparr>]\<rparr>"

text \<open>A value with the methods of a \<open>CommandExecution\<close> is also monitored and can be cancelled.\<close>

definition bridgeCondaExecution :: "conda_run \<Rightarrow> raw_execution \<Rightarrow> compute_server \<Rightarrow> compute_server" where
  "bridgeCondaExecution cr x s =
     (let e = length (cs_execs s);
          s = s\<lparr>cs_execs := cs_execs s @ [if ex_full x then x\<lparr>ex_RunID := cr_run cr\<rparr> else x]\<rparr>;
          s = (if ex_full x
               then (let s = upd_info (cr_info cr) (\<lambda>r. r\<lparr>ri_Execution := Some e, ri_CancelFunc := Some (CancelExecution e)\<rparr>) s
                     in s\<lparr>cs_monitors := cs_monitors s @ [\<lparr>mo_run = cr_run cr, mo_exec = e, mo_phase = MoDone\<rparr>]\<rparr>)
               else s)
      in s\<lparr>cs_forwards := cs_forwards s @ [forward_of e False (cr_streams cr) (cr_run cr), forward_of e True (cr_streams cr) (cr_run cr)]\<rparr>)"

definition conda_failed :: "bytes \<Rightarrow> conda_run \<Rightarrow> goerr \<Rightarrow> compute_server \<Rightarrow> compute_server" where
  "conda_failed now cr err s =
     (let s = s\<lparr>ss_mux := snd (stream_Write (cr_streams cr ! 2) (''Error: '' @ err_text err @ [CHR 0x0A]) (ss_mux s))\<rparr>;
          s = s\<lparr>ss_mux := close_streams (cr_ids cr) (ss_mux s)\<rparr>;
          s = upd_info (cr_info cr) (\<lambda>r. r\<lparr>ri_EndTime := Some now, ri_Status := RunStatusFailed, ri_ExitCode := Some 1\<rparr>) s
      in snd (sendStatusSuccess (cr_run cr) RunStatusFailed (Some 1) (ri_StartTime (cs_infos s ! cr_info cr)) (Some now) s))"

definition conda_finish :: "bytes \<Rightarrow> conda_run \<Rightarrow> goerr option \<Rightarrow> int \<Rightarrow> compute_server \<Rightarrow> compute_server" where
  "conda_finish now cr resultErr exitCode s =
     (let s = upd_info (cr_info cr) (\<lambda>r. r\<lparr>ri_EndTime := Some now,
            ri_Status := (if resultErr = None \<and> exitCode \<le> 0 then RunStatusCompleted else RunStatusFailed),
            ri_ExitCode := Some exitCode\<rparr>) s;
          s = emit_status (cr_run cr) (cr_info cr) s
      in s\<lparr>ss_mux := close_streams (cr_ids cr) (ss_mux s)\<rparr>)"

definition conda_step :: "bytes \<Rightarrow> nat \<Rightarrow> compute_server \<Rightarrow> compute_server" where
  "conda_step now k s = (let cr = cs_condas s ! k in
     (case cr_phase cr of
        CoStart \<Rightarrow> (case cr_handler cr (cr_subcommand cr) (cr_args cr) (Some (cr_streams cr ! 0)) of
            Inl err \<Rightarrow> set_conda k CoOver (conda_failed now cr err s)
          | Inr x \<Rightarrow> set_conda k (CoDone (length (cs_execs s)) (length (cs_forwards s))) (bridgeCondaExecution cr x s))
      | CoDone e f \<Rightarrow> (case recv_done e s of
            (RecvWait, _) \<Rightarrow> s
          | (RecvClosed, s) \<Rightarrow> set_conda k (CoExit e f None) s
          | (Got doneErr, s) \<Rightarrow> set_conda k (CoExit e f doneErr) s)
      | CoExit e f doneErr \<Rightarrow> (case recv_exit e s of
            (RecvWait, _) \<Rightarrow> s
          | (RecvClosed, s) \<Rightarrow> set_conda k (CoWait f doneErr 0) s
          | (Got c, s) \<Rightarrow> set_conda k (CoWait f doneErr c) s)
      | CoWait f doneErr exitCode \<Rightarrow>
          if both_done f s then set_conda k CoOver (conda_finish now cr doneErr exitCode s) else s
      | CoOver \<Rightarrow> s))"

end
