(* ===== verification/Compute_Runs.thy ===== *)
theory Compute_Runs
  imports Compute_Server
begin

text \<open>
  The life of a run on the server.  \<open>compute_step\<close> is a step of the server: a request, a round of one of
  its goroutines or of a process, its shutdown, or any change of the multiplexer below it.  Every reachable
  server is well formed (\<open>cs_ok\<close>), and it implements the abstract life cycle \<open>lifecycle\<close> of a map from run
  identifiers to statuses.
\<close>

section \<open>Steps\<close>

inductive goroutine_step :: "compute_server \<Rightarrow> compute_server \<Rightarrow> bool" where
  forward: "f < length (cs_forwards s) \<Longrightarrow> goroutine_step s (forward_step now f s)"
| closer: "k < length (cs_closers s) \<Longrightarrow> goroutine_step s (closer_step k s)"
| monitor: "k < length (cs_monitors s) \<Longrightarrow> goroutine_step s (monitorExecution now k s)"
| conda: "k < length (cs_condas s) \<Longrightarrow> goroutine_step s (conda_step now k s)"
| writes: "goroutine_step s (upd_exec e (process_writes out err) s)"
| waits: "goroutine_step s (upd_exec e (wait_step w) s)"
| feeds: "e < length (cs_execs s) \<Longrightarrow> feed_round (cs_execs s ! e) (ss_mux s) = (x, m) \<Longrightarrow>
    goroutine_step s (upd_exec e (\<lambda>_. x) (s\<lparr>ss_mux := m\<rparr>))"

text \<open>
  With \<open>strict\<close> nothing happens inside a cancel request and no conda package is registered.
\<close>

inductive compute_step :: "bool \<Rightarrow> compute_server \<Rightarrow> compute_server \<Rightarrow> bool" for strict where
  request: "cs_Dispatch h exec creator between now p s = (e, s') \<Longrightarrow> (\<And>t. goroutine_step\<^sup>*\<^sup>* t (between t)) \<Longrightarrow>
    (strict \<Longrightarrow> creator = None \<and> between = id) \<Longrightarrow> compute_step strict s s'"
| goroutine: "goroutine_step s s' \<Longrightarrow> compute_step strict s s'"
| transport: "compute_step strict s (s\<lparr>ss_mux := m, ss_control := c\<rparr>)"
| shutdown: "cs_Close now ks as (Some s) = (e, Some s') \<Longrightarrow> compute_step strict s s'"

definition compute_reach :: "bool \<Rightarrow> compute_server \<Rightarrow> bool" where
  "compute_reach strict s \<longleftrightarrow> (\<exists>c s0. cs_NewServer c = Some s0 \<and> (compute_step strict)\<^sup>*\<^sup>* s0 s)"

section \<open>Well-formed servers\<close>

definition cancel_ok :: "nat \<Rightarrow> cancel_func option \<Rightarrow> bool" where
  "cancel_ok n c = (case c of None \<Rightarrow> True | Some (CancelContext e) \<Rightarrow> e < n | Some (CancelExecution e) \<Rightarrow> e < n)"

definition run_ok :: "nat \<Rightarrow> run_info \<Rightarrow> bool" where
  "run_ok n r \<longleftrightarrow> (ri_EndTime r = None \<longleftrightarrow> ri_Status r = RunStatusRunning)
     \<and> (ri_Status r = RunStatusRunning \<longrightarrow> ri_ExitCode r = None)
     \<and> (case ri_Execution r of None \<Rightarrow> True | Some e \<Rightarrow> e < n) \<and> cancel_ok n (ri_CancelFunc r)"

definition phase_ok :: "nat \<Rightarrow> nat \<Rightarrow> co_phase \<Rightarrow> bool" where
  "phase_ok n fs p = (case p of CoDone e f \<Rightarrow> e < n \<and> Suc f < fs | CoExit e f _ \<Rightarrow> e < n \<and> Suc f < fs
     | CoWait f _ _ \<Rightarrow> Suc f < fs | _ \<Rightarrow> True)"

definition conda_ok :: "compute_server \<Rightarrow> conda_run \<Rightarrow> bool" where
  "conda_ok s c \<longleftrightarrow> cr_info c < length (cs_infos s) \<and> ri_RunID (cs_infos s ! cr_info c) = cr_run c
     \<and> phase_ok (length (cs_execs s)) (length (cs_forwards s)) (cr_phase c)"

definition cs_ok :: "compute_server \<Rightarrow> bool" where
  "cs_ok s \<longleftrightarrow> (\<forall>k i. cs_runs s k = Some i \<longrightarrow> i < length (cs_infos s) \<and> ri_RunID (cs_infos s ! i) = k)
     \<and> (\<forall>r \<in> set (cs_infos s). run_ok (length (cs_execs s)) r)
     \<and> (\<forall>f \<in> set (cs_forwards s). of_exec f < length (cs_execs s))
     \<and> (\<forall>c \<in> set (cs_closers s). Suc (lc_first c) < length (cs_forwards s))
     \<and> (\<forall>m \<in> set (cs_monitors s). mo_exec m < length (cs_execs s))
     \<and> (\<forall>c \<in> set (cs_condas s). conda_ok s c)"

text \<open>Servers with the same runs and goroutines.\<close>

definition same_runs :: "compute_server \<Rightarrow> compute_server \<Rightarrow> bool" where
  "same_runs s s' \<longleftrightarrow> cs_runs s' = cs_runs s \<and> cs_infos s' = cs_infos s \<and> cs_execs s' = cs_execs s
     \<and> cs_forwards s' = cs_forwards s \<and> cs_closers s' = cs_closers s \<and> cs_monitors s' = cs_monitors s
     \<and> cs_condas s' = cs_condas s"

lemma same_runs_refl [simp]: "same_runs s s" "same_runs s (s\<lparr>ss_mux := m\<rparr>)" "same_runs s (s\<lparr>ss_control := c\<rparr>)"
    "same_runs (s\<lparr>ss_mux := m\<rparr>) s' \<longleftrightarrow> same_runs s s'"
  by (simp_all add: same_runs_def)

lemma same_runs_trans: "same_runs s t \<Longrightarrow> same_runs t u \<Longrightarrow> same_runs s u"
  by (simp add: same_runs_def)

lemma reply_same_runs: "reply r s = (e, s') \<Longrightarrow> same_runs s s'" "same_runs s (snd (reply r s))"
  using reply_same [of r s e s'] reply_same [of r s "fst (reply r s)" "snd (reply r s)"] by auto

lemmas send_defs = sendRunSuccess_def sendRunError_def sendCancelSuccess_def sendCancelError_def
  sendStatusSuccess_def sendStatusError_def closeStreamsAndSendError_def

lemma sends_same_runs:
  "same_runs s (snd (sendRunSuccess i ids s))" "same_runs s (snd (sendRunError i msg s))"
  "same_runs s (snd (sendCancelSuccess i s))" "same_runs s (snd (sendCancelError i msg s))"
  "same_runs s (snd (sendStatusSuccess i st c t t' s))" "same_runs s (snd (sendStatusError i msg s))"
  "same_runs s (snd (closeStreamsAndSendError i ids msg s))" "same_runs s (emit_status i k s)"
proof -
  have "same_runs s (snd (reply r (s\<lparr>ss_mux := m\<rparr>)))" for r m
    using reply_same_runs(2) [of "s\<lparr>ss_mux := m\<rparr>" r] by simp
  then show "same_runs s (snd (closeStreamsAndSendError i ids msg s))" by (simp add: send_defs)
qed (simp_all add: send_defs emit_status_def Let_def reply_same_runs(2))

lemma same_runs_ok: "same_runs s s' \<Longrightarrow> cs_ok s' \<longleftrightarrow> cs_ok s"
  by (simp add: same_runs_def cs_ok_def conda_ok_def)

lemma cs_ok_upd_exec: "cs_ok s \<Longrightarrow> cs_ok (upd_exec e f s)"
  by (simp add: upd_exec_def cs_ok_def conda_ok_def)

lemma cs_ok_upd_info:
  assumes "cs_ok s" "\<And>r. run_ok (length (cs_execs s)) r \<Longrightarrow> run_ok (length (cs_execs s)) (f r) \<and> ri_RunID (f r) = ri_RunID r"
  shows "cs_ok (upd_info i f s)"
proof (cases "i < length (cs_infos s)")
  case True
  define r where "r = cs_infos s ! i"
  have ok: "run_ok (length (cs_execs s)) (f r)" "ri_RunID (f r) = ri_RunID r"
    using assms True by (simp_all add: cs_ok_def r_def)
  have ids: "ri_RunID ((cs_infos s)[i := f r] ! j) = ri_RunID (cs_infos s ! j)" for j
    using ok(2) by (cases "j = i") (simp_all add: r_def True)
  have "\<forall>q \<in> set ((cs_infos s)[i := f r]). run_ok (length (cs_execs s)) q"
    using ok(1) assms(1) set_update_subset_insert [of "cs_infos s" i "f r"] by (auto simp: cs_ok_def)
  then show ?thesis
    using assms(1) True by (simp add: cs_ok_def upd_info_def conda_ok_def ids flip: r_def)
qed (use assms in \<open>simp add: upd_info_def\<close>)


section \<open>The life cycle\<close>

text \<open>
  A run is registered as running, ends, and may be forgotten while it is running.  With \<open>strict\<close> an end is
  final.
\<close>

inductive lifecycle :: "bool \<Rightarrow> (bytes \<rightharpoonup> run_status) \<Rightarrow> (bytes \<rightharpoonup> run_status) \<Rightarrow> bool" for strict where
  register: "m k = None \<Longrightarrow> lifecycle strict m (m(k \<mapsto> RunStatusRunning))"
| finish: "m k = Some st \<Longrightarrow> st' \<noteq> RunStatusRunning \<Longrightarrow> (strict \<Longrightarrow> st = RunStatusRunning) \<Longrightarrow>
    lifecycle strict m (m(k \<mapsto> st'))"
| forget: "m k = Some RunStatusRunning \<Longrightarrow> lifecycle strict m (m(k := None))"

definition statuses :: "compute_server \<Rightarrow> bytes \<rightharpoonup> run_status" where
  "statuses s k = map_option (\<lambda>i. ri_Status (cs_infos s ! i)) (cs_runs s k)"

definition sys_ok :: "bool \<Rightarrow> compute_server \<Rightarrow> bool" where
  "sys_ok strict s \<longleftrightarrow> cs_ok s \<and> (strict \<longrightarrow> cs_condas s = [])"

text \<open>\<open>s'\<close> is well formed if \<open>s\<close> is, and follows it in the life cycle.\<close>

definition follows :: "bool \<Rightarrow> compute_server \<Rightarrow> compute_server \<Rightarrow> bool" where
  "follows strict s s' \<longleftrightarrow> (sys_ok strict s \<longrightarrow> sys_ok strict s' \<and> (lifecycle strict)\<^sup>*\<^sup>* (statuses s) (statuses s'))"

lemma follows_refl: "follows strict s s"
  by (simp add: follows_def)

lemma follows_trans: "follows strict s t \<Longrightarrow> follows strict t u \<Longrightarrow> follows strict s u"
  by (auto simp: follows_def)

lemma follows_same: "same_runs s s' \<Longrightarrow> follows strict s s'"
  using same_runs_ok [of s s'] by (simp add: follows_def sys_ok_def statuses_def [abs_def] same_runs_def)

lemma follows_exec: "follows strict s (upd_exec e f s)"
  using cs_ok_upd_exec [of s e f] by (simp add: follows_def sys_ok_def statuses_def [abs_def]) (simp add: upd_exec_def)

lemma upd_info_fields [simp]:
  "cs_runs (upd_info i f s) = cs_runs s" "cs_execs (upd_info i f s) = cs_execs s" "cs_condas (upd_info i f s) = cs_condas s"
  "cs_forwards (upd_info i f s) = cs_forwards s" "length (cs_infos (upd_info i f s)) = length (cs_infos s)"
  by (simp_all add: upd_info_def)

lemma follows_info:
  assumes "\<And>r. run_ok (length (cs_execs s)) r \<Longrightarrow> run_ok (length (cs_execs s)) (f r) \<and> ri_RunID (f r) = ri_RunID r"
    and "\<And>r. ri_Status (f r) = ri_Status r"
  shows "follows strict s (upd_info i f s)"
proof -
  have "ri_Status (cs_infos (upd_info i f s) ! j) = ri_Status (cs_infos s ! j)" for j
    using assms(2) by (cases "j = i") (simp_all add: upd_info_def)
  then have "statuses (upd_info i f s) = statuses s" by (simp add: statuses_def fun_eq_iff)
  then show ?thesis using cs_ok_upd_info [of s f i] assms(1) by (simp add: follows_def sys_ok_def)
qed

lemma follows_end:
  assumes "\<And>r. run_ok (length (cs_execs s)) r \<Longrightarrow> run_ok (length (cs_execs s)) (f r) \<and> ri_RunID (f r) = ri_RunID r"
    and "\<And>r. ri_Status (f r) = st" "st \<noteq> RunStatusRunning" "strict \<Longrightarrow> ri_Status (cs_infos s ! i) = RunStatusRunning"
  shows "follows strict s (upd_info i f s)"
  unfolding follows_def
proof
  assume ok: "sys_ok strict s"
  define k where "k = ri_RunID (cs_infos s ! i)"
  have other: "cs_runs s k' \<noteq> Some i" if "k' \<noteq> k" for k' using ok that by (auto simp: sys_ok_def cs_ok_def k_def)
  have kept: "ri_Status (cs_infos (upd_info i f s) ! j) = ri_Status (cs_infos s ! j)" if "j \<noteq> i" for j
    using that by (simp add: upd_info_def)
  have "(lifecycle strict)\<^sup>*\<^sup>* (statuses s) (statuses (upd_info i f s))"
  proof (cases "cs_runs s k = Some i")
    case True
    then have i: "i < length (cs_infos s)" using ok by (simp add: sys_ok_def cs_ok_def)
    have "statuses (upd_info i f s) k' = ((statuses s)(k \<mapsto> st)) k'" for k'
      using True i other [of k'] kept assms(2)
      by (cases "cs_runs s k'") (auto simp: statuses_def upd_info_def)
    then have "statuses (upd_info i f s) = (statuses s)(k \<mapsto> st)" by blast
    moreover have "lifecycle strict (statuses s) ((statuses s)(k \<mapsto> st))"
      using True assms(3,4) by (intro lifecycle.finish [of _ _ "ri_Status (cs_infos s ! i)"]) (simp_all add: statuses_def)
    ultimately show ?thesis by simp
  next
    case False
    have "statuses (upd_info i f s) k' = statuses s k'" for k'
      using False other [of k'] kept by (cases "cs_runs s k'"; cases "k' = k") (auto simp: statuses_def)
    then have "statuses (upd_info i f s) = statuses s" by blast
    then show ?thesis by simp
  qed
  then show "sys_ok strict (upd_info i f s) \<and> (lifecycle strict)\<^sup>*\<^sup>* (statuses s) (statuses (upd_info i f s))"
    using cs_ok_upd_info [of s f i] assms(1) ok by (simp add: sys_ok_def)
qed

section \<open>Goroutines\<close>

lemma run_ok_mono: "run_ok n r \<Longrightarrow> n \<le> n' \<Longrightarrow> run_ok n' r"
  by (auto simp: run_ok_def cancel_ok_def split: option.splits cancel_func.splits)

lemma phase_ok_mono: "phase_ok n f p \<Longrightarrow> n \<le> n' \<Longrightarrow> f \<le> f' \<Longrightarrow> phase_ok n' f' p"
  by (auto simp: phase_ok_def split: co_phase.splits)

lemma cs_okD:
  assumes "cs_ok s"
  shows "cs_runs s k = Some i \<Longrightarrow> i < length (cs_infos s) \<and> ri_RunID (cs_infos s ! i) = k"
    "r \<in> set (cs_infos s) \<Longrightarrow> run_ok (length (cs_execs s)) r"
    "f \<in> set (cs_forwards s) \<Longrightarrow> of_exec f < length (cs_execs s)"
    "c \<in> set (cs_closers s) \<Longrightarrow> Suc (lc_first c) < length (cs_forwards s)"
    "m \<in> set (cs_monitors s) \<Longrightarrow> mo_exec m < length (cs_execs s)"
    "d \<in> set (cs_condas s) \<Longrightarrow> conda_ok s d"
  using assms by (auto simp: cs_ok_def)

text \<open>Changes to the goroutines only.\<close>

lemma follows_goroutines:
  assumes "cs_runs s' = cs_runs s" "cs_infos s' = cs_infos s" "length (cs_execs s) \<le> length (cs_execs s')"
    and "cs_ok s \<Longrightarrow> (\<forall>f \<in> set (cs_forwards s'). f \<in> set (cs_forwards s) \<or> of_exec f < length (cs_execs s'))
      \<and> length (cs_forwards s) \<le> length (cs_forwards s') \<and> (\<forall>c \<in> set (cs_closers s'). \<exists>c' \<in> set (cs_closers s). lc_first c = lc_first c')
      \<and> (\<forall>m \<in> set (cs_monitors s'). m \<in> set (cs_monitors s) \<or> mo_exec m < length (cs_execs s'))
      \<and> (\<forall>c \<in> set (cs_condas s'). c \<in> set (cs_condas s) \<or> conda_ok s' c)"
    and "cs_condas s = [] \<Longrightarrow> cs_condas s' = []"
  shows "follows strict s s'"
  unfolding follows_def
proof
  assume ok: "sys_ok strict s"
  then have c: "cs_ok s" by (simp add: sys_ok_def)
  note d = cs_okD [OF c] and a = assms(4) [OF c]
  have mono: "conda_ok s x \<Longrightarrow> conda_ok s' x" for x
    using assms(2,3) a phase_ok_mono by (auto simp: conda_ok_def)
  have "cs_ok s'"
    unfolding cs_ok_def
  proof (intro conjI)
    show "\<forall>k i. cs_runs s' k = Some i \<longrightarrow> i < length (cs_infos s') \<and> ri_RunID (cs_infos s' ! i) = k"
      using d(1) assms(1,2) by simp
    show "\<forall>r \<in> set (cs_infos s'). run_ok (length (cs_execs s')) r"
      using d(2) assms(2,3) run_ok_mono by auto
    show "\<forall>f \<in> set (cs_forwards s'). of_exec f < length (cs_execs s')"
      using d(3) a assms(3) by (meson less_le_trans)
    show "\<forall>c \<in> set (cs_closers s'). Suc (lc_first c) < length (cs_forwards s')"
      using d(4) a by (metis less_le_trans)
    show "\<forall>m \<in> set (cs_monitors s'). mo_exec m < length (cs_execs s')"
      using d(5) a assms(3) by (meson less_le_trans)
    show "\<forall>c \<in> set (cs_condas s'). conda_ok s' c"
      using d(6) a mono by blast
  qed
  then show "sys_ok strict s' \<and> (lifecycle strict)\<^sup>*\<^sup>* (statuses s) (statuses s')"
    using ok assms(1,2,5) by (simp add: sys_ok_def statuses_def [abs_def])
qed

lemma set_update: "x \<in> set (xs[i := y]) \<Longrightarrow> x = y \<or> x \<in> set xs"
  using set_update_subset_insert [of xs i y] by auto

lemma follows_monitor_phase:
  assumes "k < length (cs_monitors s)"
  shows "follows strict s (set_monitor k ph s)"
proof -
  have "mo_exec ((cs_monitors s ! k)\<lparr>mo_phase := ph\<rparr>) < length (cs_execs s)" if "cs_ok s"
    using cs_okD(5) [OF that, of "cs_monitors s ! k"] assms by simp
  then show ?thesis
    by (intro follows_goroutines) (auto simp: set_monitor_def dest!: set_update)
qed

lemma follows_conda_phase:
  assumes "k < length (cs_condas s)" "cs_ok s \<Longrightarrow> phase_ok (length (cs_execs s)) (length (cs_forwards s)) ph"
  shows "follows strict s (set_conda k ph s)"
proof -
  have "conda_ok (set_conda k ph s) ((cs_condas s ! k)\<lparr>cr_phase := ph\<rparr>)" if "cs_ok s"
    using cs_okD(6) [OF that, of "cs_condas s ! k"] assms that by (simp add: conda_ok_def set_conda_def)
  then show ?thesis
    by (intro follows_goroutines) (auto simp: set_conda_def dest!: set_update)
qed

lemma follows_forward:
  assumes "f < length (cs_forwards s)"
  shows "follows strict s (forward_step now f s)"
proof (cases "of_done (cs_forwards s ! f)")
  case True
  then show ?thesis by (simp add: forward_step_def Let_def follows_refl)
next
  case False
  let ?fo = "cs_forwards s ! f"
  obtain go x m where r: "(if of_stderr ?fo then forwardStderr else forwardStdout) now ?fo (cs_execs s ! of_exec ?fo) (ss_mux s) = (go, x, m)"
    using prod_cases3 by blast
  let ?t = "upd_exec (of_exec ?fo) (\<lambda>_. x) (s\<lparr>ss_mux := m\<rparr>)"
  have t: "follows strict s ?t"
    by (rule follows_trans [OF follows_same follows_exec]) simp
  show ?thesis
  proof (cases go)
    case True
    then show ?thesis using t r False by (simp add: forward_step_def)
  next
    case end': False
    have "of_exec (?fo\<lparr>of_done := True\<rparr>) < length (cs_execs ?t)" if "cs_ok ?t"
      using cs_okD(3) [OF that, of ?fo] assms by (simp add: upd_exec_def split: if_splits)
    then have "follows strict ?t (?t\<lparr>ss_mux := snd (stream_Close (of_stream ?fo) (ss_mux ?t)),
        cs_forwards := (cs_forwards ?t)[f := ?fo\<lparr>of_done := True\<rparr>]\<rparr>)"
      by (intro follows_goroutines) (auto dest!: set_update)
    from follows_trans [OF t this] show ?thesis using r False end' by (simp add: forward_step_def Let_def)
  qed
qed

lemma follows_closer:
  assumes "k < length (cs_closers s)"
  shows "follows strict s (closer_step k s)"
proof -
  have k: "cs_closers s ! k \<in> set (cs_closers s)" using assms by simp
  have "follows strict s (s\<lparr>ss_mux := m, cs_closers := (cs_closers s)[k := (cs_closers s ! k)\<lparr>lc_done := True\<rparr>]\<rparr>)" for m
  proof (rule follows_goroutines, goal_cases)
    case 4
    have "\<exists>c' \<in> set (cs_closers s). lc_first c = lc_first c'"
      if "c \<in> set ((cs_closers s)[k := (cs_closers s ! k)\<lparr>lc_done := True\<rparr>])" for c
      using set_update [OF that] k by auto
    then show ?case by simp
  qed simp_all
  then show ?thesis by (simp add: closer_step_def Let_def follows_refl)
qed

lemma recv_step:
  "recv_done e s = (r, s') \<Longrightarrow> \<exists>f. s' = upd_exec e f s" "recv_exit e s = (q, s') \<Longrightarrow> \<exists>f. s' = upd_exec e f s"
  by (auto simp: recv_done_def recv_exit_def split: prod.splits)

lemma upd_exec_fields [simp]:
  "cs_runs (upd_exec e f s) = cs_runs s" "cs_infos (upd_exec e f s) = cs_infos s" "cs_condas (upd_exec e f s) = cs_condas s"
  "cs_forwards (upd_exec e f s) = cs_forwards s" "length (cs_execs (upd_exec e f s)) = length (cs_execs s)"
  "cs_monitors (upd_exec e f s) = cs_monitors s" "cs_closers (upd_exec e f s) = cs_closers s" "ss_mux (upd_exec e f s) = ss_mux s"
  by (simp_all add: upd_exec_def)

lemma emit_fields:
  "cs_monitors (emit_status i k s) = cs_monitors s" "cs_condas (emit_status i k s) = cs_condas s"
  "cs_infos (emit_status i k s) = cs_infos s" "cs_runs (emit_status i k s) = cs_runs s"
  "cs_execs (emit_status i k s) = cs_execs s" "cs_forwards (emit_status i k s) = cs_forwards s"
  using sends_same_runs(8) [of s i k] by (simp_all add: same_runs_def)

lemma monitor_update_monitors: "length (cs_monitors (monitor_update now runID c s)) = length (cs_monitors s)"
  by (simp add: monitor_update_def emit_fields Let_def upd_info_def split: option.split)

lemma follows_monitor_update: "follows strict s (monitor_update now runID c s)"
proof (cases "cs_runs s runID")
  case (Some i)
  let ?f = "\<lambda>r. r\<lparr>ri_Status := (case c of Some c \<Rightarrow> if c \<le> 0 then RunStatusCompleted else RunStatusFailed | None \<Rightarrow> RunStatusFailed),
      ri_EndTime := Some now, ri_ExitCode := c\<rparr>"
  let ?t = "if ri_Status (cs_infos s ! i) = RunStatusRunning then upd_info i ?f s else s"
  have "follows strict s ?t"
  proof (cases "ri_Status (cs_infos s ! i) = RunStatusRunning")
    case True
    have "follows strict s (upd_info i ?f s)"
      by (rule follows_end [where st = "case c of Some c \<Rightarrow> if c \<le> 0 then RunStatusCompleted else RunStatusFailed | None \<Rightarrow> RunStatusFailed"])
        (auto simp: run_ok_def True split: option.split)
    then show ?thesis by (simp add: True)
  qed (simp add: follows_refl)
  moreover have "monitor_update now runID c s = emit_status runID i ?t" by (simp add: monitor_update_def Some Let_def)
  ultimately show ?thesis using follows_trans [OF _ follows_same [OF sends_same_runs(8)]] by simp
qed (simp add: monitor_update_def follows_refl)

lemma follows_monitor:
  assumes k: "k < length (cs_monitors s)"
  shows "follows strict s (monitorExecution now k s)"
proof -
  have *: "follows strict s (set_monitor k ph (upd_exec e f s))" for ph e f
    by (rule follows_trans [OF follows_exec follows_monitor_phase]) (simp add: k)
  show ?thesis
  proof (cases "mo_phase (cs_monitors s ! k)")
    case MoDone
    obtain r s' where r: "recv_done (mo_exec (cs_monitors s ! k)) s = (r, s')" by force
    then obtain f where "s' = upd_exec (mo_exec (cs_monitors s ! k)) f s" using recv_step(1) by blast
    then show ?thesis by (cases r) (simp_all add: monitorExecution_def Let_def follows_refl MoDone r *)
  next
    case MoExit
    obtain r s' where r: "recv_exit (mo_exec (cs_monitors s ! k)) s = (r, s')" by force
    then obtain f where "s' = upd_exec (mo_exec (cs_monitors s ! k)) f s" using recv_step(2) by blast
    then show ?thesis by (cases r) (simp_all add: monitorExecution_def Let_def follows_refl MoExit r *)
  next
    case (MoUpdate c)
    have "k < length (cs_monitors (monitor_update now (mo_run (cs_monitors s ! k)) c s))"
      by (simp add: monitor_update_monitors k)
    from follows_trans [OF follows_monitor_update follows_monitor_phase [OF this]] show ?thesis
      by (simp add: monitorExecution_def Let_def MoUpdate)
  next
    case MoOver
    then show ?thesis by (simp add: monitorExecution_def Let_def follows_refl)
  qed
qed

lemma follows_bridge: "follows strict s (bridgeCondaExecution cr x s)"
proof -
  let ?e = "length (cs_execs s)"
  define x' where "x' = (if ex_full x then x\<lparr>ex_RunID := cr_run cr\<rparr> else x)"
  let ?s1 = "s\<lparr>cs_execs := cs_execs s @ [x']\<rparr>"
  let ?s2 = "upd_info (cr_info cr) (\<lambda>r. r\<lparr>ri_Execution := Some ?e, ri_CancelFunc := Some (CancelExecution ?e)\<rparr>) ?s1"
  let ?s3 = "if ex_full x then ?s2\<lparr>cs_monitors := cs_monitors ?s2 @ [\<lparr>mo_run = cr_run cr, mo_exec = ?e, mo_phase = MoDone\<rparr>]\<rparr> else ?s1"
  have 1: "follows strict s ?s1" by (rule follows_goroutines) auto
  have 2: "follows strict ?s1 ?s2"
    by (rule follows_info) (auto simp: run_ok_def cancel_ok_def)
  have 3: "follows strict ?s2 (?s2\<lparr>cs_monitors := cs_monitors ?s2 @ [\<lparr>mo_run = cr_run cr, mo_exec = ?e, mo_phase = MoDone\<rparr>]\<rparr>)"
    by (rule follows_goroutines) auto
  have 4: "follows strict s ?s3"
    by (cases "ex_full x") (use follows_trans [OF 1 follows_trans [OF 2 3]] 1 in \<open>simp_all only: if_True if_False\<close>)
  have "length (cs_execs ?s3) = Suc ?e" by simp
  then have "follows strict ?s3 (?s3\<lparr>cs_forwards := cs_forwards ?s3 @ [forward_of ?e False as i, forward_of ?e True as i]\<rparr>)" for as i
    by (intro follows_goroutines) (auto simp: forward_of_def)
  from follows_trans [OF 4 this] show ?thesis by (simp only: bridgeCondaExecution_def Let_def flip: x'_def)
qed

lemma bridge_fields:
  "length (cs_execs (bridgeCondaExecution cr x s)) = Suc (length (cs_execs s))"
  "length (cs_forwards (bridgeCondaExecution cr x s)) = length (cs_forwards s) + 2"
  "cs_condas (bridgeCondaExecution cr x s) = cs_condas s"
  by (simp_all add: bridgeCondaExecution_def Let_def)


lemma upd_info_list: "i < length (cs_infos s) \<Longrightarrow> upd_info i f s = s\<lparr>cs_infos := (cs_infos s)[i := f (cs_infos s ! i)]\<rparr>"
  by (simp add: upd_info_def)

lemma follows_conda_failed: "\<not> strict \<Longrightarrow> follows strict s (conda_failed now cr err s)"
proof -
  assume strict: "\<not> strict"
  let ?s1 = "s\<lparr>ss_mux := close_streams (cr_ids cr) (snd (stream_Write (cr_streams cr ! 2) (''Error: '' @ err_text err @ [CHR 0x0A]) (ss_mux s)))\<rparr>"
  let ?s2 = "upd_info (cr_info cr) (\<lambda>r. r\<lparr>ri_EndTime := Some now, ri_Status := RunStatusFailed, ri_ExitCode := Some 1\<rparr>) ?s1"
  have "follows strict ?s1 ?s2"
    by (rule follows_end [where st = RunStatusFailed]) (auto simp: run_ok_def strict)
  moreover have "follows strict s ?s1" by (rule follows_same) simp
  moreover have "conda_failed now cr err s = snd (sendStatusSuccess (cr_run cr) RunStatusFailed (Some 1)
      (ri_StartTime (cs_infos ?s2 ! cr_info cr)) (Some now) ?s2)"
    by (simp add: conda_failed_def Let_def)
  ultimately show ?thesis
    using follows_trans [OF follows_trans follows_same [OF sends_same_runs(5)]] by simp
qed

lemma follows_conda_finish: "\<not> strict \<Longrightarrow> follows strict s (conda_finish now cr e c s)"
proof -
  assume strict: "\<not> strict"
  let ?st = "if e = None \<and> c \<le> 0 then RunStatusCompleted else RunStatusFailed"
  let ?s1 = "upd_info (cr_info cr) (\<lambda>r. r\<lparr>ri_EndTime := Some now, ri_Status := ?st, ri_ExitCode := Some c\<rparr>) s"
  have "follows strict s ?s1"
    by (rule follows_end [where st = ?st]) (auto simp: run_ok_def strict)
  from follows_trans [OF this follows_same [OF sends_same_runs(8) [of ?s1 "cr_run cr" "cr_info cr"]]]
  have "follows strict s (emit_status (cr_run cr) (cr_info cr) ?s1)" .
  from follows_trans [OF this follows_same [OF same_runs_refl(2)]]
  show ?thesis by (simp add: conda_finish_def Let_def)
qed

lemma conda_result_fields:
  "cs_condas (conda_failed now cr err s) = cs_condas s" "cs_condas (conda_finish now cr e c s) = cs_condas s"
  using sends_same_runs(5) by (simp_all add: conda_failed_def conda_finish_def Let_def emit_fields same_runs_def)

lemma follows_conda:
  assumes k: "k < length (cs_condas s)"
  shows "follows strict s (conda_step now k s)"
proof (cases "cs_ok s \<and> \<not> strict")
  case False
  then show ?thesis using k by (auto simp: follows_def sys_ok_def)
next
  case True
  let ?c = "cs_condas s ! k"
  have "conda_ok s ?c" using True k cs_okD(6) [of s ?c] by simp
  then have ph: "phase_ok (length (cs_execs s)) (length (cs_forwards s)) (cr_phase ?c)" by (simp add: conda_ok_def)
  show ?thesis
  proof (cases "cr_phase ?c")
    case CoStart
    show ?thesis
    proof (cases "cr_handler ?c (cr_subcommand ?c) (cr_args ?c) (Some (cr_streams ?c ! 0))")
      case (Inl err)
      have "follows strict (conda_failed now ?c err s) (set_conda k CoOver (conda_failed now ?c err s))"
        by (rule follows_conda_phase) (simp_all add: conda_result_fields k phase_ok_def)
      from follows_trans [OF follows_conda_failed this] show ?thesis
        using True by (simp add: conda_step_def Let_def CoStart Inl)
    next
      case (Inr x)
      let ?b = "bridgeCondaExecution ?c x s"
      have "follows strict ?b (set_conda k (CoDone (length (cs_execs s)) (length (cs_forwards s))) ?b)"
        by (rule follows_conda_phase) (simp_all add: bridge_fields k phase_ok_def)
      from follows_trans [OF follows_bridge this] show ?thesis by (simp add: conda_step_def Let_def CoStart Inr)
    qed
  next
    case (CoDone e f)
    obtain r s' where r: "recv_done e s = (r, s')" by force
    then obtain g where s': "s' = upd_exec e g s" using recv_step(1) by blast
    have "follows strict s (set_conda k (CoExit e f d) s')" for d
      unfolding s' by (rule follows_trans [OF follows_exec follows_conda_phase]) (use k ph in \<open>simp_all add: phase_ok_def CoDone\<close>)
    then show ?thesis by (cases r) (simp_all add: conda_step_def Let_def CoDone r follows_refl)
  next
    case (CoExit e f d)
    obtain r s' where r: "recv_exit e s = (r, s')" by force
    then obtain g where s': "s' = upd_exec e g s" using recv_step(2) by blast
    have "follows strict s (set_conda k (CoWait f d c) s')" for c
      unfolding s' by (rule follows_trans [OF follows_exec follows_conda_phase]) (use k ph in \<open>simp_all add: phase_ok_def CoExit\<close>)
    then show ?thesis by (cases r) (simp_all add: conda_step_def Let_def CoExit r follows_refl)
  next
    case (CoWait f d c)
    have "follows strict (conda_finish now ?c d c s) (set_conda k CoOver (conda_finish now ?c d c s))"
      by (rule follows_conda_phase) (simp_all add: conda_result_fields k phase_ok_def)
    from follows_trans [OF follows_conda_finish this] show ?thesis
      using True by (simp add: conda_step_def Let_def CoWait follows_refl)
  next
    case CoOver
    then show ?thesis by (simp add: conda_step_def Let_def follows_refl)
  qed
qed

lemma follows_goroutine_step: "goroutine_step s s' \<Longrightarrow> follows strict s s'"
proof (induction rule: goroutine_step.induct)
  case (feeds e s x m)
  show ?case by (rule follows_trans [OF follows_same follows_exec]) simp
qed (simp_all add: follows_forward follows_closer follows_monitor follows_conda follows_exec)

lemma follows_goroutine_steps: "goroutine_step\<^sup>*\<^sup>* s s' \<Longrightarrow> follows strict s s'"
  by (induction rule: rtranclp_induct) (auto intro: follows_refl follows_trans follows_goroutine_step)

section \<open>Requests\<close>

lemma next_ids_same_runs: "next_ids n s = (is, s') \<Longrightarrow> same_runs s s'"
proof (induction n arbitrary: s "is")
  case (Suc n)
  obtain i t where t: "NextStreamID s = (i, t)" by force
  then have "base_server.more t = base_server.more s" by (rule NextStreamID_session(3))
  then have "same_runs s t" by (cases s; cases t) (simp add: same_runs_def)
  then show ?case using Suc t by (auto split: prod.splits intro: same_runs_trans)
qed simp

text \<open>A new run under an identifier that is free.\<close>

lemma follows_register:
  assumes "cs_runs s k = None" "cs_runs s' = (cs_runs s)(k \<mapsto> length (cs_infos s))" "cs_infos s' = cs_infos s @ [r]"
    and "ri_RunID r = k" "ri_Status r = RunStatusRunning" "run_ok (length (cs_execs s')) r"
    and "\<exists>xs. cs_execs s' = cs_execs s @ xs" "\<exists>xs. cs_forwards s' = cs_forwards s @ xs \<and> (\<forall>f \<in> set xs. of_exec f < length (cs_execs s'))"
    and "\<exists>xs. cs_closers s' = cs_closers s @ xs \<and> (\<forall>c \<in> set xs. Suc (lc_first c) < length (cs_forwards s'))"
    and "\<exists>xs. cs_monitors s' = cs_monitors s @ xs \<and> (\<forall>m \<in> set xs. mo_exec m < length (cs_execs s'))"
    and "\<exists>xs. cs_condas s' = cs_condas s @ xs \<and> (\<forall>c \<in> set xs. conda_ok s' c) \<and> (strict \<longrightarrow> xs = [])"
  shows "follows strict s s'" "statuses s' k = Some RunStatusRunning"
proof -
  show st: "statuses s' k = Some RunStatusRunning" using assms(2,3,5) by (simp add: statuses_def)
  show "follows strict s s'"
    unfolding follows_def
  proof
    assume ok: "sys_ok strict s"
    then have c: "cs_ok s" by (simp add: sys_ok_def)
    note d = cs_okD [OF c]
    have len: "length (cs_execs s) \<le> length (cs_execs s')" "length (cs_forwards s) \<le> length (cs_forwards s')"
      using assms(7,8) by auto
    have old: "cs_infos s' ! i = cs_infos s ! i" if "i < length (cs_infos s)" for i
      using that assms(3) by (simp add: nth_append)
    have mono: "conda_ok s x \<Longrightarrow> conda_ok s' x" for x
      using len old assms(3) phase_ok_mono by (auto simp: conda_ok_def)
    have "cs_ok s'"
      unfolding cs_ok_def
    proof (intro conjI)
      show "\<forall>k i. cs_runs s' k = Some i \<longrightarrow> i < length (cs_infos s') \<and> ri_RunID (cs_infos s' ! i) = k"
        using d(1) old assms(2-4) by (auto simp: less_SucI)
      show "\<forall>r \<in> set (cs_infos s'). run_ok (length (cs_execs s')) r"
        using d(2) assms(3,6) len run_ok_mono by auto
      show "\<forall>f \<in> set (cs_forwards s'). of_exec f < length (cs_execs s')"
        using assms(8) len by (auto dest!: d(3))
      show "\<forall>c \<in> set (cs_closers s'). Suc (lc_first c) < length (cs_forwards s')"
        using assms(9) len by (auto dest!: d(4))
      show "\<forall>m \<in> set (cs_monitors s'). mo_exec m < length (cs_execs s')"
        using assms(10) len by (auto dest!: d(5))
      show "\<forall>c \<in> set (cs_condas s'). conda_ok s' c"
        using d(6) assms(11) mono by auto
    qed
    moreover have "statuses s' = (statuses s)(k \<mapsto> RunStatusRunning)"
    proof
      fix k'
      show "statuses s' k' = ((statuses s)(k \<mapsto> RunStatusRunning)) k'"
        using st old d(1) assms(2) by (cases "k' = k"; cases "cs_runs s k'") (auto simp: statuses_def)
    qed
    moreover have "lifecycle strict (statuses s) ((statuses s)(k \<mapsto> RunStatusRunning))"
      by (rule lifecycle.register) (simp add: statuses_def assms(1))
    ultimately show "sys_ok strict s' \<and> (lifecycle strict)\<^sup>*\<^sup>* (statuses s) (statuses s')"
      using ok assms(11) by (auto simp: sys_ok_def)
  qed
qed

lemma follows_cleanup:
  assumes "statuses s k = Some RunStatusRunning"
  shows "follows strict s (cleanupRun k s)"
proof -
  have "statuses (cleanupRun k s) = (statuses s)(k := None)" by (auto simp: statuses_def cleanupRun_def)
  moreover have "cs_ok s \<Longrightarrow> cs_ok (cleanupRun k s)" by (simp add: cs_ok_def cleanupRun_def conda_ok_def)
  moreover have "lifecycle strict (statuses s) ((statuses s)(k := None))" by (rule lifecycle.forget) (rule assms)
  ultimately show ?thesis by (auto simp: follows_def sys_ok_def cleanupRun_def)
qed

lemma same_statuses: "same_runs s s' \<Longrightarrow> statuses s' = statuses s"
  by (simp add: same_runs_def statuses_def fun_eq_iff)

lemma follows_start_run:
  assumes "cs_runs s (crq_run_id req) = None" "start_run h exec now req ids as s = (e, s')"
  shows "follows strict s s'"
proof -
  let ?env = "PrepareExecutionEnvironment h (map_of (case crq_env req of None \<Rightarrow> [] | Some kvs \<Rightarrow> kvs))"
  let ?x = "exec \<lparr>er_Command = crq_command req, er_Args = (case crq_args req of None \<Rightarrow> [] | Some l \<Rightarrow> l), er_Env = ?env,
             er_WorkingDir = crq_working_dir req, er_Stdin = Some (as ! 0)\<rparr>"
  show ?thesis
  proof (cases ?x)
    case (Inl err)
    have "same_runs s (snd (sendRunError (crq_run_id req) (''failed to execute command: '' @ err_text err) (s\<lparr>ss_mux := close_streams ids (ss_mux s)\<rparr>)))"
      using sends_same_runs(2) same_runs_refl(4) by blast
    then show ?thesis using assms(2) Inl by (intro follows_same) (simp add: start_run_def Let_def)
  next
    case (Inr x)
    define r where "r = \<lparr>ri_RunID = crq_run_id req, ri_Status = RunStatusRunning, ri_StartTime = now, ri_EndTime = None,
        ri_ExitCode = None, ri_Execution = Some (length (cs_execs s)), ri_CancelFunc = Some (CancelContext (length (cs_execs s)))\<rparr>"
    define t where "t = s\<lparr>cs_execs := cs_execs s @ [x\<lparr>ex_RunID := crq_run_id req\<rparr>], cs_infos := cs_infos s @ [r],
                     cs_runs := (cs_runs s)(crq_run_id req \<mapsto> length (cs_infos s)),
                     cs_forwards := cs_forwards s @ [forward_of (length (cs_execs s)) False as (crq_run_id req), forward_of (length (cs_execs s)) True as (crq_run_id req)],
                     cs_closers := cs_closers s @ [\<lparr>lc_first = length (cs_forwards s), lc_log = as ! 3, lc_done = False\<rparr>],
                     cs_monitors := cs_monitors s @ [\<lparr>mo_run = crq_run_id req, mo_exec = length (cs_execs s), mo_phase = MoDone\<rparr>]\<rparr>"
    have t: "follows strict s t" "statuses t (crq_run_id req) = Some RunStatusRunning"
      by (rule follows_register [OF assms(1), where r = r and s' = t]; simp add: t_def r_def run_ok_def cancel_ok_def forward_of_def)+
    obtain e2 u where u: "sendRunSuccess (crq_run_id req) ids t = (e2, u)" by force
    then have su: "same_runs t u" using sends_same_runs(1) [of t "crq_run_id req" ids] by simp
    then have fu: "follows strict s u" using follows_trans [OF t(1) follows_same] by blast
    have "follows strict u (cleanupRun (crq_run_id req) u)"
      by (rule follows_cleanup) (simp add: same_statuses [OF su] t(2))
    then have "follows strict s (cleanupRun (crq_run_id req) u)" by (rule follows_trans [OF fu])
    moreover have "s' = (case e2 of None \<Rightarrow> u | Some _ \<Rightarrow> cleanupRun (crq_run_id req) u)"
      using assms(2) u by (auto simp: start_run_def Let_def Inr t_def [unfolded r_def, symmetric] split: option.splits)
    ultimately show ?thesis using fu by (auto split: option.split)
  qed
qed

lemma follows_send:
  "sendRunSuccess i ids s = (e, s') \<Longrightarrow> follows strict s s'" "sendRunError i msg s = (e, s') \<Longrightarrow> follows strict s s'"
  "sendCancelSuccess i s = (e, s') \<Longrightarrow> follows strict s s'" "sendCancelError i msg s = (e, s') \<Longrightarrow> follows strict s s'"
  "sendStatusSuccess i st c t t' s = (e, s') \<Longrightarrow> follows strict s s'" "sendStatusError i msg s = (e, s') \<Longrightarrow> follows strict s s'"
  "closeStreamsAndSendError i ids msg s = (e, s') \<Longrightarrow> follows strict s s'"
  using sends_same_runs [of s] by (metis follows_same snd_conv)+

lemma follows_conda_operation:
  assumes "cs_runs s (crq_run_id req) = None" "handleCondaOperation creator now req ids as s = (e, s')"
    and "strict \<Longrightarrow> creator = None"
  shows "follows strict s s'"
proof (cases "\<exists>sub args mk created hd. crq_args req = Some (sub # args) \<and> creator = Some mk \<and> mk [] = Inr created \<and> conda_handler created = Some hd")
  case False
  then show ?thesis
    using assms(2) by (auto simp: handleCondaOperation_def Let_def intro: follows_send(7)
      split: option.splits list.splits sum.splits)
next
  case True
  then obtain sub args mk created hd where c: "crq_args req = Some (sub # args)" "creator = Some mk" "mk [] = Inr created"
      "conda_handler created = Some hd"
    by blast
  define r where "r = \<lparr>ri_RunID = crq_run_id req, ri_Status = RunStatusRunning, ri_StartTime = now,
      ri_EndTime = None, ri_ExitCode = None, ri_Execution = None, ri_CancelFunc = None\<rparr>"
  define t where "t = s\<lparr>cs_infos := cs_infos s @ [r], cs_runs := (cs_runs s)(crq_run_id req \<mapsto> length (cs_infos s)),
      cs_condas := cs_condas s @ [\<lparr>cr_run = crq_run_id req, cr_info = length (cs_infos s), cr_handler = hd,
        cr_subcommand = sub, cr_args = args, cr_ids = ids, cr_streams = as, cr_phase = CoStart\<rparr>]\<rparr>"
  have "follows strict s t"
    by (rule follows_register(1) [OF assms(1), where r = r and s' = t])
      (use assms(3) c in \<open>auto simp: t_def r_def run_ok_def cancel_ok_def conda_ok_def phase_ok_def\<close>)
  moreover have "sendRunSuccess (crq_run_id req) ids t = (e, s')"
    using assms(2) c by (simp add: handleCondaOperation_def Let_def t_def r_def)
  ultimately show ?thesis using follows_send(1) follows_trans by blast
qed

lemma follows_handleRun:
  assumes "handleRun h exec creator now p s = (e, s')" "strict \<Longrightarrow> creator = None"
  shows "follows strict s s'"
proof -
  obtain r err where r: "UnmarshalPayload compute_run_request_fields (Some p) (Some no_compute_run_request) = (r, err)" by force
  define req where "req = (case r of None \<Rightarrow> no_compute_run_request | Some r \<Rightarrow> r)"
  show ?thesis
  proof (cases "err = None \<and> crq_run_id req \<noteq> [] \<and> crq_command req \<noteq> [] \<and> cs_runs s (crq_run_id req) = None")
    case False
    then show ?thesis
      using assms(1) r by (cases err) (auto simp: handleRun_def Let_def simp flip: req_def intro: follows_send(2) split: if_splits)
  next
    case True
    obtain "is" t where t: "next_ids 4 s = (is, t)" by force
    obtain q m where m: "open_streams (zip run_streams is) [] [] (ss_mux t) = (q, m)" by force
    let ?t = "t\<lparr>ss_mux := m\<rparr>"
    have st: "same_runs s t" using next_ids_same_runs [OF t] .
    have "same_runs t ?t" by (rule same_runs_refl)
    with st have su: "same_runs s ?t" by (rule same_runs_trans)
    then have free: "cs_runs ?t (crq_run_id req) = None" using True by (simp add: same_runs_def)
    have "follows strict ?t s'"
    proof (cases q)
      case (Inl msg)
      then show ?thesis using assms(1) r True t m by (intro follows_send(2)) (simp add: handleRun_def flip: req_def)
    next
      case (Inr as)
      then have "(if crq_command req = ''__conda'' then handleCondaOperation creator now req is as ?t
          else start_run h exec now req is as ?t) = (e, s')"
        using assms(1) r True t m by (cases "crq_command req = ''__conda''") (simp_all add: handleRun_def Let_def req_def)
      then show ?thesis
        using follows_conda_operation [OF free _ assms(2)] follows_start_run [OF free] by (auto split: if_splits)
    qed
    then show ?thesis using follows_trans [OF follows_same [OF su]] by blast
  qed
qed

lemma follows_run_cancel: "follows strict s (run_cancel f s)"
  by (simp add: run_cancel_def follows_exec split: cancel_func.split)

lemma run_cancel_fields [simp]:
  "cs_runs (run_cancel f s) = cs_runs s" "cs_infos (run_cancel f s) = cs_infos s"
  by (simp_all add: run_cancel_def split: cancel_func.split)

lemma follows_canceled:
  assumes "strict \<Longrightarrow> ri_Status (cs_infos s ! i) = RunStatusRunning"
  shows "follows strict s (upd_info i (\<lambda>r. r\<lparr>ri_Status := RunStatusCanceled, ri_EndTime := Some now\<rparr>) s)"
  by (rule follows_end [where st = RunStatusCanceled]) (auto simp: run_ok_def assms)

lemma follows_handleCancel:
  assumes "handleCancel between now p s = (e, s')" "\<And>t. goroutine_step\<^sup>*\<^sup>* t (between t)" "strict \<Longrightarrow> between = id"
  shows "follows strict s s'"
proof -
  obtain r err where r: "UnmarshalPayload compute_cancel_request_fields (Some p) (Some no_compute_cancel_request) = (r, err)" by force
  define k where "k = (case r of None \<Rightarrow> [] | Some r \<Rightarrow> ccq_run_id r)"
  show ?thesis
  proof (cases "\<exists>i. err = None \<and> k \<noteq> [] \<and> cs_runs s k = Some i \<and> ri_Status (cs_infos s ! i) = RunStatusRunning")
    case False
    then show ?thesis
      using assms(1) r by (cases err; cases "cs_runs s k")
        (auto simp: handleCancel_def Let_def simp flip: k_def intro: follows_send(4) split: if_splits)
  next
    case True
    then obtain i where i: "err = None" "k \<noteq> []" "cs_runs s k = Some i" "ri_Status (cs_infos s ! i) = RunStatusRunning" by blast
    let ?a = "case ri_CancelFunc (cs_infos s ! i) of None \<Rightarrow> s | Some f \<Rightarrow> run_cancel f s"
    let ?u = "upd_info i (\<lambda>r. r\<lparr>ri_Status := RunStatusCanceled, ri_EndTime := Some now\<rparr>) (between ?a)"
    let ?r = "cs_infos ?u ! i"
    let ?v = "snd (sendStatusSuccess k RunStatusCanceled (ri_ExitCode ?r) (ri_StartTime ?r) (ri_EndTime ?r) ?u)"
    have a: "follows strict s ?a" "cs_infos ?a = cs_infos s"
      by (simp_all add: follows_refl follows_run_cancel split: option.split)
    have "follows strict (between ?a) ?u"
      by (rule follows_canceled) (simp add: assms(3) a(2) i(4))
    then have "follows strict s ?u"
      using follows_trans [OF a(1) follows_trans [OF follows_goroutine_steps [OF assms(2)]]] by blast
    moreover have "follows strict ?u ?v" by (rule follows_same) (rule sends_same_runs)
    moreover have "sendCancelSuccess k ?v = (e, s')"
      using assms(1) r i by (simp add: handleCancel_def Let_def flip: k_def)
    ultimately show ?thesis using follows_trans follows_send(3) by blast
  qed
qed

lemma follows_handleStatus: "handleStatus p s = (e, s') \<Longrightarrow> follows strict s s'"
  by (auto simp: handleStatus_def Let_def intro: follows_send(5,6) split: prod.splits option.splits if_splits)

lemma follows_Close:
  assumes "cs_Close now ks as (Some s) = (e, Some s')"
  shows "follows strict s s'"
proof -
  have one: "follows strict s (close_run now k s)" for k s
  proof (cases "\<exists>i. cs_runs s k = Some i \<and> ri_Status (cs_infos s ! i) = RunStatusRunning")
    case False
    then show ?thesis by (auto simp: close_run_def follows_refl split: option.split)
  next
    case True
    then obtain i where i: "cs_runs s k = Some i" "ri_Status (cs_infos s ! i) = RunStatusRunning" by blast
    let ?u = "upd_info i (\<lambda>r. r\<lparr>ri_Status := RunStatusCanceled, ri_EndTime := Some now\<rparr>) s"
    let ?v = "case ri_CancelFunc (cs_infos ?u ! i) of None \<Rightarrow> ?u | Some f \<Rightarrow> run_cancel f ?u"
    have "follows strict s ?u" by (rule follows_canceled) (rule i(2))
    moreover have "follows strict ?u ?v" by (simp add: follows_refl follows_run_cancel split: option.split)
    ultimately have "follows strict s (emit_status (ri_RunID (cs_infos ?v ! i)) i ?v)"
      using follows_trans [OF follows_trans follows_same [OF sends_same_runs(8)]] by blast
    then show ?thesis using i by (simp add: close_run_def Let_def)
  qed
  have all: "follows strict s (fold (close_run now) ks s)" for s
    by (induction ks arbitrary: s) (auto simp: follows_refl intro: follows_trans [OF one])
  let ?f = "fold (close_run now) ks s"
  have "same_runs ?f s'"
    using assms by (auto simp: cs_Close_def bs_Close_def Let_def same_runs_def split: option.splits prod.splits)
  then show ?thesis using follows_trans [OF all follows_same] by blast
qed

lemma follows_step: "compute_step strict s s' \<Longrightarrow> follows strict s s'"
proof (induction rule: compute_step.induct)
  case (request h exec creator between now p s e s')
  then show ?case
    using follows_handleRun follows_handleCancel [OF _ request(2)] follows_handleStatus follows_refl
    by (fastforce simp: cs_Dispatch_def split: if_splits)
next
  case (transport s m c)
  show ?case by (rule follows_same) (simp add: same_runs_def)
qed (simp_all add: follows_goroutine_step follows_Close)

lemma new_server_ok: "cs_NewServer c = Some s \<Longrightarrow> sys_ok strict s \<and> statuses s = Map.empty"
  by (auto simp: cs_NewServer_def sys_ok_def cs_ok_def base_server.defs statuses_def [abs_def] split: option.splits)

section \<open>Every reachable server\<close>

lemma reach_follows:
  assumes "compute_reach strict s"
  shows "sys_ok strict s" "(lifecycle strict)\<^sup>*\<^sup>* Map.empty (statuses s)"
proof -
  obtain c s0 where s0: "cs_NewServer c = Some s0" "(compute_step strict)\<^sup>*\<^sup>* s0 s"
    using assms by (auto simp: compute_reach_def)
  from s0(2) have "follows strict s0 s"
    by (induction rule: rtranclp_induct) (auto intro: follows_refl follows_trans follows_step)
  then show "sys_ok strict s" "(lifecycle strict)\<^sup>*\<^sup>* Map.empty (statuses s)"
    using new_server_ok [OF s0(1)] by (auto simp: follows_def)
qed

lemma reach_step: "compute_reach strict s \<Longrightarrow> compute_step strict s s' \<Longrightarrow> compute_reach strict s'"
  unfolding compute_reach_def by (meson rtranclp.rtrancl_into_rtrancl)

text \<open>In a strict life cycle a status other than running stays.\<close>

lemma lifecycle_final:
  assumes "(lifecycle True)\<^sup>*\<^sup>* m m'" "m k = Some st" "st \<noteq> RunStatusRunning"
  shows "m' k = Some st"
  using assms by (induction rule: rtranclp_induct) (auto elim!: lifecycle.cases split: if_splits)

text \<open>Never is an ended run running again.\<close>

lemma lifecycle_no_return:
  assumes "(lifecycle strict)\<^sup>*\<^sup>* m m'" "m k = Some st" "st \<noteq> RunStatusRunning"
  shows "\<exists>st'. m' k = Some st' \<and> st' \<noteq> RunStatusRunning"
  using assms by (induction rule: rtranclp_induct) (auto elim!: lifecycle.cases split: if_splits)

end
