(* ===== verification/Compute_Start.thy ===== *)
theory Compute_Start
  imports Compute_Runs
begin

text \<open>
  What the client sees of the requests of a run: a run request opens four streams, starts the command and
  is answered with the streams; status and cancel requests and the monitor answer with the run's state.
\<close>

section \<open>Four streams\<close>

text \<open>The numbers are those after the counter, 0 left out.\<close>

definition id_after :: "u32 \<Rightarrow> u32" where
  "id_after i = (if i + 1 = 0 then 1 else i + 1)"

lemma unat_id_after: "i \<noteq> 0 \<Longrightarrow> unat (id_after i) = (if unat i = 4294967295 then 1 else unat i + 1)"
proof -
  assume "i \<noteq> 0"
  have "unat (i + 1) = (unat i + 1) mod 4294967296" by (simp add: unat_word_ariths)
  moreover have "unat i < 4294967296" using unat_u32 [of i] by simp
  moreover have "i + 1 = 0 \<longleftrightarrow> unat (i + 1) = 0" by (simp add: unat_eq_0)
  ultimately show ?thesis by (auto simp: id_after_def split: if_splits)
qed

lemma id_after_nonzero [simp]: "id_after i \<noteq> 0"
  by (simp add: id_after_def)

lemma next_ids_4:
  assumes "next_ids 4 s = (is, t)"
  shows "distinct is" "0 \<notin> set is" "length is = 4" "same_runs s t" "ss_mux t = ss_mux s" "ss_ctrl t = ss_ctrl s"
proof -
  define a where "a = (if bs_streamIDCounter s = 0 then 1 else bs_streamIDCounter s)"
  have first: "NextStreamID s = (a, s\<lparr>bs_streamIDCounter := a + 1\<rparr>)" by (simp add: NextStreamID_def Let_def a_def)
  define b where "b = id_after a"
  define c where "c = id_after b"
  define d where "d = id_after c"
  have step: "NextStreamID (s\<lparr>bs_streamIDCounter := x + 1\<rparr>) = (id_after x, s\<lparr>bs_streamIDCounter := id_after x + 1\<rparr>)" for x
    by (simp add: NextStreamID_def Let_def id_after_def)
  have four: "next_ids 4 s = next_ids (Suc (Suc (Suc (Suc 0)))) s" by (simp add: numeral_eq_Suc)
  have r: "is = [a, b, c, d]" "t = s\<lparr>bs_streamIDCounter := d + 1\<rparr>"
    using assms unfolding four by (simp_all add: first step b_def c_def d_def)
  have nz: "a \<noteq> 0" "b \<noteq> 0" "c \<noteq> 0" "d \<noteq> 0" by (simp_all add: a_def b_def c_def d_def)
  have "unat a \<noteq> unat b \<and> unat a \<noteq> unat c \<and> unat a \<noteq> unat d \<and> unat b \<noteq> unat c \<and> unat b \<noteq> unat d \<and> unat c \<noteq> unat d"
    using nz unat_id_after [of a] unat_id_after [of b] unat_id_after [of c] by (auto simp flip: b_def c_def d_def)
  then show "distinct is" using r by auto
  show "0 \<notin> set is" "length is = 4" "same_runs s t" "ss_mux t = ss_mux s" "ss_ctrl t = ss_ctrl s"
    using r nz by (simp_all add: same_runs_def)
qed

lemma open_streams_new:
  assumes "\<not> m_closed m" "distinct (map snd r)" "\<forall>i \<in> snd ` set r. i \<noteq> 0 \<and> streams m i = None"
  shows "\<exists>m'. open_streams r opened as m = (Inr (as @ [length (objs m)..<length (objs m) + length r]), m')
    \<and> objs m' = objs m @ map fresh_stream (map snd r) \<and> m_conn m' = m_conn m \<and> m_closed m' = m_closed m
    \<and> (\<forall>j < length r. streams m' (snd (r ! j)) = Some (length (objs m) + j))
    \<and> (\<forall>i. i \<notin> snd ` set r \<longrightarrow> streams m' i = streams m i)"
  using assms
proof (induction r arbitrary: opened as m)
  case (Cons ni r)
  obtain n i where ni: "ni = (n, i)" by force
  obtain m1 where m1: "OpenStreamWithID i m = (Inr (length (objs m)), m1)" "streams m1 = (streams m)(i \<mapsto> length (objs m))"
      "objs m1 = objs m @ [fresh_stream i]" "m_conn m1 = m_conn m" "m_closed m1 = m_closed m"
    using OpenStreamWithID_new [of m i] Cons.prems ni by auto
  have "\<exists>m'. open_streams r (opened @ [i]) (as @ [length (objs m)]) m1
        = (Inr ((as @ [length (objs m)]) @ [length (objs m1)..<length (objs m1) + length r]), m')
    \<and> objs m' = objs m1 @ map fresh_stream (map snd r) \<and> m_conn m' = m_conn m1 \<and> m_closed m' = m_closed m1
    \<and> (\<forall>j < length r. streams m' (snd (r ! j)) = Some (length (objs m1) + j))
    \<and> (\<forall>i. i \<notin> snd ` set r \<longrightarrow> streams m' i = streams m1 i)"
    using Cons.prems ni m1 by (intro Cons.IH) auto
  then obtain m' where m': "open_streams r (opened @ [i]) (as @ [length (objs m)]) m1
        = (Inr ((as @ [length (objs m)]) @ [length (objs m1)..<length (objs m1) + length r]), m')"
      "objs m' = objs m1 @ map fresh_stream (map snd r)" "m_conn m' = m_conn m1" "m_closed m' = m_closed m1"
      "\<forall>j < length r. streams m' (snd (r ! j)) = Some (length (objs m1) + j)"
      "\<forall>i. i \<notin> snd ` set r \<longrightarrow> streams m' i = streams m1 i"
    by blast
  have "streams m' i = Some (length (objs m))" using m'(6) m1(2) Cons.prems(2) ni by (auto simp: image_iff)
  then have "streams m' (snd ((ni # r) ! j)) = Some (length (objs m) + j)" if "j < length (ni # r)" for j
    using that m'(5) m1(3) ni by (cases j) auto
  moreover have "[length (objs m)..<length (objs m) + length (ni # r)] = length (objs m) # [length (objs m1)..<length (objs m1) + length r]"
    using m1(3) by (simp add: upt_rec)
  ultimately show ?case using m1 m' ni by (intro exI [of _ m']) simp
qed simp

lemma can_send_more:
  assumes "can_send s" "objs m = objs (ss_mux s) @ xs" "m_conn m = m_conn (ss_mux s)" "m_closed m = m_closed (ss_mux s)"
    and "ss_mux d = m" "ss_ctrl d = ss_ctrl s"
  shows "can_send d" "sent_frames (ss_mux d) = sent_frames (ss_mux s)"
    "writer_id (ss_ctrl d) (ss_mux d) = writer_id (ss_ctrl s) (ss_mux s)"
  using assms by (auto simp: can_send_def framed_def sent_frames_def nth_append writer_id_def)

lemma ran_json_small:
  assumes "length i \<le> 10000" "length e \<le> 5000"
  shows "length (json_text (compute_run_response_to_json
    \<lparr>crr_run_id = i, crr_accepted = b, crr_stdin_id = n0, crr_stdout_id = n1, crr_stderr_id = n2, crr_log_id = n3, crr_error = e\<rparr>)) \<le> 100000"
  using assms length_json_quote [of i] length_json_quote [of e] length_show_u32 [of n0] length_show_u32 [of n1]
    length_show_u32 [of n2] length_show_u32 [of n3]
  by (simp add: compute_run_response_to_json_def struct_simps(1-3) jnat_def)
    (simp add: json_quote_def json_esc.simps esc_ascii_def)

section \<open>A run request\<close>

lemma ran_reply:
  assumes "can_send s" "valid_utf8 i" "valid_utf8 e" "length i \<le> 10000" "length e \<le> 5000"
  shows "\<exists>p c. reply (NewComputeRunResponsePacket i b n0 n1 n2 n3 e) s = (None, s\<lparr>ss_mux := (ss_mux s)\<lparr>m_conn := c\<rparr>\<rparr>)
    \<and> packet_sent p s (s\<lparr>ss_mux := (ss_mux s)\<lparr>m_conn := c\<rparr>\<rparr>)
    \<and> answers compute_run_response_fields no_compute_run_response HandshakeTypeComputeRunResponse
        \<lparr>crr_run_id = i, crr_accepted = b, crr_stdin_id = n0, crr_stdout_id = n1, crr_stderr_id = n2,
         crr_log_id = n3, crr_error = e\<rparr> p"
  using compute_ran.reply_message [OF assms(1), of "\<lparr>crr_run_id = i, crr_accepted = b, crr_stdin_id = n0,
      crr_stdout_id = n1, crr_stderr_id = n2, crr_log_id = n3, crr_error = e\<rparr>"]
    ran_json_small [OF assms(4,5)] assms(2,3)
  by (simp add: NewComputeRunResponsePacket_def compute_run_response_ok_def HandshakeTypeComputeRunResponse_def)

text \<open>What the executor is asked for.\<close>

definition requested :: "host \<Rightarrow> compute_run_request \<Rightarrow> addr \<Rightarrow> raw_execution_request" where
  "requested h req stdin = \<lparr>er_Command = crq_command req, er_Args = (case crq_args req of None \<Rightarrow> [] | Some l \<Rightarrow> l),
     er_Env = PrepareExecutionEnvironment h (map_of (case crq_env req of None \<Rightarrow> [] | Some kvs \<Rightarrow> kvs)),
     er_WorkingDir = crq_working_dir req, er_Stdin = Some stdin\<rparr>"

text \<open>A request the server accepts: a new identifier, an ordinary command, unused stream numbers.\<close>

definition run_request_ok :: "handshake \<Rightarrow> compute_run_request \<Rightarrow> compute_server \<Rightarrow> bool" where
  "run_request_ok p req s \<longleftrightarrow> h_type p = HandshakeTypeComputeRun
     \<and> UnmarshalPayload compute_run_request_fields (Some p) (Some no_compute_run_request) = (Some req, None)
     \<and> crq_run_id req \<noteq> [] \<and> valid_utf8 (crq_run_id req) \<and> length (crq_run_id req) \<le> 10000
     \<and> crq_command req \<noteq> [] \<and> crq_command req \<noteq> ''__conda''
     \<and> cs_runs s (crq_run_id req) = None \<and> (\<forall>i \<in> set (fst (next_ids 4 s)). streams (ss_mux s) i = None)"

text \<open>
  \<open>s'\<close> has the run of the request with execution \<open>x\<close>: four new streams under the identifiers \<open>ids\<close>, the
  two forwarders on the second and third, the log on the fourth, and a monitor.
\<close>

definition running_since :: "bytes \<Rightarrow> bytes \<Rightarrow> raw_execution \<Rightarrow> u32 list \<Rightarrow> compute_server \<Rightarrow> compute_server \<Rightarrow> bool" where
  "running_since now k x ids s s' \<longleftrightarrow> (let a = length (objs (ss_mux s)); e = length (cs_execs s) in
     length ids = 4 \<and> distinct ids \<and> 0 \<notin> set ids \<and> (\<forall>j < 4. GetStream (ids ! j) (ss_mux s') = Inr (a + j))
     \<and> cs_runs s' = (cs_runs s)(k \<mapsto> length (cs_infos s))
     \<and> cs_infos s' = cs_infos s @ [\<lparr>ri_RunID = k, ri_Status = RunStatusRunning, ri_StartTime = now, ri_EndTime = None,
          ri_ExitCode = None, ri_Execution = Some e, ri_CancelFunc = Some (CancelContext e)\<rparr>]
     \<and> cs_execs s' = cs_execs s @ [x\<lparr>ex_RunID := k\<rparr>]
     \<and> cs_forwards s' = cs_forwards s @ [\<lparr>of_exec = e, of_stderr = False, of_stream = a + 1, of_log = a + 3, of_run = k, of_done = False\<rparr>,
          \<lparr>of_exec = e, of_stderr = True, of_stream = a + 2, of_log = a + 3, of_run = k, of_done = False\<rparr>]
     \<and> cs_closers s' = cs_closers s @ [\<lparr>lc_first = length (cs_forwards s), lc_log = a + 3, lc_done = False\<rparr>]
     \<and> cs_monitors s' = cs_monitors s @ [\<lparr>mo_run = k, mo_exec = e, mo_phase = MoDone\<rparr>] \<and> cs_condas s' = cs_condas s)"

lemma run_started_ok:
  assumes "can_send s" "run_request_ok p req s" "exec (requested h req (length (objs (ss_mux s)))) = Inr x"
  shows "\<exists>ids s' pk. cs_Dispatch h exec creator between now p s = (None, s') \<and> running_since now (crq_run_id req) x ids s s'
    \<and> packet_sent pk s s' \<and> answers compute_run_response_fields no_compute_run_response HandshakeTypeComputeRunResponse
        \<lparr>crr_run_id = crq_run_id req, crr_accepted = True, crr_stdin_id = ids ! 0, crr_stdout_id = ids ! 1,
         crr_stderr_id = ids ! 2, crr_log_id = ids ! 3, crr_error = []\<rparr> pk"
proof -
  let ?k = "crq_run_id req" and ?a = "length (objs (ss_mux s))" and ?e = "length (cs_execs s)"
  note q = assms(2) [unfolded run_request_ok_def]
  obtain ids t where ids: "next_ids 4 s = (ids, t)" by force
  note n = next_ids_4 [OF ids]
  let ?r = "zip run_streams ids"
  have r: "map snd ?r = ids" "length ?r = 4" using n(3) by (simp_all add: run_streams_def)
  have snds: "snd ` set ?r = set ids" using r(1) by (metis set_map)
  have open_mux: "\<not> m_closed (ss_mux s)" using assms(1) by (simp add: can_send_def)
  have free: "\<forall>i \<in> snd ` set ?r. i \<noteq> 0 \<and> streams (ss_mux s) i = None" using snds n(2) q ids by auto
  have rlen: "length run_streams = 4" by (simp add: run_streams_def)
  obtain m where m: "open_streams ?r [] [] (ss_mux s) = (Inr [?a..<?a + 4], m)"
      "objs m = objs (ss_mux s) @ map fresh_stream ids" "m_conn m = m_conn (ss_mux s)" "m_closed m = m_closed (ss_mux s)"
      "\<forall>j < 4. streams m (snd (?r ! j)) = Some (?a + j)"
    using open_streams_new [OF open_mux _ free, of "[]" "[]"] n(1,3) r rlen by auto
  have str: "streams m (ids ! j) = Some (?a + j)" if "j < 4" for j
    using m(5) that r n(3) by (metis nth_map)
  have at: "[?a..<?a + 4] = [?a, ?a + 1, ?a + 2, ?a + 3]" by (simp add: upt_rec)
  define u where "u = t\<lparr>ss_mux := m, cs_execs := cs_execs s @ [x\<lparr>ex_RunID := ?k\<rparr>],
     cs_infos := cs_infos s @ [\<lparr>ri_RunID = ?k, ri_Status = RunStatusRunning, ri_StartTime = now,
       ri_EndTime = None, ri_ExitCode = None, ri_Execution = Some ?e, ri_CancelFunc = Some (CancelContext ?e)\<rparr>],
     cs_runs := (cs_runs s)(?k \<mapsto> length (cs_infos s)),
     cs_forwards := cs_forwards s @ [\<lparr>of_exec = ?e, of_stderr = False, of_stream = ?a + 1, of_log = ?a + 3, of_run = ?k, of_done = False\<rparr>,
       \<lparr>of_exec = ?e, of_stderr = True, of_stream = ?a + 2, of_log = ?a + 3, of_run = ?k, of_done = False\<rparr>],
     cs_closers := cs_closers s @ [\<lparr>lc_first = length (cs_forwards s), lc_log = ?a + 3, lc_done = False\<rparr>],
     cs_monitors := cs_monitors s @ [\<lparr>mo_run = ?k, mo_exec = ?e, mo_phase = MoDone\<rparr>]\<rparr>"
  note cs = can_send_more [OF assms(1) m(2-4), of u]
  have u: "ss_mux u = m" "ss_ctrl u = ss_ctrl s" using n(6) by (simp_all add: u_def)
  obtain pk c where pk: "reply (NewComputeRunResponsePacket ?k True (ids ! 0) (ids ! 1) (ids ! 2) (ids ! 3) []) u
        = (None, u\<lparr>ss_mux := (ss_mux u)\<lparr>m_conn := c\<rparr>\<rparr>)" "packet_sent pk u (u\<lparr>ss_mux := (ss_mux u)\<lparr>m_conn := c\<rparr>\<rparr>)"
      "answers compute_run_response_fields no_compute_run_response HandshakeTypeComputeRunResponse
        \<lparr>crr_run_id = ?k, crr_accepted = True, crr_stdin_id = ids ! 0, crr_stdout_id = ids ! 1,
         crr_stderr_id = ids ! 2, crr_log_id = ids ! 3, crr_error = []\<rparr> pk"
    using ran_reply [OF cs(1) [OF u], of ?k "[]" True "ids ! 0" "ids ! 1" "ids ! 2" "ids ! 3"] q
    by (auto simp: valid_utf8.simps(1))
  let ?s' = "u\<lparr>ss_mux := (ss_mux u)\<lparr>m_conn := c\<rparr>\<rparr>"
  note same = n(4) [unfolded same_runs_def]
  have "start_run h exec now req ids [?a..<?a + 4] (t\<lparr>ss_mux := m\<rparr>) = (None, ?s')"
    using assms(3) pk(1) same
    by (simp add: start_run_def requested_def at Let_def sendRunSuccess_def forward_of_def u_def)
  then have "cs_Dispatch h exec creator between now p s = (None, ?s')"
    using q ids m(1) n(5) by (simp add: cs_Dispatch_def handleRun_def Let_def)
  moreover have "running_since now ?k x ids s ?s'"
    using n(1-3) str same u by (simp add: running_since_def Let_def GetStream_def) (simp add: u_def)
  moreover have "packet_sent pk s ?s'"
    by (rule packet_sent_from [OF pk(2)]) (use cs(2,3) [OF u] in simp_all)
  ultimately show ?thesis using pk(3) by blast
qed

text \<open>A new server, a request for it and an execution.\<close>

definition sample_compute :: compute_server where
  "sample_compute = \<lparr>ss_mux = \<lparr>m_conn = conn_of [], objs = [fresh_stream 0], streams = [0 \<mapsto> 0], nextID = 1,
     m_closed = False, readErr = None\<rparr>, ss_ctrl = 0, ss_control = NewControlPlane True, bs_clientID = [],
     bs_handshakeDone = False, bs_streamIDCounter = 0, cs_runs = Map.empty, cs_infos = [], cs_execs = [],
     cs_forwards = [], cs_closers = [], cs_monitors = [], cs_condas = []\<rparr>"

lemma sample_compute_new: "cs_NewServer (Some (conn_of [])) = Some sample_compute"
  by (simp add: cs_NewServer_def NewBaseServer_def new_session_def NewMultiplexer_def ControlStream_def newStream_def
      sample_compute_def session.defs base_server.defs)

lemma sample_compute_sends: "can_send sample_compute"
  by (rule fresh_can_send(1) [of "conn_of []"])
    (simp_all add: fresh_session_def sample_compute_def conn_of_def writable_def)

definition sample_run :: compute_run_request where
  "sample_run = \<lparr>crq_run_id = ''r1'', crq_command = ''ls'', crq_args = Some [''-l''], crq_env = None, crq_working_dir = []\<rparr>"

definition run_handshake :: "compute_run_request \<Rightarrow> handshake" where
  "run_handshake req = \<lparr>h_type = HandshakeTypeComputeRun, h_payload = Some (compute_run_request_to_json req)\<rparr>"

definition sample_execution :: raw_execution where
  "sample_execution = \<lparr>ex_RunID = ''x'', ex_Stdin = pipe, ex_Stdout = pipe, ex_Stderr = pipe, ex_Done = new_chan,
     ex_ExitCode = new_chan, ex_cancelled = False, ex_feed = None, ex_waiting = True, ex_full = True\<rparr>"

lemma run_handshake_payload:
  "compute_run_request_ok req \<Longrightarrow>
   UnmarshalPayload compute_run_request_fields (Some (run_handshake req)) (Some no_compute_run_request) = (Some req, None)"
  using compute_run_request_msg.decode [of req] by (simp add: run_handshake_def UnmarshalPayload_def)

lemma sample_run_ok: "run_request_ok (run_handshake sample_run) sample_run sample_compute"
proof -
  have "UnmarshalPayload compute_run_request_fields (Some (run_handshake sample_run)) (Some no_compute_run_request) = (Some sample_run, None)"
    by (rule run_handshake_payload) (simp add: sample_run_def compute_run_request_ok_def valid_utf8_ascii valid_utf8.simps(1))
  moreover have "\<forall>i \<in> set (fst (next_ids 4 sample_compute)). streams (ss_mux sample_compute) i = None"
    using next_ids_4(2) [of sample_compute] by (cases "next_ids 4 sample_compute") (auto simp: sample_compute_def)
  ultimately show ?thesis
    by (simp add: run_request_ok_def) (simp add: run_handshake_def sample_run_def sample_compute_def valid_utf8_ascii)
qed

text \<open>
  A run request with a new identifier, an ordinary command and free stream numbers is accepted: the
  server opens four new streams under distinct identifiers, starts the command with the prepared environment
  and the first stream as its input, registers the run as running with its two forwarders, the log closer
  and the monitor, and sends one answer, which the client decodes to the four identifiers.
\<close>

theorem run_started:
  assumes "can_send s" "run_request_ok p req s" "exec (requested h req (length (objs (ss_mux s)))) = Inr x"
  shows "\<exists>ids s' pk. cs_Dispatch h exec creator between now p s = (None, s') \<and> running_since now (crq_run_id req) x ids s s'
    \<and> packet_sent pk s s' \<and> answers compute_run_response_fields no_compute_run_response HandshakeTypeComputeRunResponse
        \<lparr>crr_run_id = crq_run_id req, crr_accepted = True, crr_stdin_id = ids ! 0, crr_stdout_id = ids ! 1,
         crr_stderr_id = ids ! 2, crr_log_id = ids ! 3, crr_error = []\<rparr> pk"
  by (rule run_started_ok [OF assms(1,2), of exec, OF assms(3)])

theorem run_started_witness:
  "\<exists>ids s' pk. cs_Dispatch sample_host (\<lambda>_. Inr sample_execution) None id ''now'' (run_handshake sample_run) sample_compute = (None, s')
    \<and> running_since ''now'' ''r1'' sample_execution ids sample_compute s' \<and> packet_sent pk sample_compute s'"
  using run_started [OF sample_compute_sends sample_run_ok, of "\<lambda>_. Inr sample_execution" sample_host sample_execution None id "''now''"]
  by (auto simp: sample_run_def)

section \<open>Every reachable server\<close>

lemma sample_reach:
  "\<exists>s. compute_reach strict s \<and> statuses s ''r1'' = Some RunStatusRunning \<and> cs_runs s ''r1'' = Some 0"
proof -
  from run_started_ok [OF sample_compute_sends sample_run_ok, of "\<lambda>_. Inr sample_execution" sample_host sample_execution None id "''now''"]
  obtain ids s' where s': "cs_Dispatch sample_host (\<lambda>_. Inr sample_execution) None id ''now'' (run_handshake sample_run) sample_compute = (None, s')"
      "running_since ''now'' ''r1'' sample_execution ids sample_compute s'"
    by (auto simp: sample_run_def)
  have "compute_step strict sample_compute s'" by (rule compute_step.request [OF s'(1)]) simp_all
  then have "compute_reach strict s'" unfolding compute_reach_def using sample_compute_new by blast
  moreover have "cs_runs s' ''r1'' = Some 0" "statuses s' ''r1'' = Some RunStatusRunning"
    using s'(2) by (simp_all add: running_since_def Let_def statuses_def) (simp_all add: sample_compute_def)
  ultimately show ?thesis by blast
qed

lemma close_run_cancels:
  assumes "cs_ok s" "statuses s k = Some RunStatusRunning"
  shows "statuses (close_run now k s) k = Some RunStatusCanceled"
proof -
  obtain i where i: "cs_runs s k = Some i" "ri_Status (cs_infos s ! i) = RunStatusRunning"
    using assms(2) by (auto simp: statuses_def)
  then have "i < length (cs_infos s)" using cs_okD(1) [OF assms(1)] by blast
  with i show ?thesis
    by (auto simp: close_run_def Let_def statuses_def emit_fields split: option.split) (auto simp: upd_info_def)
qed

lemma sample_ended:
  "\<exists>s. compute_reach strict s \<and> statuses s ''r1'' = Some RunStatusCanceled"
proof -
  obtain s where s: "compute_reach strict s" "statuses s ''r1'' = Some RunStatusRunning"
    using sample_reach by blast
  have "snd (cs_Close ''now'' [''r1''] [] (Some s)) \<noteq> None"
    by (simp add: cs_Close_def bs_Close_def Let_def split: option.split prod.split)
  then obtain e t where t: "cs_Close ''now'' [''r1''] [] (Some s) = (e, Some t)"
    by (cases "cs_Close ''now'' [''r1''] [] (Some s)") auto
  have "same_runs (close_run ''now'' ''r1'' s) t"
    using t by (auto simp: cs_Close_def bs_Close_def Let_def same_runs_def split: option.splits prod.splits)
  moreover have "cs_ok s" using reach_follows(1) [OF s(1)] by (simp add: sys_ok_def)
  ultimately have "statuses t ''r1'' = Some RunStatusCanceled"
    using close_run_cancels s(2) same_statuses by metis
  moreover have "compute_reach strict t" by (rule reach_step [OF s(1) compute_step.shutdown [OF t]])
  ultimately show ?thesis by blast
qed

text \<open>
  C8: In every reachable compute server the goroutines and the run map refer to existing objects, a run is
  registered under its own identifier, it has an end time exactly when it is no longer running, and no exit
  code before.
\<close>

theorem runs_well_formed:
  assumes "compute_reach strict s"
  shows "cs_ok s \<and> (\<forall>k i. cs_runs s k = Some i \<longrightarrow> i < length (cs_infos s) \<and> ri_RunID (cs_infos s ! i) = k
    \<and> (ri_EndTime (cs_infos s ! i) = None \<longleftrightarrow> ri_Status (cs_infos s ! i) = RunStatusRunning)
    \<and> (ri_Status (cs_infos s ! i) = RunStatusRunning \<longrightarrow> ri_ExitCode (cs_infos s ! i) = None))"
  using reach_follows(1) [OF assms] by (auto simp: sys_ok_def cs_ok_def run_ok_def)

theorem runs_well_formed_witness:
  "\<exists>s. compute_reach True s \<and> cs_runs s ''r1'' = Some 0 \<and> cs_ok s"
  using sample_reach [of True] runs_well_formed [of True] by blast



text \<open>
  A run that has ended stays ended: no later history of the server makes it running again, and without
  conda operations and interleavings inside a cancel request its status never changes.
\<close>

theorem ended_runs_stay:
  assumes "compute_reach strict s" "(compute_step strict)\<^sup>*\<^sup>* s s'" "statuses s k = Some st" "st \<noteq> RunStatusRunning"
  shows "\<exists>st'. statuses s' k = Some st' \<and> st' \<noteq> RunStatusRunning \<and> (strict \<longrightarrow> st' = st)"
proof -
  have "follows strict s s'"
    using assms(2) by (induction rule: rtranclp_induct) (auto intro: follows_refl follows_trans follows_step)
  then have l: "(lifecycle strict)\<^sup>*\<^sup>* (statuses s) (statuses s')" using reach_follows(1) [OF assms(1)] by (simp add: follows_def)
  show ?thesis
  proof (cases strict)
    case True
    then have "(lifecycle True)\<^sup>*\<^sup>* (statuses s) (statuses s')" using l by (simp only: True)
    from lifecycle_final [of "statuses s" "statuses s'" k st, OF this assms(3,4)] show ?thesis using assms(4) by blast
  next
    case False
    then show ?thesis using lifecycle_no_return [of strict "statuses s" "statuses s'" k st, OF l assms(3,4)] by blast
  qed
qed

theorem ended_runs_stay_witness:
  "\<exists>s. compute_reach True s \<and> statuses s ''r1'' = Some RunStatusCanceled
    \<and> (\<forall>s'. (compute_step True)\<^sup>*\<^sup>* s s' \<longrightarrow> statuses s' ''r1'' = Some RunStatusCanceled)"
proof -
  obtain s where s: "compute_reach True s" "statuses s ''r1'' = Some RunStatusCanceled" using sample_ended by blast
  have "statuses s' ''r1'' = Some RunStatusCanceled" if "(compute_step True)\<^sup>*\<^sup>* s s'" for s'
    using ended_runs_stay [OF s(1) that s(2)] by auto
  with s show ?thesis by blast
qed

end
