(* ===== verification/Compute_Output.thy ===== *)
theory Compute_Output
  imports Compute_Start
begin

text \<open>
  The output of a command on its way to the client, and the end of a run: what the forwarders put on the
  output and log streams, what the monitor reports, and where the report is wrong.
\<close>

section \<open>One forwarder\<close>

text \<open>Forwarder \<open>f\<close> is active, and where it reads.\<close>

definition output_name :: "output_forward \<Rightarrow> bytes" where
  "output_name fo = (if of_stderr fo then ''stderr'' else ''stdout'')"

definition output_of :: "nat \<Rightarrow> compute_server \<Rightarrow> conn" where
  "output_of f s = (let fo = cs_forwards s ! f; x = cs_execs s ! of_exec fo in if of_stderr fo then ex_Stderr x else ex_Stdout x)"

definition forwarding :: "nat \<Rightarrow> output_forward \<Rightarrow> compute_server \<Rightarrow> bool" where
  "forwarding f fo s \<longleftrightarrow> f < length (cs_forwards s) \<and> cs_forwards s ! f = fo \<and> \<not> of_done fo \<and> of_exec fo < length (cs_execs s)
     \<and> sendable (of_stream fo) (ss_mux s) \<and> sendable (of_log fo) (ss_mux s) \<and> length (of_run fo) \<le> 10000
     \<and> of_stream fo \<noteq> of_log fo \<and> writer_id (of_stream fo) (ss_mux s) \<noteq> writer_id (of_log fo) (ss_mux s)"

lemma forward_step_round:
  assumes "forwarding f fo s" "forward_round now (output_name fo) fo (output_of f s, ss_mux s) = (go, c, m)"
  shows "output_of f (forward_step now f s) = c"
    "go \<Longrightarrow> ss_mux (forward_step now f s) = m \<and> cs_forwards (forward_step now f s) = cs_forwards s"
    "\<not> go \<Longrightarrow> ss_mux (forward_step now f s) = snd (stream_Close (of_stream fo) m)
       \<and> of_done (cs_forwards (forward_step now f s) ! f)"
    "length (cs_execs (forward_step now f s)) = length (cs_execs s)"
  using assms
  by (auto simp: forwarding_def output_name_def output_of_def forward_step_def forwardStdout_def forwardStderr_def Let_def
      upd_exec_def split: if_splits prod.splits)

lemma length_log_line:
  "length now \<le> 1000 \<Longrightarrow> length i \<le> 10000 \<Longrightarrow> length n \<le> 100 \<Longrightarrow> length d \<le> 4096 \<Longrightarrow> length (log_line now i n d) < 2 ^ 32"
  using length_json_quote [of now] length_json_quote [of i] length_json_quote [of n] length_json_quote [of d]
  by (simp add: log_line_def) (simp add: json_quote_def json_esc.simps esc_ascii_def)

text \<open>A round with data sends one frame on the output stream and one line on the log.\<close>

lemma forward_round_data:
  assumes f: "forwarding f fo s" and c: "conn_live (output_of f s)" "conn_pending (output_of f s) \<noteq> []" and now: "length now \<le> 1000"
  shows "\<exists>b. b \<noteq> [] \<and> conn_pending (output_of f s) = b @ conn_pending (output_of f (forward_step now f s))
    \<and> conn_live (output_of f (forward_step now f s)) \<and> fin (output_of f (forward_step now f s)) = fin (output_of f s)
    \<and> forwarding f fo (forward_step now f s)
    \<and> sent_frames (ss_mux (forward_step now f s)) = sent_frames (ss_mux s)
        @ [(writer_id (of_stream fo) (ss_mux s), b), (writer_id (of_log fo) (ss_mux s), log_line now (of_run fo) (output_name fo) b)]
    \<and> (\<forall>d. writer_id d (ss_mux (forward_step now f s)) = writer_id d (ss_mux s))"
proof -
  have "0 < outputBuf" by (simp add: outputBuf_def)
  then obtain b c' where b: "conn_read outputBuf (output_of f s) = (RdData b, c')" "b \<noteq> []" "length b \<le> outputBuf"
      "conn_pending (output_of f s) = b @ conn_pending c'" "conn_live c'" "same_out (output_of f s) c'"
    using conn_read_some [OF c(1) _ c(2)] by blast
  have "length b < 2 ^ 32" using b(3) by (simp add: outputBuf_def)
  moreover have "sendable (of_stream fo) (ss_mux s)" using f by (simp add: forwarding_def)
  ultimately obtain k where k: "stream_Write (of_stream fo) b (ss_mux s) = ((length b, None), (ss_mux s)\<lparr>m_conn := k\<rparr>)"
      "\<forall>d. sendable d (ss_mux s) \<longrightarrow> sendable d ((ss_mux s)\<lparr>m_conn := k\<rparr>)"
      "sent_frames ((ss_mux s)\<lparr>m_conn := k\<rparr>) = sent_frames (ss_mux s) @ [(writer_id (of_stream fo) (ss_mux s), b)]"
    using sendable_frame by blast
  let ?l = "log_line now (of_run fo) (output_name fo) b"
  have "length ?l < 2 ^ 32"
    using f b(3) now by (intro length_log_line) (simp_all add: forwarding_def output_name_def outputBuf_def)
  moreover have "sendable (of_log fo) ((ss_mux s)\<lparr>m_conn := k\<rparr>)" using f k(2) by (simp add: forwarding_def)
  ultimately obtain k' where k': "stream_Write (of_log fo) ?l ((ss_mux s)\<lparr>m_conn := k\<rparr>) = ((length ?l, None), (ss_mux s)\<lparr>m_conn := k'\<rparr>)"
      "\<forall>d. sendable d ((ss_mux s)\<lparr>m_conn := k\<rparr>) \<longrightarrow> sendable d ((ss_mux s)\<lparr>m_conn := k'\<rparr>)"
      "sent_frames ((ss_mux s)\<lparr>m_conn := k'\<rparr>) = sent_frames ((ss_mux s)\<lparr>m_conn := k\<rparr>) @ [(writer_id (of_log fo) (ss_mux s), ?l)]"
    using sendable_frame [of "of_log fo" "(ss_mux s)\<lparr>m_conn := k\<rparr>" ?l] by auto
  have "forward_round now (output_name fo) fo (output_of f s, ss_mux s) = (True, c', (ss_mux s)\<lparr>m_conn := k'\<rparr>)"
    using b(1,2) k(1) k'(1) by (simp add: forward_round_def writeLogEntry_def)
  note step = forward_step_round [OF f this]
  have "forwarding f fo (forward_step now f s)"
    using f step(2,4) k(2) k'(2) by (simp add: forwarding_def)
  then show ?thesis
    using b step k(3) k'(3) by (intro exI [of _ b]) (auto simp: same_out_def)
qed

lemma forward_round_end:
  assumes f: "forwarding f fo s" and c: "conn_live (output_of f s)" "conn_pending (output_of f s) = []" "fin (output_of f s) = Some EOF"
  shows "of_done (cs_forwards (forward_step now f s) ! f) \<and> s_closed (objs (ss_mux (forward_step now f s)) ! of_stream fo)
    \<and> sent_frames (ss_mux (forward_step now f s)) = sent_frames (ss_mux s) @ [(writer_id (of_stream fo) (ss_mux s), [])]"
proof -
  have "inbox (output_of f s) = []" using c(1,2) by (cases "inbox (output_of f s)") (auto simp: conn_live_def conn_pending_def)
  then have "conn_read outputBuf (output_of f s) = (RdErr EOF, output_of f s)"
    using c by (simp add: conn_read_def conn_live_def)
  then have "forward_round now (output_name fo) fo (output_of f s, ss_mux s) = (False, output_of f s, ss_mux s)"
    by (simp add: forward_round_def)
  note step = forward_step_round [OF f this]
  have "sendable (of_stream fo) (ss_mux s)" using f by (simp add: forwarding_def)
  from sendable_end [OF this] show ?thesis using step(3) by auto
qed

lemma forward_step_done: "of_done (cs_forwards s ! f) \<Longrightarrow> forward_step now f s = s"
  by (simp add: forward_step_def Let_def)

lemma forward_done_all: "of_done (cs_forwards s ! f) \<Longrightarrow> fold (\<lambda>now. forward_step now f) ts s = s"
  by (induction ts) (simp_all add: forward_step_done)

text \<open>The frames of a forwarder that sends \<open>bs\<close> at the times \<open>ts\<close>.\<close>

definition forwarded :: "u32 \<Rightarrow> u32 \<Rightarrow> output_forward \<Rightarrow> bytes list \<Rightarrow> bytes list \<Rightarrow> (u32 \<times> bytes) list" where
  "forwarded i l fo ts bs = concat (map2 (\<lambda>now b. [(i, b), (l, log_line now (of_run fo) (output_name fo) b)]) ts bs) @ [(i, [])]"

lemma forward_all:
  assumes "forwarding f fo s" "conn_live (output_of f s)" "fin (output_of f s) = Some EOF"
    and "length (conn_pending (output_of f s)) < length ts" "\<forall>now \<in> set ts. length now \<le> 1000"
  shows "\<exists>bs. concat bs = conn_pending (output_of f s) \<and> [] \<notin> set bs \<and> length bs < length ts
    \<and> of_done (cs_forwards (fold (\<lambda>now. forward_step now f) ts s) ! f)
    \<and> s_closed (objs (ss_mux (fold (\<lambda>now. forward_step now f) ts s)) ! of_stream fo)
    \<and> sent_frames (ss_mux (fold (\<lambda>now. forward_step now f) ts s)) = sent_frames (ss_mux s)
        @ forwarded (writer_id (of_stream fo) (ss_mux s)) (writer_id (of_log fo) (ss_mux s)) fo ts bs"
  using assms
proof (induction ts arbitrary: s)
  case (Cons now ts)
  let ?s' = "forward_step now f s"
  show ?case
  proof (cases "conn_pending (output_of f s) = []")
    case True
    note e = forward_round_end [OF Cons.prems(1,2) True Cons.prems(3), of now]
    then have "fold (\<lambda>now. forward_step now f) (now # ts) s = ?s'" by (simp add: forward_done_all)
    then show ?thesis using e True by (intro exI [of _ "[]"]) (simp add: forwarded_def)
  next
    case False
    obtain b where b: "b \<noteq> []" "conn_pending (output_of f s) = b @ conn_pending (output_of f ?s')" "conn_live (output_of f ?s')"
        "fin (output_of f ?s') = fin (output_of f s)" "forwarding f fo ?s'"
        "sent_frames (ss_mux ?s') = sent_frames (ss_mux s)
          @ [(writer_id (of_stream fo) (ss_mux s), b), (writer_id (of_log fo) (ss_mux s), log_line now (of_run fo) (output_name fo) b)]"
        "\<forall>d. writer_id d (ss_mux ?s') = writer_id d (ss_mux s)"
      using forward_round_data [OF Cons.prems(1,2) False, of now] Cons.prems(5) by auto
    have "length (conn_pending (output_of f ?s')) < length ts"
      using b(1,2) Cons.prems(4) by (cases b) auto
    then obtain bs where bs: "concat bs = conn_pending (output_of f ?s')" "[] \<notin> set bs" "length bs < length ts"
        "of_done (cs_forwards (fold (\<lambda>now. forward_step now f) ts ?s') ! f)"
        "s_closed (objs (ss_mux (fold (\<lambda>now. forward_step now f) ts ?s')) ! of_stream fo)"
        "sent_frames (ss_mux (fold (\<lambda>now. forward_step now f) ts ?s')) = sent_frames (ss_mux ?s')
          @ forwarded (writer_id (of_stream fo) (ss_mux ?s')) (writer_id (of_log fo) (ss_mux ?s')) fo ts bs"
      using Cons.IH [OF b(5,3)] b(4) Cons.prems(3,5) by auto
    show ?thesis
      using bs b by (intro exI [of _ "b # bs"]) (simp add: forwarded_def)
  qed
qed simp

lemma payloads_forwarded:
  assumes "i \<noteq> l" "length bs < length ts"
  shows "payloads i (forwarded i l fo ts bs) = bs @ [[]]"
    "payloads l (forwarded i l fo ts bs) = map2 (\<lambda>now b. log_line now (of_run fo) (output_name fo) b) ts bs"
proof -
  have "payloads i (concat (map2 (\<lambda>now b. [(i, b), (l, g now b)]) ts bs)) = bs
      \<and> payloads l (concat (map2 (\<lambda>now b. [(i, b), (l, g now b)]) ts bs)) = map2 g ts bs" for g
    using assms(2)
  proof (induction bs arbitrary: ts)
    case (Cons b bs)
    then show ?case using assms(1) by (cases ts) (auto simp: payloads_def)
  qed (simp add: payloads_def)
  then show "payloads i (forwarded i l fo ts bs) = bs @ [[]]"
    "payloads l (forwarded i l fo ts bs) = map2 (\<lambda>now b. log_line now (of_run fo) (output_name fo) b) ts bs"
    using assms(1) by (simp_all add: forwarded_def payloads_def)
qed

text \<open>
  C10: Everything a command has written goes out on its stream, in order and followed by the end marker, and
  the log stream gets one line for every piece: once the command's output has ended, as many rounds of the
  forwarder as there are bytes, and one more, finish it.  The clock may show anything.
\<close>

theorem output_delivered:
  assumes "forwarding f fo s" "conn_live (output_of f s)" "fin (output_of f s) = Some EOF"
    and "length (conn_pending (output_of f s)) < length ts" "\<forall>now \<in> set ts. length now \<le> 1000"
    and "i = writer_id (of_stream fo) (ss_mux s)" "l = writer_id (of_log fo) (ss_mux s)"
    and "s' = fold (\<lambda>now. forward_step now f) ts s"
  shows "of_done (cs_forwards s' ! f) \<and> s_closed (objs (ss_mux s') ! of_stream fo)
    \<and> (\<exists>bs. concat bs = conn_pending (output_of f s)
      \<and> payloads i (sent_frames (ss_mux s')) = payloads i (sent_frames (ss_mux s)) @ bs @ [[]]
      \<and> payloads l (sent_frames (ss_mux s')) = payloads l (sent_frames (ss_mux s))
          @ map2 (\<lambda>now b. log_line now (of_run fo) (output_name fo) b) ts bs)"
proof -
  have "i \<noteq> l" using assms(1,6,7) by (simp add: forwarding_def)
  then show ?thesis
    using forward_all [OF assms(1-5)] unfolding assms(6-8) by (auto simp: payloads_forwarded)
qed

text \<open>A server whose run has written and ended.\<close>

definition output_server :: compute_server where
  "output_server = sample_compute\<lparr>ss_mux := (ss_mux sample_compute)\<lparr>objs := map fresh_stream [0, 1, 2, 3, 4],
       streams := [0 \<mapsto> 0, 1 \<mapsto> 1, 2 \<mapsto> 2, 3 \<mapsto> 3, 4 \<mapsto> 4]\<rparr>,
     cs_execs := [sample_execution\<lparr>ex_Stdout := conn_of [''a'', ''bc'']\<rparr>],
     cs_forwards := [\<lparr>of_exec = 0, of_stderr = False, of_stream = 2, of_log = 4, of_run = ''r1'', of_done = False\<rparr>]\<rparr>"

theorem output_delivered_witness:
  "\<exists>bs. concat bs = ''abc'' \<and> payloads 2 (sent_frames (ss_mux (fold (\<lambda>now. forward_step now 0) (replicate 4 ''t'') output_server)))
    = payloads 2 (sent_frames (ss_mux output_server)) @ bs @ [[]]"
proof -
  have m: "framed (ss_mux output_server)"
    by (simp add: framed_def sent_frames_def output_server_def sample_compute_def conn_of_def parse_frames.simps)
  have "forwarding 0 \<lparr>of_exec = 0, of_stderr = False, of_stream = 2, of_log = 4, of_run = ''r1'', of_done = False\<rparr> output_server"
    using m by (simp add: forwarding_def sendable_def)
      (simp add: output_server_def sample_compute_def writer_id_def fresh_stream_def newStreamWriter_def conn_of_def writable_def)
  note f = this
  have o: "output_of 0 output_server = conn_of [''a'', ''bc'']" by (simp add: output_of_def output_server_def Let_def)
  have i: "2 = writer_id 2 (ss_mux output_server)"
    by (simp add: output_server_def writer_id_def fresh_stream_def newStreamWriter_def)
  from output_delivered [OF f, of "replicate 4 ''t''" 2 _ "fold (\<lambda>now. forward_step now 0) (replicate 4 ''t'') output_server"] i
  show ?thesis by (auto simp: o conn_of_def conn_live_def conn_pending_def)
qed

section \<open>The end of a run\<close>

text \<open>Execution \<open>e\<close> of a process that is about to be waited for.\<close>

definition ready_to_end :: "nat \<Rightarrow> compute_server \<Rightarrow> bool" where
  "ready_to_end e s \<longleftrightarrow> e < length (cs_execs s) \<and> ex_waiting (cs_execs s ! e) \<and> drained (cs_execs s ! e)
     \<and> ex_Done (cs_execs s ! e) = new_chan \<and> ex_ExitCode (cs_execs s ! e) = new_chan"

lemma ended_channels:
  assumes "ready_to_end e s"
  shows "ex_Done (cs_execs (upd_exec e (wait_step w) s) ! e) = \<lparr>ch_buf = [wait_error w], ch_closed = True\<rparr>"
    "ex_ExitCode (cs_execs (upd_exec e (wait_step w) s) ! e) = \<lparr>ch_buf = [exit_code w], ch_closed = True\<rparr>"
  using assms by (simp_all add: ready_to_end_def upd_exec_def wait_step_def ch_close_def ch_put_def new_chan_def)

text \<open>What a status event of a run tells the client.\<close>

definition status_event :: "bytes \<Rightarrow> run_info \<Rightarrow> compute_status_response" where
  "status_event runID r = \<lparr>csr_run_id = runID, csr_status = status_text (ri_Status r), csr_exit_code = ri_ExitCode r,
     csr_start_time = ri_StartTime r, csr_end_time = (case ri_EndTime r of None \<Rightarrow> [] | Some t \<Rightarrow> t), csr_error = []\<rparr>"

definition event_text_ok :: "bytes \<Rightarrow> bool" where
  "event_text_ok t \<longleftrightarrow> valid_utf8 t \<and> length t \<le> 3000"

lemma length_show_int:
  assumes "- (2 ^ 63) \<le> i" "i < 2 ^ 63"
  shows "length (show_int i) \<le> 20"
proof -
  have "nat \<bar>i\<bar> < 10 ^ 19" using assms by simp
  then have "length (show_nat (nat \<bar>i\<bar>)) \<le> 19" by (intro length_show_nat) simp_all
  then show ?thesis by (cases "i < 0") (simp_all add: show_int_def)
qed

lemma status_json_small:
  assumes "length (csr_run_id x) \<le> 10000" "length (csr_status x) \<le> 100" "length (csr_start_time x) \<le> 3000"
    and "length (csr_end_time x) \<le> 3000" "csr_error x = []"
    and "case csr_exit_code x of None \<Rightarrow> True | Some i \<Rightarrow> - (2 ^ 63) \<le> i \<and> i < 2 ^ 63"
  shows "length (json_text (compute_status_response_to_json x)) \<le> 100000"
proof -
  have "csr_exit_code x = Some c \<Longrightarrow> length (show_int c) \<le> 20" for c using assms(6) length_show_int by auto
  then show ?thesis
    using assms(1-5) length_json_quote [of "csr_run_id x"] length_json_quote [of "csr_status x"]
      length_json_quote [of "csr_start_time x"] length_json_quote [of "csr_end_time x"]
    by (cases "csr_exit_code x")
      (simp_all add: compute_status_response_to_json_def struct_simps(1-3) jint_def,
       simp_all add: json_quote_def json_esc.simps esc_ascii_def)
qed

text \<open>The run is what the event can carry.\<close>

definition reportable :: "bytes \<Rightarrow> run_info \<Rightarrow> bool" where
  "reportable runID r \<longleftrightarrow> valid_utf8 runID \<and> length runID \<le> 10000 \<and> event_text_ok (ri_StartTime r)
     \<and> (case ri_EndTime r of None \<Rightarrow> True | Some t \<Rightarrow> event_text_ok t)
     \<and> (case ri_ExitCode r of None \<Rightarrow> True | Some i \<Rightarrow> - (2 ^ 63) \<le> i \<and> i < 2 ^ 63)"

lemma status_sent:
  assumes "can_send s" "reportable runID r"
  shows "\<exists>pk c. sendStatusSuccess runID (ri_Status r) (ri_ExitCode r) (ri_StartTime r) (ri_EndTime r) s
      = (None, s\<lparr>ss_mux := (ss_mux s)\<lparr>m_conn := c\<rparr>\<rparr>)
    \<and> packet_sent pk s (s\<lparr>ss_mux := (ss_mux s)\<lparr>m_conn := c\<rparr>\<rparr>)
    \<and> answers compute_status_response_fields no_compute_status_response HandshakeTypeComputeStatusResponse (status_event runID r) pk"
proof -
  have st: "valid_utf8 (status_text (ri_Status r))" "length (status_text (ri_Status r)) \<le> 100"
    by (cases "ri_Status r"; simp add: valid_utf8_ascii)+
  have e: "valid_utf8 []" by (simp add: valid_utf8.simps(1))
  have "compute_status_response_ok (status_event runID r)"
    using assms(2) st e by (auto simp: compute_status_response_ok_def status_event_def reportable_def event_text_ok_def split: option.splits)
  moreover have "length (json_text (compute_status_response_to_json (status_event runID r))) \<le> 100000"
    using assms(2) st by (intro status_json_small) (auto simp: status_event_def reportable_def event_text_ok_def split: option.splits)
  ultimately show ?thesis
    using compute_statused.reply_message [OF assms(1), of "status_event runID r"]
    by (auto simp: sendStatusSuccess_def NewComputeStatusResponsePacket_def status_event_def HandshakeTypeComputeStatusResponse_def)
qed

text \<open>The three steps of a monitor whose execution has ended.\<close>

definition ended_as :: "wait_result \<Rightarrow> bytes \<Rightarrow> run_info \<Rightarrow> run_info" where
  "ended_as w now r = r\<lparr>ri_Status := (if exit_code w \<le> 0 then RunStatusCompleted else RunStatusFailed),
     ri_EndTime := Some now, ri_ExitCode := Some (exit_code w)\<rparr>"

lemma monitor_run:
  assumes "ready_to_end e s" "k < length (cs_monitors s)" "cs_monitors s ! k = \<lparr>mo_run = runID, mo_exec = e, mo_phase = MoDone\<rparr>"
  shows "\<exists>t. (monitorExecution now k ^^ 3) (upd_exec e (wait_step w) s) = set_monitor k MoOver (monitor_update now runID (Some (exit_code w)) t)
    \<and> ss_mux t = ss_mux s \<and> ss_ctrl t = ss_ctrl s \<and> cs_runs t = cs_runs s \<and> cs_infos t = cs_infos s
    \<and> (monitorExecution now k ^^ 2) (upd_exec e (wait_step w) s) = t \<and> cs_condas t = cs_condas s \<and> cs_forwards t = cs_forwards s
    \<and> length (cs_execs t) = length (cs_execs s)
    \<and> ex_Done (cs_execs t ! e) = \<lparr>ch_buf = [], ch_closed = True\<rparr> \<and> ex_ExitCode (cs_execs t ! e) = \<lparr>ch_buf = [], ch_closed = True\<rparr>"
proof -
  let ?s0 = "upd_exec e (wait_step w) s"
  have e: "e < length (cs_execs s)" using assms(1) by (simp add: ready_to_end_def)
  note ch = ended_channels [OF assms(1), of w]
  define s1 where "s1 = set_monitor k MoExit (upd_exec e (\<lambda>x. x\<lparr>ex_Done := \<lparr>ch_buf = [], ch_closed = True\<rparr>\<rparr>) ?s0)"
  define s2 where "s2 = set_monitor k (MoUpdate (Some (exit_code w))) (upd_exec e (\<lambda>x. x\<lparr>ex_ExitCode := \<lparr>ch_buf = [], ch_closed = True\<rparr>\<rparr>) s1)"
  have 1: "monitorExecution now k ?s0 = s1"
    using assms(2,3) ch(1) by (simp add: monitorExecution_def recv_done_def ch_recv_def s1_def)
  have m1: "cs_monitors s1 ! k = \<lparr>mo_run = runID, mo_exec = e, mo_phase = MoExit\<rparr>" "k < length (cs_monitors s1)"
    using assms(2,3) by (simp_all add: s1_def set_monitor_def)
  have x1: "ex_ExitCode (cs_execs s1 ! e) = \<lparr>ch_buf = [exit_code w], ch_closed = True\<rparr>" "length (cs_execs s1) = length (cs_execs s)"
    "ex_Done (cs_execs s1 ! e) = \<lparr>ch_buf = [], ch_closed = True\<rparr>"
    using ch(2) e by (simp_all add: s1_def set_monitor_def upd_exec_def)
  have 2: "monitorExecution now k s1 = s2"
    using m1 x1 by (simp add: monitorExecution_def recv_exit_def ch_recv_def s2_def)
  have m2: "cs_monitors s2 ! k = \<lparr>mo_run = runID, mo_exec = e, mo_phase = MoUpdate (Some (exit_code w))\<rparr>"
    using m1 by (simp add: s2_def set_monitor_def)
  have 3: "monitorExecution now k s2 = set_monitor k MoOver (monitor_update now runID (Some (exit_code w)) s2)"
    using m2 by (simp add: monitorExecution_def)
  have "ss_mux s2 = ss_mux s" "ss_ctrl s2 = ss_ctrl s" "cs_runs s2 = cs_runs s" "cs_infos s2 = cs_infos s" "cs_condas s2 = cs_condas s"
      "cs_forwards s2 = cs_forwards s" "length (cs_execs s2) = length (cs_execs s)"
    by (simp_all add: s2_def s1_def set_monitor_def upd_exec_def)
  moreover have "ex_Done (cs_execs s2 ! e) = \<lparr>ch_buf = [], ch_closed = True\<rparr>" "ex_ExitCode (cs_execs s2 ! e) = \<lparr>ch_buf = [], ch_closed = True\<rparr>"
    using x1 e by (simp_all add: s2_def set_monitor_def upd_exec_def)
  moreover have "(monitorExecution now k ^^ 3) ?s0 = monitorExecution now k s2" "(monitorExecution now k ^^ 2) ?s0 = s2"
    using 1 2 by (simp_all add: eval_nat_numeral)
  ultimately show ?thesis using 3 by (intro exI [of _ s2]) simp
qed

lemma set_monitor_fields [simp]:
  "cs_runs (set_monitor k ph s) = cs_runs s" "cs_infos (set_monitor k ph s) = cs_infos s" "ss_mux (set_monitor k ph s) = ss_mux s"
  "ss_ctrl (set_monitor k ph s) = ss_ctrl s"
  by (simp_all add: set_monitor_def)

lemma exit_reported_ok:
  assumes "can_send s" "ready_to_end e s" "k < length (cs_monitors s)"
    and "cs_monitors s ! k = \<lparr>mo_run = runID, mo_exec = e, mo_phase = MoDone\<rparr>"
    and "cs_runs s runID = Some i" "i < length (cs_infos s)" "ri_Status (cs_infos s ! i) = RunStatusRunning"
    and "reportable runID (ended_as w now (cs_infos s ! i))"
  shows "\<exists>s' pk. (monitorExecution now k ^^ 3) (upd_exec e (wait_step w) s) = s' \<and> cs_runs s' = cs_runs s
    \<and> cs_infos s' = (cs_infos s)[i := ended_as w now (cs_infos s ! i)] \<and> packet_sent pk s s'
    \<and> answers compute_status_response_fields no_compute_status_response HandshakeTypeComputeStatusResponse
        (status_event runID (ended_as w now (cs_infos s ! i))) pk"
proof -
  let ?r = "ended_as w now (cs_infos s ! i)"
  obtain t where t: "(monitorExecution now k ^^ 3) (upd_exec e (wait_step w) s) = set_monitor k MoOver (monitor_update now runID (Some (exit_code w)) t)"
      "ss_mux t = ss_mux s" "ss_ctrl t = ss_ctrl s" "cs_runs t = cs_runs s" "cs_infos t = cs_infos s"
    using monitor_run [OF assms(2-4), of now w] by blast
  define u where "u = t\<lparr>cs_infos := (cs_infos s)[i := ?r]\<rparr>"
  have "can_send u" using assms(1) t(2,3) by (simp add: u_def can_send_def)
  then obtain pk c where pk: "sendStatusSuccess runID (ri_Status ?r) (ri_ExitCode ?r) (ri_StartTime ?r) (ri_EndTime ?r) u
        = (None, u\<lparr>ss_mux := (ss_mux u)\<lparr>m_conn := c\<rparr>\<rparr>)" "packet_sent pk u (u\<lparr>ss_mux := (ss_mux u)\<lparr>m_conn := c\<rparr>\<rparr>)"
      "answers compute_status_response_fields no_compute_status_response HandshakeTypeComputeStatusResponse (status_event runID ?r) pk"
    using status_sent [OF _ assms(8)] by blast
  have "upd_info i (\<lambda>r. r\<lparr>ri_Status := (case Some (exit_code w) of Some c \<Rightarrow> if c \<le> 0 then RunStatusCompleted else RunStatusFailed
      | None \<Rightarrow> RunStatusFailed), ri_EndTime := Some now, ri_ExitCode := Some (exit_code w)\<rparr>) t = u"
    using assms(6) t(5) by (simp add: upd_info_def u_def ended_as_def)
  moreover have "cs_infos u ! i = ?r" using assms(6) by (simp add: u_def)
  ultimately have "monitor_update now runID (Some (exit_code w)) t = u\<lparr>ss_mux := (ss_mux u)\<lparr>m_conn := c\<rparr>\<rparr>"
    using assms(5,7) t(4,5) pk(1) by (simp add: monitor_update_def Let_def emit_status_def)
  note m = this
  let ?s' = "set_monitor k MoOver (u\<lparr>ss_mux := (ss_mux u)\<lparr>m_conn := c\<rparr>\<rparr>)"
  have "packet_sent pk u ?s'" by (rule packet_sent_to [OF pk(2)]) simp_all
  then have "packet_sent pk s ?s'" by (rule packet_sent_from) (simp_all add: u_def t(2,3))
  moreover have "cs_runs ?s' = cs_runs s" "cs_infos ?s' = (cs_infos s)[i := ?r]" using t(4) by (simp_all add: u_def)
  ultimately show ?thesis using t(1) m pk(3) by auto
qed

text \<open>
  When the process of a run ends, the monitor takes its result from the two channels, sets the status,
  the end time and the exit code of the run and sends one status event with them, which the client decodes.
  A negative exit code counts as completed: that is also what a process killed by a signal or an
  unsuccessful wait leaves, see \<open>exit_code\<close>.
\<close>

theorem exit_reported:
  assumes "can_send s" "ready_to_end e s" "k < length (cs_monitors s)"
    and "cs_monitors s ! k = \<lparr>mo_run = runID, mo_exec = e, mo_phase = MoDone\<rparr>"
    and "cs_runs s runID = Some i" "i < length (cs_infos s)" "ri_Status (cs_infos s ! i) = RunStatusRunning"
    and "reportable runID (ended_as w now (cs_infos s ! i))"
  shows "\<exists>s' pk. (monitorExecution now k ^^ 3) (upd_exec e (wait_step w) s) = s' \<and> cs_runs s' = cs_runs s
    \<and> cs_infos s' = (cs_infos s)[i := ended_as w now (cs_infos s ! i)] \<and> packet_sent pk s s'
    \<and> answers compute_status_response_fields no_compute_status_response HandshakeTypeComputeStatusResponse
        (status_event runID (ended_as w now (cs_infos s ! i))) pk"
  by (rule exit_reported_ok [OF assms])

text \<open>A server with one run, watched by a monitor.\<close>

definition sample_info :: run_info where
  "sample_info = \<lparr>ri_RunID = ''r1'', ri_Status = RunStatusRunning, ri_StartTime = ''t0'', ri_EndTime = None, ri_ExitCode = None,
     ri_Execution = Some 0, ri_CancelFunc = Some (CancelContext 0)\<rparr>"

definition watched_server :: compute_server where
  "watched_server = sample_compute\<lparr>cs_runs := [''r1'' \<mapsto> 0], cs_infos := [sample_info], cs_execs := [sample_execution],
     cs_monitors := [\<lparr>mo_run = ''r1'', mo_exec = 0, mo_phase = MoDone\<rparr>]\<rparr>"

lemma watched_server_facts:
  "can_send watched_server" "ready_to_end 0 watched_server" "0 < length (cs_monitors watched_server)"
  "cs_monitors watched_server ! 0 = \<lparr>mo_run = ''r1'', mo_exec = 0, mo_phase = MoDone\<rparr>" "cs_runs watched_server ''r1'' = Some 0"
  "cs_infos watched_server = [sample_info]" "ri_Status sample_info = RunStatusRunning"
  using sample_compute_sends
  by (simp_all add: watched_server_def can_send_def ready_to_end_def sample_execution_def drained_def pipe_def sample_info_def)

lemma sample_reportable: "- (2 ^ 63) \<le> exit_code w \<Longrightarrow> exit_code w < 2 ^ 63 \<Longrightarrow> reportable ''r1'' (ended_as w ''t1'' sample_info)"
  by (simp add: reportable_def ended_as_def sample_info_def event_text_ok_def valid_utf8_ascii)

theorem exit_reported_witness:
  "\<exists>s'. (monitorExecution ''t1'' 0 ^^ 3) (upd_exec 0 (wait_step (WaitExit (-1) (Err ''signal: killed''))) watched_server) = s'
    \<and> map ri_Status (cs_infos s') = [RunStatusCompleted] \<and> map ri_ExitCode (cs_infos s') = [Some (-1)]"
proof -
  let ?w = "WaitExit (-1) (Err ''signal: killed'')"
  have "reportable ''r1'' (ended_as ?w ''t1'' (cs_infos watched_server ! 0))"
    using sample_reportable [of ?w] by (simp add: watched_server_facts(6) exit_code_def)
  from exit_reported [OF watched_server_facts(1-5) _ _ this]
  obtain s' where "(monitorExecution ''t1'' 0 ^^ 3) (upd_exec 0 (wait_step ?w) watched_server) = s'"
      "cs_infos s' = [ended_as ?w ''t1'' sample_info]"
    by (auto simp: watched_server_facts(6,7))
  then show ?thesis by (intro exI [of _ s']) (simp add: ended_as_def exit_code_def)
qed

section \<open>Where the report is wrong\<close>

definition cancel_handshake :: "bytes \<Rightarrow> handshake" where
  "cancel_handshake runID = \<lparr>h_type = HandshakeTypeComputeCancel, h_payload = Some (compute_cancel_request_to_json \<lparr>ccq_run_id = runID\<rparr>)\<rparr>"

lemma cancel_handshake_payload:
  "valid_utf8 runID \<Longrightarrow> UnmarshalPayload compute_cancel_request_fields (Some (cancel_handshake runID)) (Some no_compute_cancel_request)
    = (Some \<lparr>ccq_run_id = runID\<rparr>, None)"
  using compute_cancel_request_msg.decode [of "\<lparr>ccq_run_id = runID\<rparr>"]
  by (simp add: cancel_handshake_def UnmarshalPayload_def compute_cancel_request_ok_def)

text \<open>
  A cancel request decides on the status it has read and sets another one later: a run that completes in
  between, with its exit code recorded and reported, is nevertheless recorded as canceled.
\<close>

theorem late_cancel_overwrites:
  assumes "valid_utf8 runID" "runID \<noteq> []" "cs_runs s runID = Some i" "ri_Status (cs_infos s ! i) = RunStatusRunning"
    and "t = between (case ri_CancelFunc (cs_infos s ! i) of None \<Rightarrow> s | Some f \<Rightarrow> run_cancel f s)"
    and "i < length (cs_infos t)" "ri_Status (cs_infos t ! i) = RunStatusCompleted" "ri_ExitCode (cs_infos t ! i) = Some c"
    and "handleCancel between now (cancel_handshake runID) s = (e, s')"
  shows "ri_Status (cs_infos s' ! i) = RunStatusCanceled \<and> ri_EndTime (cs_infos s' ! i) = Some now
    \<and> ri_ExitCode (cs_infos s' ! i) = Some c"
proof -
  let ?u = "upd_info i (\<lambda>r. r\<lparr>ri_Status := RunStatusCanceled, ri_EndTime := Some now\<rparr>) t"
  let ?r = "cs_infos ?u ! i"
  let ?v = "snd (sendStatusSuccess runID RunStatusCanceled (ri_ExitCode ?r) (ri_StartTime ?r) (ri_EndTime ?r) ?u)"
  have "sendCancelSuccess runID ?v = (e, s')"
    using assms(9) cancel_handshake_payload [OF assms(1)] assms(2-4) unfolding assms(5) [symmetric]
    by (simp add: handleCancel_def Let_def flip: assms(5))
  then have "same_runs ?v s'" using sends_same_runs(3) by (metis snd_conv)
  moreover have "same_runs ?u ?v" by (rule sends_same_runs)
  ultimately have "cs_infos s' = cs_infos ?u" by (simp add: same_runs_def)
  then show ?thesis using assms(6-8) by (simp add: upd_info_def)
qed

theorem late_cancel_overwrites_witness:
  "\<exists>e s'. handleCancel ((monitorExecution ''t1'' 0 ^^ 3) \<circ> upd_exec 0 (wait_step WaitOk)) ''t2'' (cancel_handshake ''r1'') watched_server
      = (e, s') \<and> ri_Status (cs_infos s' ! 0) = RunStatusCanceled \<and> ri_ExitCode (cs_infos s' ! 0) = Some 0"
proof -
  let ?c = "run_cancel (CancelContext 0) watched_server"
  let ?between = "(monitorExecution ''t1'' 0 ^^ 3) \<circ> upd_exec 0 (wait_step WaitOk)"
  have c: "can_send ?c" "ready_to_end 0 ?c" "0 < length (cs_monitors ?c)" "cs_monitors ?c ! 0 = \<lparr>mo_run = ''r1'', mo_exec = 0, mo_phase = MoDone\<rparr>"
      "cs_runs ?c ''r1'' = Some 0" "cs_infos ?c = [sample_info]"
    using sample_compute_sends
    by (simp_all add: run_cancel_def upd_exec_def cancel_context_def watched_server_def can_send_def ready_to_end_def sample_execution_def drained_def pipe_def)
  have "reportable ''r1'' (ended_as WaitOk ''t1'' (cs_infos ?c ! 0))" using sample_reportable [of WaitOk] by (simp add: watched_server_facts(6) exit_code_def)
  from exit_reported_ok [OF c(1-5) _ _ this] have t: "cs_infos (?between ?c) = [ended_as WaitOk ''t1'' sample_info]"
    by (auto simp: watched_server_facts(6,7))
  obtain e s' where s': "handleCancel ?between ''t2'' (cancel_handshake ''r1'') watched_server = (e, s')" by force
  have "ri_Status (cs_infos s' ! 0) = RunStatusCanceled \<and> ri_EndTime (cs_infos s' ! 0) = Some ''t2'' \<and> ri_ExitCode (cs_infos s' ! 0) = Some 0"
    by (rule late_cancel_overwrites [OF _ _ watched_server_facts(5) _ _ _ _ _ s', where t = "?between ?c"])
      (simp_all only: t watched_server_facts(6), simp_all add: valid_utf8_ascii sample_info_def ended_as_def exit_code_def)
  then show ?thesis using s' by blast
qed

text \<open>
  The result of a conda operation can be lost.  The monitor and the goroutine of the operation read the
  same two channels, each of which carries one value: when the monitor is first, the goroutine finds the
  channels closed, takes that for success, and records the run as completed with exit code 0, whatever the
  command returned.
\<close>

theorem conda_result_lost:
  assumes "ready_to_end e s" "j < length (cs_monitors s)" "cs_monitors s ! j = \<lparr>mo_run = runID, mo_exec = e, mo_phase = MoDone\<rparr>"
    and "k < length (cs_condas s)" "cr_phase (cs_condas s ! k) = CoDone e f" "cr_info (cs_condas s ! k) < length (cs_infos s)"
    and "both_done f s" "s' = (conda_step now k ^^ 3) ((monitorExecution now j ^^ 2) (upd_exec e (wait_step w) s))"
  shows "ri_Status (cs_infos s' ! cr_info (cs_condas s ! k)) = RunStatusCompleted
    \<and> ri_ExitCode (cs_infos s' ! cr_info (cs_condas s ! k)) = Some 0"
proof -
  let ?c = "cs_condas s ! k"
  obtain t where t: "(monitorExecution now j ^^ 2) (upd_exec e (wait_step w) s) = t" "cs_infos t = cs_infos s" "cs_condas t = cs_condas s"
      "cs_forwards t = cs_forwards s" "length (cs_execs t) = length (cs_execs s)" "ex_Done (cs_execs t ! e) = \<lparr>ch_buf = [], ch_closed = True\<rparr>"
      "ex_ExitCode (cs_execs t ! e) = \<lparr>ch_buf = [], ch_closed = True\<rparr>"
    using monitor_run [OF assms(1-3), of now w] by blast
  have e: "e < length (cs_execs s)" using assms(1) by (simp add: ready_to_end_def)
  define t1 where "t1 = conda_step now k t"
  have 1: "cr_phase (cs_condas t1 ! k) = CoExit e f None" "cr_info (cs_condas t1 ! k) = cr_info ?c" "k < length (cs_condas t1)"
      "cs_infos t1 = cs_infos s" "cs_forwards t1 = cs_forwards s" "ex_ExitCode (cs_execs t1 ! e) = \<lparr>ch_buf = [], ch_closed = True\<rparr>"
    using t e assms(4,5) by (simp_all add: t1_def conda_step_def Let_def recv_done_def ch_recv_def set_conda_def upd_exec_def)
  define t2 where "t2 = conda_step now k t1"
  have 2: "cr_phase (cs_condas t2 ! k) = CoWait f None 0" "cr_info (cs_condas t2 ! k) = cr_info ?c"
      "cs_infos t2 = cs_infos s" "cs_forwards t2 = cs_forwards s"
    using 1 by (simp_all add: t2_def conda_step_def Let_def recv_exit_def ch_recv_def set_conda_def upd_exec_def)
  have "conda_step now k t2 = set_conda k CoOver (conda_finish now (cs_condas t2 ! k) None 0 t2)"
    using 2 assms(7) by (simp add: conda_step_def both_done_def)
  moreover have "s' = conda_step now k t2" unfolding assms(8) t(1) by (simp add: t1_def t2_def eval_nat_numeral)
  moreover have "cs_infos (set_conda k CoOver u) = cs_infos u" for u by (simp add: set_conda_def)
  ultimately show ?thesis
    using 2 assms(6) by (simp add: conda_finish_def Let_def emit_fields upd_info_def)
qed

text \<open>A conda operation whose command fails; both outputs are forwarded.\<close>

definition conda_server :: compute_server where
  "conda_server = watched_server\<lparr>cs_forwards := [(forward_of 0 False [1, 2, 3, 4] ''r1'')\<lparr>of_done := True\<rparr>,
       (forward_of 0 True [1, 2, 3, 4] ''r1'')\<lparr>of_done := True\<rparr>],
     cs_condas := [\<lparr>cr_run = ''r1'', cr_info = 0, cr_handler = (\<lambda>_ _ _. Inr sample_execution), cr_subcommand = ''run'',
       cr_args = [''list''], cr_ids = [1, 2, 3, 4], cr_streams = [1, 2, 3, 4], cr_phase = CoDone 0 0\<rparr>]\<rparr>"

theorem conda_result_lost_witness:
  "ri_Status (cs_infos ((conda_step ''t2'' 0 ^^ 3) ((monitorExecution ''t2'' 0 ^^ 2)
     (upd_exec 0 (wait_step (WaitExit 3 (Err ''exit status 3''))) conda_server))) ! 0) = RunStatusCompleted"
proof -
  have "ready_to_end 0 conda_server" using watched_server_facts(2) by (simp add: conda_server_def ready_to_end_def)
  from conda_result_lost [OF this _ _ _ _ _ _ refl, of 0 "''r1''" 0 0] show ?thesis
    by (simp add: conda_server_def watched_server_def both_done_def)
qed

end
