(* ===== verification/Compute_Client.thy ===== *)
theory Compute_Client
  imports Compute_Output
begin

text \<open>
  \<open>p2p/protocols/compute/service/client.go\<close>.  The client extends \<open>base_client\<close> with the handles of its runs
  and the table of the handles that wait for an event.  A call is split where it waits for its response;
  the goroutine that watches the caller's context is a step.
\<close>

section \<open>State\<close>

text \<open>\<open>Done\<close> and \<open>ExitCode\<close> of a handle are its two channels; \<open>rh_once\<close> says that \<open>once\<close> has run.\<close>

record run_handle =
  rh_RunID :: bytes
  rh_Stdin :: "addr option"
  rh_Stdout :: "addr option"
  rh_Stderr :: "addr option"
  rh_Log :: "addr option"
  rh_done :: "goerr option chan"
  rh_exit :: "int chan"
  rh_once :: bool

record compute_client = base_client +
  cc_handles :: "bytes \<rightharpoonup> nat"
  cc_objs :: "run_handle list"

definition cc_NewClient :: "bytes \<Rightarrow> conn option \<Rightarrow> compute_client option" where
  "cc_NewClient clientID c =
     (if c = None \<or> clientID = [] then None
      else (case NewBaseClient clientID c (Some computeHelloHandler) of
          None \<Rightarrow> None
        | Some b \<Rightarrow> Some (base_client.extend b \<lparr>cc_handles = Map.empty, cc_objs = []\<rparr>)))"

definition cc_Connect :: "bool \<Rightarrow> compute_client option \<Rightarrow> unit rres \<times> compute_client option" where
  "cc_Connect timeout c = Connect timeout (Some computeHelloHandler) c"

section \<open>Handles\<close>

definition complete :: "goerr option \<Rightarrow> int \<Rightarrow> run_handle \<Rightarrow> run_handle" where
  "complete err exitCode h =
     (if rh_once h then h
      else h\<lparr>rh_exit := ch_close (ch_put exitCode (rh_exit h)), rh_done := ch_close (ch_put err (rh_done h)), rh_once := True\<rparr>)"

definition completeFromStatus :: "compute_status_response \<Rightarrow> run_handle \<Rightarrow> run_handle" where
  "completeFromStatus status h = (let exit = (case csr_exit_code status of None \<Rightarrow> -1 | Some c \<Rightarrow> c) in
     if csr_status status = status_text RunStatusCompleted then complete None exit h
     else if csr_status status = status_text RunStatusCanceled then complete (Some (Err ''execution canceled'')) (-1) h
     else if csr_status status = status_text RunStatusFailed then complete (Some (Err ''execution failed'')) exit h
     else h)"

definition upd_handle :: "nat \<Rightarrow> (run_handle \<Rightarrow> run_handle) \<Rightarrow> compute_client \<Rightarrow> compute_client" where
  "upd_handle a f c = (if a < length (cc_objs c) then c\<lparr>cc_objs := (cc_objs c)[a := f (cc_objs c ! a)]\<rparr> else c)"

definition register :: "nat \<Rightarrow> compute_client \<Rightarrow> compute_client" where
  "register a c = (let runID = rh_RunID (cc_objs c ! a) in
     if runID = [] then c else c\<lparr>cc_handles := (cc_handles c)(runID \<mapsto> a)\<rparr>)"

definition unregister :: "bytes \<Rightarrow> compute_client \<Rightarrow> compute_client" where
  "unregister runID c = (if runID = [] then c else c\<lparr>cc_handles := (cc_handles c)(runID := None)\<rparr>)"

text \<open>\<open>ks\<close> is the order in which the table is visited.\<close>

definition completeAll :: "bytes list \<Rightarrow> goerr \<Rightarrow> compute_client \<Rightarrow> compute_client" where
  "completeAll ks err c =
     fold (\<lambda>k d. case cc_handles c k of None \<Rightarrow> d | Some a \<Rightarrow> upd_handle a (complete (Some err) (-1)) d) ks (c\<lparr>cc_handles := Map.empty\<rparr>)"

definition cc_HandleEvent :: "handshake \<Rightarrow> compute_client \<Rightarrow> compute_client" where
  "cc_HandleEvent p c =
     (if h_type p \<noteq> HandshakeTypeComputeStatusResponse then c
      else (case UnmarshalPayload compute_status_response_fields (Some p) (Some no_compute_status_response) of
          (_, Some _) \<Rightarrow> c
        | (r, None) \<Rightarrow>
            (let status = (case r of None \<Rightarrow> no_compute_status_response | Some r \<Rightarrow> r) in
             if csr_run_id status = [] then c
             else (case cc_handles c (csr_run_id status) of
                None \<Rightarrow> c
              | Some a \<Rightarrow>
                  if csr_status status \<in> {status_text RunStatusCompleted, status_text RunStatusFailed, status_text RunStatusCanceled}
                  then unregister (csr_run_id status) (upd_handle a (completeFromStatus status) c)
                  else c))))"

definition cc_Close :: "addr list \<Rightarrow> bytes list \<Rightarrow> compute_client option \<Rightarrow> goerr option \<times> compute_client option" where
  "cc_Close as ks c = (case bc_Close as c of
      (e, None) \<Rightarrow> (e, None)
    | (e, Some c) \<Rightarrow> (e, Some (completeAll ks (Err ''connection closed'') c)))"

section \<open>Matchers\<close>

definition matchComputeRunResponse :: "bytes \<Rightarrow> matcher" where
  "matchComputeRunResponse runID h =
     (if h_type h \<noteq> HandshakeTypeComputeRunResponse then Inr False
      else (case UnmarshalPayload compute_run_response_fields (Some h) (Some no_compute_run_response) of
          (_, Some e) \<Rightarrow> Inl e
        | (r, None) \<Rightarrow> Inr (crr_run_id (case r of None \<Rightarrow> no_compute_run_response | Some r \<Rightarrow> r) = runID)))"

definition matchComputeCancelResponse :: "bytes \<Rightarrow> matcher" where
  "matchComputeCancelResponse runID h =
     (if h_type h \<noteq> HandshakeTypeComputeCancelResponse then Inr False
      else (case UnmarshalPayload compute_cancel_response_fields (Some h) (Some no_compute_cancel_response) of
          (_, Some e) \<Rightarrow> Inl e
        | (r, None) \<Rightarrow> Inr (ccr_run_id (case r of None \<Rightarrow> no_compute_cancel_response | Some r \<Rightarrow> r) = runID)))"

definition matchComputeStatusResponse :: "bytes \<Rightarrow> matcher" where
  "matchComputeStatusResponse runID h =
     (if h_type h \<noteq> HandshakeTypeComputeStatusResponse then Inr False
      else (case UnmarshalPayload compute_status_response_fields (Some h) (Some no_compute_status_response) of
          (_, Some e) \<Rightarrow> Inl e
        | (r, None) \<Rightarrow> Inr (csr_run_id (case r of None \<Rightarrow> no_compute_status_response | Some r \<Rightarrow> r) = runID)))"

section \<open>Operations\<close>

text \<open>
  \<open>Run\<close> up to its wait: the request and the handle.  The fields of \<open>RunRequest\<close> are those of the message;
  \<open>uuid\<close> is the identifier generated when the request has none.
\<close>

definition new_handle :: "bytes \<Rightarrow> run_handle" where
  "new_handle runID = \<lparr>rh_RunID = runID, rh_Stdin = None, rh_Stdout = None, rh_Stderr = None, rh_Log = None,
     rh_done = new_chan, rh_exit = new_chan, rh_once = False\<rparr>"

definition cc_Run :: "bytes \<Rightarrow> compute_run_request \<Rightarrow> compute_client \<Rightarrow> (nat \<times> nat) result \<times> compute_client" where
  "cc_Run uuid req c = (case EnsureConnected (Some c) of
      Some e \<Rightarrow> (Inl e, c)
    | None \<Rightarrow>
        (let runID = (if crq_run_id req = [] then uuid else crq_run_id req);
             a = length (cc_objs c);
             c = register a (c\<lparr>cc_objs := cc_objs c @ [new_handle runID]\<rparr>)
         in (case send_request (NewComputeRunPacket (req\<lparr>crq_run_id := runID\<rparr>)) (matchComputeRunResponse runID) c of
               (Inl e, c) \<Rightarrow> (Inl e, unregister runID c)
             | (Inr q, c) \<Rightarrow> (Inr (q, a), c))))"

text \<open>The four calls of \<open>GetOrCreateStream\<close>; a failure closes the streams got before.\<close>

fun get_streams :: "(bytes \<times> u32) list \<Rightarrow> addr list \<Rightarrow> mux \<Rightarrow> addr list result \<times> mux" where
  "get_streams [] as m = (Inr as, m)"
| "get_streams ((name, i) # r) as m = (case GetOrCreateStream i (Some m) of
      (Inr a, m') \<Rightarrow> get_streams r (as @ [a]) (case m' of None \<Rightarrow> m | Some m' \<Rightarrow> m')
    | (Inl e, m') \<Rightarrow> (Inl (Wrap (''get '' @ name @ '' stream'') e),
        fold (\<lambda>a m. snd (stream_Close a m)) as (case m' of None \<Rightarrow> m | Some m' \<Rightarrow> m')))"

text \<open>\<open>Run\<close> after its wait; \<open>q\<close> and \<open>a\<close> are the request and the handle.\<close>

definition cc_Run_reply :: "bool \<Rightarrow> nat \<Rightarrow> nat \<Rightarrow> compute_client \<Rightarrow> nat rres \<times> compute_client" where
  "cc_Run_reply cancelled q a c = (let runID = rh_RunID (cc_objs c ! a) in
     (case SendRequest_wait cancelled q c of
        (Blocked, c) \<Rightarrow> (Blocked, c)
      | (Fail e, c) \<Rightarrow> (Fail e, unregister runID c)
      | (Done response, c) \<Rightarrow>
          (case UnmarshalPayload compute_run_response_fields response (Some no_compute_run_response) of
            (_, Some e) \<Rightarrow> (Fail (Wrap ''unmarshal response'' e), unregister runID c)
          | (r, None) \<Rightarrow>
              (let r = (case r of None \<Rightarrow> no_compute_run_response | Some r \<Rightarrow> r) in
               if \<not> crr_accepted r then (Fail (Err (''run rejected: '' @ crr_error r)), unregister runID c)
               else (case get_streams (zip run_streams [crr_stdin_id r, crr_stdout_id r, crr_stderr_id r, crr_log_id r]) [] (ss_mux c) of
                  (Inl e, m) \<Rightarrow> (Fail e, unregister runID (c\<lparr>ss_mux := m\<rparr>))
                | (Inr as, m) \<Rightarrow> (Done a, upd_handle a (\<lambda>h. h\<lparr>rh_Stdin := Some (as ! 0), rh_Stdout := Some (as ! 1),
                     rh_Stderr := Some (as ! 2), rh_Log := Some (as ! 3)\<rparr>) (c\<lparr>ss_mux := m\<rparr>)))))))"

text \<open>The goroutine of \<open>Run\<close> when the caller's context is done.\<close>

definition run_ctx_done :: "nat \<Rightarrow> compute_client \<Rightarrow> compute_client" where
  "run_ctx_done a c = unregister (rh_RunID (cc_objs c ! a)) (upd_handle a (complete (Some CtxErr) (-1)) c)"

definition cc_Cancel :: "bytes \<Rightarrow> compute_client \<Rightarrow> nat result \<times> compute_client" where
  "cc_Cancel runID c = (case EnsureConnected (Some c) of
      Some e \<Rightarrow> (Inl e, c)
    | None \<Rightarrow>
        if runID = [] then (Inl (Err ''run_id is required''), c)
        else send_request (NewComputeCancelPacket \<lparr>ccq_run_id = runID\<rparr>) (matchComputeCancelResponse runID) c)"

definition cc_Cancel_reply :: "bool \<Rightarrow> nat \<Rightarrow> compute_client \<Rightarrow> unit rres \<times> compute_client" where
  "cc_Cancel_reply cancelled q c = (case SendRequest_wait cancelled q c of
      (Blocked, c) \<Rightarrow> (Blocked, c)
    | (Fail e, c) \<Rightarrow> (Fail e, c)
    | (Done response, c) \<Rightarrow>
        (case UnmarshalPayload compute_cancel_response_fields response (Some no_compute_cancel_response) of
          (_, Some e) \<Rightarrow> (Fail (Wrap ''unmarshal response'' e), c)
        | (r, None) \<Rightarrow>
            (let r = (case r of None \<Rightarrow> no_compute_cancel_response | Some r \<Rightarrow> r) in
             if \<not> ccr_success r then (Fail (Err (''cancel failed: '' @ ccr_error r)), c) else (Done (), c))))"

record status_response =
  sr_RunID :: bytes
  sr_Status :: bytes
  sr_ExitCode :: "int option"
  sr_StartTime :: "bytes option"
  sr_EndTime :: "bytes option"

definition cc_Status :: "bytes \<Rightarrow> compute_client \<Rightarrow> nat result \<times> compute_client" where
  "cc_Status runID c = (case EnsureConnected (Some c) of
      Some e \<Rightarrow> (Inl e, c)
    | None \<Rightarrow>
        if runID = [] then (Inl (Err ''run_id is required''), c)
        else send_request (NewComputeStatusPacket \<lparr>csq_run_id = runID\<rparr>) (matchComputeStatusResponse runID) c)"

text \<open>\<open>parse\<close> is \<open>time.Parse\<close> of the RFC 3339 layout, a time again being a text; one that is not a time is left out.\<close>

definition cc_Status_reply :: "(bytes \<Rightarrow> bytes option) \<Rightarrow> bool \<Rightarrow> nat \<Rightarrow> compute_client \<Rightarrow> status_response rres \<times> compute_client" where
  "cc_Status_reply parse cancelled q c = (case SendRequest_wait cancelled q c of
      (Blocked, c) \<Rightarrow> (Blocked, c)
    | (Fail e, c) \<Rightarrow> (Fail e, c)
    | (Done response, c) \<Rightarrow>
        (case UnmarshalPayload compute_status_response_fields response (Some no_compute_status_response) of
          (_, Some e) \<Rightarrow> (Fail (Wrap ''unmarshal response'' e), c)
        | (r, None) \<Rightarrow>
            (let r = (case r of None \<Rightarrow> no_compute_status_response | Some r \<Rightarrow> r) in
             if csr_error r \<noteq> [] then (Fail (Err (''status query failed: '' @ csr_error r)), c)
             else (Done \<lparr>sr_RunID = csr_run_id r, sr_Status = csr_status r, sr_ExitCode = csr_exit_code r,
               sr_StartTime = (if csr_start_time r \<noteq> [] then parse (csr_start_time r) else None),
               sr_EndTime = (if csr_end_time r \<noteq> [] then parse (csr_end_time r) else None)\<rparr>, c))))"

section \<open>Handles complete once\<close>

text \<open>
  The caller takes values from the channels.  \<open>values\<close> counts the values a channel still holds: none before
  the completion, at most one after it, and then the channel is closed.
\<close>

definition take_exit :: "nat \<Rightarrow> compute_client \<Rightarrow> compute_client" where
  "take_exit a c = upd_handle a (\<lambda>h. h\<lparr>rh_exit := snd (ch_recv (rh_exit h))\<rparr>) c"

definition take_done :: "nat \<Rightarrow> compute_client \<Rightarrow> compute_client" where
  "take_done a c = upd_handle a (\<lambda>h. h\<lparr>rh_done := snd (ch_recv (rh_done h))\<rparr>) c"

inductive client_step :: "compute_client \<Rightarrow> compute_client \<Rightarrow> bool" where
  event: "client_step c (cc_HandleEvent p c)"
| ctx_done: "client_step c (run_ctx_done a c)"
| close: "cc_Close as ks (Some c) = (e, Some c') \<Longrightarrow> client_step c c'"
| run: "cc_Run uuid req c = (r, c') \<Longrightarrow> client_step c c'"
| run_reply: "cc_Run_reply cancelled q a c = (r, c') \<Longrightarrow> client_step c c'"
| take_exit: "client_step c (take_exit a c)"
| take_done: "client_step c (take_done a c)"
| base: "base_client.more c' = base_client.more c \<Longrightarrow> client_step c c'"

definition handle_ok :: "run_handle \<Rightarrow> bool" where
  "handle_ok h \<longleftrightarrow> ch_closed (rh_done h) = rh_once h \<and> ch_closed (rh_exit h) = rh_once h
     \<and> (if rh_once h then length (ch_buf (rh_done h)) \<le> 1 \<and> length (ch_buf (rh_exit h)) \<le> 1
        else ch_buf (rh_done h) = [] \<and> ch_buf (rh_exit h) = [])"

text \<open>\<open>h'\<close> comes later than \<open>h\<close>: a completed handle only loses what the caller takes.\<close>

definition handle_later :: "run_handle \<Rightarrow> run_handle \<Rightarrow> bool" where
  "handle_later h h' \<longleftrightarrow> rh_RunID h' = rh_RunID h \<and> (rh_once h \<longrightarrow> rh_once h'
     \<and> suffix (ch_buf (rh_done h')) (ch_buf (rh_done h)) \<and> suffix (ch_buf (rh_exit h')) (ch_buf (rh_exit h)))"

definition client_ok :: "compute_client \<Rightarrow> bool" where
  "client_ok c \<longleftrightarrow> (\<forall>h \<in> set (cc_objs c). handle_ok h)
     \<and> (\<forall>k a. cc_handles c k = Some a \<longrightarrow> a < length (cc_objs c) \<and> rh_RunID (cc_objs c ! a) = k)"

definition client_later :: "compute_client \<Rightarrow> compute_client \<Rightarrow> bool" where
  "client_later c c' \<longleftrightarrow> (client_ok c \<longrightarrow> client_ok c') \<and> length (cc_objs c) \<le> length (cc_objs c')
     \<and> (\<forall>a < length (cc_objs c). handle_later (cc_objs c ! a) (cc_objs c' ! a))"

lemma handle_later_refl [simp]: "handle_later h h"
  by (simp add: handle_later_def)

lemma handle_later_trans: "handle_later h i \<Longrightarrow> handle_later i j \<Longrightarrow> handle_later h j"
  by (auto simp: handle_later_def intro: suffix_order.trans)

lemma client_later_refl [simp]: "client_later c c"
  by (simp add: client_later_def)

lemma client_later_trans: "client_later c d \<Longrightarrow> client_later d e \<Longrightarrow> client_later c e"
proof -
  assume l: "client_later c d" "client_later d e"
  then have "handle_later (cc_objs c ! a) (cc_objs e ! a)" if "a < length (cc_objs c)" for a
    using that handle_later_trans [of "cc_objs c ! a" "cc_objs d ! a" "cc_objs e ! a"] by (simp add: client_later_def)
  with l show ?thesis by (simp add: client_later_def)
qed

lemma same_client: "base_client.more c' = base_client.more c \<Longrightarrow> cc_handles c' = cc_handles c \<and> cc_objs c' = cc_objs c"
  by (cases c; cases c') simp

lemma client_later_same: "cc_handles c' = cc_handles c \<Longrightarrow> cc_objs c' = cc_objs c \<Longrightarrow> client_later c c'"
  by (simp add: client_later_def client_ok_def)

lemma client_later_upd:
  assumes "\<And>h. handle_ok h \<Longrightarrow> handle_ok (f h)" "\<And>h. handle_later h (f h)"
  shows "client_later c (upd_handle a f c)"
proof -
  let ?c' = "upd_handle a f c"
  have obj: "cc_objs ?c' ! b = cc_objs c ! b \<or> cc_objs ?c' ! b = f (cc_objs c ! b)" if "b < length (cc_objs c)" for b
    using that by (simp add: upd_handle_def nth_list_update)
  have len: "length (cc_objs ?c') = length (cc_objs c)" "cc_handles ?c' = cc_handles c" by (simp_all add: upd_handle_def)
  have later: "handle_later (cc_objs c ! b) (cc_objs ?c' ! b)" if "b < length (cc_objs c)" for b
    using obj [OF that] assms(2) by (metis handle_later_refl)
  have "client_ok ?c'" if ok: "client_ok c"
    unfolding client_ok_def
  proof (intro conjI ballI allI impI)
    fix h assume "h \<in> set (cc_objs ?c')"
    then obtain b where "b < length (cc_objs c)" "h = cc_objs ?c' ! b" using len by (metis in_set_conv_nth)
    then show "handle_ok h" using obj [of b] ok assms(1) by (auto simp: client_ok_def)
  next
    fix k b assume "cc_handles ?c' k = Some b"
    then have b: "b < length (cc_objs c)" "rh_RunID (cc_objs c ! b) = k" using ok by (simp_all only: len(2) client_ok_def)
    have "rh_RunID (cc_objs ?c' ! b) = rh_RunID (cc_objs c ! b)" using later [OF b(1)] by (simp only: handle_later_def)
    with b show "b < length (cc_objs ?c')" "rh_RunID (cc_objs ?c' ! b) = k" by (simp_all only: len(1))
  qed
  then show ?thesis using later len by (simp add: client_later_def)
qed

lemma complete_ok: "handle_ok h \<Longrightarrow> handle_ok (complete e c h)" "handle_later h (complete e c h)"
  by (auto simp: handle_ok_def handle_later_def complete_def ch_close_def ch_put_def)

lemma completeFromStatus_ok: "handle_ok h \<Longrightarrow> handle_ok (completeFromStatus st h)" "handle_later h (completeFromStatus st h)"
  by (simp_all add: completeFromStatus_def Let_def complete_ok)

lemma recv_suffix: "suffix (ch_buf (snd (ch_recv c))) (ch_buf c)" "ch_closed (snd (ch_recv c)) = ch_closed c"
  "length (ch_buf (snd (ch_recv c))) \<le> length (ch_buf c)"
  by (auto simp: ch_recv_def suffix_def split: list.split)

lemma unregister_later [simp]: "client_later c (unregister k c)"
  by (simp add: client_later_def client_ok_def unregister_def)

lemma recv_ok:
  "handle_ok h \<Longrightarrow> handle_ok (h\<lparr>rh_exit := snd (ch_recv (rh_exit h))\<rparr>)" "handle_later h (h\<lparr>rh_exit := snd (ch_recv (rh_exit h))\<rparr>)"
  "handle_ok h \<Longrightarrow> handle_ok (h\<lparr>rh_done := snd (ch_recv (rh_done h))\<rparr>)" "handle_later h (h\<lparr>rh_done := snd (ch_recv (rh_done h))\<rparr>)"
  using recv_suffix [of "rh_exit h"] recv_suffix [of "rh_done h"]
  by (auto simp: handle_ok_def handle_later_def split: if_splits)

lemma later_completeAll: "client_later c (completeAll ks e c)"
proof -
  have "client_later d (fold (\<lambda>k d. case m k of None \<Rightarrow> d | Some a \<Rightarrow> upd_handle a (complete (Some e) (-1)) d) ks d)"
    for m :: "bytes \<rightharpoonup> nat" and d
  proof (induction ks arbitrary: d)
    case (Cons k ks)
    have "client_later d (case m k of None \<Rightarrow> d | Some a \<Rightarrow> upd_handle a (complete (Some e) (-1)) d)"
      by (simp add: client_later_upd complete_ok split: option.split)
    then show ?case using client_later_trans [OF _ Cons.IH] by simp
  qed simp
  moreover have "client_later c (c\<lparr>cc_handles := Map.empty\<rparr>)" by (simp add: client_later_def client_ok_def)
  ultimately show ?thesis using client_later_trans unfolding completeAll_def by blast
qed

lemma later_new:
  "client_later c (c\<lparr>cc_objs := cc_objs c @ [new_handle k]\<rparr>)"
  by (auto simp: client_later_def client_ok_def nth_append handle_ok_def new_handle_def new_chan_def) (meson less_SucI)+

lemma later_register: "a < length (cc_objs c) \<Longrightarrow> client_later c (register a c)"
  by (auto simp: client_later_def client_ok_def register_def Let_def)

lemma pending_more:
  "base_client.more (completePending i r c) = base_client.more c"
  by (simp add: completePending_def deliver_at_def delete_pending_def split: option.split)

lemma write_more: "ctl_WritePacket p c = (e, c') \<Longrightarrow> base_client.more c' = base_client.more (c :: 'a base_client_scheme)"
  using ctl_WritePacket_same [of p c e c'] by auto

lemma SendRequest_more:
  "send_request r m c = (x, c') \<Longrightarrow> base_client.more c' = base_client.more c"
  "SendRequest_wait d a c = (y, c') \<Longrightarrow> base_client.more c' = base_client.more c"
proof -
  have ens: "ensureDispatcher c = (e, c1) \<Longrightarrow> base_client.more c1 = base_client.more c" for e c1
    by (auto simp: ensureDispatcher_def Let_def split: if_splits prod.splits option.splits)
  have reg: "registerPending m c1 = (b, c2) \<Longrightarrow> base_client.more c2 = base_client.more c1" for b c2 and c1 :: "'a base_client_scheme"
    by (auto simp: registerPending_def Let_def)
  show "send_request r m c = (x, c') \<Longrightarrow> base_client.more c' = base_client.more c"
    by (auto simp: send_request_def SendRequest_begin_def pending_more split: sum.splits prod.splits option.splits
        dest!: ens reg write_more)
  show "SendRequest_wait d a c = (y, c') \<Longrightarrow> base_client.more c' = base_client.more c"
    by (auto simp: SendRequest_wait_def pending_more Let_def split: if_splits list.splits option.splits)
qed

lemma client_step_later: "client_step c c' \<Longrightarrow> client_later c c'"
proof (induction rule: client_step.induct)
  case (event c p)
  show ?case
    using client_later_trans [OF client_later_upd unregister_later] completeFromStatus_ok
    by (auto simp: cc_HandleEvent_def Let_def split: option.split prod.split)
next
  case (ctx_done c a)
  show ?case unfolding run_ctx_done_def
    by (rule client_later_trans [OF client_later_upd unregister_later]) (simp_all add: complete_ok)
next
  case (close as ks c e c')
  obtain e1 c1 where c1: "bc_Close as (Some c) = (e1, Some c1)" using close by (auto simp: cc_Close_def split: prod.splits option.splits)
  then have "cc_handles c1 = cc_handles c \<and> cc_objs c1 = cc_objs c"
    by (intro same_client) (auto simp: bc_Close_def Let_def split: if_splits option.splits prod.splits)
  then have "client_later c c1" by (simp add: client_later_same)
  moreover have "c' = completeAll ks (Err ''connection closed'') c1" using close c1 by (simp add: cc_Close_def)
  ultimately show ?case using client_later_trans later_completeAll by blast
next
  case (run uuid req c r c')
  show ?case
  proof (cases "EnsureConnected (Some c)")
    case None
    let ?k = "if crq_run_id req = [] then uuid else crq_run_id req"
    let ?d = "register (length (cc_objs c)) (c\<lparr>cc_objs := cc_objs c @ [new_handle ?k]\<rparr>)"
    have d: "client_later c ?d" by (rule client_later_trans [OF later_new later_register]) simp
    obtain x e where x: "send_request (NewComputeRunPacket (req\<lparr>crq_run_id := ?k\<rparr>)) (matchComputeRunResponse ?k) ?d = (x, e)" by force
    have "client_later ?d e" using same_client [OF SendRequest_more(1) [OF x]] by (simp add: client_later_same)
    then have "client_later c e" using d client_later_trans by blast
    moreover have "c' = (case x of Inl _ \<Rightarrow> unregister ?k e | Inr _ \<Rightarrow> e)"
      using run None x by (auto simp: cc_Run_def Let_def split: sum.splits)
    ultimately show ?thesis using client_later_trans [OF _ unregister_later] by (auto split: sum.split)
  qed (use run in \<open>simp add: cc_Run_def\<close>)
next
  case (run_reply cancelled q a c r c')
  obtain x d where d: "SendRequest_wait cancelled q c = (x, d)" by force
  have cd: "client_later c d" using same_client [OF SendRequest_more(2) [OF d]] by (simp add: client_later_same)
  have mx: "client_later d (d\<lparr>ss_mux := m\<rparr>)" for m by (simp add: client_later_same)
  have at: "client_later d (upd_handle a (\<lambda>h. h\<lparr>rh_Stdin := i, rh_Stdout := j, rh_Stderr := k, rh_Log := l\<rparr>) (d\<lparr>ss_mux := m\<rparr>))" for i j k l m
    by (rule client_later_trans [OF mx client_later_upd]) (auto simp: handle_ok_def handle_later_def split: if_splits)
  have "client_later d c'"
    using run_reply d at client_later_trans [OF mx unregister_later]
    by (auto simp: cc_Run_reply_def Let_def split: rres.splits prod.splits option.splits sum.splits if_splits)
  then show ?case using cd client_later_trans by blast
next
  case (take_exit a c)
  show ?case unfolding take_exit_def
    by (rule client_later_upd) (auto simp: recv_ok)
next
  case (take_done a c)
  show ?case unfolding take_done_def
    by (rule client_later_upd) (auto simp: recv_ok)
next
  case (base c' c)
  show ?case using same_client [OF base] by (simp add: client_later_same)
qed

end
