(* ===== verification/Compute_Agreement.thy ===== *)
theory Compute_Agreement
  imports Compute_Client
begin

text \<open>
  Client and server of the compute protocol together: a run from the request to the four open streams on
  both ends, its completion from the process to the caller's handle, and how a handle can be lost.
\<close>

section \<open>The streams of a run\<close>

lemma get_streams_ok:
  assumes "mux_ok m" "\<not> m_closed m" "distinct (map snd r)" "0 \<notin> snd ` set r"
  shows "\<exists>bs m'. get_streams r as m = (Inr (as @ bs), m') \<and> mux_ok m' \<and> length bs = length r
    \<and> (\<forall>j < length r. bs ! j < length (objs m') \<and> s_ID (objs m' ! (bs ! j)) = snd (r ! j) \<and> \<not> s_closed (objs m' ! (bs ! j)))
    \<and> (\<exists>xs. objs m' = objs m @ xs)"
  using assms
proof (induction r arbitrary: as m)
  case (Cons ni r)
  obtain n i where ni: "ni = (n, i)" by force
  obtain a m1 where a: "GetOrCreateStream i (Some m) = (Inr a, Some m1)" "mux_ok m1" "streams m1 i = Some a"
      "s_ID (objs m1 ! a) = i" "\<not> s_closed (objs m1 ! a)"
    using GetOrCreateStream_ok [of m i] Cons.prems ni by auto
  note k = GetOrCreateStream_keeps [OF a(1)]
  have len: "a < length (objs m1)" using a(2,3) by (auto simp: mux_ok_def)
  obtain bs m' where m': "get_streams r (as @ [a]) m1 = (Inr ((as @ [a]) @ bs), m')" "mux_ok m'" "length bs = length r"
      "\<forall>j < length r. bs ! j < length (objs m') \<and> s_ID (objs m' ! (bs ! j)) = snd (r ! j) \<and> \<not> s_closed (objs m' ! (bs ! j))"
      "\<exists>xs. objs m' = objs m1 @ xs"
    using Cons.IH [OF a(2), of "as @ [a]"] Cons.prems k(3) ni by auto
  have "a < length (objs m')" "s_ID (objs m' ! a) = i" "\<not> s_closed (objs m' ! a)"
    using m'(5) len a(4,5) by (auto simp: nth_append)
  then have "\<forall>j < length (ni # r). (a # bs) ! j < length (objs m') \<and> s_ID (objs m' ! ((a # bs) ! j)) = snd ((ni # r) ! j)
      \<and> \<not> s_closed (objs m' ! ((a # bs) ! j))"
    using m'(4) ni by (auto simp: less_Suc_eq_0_disj)
  moreover have "\<exists>xs. objs m' = objs m @ xs" using m'(5) k(1) by auto
  ultimately show ?case
    using a(1) m'(1-3) ni by (intro exI [of _ "a # bs"] exI [of _ m']) simp
qed simp

lemma Run_reply_ok:
  assumes "q < length (bc_reqs c)" "mux_ok (ss_mux c)" "\<not> m_closed (ss_mux c)" "a < length (cc_objs c)"
    and "UnmarshalPayload compute_run_response_fields (Some h) (Some no_compute_run_response)
      = (Some \<lparr>crr_run_id = k, crr_accepted = True, crr_stdin_id = ids ! 0, crr_stdout_id = ids ! 1,
         crr_stderr_id = ids ! 2, crr_log_id = ids ! 3, crr_error = e\<rparr>, None)"
    and "length ids = 4" "distinct ids" "0 \<notin> set ids"
  shows "\<exists>c' bs. cc_Run_reply False q a (answered q h c) = (Done a, c') \<and> length bs = 4
    \<and> cc_objs c' ! a = (cc_objs c ! a)\<lparr>rh_Stdin := Some (bs ! 0), rh_Stdout := Some (bs ! 1), rh_Stderr := Some (bs ! 2), rh_Log := Some (bs ! 3)\<rparr>
    \<and> cc_handles c' = cc_handles c
    \<and> (\<forall>j < 4. s_ID (objs (ss_mux c') ! (bs ! j)) = ids ! j \<and> \<not> s_closed (objs (ss_mux c') ! (bs ! j)))"
proof -
  obtain d where d: "SendRequest_wait False q (answered q h c) = (Done (Some h), d)" "ss_mux d = ss_mux c"
      "base_client.more d = base_client.more c"
    using SendRequest_wait_answered [OF assms(1)] by blast
  have cc: "cc_handles d = cc_handles c" "cc_objs d = cc_objs c" using same_client [OF d(3)] by simp_all
  have more: "cc_objs (answered q h c) = cc_objs c" by (simp add: answered_def)
  have ids: "[ids ! 0, ids ! 1, ids ! 2, ids ! 3] = ids"
    using assms(6) by (intro nth_equalityI) (auto simp: less_Suc_eq_0_disj numeral_eq_Suc)
  let ?r = "zip run_streams ids"
  have r: "map snd ?r = ids" "length ?r = 4" "snd ` set ?r = set ids"
    using assms(6) by (simp_all add: run_streams_def flip: set_map)
  obtain bs m where m: "get_streams ?r [] (ss_mux c) = (Inr bs, m)" "length bs = 4"
      "\<forall>j < 4. s_ID (objs m ! (bs ! j)) = snd (?r ! j) \<and> \<not> s_closed (objs m ! (bs ! j))"
    using get_streams_ok [OF assms(2,3), of ?r "[]"] assms(7,8) by (auto simp only: r append_Nil)
  have snd: "snd (?r ! j) = ids ! j" if "j < 4" for j using that r(1,2) by (metis nth_map)
  let ?f = "\<lambda>h. h\<lparr>rh_Stdin := Some (bs ! 0), rh_Stdout := Some (bs ! 1), rh_Stderr := Some (bs ! 2), rh_Log := Some (bs ! 3)\<rparr>"
  have "cc_Run_reply False q a (answered q h c) = (Done a, upd_handle a ?f (d\<lparr>ss_mux := m\<rparr>))"
    using d(1,2) m(1) assms(5) ids by (simp add: cc_Run_reply_def Let_def)
  then show ?thesis
    using m(2,3) snd assms(4) cc
    by (intro exI [of _ "upd_handle a ?f (d\<lparr>ss_mux := m\<rparr>)"] exI [of _ bs]) (simp add: upd_handle_def)
qed

text \<open>A connected client that can send, with its dispatcher running.\<close>

definition can_run :: "compute_client \<Rightarrow> bool" where
  "can_run c \<longleftrightarrow> can_send c \<and> bc_handshakeDone c \<and> bc_dispatchOnce c"

text \<open>\<open>c'\<close> waits for the response to a run request: the request and the handle are the last ones.\<close>

definition waits_for_run :: "bytes \<Rightarrow> compute_client \<Rightarrow> compute_client \<Rightarrow> bool" where
  "waits_for_run k c c' \<longleftrightarrow> can_run c' \<and> length (bc_reqs c') = Suc (length (bc_reqs c))
     \<and> rq_Match (bc_reqs c' ! length (bc_reqs c)) = matchComputeRunResponse k
     \<and> cc_objs c' = cc_objs c @ [new_handle k] \<and> cc_handles c' = (cc_handles c)(k \<mapsto> length (cc_objs c))
     \<and> (mux_ok (ss_mux c) \<longrightarrow> mux_ok (ss_mux c')) \<and> m_closed (ss_mux c') = m_closed (ss_mux c)"

lemma Run_sends:
  assumes "can_run c" "crq_run_id req \<noteq> []" "NewComputeRunPacket req = Inr q" "length (packet_data q) \<le> 10485760"
  shows "\<exists>c'. cc_Run uuid req c = (Inr (length (bc_reqs c), length (cc_objs c)), c') \<and> packet_sent q c c'
    \<and> waits_for_run (crq_run_id req) c c'"
proof -
  let ?k = "crq_run_id req"
  define d where "d = register (length (cc_objs c)) (c\<lparr>cc_objs := cc_objs c @ [new_handle ?k]\<rparr>)"
  have d: "cc_handles d = (cc_handles c)(?k \<mapsto> length (cc_objs c))" "cc_objs d = cc_objs c @ [new_handle ?k]"
      "ss_mux d = ss_mux c" "ss_ctrl d = ss_ctrl c" "bc_reqs d = bc_reqs c" "bc_dispatchOnce d" "bc_handshakeDone d"
    using assms(1,2) by (simp_all add: d_def register_def Let_def new_handle_def can_run_def)
  obtain b e where e: "registerPending (matchComputeRunResponse ?k) d = (b, e)" by force
  have e': "b = length (bc_reqs c)" "ss_mux e = ss_mux c" "ss_ctrl e = ss_ctrl c" "cc_handles e = cc_handles d" "cc_objs e = cc_objs d"
      "bc_reqs e = bc_reqs c @ [\<lparr>rq_ID = bc_nextRequestID d + 1, rq_Match = matchComputeRunResponse ?k, rq_Response = []\<rparr>]"
      "bc_dispatchOnce e" "bc_handshakeDone e"
    using e d by (auto simp: registerPending_def Let_def)
  have ce: "can_send e" using assms(1) e'(2,3) by (simp add: can_run_def can_send_def)
  obtain m where "ctl_WritePacket (Some q) e = (None, e\<lparr>ss_mux := (ss_mux e)\<lparr>m_conn := m\<rparr>\<rparr>)"
      "packet_sent q e (e\<lparr>ss_mux := (ss_mux e)\<lparr>m_conn := m\<rparr>\<rparr>)"
    using reply_sent [OF ce assms(4)] by (auto simp: reply_def)
  note m = this
  let ?c = "e\<lparr>ss_mux := (ss_mux e)\<lparr>m_conn := m\<rparr>\<rparr>"
  have "cc_Run uuid req c = (Inr (length (bc_reqs c), length (cc_objs c)), ?c)"
    using assms(1-3) d(6) e e'(1) m(1)
    by (simp add: cc_Run_def EnsureConnected_def can_run_def Let_def send_request_def SendRequest_begin_def
        ensureDispatcher_def flip: d_def)
  moreover have "packet_sent q c ?c" by (rule packet_sent_from [OF m(2)]) (simp_all add: e'(2,3))
  moreover have "waits_for_run ?k c ?c"
    using m(2) d e' by (simp add: waits_for_run_def can_run_def packet_sent_def mux_ok_def)
  ultimately show ?thesis by blast
qed

text \<open>What the peer decodes from the client's run request.\<close>

lemma run_request_received:
  assumes "NewComputeRunPacket req = Inr q" "compute_run_request_ok req"
  shows "\<exists>h. UnmarshalHandshakePacket (Some q) = Inr h \<and> h_type h = HandshakeTypeComputeRun
    \<and> UnmarshalPayload compute_run_request_fields (Some h) (Some no_compute_run_request) = (Some req, None)"
proof -
  have q: "NewHandshakePacket HandshakeTypeComputeRun (Some (compute_run_request_to_json req)) = Inr q"
    using assms(1) by (simp add: NewComputeRunPacket_def)
  have "receive_payload compute_run_request_fields no_compute_run_request (Some q) = Inr (HandshakeTypeComputeRun, req)"
    by (rule compute_run.received [OF q assms(2)])
  then show ?thesis
    by (auto simp: receive_payload_def UnmarshalPayload_def split: sum.splits option.splits prod.splits bool.splits)
qed

text \<open>A request with an ordinary command under an identifier and stream numbers the server has not used.\<close>

definition new_run :: "compute_run_request \<Rightarrow> compute_server \<Rightarrow> bool" where
  "new_run req s \<longleftrightarrow> compute_run_request_ok req \<and> crq_run_id req \<noteq> [] \<and> length (crq_run_id req) \<le> 10000
     \<and> crq_command req \<noteq> [] \<and> crq_command req \<noteq> ''__conda'' \<and> cs_runs s (crq_run_id req) = None
     \<and> (\<forall>i \<in> set (fst (next_ids 4 s)). streams (ss_mux s) i = None)"

section \<open>From the request to the four streams\<close>

lemma run_answer_matches:
  assumes "h_type h = HandshakeTypeComputeRunResponse"
    and "UnmarshalPayload compute_run_response_fields (Some h) (Some no_compute_run_response) = (Some r, None)"
  shows "matchComputeRunResponse k h = Inr (k = crr_run_id r)"
  using assms by (auto simp: matchComputeRunResponse_def)

text \<open>The handle has the four streams, open and under the identifiers.\<close>

definition handle_streams :: "nat \<Rightarrow> u32 list \<Rightarrow> compute_client \<Rightarrow> bool" where
  "handle_streams a ids c \<longleftrightarrow> (\<exists>bs. [rh_Stdin (cc_objs c ! a), rh_Stdout (cc_objs c ! a), rh_Stderr (cc_objs c ! a), rh_Log (cc_objs c ! a)]
     = map Some bs \<and> (\<forall>j < 4. s_ID (objs (ss_mux c) ! (bs ! j)) = ids ! j \<and> \<not> s_closed (objs (ss_mux c) ! (bs ! j))))"

text \<open>A connected client with the control stream only.\<close>

definition sample_compute_client :: compute_client where
  "sample_compute_client = \<lparr>ss_mux = ss_mux sample_compute, ss_ctrl = 0, ss_control = NewControlPlane True, bc_clientID = ''me'',
     bc_handshakeDone = True, bc_reqs = [], bc_pending = Map.empty, bc_nextRequestID = 0, bc_dispatchOnce = True, bc_dispatching = True,
     bc_dispatchCancelled = False, cc_handles = Map.empty, cc_objs = []\<rparr>"

lemma sample_compute_client_ok:
  "can_run sample_compute_client" "mux_ok (ss_mux sample_compute_client)" "client_ok sample_compute_client"
  "crq_run_id sample_run = ''r1''" "new_run sample_run sample_compute"
proof -
  show "can_run sample_compute_client"
    using sample_compute_sends by (simp add: can_run_def can_send_def sample_compute_client_def) (simp add: sample_compute_def)
  show "mux_ok (ss_mux sample_compute_client)" by (auto simp: sample_compute_client_def sample_compute_def mux_ok_def split: if_splits)
  show "client_ok sample_compute_client" by (simp add: client_ok_def sample_compute_client_def)
  show "crq_run_id sample_run = ''r1''" by (simp add: sample_run_def)
  show "new_run sample_run sample_compute"
    using sample_run_ok by (simp add: run_request_ok_def new_run_def sample_run_def compute_run_request_ok_def valid_utf8_ascii valid_utf8.simps(1))
qed

lemma sample_run_sent: "\<exists>q. NewComputeRunPacket sample_run = Inr q \<and> length (packet_data q) \<le> 10485760"
proof -
  obtain q where q: "NewHandshakePacket HandshakeTypeComputeRun (Some (compute_run_request_to_json sample_run)) = Inr q"
    using NewHandshakePacket_Inr by blast
  have "length (json_text (compute_run_request_to_json sample_run)) \<le> 100000"
    by (simp add: compute_run_request_to_json_def sample_run_def struct_simps(1-3) jslice_def jstrmap_def)
      (simp add: json_quote_def json_esc.simps esc_ascii_def)
  then have "length (packet_data q) \<le> 10485760" by (intro small_message [OF q]) (simp_all add: HandshakeTypeComputeRun_def)
  then show ?thesis using q by (simp add: NewComputeRunPacket_def)
qed

text \<open>
  C6: A run from the request to the streams.  \<open>Run\<close> registers a handle and sends one packet; the server
  decodes it, starts the command and answers with one packet; that answer matches no request but this
  one; and \<open>Run\<close> returns the registered handle with four open streams, which have the identifiers of the
  four streams the server connected to the command, in the same order.
\<close>

theorem run_end_to_end:
  assumes "can_run c" "mux_ok (ss_mux c)" "NewComputeRunPacket req = Inr q" "length (packet_data q) \<le> 10485760"
    and "can_send s" "new_run req s" "exec (requested host req (length (objs (ss_mux s)))) = Inr x"
  shows "\<exists>i a c1 h s' ids pk h' c2. cc_Run uuid req c = (Inr (i, a), c1) \<and> packet_sent q c c1
    \<and> UnmarshalHandshakePacket (Some q) = Inr h \<and> cs_Dispatch host exec creator between now h s = (None, s')
    \<and> running_since now (crq_run_id req) x ids s s' \<and> packet_sent pk s s' \<and> UnmarshalHandshakePacket (Some pk) = Inr h'
    \<and> (\<forall>k. matchComputeRunResponse k h' = Inr (k = crq_run_id req))
    \<and> cc_Run_reply False i a (answered i h' c1) = (Done a, c2) \<and> handle_streams a ids c2
    \<and> cc_handles c2 (crq_run_id req) = Some a"
proof -
  let ?k = "crq_run_id req" and ?i = "length (bc_reqs c)" and ?a = "length (cc_objs c)"
  note new = assms(6) [unfolded new_run_def]
  obtain c1 where c1: "cc_Run uuid req c = (Inr (?i, ?a), c1)" "packet_sent q c c1" "waits_for_run ?k c c1"
    using Run_sends [OF assms(1) _ assms(3,4)] new by blast
  obtain h where h: "UnmarshalHandshakePacket (Some q) = Inr h" "h_type h = HandshakeTypeComputeRun"
      "UnmarshalPayload compute_run_request_fields (Some h) (Some no_compute_run_request) = (Some req, None)"
    using run_request_received [OF assms(3)] new by blast
  have "run_request_ok h req s" using h(2,3) new by (simp add: run_request_ok_def compute_run_request_ok_def)
  from run_started_ok [OF assms(5) this, of exec, OF assms(7)]
  obtain ids s' pk where s': "cs_Dispatch host exec creator between now h s = (None, s')" "running_since now ?k x ids s s'" "packet_sent pk s s'"
      "answers compute_run_response_fields no_compute_run_response HandshakeTypeComputeRunResponse
        \<lparr>crr_run_id = ?k, crr_accepted = True, crr_stdin_id = ids ! 0, crr_stdout_id = ids ! 1,
         crr_stderr_id = ids ! 2, crr_log_id = ids ! 3, crr_error = []\<rparr> pk" by blast
  from answersD [OF s'(4)] obtain h' where h': "UnmarshalHandshakePacket (Some pk) = Inr h'" "h_type h' = HandshakeTypeComputeRunResponse"
      "UnmarshalPayload compute_run_response_fields (Some h') (Some no_compute_run_response)
       = (Some \<lparr>crr_run_id = ?k, crr_accepted = True, crr_stdin_id = ids ! 0, crr_stdout_id = ids ! 1,
         crr_stderr_id = ids ! 2, crr_log_id = ids ! 3, crr_error = []\<rparr>, None)" by blast
  note w = c1(3) [unfolded waits_for_run_def can_run_def]
  have i: "?i < length (bc_reqs c1)" "?a < length (cc_objs c1)" using w by simp_all
  have m: "mux_ok (ss_mux c1)" "\<not> m_closed (ss_mux c1)" using w assms(1,2) by (simp_all add: can_run_def can_send_def)
  have ids: "length ids = 4" "distinct ids" "0 \<notin> set ids" using s'(2) by (simp_all add: running_since_def Let_def)
  from Run_reply_ok [OF i(1) m i(2) h'(3) ids] obtain c2 bs where c2: "cc_Run_reply False ?i ?a (answered ?i h' c1) = (Done ?a, c2)"
      "length bs = 4" "cc_objs c2 ! ?a = (cc_objs c1 ! ?a)\<lparr>rh_Stdin := Some (bs ! 0), rh_Stdout := Some (bs ! 1),
        rh_Stderr := Some (bs ! 2), rh_Log := Some (bs ! 3)\<rparr>" "cc_handles c2 = cc_handles c1"
      "\<forall>j < 4. s_ID (objs (ss_mux c2) ! (bs ! j)) = ids ! j \<and> \<not> s_closed (objs (ss_mux c2) ! (bs ! j))" by blast
  have "map Some bs = [Some (bs ! 0), Some (bs ! 1), Some (bs ! 2), Some (bs ! 3)]"
    using c2(2) by (intro nth_equalityI) (auto simp: less_Suc_eq numeral_eq_Suc)
  then have "handle_streams ?a ids c2"
    using c2(3,5) unfolding handle_streams_def by (intro exI [of _ bs]) simp
  moreover have "cc_handles c2 ?k = Some ?a" using c2(4) w by simp
  ultimately show ?thesis
    using c1(1,2) h(1) s'(1-3) h'(1) run_answer_matches [OF h'(2,3)] c2(1) by (simp, blast)
qed

theorem run_end_to_end_witness:
  "\<exists>i a c1 h s' ids c2. cc_Run ''u'' sample_run sample_compute_client = (Inr (i, a), c1)
    \<and> cs_Dispatch sample_host (\<lambda>_. Inr sample_execution) None id ''now'' h sample_compute = (None, s')
    \<and> running_since ''now'' ''r1'' sample_execution ids sample_compute s' \<and> handle_streams a ids c2 \<and> cc_handles c2 ''r1'' = Some a"
proof -
  obtain q where "NewComputeRunPacket sample_run = Inr q" "length (packet_data q) \<le> 10485760" using sample_run_sent by blast
  from run_end_to_end [OF sample_compute_client_ok(1,2) this sample_compute_sends sample_compute_client_ok(5),
      of "\<lambda>_. Inr sample_execution" sample_host sample_execution "''u''" None id "''now''"]
  show ?thesis unfolding sample_compute_client_ok(4) by blast
qed

section \<open>From the end of the process to the caller\<close>

text \<open>A packet that announces the end of a run completes its handle and takes it from the table.\<close>

lemma event_completes:
  assumes "h_type h = HandshakeTypeComputeStatusResponse" "csr_run_id r = k" "k \<noteq> []"
    and "UnmarshalPayload compute_status_response_fields (Some h) (Some no_compute_status_response) = (Some r, None)"
    and "cc_handles c k = Some a" "a < length (cc_objs c)"
    and "csr_status r \<in> {status_text RunStatusCompleted, status_text RunStatusFailed, status_text RunStatusCanceled}"
  shows "cc_HandleEvent h c = unregister k (upd_handle a (completeFromStatus r) c)"
  using assms by (simp add: cc_HandleEvent_def)

lemma handle_waiting: "handle_ok h \<Longrightarrow> \<not> rh_once h \<Longrightarrow> rh_exit h = new_chan \<and> rh_done h = new_chan"
  by (cases "rh_exit h"; cases "rh_done h") (auto simp: handle_ok_def new_chan_def)

text \<open>
  C11: The end of a run reaches its caller.  After the process has ended the monitor sends one packet; the
  client decodes it to one that no run or cancel request claims and that completes the handle registered
  for the run, and this one only: the exit code is ready to be taken, together with no error, or with
  \<open>execution failed\<close> when the exit code is positive; both channels are closed and the handle is out of
  the table.  A pending status request for the same run claims the packet first.
\<close>

theorem exit_reaches_caller:
  assumes "can_send s" "ready_to_end e s" "m < length (cs_monitors s)"
    and "cs_monitors s ! m = \<lparr>mo_run = k, mo_exec = e, mo_phase = MoDone\<rparr>" "k \<noteq> []"
    and "cs_runs s k = Some i" "i < length (cs_infos s)" "ri_Status (cs_infos s ! i) = RunStatusRunning"
    and "reportable k (ended_as w now (cs_infos s ! i))"
    and "client_ok c" "cc_handles c k = Some a" "\<not> rh_once (cc_objs c ! a)"
  shows "\<exists>s' pk h c'. (monitorExecution now m ^^ 3) (upd_exec e (wait_step w) s) = s' \<and> packet_sent pk s s'
    \<and> UnmarshalHandshakePacket (Some pk) = Inr h
    \<and> (\<forall>j. matchComputeRunResponse j h = Inr False \<and> matchComputeCancelResponse j h = Inr False
         \<and> matchComputeStatusResponse j h = Inr (j = k))
    \<and> cc_HandleEvent h c = c' \<and> cc_handles c' = (cc_handles c)(k := None)
    \<and> rh_exit (cc_objs c' ! a) = \<lparr>ch_buf = [exit_code w], ch_closed = True\<rparr>
    \<and> rh_done (cc_objs c' ! a) = \<lparr>ch_buf = [if exit_code w \<le> 0 then None else Some (Err ''execution failed'')], ch_closed = True\<rparr>
    \<and> (\<forall>b. b \<noteq> a \<longrightarrow> cc_objs c' ! b = cc_objs c ! b)"
proof -
  let ?r = "status_event k (ended_as w now (cs_infos s ! i))"
  from exit_reported_ok [OF assms(1-4,6-9)] obtain s' pk where s': "(monitorExecution now m ^^ 3) (upd_exec e (wait_step w) s) = s'" "packet_sent pk s s'"
      "answers compute_status_response_fields no_compute_status_response HandshakeTypeComputeStatusResponse ?r pk" by blast
  from answersD [OF s'(3)] obtain h where h: "UnmarshalHandshakePacket (Some pk) = Inr h" "h_type h = HandshakeTypeComputeStatusResponse"
      "UnmarshalPayload compute_status_response_fields (Some h) (Some no_compute_status_response) = (Some ?r, None)" by blast
  have a: "a < length (cc_objs c)" "handle_ok (cc_objs c ! a)" using assms(10,11) by (auto simp: client_ok_def)
  note ready = handle_waiting [OF a(2) assms(12)]
  have ev: "cc_HandleEvent h c = unregister k (upd_handle a (completeFromStatus ?r) c)"
    by (rule event_completes [OF h(2) _ assms(5) h(3) assms(11) a(1)]) (simp_all add: status_event_def ended_as_def)
  have done': "completeFromStatus ?r (cc_objs c ! a)
      = complete (if exit_code w \<le> 0 then None else Some (Err ''execution failed'')) (exit_code w) (cc_objs c ! a)"
    by (simp add: completeFromStatus_def status_event_def ended_as_def)
  have "matchComputeRunResponse j h = Inr False \<and> matchComputeCancelResponse j h = Inr False \<and> matchComputeStatusResponse j h = Inr (j = k)" for j
    using h(2,3)
    by (auto simp: matchComputeRunResponse_def matchComputeCancelResponse_def matchComputeStatusResponse_def status_event_def
        HandshakeTypeComputeStatusResponse_def HandshakeTypeComputeRunResponse_def HandshakeTypeComputeCancelResponse_def)
  moreover have "cc_handles (cc_HandleEvent h c) = (cc_handles c)(k := None)" using assms(5) by (simp add: ev unregister_def upd_handle_def)
  moreover have "cc_objs (cc_HandleEvent h c) = (cc_objs c)[a := completeFromStatus ?r (cc_objs c ! a)]"
    using a(1) by (simp add: ev unregister_def upd_handle_def)
  moreover have "completeFromStatus ?r (cc_objs c ! a) = (cc_objs c ! a)\<lparr>
      rh_exit := \<lparr>ch_buf = [exit_code w], ch_closed = True\<rparr>,
      rh_done := \<lparr>ch_buf = [if exit_code w \<le> 0 then None else Some (Err ''execution failed'')], ch_closed = True\<rparr>, rh_once := True\<rparr>"
    using assms(12) ready unfolding done' by (simp add: complete_def ch_close_def ch_put_def new_chan_def)
  ultimately show ?thesis
    using s'(1,2) h(1) a(1) by (intro exI [of _ s'] exI [of _ pk] exI [of _ h] exI [of _ "cc_HandleEvent h c"]) simp
qed

text \<open>The client after its run was accepted.\<close>

definition waiting_client :: compute_client where
  "waiting_client = sample_compute_client\<lparr>cc_handles := [''r1'' \<mapsto> 0], cc_objs := [new_handle ''r1'']\<rparr>"

lemma waiting_client_ok: "client_ok waiting_client"
  by (auto simp: waiting_client_def client_ok_def handle_ok_def new_handle_def new_chan_def split: if_splits)

theorem exit_reaches_caller_witness:
  "\<exists>h. rh_exit (cc_objs (cc_HandleEvent h waiting_client) ! 0) = \<lparr>ch_buf = [2], ch_closed = True\<rparr>
    \<and> rh_done (cc_objs (cc_HandleEvent h waiting_client) ! 0) = \<lparr>ch_buf = [Some (Err ''execution failed'')], ch_closed = True\<rparr>"
proof -
  let ?w = "WaitExit 2 (Err ''exit status 2'')"
  have w: "exit_code ?w = 2" by (simp add: exit_code_def)
  have "reportable ''r1'' (ended_as ?w ''t1'' (cs_infos watched_server ! 0))"
    using sample_reportable [of ?w] by (simp add: watched_server_facts(6) exit_code_def)
  moreover have "''r1'' \<noteq> []" "0 < length (cs_infos watched_server)" "ri_Status (cs_infos watched_server ! 0) = RunStatusRunning"
      "cc_handles waiting_client ''r1'' = Some 0" "\<not> rh_once (cc_objs waiting_client ! 0)"
    by (simp_all add: watched_server_facts(6,7)) (simp_all add: waiting_client_def new_handle_def)
  ultimately show ?thesis
    using exit_reaches_caller [OF watched_server_facts(1-4) _ watched_server_facts(5), of ?w "''t1''" waiting_client 0] waiting_client_ok
    unfolding w by auto
qed

section \<open>Every history of a client\<close>

lemma new_client_ok: "cc_NewClient k conn = Some c \<Longrightarrow> client_ok c"
  by (auto simp: cc_NewClient_def client_ok_def base_client.defs split: if_splits option.splits)

lemma client_steps_later: "client_step\<^sup>*\<^sup>* c d \<Longrightarrow> client_later c d"
  by (induction rule: rtranclp_induct) (auto intro: client_later_trans client_step_later)

text \<open>
  C12: A handle completes once.  In every history of a client a handle that is not completed has open, empty
  channels, and a completed one has closed channels with at most one value each; once completed it stays
  completed whatever happens later, and its channels lose only what the caller takes.  A table entry refers
  to the handle of its own identifier.
\<close>

theorem handles_complete_once:
  assumes "cc_NewClient k conn = Some c0" "client_step\<^sup>*\<^sup>* c0 c" "client_step\<^sup>*\<^sup>* c c'" "a < length (cc_objs c)"
  shows "client_ok c' \<and> a < length (cc_objs c') \<and> handle_ok (cc_objs c' ! a) \<and> handle_later (cc_objs c ! a) (cc_objs c' ! a)"
proof -
  have "client_ok c" using client_steps_later [OF assms(2)] new_client_ok [OF assms(1)] by (simp add: client_later_def)
  then show ?thesis using client_steps_later [OF assms(3)] assms(4) by (auto simp: client_later_def client_ok_def)
qed

theorem handles_complete_once_witness:
  "\<exists>c c'. client_step\<^sup>*\<^sup>* c c' \<and> ch_buf (rh_exit (cc_objs c ! 0)) = [-1] \<and> ch_buf (rh_exit (cc_objs c' ! 0)) = []
    \<and> handle_ok (cc_objs c' ! 0) \<and> handle_later (cc_objs c ! 0) (cc_objs c' ! 0)"
proof -
  obtain c0 where c0: "cc_NewClient ''me'' (Some (conn_of [])) = Some c0" "base_client.more c0 = base_client.more sample_compute_client"
    by (simp add: cc_NewClient_def NewBaseClient_def new_session_def NewMultiplexer_def ControlStream_def newStream_def
        base_client.defs sample_compute_client_def)
  obtain q where q: "NewComputeRunPacket sample_run = Inr q" "length (packet_data q) \<le> 10485760" using sample_run_sent by blast
  have k: "crq_run_id sample_run \<noteq> []" by (simp add: sample_compute_client_ok(4))
  have none: "cc_objs sample_compute_client = []" by (simp add: sample_compute_client_def)
  obtain i a c1 where c1: "cc_Run ''u'' sample_run sample_compute_client = (Inr (i, a), c1)" "cc_objs c1 = [new_handle ''r1'']"
    using Run_sends [OF sample_compute_client_ok(1) k q, of "''u''"] that none
    by (auto simp: waits_for_run_def sample_compute_client_ok(4))
  let ?c = "run_ctx_done 0 c1" and ?c' = "take_exit 0 (run_ctx_done 0 c1)"
  have h: "cc_objs ?c = [complete (Some CtxErr) (-1) (new_handle ''r1'')]"
    using c1(2) by (simp add: run_ctx_done_def unregister_def upd_handle_def)
  have "client_step\<^sup>*\<^sup>* c1 ?c" "client_step\<^sup>*\<^sup>* ?c ?c'"
    by (rule r_into_rtranclp, rule client_step.ctx_done, rule r_into_rtranclp, rule client_step.take_exit)
  moreover have "client_step\<^sup>*\<^sup>* sample_compute_client c1" by (rule r_into_rtranclp, rule client_step.run [OF c1(1)])
  moreover have "client_step\<^sup>*\<^sup>* c0 sample_compute_client" by (rule r_into_rtranclp, rule client_step.base [OF c0(2) [symmetric]])
  ultimately have "client_step\<^sup>*\<^sup>* c0 ?c" "client_step\<^sup>*\<^sup>* ?c ?c'" by (meson rtranclp_trans)+
  moreover have "ch_buf (rh_exit (cc_objs ?c ! 0)) = [-1]" "ch_buf (rh_exit (cc_objs ?c' ! 0)) = []" "0 < length (cc_objs ?c)"
    by (simp_all add: take_exit_def upd_handle_def h) (simp_all add: complete_def new_handle_def new_chan_def ch_put_def ch_close_def ch_recv_def)
  ultimately show ?thesis using handles_complete_once [OF c0(1), of ?c ?c' 0] by blast
qed

section \<open>Two runs under one identifier\<close>

lemma send_request_registers:
  assumes "send_request r m c = (Inr q, c')"
  shows "q < length (bc_reqs c')"
proof -
  obtain p where p: "SendRequest_begin (Some p) m c = (Inr q, c')" using assms by (auto simp: send_request_def split: sum.splits)
  obtain e c1 where c1: "ensureDispatcher c = (e, c1)" by force
  obtain a c2 where c2: "registerPending m c1 = (a, c2)" by force
  obtain e3 c3 where c3: "ctl_WritePacket (Some p) c2 = (e3, c3)" by force
  have "q = a" "c' = c3" using p c1 c2 c3 by (simp_all add: SendRequest_begin_def split: option.splits)
  then show ?thesis using c2 ctl_WritePacket_same [OF c3] by (auto simp: registerPending_def Let_def)
qed

lemma Run_fields:
  assumes "cc_Run uuid req c = (Inr (i, a), c')" "crq_run_id req \<noteq> []"
  shows "a = length (cc_objs c)" "cc_objs c' = cc_objs c @ [new_handle (crq_run_id req)]"
    "cc_handles c' = (cc_handles c)(crq_run_id req \<mapsto> length (cc_objs c))" "i < length (bc_reqs c')"
proof -
  let ?k = "crq_run_id req"
  define d where "d = register (length (cc_objs c)) (c\<lparr>cc_objs := cc_objs c @ [new_handle ?k]\<rparr>)"
  have d: "cc_handles d = (cc_handles c)(?k \<mapsto> length (cc_objs c))" "cc_objs d = cc_objs c @ [new_handle ?k]"
    using assms(2) by (simp_all add: d_def register_def Let_def new_handle_def)
  have s: "send_request (NewComputeRunPacket req) (matchComputeRunResponse ?k) d = (Inr i, c') \<and> a = length (cc_objs c)"
    using assms by (auto simp: cc_Run_def Let_def d_def split: option.splits sum.splits prod.splits)
  then show "a = length (cc_objs c)" by simp
  show "cc_objs c' = cc_objs c @ [new_handle ?k]" "cc_handles c' = (cc_handles c)(?k \<mapsto> length (cc_objs c))"
    using same_client [OF SendRequest_more(1) [OF conjunct1 [OF s]]] d by simp_all
  show "i < length (bc_reqs c')" by (rule send_request_registers [OF conjunct1 [OF s]])
qed

text \<open>No table entry refers to handle \<open>a\<close>, and it waits.\<close>

definition forgotten :: "nat \<Rightarrow> bytes \<Rightarrow> compute_client \<Rightarrow> bool" where
  "forgotten a k c \<longleftrightarrow> (\<forall>j. cc_handles c j \<noteq> Some a) \<and> a < length (cc_objs c) \<and> cc_objs c ! a = new_handle k"

lemma forgotten_upd: "forgotten a k c \<Longrightarrow> b \<noteq> a \<Longrightarrow> forgotten a k (upd_handle b f c)"
  by (simp add: forgotten_def upd_handle_def)

lemma forgotten_unregister: "forgotten a k c \<Longrightarrow> forgotten a k (unregister j c)"
  by (simp add: forgotten_def unregister_def)

lemma forgotten_event: "forgotten a k c \<Longrightarrow> forgotten a k (cc_HandleEvent h c)"
proof -
  assume f: "forgotten a k c"
  have "cc_handles c j = Some b \<Longrightarrow> b \<noteq> a" for j b using f by (auto simp: forgotten_def)
  then have "cc_handles c j = Some b \<Longrightarrow> forgotten a k (unregister j (upd_handle b g c))" for j b g
    using f by (blast intro: forgotten_unregister forgotten_upd)
  then show ?thesis using f by (auto simp: cc_HandleEvent_def Let_def split: option.split prod.split)
qed

lemma forgotten_close:
  assumes "forgotten a k c" "cc_Close as ks (Some c) = (e, Some c')"
  shows "forgotten a k c'"
proof -
  obtain e1 c1 where c1: "bc_Close as (Some c) = (e1, Some c1)" using assms(2) by (auto simp: cc_Close_def split: prod.splits option.splits)
  then have "cc_handles c1 = cc_handles c \<and> cc_objs c1 = cc_objs c"
    by (intro same_client) (auto simp: bc_Close_def Let_def split: if_splits option.splits prod.splits)
  then have f: "forgotten a k c1" "\<And>j. cc_handles c1 j \<noteq> Some a" using assms(1) by (simp_all add: forgotten_def)
  have "forgotten a k (fold (\<lambda>j d. case cc_handles c1 j of None \<Rightarrow> d | Some b \<Rightarrow> upd_handle b g d) ks d)" if "forgotten a k d" for d g
    using that
  proof (induction ks arbitrary: d)
    case (Cons j ks)
    have "forgotten a k (case cc_handles c1 j of None \<Rightarrow> d | Some b \<Rightarrow> upd_handle b g d)"
      using Cons.prems f(2) [of j] by (auto intro: forgotten_upd split: option.split)
    then show ?case using Cons.IH by simp
  qed simp
  moreover have "forgotten a k (c1\<lparr>cc_handles := Map.empty\<rparr>)" using f(1) by (simp add: forgotten_def)
  ultimately have "forgotten a k (completeAll ks (Err ''connection closed'') c1)" unfolding completeAll_def by blast
  then show ?thesis using assms(2) c1 by (simp add: cc_Close_def)
qed

text \<open>
  A second run under an identifier already in use loses the first.  Registering it replaces the table
  entry of the first handle, and its rejection removes the entry; after that no event completes the first
  handle, not even the end of its own run, and neither does closing the client: its caller waits forever.
\<close>

theorem second_run_loses_first:
  assumes "client_ok c" "crq_run_id req = k" "k \<noteq> []" "cc_Run uuid req c = (Inr (i, a), c1)"
    and "crq_run_id req' = k" "cc_Run uuid' req' c1 = (Inr (j, b), c2)"
    and "UnmarshalPayload compute_run_response_fields (Some h) (Some no_compute_run_response) = (Some r, None)" "\<not> crr_accepted r"
  shows "\<exists>c3. cc_Run_reply False j b (answered j h c2) = (Fail (Err (''run rejected: '' @ crr_error r)), c3)
    \<and> (\<forall>ps. cc_objs (fold cc_HandleEvent ps c3) ! a = new_handle k
         \<and> (\<forall>as ks. case cc_Close as ks (Some (fold cc_HandleEvent ps c3)) of (e, c4) \<Rightarrow>
              map_option (\<lambda>c4. cc_objs c4 ! a) c4 = Some (new_handle k)))"
proof -
  have k: "crq_run_id req \<noteq> []" "crq_run_id req' \<noteq> []" using assms(2,3,5) by simp_all
  note f1 = Run_fields [OF assms(4) k(1)] and f2 = Run_fields [OF assms(6) k(2)]
  let ?d = "answered j h c2"
  have d: "cc_handles ?d = cc_handles c2" "cc_objs ?d = cc_objs c2" by (simp_all add: answered_def)
  have run: "rh_RunID (cc_objs ?d ! b) = k" using f2(1,2) assms(5) by (simp add: d new_handle_def)
  obtain c3 where c3: "SendRequest_wait False j ?d = (Done (Some h), c3)" "base_client.more c3 = base_client.more c2"
    using SendRequest_wait_answered [OF f2(4)] by blast
  note same = same_client [OF c3(2)]
  have "cc_handles c y = Some a \<Longrightarrow> False" for y
    using assms(1) f1(1) by (auto simp: client_ok_def)
  then have "forgotten a k (unregister k c3)"
    using same f1 f2 assms(2,3,5) by (auto simp: forgotten_def unregister_def nth_append)
  note f = this
  have r: "cc_Run_reply False j b ?d = (Fail (Err (''run rejected: '' @ crr_error r)), unregister k c3)"
    using c3(1) assms(7,8) run by (simp add: cc_Run_reply_def Let_def)
  have ev: "forgotten a k (fold cc_HandleEvent ps (unregister k c3))" for ps
  proof -
    have "forgotten a k d \<Longrightarrow> forgotten a k (fold cc_HandleEvent ps d)" for d
      by (induction ps arbitrary: d) (simp_all add: forgotten_event)
    with f show ?thesis by blast
  qed
  have "map_option (\<lambda>c4. cc_objs c4 ! a) x = Some (new_handle k)"
    if "cc_Close as ks (Some (fold cc_HandleEvent ps (unregister k c3))) = (e, x)" for ps as ks e x
  proof -
    have "x \<noteq> None" using that by (auto simp: cc_Close_def bc_Close_def Let_def split: prod.splits option.splits if_splits)
    then obtain c4 where "x = Some c4" by blast
    with forgotten_close [OF ev, of as ks ps e c4] that show ?thesis by (simp add: forgotten_def)
  qed
  then show ?thesis using r ev by (intro exI [of _ "unregister k c3"]) (auto simp: forgotten_def)
qed

theorem second_run_loses_first_witness:
  "\<exists>a c3. \<forall>ps. cc_objs (fold cc_HandleEvent ps c3) ! a = new_handle ''r1''"
proof -
  obtain q where q: "NewComputeRunPacket sample_run = Inr q" "length (packet_data q) \<le> 10485760" using sample_run_sent by blast
  have k: "crq_run_id sample_run \<noteq> []" by (simp add: sample_compute_client_ok(4))
  obtain i a c1 where c1: "cc_Run ''u'' sample_run sample_compute_client = (Inr (i, a), c1)" "can_run c1"
    using Run_sends [OF sample_compute_client_ok(1) k q, of "''u''"] by (auto simp: waits_for_run_def)
  obtain j b c2 where c2: "cc_Run ''u'' sample_run c1 = (Inr (j, b), c2)"
    using Run_sends [OF c1(2) k q, of "''u''"] by auto
  let ?h = "\<lparr>h_type = HandshakeTypeComputeRunResponse, h_payload = Some (compute_run_response_to_json no_compute_run_response)\<rparr>"
  have "UnmarshalPayload compute_run_response_fields (Some ?h) (Some no_compute_run_response) = (Some no_compute_run_response, None)"
    using compute_run_response_msg.decode [of no_compute_run_response]
    by (simp add: UnmarshalPayload_def compute_run_response_ok_def no_compute_run_response_def valid_utf8.simps(1))
  from second_run_loses_first [OF sample_compute_client_ok(3,4) _ c1(1) sample_compute_client_ok(4) c2 this]
  show ?thesis by (auto simp: no_compute_run_response_def)
qed

end
