(* ===== verification/Go_Runes.thy ===== *)
theory Go_Runes
  imports Json_Struct Go_Strings
begin

text \<open>
  Strings read rune by rune, as \<open>for i, r := range s\<close> does it.  A rune is its UTF-8 encoding; a byte that
  starts no encoding is the replacement character.
\<close>

definition rune_at :: "bytes \<Rightarrow> bytes" where
  "rune_at s = (if utf8_len s = 0 then utf8_replacement else take (utf8_len s) s)"

definition after_rune :: "bytes \<Rightarrow> bytes" where
  "after_rune s = drop (max 1 (utf8_len s)) s"

lemma after_rune_less [simp]: "s \<noteq> [] \<Longrightarrow> length (after_rune s) < length s"
  by (cases s) (simp_all add: after_rune_def max_def)

function runes :: "bytes \<Rightarrow> bytes list" where
  "runes s = (if s = [] then [] else rune_at s # runes (after_rune s))"
  by pat_completeness auto
termination by (relation "measure length") auto

declare runes.simps [simp del]

lemma runes_Nil [simp]: "runes [] = []"
  by (subst runes.simps) simp

definition is_rune :: "bytes \<Rightarrow> bool" where
  "is_rune r \<longleftrightarrow> r \<noteq> [] \<and> utf8_len r = length r"

lemma is_rune_ascii [simp]: "(of_char c :: nat) < 128 \<Longrightarrow> is_rune [c]"
  by (simp add: is_rune_def utf8_len_ascii)

lemma utf8_len_rune: "is_rune r \<Longrightarrow> utf8_len (r @ s) = length r"
  using utf8_len_take [of r "length r" s] by (simp add: is_rune_def)

lemma rune_at_rune [simp]: "is_rune r \<Longrightarrow> rune_at (r @ s) = r" "is_rune r \<Longrightarrow> after_rune (r @ s) = s"
  using utf8_len_rune [of r s] by (auto simp: rune_at_def after_rune_def max_def is_rune_def Suc_le_eq)

lemma runes_append [simp]: "is_rune r \<Longrightarrow> runes (r @ s) = r # runes s"
  by (subst runes.simps) (auto simp: is_rune_def)

lemma runes_concat: "\<forall>r \<in> set rs. is_rune r \<Longrightarrow> runes (concat rs) = rs"
  by (induction rs) auto

lemma valid_runes: "valid_utf8 s \<Longrightarrow> concat (runes s) = s \<and> (\<forall>r \<in> set (runes s). is_rune r)"
proof (induction s rule: runes.induct)
  case (1 s)
  show ?case
  proof (cases s)
    case (Cons c cs)
    let ?n = "utf8_len s"
    have n: "?n \<noteq> 0" "valid_utf8 (drop ?n s)" 
      using "1.prems" Cons by (simp add: valid_utf8.simps(2)) (cases ?n; use "1.prems" Cons in \<open>simp add: valid_utf8.simps(2)\<close>)
    have r: "runes s = take ?n s # runes (drop ?n s)"
      using n(1) Cons by (subst runes.simps) (simp add: rune_at_def after_rune_def max_def)
    have "after_rune s = drop ?n s" using n(1) by (simp add: after_rune_def max_def)
    then have "concat (runes (drop ?n s)) = drop ?n s \<and> (\<forall>r \<in> set (runes (drop ?n s)). is_rune r)"
      using "1.IH" n(2) Cons by simp
    moreover have "is_rune (take ?n s)"
      using n(1) Cons utf8_len_take [of s ?n "[]"] utf8_len_le [of s] by (simp add: is_rune_def)
    ultimately show ?thesis by (simp add: r)
  qed simp
qed

text \<open>Only the first byte of a rune is not a continuation byte.\<close>

lemma rune_shape:
  assumes "is_rune r"
  shows "\<exists>c cs. r = c # cs \<and> \<not> utf8_cont c \<and> list_all utf8_cont cs \<and> (cs \<noteq> [] \<longrightarrow> (128 \<le> (of_char c :: nat)))"
proof -
  obtain c cs where r: "r = c # cs" using assms by (cases r) (auto simp: is_rune_def)
  obtain n lo hi where l: "utf8_lead (of_char c) = (n, lo, hi)" by (metis prod_cases3)
  have n: "n = Suc (length cs)" "2 \<le> n \<longrightarrow> lo \<le> of_char (r ! 1) \<and> of_char (r ! 1) \<le> hi" "list_all utf8_cont (take (n - 2) (drop 2 r))"
    using assms l by (auto simp: is_rune_def utf8_len_def r split: if_splits)
  have c: "\<not> utf8_cont c" using l n(1) by (auto simp: utf8_cont_def utf8_lead_def split: if_splits)
  have lohi: "2 \<le> n \<Longrightarrow> 128 \<le> lo \<and> hi \<le> 191 \<and> 128 \<le> (of_char c :: nat)" using l by (auto simp: utf8_lead_def split: if_splits)
  have "list_all utf8_cont cs"
  proof (cases cs)
    case (Cons d ds)
    have "utf8_cont d" using n(1,2) lohi Cons r by (auto simp: utf8_cont_def)
    moreover have "list_all utf8_cont ds" using n(1,3) Cons r by simp
    ultimately show ?thesis using Cons by simp
  qed simp
  moreover have "cs \<noteq> [] \<longrightarrow> (128 \<le> (of_char c :: nat))" using lohi n(1) by (cases cs) auto
  ultimately show ?thesis using r c by blast
qed

lemma rune_suffix_eq:
  assumes "is_rune q" "is_rune r" "suffix q (s @ r)"
  shows "q = r"
proof -
  obtain c cs where q: "q = c # cs" "\<not> utf8_cont c" "list_all utf8_cont cs" using rune_shape [OF assms(1)] by blast
  obtain d ds where r: "r = d # ds" "\<not> utf8_cont d" "list_all utf8_cont ds" using rune_shape [OF assms(2)] by blast
  have suf: "suffix q (s @ r)" "suffix r (s @ r)" using assms(3) by (simp, simp add: suffix_def)
  have short: "suffix x t \<Longrightarrow> suffix y t \<Longrightarrow> length x < length y \<Longrightarrow> y = e # es \<Longrightarrow> x = f # fs \<Longrightarrow> f \<in> set es" for x y t es fs :: bytes and e f
  proof -
    assume a: "suffix x t" "suffix y t" "length x < length y" "y = e # es" "x = f # fs"
    have "suffix x y" using a by (intro suffix_length_suffix [OF a(1,2)]) simp
    then have "suffix x es" using a(3,4) by (auto simp: suffix_Cons)
    then show "f \<in> set es" using a(5) by (auto simp: suffix_def)
  qed
  have "\<not> length q < length r" using short [OF suf _ r(1) q(1)] q(2) r(3) by (auto simp: list_all_iff)
  moreover have "\<not> length r < length q" using short [OF suf(2,1) _ q(1) r(1)] r(2) q(3) by (auto simp: list_all_iff)
  ultimately have "length q = length r" by simp
  then show ?thesis using assms(3) by (auto simp: suffix_def)
qed

lemma rune_prefix_eq:
  assumes "is_rune q" "is_rune r" "prefix q (r @ s)"
  shows "q = r"
proof -
  obtain t where t: "r @ s = q @ t" using assms(3) by (rule prefixE)
  have "length q = length r" using utf8_len_rune [OF assms(1), of t] utf8_len_rune [OF assms(2), of s] by (simp only: t)
  with t show ?thesis by (metis append_eq_append_conv)
qed

section \<open>White space\<close>

definition IsSpace :: "bytes \<Rightarrow> bool" where
  "IsSpace r \<longleftrightarrow> r \<in> set space_runes"

lemma space_runes_ok: "r \<in> set space_runes \<Longrightarrow> is_rune r"
  by (auto simp: space_runes_def is_rune_def utf8_len_def utf8_lead_def utf8_cont_def)

text \<open>A valid string that starts and ends with runes other than white space is not trimmed.\<close>

lemma TrimSpace_id:
  assumes "is_rune a" "\<not> IsSpace a" "is_rune b" "\<not> IsSpace b" "prefix a s" "suffix b s"
  shows "TrimSpace s = s"
proof -
  obtain u where "s = a @ u" using assms(5) by (auto simp: prefix_def)
  moreover obtain v where "s = v @ b" using assms(6) by (auto simp: suffix_def)
  ultimately have u: "s = a @ u" "s = v @ b" by simp_all
  have "\<not> prefix r s" if "r \<in> set space_runes" for r
    using rune_prefix_eq [OF space_runes_ok [OF that] assms(1)] that assms(2) u(1) by (auto simp: IsSpace_def)
  then have "drop_runes space_runes s = s" by (intro drop_runes_none) auto
  moreover have "\<not> prefix (rev r) (rev s)" if "r \<in> set space_runes" for r
    using rune_suffix_eq [OF space_runes_ok [OF that] assms(3), of v] that assms(4) u(2)
    by (auto simp: IsSpace_def suffix_to_prefix)
  then have "drop_runes (map rev space_runes) (rev s) = rev s" by (intro drop_runes_none) auto
  ultimately show ?thesis by (simp add: TrimSpace_def)
qed

end
