(* ===== verification/Cmdline.thy ===== *)
theory Cmdline
  imports Go_Runes
begin

text \<open>
  \<open>core/utils/cmdline.go\<close>: the scanner that splits a command line into tokens, and the quoting that builds
  one from tokens.
\<close>

section \<open>Tokens\<close>

record scanner =
  tk_tokens :: "bytes list"
  tk_current :: bytes
  tk_single :: bool
  tk_double :: bool
  tk_escape :: bool

definition new_scanner :: scanner where
  "new_scanner = \<lparr>tk_tokens = [], tk_current = [], tk_single = False, tk_double = False, tk_escape = False\<rparr>"

definition put_rune :: "bytes \<Rightarrow> scanner \<Rightarrow> scanner" where
  "put_rune r t = t\<lparr>tk_current := tk_current t @ r\<rparr>"

definition end_token :: "scanner \<Rightarrow> scanner" where
  "end_token t = t\<lparr>tk_tokens := tk_tokens t @ [tk_current t], tk_current := []\<rparr>"

text \<open>The rune after a backslash.\<close>

definition escaped_rune :: "bytes \<Rightarrow> scanner \<Rightarrow> scanner" where
  "escaped_rune r t = (let t = t\<lparr>tk_escape := False\<rparr> in
     if tk_single t then
       (if r = [CHR 0x27] \<or> r = [CHR 0x5C] then put_rune r t else put_rune r (put_rune [CHR 0x5C] t))
     else if r = ''n'' then put_rune [CHR 0x0A] t
     else if r = ''t'' then put_rune [CHR 0x09] t
     else if r = ''r'' then put_rune [CHR 0x0D] t
     else put_rune r t)"

text \<open>One iteration; \<open>rest\<close> is what follows the rune.\<close>

definition scan_rune :: "bytes \<Rightarrow> bytes \<Rightarrow> scanner \<Rightarrow> scanner" where
  "scan_rune r rest t =
     (if tk_escape t then escaped_rune r t
      else if r = [CHR 0x5C] then
        (if tk_single t then
           (if rest \<noteq> [] \<and> (hd rest = CHR 0x27 \<or> hd rest = CHR 0x5C) then t\<lparr>tk_escape := True\<rparr> else put_rune r t)
         else t\<lparr>tk_escape := True\<rparr>)
      else if r = [CHR 0x27] then
        (if tk_double t then put_rune r t
         else if tk_single t then end_token (t\<lparr>tk_single := False\<rparr>)
         else t\<lparr>tk_single := True\<rparr>)
      else if r = [CHR 0x22] then
        (if tk_single t then put_rune r t
         else if tk_double t then end_token (t\<lparr>tk_double := False\<rparr>)
         else t\<lparr>tk_double := True\<rparr>)
      else if r \<in> {[CHR 0x20], [CHR 0x09], [CHR 0x0A], [CHR 0x0D]} then
        (if tk_single t \<or> tk_double t then put_rune r t
         else if tk_current t \<noteq> [] then end_token t else t)
      else put_rune r t)"

function scan :: "bytes \<Rightarrow> scanner \<Rightarrow> scanner" where
  "scan s t = (if s = [] then t else scan (after_rune s) (scan_rune (rune_at s) (after_rune s) t))"
  by pat_completeness auto
termination by (relation "measure (length \<circ> fst)") auto

declare scan.simps [simp del]

definition last_token :: "scanner \<Rightarrow> bytes list" where
  "last_token t = (if tk_current t \<noteq> [] \<or> tk_single t \<or> tk_double t then tk_tokens t @ [tk_current t] else tk_tokens t)"

definition parseTokens :: "bytes \<Rightarrow> bytes list" where
  "parseTokens s = last_token (scan s new_scanner)"

text \<open>The arguments are \<open>None\<close> where the code returns nil.\<close>

definition ParseCommandLine :: "bytes \<Rightarrow> bytes \<times> bytes list option" where
  "ParseCommandLine cmdLine = (let cmdLine = TrimSpace cmdLine in
     if cmdLine = [] then ([], None)
     else (case parseTokens cmdLine of [] \<Rightarrow> ([], None) | t # ts \<Rightarrow> (t, Some ts)))"

section \<open>Quoting\<close>

definition quote_rune :: "bytes \<Rightarrow> bytes" where
  "quote_rune r = (if r = [CHR 0x22] then [CHR 0x5C, CHR 0x22] else if r = [CHR 0x5C] then [CHR 0x5C, CHR 0x5C] else r)"

definition QuoteArg :: "bytes \<Rightarrow> bytes" where
  "QuoteArg arg =
     (if arg = [] then [CHR 0x22, CHR 0x22]
      else if \<not> (\<exists>r \<in> set (runes arg). IsSpace r \<or> r = [CHR 0x22] \<or> r = [CHR 0x27] \<or> r = [CHR 0x5C]) then arg
      else [CHR 0x22] @ concat (map quote_rune (runes arg)) @ [CHR 0x22])"

definition JoinCommandLine :: "bytes \<Rightarrow> bytes list \<Rightarrow> bytes" where
  "JoinCommandLine command args =
     (if command = [] then [] else QuoteArg command @ concat (map (\<lambda>a. '' '' @ QuoteArg a) args))"

section \<open>What is joined is parsed back\<close>

lemma scan_Nil [simp]: "scan [] t = t"
  by (subst scan.simps) simp

lemma scan_append: "is_rune r \<Longrightarrow> scan (r @ s) t = scan s (scan_rune r s t)"
  by (subst scan.simps) (auto simp: is_rune_def)

lemmas scan_ascii = scan_append [OF is_rune_ascii, simplified]

text \<open>Inside double quotes.\<close>

lemma scan_quoted:
  assumes "\<forall>r \<in> set rs. is_rune r" "tk_double t" "\<not> tk_single t" "\<not> tk_escape t"
  shows "scan (concat (map quote_rune rs) @ CHR 0x22 # s) t
    = scan s (t\<lparr>tk_tokens := tk_tokens t @ [tk_current t @ concat rs], tk_current := [], tk_double := False\<rparr>)"
  using assms
proof (induction rs arbitrary: t)
  case Nil
  then show ?case by (cases t) (simp add: scan_ascii scan_rune_def end_token_def)
next
  case (Cons r rs)
  let ?t = "put_rune r t"
  have step: "scan (quote_rune r @ u) t = scan u ?t" for u
  proof -
    consider "r = [CHR 0x22]" | "r = [CHR 0x5C]" | "r \<noteq> [CHR 0x22]" "r \<noteq> [CHR 0x5C]" by blast
    then show ?thesis
    proof cases
      case 3
      then have "scan_rune r u t = ?t" using Cons.prems(2-4) by (simp add: scan_rune_def)
      then show ?thesis using 3 Cons.prems(1) by (simp add: quote_rune_def scan_append)
    qed (use Cons.prems(2-4) in \<open>cases t; simp add: quote_rune_def scan_ascii scan_rune_def escaped_rune_def put_rune_def\<close>)+
  qed
  have "scan (concat (map quote_rune (r # rs)) @ CHR 0x22 # s) t = scan (concat (map quote_rune rs) @ CHR 0x22 # s) ?t"
    using step by simp
  also have "\<dots> = scan s (?t\<lparr>tk_tokens := tk_tokens ?t @ [tk_current ?t @ concat rs], tk_current := [], tk_double := False\<rparr>)"
    using Cons.prems by (intro Cons.IH) (simp_all add: put_rune_def)
  finally show ?case by (simp add: put_rune_def)
qed

text \<open>Outside quotes.\<close>

definition plain_rune :: "bytes \<Rightarrow> bool" where
  "plain_rune r \<longleftrightarrow> is_rune r \<and> \<not> IsSpace r \<and> r \<noteq> [CHR 0x22] \<and> r \<noteq> [CHR 0x27] \<and> r \<noteq> [CHR 0x5C]"

lemma white_IsSpace: "r \<in> {[CHR 0x20], [CHR 0x09], [CHR 0x0A], [CHR 0x0D]} \<Longrightarrow> IsSpace r"
  by (auto simp: IsSpace_def space_runes_def)

definition idle :: "scanner \<Rightarrow> bool" where
  "idle t \<longleftrightarrow> \<not> tk_single t \<and> \<not> tk_double t \<and> \<not> tk_escape t"

lemma scan_plain:
  assumes "\<forall>r \<in> set rs. plain_rune r" "idle t"
  shows "scan (concat rs @ s) t = scan s (t\<lparr>tk_current := tk_current t @ concat rs\<rparr>)"
  using assms
proof (induction rs arbitrary: t)
  case (Cons r rs)
  have "scan_rune r u t = put_rune r t" for u
    using Cons.prems white_IsSpace by (auto simp: scan_rune_def plain_rune_def idle_def)
  then have "scan (concat (r # rs) @ s) t = scan (concat rs @ s) (put_rune r t)"
    using Cons.prems by (simp add: scan_append plain_rune_def)
  also have "\<dots> = scan s ((put_rune r t)\<lparr>tk_current := tk_current (put_rune r t) @ concat rs\<rparr>)"
    using Cons.prems by (intro Cons.IH) (simp_all add: put_rune_def idle_def)
  finally show ?case by (simp add: put_rune_def)
qed simp

text \<open>
  A quoted argument leaves its text as a token, either finished or as the current one.
\<close>

lemma scan_QuoteArg:
  assumes "valid_utf8 a" "idle t" "tk_current t = []"
  shows "\<exists>u. (\<forall>s. scan (QuoteArg a @ s) t = scan s u) \<and> idle u
    \<and> (tk_tokens u = tk_tokens t @ [a] \<and> tk_current u = [] \<or> tk_tokens u = tk_tokens t \<and> tk_current u = a \<and> a \<noteq> [])"
proof -
  note a = valid_runes [OF assms(1)]
  have open': "scan (CHR 0x22 # s) t = scan s (t\<lparr>tk_double := True\<rparr>)" for s
    using assms(2) by (simp add: scan_ascii scan_rune_def idle_def)
  let ?u = "t\<lparr>tk_tokens := tk_tokens t @ [a], tk_current := [], tk_double := False\<rparr>"
  have quoted: "scan (CHR 0x22 # concat (map quote_rune (runes a)) @ CHR 0x22 # s) t = scan s ?u" for s
    using scan_quoted [of "runes a" "t\<lparr>tk_double := True\<rparr>" s] a assms(2,3) by (simp add: open' idle_def)
  show ?thesis
  proof (cases "a \<noteq> [] \<and> (\<forall>r \<in> set (runes a). plain_rune r)")
    case True
    then have "QuoteArg a = concat (runes a)" using a by (auto simp: QuoteArg_def plain_rune_def)
    then show ?thesis
      using scan_plain [of "runes a" t] True assms(2,3) a
      by (intro exI [of _ "t\<lparr>tk_current := a\<rparr>"]) (auto simp: idle_def)
  next
    case False
    then have "QuoteArg a = CHR 0x22 # concat (map quote_rune (runes a)) @ [CHR 0x22]"
      using a by (auto simp: QuoteArg_def plain_rune_def)
    then show ?thesis using quoted assms(2) by (intro exI [of _ ?u]) (auto simp: idle_def)
  qed
qed

lemma scan_args:
  assumes "valid_utf8 a" "list_all valid_utf8 as" "idle t" "tk_current t = []"
  shows "last_token (scan (QuoteArg a @ concat (map (\<lambda>a. '' '' @ QuoteArg a) as)) t) = tk_tokens t @ a # as"
  using assms
proof (induction as arbitrary: a t)
  case Nil
  obtain u where u: "\<And>s. scan (QuoteArg a @ s) t = scan s u" "idle u"
      "tk_tokens u = tk_tokens t @ [a] \<and> tk_current u = [] \<or> tk_tokens u = tk_tokens t \<and> tk_current u = a \<and> a \<noteq> []"
    using scan_QuoteArg [of a t] Nil.prems by blast
  have "scan (QuoteArg a @ concat (map (\<lambda>a. '' '' @ QuoteArg a) [])) t = u" using u(1) [of "[]"] by simp
  then show ?case using u(2,3) by (auto simp: last_token_def idle_def)
next
  case (Cons b as)
  let ?s = "concat (map (\<lambda>a. '' '' @ QuoteArg a) as)"
  obtain u where u: "\<And>s. scan (QuoteArg a @ s) t = scan s u" "idle u"
      "tk_tokens u = tk_tokens t @ [a] \<and> tk_current u = [] \<or> tk_tokens u = tk_tokens t \<and> tk_current u = a \<and> a \<noteq> []"
    using scan_QuoteArg [of a t] Cons.prems by blast
  define v where "v = (if tk_current u \<noteq> [] then end_token u else u)"
  have v: "idle v" "tk_current v = []" "tk_tokens v = tk_tokens t @ [a]"
    using u(2,3) by (auto simp: v_def end_token_def idle_def)
  have "scan (CHR 0x20 # QuoteArg b @ ?s) u = scan (QuoteArg b @ ?s) v"
    using u(2) by (simp add: scan_ascii scan_rune_def v_def idle_def)
  then have "scan (QuoteArg a @ concat (map (\<lambda>a. '' '' @ QuoteArg a) (b # as))) t = scan (QuoteArg b @ ?s) v"
    using u(1) by simp
  then show ?case using Cons.IH [of b v] Cons.prems v by simp
qed

text \<open>A joined line starts and ends with something that is not white space.\<close>

lemma QuoteArg_ends:
  assumes "valid_utf8 a"
  shows "\<exists>r q. is_rune r \<and> \<not> IsSpace r \<and> prefix r (QuoteArg a) \<and> is_rune q \<and> \<not> IsSpace q \<and> suffix q (QuoteArg a)"
proof -
  note a = valid_runes [OF assms]
  have q: "is_rune [CHR 0x22]" "\<not> IsSpace [CHR 0x22]" by (simp_all add: IsSpace_def space_runes_def)
  show ?thesis
  proof (cases "a \<noteq> [] \<and> (\<forall>r \<in> set (runes a). plain_rune r)")
    case True
    then have "QuoteArg a = concat (runes a)" "runes a \<noteq> []" using a by (auto simp: QuoteArg_def plain_rune_def)
    moreover have "prefix (hd (runes a)) (concat (runes a))" using \<open>runes a \<noteq> []\<close> by (cases "runes a") auto
    moreover have "suffix (last (runes a)) (concat (runes a))"
      using \<open>runes a \<noteq> []\<close> by (cases "runes a" rule: rev_cases) (auto simp: suffix_def)
    ultimately show ?thesis
      using True by (intro exI [of _ "hd (runes a)"] exI [of _ "last (runes a)"]) (simp add: plain_rune_def)
  next
    case False
    then have "QuoteArg a = CHR 0x22 # concat (map quote_rune (runes a)) @ [CHR 0x22]"
      using a by (auto simp: QuoteArg_def plain_rune_def)
    then show ?thesis using q by (intro exI [of _ "[CHR 0x22]"]) (simp add: suffix_def)
  qed
qed



section \<open>Lines without quotes\<close>

text \<open>What such a line means: the words between white space.\<close>

definition is_white :: "char \<Rightarrow> bool" where
  "is_white c \<longleftrightarrow> c \<in> {CHR 0x20, CHR 0x09, CHR 0x0A, CHR 0x0D}"

fun words_from :: "bytes \<Rightarrow> bytes \<Rightarrow> bytes list" where
  "words_from w [] = (if w = [] then [] else [w])"
| "words_from w (c # s) = (if is_white c then (if w = [] then [] else [w]) @ words_from [] s else words_from (w @ [c]) s)"

lemma words_from_rune: "\<forall>c \<in> set r. \<not> is_white c \<Longrightarrow> words_from w (r @ s) = words_from (w @ r) s"
  by (induction r arbitrary: w) auto

lemma rune_not_white:
  assumes "is_rune r" "c \<in> set r" "is_white c"
  shows "r = [c]"
proof -
  obtain d ds where r: "r = d # ds" "list_all utf8_cont ds" "ds \<noteq> [] \<longrightarrow> (128 \<le> (of_char d :: nat))"
    using rune_shape [OF assms(1)] by blast
  have "(of_char c :: nat) < 128" using assms(3) by (auto simp: is_white_def)
  moreover then have "\<not> utf8_cont c" by (simp add: utf8_cont_def)
  ultimately show ?thesis using assms(2) r by (cases ds) (auto simp: list_all_iff)
qed

lemma scan_words:
  assumes "\<forall>r \<in> set rs. is_rune r \<and> r \<notin> {[CHR 0x22], [CHR 0x27], [CHR 0x5C]}" "idle t"
  shows "last_token (scan (concat rs) t) = tk_tokens t @ words_from (tk_current t) (concat rs)"
  using assms
proof (induction rs arbitrary: t)
  case Nil
  then show ?case by (auto simp: last_token_def idle_def)
next
  case (Cons r rs)
  let ?t = "scan_rune r (concat rs) t"
  have t: "idle ?t" using Cons.prems by (auto simp: scan_rune_def idle_def put_rune_def end_token_def)
  have "last_token (scan (concat (r # rs)) t) = tk_tokens ?t @ words_from (tk_current ?t) (concat rs)"
    using Cons.IH [OF _ t] Cons.prems(1) by (simp add: scan_append)
  also have "\<dots> = tk_tokens t @ words_from (tk_current t) (concat (r # rs))"
  proof (cases "\<exists>c. r = [c] \<and> is_white c")
    case True
    then show ?thesis using Cons.prems(2) by (auto simp: scan_rune_def idle_def end_token_def is_white_def)
  next
    case False
    then have "\<forall>c \<in> set r. \<not> is_white c" using rune_not_white Cons.prems(1) by auto
    moreover have "r \<notin> {[CHR 0x20], [CHR 0x09], [CHR 0x0A], [CHR 0x0D]}" using False by (auto simp: is_white_def)
    then have "?t = put_rune r t" using Cons.prems by (auto simp: scan_rune_def idle_def)
    ultimately show ?thesis by (simp add: put_rune_def words_from_rune)
  qed
  finally show ?case .
qed

text \<open>
  On a line of valid UTF-8 without quotes and backslashes the scanner is the reference that takes the
  words between spaces, tabs and line ends.
\<close>

theorem tokens_are_words:
  assumes "valid_utf8 s" "CHR 0x22 \<notin> set s" "CHR 0x27 \<notin> set s" "CHR 0x5C \<notin> set s"
  shows "parseTokens s = words_from [] s"
proof -
  note s = valid_runes [OF assms(1)]
  have "set r \<subseteq> set s" if "r \<in> set (runes s)" for r using s that by (metis UN_upper set_concat)
  then have "\<forall>r \<in> set (runes s). is_rune r \<and> r \<notin> {[CHR 0x22], [CHR 0x27], [CHR 0x5C]}" using s assms(2-4) by fastforce
  from scan_words [OF this, of new_scanner] s show ?thesis by (simp add: parseTokens_def new_scanner_def idle_def)
qed

theorem tokens_are_words_witness: "parseTokens ''  ls  -l x'' = [''ls'', ''-l'', ''x'']"
  using tokens_are_words [of "''  ls  -l x''"] by (simp add: valid_utf8_ascii is_white_def)

text \<open>
  An escaped space at the end of the line is lost: \<open>TrimSpace\<close> removes it before the scanner sees it, and the
  backslash that is left escapes nothing.  Text next to a closing quote becomes a token of its own.
\<close>

lemma trailing_escaped_space: "ParseCommandLine (''ls a'' @ [CHR 0x5C, CHR 0x20]) = (''ls'', Some [''a''])"
  by code_simp

lemma quote_splits: "ParseCommandLine (''x '' @ [CHR 0x22] @ ''a'' @ [CHR 0x22] @ ''b'') = (''x'', Some [''a'', ''b''])"
  by code_simp

end
