(* ===== verification/Json_Indent.thy ===== *)
theory Json_Indent
  imports Json_Struct
begin

text \<open>
  \<open>json.MarshalIndent\<close> with two spaces per level, and that reading its text gives the value back.
\<close>

definition new_line :: "nat \<Rightarrow> string" where
  "new_line d = CHR 0x0A # replicate (2 * d) (CHR 0x20)"

fun json_indent :: "nat \<Rightarrow> json \<Rightarrow> string" where
  "json_indent d (JArr vs) =
     (if vs = [] then ''[]''
      else CHR ''['' # commas (map (\<lambda>v. new_line (Suc d) @ json_indent (Suc d) v) vs) @ new_line d @ '']'')"
| "json_indent d (JObj ms) =
     (if ms = [] then ''{}''
      else CHR ''{'' # commas (map (\<lambda>(k, v). new_line (Suc d) @ json_quote k @ '': '' @ json_indent (Suc d) v) ms) @ new_line d @ ''}'')"
| "json_indent d v = json_text v"

section \<open>Reading it back\<close>

lemma skip_new_line [simp]: "skip_ws (new_line d @ s) = skip_ws s"
  by (auto simp: skip_ws_def new_line_def is_ws_def dropWhile_append)

lemma skip_space [simp]: "skip_ws (CHR 0x20 # s) = skip_ws s"
  by (simp add: skip_ws_def is_ws_def)

lemma num_end_new_line [simp]: "num_end (new_line d @ s)"
  by (simp add: num_end_def new_line_def num_char_def is_digit_def)

lemma json_val_new_line [simp]: "json_val n (new_line d @ s) = json_val n s"
  by (cases n) simp_all

lemma json_val_space [simp]: "json_val n (CHR 0x20 # s) = json_val n s"
  by (cases n) simp_all

lemma json_members_new_line [simp]: "json_members n (new_line d @ s) = json_members n s"
  by (cases n) simp_all

definition reads_indented :: "json \<Rightarrow> bool" where
  "reads_indented v \<longleftrightarrow> (\<forall>d n t. length (json_indent d v) \<le> n \<longrightarrow> num_end t \<longrightarrow> json_val n (json_indent d v @ t) = Some (v, t))"

lemma reads_indentedD:
  "reads_indented v \<Longrightarrow> length (json_indent d v) \<le> n \<Longrightarrow> num_end t \<Longrightarrow> json_val n (json_indent d v @ t) = Some (v, t)"
  by (simp add: reads_indented_def)

lemma indented_elems:
  assumes "vs \<noteq> []" "\<forall>v \<in> set vs. reads_indented v"
    and "length (commas (map (\<lambda>v. new_line e @ json_indent e v) vs)) \<le> n"
  shows "json_elems n (commas (map (\<lambda>v. new_line e @ json_indent e v) vs) @ new_line d @ CHR '']'' # t) = Some (vs, t)"
  using assms
proof (induction vs arbitrary: n rule: list_nonempty_induct)
  case (single v)
  then obtain k where k: "n = Suc k" "length (json_indent e v) \<le> k" by (cases n) (auto simp: new_line_def)
  have "json_val k (json_indent e v @ new_line d @ CHR '']'' # t) = Some (v, new_line d @ CHR '']'' # t)"
    using single k by (intro reads_indentedD) auto
  then show ?case using k by simp
next
  case (cons v vs)
  then obtain k w ws where k: "n = Suc k" and vs: "vs = w # ws" by (cases n; cases vs) (auto simp: new_line_def)
  let ?rest = "commas (map (\<lambda>v. new_line e @ json_indent e v) vs) @ new_line d @ CHR '']'' # t"
  have "json_val k (json_indent e v @ CHR '','' # ?rest) = Some (v, CHR '','' # ?rest)"
    using cons.prems k vs by (intro reads_indentedD) (auto simp: new_line_def)
  moreover have "json_elems k ?rest = Some (vs, t)" using cons k vs by (simp add: new_line_def)
  ultimately show ?case using k vs by simp
qed

lemma indented_members:
  assumes "ms \<noteq> []" "\<forall>(k, v) \<in> set ms. valid_utf8 k \<and> reads_indented v"
    and "length (commas (map (\<lambda>(k, v). new_line e @ json_quote k @ '': '' @ json_indent e v) ms)) \<le> n"
  shows "json_members n (commas (map (\<lambda>(k, v). new_line e @ json_quote k @ '': '' @ json_indent e v) ms)
    @ new_line d @ CHR ''}'' # t) = Some (ms, t)"
  using assms
proof (induction ms arbitrary: n rule: list_nonempty_induct)
  case (single m)
  obtain key v where m: "m = (key, v)" by force
  with single obtain k where k: "n = Suc k" "length (json_indent e v) \<le> k" by (cases n) (auto simp: new_line_def)
  have "json_val k (json_indent e v @ new_line d @ CHR ''}'' # t) = Some (v, new_line d @ CHR ''}'' # t)"
    using single m k by (intro reads_indentedD) auto
  then show ?case using single m k by (simp add: json_quote_def json_str_esc)
next
  case (cons m ms)
  obtain key v where m: "m = (key, v)" by force
  obtain k w ws where k: "n = Suc k" and ms: "ms = w # ws" using cons by (cases n; cases ms) (auto simp: m new_line_def)
  let ?rest = "commas (map (\<lambda>(k, v). new_line e @ json_quote k @ '': '' @ json_indent e v) ms) @ new_line d @ CHR ''}'' # t"
  have "json_val k (json_indent e v @ CHR '','' # ?rest) = Some (v, CHR '','' # ?rest)"
    using cons.prems k ms m by (intro reads_indentedD) (auto simp: new_line_def)
  moreover have "json_members k ?rest = Some (ms, t)" using cons k ms m by (simp add: new_line_def)
  ultimately show ?case using k ms m cons.prems by (simp add: json_quote_def json_str_esc)
qed

lemma json_indent_head:
  "json_ok v \<Longrightarrow> \<exists>c r. json_indent d v = c # r \<and> \<not> is_ws c \<and> c \<noteq> CHR '']'' \<and> c \<noteq> CHR ''}''"
  using json_text_head [of v] by (cases v) auto

lemma reads_flat: "json_ok v \<Longrightarrow> (\<And>d. json_indent d v = json_text v) \<Longrightarrow> reads_indented v"
  using reads_json [of v] by (simp add: reads_indented_def reads_def)

lemma reads_indented_json: "json_ok v \<Longrightarrow> reads_indented v"
proof (induction v rule: json_ok.induct)
  case (3 vs)
  have "json_val n (json_indent d (JArr vs) @ t) = Some (JArr vs, t)" if n: "length (json_indent d (JArr vs)) \<le> n" for n d t
  proof (cases vs)
    case Nil
    then show ?thesis using n by (cases n) auto
  next
    case (Cons w ws)
    have all: "\<forall>v \<in> set vs. reads_indented v" using 3 by (auto simp: list_all_iff)
    let ?b = "commas (map (\<lambda>v. new_line (Suc d) @ json_indent (Suc d) v) vs)"
    obtain k where k: "n = Suc k" "length ?b \<le> k" using n Cons by (cases n) auto
    obtain c r where c: "json_indent (Suc d) w = c # r" "\<not> is_ws c" "c \<noteq> CHR '']''" using json_indent_head [of w] 3 Cons by force
    then obtain r' where b: "?b = new_line (Suc d) @ c # r'" using Cons by (cases ws) auto
    have "json_elems k (c # r' @ new_line d @ CHR '']'' # t) = json_elems k (?b @ new_line d @ CHR '']'' # t)"
      unfolding b by (cases k) simp_all
    also have "\<dots> = Some (vs, t)" using indented_elems [of vs "Suc d" k d t] all k Cons by simp
    finally show ?thesis using k c b Cons by (simp del: json_elems.simps)
  qed
  then show ?case by (simp add: reads_indented_def)
next
  case (4 ms)
  have "json_val n (json_indent d (JObj ms) @ t) = Some (JObj ms, t)" if n: "length (json_indent d (JObj ms)) \<le> n" for n d t
  proof (cases ms)
    case Nil
    then show ?thesis using n by (cases n) auto
  next
    case (Cons w ws)
    have all: "\<forall>(k, v) \<in> set ms. valid_utf8 k \<and> reads_indented v" using 4 by (fastforce simp: list_all_iff)
    let ?b = "commas (map (\<lambda>(k, v). new_line (Suc d) @ json_quote k @ '': '' @ json_indent (Suc d) v) ms)"
    obtain k where k: "n = Suc k" "length ?b \<le> k" using n Cons by (cases n) auto
    obtain r' where b: "?b = new_line (Suc d) @ CHR 0x22 # r'" using Cons by (cases ws; cases w) (auto simp: json_quote_def)
    have "json_members k (CHR 0x22 # r' @ new_line d @ CHR ''}'' # t) = json_members k (?b @ new_line d @ CHR ''}'' # t)"
      unfolding b by simp
    also have "\<dots> = Some (ms, t)" using indented_members [of ms "Suc d" k d t] all k Cons by simp
    finally show ?thesis using k b Cons by (simp del: json_members.simps)
  qed
  then show ?case by (simp add: reads_indented_def)
qed (rule reads_flat; simp)+

lemma json_parse_indent:
  assumes "json_ok v" "json_depth v \<le> 10000"
  shows "json_parse (json_indent d v) = Some v"
proof -
  have "json_val (Suc (2 * length (json_indent d v))) (json_indent d v @ []) = Some (v, [])"
    by (rule reads_indentedD [OF reads_indented_json [OF assms(1)]]) simp_all
  then show ?thesis using assms(2) by (simp add: json_parse_def skip_ws_def del: json_val.simps)
qed

end
