(* ===== verification/Config.thy ===== *)
theory Config
  imports Json_Indent Filesystem
begin

text \<open>
  \<open>core/config/config.go\<close>, with the directory of \<open>core/constant/constant.go\<close>: the configuration, its file, and
  the instance the process shares.  A configuration is a value; the pointer the process shares is the
  instance of the store.
\<close>

section \<open>The configuration\<close>

record config =
  cf_ListenHost :: bytes
  cf_ListenPort :: int
  cf_Bootstrapper :: bool
  cf_Relay :: bool
  cf_Seed :: int
  cf_B64PrivKey :: bytes
  cf_ReferenceToken :: bytes
  cf_Metrics :: bool
  cf_MetricsPort :: int
  cf_DisablePolicy :: bool
  cf_NoSocketServer :: bool
  cf_APIServer :: bool
  cf_APIPort :: int
  cf_Debug :: bool
  cf_WhiteList :: "bytes list option"
  cf_DataDir :: bytes

text \<open>What the process gets from its surroundings; the key is a generated and encoded private key.\<close>

record start_env =
  se_GOOS :: bytes
  se_HomeDir :: "bytes result"
  se_Getwd :: "bytes result"
  se_key :: "bytes result"

definition defaultDataDir :: "start_env \<Rightarrow> bytes" where
  "defaultDataDir env = (case se_Getwd env of Inl _ \<Rightarrow> [] | Inr pwd \<Rightarrow> path_Join [pwd, ''data''])"

definition DefaultConfig :: "start_env \<Rightarrow> config" where
  "DefaultConfig env = \<lparr>cf_ListenHost = ''0.0.0.0'', cf_ListenPort = 0, cf_Bootstrapper = False, cf_Relay = False, cf_Seed = 0,
     cf_B64PrivKey = (case se_key env of Inl _ \<Rightarrow> [] | Inr k \<Rightarrow> k), cf_ReferenceToken = [], cf_Metrics = False, cf_MetricsPort = 5001,
     cf_DisablePolicy = False, cf_NoSocketServer = False, cf_APIServer = True, cf_APIPort = 1524, cf_Debug = False,
     cf_WhiteList = Some [], cf_DataDir = defaultDataDir env\<rparr>"

text \<open>Every member has \<open>omitempty\<close>: a zero value is not written.\<close>

definition config_to_json :: "config \<Rightarrow> json" where
  "config_to_json c = jobj
    [fld_omit (cf_ListenHost c = []) ''listen_host'' (JStr (cf_ListenHost c)),
     fld_omit (cf_ListenPort c = 0) ''listen_port'' (jint (cf_ListenPort c)),
     fld_omit (\<not> cf_Bootstrapper c) ''bootstrapper'' (JBool (cf_Bootstrapper c)),
     fld_omit (\<not> cf_Relay c) ''relay'' (JBool (cf_Relay c)),
     fld_omit (cf_Seed c = 0) ''seed'' (jint (cf_Seed c)),
     fld_omit (cf_B64PrivKey c = []) ''b64privkey'' (JStr (cf_B64PrivKey c)),
     fld_omit (cf_ReferenceToken c = []) ''reference_token'' (JStr (cf_ReferenceToken c)),
     fld_omit (\<not> cf_Metrics c) ''metrics'' (JBool (cf_Metrics c)),
     fld_omit (cf_MetricsPort c = 0) ''metrics_port'' (jint (cf_MetricsPort c)),
     fld_omit (\<not> cf_DisablePolicy c) ''disable_policy'' (JBool (cf_DisablePolicy c)),
     fld_omit (\<not> cf_NoSocketServer c) ''no_socket'' (JBool (cf_NoSocketServer c)),
     fld_omit (\<not> cf_APIServer c) ''api'' (JBool (cf_APIServer c)),
     fld_omit (cf_APIPort c = 0) ''api_port'' (jint (cf_APIPort c)),
     fld_omit (\<not> cf_Debug c) ''debug'' (JBool (cf_Debug c)),
     fld_omit (cf_WhiteList c = None \<or> cf_WhiteList c = Some []) ''whitelist'' (jslice JStr (cf_WhiteList c)),
     fld_omit (cf_DataDir c = []) ''data_dir'' (JStr (cf_DataDir c))]"

definition config_fields :: "config fields" where
  "config_fields =
    [(''listen_host'', set_val as_str (\<lambda>x c. c\<lparr>cf_ListenHost := x\<rparr>)),
     (''listen_port'', set_val as_i64 (\<lambda>x c. c\<lparr>cf_ListenPort := x\<rparr>)),
     (''bootstrapper'', set_val as_bool (\<lambda>x c. c\<lparr>cf_Bootstrapper := x\<rparr>)),
     (''relay'', set_val as_bool (\<lambda>x c. c\<lparr>cf_Relay := x\<rparr>)),
     (''seed'', set_val as_i64 (\<lambda>x c. c\<lparr>cf_Seed := x\<rparr>)),
     (''b64privkey'', set_val as_str (\<lambda>x c. c\<lparr>cf_B64PrivKey := x\<rparr>)),
     (''reference_token'', set_val as_str (\<lambda>x c. c\<lparr>cf_ReferenceToken := x\<rparr>)),
     (''metrics'', set_val as_bool (\<lambda>x c. c\<lparr>cf_Metrics := x\<rparr>)),
     (''metrics_port'', set_val as_i64 (\<lambda>x c. c\<lparr>cf_MetricsPort := x\<rparr>)),
     (''disable_policy'', set_val as_bool (\<lambda>x c. c\<lparr>cf_DisablePolicy := x\<rparr>)),
     (''no_socket'', set_val as_bool (\<lambda>x c. c\<lparr>cf_NoSocketServer := x\<rparr>)),
     (''api'', set_val as_bool (\<lambda>x c. c\<lparr>cf_APIServer := x\<rparr>)),
     (''api_port'', set_val as_i64 (\<lambda>x c. c\<lparr>cf_APIPort := x\<rparr>)),
     (''debug'', set_val as_bool (\<lambda>x c. c\<lparr>cf_Debug := x\<rparr>)),
     (''whitelist'', set_ref (as_list [] as_str) (\<lambda>x c. c\<lparr>cf_WhiteList := x\<rparr>)),
     (''data_dir'', set_val as_str (\<lambda>x c. c\<lparr>cf_DataDir := x\<rparr>))]"

section \<open>The file\<close>

text \<open>On Unix; the error of \<open>UserHomeDir\<close> is looked at after its result was used.\<close>

definition StellarPath :: "start_env \<Rightarrow> bytes result" where
  "StellarPath env = (case se_HomeDir env of
      Inl e \<Rightarrow> Inl e
    | Inr home \<Rightarrow>
        (let homeDir = (if se_GOOS env = ''windows'' then path_Join [home, ''AppData/Roaming'']
           else if se_GOOS env = ''darwin'' then path_Join [home, ''Library/Application Support'']
           else if se_GOOS env = ''linux'' then path_Join [home, ''.local/share'']
           else home)
         in Inr (path_Join [homeDir, ''stellar''])))"

definition GetConfigPath :: "start_env \<Rightarrow> bytes result" where
  "GetConfigPath env = map_sum id (\<lambda>p. path_Join [p, ''config.json'']) (StellarPath env)"

text \<open>\<open>os.ReadFile\<close> and \<open>os.WriteFile\<close>.\<close>

definition os_ReadFile :: "bytes \<Rightarrow> filesys \<Rightarrow> bytes result" where
  "os_ReadFile path fs = (case os_Open path fs of
      Inl e \<Rightarrow> Inl e
    | Inr (FFile _ i) \<Rightarrow> Inr (fs_data fs ! i)
    | Inr (FDir _ _) \<Rightarrow> Inl (path_err ''read'' path EISDIR))"

definition os_WriteFile :: "bytes \<Rightarrow> bytes \<Rightarrow> filesys \<Rightarrow> goerr option \<times> filesys" where
  "os_WriteFile path b fs = (case os_Create path fs of
      (Inl e, fs) \<Rightarrow> (Some e, fs)
    | (Inr i, fs) \<Rightarrow> (None, fs\<lparr>fs_data := (fs_data fs)[i := b]\<rparr>))"

record config_store =
  cg_fs :: filesys
  cg_instance :: "config option"
  cg_once :: bool

text \<open>
  The result is the configuration and whether the file exists; a syntax error and a member of the wrong
  type are errors.
\<close>

definition loadConfigFromFile :: "start_env \<Rightarrow> filesys \<Rightarrow> (config \<times> bool) result" where
  "loadConfigFromFile env fs = (case GetConfigPath env of
      Inl e \<Rightarrow> Inl e
    | Inr configPath \<Rightarrow>
        if (case os_Stat configPath fs of Inl e \<Rightarrow> IsNotExist e | Inr _ \<Rightarrow> False) then Inr (DefaultConfig env, False)
        else (case os_ReadFile configPath fs of
            Inl e \<Rightarrow> Inl e
          | Inr data \<Rightarrow> (case unmarshal config_fields data (DefaultConfig env) of
                (c, good) \<Rightarrow> if good then Inr (c, True) else Inl (Err ''json: cannot unmarshal''))))"

section \<open>The shared instance\<close>

definition GetInstance :: "start_env \<Rightarrow> config_store \<Rightarrow> config option \<times> config_store" where
  "GetInstance env st =
     (if cg_once st then (cg_instance st, st)
      else (let c = (case loadConfigFromFile env (cg_fs st) of Inl _ \<Rightarrow> DefaultConfig env | Inr (c, _) \<Rightarrow> c)
            in (Some c, st\<lparr>cg_instance := Some c, cg_once := True\<rparr>)))"

definition saveUnlocked :: "start_env \<Rightarrow> config \<Rightarrow> config_store \<Rightarrow> goerr option \<times> config_store" where
  "saveUnlocked env c st = (case GetConfigPath env of
      Inl e \<Rightarrow> (Some e, st)
    | Inr configPath \<Rightarrow> (case StellarPath env of
          Inl e \<Rightarrow> (Some e, st)
        | Inr stellarPath \<Rightarrow> (case os_MkdirAll stellarPath (cg_fs st) of
              (Some e, fs) \<Rightarrow> (Some e, st\<lparr>cg_fs := fs\<rparr>)
            | (None, fs) \<Rightarrow> (case os_WriteFile configPath (json_indent 0 (config_to_json c)) fs of
                  (Some e, fs) \<Rightarrow> (Some e, st\<lparr>cg_fs := fs\<rparr>)
                | (None, fs) \<Rightarrow> (None, st\<lparr>cg_fs := fs, cg_instance := Some c\<rparr>)))))"

definition SaveConfig :: "start_env \<Rightarrow> config \<Rightarrow> config_store \<Rightarrow> goerr option \<times> config_store" where
  "SaveConfig env c st = saveUnlocked env c (st\<lparr>cg_instance := Some c\<rparr>)"

text \<open>The whitelist is set in the instance before the file is written, and stays set when that fails.\<close>

definition SyncWhiteList :: "start_env \<Rightarrow> bytes list option \<Rightarrow> config_store \<Rightarrow> goerr option \<times> config_store" where
  "SyncWhiteList env wl st = (case GetInstance env st of
      (None, st) \<Rightarrow> (Some (Err ''nil pointer dereference''), st)
    | (Some c, st) \<Rightarrow> (let c = c\<lparr>cf_WhiteList := wl\<rparr> in saveUnlocked env c (st\<lparr>cg_instance := Some c\<rparr>)))"

section \<open>A saved file is read back\<close>

text \<open>Every file of the tree has contents.\<close>

definition fs_ok :: "filesys \<Rightarrow> bool" where
  "fs_ok fs \<longleftrightarrow> (\<forall>l ok i. node_at (fs_root fs) l = Some (FFile ok i) \<longrightarrow> i < length (fs_data fs))"

lemma Create_new:
  assumes "os_Create p fs = (Inr i, fs')" "locate p fs = Inr l" "node_at (fs_root fs) l = None"
  shows "\<exists>es. node_at (fs_root fs) (butlast l) = Some (FDir True es)
    \<and> fs' = fs\<lparr>fs_root := set_node l (Some (FFile True i)) (fs_root fs), fs_data := fs_data fs @ [[]]\<rparr> \<and> i = length (fs_data fs)"
proof (cases "node_at (fs_root fs) (butlast l)")
  case None
  then show ?thesis using assms by (simp add: os_Create_def)
next
  case (Some n)
  show ?thesis
  proof (cases n)
    case (FDir w es)
    then show ?thesis using assms Some by (cases w) (auto simp: os_Create_def Let_def)
  qed (use assms Some in \<open>simp add: os_Create_def\<close>)
qed

lemma dir_above:
  assumes "node_at n (l @ r) = Some (FDir w es)"
  shows "\<exists>w es. node_at n l = Some (FDir w es)"
proof (cases "node_at n l")
  case (Some m)
  then have "node_at m r = Some (FDir w es)" using assms by (simp add: node_at_append)
  then show ?thesis using Some by (cases m; cases r) auto
qed (use assms in \<open>simp add: node_at_append\<close>)

lemma WriteFile_read:
  assumes "os_WriteFile p b fs = (None, fs')" "fs_ok fs"
  shows "os_ReadFile p fs' = Inr b" "\<exists>n. os_Stat p fs' = Inr n"
proof -
  obtain i fs1 where c: "os_Create p fs = (Inr i, fs1)" "fs' = fs1\<lparr>fs_data := (fs_data fs1)[i := b]\<rparr>"
    using assms(1) by (auto simp: os_WriteFile_def split: prod.splits sum.splits)
  have "\<exists>l. locate p fs1 = Inr l \<and> node_at (fs_root fs1) l = Some (FFile True i) \<and> i < length (fs_data fs1)"
  proof -
    obtain l where l: "locate p fs = Inr l" using c(1) by (auto simp: os_Create_def split: sum.splits)
    show ?thesis
    proof (cases "node_at (fs_root fs) l")
      case (Some n)
      then have n: "n = FFile True i \<and> fs1 = fs\<lparr>fs_data := (fs_data fs)[i := []]\<rparr>"
        using c(1) l by (cases n) (simp_all add: os_Create_def split: if_splits)
      then have "i < length (fs_data fs)" using Some assms(2) by (auto simp: fs_ok_def)
      moreover have "locate p fs1 = Inr l" using l n locate_same [of fs1 fs p] by simp
      ultimately show ?thesis using Some n by simp
    next
      case None
      then obtain es where d: "node_at (fs_root fs) (butlast l) = Some (FDir True es)"
          and f: "fs1 = fs\<lparr>fs_root := set_node l (Some (FFile True i)) (fs_root fs), fs_data := fs_data fs @ [[]]\<rparr>" "i = length (fs_data fs)"
        using Create_new [OF c(1) l None] by blast
      have "l \<noteq> []" using None by auto
      then have "parent_dir (fs_root fs) l" using d by (rule parent_dirI)
      then have n: "node_at (fs_root fs1) l = Some (FFile True i)" by (simp add: f(1) node_at_set)
      have "locate p fs1 = locate p (fs\<lparr>fs_root := set_node l (Some (FFile True i)) (fs_root fs)\<rparr>)"
        by (rule locate_same) (simp_all add: f(1))
      also have "\<dots> = Inr l" by (rule locate_set [OF _ l]) (simp add: no_dir_def None)
      finally show ?thesis using n f by simp
    qed
  qed
  then obtain l where l: "locate p fs1 = Inr l" "node_at (fs_root fs1) l = Some (FFile True i)" "i < length (fs_data fs1)" by blast
  have "locate p fs' = Inr l" using l(1) locate_same [of fs' fs1 p] c(2) by simp
  then show "os_ReadFile p fs' = Inr b" "\<exists>n. os_Stat p fs' = Inr n"
    using l c(2) by (simp_all add: os_ReadFile_def os_Open_def os_Stat_def)
qed

lemma mkdir_walk_ok:
  assumes "mkdir_walk cur ps root = (e, root')" "\<forall>l ok i. node_at root l = Some (FFile ok i) \<longrightarrow> i < k"
  shows "\<forall>l ok i. node_at root' l = Some (FFile ok i) \<longrightarrow> i < k"
  using assms
proof (induction ps arbitrary: cur root)
  case (Cons p ps)
  let ?q = "cur @ [p]"
  have new: "\<forall>l ok i. node_at (set_node ?q (Some (FDir True [])) root) l = Some (FFile ok i) \<longrightarrow> i < k"
    if d: "node_at root cur = Some (FDir True es)" for es
  proof (intro allI impI)
    fix l ok i
    let ?root = "set_node ?q (Some (FDir True [])) root"
    assume f: "node_at ?root l = Some (FFile ok i)"
    have par: "parent_dir root ?q" by (rule parent_dirI) (use d in simp_all)
    consider r where "l = ?q @ r" | r where "cur = l @ r" | "\<not> prefix ?q l" "\<not> prefix l ?q"
      by (auto simp: prefix_def append_eq_append_conv2 Cons_eq_append_conv) (metis append_Nil2)
    then show "i < k"
    proof cases
      case 1
      have "node_at ?root (?q @ r) = node_at (FDir True []) r"
        using node_at_append [of ?root ?q r] node_at_set [OF par, of "Some (FDir True [])"] by simp
      then show ?thesis using f 1 by (cases r) simp_all
    next
      case 2
      then obtain es' w where "node_at root l = Some (FDir w es')" using dir_above [of root l r] d by blast
      moreover have "\<not> prefix ?q l" using 2 by (auto simp: prefix_def)
      ultimately obtain es'' where "node_at ?root l = Some (FDir w es'')"
        using node_at_set_dir [of ?q l root w es' "Some (FDir True [])"] by blast
      then show ?thesis using f by simp
    next
      case 3
      then show ?thesis using f node_at_set_other [of ?q l] Cons.prems(2) by metis
    qed
  qed
  show ?case
    using Cons.prems Cons.IH new by (auto split: if_splits option.splits fnode.splits bool.splits)
qed simp

lemma MkdirAll_ok: "os_MkdirAll p fs = (e, fs') \<Longrightarrow> fs_ok fs \<Longrightarrow> fs_ok fs'"
  using mkdir_walk_ok by (fastforce simp: os_MkdirAll_def fs_ok_def split: if_splits prod.splits)

section \<open>What a saved configuration is read back as\<close>

text \<open>The values JSON can carry: valid strings and 64 bit numbers.\<close>

definition config_ok :: "config \<Rightarrow> bool" where
  "config_ok c \<longleftrightarrow> list_all valid_utf8 [cf_ListenHost c, cf_B64PrivKey c, cf_ReferenceToken c, cf_DataDir c]
     \<and> list_all (\<lambda>i. - (2 ^ 63) \<le> i \<and> i < 2 ^ 63) [cf_ListenPort c, cf_Seed c, cf_MetricsPort c, cf_APIPort c]
     \<and> (case cf_WhiteList c of None \<Rightarrow> True | Some l \<Rightarrow> list_all valid_utf8 l)"

text \<open>A zero value comes back as the default of the process that reads it.\<close>

definition restored :: "config \<Rightarrow> config \<Rightarrow> config" where
  "restored c def = def
    \<lparr>cf_ListenHost := if cf_ListenHost c = [] then cf_ListenHost def else cf_ListenHost c,
     cf_ListenPort := if cf_ListenPort c = 0 then cf_ListenPort def else cf_ListenPort c,
     cf_Bootstrapper := if \<not> cf_Bootstrapper c then cf_Bootstrapper def else cf_Bootstrapper c,
     cf_Relay := if \<not> cf_Relay c then cf_Relay def else cf_Relay c,
     cf_Seed := if cf_Seed c = 0 then cf_Seed def else cf_Seed c,
     cf_B64PrivKey := if cf_B64PrivKey c = [] then cf_B64PrivKey def else cf_B64PrivKey c,
     cf_ReferenceToken := if cf_ReferenceToken c = [] then cf_ReferenceToken def else cf_ReferenceToken c,
     cf_Metrics := if \<not> cf_Metrics c then cf_Metrics def else cf_Metrics c,
     cf_MetricsPort := if cf_MetricsPort c = 0 then cf_MetricsPort def else cf_MetricsPort c,
     cf_DisablePolicy := if \<not> cf_DisablePolicy c then cf_DisablePolicy def else cf_DisablePolicy c,
     cf_NoSocketServer := if \<not> cf_NoSocketServer c then cf_NoSocketServer def else cf_NoSocketServer c,
     cf_APIServer := if \<not> cf_APIServer c then cf_APIServer def else cf_APIServer c,
     cf_APIPort := if cf_APIPort c = 0 then cf_APIPort def else cf_APIPort c,
     cf_Debug := if \<not> cf_Debug c then cf_Debug def else cf_Debug c,
     cf_WhiteList := if cf_WhiteList c = None \<or> cf_WhiteList c = Some [] then cf_WhiteList def else cf_WhiteList c,
     cf_DataDir := if cf_DataDir c = [] then cf_DataDir def else cf_DataDir c\<rparr>"

definition members :: "(string \<times> json) option list \<Rightarrow> (string \<times> json) list" where
  "members fs = concat (map (\<lambda>f. case f of None \<Rightarrow> [] | Some m \<Rightarrow> [m]) fs)"

lemma set_members:
  assumes "e \<or> (\<exists>f. find_field fs k = Some f \<and> f v r = Some r')"
  shows "set_fields fs (members (fld_omit e k v # ms)) r True = set_fields fs (members ms) (if e then r else r') True"
  using assms by (auto simp: members_def fld_omit_def)

lemma find_config:
  "find_field config_fields ''listen_host'' = Some (set_val as_str (\<lambda>x c. c\<lparr>cf_ListenHost := x\<rparr>))"
  "find_field config_fields ''listen_port'' = Some (set_val as_i64 (\<lambda>x c. c\<lparr>cf_ListenPort := x\<rparr>))"
  "find_field config_fields ''bootstrapper'' = Some (set_val as_bool (\<lambda>x c. c\<lparr>cf_Bootstrapper := x\<rparr>))"
  "find_field config_fields ''relay'' = Some (set_val as_bool (\<lambda>x c. c\<lparr>cf_Relay := x\<rparr>))"
  "find_field config_fields ''seed'' = Some (set_val as_i64 (\<lambda>x c. c\<lparr>cf_Seed := x\<rparr>))"
  "find_field config_fields ''b64privkey'' = Some (set_val as_str (\<lambda>x c. c\<lparr>cf_B64PrivKey := x\<rparr>))"
  "find_field config_fields ''reference_token'' = Some (set_val as_str (\<lambda>x c. c\<lparr>cf_ReferenceToken := x\<rparr>))"
  "find_field config_fields ''metrics'' = Some (set_val as_bool (\<lambda>x c. c\<lparr>cf_Metrics := x\<rparr>))"
  "find_field config_fields ''metrics_port'' = Some (set_val as_i64 (\<lambda>x c. c\<lparr>cf_MetricsPort := x\<rparr>))"
  "find_field config_fields ''disable_policy'' = Some (set_val as_bool (\<lambda>x c. c\<lparr>cf_DisablePolicy := x\<rparr>))"
  "find_field config_fields ''no_socket'' = Some (set_val as_bool (\<lambda>x c. c\<lparr>cf_NoSocketServer := x\<rparr>))"
  "find_field config_fields ''api'' = Some (set_val as_bool (\<lambda>x c. c\<lparr>cf_APIServer := x\<rparr>))"
  "find_field config_fields ''api_port'' = Some (set_val as_i64 (\<lambda>x c. c\<lparr>cf_APIPort := x\<rparr>))"
  "find_field config_fields ''debug'' = Some (set_val as_bool (\<lambda>x c. c\<lparr>cf_Debug := x\<rparr>))"
  "find_field config_fields ''whitelist'' = Some (set_ref (as_list [] as_str) (\<lambda>x c. c\<lparr>cf_WhiteList := x\<rparr>))"
  "find_field config_fields ''data_dir'' = Some (set_val as_str (\<lambda>x c. c\<lparr>cf_DataDir := x\<rparr>))"
  by (simp_all add: find_field_def config_fields_def)

text \<open>Updates with the identity.\<close>

lemma update_id:
  "cf_ListenHost_update (\<lambda>y. y) r = r"
  "cf_ListenPort_update (\<lambda>y. y) r = r"
  "cf_Bootstrapper_update (\<lambda>y. y) r = r"
  "cf_Relay_update (\<lambda>y. y) r = r"
  "cf_Seed_update (\<lambda>y. y) r = r"
  "cf_B64PrivKey_update (\<lambda>y. y) r = r"
  "cf_ReferenceToken_update (\<lambda>y. y) r = r"
  "cf_Metrics_update (\<lambda>y. y) r = r"
  "cf_MetricsPort_update (\<lambda>y. y) r = r"
  "cf_DisablePolicy_update (\<lambda>y. y) r = r"
  "cf_NoSocketServer_update (\<lambda>y. y) r = r"
  "cf_APIServer_update (\<lambda>y. y) r = r"
  "cf_APIPort_update (\<lambda>y. y) r = r"
  "cf_Debug_update (\<lambda>y. y) r = r"
  "cf_WhiteList_update (\<lambda>y. y) r = r"
  "cf_DataDir_update (\<lambda>y. y) r = r"
  by simp_all

lemma white_list_back: "wl \<noteq> None \<Longrightarrow> as_list [] as_str (jslice JStr wl) = wl \<and> jslice JStr wl \<noteq> JNull"
  using as_list_map [of _ as_str JStr "[]"] by (auto simp: jslice_def)

lemma set_text:
  assumes "find_field fs k = Some (set_val as_str (\<lambda>x. U (\<lambda>_. x)))" "\<And>r. U (\<lambda>y. y) r = r"
  shows "set_fields fs (members (fld_omit e k (JStr x) # ms)) r True = set_fields fs (members ms) (U (\<lambda>y. if e then y else x) r) True"
  using set_members [of e fs k "JStr x" r "U (\<lambda>_. x) r" ms] assms by (cases e) simp_all

lemma set_flag:
  assumes "find_field fs k = Some (set_val as_bool (\<lambda>x. U (\<lambda>_. x)))" "\<And>r. U (\<lambda>y. y) r = r"
  shows "set_fields fs (members (fld_omit e k (JBool x) # ms)) r True = set_fields fs (members ms) (U (\<lambda>y. if e then y else x) r) True"
  using set_members [of e fs k "JBool x" r "U (\<lambda>_. x) r" ms] assms by (cases e) simp_all

lemma set_number:
  assumes "find_field fs k = Some (set_val as_i64 (\<lambda>x. U (\<lambda>_. x)))" "\<And>r. U (\<lambda>y. y) r = r" "- (2 ^ 63) \<le> x \<and> x < 2 ^ 63"
  shows "set_fields fs (members (fld_omit e k (jint x) # ms)) r True = set_fields fs (members ms) (U (\<lambda>y. if e then y else x) r) True"
  using set_members [of e fs k "jint x" r "U (\<lambda>_. x) r" ms] assms by (cases e) (simp_all add: as_i64_jint)

lemma set_list:
  assumes "find_field fs k = Some (set_ref (as_list [] as_str) (\<lambda>x. U (\<lambda>_. x)))" "\<And>r. U (\<lambda>y. y) r = r" "wl = None \<longrightarrow> e"
  shows "set_fields fs (members (fld_omit e k (jslice JStr wl) # ms)) r True = set_fields fs (members ms) (U (\<lambda>y. if e then y else wl) r) True"
  using set_members [of e fs k "jslice JStr wl" r "U (\<lambda>_. wl) r" ms] white_list_back [of wl] assms by (cases e) auto

lemma config_decode:
  assumes "config_ok c"
  shows "into_struct config_fields (config_to_json c) def = (restored c def, True)"
proof -
  have n: "- (2 ^ 63) \<le> cf_ListenPort c \<and> cf_ListenPort c < 2 ^ 63" "- (2 ^ 63) \<le> cf_Seed c \<and> cf_Seed c < 2 ^ 63"
      "- (2 ^ 63) \<le> cf_MetricsPort c \<and> cf_MetricsPort c < 2 ^ 63" "- (2 ^ 63) \<le> cf_APIPort c \<and> cf_APIPort c < 2 ^ 63"
    using assms by (simp_all add: config_ok_def)
  have wl: "cf_WhiteList c = None \<longrightarrow> cf_WhiteList c = None \<or> cf_WhiteList c = Some []" by simp
  have obj: "into_struct config_fields (jobj fs) r = set_fields config_fields (members fs) r True" for fs r
    by (simp add: into_struct_def jobj_def members_def)
  note steps = set_text [where U = cf_ListenHost_update, OF find_config(1) update_id(1)]
    set_number [where U = cf_ListenPort_update, OF find_config(2) update_id(2) n(1)]
    set_flag [where U = cf_Bootstrapper_update, OF find_config(3) update_id(3)]
    set_flag [where U = cf_Relay_update, OF find_config(4) update_id(4)]
    set_number [where U = cf_Seed_update, OF find_config(5) update_id(5) n(2)]
    set_text [where U = cf_B64PrivKey_update, OF find_config(6) update_id(6)]
    set_text [where U = cf_ReferenceToken_update, OF find_config(7) update_id(7)]
    set_flag [where U = cf_Metrics_update, OF find_config(8) update_id(8)]
    set_number [where U = cf_MetricsPort_update, OF find_config(9) update_id(9) n(3)]
    set_flag [where U = cf_DisablePolicy_update, OF find_config(10) update_id(10)]
    set_flag [where U = cf_NoSocketServer_update, OF find_config(11) update_id(11)]
    set_flag [where U = cf_APIServer_update, OF find_config(12) update_id(12)]
    set_number [where U = cf_APIPort_update, OF find_config(13) update_id(13) n(4)]
    set_flag [where U = cf_Debug_update, OF find_config(14) update_id(14)]
    set_list [where U = cf_WhiteList_update, OF find_config(15) update_id(15) wl]
    set_text [where U = cf_DataDir_update, OF find_config(16) update_id(16)]
  have end': "set_fields config_fields (members []) r True = (r, True)" for r by (simp add: members_def)
  obtain a b d e f g h i j k l m n p q r where def: "def = \<lparr>cf_ListenHost = a, cf_ListenPort = b, cf_Bootstrapper = d, cf_Relay = e,
      cf_Seed = f, cf_B64PrivKey = g, cf_ReferenceToken = h, cf_Metrics = i, cf_MetricsPort = j, cf_DisablePolicy = k, cf_NoSocketServer = l,
      cf_APIServer = m, cf_APIPort = n, cf_Debug = p, cf_WhiteList = q, cf_DataDir = r\<rparr>" by (cases def)
  show ?thesis
    by (simp only: def config_to_json_def obj steps end' restored_def config.simps)
qed

lemma config_json_ok:
  assumes "config_ok c"
  shows "json_ok (config_to_json c)" "json_depth (config_to_json c) \<le> 10000"
proof -
  have flat: "json_ok (jobj fs) = (\<forall>m \<in> set (members fs). valid_utf8 (fst m) \<and> json_ok (snd m))"
      "(\<forall>m \<in> set (members fs). json_depth (snd m) \<le> 1) \<Longrightarrow> json_depth (jobj fs) \<le> 10000" for fs
  proof -
    have "foldr max ds 0 \<le> 1" if "\<forall>d \<in> set ds. d \<le> (1 :: nat)" for ds using that by (induction ds) auto
    then have "\<forall>m \<in> set (members fs). json_depth (snd m) \<le> 1 \<Longrightarrow> foldr max (map (\<lambda>(k, v). json_depth v) (members fs)) 0 \<le> 1"
      by (auto simp: case_prod_beta)
    then show "(\<forall>m \<in> set (members fs). json_depth (snd m) \<le> 1) \<Longrightarrow> json_depth (jobj fs) \<le> 10000"
      by (simp add: jobj_def members_def)
  qed (auto simp: jobj_def members_def list_all_iff)
  have one: "members (fld_omit e k v # fs) = (if e then [] else [(k, v)]) @ members fs" "members [] = []" for e k v fs
    by (simp_all add: members_def fld_omit_def)
  have wl: "json_ok (jslice JStr (cf_WhiteList c))" "json_depth (jslice JStr (cf_WhiteList c)) \<le> 1"
  proof -
    have "foldr max (map json_depth (map JStr l)) 0 = 0" for l by (induction l) auto
    then show "json_depth (jslice JStr (cf_WhiteList c)) \<le> 1" by (simp add: jslice_def split: option.split)
    show "json_ok (jslice JStr (cf_WhiteList c))" using assms by (simp add: jslice_def config_ok_def list_all_iff split: option.splits)
  qed
  show "json_ok (config_to_json c)"
    unfolding config_to_json_def flat(1) one Un_iff set_append ball_Un
    by (intro conjI; use assms wl(1) in \<open>simp add: config_ok_def valid_utf8_ascii\<close>)
  show "json_depth (config_to_json c) \<le> 10000"
    unfolding config_to_json_def by (rule flat(2)) (unfold one set_append ball_Un, intro conjI; use wl(2) in simp)
qed

lemma saved_loaded:
  assumes "saveUnlocked env c st = (None, st')" "config_ok c" "fs_ok (cg_fs st)"
    and "GetConfigPath env' = GetConfigPath env"
  shows "loadConfigFromFile env' (cg_fs st') = Inr (restored c (DefaultConfig env'), True)"
proof -
  obtain p d fs fs' where p: "GetConfigPath env = Inr p" "StellarPath env = Inr d" "os_MkdirAll d (cg_fs st) = (None, fs)"
      "os_WriteFile p (json_indent 0 (config_to_json c)) fs = (None, fs')" "st' = st\<lparr>cg_fs := fs', cg_instance := Some c\<rparr>"
    using assms(1) by (auto simp: saveUnlocked_def split: sum.splits prod.splits option.splits)
  note r = WriteFile_read [OF p(4) MkdirAll_ok [OF p(3) assms(3)]]
  have "unmarshal config_fields (json_indent 0 (config_to_json c)) (DefaultConfig env') = (restored c (DefaultConfig env'), True)"
    using json_parse_indent [OF config_json_ok [OF assms(2)], of 0] config_decode [OF assms(2)] by (simp add: unmarshal_def)
  then show ?thesis using r p(1,5) assms(4) by (auto simp: loadConfigFromFile_def)
qed

text \<open>
  A configuration that was saved is loaded by the next process as the values that are not zero, the
  others being the defaults of that process.
\<close>

theorem config_saved_loaded:
  assumes "saveUnlocked env c st = (None, st')" "config_ok c" "fs_ok (cg_fs st)" "GetConfigPath env' = GetConfigPath env"
  shows "loadConfigFromFile env' (cg_fs st') = Inr (restored c (DefaultConfig env'), True)"
  by (rule saved_loaded [OF assms])

text \<open>A new machine, and a configuration for it.\<close>

definition sample_start :: start_env where
  "sample_start = \<lparr>se_GOOS = ''linux'', se_HomeDir = Inr ''/'', se_Getwd = Inr ''/'', se_key = Inr ''key''\<rparr>"

definition sample_store :: config_store where
  "sample_store = \<lparr>cg_fs = \<lparr>fs_root = FDir True [], fs_data = [], fs_cwd = []\<rparr>, cg_instance = None, cg_once = False\<rparr>"

lemma sample_paths: "StellarPath sample_start = Inr ''/.local/share/stellar''" "GetConfigPath sample_start = Inr ''/.local/share/stellar/config.json''"
  by code_simp+

definition sample_dirs :: fnode where
  "sample_dirs = FDir True [(''.local'', FDir True [(''share'', FDir True [(''stellar'', FDir True [])])])]"

lemma sample_mkdir: "os_MkdirAll ''/.local/share/stellar'' (cg_fs sample_store) = (None, (cg_fs sample_store)\<lparr>fs_root := sample_dirs\<rparr>)"
  by code_simp

lemma sample_create: "os_Create ''/.local/share/stellar/config.json'' ((cg_fs sample_store)\<lparr>fs_root := sample_dirs\<rparr>)
  = (Inr 0, (cg_fs sample_store)\<lparr>fs_root := snd (case os_Create ''/.local/share/stellar/config.json'' ((cg_fs sample_store)\<lparr>fs_root := sample_dirs\<rparr>) of (r, fs) \<Rightarrow> (r, fs_root fs)), fs_data := [[]]\<rparr>)"
  by code_simp

lemma sample_saved: "cg_fs st = cg_fs sample_store \<Longrightarrow> \<exists>st'. saveUnlocked sample_start c st = (None, st')"
  using sample_create by (auto simp: saveUnlocked_def sample_paths sample_mkdir os_WriteFile_def split: prod.splits sum.splits)

lemma sample_unsaved: "loadConfigFromFile sample_start (cg_fs sample_store) = Inr (DefaultConfig sample_start, False)"
  by code_simp

lemma sample_store_ok: "fs_ok (cg_fs sample_store)"
proof -
  have "node_at (FDir True []) l \<noteq> Some (FFile ok i)" for l ok i by (cases l) simp_all
  then show ?thesis by (simp add: fs_ok_def sample_store_def)
qed

lemma default_config_ok: "config_ok (DefaultConfig sample_start)"
  by code_simp

theorem config_saved_loaded_witness:
  "\<exists>st. saveUnlocked sample_start ((DefaultConfig sample_start)\<lparr>cf_APIServer := False, cf_APIPort := 80\<rparr>) sample_store = (None, st)
    \<and> (\<exists>c. loadConfigFromFile sample_start (cg_fs st) = Inr (c, True) \<and> cf_APIServer c \<and> cf_APIPort c = 80)"
proof -
  let ?c = "(DefaultConfig sample_start)\<lparr>cf_APIServer := False, cf_APIPort := 80\<rparr>"
  obtain st where st: "saveUnlocked sample_start ?c sample_store = (None, st)" using sample_saved by blast
  have ok: "config_ok ?c" using default_config_ok by (simp add: config_ok_def)
  show ?thesis
    using st config_saved_loaded [OF st ok sample_store_ok refl] by (auto simp: restored_def DefaultConfig_def)
qed

text \<open>
  So a setting whose wanted value is the zero value does not survive: a process told to serve no HTTP
  interface writes a file that turns it on.
\<close>

lemma disabled_api_comes_back:
  assumes "saveUnlocked env c st = (None, st')" "config_ok c" "fs_ok (cg_fs st)" "\<not> cf_APIServer c"
  shows "\<exists>c'. loadConfigFromFile env (cg_fs st') = Inr (c', True) \<and> cf_APIServer c'"
  using saved_loaded [OF assms(1-3) refl] by (simp add: restored_def DefaultConfig_def assms(4))

end
