(* ===== verification/Policy.thy ===== *)
theory Policy
  imports Config "HOL-Library.Multiset"
begin

text \<open>
  \<open>p2p/policy/policy.go\<close>: which peers may open a stream.  The whitelist of a policy is shared with the
  configuration and saved with every change; a failure to save is only logged.
\<close>

record policy =
  pl_Enable :: bool
  pl_WhiteList :: "bytes list"

definition LoadFromConfig :: "start_env \<Rightarrow> policy \<Rightarrow> config_store \<Rightarrow> policy \<times> config_store" where
  "LoadFromConfig env p st = (case GetInstance env st of
      (None, st) \<Rightarrow> (p, st)
    | (Some cfg, st) \<Rightarrow> (p\<lparr>pl_WhiteList := (case cf_WhiteList cfg of None \<Rightarrow> [] | Some l \<Rightarrow> l)\<rparr>, st))"

text \<open>\<open>peer\<close> is the text of the peer's identity.\<close>

definition Authenticate :: "bytes \<Rightarrow> policy \<Rightarrow> bool" where
  "Authenticate peer p = (if pl_Enable p then list_ex (\<lambda>allow. peer = allow) (pl_WhiteList p) else True)"

text \<open>The handler installed for a protocol; \<open>remote\<close> and \<open>reset\<close> are methods of the stream.\<close>

definition AuthorizeStream :: "('s \<Rightarrow> bytes) \<Rightarrow> (nat \<Rightarrow> 's \<Rightarrow> 't) \<Rightarrow> policy \<Rightarrow> ('s \<Rightarrow> 't) \<Rightarrow> 's \<Rightarrow> 't" where
  "AuthorizeStream remote reset p handler s = (if \<not> Authenticate (remote s) p then reset 403 s else handler s)"

fun first_index :: "bytes \<Rightarrow> bytes list \<Rightarrow> nat option" where
  "first_index d [] = None"
| "first_index d (x # xs) = (if d = x then Some 0 else map_option Suc (first_index d xs))"

definition syncWhiteListToConfig :: "start_env \<Rightarrow> policy \<Rightarrow> config_store \<Rightarrow> goerr option \<times> config_store" where
  "syncWhiteListToConfig env p st = (case GetInstance env st of (_, st) \<Rightarrow> SyncWhiteList env (Some (pl_WhiteList p)) st)"

text \<open>\<open>addr\<close> is \<open>NewMultiaddr\<close> and \<open>ident\<close> is \<open>IDFromP2PAddr\<close>.\<close>

definition AddWhiteList :: "(bytes \<Rightarrow> 'm result) \<Rightarrow> ('m \<Rightarrow> 'i result) \<Rightarrow> start_env \<Rightarrow> bytes \<Rightarrow> policy \<Rightarrow> config_store
    \<Rightarrow> goerr option \<times> policy \<times> config_store" where
  "AddWhiteList addr ident env deviceId p st = (case addr (''/p2p/'' @ deviceId) of
      Inl e \<Rightarrow> (Some e, p, st)
    | Inr m \<Rightarrow> (case ident m of
          Inl e \<Rightarrow> (Some e, p, st)
        | Inr _ \<Rightarrow>
            if first_index deviceId (pl_WhiteList p) \<noteq> None then (Some (Err ''deviceId already exist in white list''), p, st)
            else (let p = p\<lparr>pl_WhiteList := pl_WhiteList p @ [deviceId]\<rparr> in (None, p, snd (syncWhiteListToConfig env p st)))))"

definition RemoveIndex :: "'a list \<Rightarrow> nat \<Rightarrow> 'a list" where
  "RemoveIndex s i = take i s @ drop (i + 1) s"

definition RemoveWhiteList :: "start_env \<Rightarrow> bytes \<Rightarrow> policy \<Rightarrow> config_store \<Rightarrow> goerr option \<times> policy \<times> config_store" where
  "RemoveWhiteList env deviceId p st = (case first_index deviceId (pl_WhiteList p) of
      None \<Rightarrow> (Some (Err ''deviceId not found in white list''), p, st)
    | Some index \<Rightarrow> (let p = p\<lparr>pl_WhiteList := RemoveIndex (pl_WhiteList p) index\<rparr> in (None, p, snd (syncWhiteListToConfig env p st))))"

section \<open>Decisions\<close>

lemma first_index_None: "first_index d l = None \<longleftrightarrow> d \<notin> set l"
  by (induction l) auto

lemma first_index_Some: "first_index d l = Some i \<Longrightarrow> i < length l \<and> l ! i = d"
  by (induction l arbitrary: i) (auto split: if_splits)

lemma Authenticate_iff: "Authenticate x p \<longleftrightarrow> \<not> pl_Enable p \<or> x \<in> set (pl_WhiteList p)"
  by (auto simp: Authenticate_def list_ex_iff)

lemma RemoveIndex_first:
  assumes "first_index d l = Some i"
  shows "mset l = add_mset d (mset (RemoveIndex l i))"
proof -
  have l: "l = take i l @ d # drop (i + 1) l" using first_index_Some [OF assms] id_take_nth_drop [of i l] by simp
  have "mset (take i l @ d # drop (i + 1) l) = add_mset d (mset (RemoveIndex l i))" by (simp add: RemoveIndex_def)
  with l show ?thesis by metis
qed

text \<open>The changes an administrator can make, in any order, with loading in between left out.\<close>

datatype change = AddPeer bytes | RemovePeer bytes

definition change_policy :: "(bytes \<Rightarrow> 'm result) \<Rightarrow> ('m \<Rightarrow> 'i result) \<Rightarrow> start_env \<Rightarrow> change \<Rightarrow> policy \<times> config_store \<Rightarrow> policy \<times> config_store" where
  "change_policy addr ident env c ps = (case c of
      AddPeer d \<Rightarrow> snd (AddWhiteList addr ident env d (fst ps) (snd ps))
    | RemovePeer d \<Rightarrow> snd (RemoveWhiteList env d (fst ps) (snd ps)))"

text \<open>What the changes mean: a set of peers, where only the text of an identity can be added.\<close>

definition allow :: "(bytes \<Rightarrow> bool) \<Rightarrow> change \<Rightarrow> bytes set \<Rightarrow> bytes set" where
  "allow known c A = (case c of AddPeer d \<Rightarrow> if known d then insert d A else A | RemovePeer d \<Rightarrow> A - {d})"

definition identity_text :: "(bytes \<Rightarrow> 'm result) \<Rightarrow> ('m \<Rightarrow> 'i result) \<Rightarrow> bytes \<Rightarrow> bool" where
  "identity_text addr ident d \<longleftrightarrow> (case addr (''/p2p/'' @ d) of Inl _ \<Rightarrow> False | Inr m \<Rightarrow> (case ident m of Inl _ \<Rightarrow> False | Inr _ \<Rightarrow> True))"

lemma change_refines:
  assumes "distinct (pl_WhiteList (fst ps))"
  shows "distinct (pl_WhiteList (fst (change_policy addr ident env c ps)))
    \<and> pl_Enable (fst (change_policy addr ident env c ps)) = pl_Enable (fst ps)
    \<and> set (pl_WhiteList (fst (change_policy addr ident env c ps))) = allow (identity_text addr ident) c (set (pl_WhiteList (fst ps)))"
proof (cases c)
  case (AddPeer d)
  then show ?thesis
    using assms
    by (auto simp: change_policy_def AddWhiteList_def allow_def identity_text_def first_index_None Let_def split: sum.splits)
next
  case (RemovePeer d)
  show ?thesis
  proof (cases "first_index d (pl_WhiteList (fst ps))")
    case None
    then have "d \<notin> set (pl_WhiteList (fst ps))" by (simp add: first_index_None)
    then show ?thesis using RemovePeer None assms by (simp add: change_policy_def RemoveWhiteList_def allow_def)
  next
    case (Some i)
    let ?l = "RemoveIndex (pl_WhiteList (fst ps)) i"
    have m: "mset (pl_WhiteList (fst ps)) = mset (d # ?l)" using RemoveIndex_first [OF Some] by simp
    then have "distinct (d # ?l)" using assms mset_eq_imp_distinct_iff by blast
    moreover have "set (pl_WhiteList (fst ps)) = set (d # ?l)" using m mset_eq_setD by blast
    ultimately show ?thesis
      using RemovePeer Some by (auto simp: change_policy_def RemoveWhiteList_def allow_def Let_def)
  qed
qed



text \<open>With a peer listed twice, as a file edited by hand may have it, removing it once leaves it allowed.\<close>

lemma duplicate_stays_allowed:
  "\<exists>p st'. RemoveWhiteList env ''a'' \<lparr>pl_Enable = True, pl_WhiteList = [''a'', ''a'']\<rparr> st = (None, p, st') \<and> Authenticate ''a'' p"
  by (simp add: RemoveWhiteList_def RemoveIndex_def Let_def Authenticate_def)

section \<open>The whitelist and the file\<close>

text \<open>
  C32: A whitelist that was saved is the whitelist of the next process: when a policy has synchronised its list
  and the file was written, a new process that finds this file under the same path loads a policy with the
  same list, in the same order.
\<close>

theorem whitelist_survives_restart:
  assumes "syncWhiteListToConfig env p st = (None, st')" "fs_ok (cg_fs st)" "list_all valid_utf8 (pl_WhiteList p)"
    and "\<And>c. fst (GetInstance env st) = Some c \<Longrightarrow> config_ok c"
    and "GetConfigPath env' = GetConfigPath env" "cg_fs st2 = cg_fs st'" "\<not> cg_once st2"
  shows "pl_WhiteList (fst (LoadFromConfig env' q st2)) = pl_WhiteList p"
proof -
  obtain c st1 where g: "GetInstance env st = (c, st1)" by force
  have st1: "cg_fs st1 = cg_fs st" "GetInstance env st1 = (c, st1)"
    using g by (auto simp: GetInstance_def Let_def split: if_splits)
  have "SyncWhiteList env (Some (pl_WhiteList p)) st1 = (None, st')" using assms(1) g by (simp add: syncWhiteListToConfig_def)
  then obtain d where d: "c = Some d"
      "saveUnlocked env (d\<lparr>cf_WhiteList := Some (pl_WhiteList p)\<rparr>) (st1\<lparr>cg_instance := Some (d\<lparr>cf_WhiteList := Some (pl_WhiteList p)\<rparr>)\<rparr>) = (None, st')"
    using st1(2) by (auto simp: SyncWhiteList_def Let_def split: option.splits)
  have "config_ok (d\<lparr>cf_WhiteList := Some (pl_WhiteList p)\<rparr>)" using assms(3) assms(4) [of d] g d(1) by (simp add: config_ok_def)
  then have "loadConfigFromFile env' (cg_fs st') = Inr (restored (d\<lparr>cf_WhiteList := Some (pl_WhiteList p)\<rparr>) (DefaultConfig env'), True)"
    using saved_loaded [OF d(2) _ _ assms(5)] assms(2) st1(1) by simp
  then show ?thesis
    using assms(6,7) by (simp add: LoadFromConfig_def GetInstance_def Let_def restored_def DefaultConfig_def)
qed

theorem whitelist_survives_restart_witness:
  "\<exists>st'. syncWhiteListToConfig sample_start \<lparr>pl_Enable = True, pl_WhiteList = [''a'', ''b'']\<rparr> sample_store = (None, st')
    \<and> pl_WhiteList (fst (LoadFromConfig sample_start \<lparr>pl_Enable = True, pl_WhiteList = []\<rparr> (sample_store\<lparr>cg_fs := cg_fs st'\<rparr>))) = [''a'', ''b'']"
proof -
  let ?p = "\<lparr>pl_Enable = True, pl_WhiteList = [''a'', ''b'']\<rparr>"
  have g: "GetInstance sample_start sample_store = (Some (DefaultConfig sample_start), sample_store\<lparr>cg_instance := Some (DefaultConfig sample_start), cg_once := True\<rparr>)"
    using sample_unsaved by (simp add: GetInstance_def Let_def) (simp add: sample_store_def)
  obtain st' where st': "syncWhiteListToConfig sample_start ?p sample_store = (None, st')"
    using sample_saved [of "sample_store\<lparr>cg_once := True, cg_instance := Some ((DefaultConfig sample_start)\<lparr>cf_WhiteList := Some [''a'', ''b'']\<rparr>)\<rparr>"
        "(DefaultConfig sample_start)\<lparr>cf_WhiteList := Some [''a'', ''b'']\<rparr>"]
    by (auto simp: syncWhiteListToConfig_def SyncWhiteList_def g) (auto simp: GetInstance_def Let_def)
  show ?thesis
    using st' whitelist_survives_restart [OF st' sample_store_ok _ _ refl, of "sample_store\<lparr>cg_fs := cg_fs st'\<rparr>" "\<lparr>pl_Enable = True, pl_WhiteList = []\<rparr>"] default_config_ok g
    by (simp add: valid_utf8_ascii) (simp add: sample_store_def)
qed

end
