(* ===== verification/Api_Runs.thy ===== *)
theory Api_Runs
  imports Compute_Client
begin

text \<open>
  The compute part of the HTTP server, \<open>core/socket/socket.go\<close>: the table of runs, a run with its buffered
  output, local and remote executions behind one interface, the goroutines that fill the buffers and watch the
  end of a run, and the handlers of the endpoints.  Runs, executions and buffers are objects, pointers
  to them are indices.  A handler answers with a status code and a body.  Times are texts.
\<close>

section \<open>Executions behind one interface\<close>

text \<open>
  \<open>RemoteExecutionAdapter\<close>: the handle of the client and its four streams, here as connections;
  \<open>rm_cancel\<close> is what \<open>Cancel\<close> reports.
\<close>

record remote_handle =
  rm_handle :: run_handle
  rm_Stdin :: conn
  rm_Stdout :: conn
  rm_Stderr :: conn
  rm_Log :: conn
  rm_cancel :: "goerr option"

text \<open>
  A local execution has a goroutine per output that copies it to a pipe and, as lines, to the log.  What it
  does next: read, write the data to its pipe, wait until the pipe has handed it over, write the log entry,
  wait again.  After the log entry of a read error it ends.
\<close>

datatype copier = CpRead | CpWrite bytes | CpWritten bytes | CpLog bytes bool | CpLogged bool | CpEnd

record local_handle =
  lh_execution :: raw_execution
  lh_Stdout :: conn
  lh_Stderr :: conn
  lh_Log :: conn
  lh_copy_out :: copier
  lh_copy_err :: copier

datatype handle = RemoteHandle remote_handle | LocalHandle local_handle

datatype out_kind = OutS | ErrS | LogS

fun eh_RunID :: "handle \<Rightarrow> bytes" where
  "eh_RunID (RemoteHandle r) = rh_RunID (rm_handle r)"
| "eh_RunID (LocalHandle l) = ex_RunID (lh_execution l)"

fun eh_Stdin :: "handle \<Rightarrow> conn" where
  "eh_Stdin (RemoteHandle r) = rm_Stdin r"
| "eh_Stdin (LocalHandle l) = ex_Stdin (lh_execution l)"

fun set_Stdin :: "conn \<Rightarrow> handle \<Rightarrow> handle" where
  "set_Stdin c (RemoteHandle r) = RemoteHandle (r\<lparr>rm_Stdin := c\<rparr>)"
| "set_Stdin c (LocalHandle l) = LocalHandle (l\<lparr>lh_execution := (lh_execution l)\<lparr>ex_Stdin := c\<rparr>\<rparr>)"

fun eh_stream :: "out_kind \<Rightarrow> handle \<Rightarrow> conn" where
  "eh_stream OutS (RemoteHandle r) = rm_Stdout r"
| "eh_stream ErrS (RemoteHandle r) = rm_Stderr r"
| "eh_stream LogS (RemoteHandle r) = rm_Log r"
| "eh_stream OutS (LocalHandle l) = lh_Stdout l"
| "eh_stream ErrS (LocalHandle l) = lh_Stderr l"
| "eh_stream LogS (LocalHandle l) = lh_Log l"

fun set_stream :: "out_kind \<Rightarrow> conn \<Rightarrow> handle \<Rightarrow> handle" where
  "set_stream OutS c (RemoteHandle r) = RemoteHandle (r\<lparr>rm_Stdout := c\<rparr>)"
| "set_stream ErrS c (RemoteHandle r) = RemoteHandle (r\<lparr>rm_Stderr := c\<rparr>)"
| "set_stream LogS c (RemoteHandle r) = RemoteHandle (r\<lparr>rm_Log := c\<rparr>)"
| "set_stream OutS c (LocalHandle l) = LocalHandle (l\<lparr>lh_Stdout := c\<rparr>)"
| "set_stream ErrS c (LocalHandle l) = LocalHandle (l\<lparr>lh_Stderr := c\<rparr>)"
| "set_stream LogS c (LocalHandle l) = LocalHandle (l\<lparr>lh_Log := c\<rparr>)"

text \<open>Receiving from \<open>Done\<close> and \<open>ExitCode\<close>.\<close>

fun eh_Done :: "handle \<Rightarrow> goerr option recv \<times> handle" where
  "eh_Done (RemoteHandle r) = (case ch_recv (rh_done (rm_handle r)) of
     (v, c) \<Rightarrow> (v, RemoteHandle (r\<lparr>rm_handle := (rm_handle r)\<lparr>rh_done := c\<rparr>\<rparr>)))"
| "eh_Done (LocalHandle l) = (case ch_recv (ex_Done (lh_execution l)) of
     (v, c) \<Rightarrow> (v, LocalHandle (l\<lparr>lh_execution := (lh_execution l)\<lparr>ex_Done := c\<rparr>\<rparr>)))"

fun eh_ExitCode :: "handle \<Rightarrow> int recv \<times> handle" where
  "eh_ExitCode (RemoteHandle r) = (case ch_recv (rh_exit (rm_handle r)) of
     (v, c) \<Rightarrow> (v, RemoteHandle (r\<lparr>rm_handle := (rm_handle r)\<lparr>rh_exit := c\<rparr>\<rparr>)))"
| "eh_ExitCode (LocalHandle l) = (case ch_recv (ex_ExitCode (lh_execution l)) of
     (v, c) \<Rightarrow> (v, LocalHandle (l\<lparr>lh_execution := (lh_execution l)\<lparr>ex_ExitCode := c\<rparr>\<rparr>)))"

text \<open>Closing the write end of a pipe drops what nobody has read of a write.\<close>

definition cut_pipe :: "conn \<Rightarrow> conn" where
  "cut_pipe c = (end_pipe c)\<lparr>inbox := []\<rparr>"

fun eh_Cancel :: "handle \<Rightarrow> goerr option \<times> handle" where
  "eh_Cancel (RemoteHandle r) = (rm_cancel r, RemoteHandle r)"
| "eh_Cancel (LocalHandle l) = (None, LocalHandle (l\<lparr>lh_execution := ex_Cancel (lh_execution l),
     lh_Stdout := cut_pipe (lh_Stdout l), lh_Stderr := cut_pipe (lh_Stderr l), lh_Log := cut_pipe (lh_Log l)\<rparr>))"

section \<open>Copying the output of a local execution\<close>

definition pipe_closed :: "conn \<Rightarrow> bool" where
  "pipe_closed c \<longleftrightarrow> shut c \<or> fin c \<noteq> None"

text \<open>
  A step of \<open>forwardToLogAndBuffer\<close> from \<open>src\<close> to the pipe \<open>buf\<close> and the log.  A pipe takes one write at a time;
  \<open>busy\<close> says that the other goroutine is writing to the log.  A write to a closed pipe fails at once, and
  the code goes on.  \<open>source.Read\<close> may also report an error with its data, which pipes do not.
\<close>

definition forwardToLogAndBuffer :: "bytes \<Rightarrow> bytes \<Rightarrow> bytes \<Rightarrow> bool \<Rightarrow> copier \<times> conn \<times> conn \<times> conn \<Rightarrow> copier \<times> conn \<times> conn \<times> conn" where
  "forwardToLogAndBuffer now runID logType busy st = (case st of (cp, src, logW, bufW) \<Rightarrow>
     (case cp of
       CpRead \<Rightarrow> (case conn_read 4096 src of
           (RdBlock, src) \<Rightarrow> (CpRead, src, logW, bufW)
         | (RdData b, src) \<Rightarrow> (if b = [] then CpRead else CpWrite b, src, logW, bufW)
         | (RdErr e, src) \<Rightarrow>
             if e = EOF then (CpEnd, src, logW, end_pipe bufW)
             else (CpLog (log_line now runID ''error'' (logType @ '' read error: '' @ err_text e)) True, src, logW, bufW))
     | CpWrite b \<Rightarrow>
         if pipe_closed bufW then (CpLog (log_line now runID logType b) False, src, logW, bufW)
         else if inbox bufW = [] then (CpWritten b, src, logW, bufW\<lparr>inbox := [b]\<rparr>)
         else (CpWrite b, src, logW, bufW)
     | CpWritten b \<Rightarrow>
         if pipe_closed bufW \<or> inbox bufW = [] then (CpLog (log_line now runID logType b) False, src, logW, bufW)
         else (CpWritten b, src, logW, bufW)
     | CpLog l stop \<Rightarrow>
         if pipe_closed logW then (if stop then (CpEnd, src, logW, end_pipe bufW) else (CpRead, src, logW, bufW))
         else if busy \<or> inbox logW \<noteq> [] then (CpLog l stop, src, logW, bufW)
         else (CpLogged stop, src, logW\<lparr>inbox := [l]\<rparr>, bufW)
     | CpLogged stop \<Rightarrow>
         if pipe_closed logW \<or> inbox logW = [] then (if stop then (CpEnd, src, logW, end_pipe bufW) else (CpRead, src, logW, bufW))
         else (CpLogged stop, src, logW, bufW)
     | CpEnd \<Rightarrow> (CpEnd, src, logW, bufW)))"

definition logging :: "copier \<Rightarrow> bool" where
  "logging cp = (case cp of CpLogged _ \<Rightarrow> True | _ \<Rightarrow> False)"

definition copy_out :: "bytes \<Rightarrow> local_handle \<Rightarrow> local_handle" where
  "copy_out now l = (let x = lh_execution l in
     case forwardToLogAndBuffer now (ex_RunID x) ''stdout'' (logging (lh_copy_err l)) (lh_copy_out l, ex_Stdout x, lh_Log l, lh_Stdout l) of
       (cp, src, logW, bufW) \<Rightarrow> l\<lparr>lh_execution := x\<lparr>ex_Stdout := src\<rparr>, lh_Stdout := bufW, lh_Log := logW, lh_copy_out := cp\<rparr>)"

definition copy_err :: "bytes \<Rightarrow> local_handle \<Rightarrow> local_handle" where
  "copy_err now l = (let x = lh_execution l in
     case forwardToLogAndBuffer now (ex_RunID x) ''stderr'' (logging (lh_copy_out l)) (lh_copy_err l, ex_Stderr x, lh_Log l, lh_Stderr l) of
       (cp, src, logW, bufW) \<Rightarrow> l\<lparr>lh_execution := x\<lparr>ex_Stderr := src\<rparr>, lh_Stderr := bufW, lh_Log := logW, lh_copy_err := cp\<rparr>)"

text \<open>The goroutine that closes the log when both have ended.\<close>

definition close_log :: "local_handle \<Rightarrow> local_handle" where
  "close_log l = (if lh_copy_out l = CpEnd \<and> lh_copy_err l = CpEnd then l\<lparr>lh_Log := end_pipe (lh_Log l)\<rparr> else l)"

section \<open>Runs\<close>

text \<open>
  \<open>cr_client\<close> is the execution whose client the run owns; each remote run dials a client of its own.
  The buffers are pointers.  \<open>cr_bufReady\<close> says that the channel is closed.
\<close>

record compute_run =
  cr_ID :: bytes
  cr_DeviceID :: bytes
  cr_Command :: bytes
  cr_Args :: "bytes list option"
  cr_Env :: "(bytes \<times> bytes) list option"
  cr_WorkingDir :: bytes
  cr_Status :: bytes
  cr_Created :: bytes
  cr_Started :: "bytes option"
  cr_Finished :: "bytes option"
  cr_ExitCode :: "int option"
  cr_Error :: "goerr option"
  cr_execHandle :: "nat option"
  cr_client :: "nat option"
  cr_stdoutBuf :: "nat option"
  cr_stderrBuf :: "nat option"
  cr_logsBuf :: "nat option"
  cr_bufReady :: bool
  cr_streaming :: bool

text \<open>A goroutine of \<open>bufferStream\<close>: its stream and its buffer.\<close>

record buf_reader =
  br_handle :: nat
  br_output :: out_kind
  br_buf :: nat
  br_done :: bool

text \<open>
  The goroutine of \<open>monitorRunCompletion\<close> looks at the handle of its run before each of its receives.
\<close>

datatype monitor_phase = MonStart | MonDone nat | MonErr "goerr option" | MonExit "goerr option" nat | MonEnd

record run_monitor =
  rn_run :: nat
  rn_phase :: monitor_phase

record api =
  cm_runs :: "bytes \<rightharpoonup> nat"
  ap_runs :: "compute_run list"
  ap_handles :: "handle list"
  ap_bufs :: "bytes list"
  ap_readers :: "buf_reader list"
  ap_monitors :: "run_monitor list"
  ap_crashed :: bool

definition NewComputeManager :: api where
  "NewComputeManager = \<lparr>cm_runs = Map.empty, ap_runs = [], ap_handles = [], ap_bufs = [], ap_readers = [],
     ap_monitors = [], ap_crashed = False\<rparr>"

definition upd_run :: "nat \<Rightarrow> (compute_run \<Rightarrow> compute_run) \<Rightarrow> api \<Rightarrow> api" where
  "upd_run r f s = (if r < length (ap_runs s) then s\<lparr>ap_runs := (ap_runs s)[r := f (ap_runs s ! r)]\<rparr> else s)"

definition upd_exec_handle :: "nat \<Rightarrow> (handle \<Rightarrow> handle) \<Rightarrow> api \<Rightarrow> api" where
  "upd_exec_handle h f s = (if h < length (ap_handles s) then s\<lparr>ap_handles := (ap_handles s)[h := f (ap_handles s ! h)]\<rparr> else s)"

subsection \<open>The table\<close>

definition AddRun :: "nat \<Rightarrow> api \<Rightarrow> api" where
  "AddRun r s = s\<lparr>cm_runs := (cm_runs s)(cr_ID (ap_runs s ! r) \<mapsto> r)\<rparr>"

definition GetRun :: "bytes \<Rightarrow> api \<Rightarrow> nat option" where
  "GetRun runID s = cm_runs s runID"

text \<open>\<open>ks\<close> is the order in which the table is visited.\<close>

definition ListRuns :: "bytes list \<Rightarrow> bytes \<Rightarrow> api \<Rightarrow> nat list" where
  "ListRuns ks deviceID s =
     filter (\<lambda>r. cr_DeviceID (ap_runs s ! r) = deviceID) (map (\<lambda>k. the (cm_runs s k)) (filter (\<lambda>k. cm_runs s k \<noteq> None) ks))"

subsection \<open>Buffers\<close>

definition StartBuffering :: "nat \<Rightarrow> api \<Rightarrow> api" where
  "StartBuffering r s = (case cr_execHandle (ap_runs s ! r) of
      None \<Rightarrow> s
    | Some h \<Rightarrow> (let b = length (ap_bufs s) in
        upd_run r (\<lambda>x. x\<lparr>cr_stdoutBuf := Some b, cr_stderrBuf := Some (b + 1), cr_logsBuf := Some (b + 2), cr_bufReady := True\<rparr>)
          (s\<lparr>ap_bufs := ap_bufs s @ [[], [], []],
             ap_readers := ap_readers s @ [\<lparr>br_handle = h, br_output = OutS, br_buf = b, br_done = False\<rparr>,
               \<lparr>br_handle = h, br_output = ErrS, br_buf = b + 1, br_done = False\<rparr>,
               \<lparr>br_handle = h, br_output = LogS, br_buf = b + 2, br_done = False\<rparr>]\<rparr>)))"

text \<open>A round of \<open>bufferStream\<close>.\<close>

definition bufferStream :: "nat \<Rightarrow> api \<Rightarrow> api" where
  "bufferStream i s = (let x = ap_readers s ! i; o' = br_output x; hnd = ap_handles s ! br_handle x in
     if \<not> i < length (ap_readers s) \<or> br_done x then s
     else (case conn_read 4096 (eh_stream o' hnd) of
         (RdBlock, c) \<Rightarrow> s
       | (RdData d, c) \<Rightarrow> upd_exec_handle (br_handle x) (set_stream o' c)
           (s\<lparr>ap_bufs := (ap_bufs s)[br_buf x := ap_bufs s ! br_buf x @ d]\<rparr>)
       | (RdErr e, c) \<Rightarrow> s\<lparr>ap_readers := (ap_readers s)[i := x\<lparr>br_done := True\<rparr>]\<rparr>))"

definition buf_bytes :: "nat option \<Rightarrow> api \<Rightarrow> bytes" where
  "buf_bytes p s = (case p of None \<Rightarrow> [] | Some b \<Rightarrow> ap_bufs s ! b)"

definition GetStdout :: "nat \<Rightarrow> api \<Rightarrow> bytes" where
  "GetStdout r s = buf_bytes (cr_stdoutBuf (ap_runs s ! r)) s"

definition GetStderr :: "nat \<Rightarrow> api \<Rightarrow> bytes" where
  "GetStderr r s = buf_bytes (cr_stderrBuf (ap_runs s ! r)) s"

definition GetLogs :: "nat \<Rightarrow> api \<Rightarrow> bytes" where
  "GetLogs r s = buf_bytes (cr_logsBuf (ap_runs s ! r)) s"

text \<open>
  \<open>StreamStdoutTo\<close> and \<open>StreamStderrTo\<close> wait until buffering has started.  \<open>w\<close> is the writer.
\<close>

definition stream_buf_to :: "'w writer \<Rightarrow> bool \<Rightarrow> (compute_run \<Rightarrow> nat option) \<Rightarrow> nat \<Rightarrow> 'w \<Rightarrow> api \<Rightarrow> unit rres \<times> 'w \<times> api" where
  "stream_buf_to w follow buf r dst s =
     (if \<not> cr_bufReady (ap_runs s ! r) then (Blocked, dst, s)
      else if \<not> follow then
        (case buf (ap_runs s ! r) of
           None \<Rightarrow> (Done (), dst, s)
         | Some b \<Rightarrow> (case w (ap_bufs s ! b) dst of (e, dst) \<Rightarrow> (case e of None \<Rightarrow> Done () | Some e \<Rightarrow> Fail e, dst, s)))
      else (let s = upd_run r (\<lambda>x. x\<lparr>cr_streaming := True\<rparr>) s; d = buf_bytes (buf (ap_runs s ! r)) s in
         (Done (), if d = [] then dst else snd (w d dst), s)))"

definition StreamStdoutTo :: "'w writer \<Rightarrow> bool \<Rightarrow> nat \<Rightarrow> 'w \<Rightarrow> api \<Rightarrow> unit rres \<times> 'w \<times> api" where
  "StreamStdoutTo w follow = stream_buf_to w follow cr_stdoutBuf"

definition StreamStderrTo :: "'w writer \<Rightarrow> bool \<Rightarrow> nat \<Rightarrow> 'w \<Rightarrow> api \<Rightarrow> unit rres \<times> 'w \<times> api" where
  "StreamStderrTo w follow = stream_buf_to w follow cr_stderrBuf"

subsection \<open>Cleaning up\<close>

text \<open>Closing the client of a remote run completes its handle.\<close>

fun client_close :: "handle \<Rightarrow> handle" where
  "client_close (RemoteHandle r) = RemoteHandle (r\<lparr>rm_handle := complete (Some (Err ''connection closed'')) (-1) (rm_handle r)\<rparr>)"
| "client_close (LocalHandle l) = LocalHandle l"

definition close_run_streams :: "handle \<Rightarrow> handle" where
  "close_run_streams h = (let h = set_Stdin (snd (conn_close (eh_Stdin h))) h;
       h = set_stream OutS (snd (conn_close (eh_stream OutS h))) h
     in set_stream ErrS (snd (conn_close (eh_stream ErrS h))) h)"

definition Cleanup :: "nat \<Rightarrow> api \<Rightarrow> api" where
  "Cleanup r s = (let
       s = (case cr_client (ap_runs s ! r) of None \<Rightarrow> s
          | Some h \<Rightarrow> upd_run r (\<lambda>x. x\<lparr>cr_client := None\<rparr>) (upd_exec_handle h client_close s));
       s = (case cr_execHandle (ap_runs s ! r) of None \<Rightarrow> s
          | Some h \<Rightarrow> upd_run r (\<lambda>x. x\<lparr>cr_execHandle := None\<rparr>) (upd_exec_handle h close_run_streams s))
     in upd_run r (\<lambda>x. x\<lparr>cr_stdoutBuf := None, cr_stderrBuf := None, cr_logsBuf := None\<rparr>) s)"

definition RemoveRun :: "bytes \<Rightarrow> api \<Rightarrow> bool \<times> api" where
  "RemoveRun runID s = (case cm_runs s runID of
      None \<Rightarrow> (False, s)
    | Some r \<Rightarrow> (let s = Cleanup r s in (True, s\<lparr>cm_runs := (cm_runs s)(runID := None)\<rparr>)))"

section \<open>Watching a run\<close>

definition chan_value :: "'a \<Rightarrow> 'a recv \<Rightarrow> 'a option" where
  "chan_value zero v = (case v of Got x \<Rightarrow> Some x | RecvClosed \<Rightarrow> Some zero | RecvWait \<Rightarrow> None)"

definition finish_run :: "bytes \<Rightarrow> goerr option \<Rightarrow> int \<Rightarrow> compute_run \<Rightarrow> compute_run" where
  "finish_run now err exitCode x = (let x = x\<lparr>cr_Finished := Some now, cr_ExitCode := Some exitCode\<rparr> in
     if err \<noteq> None then x\<lparr>cr_Status := ''failed'', cr_Error := err\<rparr>
     else if exitCode = 0 then x\<lparr>cr_Status := ''completed''\<rparr>
     else x\<lparr>cr_Status := ''failed''\<rparr>)"

definition set_watch :: "nat \<Rightarrow> monitor_phase \<Rightarrow> api \<Rightarrow> api" where
  "set_watch i p s = s\<lparr>ap_monitors := (ap_monitors s)[i := (ap_monitors s ! i)\<lparr>rn_phase := p\<rparr>]\<rparr>"

text \<open>
  The next step of the goroutine of \<open>monitorRunCompletion\<close>.  Calling a method of the handle when it is nil is a
  panic outside of any request, which ends the program.
\<close>

definition monitorRunCompletion :: "bytes \<Rightarrow> nat \<Rightarrow> api \<Rightarrow> api" where
  "monitorRunCompletion now i s = (if \<not> i < length (ap_monitors s) then s
     else (let r = rn_run (ap_monitors s ! i) in
     (case rn_phase (ap_monitors s ! i) of
        MonStart \<Rightarrow> (case cr_execHandle (ap_runs s ! r) of
            None \<Rightarrow> s\<lparr>ap_crashed := True\<rparr>
          | Some h \<Rightarrow> set_watch i (MonDone h) s)
      | MonDone h \<Rightarrow> (case eh_Done (ap_handles s ! h) of (v, hnd) \<Rightarrow>
          (case chan_value None v of None \<Rightarrow> s
           | Some err \<Rightarrow> set_watch i (MonErr err) (upd_exec_handle h (\<lambda>_. hnd) s)))
      | MonErr err \<Rightarrow> (case cr_execHandle (ap_runs s ! r) of
            None \<Rightarrow> s\<lparr>ap_crashed := True\<rparr>
          | Some h \<Rightarrow> set_watch i (MonExit err h) s)
      | MonExit err h \<Rightarrow> (case eh_ExitCode (ap_handles s ! h) of (v, hnd) \<Rightarrow>
          (case chan_value 0 v of None \<Rightarrow> s
           | Some exitCode \<Rightarrow> set_watch i MonEnd (upd_run r (finish_run now err exitCode) (upd_exec_handle h (\<lambda>_. hnd) s))))
      | MonEnd \<Rightarrow> s)))"

end
