(* ===== verification/Api_Compute.thy ===== *)
theory Api_Compute
  imports Api_Runs
begin

text \<open>
  The compute endpoints of \<open>core/socket/socket.go\<close>, and the runs of the server: the steps by which requests,
  goroutines, processes and the network change its state.
\<close>

section \<open>Answers\<close>

text \<open>
  What a handler answers: a status code with a JSON body, or with the bytes of a text.  A panic inside a
  handler is recovered by the framework.
\<close>

datatype body = JsonBody json | RawBody bytes

datatype http_reply = Reply nat body | HandlerPanic

definition errorResponse :: "nat \<Rightarrow> bytes \<Rightarrow> bytes option \<Rightarrow> http_reply" where
  "errorResponse code msg details = Reply code (JsonBody (jobj
     [(case details of None \<Rightarrow> None | Some d \<Rightarrow> fld ''details'' (JStr d)), fld ''error'' (JStr msg)]))"

text \<open>
  What the handlers ask the node for: its identifier, \<open>peer.Decode\<close>, its healthy devices, and the execution
  of a request on a device, by dialling a compute client and \<open>Run\<close>.
\<close>

record device =
  dv_ID :: bytes
  dv_Status :: bytes

record node_view =
  nd_ID :: bytes
  nd_Decode :: "bytes \<Rightarrow> bytes result"
  nd_GetDevice :: "bytes \<Rightarrow> device result"
  nd_Dial :: "bytes \<Rightarrow> goerr option"
  nd_Run :: "bytes \<Rightarrow> compute_run_request \<Rightarrow> remote_handle result"

definition validateDevice :: "node_view option \<Rightarrow> bytes \<Rightarrow> device result" where
  "validateDevice nd deviceID =
     (if deviceID = [] then Inl (Err ''device ID is required'')
      else (case nd of
          None \<Rightarrow> Inl (Err ''node is not initialized'')
        | Some n \<Rightarrow>
            if deviceID = nd_ID n
            then (case nd_Decode n deviceID of
                Inl e \<Rightarrow> Inl (Wrap ''invalid peer ID'' e)
              | Inr p \<Rightarrow> Inr \<lparr>dv_ID = p, dv_Status = ''healthy''\<rparr>)
            else nd_GetDevice n deviceID))"

section \<open>Starting a run\<close>

text \<open>
  The decoded body of the request; \<open>ShouldBindJSON\<close> belongs to the framework.  It refuses a request without
  a command.  \<open>nano\<close> is the clock, \<open>kvs\<close> the order in which the environment is visited.
\<close>

record execute_request =
  xq_command :: bytes
  xq_args :: "bytes list option"
  xq_env :: "(bytes \<times> bytes) list option"
  xq_working_dir :: bytes

definition args_of :: "bytes list option \<Rightarrow> bytes list" where
  "args_of a = (case a of None \<Rightarrow> [] | Some l \<Rightarrow> l)"

definition run_id :: "nat \<Rightarrow> bytes" where
  "run_id nano = ''run_'' @ show_nat nano"

definition local_request :: "host \<Rightarrow> execute_request \<Rightarrow> raw_execution_request" where
  "local_request h q = \<lparr>er_Command = xq_command q, er_Args = args_of (xq_args q),
     er_Env = PrepareExecutionEnvironment h (map_of (case xq_env q of None \<Rightarrow> [] | Some kvs \<Rightarrow> kvs)),
     er_WorkingDir = xq_working_dir q, er_Stdin = None\<rparr>"

definition local_execution :: "bytes \<Rightarrow> raw_execution \<Rightarrow> local_handle" where
  "local_execution runID x = \<lparr>lh_execution = x\<lparr>ex_RunID := runID\<rparr>, lh_Stdout = pipe, lh_Stderr = pipe, lh_Log = pipe,
     lh_copy_out = CpRead, lh_copy_err = CpRead\<rparr>"

definition executeCommand :: "host \<Rightarrow> launcher \<Rightarrow> (bytes \<times> bytes) list \<Rightarrow> bytes \<Rightarrow> nat \<Rightarrow> node_view \<Rightarrow> bytes \<Rightarrow> bool \<Rightarrow> execute_request
    \<Rightarrow> (handle \<times> bool) result" where
  "executeCommand h la kvs uuid nano nd deviceID isLocal q =
     (if isLocal then
        (case ExecuteRaw h la kvs uuid (local_request h q) of
           Inl e \<Rightarrow> Inl e
         | Inr x \<Rightarrow> Inr (LocalHandle (local_execution (run_id nano) x), False))
      else (case validateDevice (Some nd) deviceID of
          Inl _ \<Rightarrow> Inl (Err (''device not found: '' @ deviceID))
        | Inr dv \<Rightarrow> (case nd_Dial nd (dv_ID dv) of
            Some e \<Rightarrow> Inl (Wrap ''failed to connect to device'' e)
          | None \<Rightarrow> (case nd_Run nd (dv_ID dv) \<lparr>crq_run_id = run_id nano, crq_command = xq_command q, crq_args = xq_args q,
                crq_env = xq_env q, crq_working_dir = xq_working_dir q\<rparr> of
              Inl e \<Rightarrow> Inl (Wrap ''failed to run compute command'' e)
            | Inr hnd \<Rightarrow> Inr (RemoteHandle hnd, True)))))"

definition new_compute_run :: "bytes \<Rightarrow> bytes \<Rightarrow> bytes \<Rightarrow> execute_request \<Rightarrow> nat \<Rightarrow> bool \<Rightarrow> compute_run" where
  "new_compute_run now runID deviceID q h remote = \<lparr>cr_ID = runID, cr_DeviceID = deviceID, cr_Command = xq_command q,
     cr_Args = xq_args q, cr_Env = xq_env q, cr_WorkingDir = xq_working_dir q, cr_Status = ''running'',
     cr_Created = now, cr_Started = Some now, cr_Finished = None, cr_ExitCode = None, cr_Error = None,
     cr_execHandle = Some h, cr_client = (if remote then Some h else None),
     cr_stdoutBuf = None, cr_stderrBuf = None, cr_logsBuf = None, cr_bufReady = False, cr_streaming = False\<rparr>"

text \<open>The run of an execution that has started: buffers, table, monitor.\<close>

definition begin_run :: "bytes \<Rightarrow> bytes \<Rightarrow> execute_request \<Rightarrow> handle \<Rightarrow> bool \<Rightarrow> api \<Rightarrow> api" where
  "begin_run now deviceID q hnd remote s = (let h = length (ap_handles s); r = length (ap_runs s);
       s = s\<lparr>ap_handles := ap_handles s @ [hnd], ap_runs := ap_runs s @ [new_compute_run now (eh_RunID hnd) deviceID q h remote]\<rparr>;
       s = AddRun r (StartBuffering r s)
     in s\<lparr>ap_monitors := ap_monitors s @ [\<lparr>rn_run = r, rn_phase = MonStart\<rparr>]\<rparr>)"

definition endpoint :: "bytes \<Rightarrow> bytes \<Rightarrow> bytes \<Rightarrow> json" where
  "endpoint deviceID runID name = JStr (''/devices/'' @ deviceID @ ''/compute/runs/'' @ runID @ ''/'' @ name)"

definition created_body :: "bytes \<Rightarrow> bytes \<Rightarrow> bytes \<Rightarrow> execute_request \<Rightarrow> json" where
  "created_body now runID deviceID q = jobj [fld ''args'' (jslice JStr (xq_args q)), fld ''command'' (JStr (xq_command q)),
     fld ''created'' (JStr now),
     fld ''endpoints'' (jobj [fld ''logs'' (endpoint deviceID runID ''logs''), fld ''stderr'' (endpoint deviceID runID ''stderr''),
       fld ''stdin'' (endpoint deviceID runID ''stdin''), fld ''stdout'' (endpoint deviceID runID ''stdout'')]),
     fld ''id'' (JStr runID), fld ''started'' (JStr now), fld ''status'' (JStr ''running'')]"

definition ExecuteCommand :: "host \<Rightarrow> launcher \<Rightarrow> (bytes \<times> bytes) list \<Rightarrow> bytes \<Rightarrow> nat \<Rightarrow> bytes \<Rightarrow> node_view option \<Rightarrow> bytes
    \<Rightarrow> execute_request result \<Rightarrow> api \<Rightarrow> http_reply \<times> api" where
  "ExecuteCommand h la kvs uuid nano now nd deviceID req s = (case nd of
      None \<Rightarrow> (HandlerPanic, s)
    | Some n \<Rightarrow>
        (let isLocal = (deviceID = nd_ID n) in
         if \<not> isLocal \<and> (case validateDevice nd deviceID of Inl _ \<Rightarrow> True | Inr _ \<Rightarrow> False)
         then (errorResponse 404 (''Device not found: '' @ deviceID) None, s)
         else (case req of
             Inl e \<Rightarrow> (errorResponse 400 (err_text e) None, s)
           | Inr q \<Rightarrow> (case executeCommand h la kvs uuid nano n deviceID isLocal q of
               Inl e \<Rightarrow> (errorResponse 500 ''Failed to execute command'' (Some (err_text e)), s)
             | Inr (hnd, remote) \<Rightarrow>
                 (Reply 201 (JsonBody (created_body now (eh_RunID hnd) deviceID q)), begin_run now deviceID q hnd remote s)))))"

section \<open>Looking at runs\<close>

definition optional :: "('a \<Rightarrow> json) \<Rightarrow> string \<Rightarrow> 'a option \<Rightarrow> (string \<times> json) option" where
  "optional f k v = (case v of None \<Rightarrow> None | Some x \<Rightarrow> fld k (f x))"

definition run_entry :: "compute_run \<Rightarrow> json" where
  "run_entry x = jobj [fld ''args'' (jslice JStr (cr_Args x)), fld ''command'' (JStr (cr_Command x)),
     fld ''created'' (JStr (cr_Created x)), optional (\<lambda>e. JStr (err_text e)) ''error'' (cr_Error x),
     optional jint ''exit_code'' (cr_ExitCode x), optional JStr ''finished'' (cr_Finished x), fld ''id'' (JStr (cr_ID x)),
     optional JStr ''started'' (cr_Started x), fld ''status'' (JStr (cr_Status x))]"

definition ListComputeRuns :: "bytes list \<Rightarrow> node_view option \<Rightarrow> bytes \<Rightarrow> api \<Rightarrow> http_reply" where
  "ListComputeRuns ks nd deviceID s = (let rs = ListRuns ks deviceID s in
     if rs = [] \<and> (case validateDevice nd deviceID of Inl _ \<Rightarrow> True | Inr _ \<Rightarrow> False)
     then errorResponse 404 (''Device not found: '' @ deviceID) None
     else Reply 200 (JsonBody (JArr (map (\<lambda>r. run_entry (ap_runs s ! r)) rs))))"

text \<open>The run of a request, which must belong to the device of the path.\<close>

definition find_run :: "bytes \<Rightarrow> bytes \<Rightarrow> api \<Rightarrow> nat option" where
  "find_run deviceID runID s = (case GetRun runID s of
      None \<Rightarrow> None
    | Some r \<Rightarrow> if cr_DeviceID (ap_runs s ! r) \<noteq> deviceID then None else Some r)"

definition not_found :: http_reply where
  "not_found = errorResponse 404 ''Run not found'' None"

definition run_details :: "nat \<Rightarrow> api \<Rightarrow> json" where
  "run_details r s = (let x = ap_runs s ! r in
     jobj [fld ''args'' (jslice JStr (cr_Args x)), fld ''command'' (JStr (cr_Command x)), fld ''created'' (JStr (cr_Created x)),
       fld ''device_id'' (JStr (cr_DeviceID x)), fld ''env'' (jstrmap (cr_Env x)),
       optional (\<lambda>e. JStr (err_text e)) ''error'' (cr_Error x), optional jint ''exit_code'' (cr_ExitCode x),
       optional JStr ''finished'' (cr_Finished x), fld ''id'' (JStr (cr_ID x)),
       fld ''output_sizes'' (jobj [fld ''logs_bytes'' (jnat (length (GetLogs r s))), fld ''stderr_bytes'' (jnat (length (GetStderr r s))),
         fld ''stdout_bytes'' (jnat (length (GetStdout r s)))]),
       optional JStr ''started'' (cr_Started x), fld ''status'' (JStr (cr_Status x)),
       fld ''working_dir'' (JStr (cr_WorkingDir x))])"

definition GetComputeRun :: "bytes \<Rightarrow> bytes \<Rightarrow> api \<Rightarrow> http_reply" where
  "GetComputeRun deviceID runID s = (case find_run deviceID runID s of
      None \<Rightarrow> not_found
    | Some r \<Rightarrow> Reply 200 (JsonBody (run_details r s)))"

text \<open>
  With \<open>follow\<close> the handlers write what is buffered and return, like without; \<open>flusher\<close> says that the writer
  of the framework can flush.
\<close>

definition stream_reply :: "bool \<Rightarrow> bool \<Rightarrow> bytes \<Rightarrow> http_reply" where
  "stream_reply flusher follow d =
     (if follow \<and> \<not> flusher then errorResponse 500 ''Streaming not supported'' None else Reply 200 (RawBody d))"

definition StreamStdout :: "bool \<Rightarrow> bool \<Rightarrow> bytes \<Rightarrow> bytes \<Rightarrow> api \<Rightarrow> http_reply" where
  "StreamStdout flusher follow deviceID runID s = (case find_run deviceID runID s of
      None \<Rightarrow> not_found | Some r \<Rightarrow> stream_reply flusher follow (GetStdout r s))"

definition StreamStderr :: "bool \<Rightarrow> bool \<Rightarrow> bytes \<Rightarrow> bytes \<Rightarrow> api \<Rightarrow> http_reply" where
  "StreamStderr flusher follow deviceID runID s = (case find_run deviceID runID s of
      None \<Rightarrow> not_found | Some r \<Rightarrow> stream_reply flusher follow (GetStderr r s))"

definition StreamLogs :: "bool \<Rightarrow> bool \<Rightarrow> bytes \<Rightarrow> bytes \<Rightarrow> api \<Rightarrow> http_reply" where
  "StreamLogs flusher follow deviceID runID s = (case find_run deviceID runID s of
      None \<Rightarrow> not_found | Some r \<Rightarrow> stream_reply flusher follow (GetLogs r s))"

section \<open>Changing runs\<close>

definition not_running :: "compute_run \<Rightarrow> http_reply" where
  "not_running x = errorResponse 400 (''Run is not running (status: '' @ cr_Status x @ '')'') None"

definition status_body :: "bytes \<Rightarrow> bytes \<Rightarrow> http_reply" where
  "status_body runID status = Reply 200 (JsonBody (jobj [fld ''id'' (JStr runID), fld ''status'' (JStr status)]))"

text \<open>
  \<open>CancelComputeRun\<close> up to the call of \<open>Cancel\<close>, which for a remote run waits for the device, and from there on;
  between them the goroutines go on.
\<close>

definition CancelComputeRun :: "bytes \<Rightarrow> bytes \<Rightarrow> api \<Rightarrow> (http_reply + nat) \<times> api" where
  "CancelComputeRun deviceID runID s = (case find_run deviceID runID s of
      None \<Rightarrow> (Inl not_found, s)
    | Some r \<Rightarrow>
        if cr_Status (ap_runs s ! r) \<noteq> ''running'' then (Inl (not_running (ap_runs s ! r)), s)
        else (case cr_execHandle (ap_runs s ! r) of
            None \<Rightarrow> (Inl (errorResponse 400 ''No execution handle available'' None), s)
          | Some h \<Rightarrow> (case eh_Cancel (ap_handles s ! h) of
              (Some e, hnd) \<Rightarrow> (Inl (errorResponse 500 ''Failed to cancel'' (Some (err_text e))), upd_exec_handle h (\<lambda>_. hnd) s)
            | (None, hnd) \<Rightarrow> (Inr r, upd_exec_handle h (\<lambda>_. hnd) s))))"

definition CancelComputeRun_done :: "bytes \<Rightarrow> nat \<Rightarrow> api \<Rightarrow> http_reply \<times> api" where
  "CancelComputeRun_done runID r s = (status_body runID ''cancelled'', upd_run r (\<lambda>x. x\<lparr>cr_Status := ''cancelled''\<rparr>) s)"

definition DeleteComputeRun :: "bytes \<Rightarrow> bytes \<Rightarrow> api \<Rightarrow> http_reply \<times> api" where
  "DeleteComputeRun deviceID runID s = (case find_run deviceID runID s of
      None \<Rightarrow> (not_found, s)
    | Some r \<Rightarrow> (case RemoveRun runID s of
        (removed, s) \<Rightarrow> (if \<not> removed then errorResponse 500 ''Failed to remove run'' None else status_body runID ''removed'', s)))"

text \<open>\<open>input\<close> is what \<open>io.ReadAll\<close> makes of the body.  A write that takes only a part reports an error.\<close>

definition SendStdin :: "bytes \<Rightarrow> bytes \<Rightarrow> bytes result \<Rightarrow> api \<Rightarrow> http_reply \<times> api" where
  "SendStdin deviceID runID input s = (case find_run deviceID runID s of
      None \<Rightarrow> (not_found, s)
    | Some r \<Rightarrow>
        if cr_Status (ap_runs s ! r) \<noteq> ''running'' then (not_running (ap_runs s ! r), s)
        else (case input of
            Inl e \<Rightarrow> (errorResponse 400 ''Failed to read input'' (Some (err_text e)), s)
          | Inr d \<Rightarrow>
              (let ok = Reply 200 (JsonBody (jobj [fld ''bytes_written'' (jnat (length d)), fld ''status'' (JStr ''sent'')])) in
               if d = [] then (ok, s)
               else (case cr_execHandle (ap_runs s ! r) of
                   None \<Rightarrow> (errorResponse 400 ''No execution handle available'' None, s)
                 | Some h \<Rightarrow> (case conn_write d (eh_Stdin (ap_handles s ! h)) of
                     ((_, e), c) \<Rightarrow> (case e of
                         Some e \<Rightarrow> (errorResponse 500 ''Failed to write to stdin'' (Some (err_text e)), upd_exec_handle h (set_Stdin c) s)
                       | None \<Rightarrow> (ok, upd_exec_handle h (set_Stdin c) s)))))))"

section \<open>The runs of the server\<close>

text \<open>What processes and the network do to an execution.\<close>

definition stream_gets :: "bytes \<Rightarrow> conn \<Rightarrow> conn" where
  "stream_gets d c = (if d = [] \<or> pipe_closed c then c else c\<lparr>inbox := inbox c @ [d]\<rparr>)"

fun process_output :: "bytes \<Rightarrow> bytes \<Rightarrow> handle \<Rightarrow> handle" where
  "process_output out err (LocalHandle l) = LocalHandle (l\<lparr>lh_execution := process_writes out err (lh_execution l)\<rparr>)"
| "process_output out err (RemoteHandle r) =
     RemoteHandle (r\<lparr>rm_Stdout := stream_gets out (rm_Stdout r), rm_Stderr := stream_gets err (rm_Stderr r)\<rparr>)"

definition end_stream :: "goerr \<Rightarrow> conn \<Rightarrow> conn" where
  "end_stream e c = (if fin c = None then c\<lparr>fin := Some e\<rparr> else c)"

fun network_end :: "out_kind \<Rightarrow> goerr \<Rightarrow> handle \<Rightarrow> handle" where
  "network_end k e (RemoteHandle r) = set_stream k (end_stream e (eh_stream k (RemoteHandle r))) (RemoteHandle r)"
| "network_end k e (LocalHandle l) = LocalHandle l"

fun remote_log :: "bytes \<Rightarrow> handle \<Rightarrow> handle" where
  "remote_log d (RemoteHandle r) = RemoteHandle (r\<lparr>rm_Log := stream_gets d (rm_Log r)\<rparr>)"
| "remote_log d (LocalHandle l) = LocalHandle l"

fun execution_ends :: "wait_result \<Rightarrow> goerr option \<Rightarrow> int \<Rightarrow> handle \<Rightarrow> handle" where
  "execution_ends w err code (LocalHandle l) = LocalHandle (l\<lparr>lh_execution := wait_step w (lh_execution l)\<rparr>)"
| "execution_ends w err code (RemoteHandle r) = RemoteHandle (r\<lparr>rm_handle := complete err code (rm_handle r)\<rparr>)"

fun copy_step :: "out_kind \<Rightarrow> bytes \<Rightarrow> handle \<Rightarrow> handle" where
  "copy_step OutS now (LocalHandle l) = LocalHandle (copy_out now l)"
| "copy_step ErrS now (LocalHandle l) = LocalHandle (copy_err now l)"
| "copy_step LogS now (LocalHandle l) = LocalHandle (close_log l)"
| "copy_step k now (RemoteHandle r) = RemoteHandle r"

text \<open>Whether an execution still takes output; after its end the operating system has none for it.\<close>

fun takes_output :: "handle \<Rightarrow> bool" where
  "takes_output (LocalHandle l) = (ex_waiting (lh_execution l) \<and> fin (ex_Stdout (lh_execution l)) = None)"
| "takes_output (RemoteHandle r) = (fin (rm_Stdout r) = None \<and> fin (rm_Stderr r) = None)"

text \<open>\<open>Run\<close> of the client returns new streams and a handle that is not complete.\<close>

definition unread_stream :: "conn \<Rightarrow> bool" where
  "unread_stream c \<longleftrightarrow> inbox c = [] \<and> fin c = None \<and> \<not> shut c"

definition fresh_runs :: "node_view \<Rightarrow> bool" where
  "fresh_runs nd \<longleftrightarrow> (\<forall>d q r. nd_Run nd d q = Inr r \<longrightarrow> unread_stream (rm_Stdout r) \<and> unread_stream (rm_Stderr r))"

text \<open>
  The reachable states with what each execution has written so far, standard output and standard error.
  Requests that only look are left out.  With \<open>careful\<close>, a run is deleted only after its monitor ended.
\<close>

definition monitored :: "nat \<Rightarrow> api \<Rightarrow> bool" where
  "monitored r s \<longleftrightarrow> (\<exists>m \<in> set (ap_monitors s). rn_run m = r \<and> rn_phase m \<noteq> MonEnd)"

inductive api_reach :: "bool \<Rightarrow> (nat \<Rightarrow> bytes \<times> bytes) \<Rightarrow> api \<Rightarrow> bool" for careful where
  start: "api_reach careful (\<lambda>_. ([], [])) NewComputeManager"
| execute: "api_reach careful W s \<Longrightarrow> \<not> ap_crashed s \<Longrightarrow> case_option True fresh_runs nd
    \<Longrightarrow> ExecuteCommand h la kvs uuid nano now nd deviceID req s = (rp, s') \<Longrightarrow> api_reach careful W s'"
| written: "api_reach careful W s \<Longrightarrow> \<not> ap_crashed s \<Longrightarrow> i < length (ap_handles s) \<Longrightarrow> takes_output (ap_handles s ! i)
    \<Longrightarrow> api_reach careful (W(i := (fst (W i) @ out, snd (W i) @ err))) (upd_exec_handle i (process_output out err) s)"
| stream_ends: "api_reach careful W s \<Longrightarrow> \<not> ap_crashed s \<Longrightarrow> api_reach careful W (upd_exec_handle i (network_end k e) s)"
| log_entry: "api_reach careful W s \<Longrightarrow> \<not> ap_crashed s \<Longrightarrow> api_reach careful W (upd_exec_handle i (remote_log d) s)"
| ends: "api_reach careful W s \<Longrightarrow> \<not> ap_crashed s \<Longrightarrow> api_reach careful W (upd_exec_handle i (execution_ends w e code) s)"
| copying: "api_reach careful W s \<Longrightarrow> \<not> ap_crashed s \<Longrightarrow> api_reach careful W (upd_exec_handle i (copy_step k now) s)"
| buffering: "api_reach careful W s \<Longrightarrow> \<not> ap_crashed s \<Longrightarrow> api_reach careful W (bufferStream i s)"
| monitoring: "api_reach careful W s \<Longrightarrow> \<not> ap_crashed s \<Longrightarrow> api_reach careful W (monitorRunCompletion now i s)"
| cancel: "api_reach careful W s \<Longrightarrow> \<not> ap_crashed s \<Longrightarrow> CancelComputeRun deviceID runID s = (rp, s') \<Longrightarrow> api_reach careful W s'"
| cancel_done: "api_reach careful W s \<Longrightarrow> \<not> ap_crashed s \<Longrightarrow> CancelComputeRun_done runID r s = (rp, s') \<Longrightarrow> api_reach careful W s'"
| delete: "api_reach careful W s \<Longrightarrow> \<not> ap_crashed s \<Longrightarrow> (\<And>r. careful \<Longrightarrow> GetRun runID s = Some r \<Longrightarrow> \<not> monitored r s)
    \<Longrightarrow> DeleteComputeRun deviceID runID s = (rp, s') \<Longrightarrow> api_reach careful W s'"
| stdin: "api_reach careful W s \<Longrightarrow> \<not> ap_crashed s \<Longrightarrow> SendStdin deviceID runID input s = (rp, s') \<Longrightarrow> api_reach careful W s'"

end
