(* ===== verification/Api_Flow.thy ===== *)
theory Api_Flow
  imports Api_Compute
begin

text \<open>
  The buffered output of the runs: on its way from the process through the pipes into the buffers nothing is
  lost, repeated or moved, and no run sees the output of another.
\<close>

section \<open>One execution\<close>

definition in_copier :: "copier \<Rightarrow> bytes" where
  "in_copier cp = (case cp of CpWrite b \<Rightarrow> b | _ \<Rightarrow> [])"

text \<open>What has not reached the stream, whether the stream was cut, and that its source has ended.\<close>

fun upstream :: "out_kind \<Rightarrow> handle \<Rightarrow> bytes" where
  "upstream OutS (LocalHandle l) = in_copier (lh_copy_out l) @ conn_pending (ex_Stdout (lh_execution l))"
| "upstream ErrS (LocalHandle l) = in_copier (lh_copy_err l) @ conn_pending (ex_Stderr (lh_execution l))"
| "upstream _ _ = []"

fun was_cancelled :: "handle \<Rightarrow> bool" where
  "was_cancelled (LocalHandle l) = ex_cancelled (lh_execution l)"
| "was_cancelled (RemoteHandle r) = False"

definition cut :: "out_kind \<Rightarrow> handle \<Rightarrow> bool" where
  "cut k hnd \<longleftrightarrow> shut (eh_stream k hnd) \<or> was_cancelled hnd"

fun source_ended :: "out_kind \<Rightarrow> handle \<Rightarrow> bool" where
  "source_ended OutS (LocalHandle l) = (lh_copy_out l = CpEnd \<and> fin (ex_Stdout (lh_execution l)) = Some EOF \<and> inbox (ex_Stdout (lh_execution l)) = [])"
| "source_ended ErrS (LocalHandle l) = (lh_copy_err l = CpEnd \<and> fin (ex_Stderr (lh_execution l)) = Some EOF \<and> inbox (ex_Stderr (lh_execution l)) = [])"
| "source_ended _ _ = True"

text \<open>\<open>w\<close> is what was written, \<open>buf\<close> the buffer, \<open>dn\<close> that its goroutine has ended.\<close>

definition flow_ok :: "bytes \<Rightarrow> out_kind \<Rightarrow> handle \<Rightarrow> bytes \<Rightarrow> bool \<Rightarrow> bool" where
  "flow_ok w k hnd buf dn \<longleftrightarrow> prefix (buf @ conn_pending (eh_stream k hnd)) w
     \<and> (if cut k hnd then pipe_closed (eh_stream k hnd)
        else w = buf @ conn_pending (eh_stream k hnd) @ upstream k hnd
          \<and> (fin (eh_stream k hnd) \<noteq> None \<longrightarrow> source_ended k hnd)
          \<and> (dn \<longrightarrow> conn_pending (eh_stream k hnd) = [] \<and> fin (eh_stream k hnd) \<noteq> None))"

text \<open>The pipes of the process itself are closed by the process and by \<open>Cancel\<close> only, both at once.\<close>

fun pipes_ok :: "handle \<Rightarrow> bool" where
  "pipes_ok (LocalHandle l) = (let x = lh_execution l in \<not> shut (ex_Stdout x) \<and> \<not> shut (ex_Stderr x)
     \<and> fin (ex_Stdout x) \<in> {None, Some EOF} \<and> fin (ex_Stderr x) = fin (ex_Stdout x)
     \<and> (\<forall>l'. lh_copy_out l \<noteq> CpLog l' True \<and> lh_copy_err l \<noteq> CpLog l' True)
     \<and> lh_copy_out l \<noteq> CpLogged True \<and> lh_copy_err l \<noteq> CpLogged True)"
| "pipes_ok (RemoteHandle r) = True"

definition out_of :: "out_kind \<Rightarrow> bytes \<Rightarrow> bytes \<Rightarrow> bytes" where
  "out_of k out err = (case k of OutS \<Rightarrow> out | ErrS \<Rightarrow> err | LogS \<Rightarrow> [])"

lemma conn_pending_inbox: "conn_pending (c\<lparr>inbox := bs\<rparr>) = concat bs"
  by (simp add: conn_pending_def)

lemma conn_pending_fin [simp]: "conn_pending (c\<lparr>fin := e\<rparr>) = conn_pending c" "conn_pending (end_pipe c) = conn_pending c"
  by (simp_all add: conn_pending_def end_pipe_def)

lemma flow_output:
  assumes "flow_ok w k hnd buf dn" "k \<noteq> LogS" "takes_output hnd" "pipes_ok hnd"
  shows "flow_ok (w @ out_of k out err) k (process_output out err hnd) buf dn \<and> pipes_ok (process_output out err hnd)"
proof (cases hnd)
  case (LocalHandle l)
  then show ?thesis using assms
    by (cases k) (auto simp: flow_ok_def cut_def out_of_def process_writes_def conn_pending_def Let_def intro: prefix_prefix)
next
  case (RemoteHandle r)
  then show ?thesis using assms
    by (cases k) (auto simp: flow_ok_def cut_def out_of_def conn_pending_def pipe_closed_def stream_gets_def intro: prefix_prefix)
qed

lemma flow_network_end:
  assumes "flow_ok w k hnd buf dn" "k \<noteq> LogS" "pipes_ok hnd"
  shows "flow_ok w k (network_end k' e hnd) buf dn \<and> pipes_ok (network_end k' e hnd)"
  using assms
  by (cases hnd; cases k; cases k') (auto simp: flow_ok_def cut_def end_stream_def conn_pending_def pipe_closed_def)

lemma flow_log:
  assumes "flow_ok w k hnd buf dn" "k \<noteq> LogS" "pipes_ok hnd"
  shows "flow_ok w k (remote_log d hnd) buf dn \<and> pipes_ok (remote_log d hnd)"
  using assms by (cases hnd; cases k) (auto simp: flow_ok_def cut_def)

lemma flow_ends:
  assumes "flow_ok w k hnd buf dn" "k \<noteq> LogS" "pipes_ok hnd"
  shows "flow_ok w k (execution_ends wr e code hnd) buf dn \<and> pipes_ok (execution_ends wr e code hnd)"
  using assms
  by (cases hnd; cases k) (auto simp: flow_ok_def cut_def wait_step_def Let_def end_pipe_def conn_pending_def)

lemma flow_cancel:
  assumes "flow_ok w k hnd buf dn" "k \<noteq> LogS" "pipes_ok hnd"
  shows "flow_ok w k (snd (eh_Cancel hnd)) buf dn \<and> pipes_ok (snd (eh_Cancel hnd))"
  using assms
  by (cases hnd; cases k) (auto simp: flow_ok_def cut_def ex_Cancel_def Let_def end_pipe_def cut_pipe_def conn_pending_def pipe_closed_def dest: append_prefixD)

lemmas copier_defs = forwardToLogAndBuffer_def conn_read_def in_copier_def conn_pending_def end_pipe_def pipe_closed_def

definition no_error :: "copier \<Rightarrow> bool" where
  "no_error cp \<longleftrightarrow> (\<forall>l. cp \<noteq> CpLog l True) \<and> cp \<noteq> CpLogged True"

lemma copier_step:
  assumes "forwardToLogAndBuffer now i n busy (cp, src, logW, bufW) = (cp', src', logW', bufW')"
    and "\<not> shut src" "fin src \<in> {None, Some EOF}" "no_error cp"
  shows "\<not> shut src' \<and> fin src' = fin src \<and> no_error cp' \<and> shut bufW' = shut bufW"
  using assms by (cases cp) (auto simp: copier_defs no_error_def split: if_splits list.splits option.splits)

lemma copier_closed:
  assumes "forwardToLogAndBuffer now i n busy (cp, src, logW, bufW) = (cp', src', logW', bufW')" "pipe_closed bufW"
  shows "pipe_closed bufW' \<and> inbox bufW' = inbox bufW"
  using assms by (cases cp) (auto simp: copier_defs split: if_splits list.splits option.splits)

lemma copier_flow:
  assumes "forwardToLogAndBuffer now i n busy (cp, src, logW, bufW) = (cp', src', logW', bufW')"
    and "\<not> shut src" "fin src \<in> {None, Some EOF}" "no_error cp" "\<not> pipe_closed bufW"
  shows "conn_pending bufW' @ in_copier cp' @ conn_pending src' = conn_pending bufW @ in_copier cp @ conn_pending src
    \<and> (fin bufW' \<noteq> None \<longrightarrow> cp' = CpEnd \<and> fin src' = Some EOF \<and> inbox src' = [])"
  using assms by (cases cp) (auto simp: copier_defs no_error_def split: if_splits list.splits option.splits)

lemma copier_end: "forwardToLogAndBuffer now i n busy (CpEnd, r) = (CpEnd, r)"
  by (cases r) (simp add: forwardToLogAndBuffer_def)

text \<open>One copier between its source and its pipe.\<close>

definition local_flow :: "bytes \<Rightarrow> bool \<Rightarrow> conn \<Rightarrow> copier \<Rightarrow> conn \<Rightarrow> bytes \<Rightarrow> bool \<Rightarrow> bool" where
  "local_flow w x src cp bufW buf dn \<longleftrightarrow> prefix (buf @ conn_pending bufW) w
     \<and> (if shut bufW \<or> x then pipe_closed bufW
        else w = buf @ conn_pending bufW @ in_copier cp @ conn_pending src
          \<and> (fin bufW \<noteq> None \<longrightarrow> cp = CpEnd \<and> fin src = Some EOF \<and> inbox src = [])
          \<and> (dn \<longrightarrow> conn_pending bufW = [] \<and> fin bufW \<noteq> None))"

lemma local_flow_copied:
  assumes st: "forwardToLogAndBuffer now i n busy (cp, src, logW, bufW) = (cp', src', logW', bufW')"
    and "\<not> shut src" "fin src \<in> {None, Some EOF}" "no_error cp"
    and f: "local_flow w x src cp bufW buf dn"
  shows "local_flow w x src' cp' bufW' buf dn"
proof (cases "pipe_closed bufW")
  case True
  have same: "pipe_closed bufW'" "conn_pending bufW' = conn_pending bufW" "shut bufW' = shut bufW"
    using copier_closed [OF st True] copier_step [OF assms(1-4)] by (simp_all add: conn_pending_def)
  show ?thesis
  proof (cases "shut bufW \<or> x")
    case True
    then show ?thesis using f same by (auto simp: local_flow_def)
  next
    case False
    then have "cp = CpEnd" using f \<open>pipe_closed bufW\<close> by (auto simp: local_flow_def pipe_closed_def)
    then show ?thesis using st f copier_end [of now i n busy "(src, logW, bufW)"] by auto
  qed
next
  case False
  note cs = copier_step [OF assms(1-4)] and cf = copier_flow [OF assms(1-4) False]
  have x: "\<not> (shut bufW \<or> x)" "\<not> dn" using f False by (auto simp: local_flow_def pipe_closed_def split: if_splits)
  then have "w = buf @ conn_pending bufW' @ in_copier cp' @ conn_pending src'" using f cf by (auto simp: local_flow_def)
  moreover from this have "prefix (buf @ conn_pending bufW') w" by (auto simp: prefix_def)
  ultimately show ?thesis using x cs cf by (simp add: local_flow_def)
qed

lemma flow_local:
  "flow_ok w OutS (LocalHandle l) buf dn = local_flow w (ex_cancelled (lh_execution l)) (ex_Stdout (lh_execution l)) (lh_copy_out l) (lh_Stdout l) buf dn"
  "flow_ok w ErrS (LocalHandle l) buf dn = local_flow w (ex_cancelled (lh_execution l)) (ex_Stderr (lh_execution l)) (lh_copy_err l) (lh_Stderr l) buf dn"
  by (simp_all add: flow_ok_def local_flow_def cut_def)

lemma pipes_local:
  "pipes_ok (LocalHandle l) \<longleftrightarrow> (let x = lh_execution l in \<not> shut (ex_Stdout x) \<and> \<not> shut (ex_Stderr x)
     \<and> fin (ex_Stdout x) \<in> {None, Some EOF} \<and> fin (ex_Stderr x) = fin (ex_Stdout x) \<and> no_error (lh_copy_out l) \<and> no_error (lh_copy_err l))"
  by (auto simp: Let_def no_error_def)

lemma flow_copy:
  assumes "flow_ok w k hnd buf dn" "k \<noteq> LogS" "pipes_ok hnd"
  shows "flow_ok w k (copy_step k' now hnd) buf dn \<and> pipes_ok (copy_step k' now hnd)"
proof (cases hnd)
  case (RemoteHandle r)
  then show ?thesis using assms by (cases k') auto
next
  case (LocalHandle l)
  let ?x = "lh_execution l"
  note ok = assms(3) [unfolded LocalHandle pipes_local Let_def]
  obtain cp src logW bufW where o': "forwardToLogAndBuffer now (ex_RunID ?x) ''stdout'' (logging (lh_copy_err l))
      (lh_copy_out l, ex_Stdout ?x, lh_Log l, lh_Stdout l) = (cp, src, logW, bufW)" by (metis prod_cases4)
  obtain cp2 src2 logW2 bufW2 where e: "forwardToLogAndBuffer now (ex_RunID ?x) ''stderr'' (logging (lh_copy_out l))
      (lh_copy_err l, ex_Stderr ?x, lh_Log l, lh_Stderr l) = (cp2, src2, logW2, bufW2)" by (metis prod_cases4)
  have co: "copy_out now l = l\<lparr>lh_execution := ?x\<lparr>ex_Stdout := src\<rparr>, lh_Stdout := bufW, lh_Log := logW, lh_copy_out := cp\<rparr>"
    and ce: "copy_err now l = l\<lparr>lh_execution := ?x\<lparr>ex_Stderr := src2\<rparr>, lh_Stderr := bufW2, lh_Log := logW2, lh_copy_err := cp2\<rparr>"
    by (simp_all add: copy_out_def copy_err_def o' e)
  have p: "\<not> shut src \<and> fin src = fin (ex_Stdout ?x) \<and> no_error cp" "\<not> shut src2 \<and> fin src2 = fin (ex_Stderr ?x) \<and> no_error cp2"
    using copier_step [OF o'] copier_step [OF e] ok by auto
  have f: "local_flow w (ex_cancelled ?x) src cp bufW buf dn" if "k = OutS"
    using local_flow_copied [OF o'] ok assms(1) that unfolding LocalHandle by (simp add: flow_local)
  have f2: "local_flow w (ex_cancelled ?x) src2 cp2 bufW2 buf dn" if "k = ErrS"
    using local_flow_copied [OF e] ok assms(1) that unfolding LocalHandle by (simp add: flow_local)
  have c: "flow_ok w k (LocalHandle l) buf dn" using assms(1) LocalHandle by simp
  show ?thesis
  proof (cases k')
    case OutS
    then show ?thesis using p f c ok assms(2) by (cases k) (simp_all add: LocalHandle co flow_local pipes_local del: pipes_ok.simps)
  next
    case ErrS
    then show ?thesis using p f2 c ok assms(2) by (cases k) (simp_all add: LocalHandle ce flow_local pipes_local del: pipes_ok.simps)
  next
    case LogS
    then show ?thesis using c ok assms(2) by (cases k) (auto simp: LocalHandle close_log_def flow_local pipes_local simp del: pipes_ok.simps)
  qed
qed

text \<open>Operations that leave the streams and the pipes alone.\<close>

definition same_streams :: "handle \<Rightarrow> handle \<Rightarrow> bool" where
  "same_streams h h' \<longleftrightarrow> (\<forall>k. k \<noteq> LogS \<longrightarrow> eh_stream k h' = eh_stream k h \<and> upstream k h' = upstream k h \<and> source_ended k h' = source_ended k h)
     \<and> was_cancelled h' = was_cancelled h \<and> pipes_ok h' = pipes_ok h"

lemma flow_same:
  "same_streams hnd hnd' \<Longrightarrow> flow_ok w k hnd buf dn \<Longrightarrow> k \<noteq> LogS \<Longrightarrow> pipes_ok hnd \<Longrightarrow> flow_ok w k hnd' buf dn \<and> pipes_ok hnd'"
  by (simp add: same_streams_def flow_ok_def cut_def)

lemma out_kind_cases: "(\<forall>k. k \<noteq> LogS \<longrightarrow> P k) \<longleftrightarrow> P OutS \<and> P ErrS"
  by (metis out_kind.exhaust out_kind.distinct)

lemma same_streams_ops:
  "same_streams hnd (set_Stdin c hnd)" "same_streams hnd (client_close hnd)"
  "same_streams hnd (snd (eh_Done hnd))" "same_streams hnd (snd (eh_ExitCode hnd))"
  "same_streams hnd (set_stream LogS c hnd)"
  by (cases hnd; simp add: same_streams_def out_kind_cases Let_def split: prod.splits)+

lemma conn_close_props: "shut (snd (conn_close c))" "inbox (snd (conn_close c)) = inbox c" "fin (snd (conn_close c)) = fin c"
  by (simp_all add: conn_close_def)

lemma flow_close:
  assumes "flow_ok w k hnd buf dn" "k \<noteq> LogS" "pipes_ok hnd"
  shows "flow_ok w k (close_run_streams hnd) buf dn \<and> pipes_ok (close_run_streams hnd)"
  using assms
  by (cases hnd; cases k) (auto simp: flow_ok_def cut_def close_run_streams_def Let_def conn_pending_def pipe_closed_def conn_close_props)

lemma conn_read_data:
  "conn_read n c = (RdData d, c') \<Longrightarrow> conn_pending c = d @ conn_pending c' \<and> shut c' = shut c \<and> fin c' = fin c"
  by (auto simp: conn_read_def conn_pending_def append_take_drop_id [symmetric] simp del: append_take_drop_id
      split: if_splits list.splits option.splits)

lemma set_stream_stream:
  "eh_stream k (set_stream k c hnd) = c" "upstream k' (set_stream k c hnd) = upstream k' hnd"
  "source_ended k' (set_stream k c hnd) = source_ended k' hnd" "was_cancelled (set_stream k c hnd) = was_cancelled hnd"
  by (cases hnd; cases k; cases k'; simp)+

lemma flow_read:
  assumes "flow_ok w k hnd buf dn" "conn_read n (eh_stream k hnd) = (RdData d, c)"
  shows "flow_ok w k (set_stream k c hnd) (buf @ d) dn"
  using assms conn_read_data [OF assms(2)] by (auto simp: flow_ok_def cut_def pipe_closed_def set_stream_stream)

lemma flow_read_other:
  "flow_ok w k hnd buf dn \<Longrightarrow> k \<noteq> k' \<Longrightarrow> k \<noteq> LogS \<Longrightarrow> flow_ok w k (set_stream k' c hnd) buf dn"
  by (cases hnd; cases k; cases k') (auto simp: flow_ok_def cut_def)

lemma flow_read_end:
  assumes "flow_ok w k hnd buf dn" "conn_read n (eh_stream k hnd) = (RdErr e, c)"
  shows "flow_ok w k hnd buf True"
  using assms
  by (auto simp: flow_ok_def cut_def conn_read_def conn_pending_def split: list.splits if_splits option.splits)

lemma pipes_read: "pipes_ok (set_stream k c hnd) = pipes_ok hnd"
  by (cases hnd; cases k) simp_all

section \<open>The state\<close>

text \<open>
  Every start adds one run, one execution, one monitor, three buffers and three goroutines; the pointers of a
  run go to its own.
\<close>

definition run_shape :: "nat \<Rightarrow> compute_run \<Rightarrow> bool" where
  "run_shape r x \<longleftrightarrow> cr_execHandle x \<in> {None, Some r} \<and> cr_client x \<in> {None, Some r}
     \<and> cr_stdoutBuf x \<in> {None, Some (3 * r)} \<and> cr_stderrBuf x \<in> {None, Some (3 * r + 1)} \<and> cr_logsBuf x \<in> {None, Some (3 * r + 2)}
     \<and> (cr_execHandle x \<noteq> None \<longrightarrow> cr_stdoutBuf x \<noteq> None \<and> cr_stderrBuf x \<noteq> None \<and> cr_logsBuf x \<noteq> None)"

definition reader_is :: "nat \<Rightarrow> out_kind \<Rightarrow> nat \<Rightarrow> buf_reader \<Rightarrow> bool" where
  "reader_is r k b x \<longleftrightarrow> br_handle x = r \<and> br_output x = k \<and> br_buf x = b"

definition monitor_shape :: "nat \<Rightarrow> run_monitor \<Rightarrow> bool" where
  "monitor_shape r m \<longleftrightarrow> rn_run m = r \<and> (case rn_phase m of MonDone h \<Rightarrow> h = r | MonExit e h \<Rightarrow> h = r | _ \<Rightarrow> True)"

definition shape :: "api \<Rightarrow> bool" where
  "shape s \<longleftrightarrow> (let n = length (ap_runs s) in
     length (ap_handles s) = n \<and> length (ap_bufs s) = 3 * n \<and> length (ap_readers s) = 3 * n \<and> length (ap_monitors s) = n
     \<and> (\<forall>r < n. run_shape r (ap_runs s ! r) \<and> monitor_shape r (ap_monitors s ! r) \<and> reader_is r OutS (3 * r) (ap_readers s ! (3 * r))
         \<and> reader_is r ErrS (3 * r + 1) (ap_readers s ! (3 * r + 1)) \<and> reader_is r LogS (3 * r + 2) (ap_readers s ! (3 * r + 2)))
     \<and> (\<forall>i r. cm_runs s i = Some r \<longrightarrow> r < n \<and> cr_ID (ap_runs s ! r) = i))"

definition flows :: "(nat \<Rightarrow> bytes \<times> bytes) \<Rightarrow> api \<Rightarrow> bool" where
  "flows W s \<longleftrightarrow> (\<forall>r < length (ap_runs s). pipes_ok (ap_handles s ! r)
     \<and> flow_ok (fst (W r)) OutS (ap_handles s ! r) (ap_bufs s ! (3 * r)) (br_done (ap_readers s ! (3 * r)))
     \<and> flow_ok (snd (W r)) ErrS (ap_handles s ! r) (ap_bufs s ! (3 * r + 1)) (br_done (ap_readers s ! (3 * r + 1))))
     \<and> (\<forall>r \<ge> length (ap_runs s). W r = ([], []))"

definition api_inv :: "(nat \<Rightarrow> bytes \<times> bytes) \<Rightarrow> api \<Rightarrow> bool" where
  "api_inv W s \<longleftrightarrow> shape s \<and> flows W s"

text \<open>What a change of an execution has to keep.\<close>

definition keeps_flow :: "handle \<Rightarrow> handle \<Rightarrow> bool" where
  "keeps_flow h h' \<longleftrightarrow> (\<forall>w k buf dn. flow_ok w k h buf dn \<longrightarrow> k \<noteq> LogS \<longrightarrow> pipes_ok h \<longrightarrow> flow_ok w k h' buf dn \<and> pipes_ok h')"

lemma keeps_flow_simps [simp]:
  "keeps_flow h (network_end k e h)" "keeps_flow h (remote_log d h)" "keeps_flow h (execution_ends w err code h)"
  "keeps_flow h (copy_step k now h)" "keeps_flow h (snd (eh_Cancel h))" "keeps_flow h (close_run_streams h)"
  "keeps_flow h (set_Stdin c h)" "keeps_flow h (client_close h)" "keeps_flow h (snd (eh_Done h))"
  "keeps_flow h (snd (eh_ExitCode h))" "keeps_flow h (set_stream LogS c h)"
  by (simp_all add: keeps_flow_def flow_network_end flow_log flow_ends flow_copy flow_cancel flow_close
      flow_same [OF same_streams_ops(1)] flow_same [OF same_streams_ops(2)] flow_same [OF same_streams_ops(3)]
      flow_same [OF same_streams_ops(4)] flow_same [OF same_streams_ops(5)])

lemma inv_handle:
  assumes "api_inv W s" "i < length (ap_handles s) \<Longrightarrow> keeps_flow (ap_handles s ! i) (f (ap_handles s ! i))"
  shows "api_inv W (upd_exec_handle i f s)"
proof (cases "i < length (ap_handles s)")
  case True
  then show ?thesis using assms
    by (auto simp: api_inv_def shape_def flows_def upd_exec_handle_def keeps_flow_def Let_def nth_list_update)
qed (use assms in \<open>simp add: upd_exec_handle_def\<close>)

lemma inv_run:
  assumes "api_inv W s"
    and "run_shape r (ap_runs s ! r) \<Longrightarrow> r < length (ap_runs s) \<Longrightarrow>
      run_shape r (f (ap_runs s ! r)) \<and> cr_ID (f (ap_runs s ! r)) = cr_ID (ap_runs s ! r)"
  shows "api_inv W (upd_run r f s)"
proof -
  have "cr_ID (f (ap_runs s ! r)) = cr_ID (ap_runs s ! r) \<and> run_shape r (f (ap_runs s ! r))" if "r < length (ap_runs s)"
    using assms that by (auto simp: api_inv_def shape_def Let_def)
  then show ?thesis using assms(1)
    by (auto simp: api_inv_def shape_def flows_def upd_run_def Let_def nth_list_update)
qed

lemma inv_phase:
  assumes "api_inv W s" "i < length (ap_monitors s) \<Longrightarrow> case p of MonDone h \<Rightarrow> h = i | MonExit e h \<Rightarrow> h = i | _ \<Rightarrow> True"
  shows "api_inv W (set_watch i p s)"
proof (cases "i < length (ap_monitors s)")
  case True
  then show ?thesis using assms
    by (auto simp: api_inv_def shape_def flows_def set_watch_def Let_def nth_list_update monitor_shape_def)
qed (use assms in \<open>simp add: set_watch_def not_less list_update_beyond\<close>)

lemma inv_crash: "api_inv W s \<Longrightarrow> api_inv W (s\<lparr>ap_crashed := True\<rparr>)"
  by (simp add: api_inv_def shape_def flows_def)

lemma inv_start: "api_inv (\<lambda>_. ([], [])) NewComputeManager"
  by (simp add: api_inv_def shape_def flows_def NewComputeManager_def)

lemma inv_remove: "api_inv W s \<Longrightarrow> api_inv W (s\<lparr>cm_runs := (cm_runs s)(i := None)\<rparr>)"
  by (auto simp: api_inv_def shape_def flows_def Let_def)

lemma inv_Cleanup:
  assumes "api_inv W s" shows "api_inv W (Cleanup r s)"
proof -
  have a: "api_inv W (case cr_client (ap_runs s ! r) of None \<Rightarrow> s
      | Some h \<Rightarrow> upd_run r (\<lambda>x. x\<lparr>cr_client := None\<rparr>) (upd_exec_handle h client_close s))" (is "api_inv W ?s")
    using assms by (auto intro!: inv_run inv_handle simp: run_shape_def split: option.split)
  have "api_inv W (case cr_execHandle (ap_runs ?s ! r) of None \<Rightarrow> ?s
      | Some h \<Rightarrow> upd_run r (\<lambda>x. x\<lparr>cr_execHandle := None\<rparr>) (upd_exec_handle h close_run_streams ?s))" (is "api_inv W ?t")
    using a assms by (auto intro!: inv_run inv_handle simp: run_shape_def split: option.split)
  moreover have "cr_execHandle (ap_runs ?t ! r) = None" if "r < length (ap_runs ?t)"
    using that by (auto simp: upd_run_def upd_exec_handle_def split: option.splits if_splits)
  ultimately have "api_inv W (upd_run r (\<lambda>x. x\<lparr>cr_stdoutBuf := None, cr_stderrBuf := None, cr_logsBuf := None\<rparr>) ?t)"
    by (intro inv_run) (auto simp: run_shape_def)
  then show ?thesis by (simp add: Cleanup_def Let_def)
qed

lemma inv_written:
  assumes "api_inv W s" "i < length (ap_handles s)" "takes_output (ap_handles s ! i)"
  shows "api_inv (W(i := (fst (W i) @ out, snd (W i) @ err))) (upd_exec_handle i (process_output out err) s)"
  using assms flow_output [where k = OutS and out = out and err = err] flow_output [where k = ErrS and out = out and err = err]
  by (auto simp: api_inv_def shape_def flows_def upd_exec_handle_def Let_def nth_list_update out_of_def)

text \<open>Positions in the lists of buffers and goroutines.\<close>

lemma three_slots:
  "Suc (3 * a) \<noteq> 3 * b" "3 * a \<noteq> Suc (3 * b)" "Suc (Suc (3 * a)) \<noteq> 3 * b" "3 * a \<noteq> Suc (Suc (3 * b))"
  for a b :: nat
  by presburger+

lemma reader_nth:
  assumes "shape s" "i < length (ap_readers s)"
  obtains (out) r where "r < length (ap_runs s)" "i = 3 * r" "reader_is r OutS i (ap_readers s ! i)"
  | (err) r where "r < length (ap_runs s)" "i = 3 * r + 1" "reader_is r ErrS i (ap_readers s ! i)"
  | (log) r where "r < length (ap_runs s)" "i = 3 * r + 2" "reader_is r LogS i (ap_readers s ! i)"
proof -
  define r where "r = i div 3"
  have r: "r < length (ap_runs s)" using assms by (auto simp: shape_def Let_def r_def)
  then have "reader_is r OutS (3 * r) (ap_readers s ! (3 * r))" "reader_is r ErrS (3 * r + 1) (ap_readers s ! (3 * r + 1))"
      "reader_is r LogS (3 * r + 2) (ap_readers s ! (3 * r + 2))"
    using assms(1) by (simp_all add: shape_def Let_def)
  moreover have "i mod 3 < 3" by simp
  then have "i = 3 * r \<or> i = 3 * r + 1 \<or> i = 3 * r + 2" unfolding r_def by linarith
  ultimately show ?thesis using that r by blast
qed

text \<open>What a round of a goroutine does, for the three positions alike.\<close>

lemma inv_data:
  assumes inv: "api_inv W s" and i: "i < length (ap_readers s)" and rd: "reader_is r k i (ap_readers s ! i)"
    and c: "conn_read 4096 (eh_stream k (ap_handles s ! r)) = (RdData d, c)"
  shows "api_inv W (upd_exec_handle r (set_stream k c) (s\<lparr>ap_bufs := (ap_bufs s)[i := ap_bufs s ! i @ d]\<rparr>))"
proof -
  have sh: "shape (upd_exec_handle r (set_stream k c) (s\<lparr>ap_bufs := (ap_bufs s)[i := ap_bufs s ! i @ d]\<rparr>))"
    using inv by (simp add: api_inv_def shape_def upd_exec_handle_def Let_def)
  have len: "length (ap_handles s) = length (ap_runs s)" "length (ap_bufs s) = 3 * length (ap_runs s)"
    using inv by (simp_all add: api_inv_def shape_def Let_def)
  have fl: "flows W s" using inv by (simp add: api_inv_def)
  note sw = three_slots upd_exec_handle_def nth_list_update flows_def len pipes_read
  have sp: "shape s" using inv by (simp add: api_inv_def)
  from sp i have "flows W (upd_exec_handle r (set_stream k c) (s\<lparr>ap_bufs := (ap_bufs s)[i := ap_bufs s ! i @ d]\<rparr>))"
  proof (cases rule: reader_nth)
    case (out r')
    then have "r' = r" "k = OutS" using rd by (simp_all add: reader_is_def)
    then show ?thesis using fl out c flow_read [OF _ c] flow_read_other [of _ ErrS "ap_handles s ! r" _ _ OutS c] by (simp add: sw)
  next
    case (err r')
    then have "r' = r" "k = ErrS" using rd by (simp_all add: reader_is_def)
    then show ?thesis using fl err c flow_read [OF _ c] flow_read_other [of _ OutS "ap_handles s ! r" _ _ ErrS c] by (simp add: sw)
  next
    case (log r')
    then have "r' = r" "k = LogS" using rd by (simp_all add: reader_is_def)
    then show ?thesis using fl log flow_read_other [of _ OutS "ap_handles s ! r" _ _ LogS c] flow_read_other [of _ ErrS "ap_handles s ! r" _ _ LogS c]
      by (simp add: sw)
  qed
  with sh show ?thesis by (simp add: api_inv_def)
qed

lemma inv_reader_ends:
  assumes inv: "api_inv W s" and i: "i < length (ap_readers s)" and rd: "reader_is r k i (ap_readers s ! i)"
    and c: "conn_read 4096 (eh_stream k (ap_handles s ! r)) = (RdErr e, c)"
  shows "api_inv W (s\<lparr>ap_readers := (ap_readers s)[i := (ap_readers s ! i)\<lparr>br_done := True\<rparr>]\<rparr>)"
proof -
  have fl: "flows W s" and sp: "shape s" using inv by (simp_all add: api_inv_def)
  from sp have sh: "shape (s\<lparr>ap_readers := (ap_readers s)[i := (ap_readers s ! i)\<lparr>br_done := True\<rparr>]\<rparr>)"
    using i by (auto simp: shape_def Let_def nth_list_update reader_is_def)
  note sw = three_slots nth_list_update flows_def i
  from sp i have "flows W (s\<lparr>ap_readers := (ap_readers s)[i := (ap_readers s ! i)\<lparr>br_done := True\<rparr>]\<rparr>)"
  proof (cases rule: reader_nth)
    case (out r')
    then have "r' = r" "k = OutS" using rd by (simp_all add: reader_is_def)
    then show ?thesis using fl out c i flow_read_end [OF _ c] by (auto simp: sw)
  next
    case (err r')
    then have "r' = r" "k = ErrS" using rd by (simp_all add: reader_is_def)
    then show ?thesis using fl err c i flow_read_end [OF _ c] by (auto simp: sw)
  next
    case (log r')
    then show ?thesis using fl i by (simp add: sw)
  qed
  with sh show ?thesis by (simp add: api_inv_def)
qed

lemma inv_bufferStream:
  assumes inv: "api_inv W s"
  shows "api_inv W (bufferStream i s)"
proof (cases "i < length (ap_readers s) \<and> \<not> br_done (ap_readers s ! i)")
  case False
  then show ?thesis using inv by (auto simp: bufferStream_def Let_def)
next
  case True
  have "shape s" "i < length (ap_readers s)" using inv True by (simp_all add: api_inv_def)
  then obtain r k where r: "reader_is r k i (ap_readers s ! i)"
    by (cases rule: reader_nth) auto
  then have x: "br_handle (ap_readers s ! i) = r" "br_output (ap_readers s ! i) = k" "br_buf (ap_readers s ! i) = i"
    by (simp_all add: reader_is_def)
  obtain v c where v: "conn_read 4096 (eh_stream k (ap_handles s ! r)) = (v, c)" by force
  show ?thesis
  proof (cases v)
    case RdBlock
    then show ?thesis using inv True v by (simp add: bufferStream_def x Let_def)
  next
    case (RdData d)
    then show ?thesis using inv_data [OF inv _ r] True v by (simp add: bufferStream_def x Let_def)
  next
    case (RdErr e)
    then show ?thesis using inv_reader_ends [OF inv _ r] True v by (simp add: bufferStream_def x Let_def)
  qed
qed

lemma table_entry: "api_inv W s \<Longrightarrow> cm_runs s i = Some r \<Longrightarrow> r < length (ap_runs s) \<and> cr_ID (ap_runs s ! r) = i"
  by (simp add: api_inv_def shape_def Let_def)

lemma monitor_nth:
  "api_inv W s \<Longrightarrow> i < length (ap_monitors s) \<Longrightarrow> i < length (ap_runs s) \<and> rn_run (ap_monitors s ! i) = i
    \<and> (case rn_phase (ap_monitors s ! i) of MonDone h \<Rightarrow> h = i | MonExit e h \<Rightarrow> h = i | _ \<Rightarrow> True)
    \<and> cr_execHandle (ap_runs s ! i) \<in> {None, Some i}"
  by (auto simp: api_inv_def shape_def monitor_shape_def run_shape_def Let_def)

lemma finish_run_keeps: "cr_ID (finish_run now err c x) = cr_ID x" "run_shape r (finish_run now err c x) = run_shape r x"
    "cr_execHandle (finish_run now err c x) = cr_execHandle x"
  by (simp_all add: finish_run_def run_shape_def Let_def)

lemma inv_monitor:
  assumes inv: "api_inv W s"
  shows "api_inv W (monitorRunCompletion now i s)"
proof (cases "i < length (ap_monitors s)")
  case True
  note m = monitor_nth [OF inv True]
  have k: "keeps_flow (ap_handles s ! i) h" if "eh_Done (ap_handles s ! i) = (v, h)" for v h
    using keeps_flow_simps(9) [of "ap_handles s ! i"] that by simp
  have k2: "keeps_flow (ap_handles s ! i) h" if "eh_ExitCode (ap_handles s ! i) = (v, h)" for v h
    using keeps_flow_simps(10) [of "ap_handles s ! i"] that by simp
  show ?thesis
    using inv m True
    by (auto simp: monitorRunCompletion_def Let_def inv_crash finish_run_keeps k k2 split: monitor_phase.split option.split prod.split
        intro!: inv_phase inv_run inv_handle)
qed (use inv in \<open>simp add: monitorRunCompletion_def\<close>)

lemma find_run_shape: "api_inv W s \<Longrightarrow> find_run d i s = Some r \<Longrightarrow> r < length (ap_runs s) \<and> cr_execHandle (ap_runs s ! r) \<in> {None, Some r}
    \<and> cm_runs s i = Some r \<and> cr_DeviceID (ap_runs s ! r) = d"
  by (auto simp: find_run_def GetRun_def api_inv_def shape_def run_shape_def Let_def split: option.splits if_splits)

lemma inv_cancel:
  assumes inv: "api_inv W s" and st: "CancelComputeRun d i s = (rp, s')"
  shows "api_inv W s'"
proof -
  have k: "keeps_flow h h'" if "eh_Cancel h = (e, h')" for h e h'
    using keeps_flow_simps(5) [of h] that by simp
  show ?thesis using st inv
    by (auto simp: CancelComputeRun_def k split: option.splits if_splits prod.splits intro!: inv_handle)
qed

lemma inv_cancel_done: "api_inv W s \<Longrightarrow> CancelComputeRun_done i r s = (rp, s') \<Longrightarrow> api_inv W s'"
  by (auto simp: CancelComputeRun_done_def run_shape_def intro!: inv_run)

lemma inv_delete: "api_inv W s \<Longrightarrow> DeleteComputeRun d i s = (rp, s') \<Longrightarrow> api_inv W s'"
  using inv_remove [OF inv_Cleanup]
  by (fastforce simp: DeleteComputeRun_def RemoveRun_def Let_def split: option.splits)

lemma inv_stdin: "api_inv W s \<Longrightarrow> SendStdin d i input s = (rp, s') \<Longrightarrow> api_inv W s'"
  by (auto simp: SendStdin_def Let_def split: option.splits if_splits prod.splits sum.splits intro!: inv_handle)

definition started :: "bytes \<Rightarrow> bytes \<Rightarrow> execute_request \<Rightarrow> handle \<Rightarrow> bool \<Rightarrow> nat \<Rightarrow> compute_run" where
  "started now deviceID q hnd remote r = (new_compute_run now (eh_RunID hnd) deviceID q r remote)
     \<lparr>cr_stdoutBuf := Some (3 * r), cr_stderrBuf := Some (3 * r + 1), cr_logsBuf := Some (3 * r + 2), cr_bufReady := True\<rparr>"

lemma begin_run_state:
  assumes "shape s"
  shows "begin_run now deviceID q hnd remote s = (let r = length (ap_runs s) in
    s\<lparr>ap_handles := ap_handles s @ [hnd], ap_runs := ap_runs s @ [started now deviceID q hnd remote r],
      ap_bufs := ap_bufs s @ [[], [], []],
      ap_readers := ap_readers s @ [\<lparr>br_handle = r, br_output = OutS, br_buf = 3 * r, br_done = False\<rparr>,
        \<lparr>br_handle = r, br_output = ErrS, br_buf = 3 * r + 1, br_done = False\<rparr>,
        \<lparr>br_handle = r, br_output = LogS, br_buf = 3 * r + 2, br_done = False\<rparr>],
      cm_runs := (cm_runs s)(eh_RunID hnd \<mapsto> r), ap_monitors := ap_monitors s @ [\<lparr>rn_run = r, rn_phase = MonStart\<rparr>]\<rparr>)"
proof -
  have "length (ap_handles s) = length (ap_runs s)" "length (ap_bufs s) = 3 * length (ap_runs s)"
    using assms by (simp_all add: shape_def Let_def)
  then show ?thesis
    by (simp add: begin_run_def StartBuffering_def AddRun_def upd_run_def started_def new_compute_run_def Let_def)
qed

definition fresh_handle :: "handle \<Rightarrow> bool" where
  "fresh_handle h \<longleftrightarrow> pipes_ok h \<and> flow_ok [] OutS h [] False \<and> flow_ok [] ErrS h [] False"

lemma inv_start_run:
  assumes inv: "api_inv W s" and h: "fresh_handle hnd"
  shows "api_inv W (begin_run now deviceID q hnd remote s)"
proof -
  have sh: "shape s" and fl: "flows W s" using inv by (simp_all add: api_inv_def)
  let ?r = "length (ap_runs s)"
  have len: "length (ap_handles s) = ?r" "length (ap_bufs s) = 3 * ?r" "length (ap_readers s) = 3 * ?r" "length (ap_monitors s) = ?r"
    using sh by (simp_all add: shape_def Let_def)
  have tab: "cm_runs s i = Some r \<Longrightarrow> r < ?r \<and> cr_ID (ap_runs s ! r) = i" for i r
    using sh by (auto simp: shape_def Let_def)
  have old: "r < ?r \<Longrightarrow> run_shape r (ap_runs s ! r) \<and> monitor_shape r (ap_monitors s ! r) \<and> reader_is r OutS (3 * r) (ap_readers s ! (3 * r))
         \<and> reader_is r ErrS (3 * r + 1) (ap_readers s ! (3 * r + 1)) \<and> reader_is r LogS (3 * r + 2) (ap_readers s ! (3 * r + 2))" for r
    using sh by (simp add: shape_def Let_def)
  have new: "run_shape ?r (started now deviceID q hnd remote ?r)" "cr_ID (started now deviceID q hnd remote ?r) = eh_RunID hnd"
    by (simp_all add: started_def new_compute_run_def run_shape_def)
  have n: "3 * r < 3 * ?r" "3 * r + 1 < 3 * ?r" "3 * r + 2 < 3 * ?r" if "r < ?r" for r using that by simp_all
  note st = begin_run_state [OF sh, of now deviceID q hnd remote, unfolded Let_def]
  have "shape (begin_run now deviceID q hnd remote s)"
    unfolding st shape_def Let_def
    using old new n tab by (auto simp: less_Suc_eq nth_append len reader_is_def monitor_shape_def)
  moreover have "flows W (begin_run now deviceID q hnd remote s)"
    using fl h n unfolding st flows_def
    by (auto simp: less_Suc_eq nth_append len fresh_handle_def)
  ultimately show ?thesis by (simp add: api_inv_def)
qed

lemma fresh_local:
  "ExecuteRaw h la kvs uuid rq = Inr x \<Longrightarrow> fresh_handle (LocalHandle (local_execution i x))"
  by (auto simp: ExecuteRaw_def local_execution_def fresh_handle_def flow_ok_def cut_def pipe_def conn_pending_def in_copier_def Let_def
      split: if_splits option.splits)

lemma fresh_remote:
  "unread_stream (rm_Stdout r) \<Longrightarrow> unread_stream (rm_Stderr r) \<Longrightarrow> fresh_handle (RemoteHandle r)"
  by (simp add: unread_stream_def fresh_handle_def flow_ok_def cut_def conn_pending_def)

lemma fresh_executed:
  assumes "executeCommand h la kvs uuid nano n deviceID isLocal q = Inr (hnd, remote)" "fresh_runs n"
  shows "fresh_handle hnd"
proof (cases isLocal)
  case True
  then show ?thesis using assms(1) fresh_local
    by (auto simp: executeCommand_def split: sum.splits)
next
  case False
  then obtain dv q' r where "nd_Run n dv q' = Inr r" "hnd = RemoteHandle r"
    using assms(1) by (auto simp: executeCommand_def split: sum.splits option.splits)
  then show ?thesis using assms(2) fresh_remote by (simp add: fresh_runs_def)
qed

lemma executed:
  assumes "ExecuteCommand h la kvs uuid nano now nd deviceID req s = (rp, s')"
  shows "s' = s \<or> (\<exists>n q hnd remote. nd = Some n \<and> req = Inr q \<and> rp = Reply 201 (JsonBody (created_body now (eh_RunID hnd) deviceID q))
    \<and> executeCommand h la kvs uuid nano n deviceID (deviceID = nd_ID n) q = Inr (hnd, remote)
    \<and> s' = begin_run now deviceID q hnd remote s)"
proof (cases nd)
  case (Some n)
  show ?thesis
  proof (cases "\<exists>q x. req = Inr q \<and> executeCommand h la kvs uuid nano n deviceID (deviceID = nd_ID n) q = Inr x")
    case True
    then obtain q hnd remote where q: "req = Inr q" "executeCommand h la kvs uuid nano n deviceID (deviceID = nd_ID n) q = Inr (hnd, remote)"
      by auto
    show ?thesis using assms unfolding ExecuteCommand_def Some Let_def
      by (auto simp: q split: if_splits)
  next
    case False
    then show ?thesis using assms unfolding ExecuteCommand_def Some Let_def
      by (cases req; cases "executeCommand h la kvs uuid nano n deviceID (deviceID = nd_ID n) (projr req)") (auto split: if_splits)
  qed
qed (use assms in \<open>simp add: ExecuteCommand_def\<close>)

lemma inv_execute:
  assumes inv: "api_inv W s" and nd: "case_option True fresh_runs nd"
    and st: "ExecuteCommand h la kvs uuid nano now nd deviceID req s = (rp, s')"
  shows "api_inv W s'"
proof -
  consider "s' = s" | n q hnd remote where "nd = Some n" "executeCommand h la kvs uuid nano n deviceID (deviceID = nd_ID n) q = Inr (hnd, remote)"
      "s' = begin_run now deviceID q hnd remote s"
    using executed [OF st] by (elim disjE exE conjE)
  then show ?thesis
  proof cases
    case 2
    have n: "fresh_runs n" using nd unfolding 2(1) by simp
    show ?thesis unfolding 2(3) by (rule inv_start_run [OF inv fresh_executed [OF 2(2) n]])
  qed (use inv in simp)
qed

text \<open>All steps keep the invariant.\<close>

lemma api_reach_inv: "api_reach careful W s \<Longrightarrow> api_inv W s"
proof (induction rule: api_reach.induct)
  case start then show ?case by (rule inv_start)
next
  case (execute W s nd h la kvs uuid nano now deviceID req rp s')
  show ?case by (rule inv_execute [OF execute.IH execute.hyps(3,4)])
next
  case written then show ?case by (intro inv_written)
next
  case stream_ends show ?case by (rule inv_handle [OF stream_ends.IH], rule keeps_flow_simps)
next
  case log_entry show ?case by (rule inv_handle [OF log_entry.IH], rule keeps_flow_simps)
next
  case ends show ?case by (rule inv_handle [OF ends.IH], rule keeps_flow_simps)
next
  case copying show ?case by (rule inv_handle [OF copying.IH], rule keeps_flow_simps)
next
  case buffering show ?case by (rule inv_bufferStream [OF buffering.IH])
next
  case monitoring show ?case by (rule inv_monitor [OF monitoring.IH])
next
  case (cancel W s deviceID runID rp s')
  show ?case by (rule inv_cancel [OF cancel.IH cancel.hyps(3)])
next
  case (cancel_done W s runID r rp s')
  show ?case by (rule inv_cancel_done [OF cancel_done.IH cancel_done.hyps(3)])
next
  case (delete W s runID deviceID rp s')
  show ?case by (rule inv_delete [OF delete.IH delete.hyps(4)])
next
  case (stdin W s deviceID runID input rp s')
  show ?case by (rule inv_stdin [OF stdin.IH stdin.hyps(3)])
qed

section \<open>Runs in the table are alive\<close>

definition untouched :: "api \<Rightarrow> api \<Rightarrow> bool" where
  "untouched s s' \<longleftrightarrow> cm_runs s' = cm_runs s \<and> map cr_execHandle (ap_runs s') = map cr_execHandle (ap_runs s)
     \<and> ap_monitors s' = ap_monitors s \<and> ap_crashed s' = ap_crashed s"

lemma untouched_handle [simp]: "untouched s (upd_exec_handle i f s)"
  by (simp add: untouched_def upd_exec_handle_def)

lemma untouched_run: "(\<And>x. cr_execHandle (f x) = cr_execHandle x) \<Longrightarrow> untouched s (upd_run r f s)"
  by (simp add: untouched_def upd_run_def map_update list_update_same_conv)

lemma untouched_trans: "untouched s s' \<Longrightarrow> untouched s' s'' \<Longrightarrow> untouched s s''"
  by (simp add: untouched_def)

lemma untouched_bufferStream: "untouched s (bufferStream i s)"
  by (auto simp: bufferStream_def untouched_def upd_exec_handle_def Let_def split: rd.split prod.split)

lemma untouched_cancel: "CancelComputeRun d i s = (rp, s') \<Longrightarrow> untouched s s'"
  by (auto simp: CancelComputeRun_def split: option.splits if_splits prod.splits) (simp_all add: untouched_def)

lemma untouched_cancel_done: "CancelComputeRun_done i r s = (rp, s') \<Longrightarrow> untouched s s'"
  by (auto simp: CancelComputeRun_done_def intro: untouched_run)

lemma untouched_stdin: "SendStdin d i input s = (rp, s') \<Longrightarrow> untouched s s'"
  by (auto simp: SendStdin_def Let_def split: option.splits if_splits prod.splits sum.splits) (simp_all add: untouched_def)

text \<open>\<open>calm\<close>: every run that is still watched has its execution.\<close>

definition alive :: "api \<Rightarrow> bool" where
  "alive s \<longleftrightarrow> (\<forall>i r. cm_runs s i = Some r \<longrightarrow> cr_execHandle (ap_runs s ! r) = Some r)"

definition calm :: "api \<Rightarrow> bool" where
  "calm s \<longleftrightarrow> \<not> ap_crashed s \<and> (\<forall>r < length (ap_runs s). rn_phase (ap_monitors s ! r) \<noteq> MonEnd \<longrightarrow> cr_execHandle (ap_runs s ! r) = Some r)"

lemma untouched_length: "untouched s s' \<Longrightarrow> length (ap_runs s') = length (ap_runs s)"
  unfolding untouched_def by (metis length_map)

lemma untouched_exec:
  assumes "untouched s s'" "r < length (ap_runs s)"
  shows "cr_execHandle (ap_runs s' ! r) = cr_execHandle (ap_runs s ! r)"
proof -
  have "map cr_execHandle (ap_runs s') ! r = map cr_execHandle (ap_runs s) ! r" using assms(1) by (simp add: untouched_def)
  then show ?thesis using assms(2) untouched_length [OF assms(1)] by simp
qed

lemma untouched_keeps:
  assumes "untouched s s'" "api_inv W s" "alive s" "careful \<longrightarrow> calm s"
  shows "alive s' \<and> (careful \<longrightarrow> calm s')"
proof -
  have "r < length (ap_runs s)" if "cm_runs s i = Some r" for i r
    using assms(2) that by (auto simp: api_inv_def shape_def Let_def)
  then show ?thesis using assms untouched_exec [OF assms(1)] untouched_length [OF assms(1)]
    by (auto simp: alive_def calm_def untouched_def)
qed

lemma Cleanup_frame:
  "cm_runs (Cleanup r s) = cm_runs s \<and> ap_monitors (Cleanup r s) = ap_monitors s \<and> ap_crashed (Cleanup r s) = ap_crashed s
   \<and> length (ap_runs (Cleanup r s)) = length (ap_runs s) \<and> (\<forall>r'. r' \<noteq> r \<longrightarrow> ap_runs (Cleanup r s) ! r' = ap_runs s ! r')"
  by (auto simp: Cleanup_def upd_run_def upd_exec_handle_def Let_def split: option.split)

lemma Cleanup_clears:
  "r < length (ap_runs s) \<Longrightarrow> cr_execHandle (ap_runs (Cleanup r s) ! r) = None"
  by (auto simp: Cleanup_def upd_run_def upd_exec_handle_def Let_def split: option.split)

lemma deleted_table:
  assumes "DeleteComputeRun d i s = (rp, s')"
  shows "s' = s \<or> (\<exists>r. cm_runs s i = Some r \<and> find_run d i s = Some r \<and> s' = (Cleanup r s)\<lparr>cm_runs := (cm_runs s)(i := None)\<rparr>)"
  using assms Cleanup_frame
  by (auto simp: DeleteComputeRun_def RemoveRun_def find_run_def GetRun_def Let_def split: option.splits if_splits)

lemma delete_keeps:
  assumes st: "DeleteComputeRun d i s = (rp, s')" and inv: "api_inv W s" and al: "alive s" and c: "careful \<longrightarrow> calm s"
    and u: "\<And>r. careful \<Longrightarrow> GetRun i s = Some r \<Longrightarrow> \<not> monitored r s"
  shows "alive s' \<and> (careful \<longrightarrow> calm s')"
proof (cases "s' = s")
  case False
  then obtain r where r: "cm_runs s i = Some r" "s' = (Cleanup r s)\<lparr>cm_runs := (cm_runs s)(i := None)\<rparr>"
    using deleted_table [OF st] by blast
  have uniq: "j = i" if "cm_runs s j = Some r" for j
    using table_entry [OF inv r(1)] table_entry [OF inv that] by simp
  have "alive s'" unfolding alive_def
  proof (intro allI impI)
    fix j r' assume "cm_runs s' j = Some r'"
    then have j: "j \<noteq> i" "cm_runs s j = Some r'" using r(2) by (auto split: if_splits)
    then have "r' \<noteq> r" using uniq by blast
    then show "cr_execHandle (ap_runs s' ! r') = Some r'" using al j(2) Cleanup_frame [of r s] r(2) by (simp add: alive_def)
  qed
  moreover have "calm s'" if careful
  proof -
    have "\<not> monitored r s" using u that r(1) by (simp add: GetRun_def)
    moreover have "r < length (ap_monitors s)" "rn_run (ap_monitors s ! r) = r"
      using inv r(1) by (auto simp: api_inv_def shape_def monitor_shape_def Let_def)
    ultimately have "rn_phase (ap_monitors s ! r) = MonEnd"
      by (metis monitored_def nth_mem)
    then show ?thesis using c that r(2) Cleanup_frame [of r s] by (auto simp: calm_def)
  qed
  ultimately show ?thesis by blast
qed (use al c in simp)

lemma monitor_keeps:
  assumes inv: "api_inv W s" and al: "alive s" and c: "careful \<longrightarrow> calm s"
  shows "alive (monitorRunCompletion now i s) \<and> (careful \<longrightarrow> calm (monitorRunCompletion now i s))"
proof (cases "i < length (ap_monitors s)")
  case True
  note m = monitor_nth [OF inv True]
  have l: "length (ap_monitors s) = length (ap_runs s)" using inv by (simp add: api_inv_def shape_def Let_def)
  show ?thesis using al c m l
    by (auto simp: monitorRunCompletion_def Let_def alive_def calm_def set_watch_def upd_exec_handle_def upd_run_def nth_list_update finish_run_keeps
        split: monitor_phase.split option.split prod.split)
qed (use al c in \<open>simp add: monitorRunCompletion_def\<close>)

lemma start_keeps:
  assumes inv: "api_inv W s" and al: "alive s" and c: "careful \<longrightarrow> calm s"
  shows "alive (begin_run now d q hnd remote s) \<and> (careful \<longrightarrow> calm (begin_run now d q hnd remote s))"
proof -
  have sh: "shape s" using inv by (simp add: api_inv_def)
  have "length (ap_monitors s) = length (ap_runs s)" "\<And>i r. cm_runs s i = Some r \<Longrightarrow> r < length (ap_runs s)"
    using sh by (auto simp: shape_def Let_def)
  then show ?thesis using al c
    by (auto simp: begin_run_state [OF sh] Let_def alive_def calm_def started_def new_compute_run_def nth_append less_Suc_eq)
qed

lemma api_reach_alive: "api_reach careful W s \<Longrightarrow> alive s \<and> (careful \<longrightarrow> calm s)"
proof (induction rule: api_reach.induct)
  case start show ?case by (simp add: alive_def calm_def NewComputeManager_def)
next
  case (execute W s nd h la kvs uuid nano now deviceID req rp s')
  note inv = api_reach_inv [OF execute.hyps(1)] and al = conjunct1 [OF execute.IH] conjunct2 [OF execute.IH]
  from executed [OF execute.hyps(4)] show ?case
  proof (elim disjE exE conjE)
    fix n q hnd remote assume "s' = begin_run now deviceID q hnd remote s"
    then show ?thesis using start_keeps [OF inv al] by simp
  qed (use al in simp)
next
  case (delete W s runID deviceID rp s')
  show ?case
    by (rule delete_keeps [OF delete.hyps(4) api_reach_inv [OF delete.hyps(1)] conjunct1 [OF delete.IH] conjunct2 [OF delete.IH] delete.hyps(3)])
next
  case (monitoring W s now i)
  show ?case by (rule monitor_keeps [OF api_reach_inv [OF monitoring.hyps(1)] conjunct1 [OF monitoring.IH] conjunct2 [OF monitoring.IH]])
next
  case (written W s i out err)
  show ?case by (rule untouched_keeps [OF untouched_handle api_reach_inv [OF written.hyps(1)] conjunct1 [OF written.IH] conjunct2 [OF written.IH]])
next
  case (stream_ends W s i k e)
  show ?case by (rule untouched_keeps [OF untouched_handle api_reach_inv [OF stream_ends.hyps(1)] conjunct1 [OF stream_ends.IH] conjunct2 [OF stream_ends.IH]])
next
  case (log_entry W s i d)
  show ?case by (rule untouched_keeps [OF untouched_handle api_reach_inv [OF log_entry.hyps(1)] conjunct1 [OF log_entry.IH] conjunct2 [OF log_entry.IH]])
next
  case (ends W s i w e code)
  show ?case by (rule untouched_keeps [OF untouched_handle api_reach_inv [OF ends.hyps(1)] conjunct1 [OF ends.IH] conjunct2 [OF ends.IH]])
next
  case (copying W s i k now)
  show ?case by (rule untouched_keeps [OF untouched_handle api_reach_inv [OF copying.hyps(1)] conjunct1 [OF copying.IH] conjunct2 [OF copying.IH]])
next
  case (buffering W s i)
  show ?case by (rule untouched_keeps [OF untouched_bufferStream api_reach_inv [OF buffering.hyps(1)] conjunct1 [OF buffering.IH] conjunct2 [OF buffering.IH]])
next
  case (cancel W s deviceID runID rp s')
  show ?case by (rule untouched_keeps [OF untouched_cancel [OF cancel.hyps(3)] api_reach_inv [OF cancel.hyps(1)] conjunct1 [OF cancel.IH] conjunct2 [OF cancel.IH]])
next
  case (cancel_done W s runID r rp s')
  show ?case by (rule untouched_keeps [OF untouched_cancel_done [OF cancel_done.hyps(3)] api_reach_inv [OF cancel_done.hyps(1)] conjunct1 [OF cancel_done.IH] conjunct2 [OF cancel_done.IH]])
next
  case (stdin W s deviceID runID input rp s')
  show ?case by (rule untouched_keeps [OF untouched_stdin [OF stdin.hyps(3)] api_reach_inv [OF stdin.hyps(1)] conjunct1 [OF stdin.IH] conjunct2 [OF stdin.IH]])
qed

end
