(* ===== verification/Api_Lifecycle.thy ===== *)
theory Api_Lifecycle
  imports Api_Flow
begin

text \<open>
  What the compute endpoints promise their caller: the output of a run, its status, and that deleting runs does not
  end the server; and the cases in which they do not keep it.
\<close>

section \<open>A run that was started is found\<close>

text \<open>
  A request that was answered with 201 has put its run into the table: it is found under the identifier of the answer,
  it is running, all of its output is empty, and no other run was changed.
\<close>

theorem created_run_is_found:
  assumes "api_reach careful W s"
    and "ExecuteCommand h la kvs uuid nano now nd deviceID (Inr q) s = (Reply 201 b, s')"
  shows "\<exists>r runID. b = JsonBody (created_body now runID deviceID q) \<and> find_run deviceID runID s' = Some r \<and> r = length (ap_runs s)
    \<and> ap_runs s' ! r = (new_compute_run now runID deviceID q r (cr_client (ap_runs s' ! r) \<noteq> None))
        \<lparr>cr_stdoutBuf := Some (3 * r), cr_stderrBuf := Some (3 * r + 1), cr_logsBuf := Some (3 * r + 2), cr_bufReady := True\<rparr>
    \<and> GetStdout r s' = [] \<and> GetStderr r s' = [] \<and> GetLogs r s' = []
    \<and> (\<forall>i. i \<noteq> runID \<longrightarrow> GetRun i s' = GetRun i s) \<and> take r (ap_runs s') = ap_runs s"
proof -
  have sh: "shape s" using api_reach_inv [OF assms(1)] by (simp add: api_inv_def)
  have e: "errorResponse c m d \<noteq> Reply 201 b" if "c \<noteq> 201" for c m d using that by (simp add: errorResponse_def)
  from executed [OF assms(2)] obtain n hnd remote where st: "Reply 201 b = Reply 201 (JsonBody (created_body now (eh_RunID hnd) deviceID q))"
      "s' = begin_run now deviceID q hnd remote s"
  proof (elim disjE exE conjE)
    assume "s' = s"
    have False using assms(2) unfolding ExecuteCommand_def
      by (auto simp: errorResponse_def Let_def \<open>s' = s\<close> begin_run_state [OF sh] split: option.splits if_splits sum.splits dest: arg_cong [of _ _ ap_runs])
    then show ?thesis ..
  qed auto
  have len: "length (ap_bufs s) = 3 * length (ap_runs s)" using sh by (simp add: shape_def Let_def)
  show ?thesis
    using st
    by (intro exI [of _ "length (ap_runs s)"] exI [of _ "eh_RunID hnd"])
      (simp add: begin_run_state [OF sh] Let_def find_run_def GetRun_def started_def new_compute_run_def GetStdout_def GetStderr_def GetLogs_def
        buf_bytes_def nth_append len)
qed

section \<open>The output\<close>

lemma flow_prefix:
  assumes "flow_ok w k hnd buf dn"
  shows "prefix buf w" "dn \<Longrightarrow> \<not> cut k hnd \<Longrightarrow> k \<noteq> LogS \<Longrightarrow> buf = w"
proof -
  show "prefix buf w" using assms append_prefixD by (auto simp: flow_ok_def)
  assume "dn" "\<not> cut k hnd" "k \<noteq> LogS"
  then show "buf = w" using assms by (cases hnd; cases k) (auto simp: flow_ok_def in_copier_def conn_pending_def)
qed

lemma found_buffers:
  assumes "api_reach careful W s" "find_run deviceID runID s = Some r"
  shows "r < length (ap_runs s)" "GetStdout r s = ap_bufs s ! (3 * r)" "GetStderr r s = ap_bufs s ! (3 * r + 1)"
    "cr_execHandle (ap_runs s ! r) = Some r"
proof -
  note inv = api_reach_inv [OF assms(1)]
  note f = find_run_shape [OF inv assms(2)]
  then show "r < length (ap_runs s)" "cr_execHandle (ap_runs s ! r) = Some r"
    using api_reach_alive [OF assms(1)] by (auto simp: alive_def)
  moreover from this have "run_shape r (ap_runs s ! r)" using inv by (simp add: api_inv_def shape_def Let_def)
  ultimately show "GetStdout r s = ap_bufs s ! (3 * r)" "GetStderr r s = ap_bufs s ! (3 * r + 1)"
    by (auto simp: GetStdout_def GetStderr_def buf_bytes_def run_shape_def)
qed


section \<open>Deleting runs\<close>


lemma deleted_run:
  assumes "api_reach careful W s" "find_run deviceID runID s = Some r" "DeleteComputeRun deviceID runID s = (rp, s')"
  shows "rp = status_body runID ''removed''" "cr_execHandle (ap_runs s' ! r) = None" "ap_monitors s' = ap_monitors s"
    "length (ap_monitors s') = length (ap_runs s)" "length (ap_handles s') = length (ap_runs s)"
    "cr_client (ap_runs s ! r) = None \<Longrightarrow> ap_handles s' = (ap_handles s)[r := close_run_streams (ap_handles s ! r)]"
    "cr_client (ap_runs s ! r) = Some r \<Longrightarrow> ap_handles s' = (ap_handles s)[r := close_run_streams (client_close (ap_handles s ! r))]"
proof -
  note inv = api_reach_inv [OF assms(1)]
  note f = find_run_shape [OF inv assms(2)] and b = found_buffers [OF assms(1,2)]
  have l: "length (ap_monitors s) = length (ap_runs s)" "length (ap_handles s) = length (ap_runs s)"
    using inv by (simp_all add: api_inv_def shape_def Let_def)
  have s': "s' = (Cleanup r s)\<lparr>cm_runs := (cm_runs s)(runID := None)\<rparr>" "rp = status_body runID ''removed''"
    using assms(2,3) f Cleanup_frame [of r s] by (auto simp: DeleteComputeRun_def RemoveRun_def Let_def)
  then show "rp = status_body runID ''removed''" "cr_execHandle (ap_runs s' ! r) = None" "ap_monitors s' = ap_monitors s"
      "length (ap_monitors s') = length (ap_runs s)"
    using Cleanup_frame [of r s] Cleanup_clears [OF b(1)] l by simp_all
  show "length (ap_handles s') = length (ap_runs s)"
    using l s' by (auto simp: Cleanup_def upd_run_def upd_exec_handle_def Let_def split: option.split)
  show "cr_client (ap_runs s ! r) = None \<Longrightarrow> ap_handles s' = (ap_handles s)[r := close_run_streams (ap_handles s ! r)]"
      "cr_client (ap_runs s ! r) = Some r \<Longrightarrow> ap_handles s' = (ap_handles s)[r := close_run_streams (client_close (ap_handles s ! r))]"
    using l s' b by (simp_all add: Cleanup_def upd_run_def upd_exec_handle_def Let_def)
qed

text \<open>A monitor that waits, in a state in which the run has lost its handle and the execution has ended.\<close>

lemma monitor_crashes:
  assumes "r < length (ap_monitors s)" "ap_monitors s ! r = \<lparr>rn_run = r, rn_phase = MonDone r\<rparr>"
    and "cr_execHandle (ap_runs s ! r) = None" "eh_Done (ap_handles s ! r) = (Got e, hnd)"
  shows "ap_crashed (monitorRunCompletion t2 r (monitorRunCompletion t1 r s))"
  using assms
  by (simp add: monitorRunCompletion_def chan_value_def set_watch_def upd_exec_handle_def Let_def)

lemma done_after_wait:
  assumes "ex_waiting (lh_execution l)" "drained (lh_execution l)"
  shows "\<exists>e hnd. eh_Done (execution_ends w err code (LocalHandle l)) = (Got e, hnd)"
  using assms by (cases "ch_buf (ex_Done (lh_execution l))") (auto simp: wait_step_def ch_put_def ch_close_def ch_recv_def)

lemma close_run_streams_local:
  "close_run_streams (LocalHandle l) = LocalHandle l' \<Longrightarrow> ex_waiting (lh_execution l') = ex_waiting (lh_execution l)
     \<and> drained (lh_execution l') = drained (lh_execution l)"
  by (auto simp: close_run_streams_def drained_def Let_def)

text \<open>
  C15: Deleting a run whose command is still running is answered with success and ends the whole server later: the
  goroutine that watches the run looks again at the handle that \<open>Cleanup\<close> has set to nil.  For a local run this is when its
  process ends; for a remote run \<open>Cleanup\<close> itself completes the handle.
\<close>

theorem deleting_live_run_crashes:
  assumes "api_reach careful W s" "find_run deviceID runID s = Some r"
    and "rn_phase (ap_monitors s ! r) = MonDone r" "DeleteComputeRun deviceID runID s = (rp, s')"
    and "case ap_handles s ! r of
       LocalHandle l \<Rightarrow> cr_client (ap_runs s ! r) = None \<and> ex_waiting (lh_execution l) \<and> drained (lh_execution l)
     | RemoteHandle h \<Rightarrow> cr_client (ap_runs s ! r) = Some r \<and> \<not> rh_once (rm_handle h) \<and> ch_buf (rh_done (rm_handle h)) = []"
  shows "rp = status_body runID ''removed''
    \<and> ap_crashed (monitorRunCompletion t2 r (monitorRunCompletion t1 r (upd_exec_handle r (execution_ends w err code) s')))"
proof -
  note d = deleted_run [OF assms(1,2,4)] and b = found_buffers [OF assms(1,2)]
  have m: "ap_monitors s' ! r = \<lparr>rn_run = r, rn_phase = MonDone r\<rparr>"
    using monitor_nth [OF api_reach_inv [OF assms(1)], of r] b(1) d(3,4) assms(3)
    by (cases "ap_monitors s ! r") simp
  have l: "length (ap_handles s) = length (ap_runs s)" using api_reach_inv [OF assms(1)] by (simp add: api_inv_def shape_def Let_def)
  have "\<exists>e hnd. eh_Done (execution_ends w err code (ap_handles s' ! r)) = (Got e, hnd)"
  proof (cases "ap_handles s ! r")
    case (LocalHandle h)
    obtain h' where h': "close_run_streams (LocalHandle h) = LocalHandle h'" by (simp add: close_run_streams_def Let_def)
    then have "ap_handles s' ! r = LocalHandle h'" using d(6) assms(5) LocalHandle b(1) l by simp
    then show ?thesis using done_after_wait [of h' w err code] close_run_streams_local [OF h'] assms(5) LocalHandle by simp
  next
    case (RemoteHandle h)
    then have "ap_handles s' ! r = close_run_streams (client_close (RemoteHandle h))" using d(7) assms(5) b(1) l by simp
    then show ?thesis using assms(5) RemoteHandle
      by (simp add: close_run_streams_def complete_def ch_put_def ch_close_def ch_recv_def Let_def)
  qed
  then show ?thesis
    using monitor_crashes [of r "upd_exec_handle r (execution_ends w err code) s'"] m d b(1)
    by (auto simp: upd_exec_handle_def)
qed

section \<open>Status\<close>

text \<open>What every reachable execution satisfies, given that every operation on executions keeps it.\<close>

lemma api_reach_handles:
  assumes r: "api_reach careful W s"
    and new: "\<And>h la kvs uuid nano nd deviceID l q hnd remote. executeCommand h la kvs uuid nano nd deviceID l q = Inr (hnd, remote) \<Longrightarrow> P hnd"
    and ops: "\<And>h out err. P h \<Longrightarrow> P (process_output out err h)" "\<And>h k e. P h \<Longrightarrow> P (network_end k e h)"
      "\<And>h d. P h \<Longrightarrow> P (remote_log d h)" "\<And>h w e c. P h \<Longrightarrow> P (execution_ends w e c h)" "\<And>h k t. P h \<Longrightarrow> P (copy_step k t h)"
      "\<And>h k c. P h \<Longrightarrow> P (set_stream k c h)" "\<And>h. P h \<Longrightarrow> P (snd (eh_Done h))" "\<And>h. P h \<Longrightarrow> P (snd (eh_ExitCode h))"
      "\<And>h. P h \<Longrightarrow> P (snd (eh_Cancel h))" "\<And>h. P h \<Longrightarrow> P (client_close h)" "\<And>h. P h \<Longrightarrow> P (close_run_streams h)"
      "\<And>h d. P h \<Longrightarrow> P (set_Stdin (snd (conn_write d (eh_Stdin h))) h)"
  shows "\<forall>h \<in> set (ap_handles s). P h"
proof -
  let ?A = "\<lambda>s. \<forall>i < length (ap_handles s). P (ap_handles s ! i)"
  have upd: "?A (upd_exec_handle i f s)" if "?A s" "i < length (ap_handles s) \<Longrightarrow> P (f (ap_handles s ! i))" for i f s
    using that by (auto simp: upd_exec_handle_def nth_list_update)
  have run: "?A (upd_run i f s)" if "?A s" for i f s using that by (simp add: upd_run_def)
  have "?A s" using r
  proof (induction rule: api_reach.induct)
    case start show ?case by (simp add: NewComputeManager_def)
  next
    case (execute W s nd h la kvs uuid nano now deviceID req rp s')
    have sh: "shape s" using api_reach_inv [OF execute.hyps(1)] by (simp add: api_inv_def)
    from executed [OF execute.hyps(4)] show ?case
    proof (elim disjE exE conjE)
      fix n q hnd remote assume e: "executeCommand h la kvs uuid nano n deviceID (deviceID = nd_ID n) q = Inr (hnd, remote)"
          "s' = begin_run now deviceID q hnd remote s"
      then show ?thesis using new [OF e(1)] execute.IH by (auto simp: begin_run_state [OF sh] Let_def nth_append less_Suc_eq)
    qed (use execute.IH in simp)
  next
    case (written W s i out err) show ?case by (rule upd [OF written.IH]) (use written in \<open>simp add: ops\<close>)
  next
    case (stream_ends W s i k e) show ?case by (rule upd [OF stream_ends.IH]) (use stream_ends in \<open>simp add: ops\<close>)
  next
    case (log_entry W s i d) show ?case by (rule upd [OF log_entry.IH]) (use log_entry in \<open>simp add: ops\<close>)
  next
    case (ends W s i w e code) show ?case by (rule upd [OF ends.IH]) (use ends in \<open>simp add: ops\<close>)
  next
    case (copying W s i k now) show ?case by (rule upd [OF copying.IH]) (use copying in \<open>simp add: ops\<close>)
  next
    case (buffering W s i)
    then show ?case by (auto simp: bufferStream_def Let_def upd_exec_handle_def nth_list_update ops split: rd.split prod.split)
  next
    case (monitoring W s now i)
    have d: "P h'" if "eh_Done (ap_handles s ! j) = (v, h')" "j < length (ap_handles s)" for j v h'
      using ops(7) [of "ap_handles s ! j"] monitoring.IH that by simp
    have x: "P h'" if "eh_ExitCode (ap_handles s ! j) = (v, h')" "j < length (ap_handles s)" for j v h'
      using ops(8) [of "ap_handles s ! j"] monitoring.IH that by simp
    have ph: "ap_handles (set_watch i p u) = ap_handles u" for p u by (simp add: set_watch_def)
    show ?case
    proof (cases "i < length (ap_monitors s)")
      case True
      note m = True monitorRunCompletion_def Let_def ph
      show ?thesis
      proof (cases "rn_phase (ap_monitors s ! i)")
        case (MonDone j)
        then show ?thesis using upd [OF monitoring.IH, of j] d monitoring.IH by (auto simp: m split: option.split prod.split)
      next
        case (MonExit e j)
        then show ?thesis using run [OF upd [OF monitoring.IH, of j]] x monitoring.IH by (auto simp: m split: option.split prod.split)
      qed (use monitoring.IH in \<open>auto simp: m split: option.split\<close>)
    qed (use monitoring.IH in \<open>simp add: monitorRunCompletion_def\<close>)
  next
    case (cancel W s deviceID runID rp s')
    have "P h'" if "eh_Cancel (ap_handles s ! j) = (v, h')" "j < length (ap_handles s)" for j v h'
      using ops(9) [of "ap_handles s ! j"] cancel.IH that by simp
    then show ?case using cancel.hyps(3) cancel.IH
      by (auto simp: CancelComputeRun_def upd_exec_handle_def nth_list_update split: option.splits if_splits prod.splits)
  next
    case (cancel_done W s runID r rp s')
    then show ?case by (auto simp: CancelComputeRun_done_def upd_run_def split: if_splits)
  next
    case (delete W s runID deviceID rp s')
    have "?A (Cleanup r s)" for r
      unfolding Cleanup_def Let_def using delete.IH
      by (auto simp: upd_run_def upd_exec_handle_def nth_list_update ops split: option.split)
    then show ?case using deleted_table [OF delete.hyps(4)] delete.IH by auto
  next
    case (stdin W s deviceID runID input rp s')
    have "P (set_Stdin c (ap_handles s ! j))" if "conn_write d (eh_Stdin (ap_handles s ! j)) = (v, c)" "j < length (ap_handles s)" for j d v c
      using ops(12) [of "ap_handles s ! j" d] stdin.IH that by simp
    then show ?case using stdin.hyps(3) stdin.IH
      by (auto simp: SendStdin_def Let_def upd_exec_handle_def nth_list_update split: option.splits if_splits prod.splits sum.splits)
  qed
  then show ?thesis by (metis in_set_conv_nth)
qed

definition stdin_closed :: "handle \<Rightarrow> bool" where
  "stdin_closed h = (case h of LocalHandle l \<Rightarrow> shut (ex_Stdin (lh_execution l)) | RemoteHandle r \<Rightarrow> True)"

lemma local_stdin_closed:
  assumes "api_reach careful W s" "h \<in> set (ap_handles s)"
  shows "stdin_closed h"
proof -
  have new: "stdin_closed hnd" if "executeCommand h la kvs uuid nano nd deviceID l q = Inr (hnd, remote)"
    for h la kvs uuid nano nd deviceID l q hnd remote
    using that
    by (auto simp: executeCommand_def ExecuteRaw_def local_execution_def local_request_def stdin_closed_def Let_def
        split: if_splits sum.splits option.splits)
  have "\<forall>h \<in> set (ap_handles s). stdin_closed h"
  proof (rule api_reach_handles [OF assms(1), where P = stdin_closed])
    show "stdin_closed (copy_step k t h)" if "stdin_closed h" for h k t
      using that by (cases h; cases k) (auto simp: stdin_closed_def copy_out_def copy_err_def close_log_def Let_def split: prod.split)
  next
    show "stdin_closed (network_end k e h)" "stdin_closed (set_stream k c h)" if "stdin_closed h" for h k e c
      using that by (cases h; cases k; simp add: stdin_closed_def)+
  next
    show "stdin_closed (snd (eh_Done h))" "stdin_closed (snd (eh_ExitCode h))" "stdin_closed (snd (eh_Cancel h))"
        "stdin_closed (client_close h)" "stdin_closed (close_run_streams h)" if "stdin_closed h" for h
      using that by (cases h; auto simp: stdin_closed_def ex_Cancel_def close_run_streams_def conn_close_def Let_def split: prod.split)+
  next
    show "stdin_closed (set_Stdin (snd (conn_write d (eh_Stdin h))) h)" if "stdin_closed h" for h d
      using that by (cases h) (auto simp: stdin_closed_def conn_write_def)
  next
    show "stdin_closed (process_output out err h)" "stdin_closed (remote_log d h)" "stdin_closed (execution_ends w e c h)"
      if "stdin_closed h" for h out err d w e c
      using that by (cases h; auto simp: stdin_closed_def process_writes_def wait_step_def)+
  qed (fact new)
  then show ?thesis using assms(2) by blast
qed

text \<open>
  The server announces a stdin endpoint for every run, but for a local run it never takes any input: \<open>ExecuteRaw\<close> is
  called without an input and has closed the pipe, so every request with data is answered with an error.
\<close>

theorem local_stdin_refused:
  assumes "api_reach careful W s" "find_run deviceID runID s = Some r" "ap_handles s ! r = LocalHandle l"
    and "cr_Status (ap_runs s ! r) = ''running''" "d \<noteq> []"
  shows "fst (SendStdin deviceID runID (Inr d) s) = errorResponse 500 ''Failed to write to stdin'' (Some (err_text ErrClosedPipe))"
proof -
  note b = found_buffers [OF assms(1,2)]
  have "r < length (ap_handles s)" using b(1) api_reach_inv [OF assms(1)] by (simp add: api_inv_def shape_def Let_def)
  then have "stdin_closed (ap_handles s ! r)" using local_stdin_closed [OF assms(1)] by simp
  then show ?thesis using assms b by (simp add: SendStdin_def stdin_closed_def conn_write_def Let_def)
qed

text \<open>
  When the goroutine that watches a run receives the exit code, it sets the status by the error and the code alone: a
  run that the user cancelled, and that was answered and listed as cancelled, is reported as failed or completed from then on.
\<close>

theorem cancelled_is_overwritten:
  assumes "api_reach careful W s" "find_run deviceID runID s = Some r"
    and "CancelComputeRun_done runID r s = (rp, s')" "rn_phase (ap_monitors s ! r) = MonExit err r"
    and "eh_ExitCode (ap_handles s ! r) = (Got code, hnd)"
  shows "rp = status_body runID ''cancelled'' \<and> cr_Status (ap_runs s' ! r) = ''cancelled''
    \<and> cr_Status (ap_runs (monitorRunCompletion now r s') ! r) = (if err = None \<and> code = 0 then ''completed'' else ''failed'')
    \<and> rn_phase (ap_monitors (monitorRunCompletion now r s') ! r) = MonEnd"
proof -
  note inv = api_reach_inv [OF assms(1)] and b = found_buffers [OF assms(1,2)]
  have l: "length (ap_monitors s) = length (ap_runs s)" "length (ap_handles s) = length (ap_runs s)"
    using inv by (simp_all add: api_inv_def shape_def Let_def)
  have "rn_run (ap_monitors s ! r) = r" using monitor_nth [OF inv, of r] b(1) l by simp
  then show ?thesis using assms(3-5) b(1) l
    by (auto simp: CancelComputeRun_done_def upd_run_def monitorRunCompletion_def chan_value_def set_watch_def upd_exec_handle_def finish_run_def Let_def)
qed

text \<open>The run as the monitor leaves it, and what a caller may read off its status.\<close>

definition status_ok :: "run_monitor \<Rightarrow> compute_run \<Rightarrow> bool" where
  "status_ok m x \<longleftrightarrow> cr_Status x \<in> {''running'', ''completed'', ''failed'', ''cancelled''}
     \<and> (cr_Finished x = None \<longleftrightarrow> rn_phase m \<noteq> MonEnd) \<and> (cr_ExitCode x = None \<longleftrightarrow> rn_phase m \<noteq> MonEnd)
     \<and> (cr_Status x = ''running'' \<longrightarrow> rn_phase m \<noteq> MonEnd)
     \<and> (cr_Status x = ''completed'' \<longrightarrow> cr_ExitCode x = Some 0 \<and> cr_Error x = None)
     \<and> (cr_Status x = ''failed'' \<longrightarrow> cr_Error x \<noteq> None \<or> (\<exists>c. cr_ExitCode x = Some c \<and> c \<noteq> 0))
     \<and> (rn_phase m \<noteq> MonEnd \<longrightarrow> cr_Error x = None)"

definition statuses_ok :: "api \<Rightarrow> bool" where
  "statuses_ok s \<longleftrightarrow> (\<forall>r < length (ap_runs s). status_ok (ap_monitors s ! r) (ap_runs s ! r))"

text \<open>What a status is made of; most steps leave it alone.\<close>

definition status_part :: "compute_run \<Rightarrow> bytes \<times> bytes option \<times> int option \<times> goerr option" where
  "status_part x = (cr_Status x, cr_Finished x, cr_ExitCode x, cr_Error x)"

lemma status_ok_part: "status_part x = status_part y \<Longrightarrow> status_ok m x = status_ok m y"
  by (simp add: status_part_def status_ok_def)

definition same_status :: "api \<Rightarrow> api \<Rightarrow> bool" where
  "same_status s s' \<longleftrightarrow> ap_monitors s' = ap_monitors s \<and> map status_part (ap_runs s') = map status_part (ap_runs s)"

lemma same_statuses_ok:
  assumes "same_status s s'" "statuses_ok s"
  shows "statuses_ok s'"
proof -
  have l: "length (ap_runs s') = length (ap_runs s)" using assms(1) unfolding same_status_def by (metis length_map)
  have "status_part (ap_runs s' ! r) = status_part (ap_runs s ! r)" if "r < length (ap_runs s)" for r
  proof -
    have "map status_part (ap_runs s') ! r = map status_part (ap_runs s) ! r" using assms(1) by (simp add: same_status_def)
    then show ?thesis using that l by simp
  qed
  then have "status_ok m (ap_runs s' ! r) = status_ok m (ap_runs s ! r)" if "r < length (ap_runs s)" for m r
    using that by (intro status_ok_part) simp
  then show ?thesis using assms l by (simp add: statuses_ok_def same_status_def)
qed

lemma same_status_handle [simp]: "same_status s (upd_exec_handle i f s)"
  by (simp add: same_status_def upd_exec_handle_def)

lemma same_status_run: "(\<And>x. status_part (f x) = status_part x) \<Longrightarrow> same_status s (upd_run r f s)"
  by (simp add: same_status_def upd_run_def map_update list_update_same_conv)

lemma same_status_trans: "same_status s s' \<Longrightarrow> same_status s' s'' \<Longrightarrow> same_status s s''"
  by (simp add: same_status_def)

lemma same_status_Cleanup: "same_status s (Cleanup r s)"
proof -
  let ?s = "case cr_client (ap_runs s ! r) of None \<Rightarrow> s
      | Some h \<Rightarrow> upd_run r (\<lambda>x. x\<lparr>cr_client := None\<rparr>) (upd_exec_handle h client_close s)"
  let ?t = "case cr_execHandle (ap_runs ?s ! r) of None \<Rightarrow> ?s
      | Some h \<Rightarrow> upd_run r (\<lambda>x. x\<lparr>cr_execHandle := None\<rparr>) (upd_exec_handle h close_run_streams ?s)"
  have r: "same_status u (upd_run r f (upd_exec_handle h g u))" if "\<And>x. status_part (f x) = status_part x" for u f g h
    using same_status_trans [OF same_status_handle same_status_run] that by blast
  have same: "same_status u u" for u by (simp add: same_status_def)
  have "same_status s ?s" by (cases "cr_client (ap_runs s ! r)") (simp_all add: r same status_part_def)
  moreover have "same_status ?s ?t" by (cases "cr_execHandle (ap_runs ?s ! r)") (simp_all add: r same status_part_def)
  moreover have "same_status ?t (upd_run r (\<lambda>x. x\<lparr>cr_stdoutBuf := None, cr_stderrBuf := None, cr_logsBuf := None\<rparr>) ?t)"
    by (intro same_status_run) (simp add: status_part_def)
  ultimately show ?thesis unfolding Cleanup_def Let_def using same_status_trans by blast
qed

lemma same_status_bufferStream: "same_status s (bufferStream i s)"
  by (auto simp: bufferStream_def same_status_def upd_exec_handle_def Let_def split: rd.split prod.split)

lemma same_status_cancel: "CancelComputeRun d i s = (rp, s') \<Longrightarrow> same_status s s'"
  by (auto simp: CancelComputeRun_def split: option.splits if_splits prod.splits) (simp_all add: same_status_def)

lemma same_status_stdin: "SendStdin d i input s = (rp, s') \<Longrightarrow> same_status s s'"
  by (auto simp: SendStdin_def Let_def split: option.splits if_splits prod.splits sum.splits) (simp_all add: same_status_def)

lemma same_status_delete:
  assumes "DeleteComputeRun d i s = (rp, s')" shows "same_status s s'"
  using deleted_table [OF assms] same_status_Cleanup [of s] by (auto simp: same_status_def)

lemma monitor_statuses:
  assumes inv: "api_inv W s" and ok: "statuses_ok s"
  shows "statuses_ok (monitorRunCompletion now i s)"
proof (cases "i < length (ap_monitors s)")
  case True
  note m = monitor_nth [OF inv True]
  have l: "length (ap_monitors s) = length (ap_runs s)" using inv by (simp add: api_inv_def shape_def Let_def)
  have i: "status_ok (ap_monitors s ! i) (ap_runs s ! i)" using ok m by (simp add: statuses_ok_def)
  have fin: "status_ok (m\<lparr>rn_phase := MonEnd\<rparr>) (finish_run now err c x)" if "status_ok m x" "rn_phase m \<noteq> MonEnd" for m err c x
    using that by (auto simp: status_ok_def finish_run_def Let_def)
  have ph: "status_ok (m\<lparr>rn_phase := p\<rparr>) x" if "status_ok m x" "rn_phase m \<noteq> MonEnd" "p \<noteq> MonEnd" for m p x
    using that by (auto simp: status_ok_def)
  show ?thesis using ok m l i
    by (auto simp: monitorRunCompletion_def Let_def statuses_ok_def set_watch_def upd_exec_handle_def upd_run_def nth_list_update fin ph
        split: monitor_phase.split option.split prod.split)
qed (use ok in \<open>simp add: monitorRunCompletion_def\<close>)

lemma cancel_done_statuses:
  "statuses_ok s \<Longrightarrow> CancelComputeRun_done i r s = (rp, s') \<Longrightarrow> statuses_ok s'"
  by (auto simp: CancelComputeRun_done_def statuses_ok_def upd_run_def nth_list_update status_ok_def split: if_splits)

lemma api_reach_statuses: "api_reach careful W s \<Longrightarrow> statuses_ok s"
proof (induction rule: api_reach.induct)
  case start show ?case by (simp add: statuses_ok_def NewComputeManager_def)
next
  case (execute W s nd h la kvs uuid nano now deviceID req rp s')
  have sh: "shape s" using api_reach_inv [OF execute.hyps(1)] by (simp add: api_inv_def)
  then have l: "length (ap_monitors s) = length (ap_runs s)" by (simp add: shape_def Let_def)
  from executed [OF execute.hyps(4)] show ?case
  proof (elim disjE exE conjE)
    fix n q hnd remote assume "s' = begin_run now deviceID q hnd remote s"
    then show ?thesis using execute.IH l
      by (auto simp: begin_run_state [OF sh] Let_def statuses_ok_def nth_append less_Suc_eq status_ok_def started_def new_compute_run_def)
  qed (use execute.IH in simp)
next
  case written show ?case by (rule same_statuses_ok [OF same_status_handle written.IH])
next
  case stream_ends show ?case by (rule same_statuses_ok [OF same_status_handle stream_ends.IH])
next
  case log_entry show ?case by (rule same_statuses_ok [OF same_status_handle log_entry.IH])
next
  case ends show ?case by (rule same_statuses_ok [OF same_status_handle ends.IH])
next
  case copying show ?case by (rule same_statuses_ok [OF same_status_handle copying.IH])
next
  case buffering show ?case by (rule same_statuses_ok [OF same_status_bufferStream buffering.IH])
next
  case monitoring show ?case by (rule monitor_statuses [OF api_reach_inv [OF monitoring.hyps(1)] monitoring.IH])
next
  case (cancel W s deviceID runID rp s')
  show ?case by (rule same_statuses_ok [OF same_status_cancel [OF cancel.hyps(3)] cancel.IH])
next
  case (cancel_done W s runID r rp s')
  show ?case by (rule cancel_done_statuses [OF cancel_done.IH cancel_done.hyps(3)])
next
  case (delete W s runID deviceID rp s')
  show ?case by (rule same_statuses_ok [OF same_status_delete [OF delete.hyps(4)] delete.IH])
next
  case (stdin W s deviceID runID input rp s')
  show ?case by (rule same_statuses_ok [OF same_status_stdin [OF stdin.hyps(3)] stdin.IH])
qed


section \<open>Examples\<close>

definition sample_remote :: remote_handle where
  "sample_remote = \<lparr>rm_handle = new_handle ''run_7'', rm_Stdin = pipe, rm_Stdout = pipe, rm_Stderr = pipe, rm_Log = pipe, rm_cancel = None\<rparr>"

definition sample_view :: node_view where
  "sample_view = \<lparr>nd_ID = ''me'', nd_Decode = Inr, nd_GetDevice = (\<lambda>d. Inr \<lparr>dv_ID = d, dv_Status = ''healthy''\<rparr>),
     nd_Dial = (\<lambda>_. None), nd_Run = (\<lambda>d q. Inr sample_remote)\<rparr>"

definition sample_request :: execute_request where
  "sample_request = \<lparr>xq_command = ''ls'', xq_args = None, xq_env = None, xq_working_dir = []\<rparr>"

definition sample_launcher :: launcher where
  "sample_launcher = \<lparr>la_StdinPipe = None, la_Start = (\<lambda>p a e d. None)\<rparr>"

definition sample_api :: "bytes \<Rightarrow> api" where
  "sample_api deviceID = snd (ExecuteCommand sample_host sample_launcher [] ''u'' 7 ''t'' (Some sample_view) deviceID (Inr sample_request) NewComputeManager)"

lemma sample_fresh: "fresh_runs sample_view"
  by (simp add: fresh_runs_def sample_view_def sample_remote_def unread_stream_def pipe_def)

lemma sample_api_reach: "api_reach careful (\<lambda>_. ([], [])) (sample_api deviceID)"
proof -
  obtain rp s' where st: "ExecuteCommand sample_host sample_launcher [] ''u'' 7 ''t'' (Some sample_view) deviceID (Inr sample_request) NewComputeManager = (rp, s')"
    by force
  have "api_reach careful (\<lambda>_. ([], [])) s'"
    by (rule api_reach.execute [OF api_reach.start _ _ st]) (simp_all add: sample_fresh NewComputeManager_def)
  then show ?thesis using st by (simp add: sample_api_def)
qed

lemma run_id_7: "run_id 7 = ''run_7''"
  by code_simp

lemma sample_remote_run:
  "ExecuteCommand sample_host sample_launcher [] ''u'' 7 ''t'' (Some sample_view) ''dev'' (Inr sample_request) NewComputeManager
     = (Reply 201 (JsonBody (created_body ''t'' ''run_7'' ''dev'' sample_request)), sample_api ''dev'')"
  "sample_api ''dev'' = \<lparr>cm_runs = [''run_7'' \<mapsto> 0], ap_runs = [started ''t'' ''dev'' sample_request (RemoteHandle sample_remote) True 0],
     ap_handles = [RemoteHandle sample_remote], ap_bufs = [[], [], []],
     ap_readers = [\<lparr>br_handle = 0, br_output = OutS, br_buf = 0, br_done = False\<rparr>,
        \<lparr>br_handle = 0, br_output = ErrS, br_buf = 1, br_done = False\<rparr>, \<lparr>br_handle = 0, br_output = LogS, br_buf = 2, br_done = False\<rparr>],
     ap_monitors = [\<lparr>rn_run = 0, rn_phase = MonStart\<rparr>], ap_crashed = False\<rparr>"
proof -
  have e: "ExecuteCommand sample_host sample_launcher [] ''u'' 7 ''t'' (Some sample_view) ''dev'' (Inr sample_request) NewComputeManager
     = (Reply 201 (JsonBody (created_body ''t'' ''run_7'' ''dev'' sample_request)),
        begin_run ''t'' ''dev'' sample_request (RemoteHandle sample_remote) True NewComputeManager)"
    by (simp add: ExecuteCommand_def executeCommand_def validateDevice_def sample_view_def sample_remote_def new_handle_def Let_def)
  then show "ExecuteCommand sample_host sample_launcher [] ''u'' 7 ''t'' (Some sample_view) ''dev'' (Inr sample_request) NewComputeManager
     = (Reply 201 (JsonBody (created_body ''t'' ''run_7'' ''dev'' sample_request)), sample_api ''dev'')"
    by (simp add: sample_api_def)
  have sh: "shape NewComputeManager" by (simp add: shape_def NewComputeManager_def)
  show "sample_api ''dev'' = \<lparr>cm_runs = [''run_7'' \<mapsto> 0], ap_runs = [started ''t'' ''dev'' sample_request (RemoteHandle sample_remote) True 0],
     ap_handles = [RemoteHandle sample_remote], ap_bufs = [[], [], []],
     ap_readers = [\<lparr>br_handle = 0, br_output = OutS, br_buf = 0, br_done = False\<rparr>,
        \<lparr>br_handle = 0, br_output = ErrS, br_buf = 1, br_done = False\<rparr>, \<lparr>br_handle = 0, br_output = LogS, br_buf = 2, br_done = False\<rparr>],
     ap_monitors = [\<lparr>rn_run = 0, rn_phase = MonStart\<rparr>], ap_crashed = False\<rparr>"
    by (simp add: sample_api_def e begin_run_state [OF sh] Let_def)
       (simp add: NewComputeManager_def sample_remote_def new_handle_def)
qed

theorem created_run_witness: "\<exists>r. find_run ''dev'' ''run_7'' (sample_api ''dev'') = Some r"
proof -
  obtain r i where r: "JsonBody (created_body ''t'' ''run_7'' ''dev'' sample_request) = JsonBody (created_body ''t'' i ''dev'' sample_request)"
      "find_run ''dev'' i (sample_api ''dev'') = Some r"
    using created_run_is_found [OF api_reach.start [of True] sample_remote_run(1)] by blast
  then have "i = ''run_7''" by (simp add: created_body_def jobj_def fld_def)
  with r show ?thesis by blast
qed

lemma sample_found: "find_run ''dev'' ''run_7'' (sample_api ''dev'') = Some 0"
  by (simp add: sample_remote_run(2) find_run_def GetRun_def started_def new_compute_run_def)

text \<open>The command writes to its output, and the goroutine of the buffer reads it.\<close>

definition sample_output :: api where
  "sample_output = bufferStream 0 (upd_exec_handle 0 (process_output ''hi'' []) (sample_api ''dev''))"

lemma sample_output_reach: "api_reach careful ((\<lambda>_. ([], []))(0 := (''hi'', []))) sample_output"
proof -
  have t: "takes_output (ap_handles (sample_api ''dev'') ! 0)" "0 < length (ap_handles (sample_api ''dev''))" "\<not> ap_crashed (sample_api ''dev'')"
    by (simp_all add: sample_remote_run(2) sample_remote_def pipe_def)
  have "api_reach careful ((\<lambda>_. ([], []))(0 := (''hi'', []))) (upd_exec_handle 0 (process_output ''hi'' []) (sample_api ''dev''))"
    using api_reach.written [OF sample_api_reach t(3,2,1), of careful "''hi''" "[]"] by simp
  then show ?thesis unfolding sample_output_def
    by (rule api_reach.buffering) (simp add: upd_exec_handle_def t)
qed



text \<open>The run waits for its end, it ends with code 0, and the monitor takes the result.\<close>

abbreviation watch :: "api \<Rightarrow> api" where
  "watch \<equiv> monitorRunCompletion ''u'' 0"

definition sample_waiting :: api where
  "sample_waiting = watch (sample_api ''dev'')"

definition sample_over :: api where
  "sample_over = watch (watch (upd_exec_handle 0 (execution_ends WaitOk None 0) sample_waiting))"

lemma sample_waiting_reach: "api_reach careful (\<lambda>_. ([], [])) sample_waiting"
  unfolding sample_waiting_def by (rule api_reach.monitoring [OF sample_api_reach]) (simp add: sample_remote_run(2))

lemmas watch_defs = monitorRunCompletion_def chan_value_def set_watch_def upd_exec_handle_def upd_run_def finish_run_def started_def
  new_compute_run_def sample_remote_def new_handle_def new_chan_def complete_def ch_put_def ch_close_def ch_recv_def Let_def

lemma sample_waiting_state:
  "sample_waiting = (sample_api ''dev'')\<lparr>ap_monitors := [\<lparr>rn_run = 0, rn_phase = MonDone 0\<rparr>]\<rparr>"
  by (simp add: sample_waiting_def sample_remote_run(2) watch_defs)

lemma sample_over_state:
  "sample_over = (sample_api ''dev'')\<lparr>ap_monitors := [\<lparr>rn_run = 0, rn_phase = MonExit None 0\<rparr>],
     ap_handles := [RemoteHandle (sample_remote\<lparr>rm_handle := (new_handle ''run_7'')\<lparr>rh_exit := \<lparr>ch_buf = [0], ch_closed = True\<rparr>,
       rh_done := \<lparr>ch_buf = [], ch_closed = True\<rparr>, rh_once := True\<rparr>\<rparr>)]\<rparr>"
  by (simp add: sample_over_def sample_waiting_state sample_remote_run(2) watch_defs)

lemma sample_over_reach: "api_reach careful (\<lambda>_. ([], [])) sample_over"
proof -
  let ?s = "upd_exec_handle 0 (execution_ends WaitOk None 0) sample_waiting"
  have r: "api_reach careful (\<lambda>_. ([], [])) ?s"
    by (rule api_reach.ends [OF sample_waiting_reach]) (simp add: sample_waiting_state sample_remote_run(2))
  have r2: "api_reach careful (\<lambda>_. ([], [])) (watch ?s)"
    by (rule api_reach.monitoring [OF r]) (simp add: sample_waiting_state sample_remote_run(2) upd_exec_handle_def)
  show ?thesis unfolding sample_over_def
    by (rule api_reach.monitoring [OF r2]) (simp add: sample_waiting_state sample_remote_run(2) watch_defs)
qed

lemma sample_found_later: "find_run ''dev'' ''run_7'' sample_waiting = Some 0" "find_run ''dev'' ''run_7'' sample_over = Some 0"
  by (simp_all add: sample_waiting_state sample_over_state sample_remote_run(2) find_run_def GetRun_def started_def new_compute_run_def)

theorem deleting_live_run_witness:
  "ap_crashed (watch (watch (upd_exec_handle 0 (execution_ends WaitOk None 0) (snd (DeleteComputeRun ''dev'' ''run_7'' sample_waiting)))))"
proof -
  obtain rp s' where st: "DeleteComputeRun ''dev'' ''run_7'' sample_waiting = (rp, s')" by force
  have "ap_crashed (watch (watch (upd_exec_handle 0 (execution_ends WaitOk None 0) s')))"
    by (rule conjunct2 [OF deleting_live_run_crashes [OF sample_waiting_reach [of False] sample_found_later(1) _ st]])
      (simp_all add: sample_waiting_state sample_remote_run(2) sample_remote_def new_handle_def new_chan_def started_def new_compute_run_def)
  then show ?thesis using st by simp
qed

theorem cancelled_is_overwritten_witness:
  "cr_Status (ap_runs (watch (snd (CancelComputeRun_done ''run_7'' 0 sample_over))) ! 0) = ''completed''"
proof -
  obtain rp s' where st: "CancelComputeRun_done ''run_7'' 0 sample_over = (rp, s')" by force
  have "rn_phase (ap_monitors sample_over ! 0) = MonExit None 0"
    by (simp add: sample_over_state)
  moreover have "eh_ExitCode (ap_handles sample_over ! 0) = (Got 0, RemoteHandle (sample_remote\<lparr>rm_handle := (new_handle ''run_7'')\<lparr>rh_exit := \<lparr>ch_buf = [], ch_closed = True\<rparr>,
       rh_done := \<lparr>ch_buf = [], ch_closed = True\<rparr>, rh_once := True\<rparr>\<rparr>))"
    by (simp add: sample_over_state ch_recv_def)
  ultimately have "cr_Status (ap_runs (watch s') ! 0) = ''completed''"
    using cancelled_is_overwritten [OF sample_over_reach [of True] sample_found_later(2) st, of None 0 _ "''u''"] by simp
  then show ?thesis using st by simp
qed


theorem local_stdin_refused_witness:
  "fst (SendStdin ''me'' ''run_7'' (Inr ''x'') (sample_api ''me'')) = errorResponse 500 ''Failed to write to stdin'' (Some (err_text ErrClosedPipe))"
proof -
  have sh: "shape NewComputeManager" by (simp add: shape_def NewComputeManager_def)
  obtain x where x: "ExecuteRaw sample_host sample_launcher [] ''u'' (local_request sample_host sample_request) = Inr x"
    by (simp add: ExecuteRaw_def sample_launcher_def local_request_def sample_request_def Let_def)
  have a: "sample_api ''me'' = begin_run ''t'' ''me'' sample_request (LocalHandle (local_execution ''run_7'' x)) False NewComputeManager"
    by (simp add: sample_api_def ExecuteCommand_def executeCommand_def sample_view_def x run_id_7 Let_def)
  have "find_run ''me'' ''run_7'' (sample_api ''me'') = Some 0" "ap_handles (sample_api ''me'') ! 0 = LocalHandle (local_execution ''run_7'' x)"
      "cr_Status (ap_runs (sample_api ''me'') ! 0) = ''running''"
    by (simp_all add: a begin_run_state [OF sh] Let_def find_run_def GetRun_def)
      (simp_all add: NewComputeManager_def started_def new_compute_run_def local_execution_def)
  from local_stdin_refused [OF sample_api_reach [of True] this] show ?thesis by simp
qed

text \<open>
  A run can be reported as completed while its output is not there yet: nothing makes the goroutine that sets the status
  wait for those that fill the buffers, so a caller that polls the status and then fetches the output may miss the end of it.
\<close>

theorem completed_before_output:
  "\<exists>W s r. api_reach True W s \<and> find_run ''dev'' ''run_7'' s = Some r \<and> cr_Status (ap_runs s ! r) = ''completed''
     \<and> fst (W r) = ''hi'' \<and> StreamStdout True False ''dev'' ''run_7'' s = Reply 200 (RawBody [])"
proof -
  let ?w = "upd_exec_handle 0 (process_output ''hi'' []) sample_over"
  have t: "takes_output (ap_handles sample_over ! 0)" "0 < length (ap_handles sample_over)" "\<not> ap_crashed sample_over"
    by (simp_all add: sample_over_state sample_remote_run(2) sample_remote_def pipe_def)
  have r: "api_reach True ((\<lambda>_. ([], []))(0 := (''hi'', []))) ?w"
    using api_reach.written [OF sample_over_reach t(3,2,1), of True "''hi''" "[]"] by simp
  have "api_reach True ((\<lambda>_. ([], []))(0 := (''hi'', []))) (watch ?w)"
    by (rule api_reach.monitoring [OF r]) (simp add: upd_exec_handle_def t)
  moreover have "cm_runs (watch ?w) = [''run_7'' \<mapsto> 0]" "ap_bufs (watch ?w) = [[], [], []]"
      "ap_runs (watch ?w) = [finish_run ''u'' None 0 (started ''t'' ''dev'' sample_request (RemoteHandle sample_remote) True 0)]"
    by (simp_all add: sample_over_state sample_remote_run(2) monitorRunCompletion_def chan_value_def set_watch_def upd_exec_handle_def upd_run_def
        ch_recv_def Let_def)
  then have "find_run ''dev'' ''run_7'' (watch ?w) = Some 0 \<and> cr_Status (ap_runs (watch ?w) ! 0) = ''completed''
      \<and> StreamStdout True False ''dev'' ''run_7'' (watch ?w) = Reply 200 (RawBody [])"
    by (simp add: StreamStdout_def stream_reply_def GetStdout_def buf_bytes_def find_run_def GetRun_def finish_run_def
        started_def new_compute_run_def Let_def)
  ultimately show ?thesis by (intro exI [of _ "(\<lambda>_. ([], []))(0 := (''hi'', []))"] exI [of _ "watch ?w"] exI [of _ 0]) simp
qed

end
