(* ===== verification/Echo.thy ===== *)
theory Echo
  imports Message_Codecs Go_IO Packet
begin

text \<open>
  The echo protocol: the handler of \<open>p2p/protocols/echo/echo.go\<close>, and \<open>GetEcho\<close> and \<open>Ping\<close> of \<open>p2p/node/node.go\<close>.  A
  client opens a stream, writes a command with a newline and reads the answer to its end.  Streams are
  connections; a call is split where it waits.  With them, the JSON encoding of a device
  (\<open>p2p/node/node.go\<close>, \<open>p2p/util\<close>), which is one of the answers.
\<close>

section \<open>Devices\<close>

record system_information =
  si_Platform :: bytes
  si_CPU :: bytes
  si_GPU :: "bytes list option"
  si_RAM :: u64

definition DeviceStatusDiscovered :: bytes where "DeviceStatusDiscovered = ''discovered''"
definition DeviceStatusHealthy :: bytes where "DeviceStatusHealthy = ''healthy''"

text \<open>An identifier of a peer is its text; a time is its text too.\<close>

record device_info =
  di_ID :: bytes
  di_ReferenceToken :: bytes
  di_Status :: bytes
  di_SysInfo :: system_information
  di_Timestamp :: bytes

definition no_system_information :: system_information where
  "no_system_information = \<lparr>si_Platform = [], si_CPU = [], si_GPU = None, si_RAM = 0\<rparr>"

definition zero_time :: bytes where
  "zero_time = ''0001-01-01T00:00:00Z''"

definition no_device :: device_info where
  "no_device = \<lparr>di_ID = [], di_ReferenceToken = [], di_Status = [], di_SysInfo = no_system_information, di_Timestamp = zero_time\<rparr>"

definition system_information_to_json :: "system_information \<Rightarrow> json" where
  "system_information_to_json x = jobj
     [fld ''Platform'' (JStr (si_Platform x)), fld ''CPU'' (JStr (si_CPU x)), fld ''GPU'' (jslice JStr (si_GPU x)),
      fld ''RAM'' (jnat (unat (si_RAM x)))]"

definition as_u64 :: "json \<Rightarrow> u64 option" where
  "as_u64 v = (case v of
      JNum l \<Rightarrow> (case read_nat l of Some n \<Rightarrow> if n < 2 ^ 64 then Some (of_nat n) else None | None \<Rightarrow> None)
    | _ \<Rightarrow> None)"

definition system_information_fields :: "system_information fields" where
  "system_information_fields =
     [(''Platform'', set_val as_str (\<lambda>v x. x\<lparr>si_Platform := v\<rparr>)),
      (''CPU'', set_val as_str (\<lambda>v x. x\<lparr>si_CPU := v\<rparr>)),
      (''GPU'', set_ref (as_list [] as_str) (\<lambda>v x. x\<lparr>si_GPU := v\<rparr>)),
      (''RAM'', set_val as_u64 (\<lambda>v x. x\<lparr>si_RAM := v\<rparr>))]"

definition system_information_ok :: "system_information \<Rightarrow> bool" where
  "system_information_ok x \<longleftrightarrow> valid_utf8 (si_Platform x) \<and> valid_utf8 (si_CPU x)
     \<and> (case si_GPU x of None \<Rightarrow> True | Some l \<Rightarrow> list_all valid_utf8 l)"

definition device_to_json :: "device_info \<Rightarrow> json" where
  "device_to_json x = jobj
     [fld ''ID'' (JStr (di_ID x)), fld ''ReferenceToken'' (JStr (di_ReferenceToken x)), fld ''Status'' (JStr (di_Status x)),
      fld ''SysInfo'' (system_information_to_json (di_SysInfo x)), fld ''Timestamp'' (JStr (di_Timestamp x))]"

text \<open>
  The identifier and the time decode themselves: \<open>pid\<close> reads the text of an identifier and gives the text it is written
  with, \<open>tm\<close> does so for a time.  An identifier that is \<open>null\<close> is an error, a time is left alone.
\<close>

definition set_id :: "(bytes \<Rightarrow> bytes option) \<Rightarrow> device_info setter" where
  "set_id pid v x = (case v of JStr s \<Rightarrow> map_option (\<lambda>i. x\<lparr>di_ID := i\<rparr>) (pid s) | _ \<Rightarrow> None)"

definition device_fields :: "(bytes \<Rightarrow> bytes option) \<Rightarrow> (bytes \<Rightarrow> bytes option) \<Rightarrow> device_info fields" where
  "device_fields pid tm =
     [(''ID'', set_id pid),
      (''ReferenceToken'', set_val as_str (\<lambda>v x. x\<lparr>di_ReferenceToken := v\<rparr>)),
      (''Status'', set_val as_str (\<lambda>v x. x\<lparr>di_Status := v\<rparr>)),
      (''SysInfo'', set_val (as_struct system_information_fields no_system_information) (\<lambda>v x. x\<lparr>di_SysInfo := v\<rparr>)),
      (''Timestamp'', set_val (\<lambda>v. Option.bind (as_str v) tm) (\<lambda>v x. x\<lparr>di_Timestamp := v\<rparr>))]"

definition device_ok :: "(bytes \<Rightarrow> bytes option) \<Rightarrow> (bytes \<Rightarrow> bytes option) \<Rightarrow> device_info \<Rightarrow> bool" where
  "device_ok pid tm x \<longleftrightarrow> pid (di_ID x) = Some (di_ID x) \<and> valid_utf8 (di_ID x) \<and> valid_utf8 (di_ReferenceToken x) \<and> valid_utf8 (di_Status x)
     \<and> system_information_ok (di_SysInfo x) \<and> tm (di_Timestamp x) = Some (di_Timestamp x) \<and> valid_utf8 (di_Timestamp x)"

lemma as_u64_jnat [simp]: "as_u64 (jnat (unat x)) = Some x" for x :: u64
  using unsigned_less [of x] by (simp add: as_u64_def jnat_def)

lemma jnat_not_null [simp]: "jnat n \<noteq> JNull"
  by (simp add: jnat_def)

interpretation system_information_msg: struct_codec system_information_to_json system_information_fields no_system_information system_information_ok
  by unfold_locales
    (auto simp: system_information_to_json_def system_information_fields_def no_system_information_def system_information_ok_def
      struct_simps(1-7) jslice_def valid_utf8_ascii split: option.splits)

lemma system_information_depth: "json_depth (system_information_to_json x) \<le> 100"
  by (auto simp: system_information_to_json_def struct_simps(1-6) jslice_def jnat_def split: option.split)

lemma device_decode:
  assumes "device_ok pid tm x"
  shows "unmarshal (device_fields pid tm) (json_text (device_to_json x)) no_device = (x, True)"
proof -
  have s: "as_struct system_information_fields no_system_information (system_information_to_json (di_SysInfo x)) = Some (di_SysInfo x)"
    and ok: "json_ok (system_information_to_json (di_SysInfo x))"
    using assms system_information_msg.as_struct_tj system_information_msg.encode_ok by (simp_all add: device_ok_def)
  have n: "system_information_to_json (di_SysInfo x) \<noteq> JNull" by (simp add: system_information_to_json_def)
  have "json_ok (device_to_json x)" "json_depth (device_to_json x) \<le> 9999"
    using assms ok system_information_depth [of "di_SysInfo x"]
    by (auto simp: device_to_json_def device_ok_def struct_simps(1-6) valid_utf8_ascii)
  moreover have "into_struct (device_fields pid tm) (device_to_json x) no_device = (x, True)"
    using assms s n
    by (auto simp: device_to_json_def device_fields_def no_device_def device_ok_def set_id_def struct_simps(1-6))
  ultimately show ?thesis by (simp add: unmarshal_def json_parse_text)
qed

section \<open>The handler\<close>

definition StellarEchoUnknownCommand :: bytes where "StellarEchoUnknownCommand = ''unkown''"
definition StellarPing :: bytes where "StellarPing = ''ping''"
definition StellarPong :: bytes where "StellarPong = ''pong''"
definition StellarEchoDeviceInfo :: bytes where "StellarEchoDeviceInfo = ''deviceInfo''"

abbreviation newline :: char where
  "newline \<equiv> CHR 0x0A"

text \<open>\<open>bufio.Reader.ReadString\<close> with a newline: what has been read is kept until it holds one.\<close>

function read_line :: "bytes \<Rightarrow> conn \<Rightarrow> rd \<times> conn" where
  "read_line acc c = (if newline \<in> set acc then (RdData (takeWhile (\<lambda>b. b \<noteq> newline) acc @ [newline]), c)
     else (case conn_read 4096 c of
         (RdData b, c) \<Rightarrow> read_line (acc @ b) c
       | r \<Rightarrow> r))"
  by pat_completeness auto
termination
  by (relation "measure (\<lambda>(acc, c). length (inbox c) + length (conn_pending c))")
     (auto simp: conn_read_def conn_pending_def split: if_splits list.splits option.splits)

declare read_line.simps [simp del]

text \<open>\<open>strings.Trim\<close> of newlines.\<close>

definition trim_newlines :: "bytes \<Rightarrow> bytes" where
  "trim_newlines s = rev (dropWhile (\<lambda>b. b = newline) (rev (dropWhile (\<lambda>b. b = newline) s)))"

text \<open>What the handler takes from the node; \<open>en_SysInfo\<close> is \<open>GetSystemInformation\<close>.\<close>

record echo_node =
  en_ID :: bytes
  en_ReferenceToken :: bytes
  en_SysInfo :: "system_information result"

definition own_device :: "echo_node \<Rightarrow> system_information \<Rightarrow> device_info" where
  "own_device n i = no_device\<lparr>di_ID := en_ID n, di_ReferenceToken := en_ReferenceToken n, di_SysInfo := i\<rparr>"

definition echo_response :: "echo_node \<Rightarrow> bytes \<Rightarrow> bytes result" where
  "echo_response n str =
     (if str = StellarPing then Inr StellarPong
      else if str = StellarEchoDeviceInfo then
        (case en_SysInfo n of Inl e \<Rightarrow> Inl e | Inr i \<Rightarrow> Inr (json_text (device_to_json (own_device n i))))
      else Inr StellarEchoUnknownCommand)"

definition doStellarEcho :: "echo_node \<Rightarrow> conn \<Rightarrow> unit rres \<times> conn" where
  "doStellarEcho n s = (case read_line [] s of
      (RdBlock, s) \<Rightarrow> (Blocked, s)
    | (RdErr e, s) \<Rightarrow> (Fail e, s)
    | (RdData str, s) \<Rightarrow> (case echo_response n (trim_newlines str) of
        Inl e \<Rightarrow> (Fail e, s)
      | Inr response \<Rightarrow> (case conn_write response s of
          ((_, Some e), s) \<Rightarrow> (Fail e, s)
        | ((_, None), s) \<Rightarrow> (Done (), s))))"

section \<open>The calls\<close>

text \<open>A call writes its command to the new stream, \<open>Host.NewStream\<close>, and then waits for all of the answer.\<close>

definition echo_call :: "conn result \<Rightarrow> bytes \<Rightarrow> conn result" where
  "echo_call newStream echoCmd = (case newStream of
      Inl e \<Rightarrow> Inl e
    | Inr s \<Rightarrow> (case conn_write (echoCmd @ [newline]) s of
        ((_, Some e), _) \<Rightarrow> Inl e
      | ((_, None), s) \<Rightarrow> Inr s))"

definition conn_ReadAll :: "conn \<Rightarrow> bytes rres" where
  "conn_ReadAll s = (case fst (read_all conn_read 512 (Suc (length (inbox s) + length (conn_pending s))) [] s) of
      None \<Rightarrow> Blocked
    | Some (data, None) \<Rightarrow> Done data
    | Some (_, Some e) \<Rightarrow> Fail e)"

definition GetEcho_reply :: "conn \<Rightarrow> bytes rres" where
  "GetEcho_reply s = (case conn_ReadAll s of
      Blocked \<Rightarrow> Blocked
    | Fail e \<Rightarrow> Fail e
    | Done data \<Rightarrow> if data = StellarEchoUnknownCommand then Done [] else Done data)"

definition Ping_reply :: "conn \<Rightarrow> unit rres" where
  "Ping_reply s = (case conn_ReadAll s of
      Blocked \<Rightarrow> Blocked
    | Fail e \<Rightarrow> Fail e
    | Done data \<Rightarrow>
        if data = StellarEchoUnknownCommand then Done ()
        else if data \<noteq> StellarPong then Fail (Err ''ping result is not pong'')
        else Done ())"

section \<open>A call and its answer\<close>

lemma read_line_until:
  "\<not> shut c \<Longrightarrow> newline \<notin> set cmd \<Longrightarrow> acc @ conn_pending c = cmd @ newline # t \<Longrightarrow>
   \<exists>c'. read_line acc c = (RdData (cmd @ [newline]), c') \<and> same_out c c'"
proof (induction acc c rule: read_line.induct)
  case (1 acc c)
  show ?case
  proof (cases "newline \<in> set acc")
    case True
    then have "takeWhile (\<lambda>b. b \<noteq> newline) acc = takeWhile (\<lambda>b. b \<noteq> newline) (acc @ conn_pending c)"
      by (simp add: takeWhile_append1 [of newline])
    also have "\<dots> = cmd" unfolding "1.prems"(3) using "1.prems"(2)
      by (subst takeWhile_append2) auto
    finally show ?thesis using True by (simp add: read_line.simps [of acc c])
  next
    case False
    then obtain b bs where i: "inbox c = b # bs"
      using "1.prems"(2,3) by (cases "inbox c") (auto simp: conn_pending_def append_eq_append_conv2 Cons_eq_append_conv)
    obtain d c2 where d: "conn_read 4096 c = (RdData d, c2)" using i "1.prems"(1) by (simp add: conn_read_def)
    have p: "conn_pending c = d @ conn_pending c2" "shut c2 = shut c" "same_out c c2"
      using d i "1.prems"(1) by (auto simp: conn_read_def conn_pending_def same_out_def split: if_splits)
    obtain c' where "read_line (acc @ d) c2 = (RdData (cmd @ [newline]), c')" "same_out c2 c'"
      using "1.IH" [OF False d [symmetric] refl] "1.prems" p by auto
    then show ?thesis using False d p(3) by (auto simp: read_line.simps [of acc c] same_out_def)
  qed
qed

lemma dropWhile_newline: "newline \<notin> set l \<Longrightarrow> dropWhile (\<lambda>b. b = newline) (l @ r) = (if l = [] then dropWhile (\<lambda>b. b = newline) r else l @ r)"
  by (cases l) auto

lemma trim_command:
  assumes "newline \<notin> set cmd"
  shows "trim_newlines (cmd @ [newline]) = cmd"
  using dropWhile_newline [OF assms, of "[newline]"] dropWhile_newline [of "rev cmd" "[]"] assms
  by (auto simp: trim_newlines_def split: if_splits)

lemma read_all_conn:
  assumes "\<not> shut s" "fin s = Some EOF" "0 < k" "length (inbox s) + length (conn_pending s) < n"
  shows "\<exists>s'. read_all conn_read k n acc s = (Some (acc @ conn_pending s, None), s')"
  using assms
proof (induction n arbitrary: acc s)
  case (Suc n)
  show ?case
  proof (cases "inbox s")
    case Nil
    then show ?thesis using Suc.prems by (simp add: conn_read_def conn_pending_def)
  next
    case (Cons b bs)
    obtain d c where d: "conn_read k s = (RdData d, c)" using Cons Suc.prems(1) by (simp add: conn_read_def)
    have c: "\<not> shut c" "fin c = Some EOF" "conn_pending s = d @ conn_pending c" "length (inbox c) + length (conn_pending c) < n"
      using d Cons Suc.prems by (auto simp: conn_read_def conn_pending_def split: if_splits)
    show ?thesis using Suc.IH [OF c(1,2) Suc.prems(3) c(4), of "acc @ d"] d c(3) by auto
  qed
qed simp

lemma conn_ReadAll_all: "\<not> shut s \<Longrightarrow> fin s = Some EOF \<Longrightarrow> conn_ReadAll s = Done (conn_pending s)"
  using read_all_conn [of s 512 "Suc (length (inbox s) + length (conn_pending s))" "[]"] by (auto simp: conn_ReadAll_def)

text \<open>
  The command in the handler's stream, in any chunks and before anything else, is answered; the answer at the caller, in any chunks, is the
  result of the call.
\<close>

lemma echo_answer:
  assumes "\<not> shut s" "wplan s = []" "newline \<notin> set cmd" "conn_pending s = cmd @ newline # t" "echo_response n cmd = Inr r"
  shows "\<exists>s'. doStellarEcho n s = (Done (), s') \<and> Go_IO.sent s' = Go_IO.sent s @ r"
proof -
  obtain c where c: "read_line [] s = (RdData (cmd @ [newline]), c)" "same_out s c"
    using read_line_until [OF assms(1,3), of "[]" t] assms(4) by auto
  then show ?thesis using assms by (simp add: doStellarEcho_def trim_command conn_write_def same_out_def)
qed

definition written_since :: "conn \<Rightarrow> conn \<Rightarrow> bytes" where
  "written_since c c' = drop (length (Go_IO.sent c)) (Go_IO.sent c')"

definition arrived :: "conn \<Rightarrow> bytes \<Rightarrow> bool" where
  "arrived c b \<longleftrightarrow> \<not> shut c \<and> conn_pending c = b"

lemma echo_exchange:
  assumes "echo_call (Inr c) cmd = Inr c1" "wplan c = []" "newline \<notin> set cmd" "arrived s (written_since c c1)" "wplan s = []"
    and "echo_response n cmd = Inr r"
  shows "\<exists>s'. doStellarEcho n s = (Done (), s') \<and> written_since s s' = r"
proof -
  have "written_since c c1 = cmd @ [newline]"
    using assms(1,2) by (auto simp: echo_call_def conn_write_def written_since_def split: if_splits)
  then obtain s' where "doStellarEcho n s = (Done (), s')" "Go_IO.sent s' = Go_IO.sent s @ r"
    using echo_answer [of s cmd "[]" n r] assms(3-6) by (auto simp: arrived_def)
  then show ?thesis by (simp add: written_since_def)
qed

lemma command_text [simp]: "newline \<notin> set StellarEchoDeviceInfo" "newline \<notin> set StellarPing"
  by (simp_all add: StellarEchoDeviceInfo_def StellarPing_def)

text \<open>
  A node that asks another one for its device information reads back exactly that node's device, through any chunking in either
  direction: identifier, reference token and system information, with no status and no time.
\<close>

lemma device_info_exchange:
  assumes "echo_call (Inr c) StellarEchoDeviceInfo = Inr c1" "wplan c = []"
    and "arrived s (written_since c c1)" "wplan s = []" "en_SysInfo n = Inr i" "device_ok pid tm (own_device n i)"
  shows "\<exists>s'. doStellarEcho n s = (Done (), s')
    \<and> (\<forall>c2. arrived c2 (written_since s s') \<and> fin c2 = Some EOF \<longrightarrow>
        (\<exists>text. GetEcho_reply c2 = Done text \<and> unmarshal (device_fields pid tm) text no_device = (own_device n i, True)))"
proof -
  let ?r = "json_text (device_to_json (own_device n i))"
  have "echo_response n StellarEchoDeviceInfo = Inr ?r"
    using assms(5) by (simp add: echo_response_def StellarEchoDeviceInfo_def StellarPing_def)
  then obtain s' where s': "doStellarEcho n s = (Done (), s')" "written_since s s' = ?r"
    using echo_exchange [OF assms(1,2) command_text(1) assms(3,4)] by blast
  have "?r \<noteq> StellarEchoUnknownCommand"
    by (simp add: device_to_json_def struct_simps(1-2) StellarEchoUnknownCommand_def)
  then show ?thesis using s' device_decode [OF assms(6)] conn_ReadAll_all
    by (auto simp: GetEcho_reply_def arrived_def)
qed

text \<open>A ping of a node that runs the handler succeeds, through any chunking.\<close>

lemma ping_answered:
  assumes "echo_call (Inr c) StellarPing = Inr c1" "wplan c = []" "arrived s (written_since c c1)" "wplan s = []"
  shows "\<exists>s'. doStellarEcho n s = (Done (), s')
    \<and> (\<forall>c2. arrived c2 (written_since s s') \<and> fin c2 = Some EOF \<longrightarrow> Ping_reply c2 = Done ())"
proof -
  have "echo_response n StellarPing = Inr StellarPong" by (simp add: echo_response_def)
  then obtain s' where "doStellarEcho n s = (Done (), s')" "written_since s s' = StellarPong"
    using echo_exchange [OF assms(1,2) command_text(2) assms(3,4)] by blast
  then show ?thesis using conn_ReadAll_all
    by (auto simp: Ping_reply_def arrived_def StellarPong_def StellarEchoUnknownCommand_def)
qed

text \<open>A node that does not know the command counts as alive too, while its device information reads as nothing.\<close>

lemma refused_ping_succeeds:
  assumes "arrived c StellarEchoUnknownCommand" "fin c = Some EOF"
  shows "Ping_reply c = Done () \<and> GetEcho_reply c = Done []"
  using assms conn_ReadAll_all [of c] by (simp add: Ping_reply_def GetEcho_reply_def arrived_def)

definition open_stream :: "bytes list \<Rightarrow> conn" where
  "open_stream bs = \<lparr>inbox = bs, fin = Some EOF, sent = [], wplan = [], shut = False\<rparr>"

end
