(* ===== verification/Devices.thy ===== *)
theory Devices
  imports Echo
begin

text \<open>
  The devices a node knows, \<open>p2p/node/node.go\<close>: finding them, connecting directly or through a relay, checking their health, and
  the reservations at relays.  \<open>libp2p\<close> is the record \<open>network\<close>: what its calls and those of the echo protocol
  report.  The two maps are keyed by the text of an identifier, which the model uses for the identifier itself.
\<close>

section \<open>State\<close>

record network =
  nt_Connect :: "bytes \<Rightarrow> goerr option"
  nt_Connected :: "bytes \<Rightarrow> bool"
  nt_Addrs :: "bytes \<Rightarrow> bytes list"
  nt_Circuit :: "bytes \<Rightarrow> bytes \<Rightarrow> bool"
  nt_ConnectVia :: "bytes \<Rightarrow> bytes \<Rightarrow> bytes \<Rightarrow> goerr option"
  nt_Reserve :: "bytes \<Rightarrow> goerr option"
  nt_Ping :: "bytes \<Rightarrow> goerr option"
  nt_GetEcho :: "bytes \<Rightarrow> bytes result"

text \<open>
  \<open>nt_Circuit\<close> says that the path through a relay is a valid address; \<open>nt_ConnectVia\<close> connects to a target through a relay at one of the
  relay's addresses.  A known peer is an identifier with addresses.
\<close>

type_synonym addr_info = "bytes \<times> bytes list"

record registry =
  rg_ID :: bytes
  rg_discovered :: "bytes \<rightharpoonup> device_info"
  rg_healthy :: "bytes \<rightharpoonup> device_info"
  rg_reservations :: "bytes \<rightharpoonup> bytes"

definition new_registry :: "bytes \<Rightarrow> registry" where
  "new_registry self = \<lparr>rg_ID = self, rg_discovered = Map.empty, rg_healthy = Map.empty, rg_reservations = Map.empty\<rparr>"

definition node_Devices :: "registry \<Rightarrow> bytes \<rightharpoonup> device_info" where
  "node_Devices r = rg_healthy r"

definition node_DiscoveredDevices :: "registry \<Rightarrow> bytes \<rightharpoonup> device_info" where
  "node_DiscoveredDevices r = rg_discovered r"

definition node_GetDevice :: "bytes \<Rightarrow> registry \<Rightarrow> device_info result" where
  "node_GetDevice k r = (case rg_healthy r k of None \<Rightarrow> Inl (Err (''device not exist: '' @ k)) | Some d \<Rightarrow> Inr d)"

definition node_GetDiscoveredDevice :: "bytes \<Rightarrow> registry \<Rightarrow> device_info result" where
  "node_GetDiscoveredDevice k r = (case rg_discovered r k of
     None \<Rightarrow> Inl (Err (''discovered device not exist: '' @ k)) | Some d \<Rightarrow> Inr d)"

section \<open>Relays\<close>

definition reserveRelaySlot :: "network \<Rightarrow> bytes \<Rightarrow> bytes \<Rightarrow> registry \<Rightarrow> bool \<times> registry" where
  "reserveRelaySlot net now relay r = (case nt_Reserve net relay of
      Some _ \<Rightarrow> (False, r)
    | None \<Rightarrow> (True, r\<lparr>rg_reservations := (rg_reservations r)(relay \<mapsto> now)\<rparr>))"

text \<open>One goroutine of \<open>refreshAllRelayReservations\<close>, and all of them in some order.\<close>

definition refresh_reservation :: "network \<Rightarrow> bytes \<Rightarrow> bytes \<Rightarrow> registry \<Rightarrow> registry" where
  "refresh_reservation net now k r =
     (if \<not> nt_Connected net k then r\<lparr>rg_reservations := (rg_reservations r)(k := None)\<rparr>
      else if nt_Addrs net k = [] then r
      else (case reserveRelaySlot net now k r of
          (True, r) \<Rightarrow> r
        | (False, r) \<Rightarrow> r\<lparr>rg_reservations := (rg_reservations r)(k := None)\<rparr>))"

definition refreshAllRelayReservations :: "network \<Rightarrow> bytes \<Rightarrow> bytes list \<Rightarrow> registry \<Rightarrow> registry" where
  "refreshAllRelayReservations net now ids r = fold (refresh_reservation net now) ids r"

text \<open>Through a relay: its known addresses, or those it was given with, are tried in turn.\<close>

fun try_addrs :: "network \<Rightarrow> bytes \<Rightarrow> bytes \<Rightarrow> bytes list \<Rightarrow> bool" where
  "try_addrs net relay k [] = False"
| "try_addrs net relay k (a # as) = (nt_ConnectVia net relay a k = None \<or> try_addrs net relay k as)"

fun try_relays :: "network \<Rightarrow> bytes \<Rightarrow> addr_info list \<Rightarrow> bool" where
  "try_relays net k [] = False"
| "try_relays net k ((relay, given) # rs) =
     (if \<not> nt_Connected net relay then try_relays net k rs
      else (let as = (if nt_Addrs net relay = [] then given else nt_Addrs net relay) in
        if as = [] \<or> \<not> nt_Circuit net relay k then try_relays net k rs
        else try_addrs net relay k as \<or> try_relays net k rs))"

text \<open>The relays among the bootstrap nodes, for \<open>ConnectDevice\<close> and for the discovery loop.\<close>

fun reserved_relays :: "network \<Rightarrow> bytes \<Rightarrow> bytes \<Rightarrow> addr_info list \<Rightarrow> registry \<Rightarrow> addr_info list \<times> registry" where
  "reserved_relays net now k [] r = ([], r)"
| "reserved_relays net now k (b # bs) r =
     (if fst b = rg_ID r \<or> fst b = k \<or> \<not> nt_Connected net (fst b) then reserved_relays net now k bs r
      else (case reserveRelaySlot net now (fst b) r of
          (True, r) \<Rightarrow> (case reserved_relays net now k bs r of (rs, r) \<Rightarrow> (b # rs, r))
        | (False, r) \<Rightarrow> reserved_relays net now k bs r))"

definition refreshRelayInfos :: "network \<Rightarrow> bytes \<Rightarrow> addr_info list \<Rightarrow> addr_info list" where
  "refreshRelayInfos net self bs = filter (\<lambda>b. fst b \<noteq> self \<and> nt_Connected net (fst b)) bs"

section \<open>Discovery\<close>

definition forget :: "bytes \<Rightarrow> registry \<Rightarrow> registry" where
  "forget k r = r\<lparr>rg_discovered := (rg_discovered r)(k := None), rg_healthy := (rg_healthy r)(k := None)\<rparr>"

definition found_device :: "bytes \<Rightarrow> device_info" where
  "found_device k = no_device\<lparr>di_ID := k, di_Status := DeviceStatusDiscovered\<rparr>"

definition note_found :: "bytes \<Rightarrow> registry \<Rightarrow> registry" where
  "note_found k r = r\<lparr>rg_discovered := (rg_discovered r)(k \<mapsto> found_device k)\<rparr>"

definition connect_peer :: "network \<Rightarrow> bytes \<Rightarrow> addr_info list \<Rightarrow> goerr option" where
  "connect_peer net k relays = (case nt_Connect net k of
      None \<Rightarrow> None
    | Some e \<Rightarrow>
        if relays \<noteq> [] then (if try_relays net k relays then None else Some (Err (''failed to connect to '' @ k @ '' (direct and relay)'')))
        else Some (Wrap ''direct connection failed and no relays available'' e))"

text \<open>
  \<open>discoverDevice\<close>.  For the node itself, which no caller asks for, it registers its own information; without it the program ends.
\<close>

definition discoverDevice :: "network \<Rightarrow> system_information result \<Rightarrow> bytes \<Rightarrow> addr_info list \<Rightarrow> registry \<Rightarrow> (device_info result) option \<times> registry" where
  "discoverDevice net sys k relays r =
     (if k = rg_ID r then
        (case sys of
           Inl _ \<Rightarrow> (None, r)
         | Inr i \<Rightarrow> (let d = no_device\<lparr>di_ID := k, di_Status := DeviceStatusHealthy, di_SysInfo := i\<rparr> in
             (Some (Inr d), r\<lparr>rg_healthy := (rg_healthy r)(k \<mapsto> d)\<rparr>)))
      else (let r = note_found k r in
        (case connect_peer net k relays of
           Some e \<Rightarrow> (Some (Inl e), forget k r)
         | None \<Rightarrow> (case nt_Ping net k of
             Some e \<Rightarrow> (Some (Inl e), forget k r)
           | None \<Rightarrow> (Some (Inr (found_device k)), r)))))"

section \<open>Health\<close>

text \<open>
  \<open>healthCheckDevice\<close> on a copy \<open>d\<close> of a device: the answer is asked for first, then the maps are changed in one critical section.  \<open>pid\<close>
  and \<open>tm\<close> decode identifiers and times, \<open>now\<close> is the clock.
\<close>

definition confirmed_device :: "(bytes \<Rightarrow> bytes option) \<Rightarrow> (bytes \<Rightarrow> bytes option) \<Rightarrow> network \<Rightarrow> bytes \<Rightarrow> device_info result" where
  "confirmed_device pid tm net k = (case nt_GetEcho net k of
      Inl e \<Rightarrow> Inl e
    | Inr text \<Rightarrow> (case unmarshal (device_fields pid tm) text no_device of
        (x, good) \<Rightarrow>
          if \<not> good then Inl (Err ''invalid device information'')
          else if di_ID x \<noteq> k then Inl (Err (''fatal device handshake, device id not matched: '' @ k @ '', '' @ di_ID x))
          else Inr x))"

definition healthCheckDevice :: "(bytes \<Rightarrow> bytes option) \<Rightarrow> (bytes \<Rightarrow> bytes option) \<Rightarrow> network \<Rightarrow> bytes \<Rightarrow> device_info \<Rightarrow> registry
    \<Rightarrow> goerr option \<times> device_info \<times> registry" where
  "healthCheckDevice pid tm net now d r = (let k = di_ID d in
     if di_Status d = DeviceStatusDiscovered then
       (case confirmed_device pid tm net k of
          Inl e \<Rightarrow> (Some e, d, forget k r)
        | Inr x \<Rightarrow>
            (let d = d\<lparr>di_ReferenceToken := di_ReferenceToken x, di_Status := DeviceStatusHealthy, di_SysInfo := di_SysInfo x, di_Timestamp := now\<rparr>
             in (None, d, r\<lparr>rg_discovered := (rg_discovered r)(k := None), rg_healthy := (rg_healthy r)(k \<mapsto> d)\<rparr>)))
     else if di_Status d = DeviceStatusHealthy then
       (case nt_Ping net k of
          Some e \<Rightarrow> (Some e, d, forget k r)
        | None \<Rightarrow> (let d = d\<lparr>di_Timestamp := now\<rparr> in (None, d, r\<lparr>rg_healthy := (rg_healthy r)(k \<mapsto> d)\<rparr>)))
     else (None, d, r))"

text \<open>\<open>UpdateDevices\<close>: a copy of both maps, and a check of each device in some order.\<close>

definition known_devices :: "registry \<Rightarrow> device_info set" where
  "known_devices r = ran (rg_discovered r) \<union> ran (rg_healthy r)"

definition UpdateDevices :: "(bytes \<Rightarrow> bytes option) \<Rightarrow> (bytes \<Rightarrow> bytes option) \<Rightarrow> network \<Rightarrow> bytes \<Rightarrow> device_info list \<Rightarrow> registry \<Rightarrow> registry" where
  "UpdateDevices pid tm net now ds r =
     fold (\<lambda>d r. snd (snd (healthCheckDevice pid tm net now d r))) (filter (\<lambda>d. di_ID d \<noteq> rg_ID r) ds) r"

section \<open>Connecting on request, and the discovery loop\<close>

definition ConnectDevice :: "(bytes \<Rightarrow> bytes option) \<Rightarrow> (bytes \<Rightarrow> bytes option) \<Rightarrow> network \<Rightarrow> system_information result \<Rightarrow> bytes
    \<Rightarrow> addr_info list \<Rightarrow> bytes \<Rightarrow> registry \<Rightarrow> (device_info result) option \<times> registry" where
  "ConnectDevice pid tm net sys now bootstrappers k r =
     (case node_GetDevice k r of
        Inr _ \<Rightarrow> (Some (Inl (Err (''device '' @ k @ '' already connected''))), r)
      | Inl _ \<Rightarrow>
          if k = rg_ID r then (Some (Inl (Err (''device '' @ k @ '' is self''))), r)
          else (case reserved_relays net now k bootstrappers r of
            (relays, r) \<Rightarrow> (case discoverDevice net sys k relays r of
                (None, r) \<Rightarrow> (None, r)
              | (Some (Inl e), r) \<Rightarrow> (Some (Inl e), r)
              | (Some (Inr d), r) \<Rightarrow> (case healthCheckDevice pid tm net now d r of
                  (Some e, _, r) \<Rightarrow> (Some (Inl e), r)
                | (None, d, r) \<Rightarrow> (Some (Inr d), r)))))"

text \<open>
  The state of \<open>DiscoverDevices\<close>: the time of the first advertisement, if any, the peers connected once, the relays.  Times in seconds.
\<close>

record finder =
  fi_advertised :: "nat option"
  fi_connected :: "bytes set"
  fi_relays :: "addr_info list"

definition advertise_tick :: "nat \<Rightarrow> bool \<Rightarrow> finder \<Rightarrow> finder" where
  "advertise_tick now ok f = (if fi_advertised f = None \<and> ok then f\<lparr>fi_advertised := Some now\<rparr> else f)"

definition may_find :: "nat \<Rightarrow> finder \<Rightarrow> bool" where
  "may_find now f = (case fi_advertised f of None \<Rightarrow> False | Some t \<Rightarrow> now - t \<ge> 20)"

text \<open>A peer that was found: whether it is to be discovered, and what is remembered.\<close>

definition wanted_peer :: "network \<Rightarrow> bytes \<Rightarrow> registry \<Rightarrow> finder \<Rightarrow> bool \<times> finder" where
  "wanted_peer net k r f =
     (if k = [] \<or> k = rg_ID r then (False, f)
      else if k \<in> fi_connected f \<and> nt_Connected net k then (False, f)
      else (let f = f\<lparr>fi_connected := fi_connected f - {k}\<rparr> in
        (rg_healthy r k = None \<and> rg_discovered r k = None, f)))"

definition find_peer :: "network \<Rightarrow> system_information result \<Rightarrow> bytes \<Rightarrow> registry \<times> finder \<Rightarrow> registry \<times> finder" where
  "find_peer net sys k rf = (case wanted_peer net k (fst rf) (snd rf) of
      (False, f) \<Rightarrow> (fst rf, f)
    | (True, f) \<Rightarrow> (case discoverDevice net sys k (fi_relays f) (fst rf) of
          (Some (Inr _), r) \<Rightarrow> (r, f\<lparr>fi_connected := insert k (fi_connected f)\<rparr>)
        | (_, r) \<Rightarrow> (r, f)))"

definition find_tick :: "network \<Rightarrow> system_information result \<Rightarrow> nat \<Rightarrow> bytes list result \<Rightarrow> registry \<times> finder \<Rightarrow> registry \<times> finder" where
  "find_tick net sys now peers rf =
     (if \<not> may_find now (snd rf) then rf
      else (case peers of Inl _ \<Rightarrow> rf | Inr ids \<Rightarrow> fold (find_peer net sys) ids rf))"

definition relay_tick :: "network \<Rightarrow> addr_info list \<Rightarrow> registry \<times> finder \<Rightarrow> registry \<times> finder" where
  "relay_tick net bootstrappers rf = (fst rf, (snd rf)\<lparr>fi_relays := refreshRelayInfos net (rg_ID (fst rf)) bootstrappers\<rparr>)"

end
