(* ===== verification/Device_Health.thy ===== *)
theory Device_Health
  imports Devices
begin

text \<open>
  What the device list of a node means: no listed device without an answer of its own, whatever the goroutines do; what one
  round of health checks leaves; and the check of a node that runs this program.
\<close>

section \<open>Goroutines\<close>

text \<open>
  The goroutines between their critical sections: connections that are being tried, with whether a check follows, and health checks with
  their copies of devices.  \<open>nr_answers\<close> records the device information peers have answered with.
\<close>

record node_run =
  nr_reg :: registry
  nr_finding :: "(bytes \<times> bool) list"
  nr_checks :: "device_info list"
  nr_answers :: "(bytes \<times> device_info) set"

definition node_start :: "bytes \<Rightarrow> node_run" where
  "node_start self = \<lparr>nr_reg = new_registry self, nr_finding = [], nr_checks = [], nr_answers = {}\<rparr>"

inductive node_step :: "(bytes \<Rightarrow> bytes option) \<Rightarrow> (bytes \<Rightarrow> bytes option) \<Rightarrow> node_run \<Rightarrow> node_run \<Rightarrow> bool" for pid tm where
  begins: "k \<noteq> rg_ID (nr_reg s) \<Longrightarrow> node_step pid tm s (s\<lparr>nr_reg := note_found k (nr_reg s), nr_finding := (k, c) # nr_finding s\<rparr>)"
| found: "(k, c) \<in> set (nr_finding s) \<Longrightarrow> node_step pid tm s
    (s\<lparr>nr_finding := remove1 (k, c) (nr_finding s), nr_checks := (if c then [found_device k] else []) @ nr_checks s\<rparr>)"
| lost: "(k, c) \<in> set (nr_finding s) \<Longrightarrow> node_step pid tm s
    (s\<lparr>nr_reg := forget k (nr_reg s), nr_finding := remove1 (k, c) (nr_finding s)\<rparr>)"
| snapshot: "set ds \<subseteq> known_devices (nr_reg s) \<Longrightarrow> \<forall>d \<in> set ds. di_ID d \<noteq> rg_ID (nr_reg s)
    \<Longrightarrow> node_step pid tm s (s\<lparr>nr_checks := ds @ nr_checks s\<rparr>)"
| check: "d \<in> set (nr_checks s) \<Longrightarrow> healthCheckDevice pid tm net now d (nr_reg s) = (e, d', r) \<Longrightarrow> node_step pid tm s
    (s\<lparr>nr_reg := r, nr_checks := remove1 d (nr_checks s), nr_answers := nr_answers s \<union>
       {(di_ID d, x) | x. di_Status d = DeviceStatusDiscovered \<and> confirmed_device pid tm net (di_ID d) = Inr x}\<rparr>)"
| reserve: "node_step pid tm s (s\<lparr>nr_reg := (nr_reg s)\<lparr>rg_reservations := m\<rparr>\<rparr>)"

definition node_reach :: "(bytes \<Rightarrow> bytes option) \<Rightarrow> (bytes \<Rightarrow> bytes option) \<Rightarrow> bytes \<Rightarrow> node_run \<Rightarrow> bool" where
  "node_reach pid tm self s \<longleftrightarrow> (node_step pid tm)\<^sup>*\<^sup>* (node_start self) s"

text \<open>The operations are made of these steps.\<close>

lemma discoverDevice_sections:
  assumes "k \<noteq> rg_ID r" "discoverDevice net sys k relays r = (x, r')"
  shows "(x = Some (Inr (found_device k)) \<and> r' = note_found k r) \<or> (\<exists>e. x = Some (Inl e) \<and> r' = forget k (note_found k r))"
  using assms by (auto simp: discoverDevice_def Let_def split: option.splits)

section \<open>The invariant\<close>

text \<open>A copy of a device agrees with an answer of the peer.\<close>

definition answered_as :: "(bytes \<times> device_info) set \<Rightarrow> device_info \<Rightarrow> bool" where
  "answered_as A d \<longleftrightarrow> (\<exists>x. (di_ID d, x) \<in> A \<and> di_ID x = di_ID d \<and> di_ReferenceToken d = di_ReferenceToken x \<and> di_SysInfo d = di_SysInfo x)"

definition device_known :: "bytes \<Rightarrow> (bytes \<times> device_info) set \<Rightarrow> device_info \<Rightarrow> bool" where
  "device_known self A d \<longleftrightarrow> di_ID d \<noteq> self
     \<and> (di_Status d = DeviceStatusDiscovered \<or> di_Status d = DeviceStatusHealthy \<and> answered_as A d)"

definition node_ok :: "bytes \<Rightarrow> node_run \<Rightarrow> bool" where
  "node_ok self s \<longleftrightarrow> (let r = nr_reg s in rg_ID r = self \<and> rg_discovered r self = None \<and> rg_healthy r self = None
     \<and> (\<forall>k d. rg_discovered r k = Some d \<longrightarrow> di_ID d = k \<and> di_Status d = DeviceStatusDiscovered)
     \<and> (\<forall>k d. rg_healthy r k = Some d \<longrightarrow> di_ID d = k \<and> di_Status d = DeviceStatusHealthy \<and> answered_as (nr_answers s) d)
     \<and> (\<forall>p \<in> set (nr_finding s). fst p \<noteq> self) \<and> (\<forall>d \<in> set (nr_checks s). device_known self (nr_answers s) d))"

lemma statuses_differ [simp]: "DeviceStatusHealthy \<noteq> DeviceStatusDiscovered" "DeviceStatusDiscovered \<noteq> DeviceStatusHealthy"
  by (simp_all add: DeviceStatusHealthy_def DeviceStatusDiscovered_def)

lemma answered_mono: "answered_as A d \<Longrightarrow> A \<subseteq> B \<Longrightarrow> answered_as B d"
  by (auto simp: answered_as_def)

lemma confirmed_id: "confirmed_device pid tm net k = Inr x \<Longrightarrow> di_ID x = k"
  by (auto simp: confirmed_device_def split: sum.splits prod.splits if_splits)

lemma check_ok:
  assumes ok: "node_ok self s" and d: "d \<in> set (nr_checks s)" and st: "healthCheckDevice pid tm net now d (nr_reg s) = (e, d', r)"
  shows "node_ok self (s\<lparr>nr_reg := r, nr_checks := remove1 d (nr_checks s), nr_answers := nr_answers s \<union>
       {(di_ID d, x) | x. di_Status d = DeviceStatusDiscovered \<and> confirmed_device pid tm net (di_ID d) = Inr x}\<rparr>)"
proof -
  let ?A = "nr_answers s \<union> {(di_ID d, x) | x. di_Status d = DeviceStatusDiscovered \<and> confirmed_device pid tm net (di_ID d) = Inr x}"
  have k: "device_known self (nr_answers s) d" using ok d by (simp add: node_ok_def Let_def)
  have mono: "answered_as (nr_answers s) x \<Longrightarrow> answered_as ?A x" for x by (rule answered_mono) auto
  have chk: "\<forall>x \<in> set (remove1 d (nr_checks s)). device_known self ?A x"
    using ok mono set_remove1_subset [of d "nr_checks s"] by (auto simp: node_ok_def device_known_def Let_def)
  show ?thesis
  proof (cases "di_Status d = DeviceStatusDiscovered")
    case True
    show ?thesis
    proof (cases "confirmed_device pid tm net (di_ID d)")
      case (Inl err)
      then show ?thesis using st True ok chk mono
        by (auto simp: healthCheckDevice_def node_ok_def forget_def Let_def split: if_splits)
    next
      case (Inr x)
      have "answered_as ?A (d\<lparr>di_ReferenceToken := di_ReferenceToken x, di_Status := DeviceStatusHealthy, di_SysInfo := di_SysInfo x, di_Timestamp := now\<rparr>)"
        using True Inr confirmed_id [OF Inr] by (auto simp: answered_as_def)
      then show ?thesis using st True Inr ok chk mono k
        by (auto simp: healthCheckDevice_def node_ok_def device_known_def Let_def split: if_splits)
    qed
  next
    case False
    then have h: "di_Status d = DeviceStatusHealthy" "answered_as (nr_answers s) d" "di_ID d \<noteq> self" using k by (auto simp: device_known_def)
    have "answered_as ?A (d\<lparr>di_Timestamp := now\<rparr>)" using mono [OF h(2)] by (simp add: answered_as_def)
    then show ?thesis using st False h ok chk mono
      by (auto simp: healthCheckDevice_def node_ok_def forget_def Let_def split: option.splits if_splits)
  qed
qed

lemma step_ok: "node_step pid tm s s' \<Longrightarrow> node_ok self s \<Longrightarrow> node_ok self s'"
proof (induction rule: node_step.induct)
  case (begins k s c)
  then show ?case by (auto simp: node_ok_def note_found_def found_device_def Let_def split: if_splits)
next
  case (found k c s)
  then show ?case using set_remove1_subset [of "(k, c)" "nr_finding s"]
    by (auto simp: node_ok_def device_known_def found_device_def Let_def)
next
  case (lost k c s)
  then show ?case using set_remove1_subset [of "(k, c)" "nr_finding s"] by (auto simp: node_ok_def forget_def Let_def split: if_splits)
next
  case (snapshot ds s)
  then have "device_known self (nr_answers s) d" if "d \<in> set ds" for d
    using that by (auto simp: node_ok_def known_devices_def device_known_def ran_def Let_def subset_iff)
  then show ?case using snapshot by (auto simp: node_ok_def Let_def)
next
  case (check d s net now e d' r)
  show ?case by (rule check_ok [OF check.prems check.hyps])
next
  case (reserve s m)
  then show ?case by (simp add: node_ok_def Let_def)
qed

lemma reach_ok: "node_reach pid tm self s \<Longrightarrow> node_ok self s"
  unfolding node_reach_def
proof (induction rule: rtranclp_induct)
  case base
  then show ?case by (simp add: node_ok_def node_start_def new_registry_def)
qed (blast intro: step_ok)

text \<open>
  C17: Whatever the order of discoveries, requests and health checks: a device that is listed is not the node itself, is listed under its own
  identifier as healthy, and its reference token and system information are what a peer with this identifier has answered.
\<close>

theorem listed_device_answered:
  assumes "node_reach pid tm self s" "node_GetDevice k (nr_reg s) = Inr d"
  shows "di_ID d = k \<and> k \<noteq> self \<and> di_Status d = DeviceStatusHealthy
    \<and> (\<exists>x. (k, x) \<in> nr_answers s \<and> di_ID x = k \<and> di_ReferenceToken d = di_ReferenceToken x \<and> di_SysInfo d = di_SysInfo x)"
  using reach_ok [OF assms(1)] assms(2)
  by (auto simp: node_ok_def node_GetDevice_def answered_as_def Let_def split: option.splits)

section \<open>One round of checks\<close>

text \<open>What a check leaves of a device.\<close>

definition checked :: "(bytes \<Rightarrow> bytes option) \<Rightarrow> (bytes \<Rightarrow> bytes option) \<Rightarrow> network \<Rightarrow> bytes \<Rightarrow> device_info \<Rightarrow> device_info option" where
  "checked pid tm net now d =
     (if di_Status d = DeviceStatusDiscovered then (case confirmed_device pid tm net (di_ID d) of
          Inl _ \<Rightarrow> None
        | Inr x \<Rightarrow> Some (d\<lparr>di_ReferenceToken := di_ReferenceToken x, di_Status := DeviceStatusHealthy, di_SysInfo := di_SysInfo x, di_Timestamp := now\<rparr>))
      else if nt_Ping net (di_ID d) = None then Some (d\<lparr>di_Timestamp := now\<rparr>) else None)"

definition has_status :: "device_info \<Rightarrow> bool" where
  "has_status d \<longleftrightarrow> di_Status d \<in> {DeviceStatusDiscovered, DeviceStatusHealthy}"

lemma check_effect:
  assumes "has_status d" "di_Status d = DeviceStatusHealthy \<Longrightarrow> rg_discovered r (di_ID d) = None"
  shows "rg_healthy (snd (snd (healthCheckDevice pid tm net now d r))) = (rg_healthy r)(di_ID d := checked pid tm net now d)"
    "rg_discovered (snd (snd (healthCheckDevice pid tm net now d r))) = (rg_discovered r)(di_ID d := None)"
    "rg_ID (snd (snd (healthCheckDevice pid tm net now d r))) = rg_ID r"
  using assms by (auto simp: has_status_def healthCheckDevice_def checked_def forget_def Let_def split: sum.split option.split)

lemma checks_effect:
  assumes "\<forall>d \<in> set ds. has_status d" "\<forall>d \<in> set ds. di_Status d = DeviceStatusHealthy \<longrightarrow> rg_discovered r (di_ID d) = None" "distinct (map di_ID ds)"
    and "r' = fold (\<lambda>d r. snd (snd (healthCheckDevice pid tm net now d r))) ds r"
  shows "rg_healthy r' k = (case find (\<lambda>d. di_ID d = k) ds of None \<Rightarrow> rg_healthy r k | Some d \<Rightarrow> checked pid tm net now d)
    \<and> rg_discovered r' k = (case find (\<lambda>d. di_ID d = k) ds of None \<Rightarrow> rg_discovered r k | Some d \<Rightarrow> None)"
  using assms(1-3) unfolding assms(4)
proof (induction ds arbitrary: r)
  case (Cons d ds)
  let ?r = "snd (snd (healthCheckDevice pid tm net now d r))"
  have e: "rg_healthy ?r = (rg_healthy r)(di_ID d := checked pid tm net now d)" "rg_discovered ?r = (rg_discovered r)(di_ID d := None)"
    using check_effect [of d r] Cons.prems(1,2) by auto
  have "\<not> (\<exists>x. x \<in> set ds \<and> di_ID x = di_ID d)" using Cons.prems(3) by (metis distinct.simps(2) image_eqI list.set_map list.simps(9))
  then have "find (\<lambda>x. di_ID x = di_ID d) ds = None" by (simp add: find_None_iff)
  moreover have "\<forall>x \<in> set ds. di_Status x = DeviceStatusHealthy \<longrightarrow> rg_discovered ?r (di_ID x) = None"
    using Cons.prems(2) e(2) by auto
  ultimately show ?case using Cons.IH [of ?r] Cons.prems e by (auto split: option.splits)
qed simp

text \<open>A list of devices as a node keeps it when no two goroutines work on the same device.\<close>

definition registry_ok :: "registry \<Rightarrow> bool" where
  "registry_ok r \<longleftrightarrow> dom (rg_discovered r) \<inter> dom (rg_healthy r) = {} \<and> rg_discovered r (rg_ID r) = None \<and> rg_healthy r (rg_ID r) = None
     \<and> (\<forall>k d. rg_discovered r k = Some d \<longrightarrow> di_ID d = k \<and> di_Status d = DeviceStatusDiscovered)
     \<and> (\<forall>k d. rg_healthy r k = Some d \<longrightarrow> di_ID d = k \<and> di_Status d = DeviceStatusHealthy)"

lemma known_unique:
  assumes "registry_ok r" "d \<in> known_devices r" "e \<in> known_devices r" "di_ID d = di_ID e"
  shows "d = e"
proof -
  have u: "x = y" if "rg_discovered r k = Some x" "rg_healthy r k = Some y" for k x y
    using assms(1) that by (auto simp: registry_ok_def)
  show ?thesis using assms u by (auto simp: registry_ok_def known_devices_def ran_def)
qed

text \<open>
  C18: A round of health checks that is not disturbed, in whatever order: afterwards no device is only discovered, and the devices listed
  are those that were listed and answered the ping, and those that were discovered and answered with device information for their own
  identifier, which is stored.
\<close>

theorem health_round:
  assumes "registry_ok r" "set ds = known_devices r" "distinct ds"
    and "r' = UpdateDevices pid tm net now ds r"
  shows "rg_discovered r' = Map.empty
    \<and> (\<forall>k. rg_healthy r' k = (case rg_healthy r k of
        Some d \<Rightarrow> if nt_Ping net k = None then Some (d\<lparr>di_Timestamp := now\<rparr>) else None
      | None \<Rightarrow> (case rg_discovered r k of
          None \<Rightarrow> None
        | Some d \<Rightarrow> (case confirmed_device pid tm net k of
            Inl _ \<Rightarrow> None
          | Inr x \<Rightarrow> Some (d\<lparr>di_ReferenceToken := di_ReferenceToken x, di_Status := DeviceStatusHealthy,
              di_SysInfo := di_SysInfo x, di_Timestamp := now\<rparr>)))))"
proof -
  have st: "has_status d" "rg_discovered r (di_ID d) = Some d \<and> rg_healthy r (di_ID d) = None \<and> di_Status d = DeviceStatusDiscovered
      \<or> rg_healthy r (di_ID d) = Some d \<and> rg_discovered r (di_ID d) = None \<and> di_Status d = DeviceStatusHealthy" if "d \<in> set ds" for d
    using that assms(1,2) by (auto simp: known_devices_def ran_def has_status_def registry_ok_def)
  have "di_ID d \<noteq> rg_ID r" if "d \<in> set ds" for d
  proof
    assume "di_ID d = rg_ID r"
    then show False using st(2) [OF that] assms(1) unfolding registry_ok_def by simp
  qed
  then have "filter (\<lambda>d. di_ID d \<noteq> rg_ID r) ds = ds" by (simp add: filter_True)
  then have r': "r' = fold (\<lambda>d r. snd (snd (healthCheckDevice pid tm net now d r))) ds r"
    by (simp add: assms(4) UpdateDevices_def)
  have "inj_on di_ID (set ds)" using known_unique [OF assms(1)] assms(2) by (auto intro!: inj_onI)
  then have dist: "distinct (map di_ID ds)" using assms(3) by (simp add: distinct_map)
  have eff: "rg_healthy r' k = (case find (\<lambda>d. di_ID d = k) ds of None \<Rightarrow> rg_healthy r k | Some d \<Rightarrow> checked pid tm net now d)
    \<and> rg_discovered r' k = (case find (\<lambda>d. di_ID d = k) ds of None \<Rightarrow> rg_discovered r k | Some d \<Rightarrow> None)" for k
  proof (rule checks_effect [OF _ _ dist r'])
    show "\<forall>d \<in> set ds. has_status d" using st(1) by blast
    show "\<forall>d \<in> set ds. di_Status d = DeviceStatusHealthy \<longrightarrow> rg_discovered r (di_ID d) = None"
    proof (intro ballI impI)
      fix d assume "d \<in> set ds" "di_Status d = DeviceStatusHealthy"
      then show "rg_discovered r (di_ID d) = None" using st(2) [of d] by simp
    qed
  qed
  have one: "rg_discovered r' k = None \<and> rg_healthy r' k = (case rg_healthy r k of
        Some d \<Rightarrow> if nt_Ping net k = None then Some (d\<lparr>di_Timestamp := now\<rparr>) else None
      | None \<Rightarrow> (case rg_discovered r k of None \<Rightarrow> None | Some d \<Rightarrow> checked pid tm net now d))" for k
  proof (cases "find (\<lambda>d. di_ID d = k) ds")
    case None
    then have n: "rg_discovered r k = None" "rg_healthy r k = None"
      using assms(1,2) by (auto simp: find_None_iff known_devices_def ran_def registry_ok_def) (metis not_Some_eq)+
    then show ?thesis using eff [of k] None by simp
  next
    case (Some d)
    then have "d \<in> set ds" "di_ID d = k" by (auto simp: find_Some_iff)
    then show ?thesis using eff [of k] Some st(2) [of d] by (auto simp: checked_def)
  qed
  have "checked pid tm net now d = (case confirmed_device pid tm net k of Inl _ \<Rightarrow> None
      | Inr x \<Rightarrow> Some (d\<lparr>di_ReferenceToken := di_ReferenceToken x, di_Status := DeviceStatusHealthy, di_SysInfo := di_SysInfo x, di_Timestamp := now\<rparr>))"
    if "rg_discovered r k = Some d" for k d
    using that assms(1) by (simp add: registry_ok_def checked_def)
  then show ?thesis using one by (auto split: option.split)
qed

section \<open>Checking a node that runs this program\<close>

definition echo_result :: "conn \<Rightarrow> bytes result" where
  "echo_result c = (case GetEcho_reply c of Done text \<Rightarrow> Inr text | Fail e \<Rightarrow> Inl e | Blocked \<Rightarrow> Inl CtxErr)"

text \<open>
  C19: A node that has found another one and checks its health over the echo protocol, with the handler of this program at the other end
  and any chunking in both directions, lists it as healthy with the reference token and the system information of that node.
\<close>

theorem checked_node_is_listed:
  assumes "echo_call (Inr c) StellarEchoDeviceInfo = Inr c1" "wplan c = []"
    and "arrived s (written_since c c1)" "wplan s = []" "en_SysInfo n = Inr i" "device_ok pid tm (own_device n i)"
    and "doStellarEcho n s = (Done (), s')" "arrived c2 (written_since s s')" "fin c2 = Some EOF" "nt_GetEcho net (en_ID n) = echo_result c2"
  shows "\<exists>d r'. healthCheckDevice pid tm net now (found_device (en_ID n)) r = (None, d, r')
    \<and> node_GetDevice (en_ID n) r' = Inr d \<and> rg_discovered r' (en_ID n) = None
    \<and> di_Status d = DeviceStatusHealthy \<and> di_ReferenceToken d = en_ReferenceToken n \<and> di_SysInfo d = i \<and> di_Timestamp d = now
    \<and> (\<forall>k. k \<noteq> en_ID n \<longrightarrow> rg_healthy r' k = rg_healthy r k)"
proof -
  obtain tx where t: "GetEcho_reply c2 = Done tx" "unmarshal (device_fields pid tm) tx no_device = (own_device n i, True)"
    using device_info_exchange [OF assms(1-6)] assms(7-9) by fastforce
  then have "confirmed_device pid tm net (en_ID n) = Inr (own_device n i)"
    using assms(10) by (simp add: confirmed_device_def echo_result_def own_device_def)
  then show ?thesis
    by (simp add: healthCheckDevice_def found_device_def own_device_def node_GetDevice_def Let_def)
qed

section \<open>Examples\<close>

definition sample_sys :: system_information where
  "sample_sys = \<lparr>si_Platform = ''linux'', si_CPU = ''c'', si_GPU = Some [], si_RAM = 16\<rparr>"

definition sample_peer :: echo_node where
  "sample_peer = \<lparr>en_ID = ''p'', en_ReferenceToken = ''t'', en_SysInfo = Inr sample_sys\<rparr>"

text \<open>A network on which all peers answer with the information of the sample.\<close>

definition sample_network :: network where
  "sample_network = \<lparr>nt_Connect = (\<lambda>_. None), nt_Connected = (\<lambda>_. True), nt_Addrs = (\<lambda>_. []), nt_Circuit = (\<lambda>_ _. True),
     nt_ConnectVia = (\<lambda>_ _ _. None), nt_Reserve = (\<lambda>_. None), nt_Ping = (\<lambda>_. None),
     nt_GetEcho = (\<lambda>_. Inr (json_text (device_to_json (own_device sample_peer sample_sys))))\<rparr>"

lemma sample_device_ok: "device_ok Some Some (own_device sample_peer sample_sys)"
  by (simp add: device_ok_def own_device_def sample_peer_def sample_sys_def no_device_def system_information_ok_def valid_utf8_ascii zero_time_def)

lemma sample_confirmed: "confirmed_device Some Some sample_network ''p'' = Inr (own_device sample_peer sample_sys)"
  by (simp add: confirmed_device_def sample_network_def device_decode [OF sample_device_ok])
     (simp add: own_device_def sample_peer_def)

theorem checked_node_is_listed_witness:
  "\<exists>d r'. healthCheckDevice Some Some sample_network ''now'' (found_device ''p'') (new_registry ''me'') = (None, d, r')
     \<and> node_GetDevice ''p'' r' = Inr d \<and> di_SysInfo d = sample_sys"
proof -
  let ?s = "open_stream [''device'', ''Info'' @ [newline]]"
  obtain c1 where c1: "echo_call (Inr (open_stream [])) StellarEchoDeviceInfo = Inr c1" "written_since (open_stream []) c1 = ''deviceInfo'' @ [newline]"
    by (simp add: echo_call_def open_stream_def conn_write_def written_since_def StellarEchoDeviceInfo_def)
  have a: "arrived ?s (written_since (open_stream []) c1)" "wplan ?s = []" "wplan (open_stream []) = []" "en_SysInfo sample_peer = Inr sample_sys"
    unfolding c1(2) by (simp_all add: arrived_def open_stream_def conn_pending_def sample_peer_def)
  obtain s' where s': "doStellarEcho sample_peer ?s = (Done (), s')"
      "\<forall>c2. arrived c2 (written_since ?s s') \<and> fin c2 = Some EOF \<longrightarrow>
        (\<exists>text. GetEcho_reply c2 = Done text \<and> unmarshal (device_fields Some Some) text no_device = (own_device sample_peer sample_sys, True))"
    using device_info_exchange [OF c1(1) a(3,1,2,4) sample_device_ok] by blast
  let ?c2 = "open_stream [written_since ?s s']"
  have c2: "arrived ?c2 (written_since ?s s')" "fin ?c2 = Some EOF"
    by (simp_all add: arrived_def) (simp_all add: open_stream_def conn_pending_def)
  let ?net = "sample_network\<lparr>nt_GetEcho := \<lambda>_. echo_result ?c2\<rparr>"
  have "nt_GetEcho ?net (en_ID sample_peer) = echo_result ?c2" by simp
  note l = checked_node_is_listed [OF c1(1) a(3,1,2,4) sample_device_ok s'(1) c2 this, of "''now''" "new_registry ''me''"]
  have "healthCheckDevice Some Some ?net ''now'' (found_device ''p'') (new_registry ''me'')
      = healthCheckDevice Some Some sample_network ''now'' (found_device ''p'') (new_registry ''me'')"
  proof -
    obtain tx where t: "GetEcho_reply ?c2 = Done tx" "unmarshal (device_fields Some Some) tx no_device = (own_device sample_peer sample_sys, True)"
      using s'(2) c2 by blast
    have "confirmed_device Some Some ?net ''p'' = Inr (own_device sample_peer sample_sys)"
      using t by (simp add: confirmed_device_def echo_result_def) (simp add: own_device_def sample_peer_def)
    then show ?thesis by (simp add: healthCheckDevice_def found_device_def sample_confirmed Let_def)
  qed
  then show ?thesis using l by (auto simp: sample_peer_def)
qed

definition sample_node_run :: node_run where
  "sample_node_run = \<lparr>nr_reg = snd (snd (healthCheckDevice Some Some sample_network ''now'' (found_device ''p'') (note_found ''p'' (new_registry ''me'')))),
     nr_finding = [], nr_checks = [], nr_answers = {(''p'', own_device sample_peer sample_sys)}\<rparr>"

lemma sample_node_reach: "node_reach Some Some ''me'' sample_node_run"
proof -
  let ?P = "node_step Some Some"
  let ?r = "note_found ''p'' (new_registry ''me'')"
  let ?s1 = "\<lparr>nr_reg = ?r, nr_finding = [(''p'', True)], nr_checks = [], nr_answers = {}\<rparr>"
  let ?s2 = "\<lparr>nr_reg = ?r, nr_finding = [], nr_checks = [found_device ''p''], nr_answers = {}\<rparr>"
  have "?P (node_start ''me'') ?s1"
    using node_step.begins [of "''p''" "node_start ''me''" Some Some True] by (simp add: node_start_def new_registry_def)
  moreover have "?P ?s1 ?s2" using node_step.found [of "''p''" True ?s1 Some Some] by simp
  moreover have "?P ?s2 sample_node_run"
  proof -
    obtain e d r where h: "healthCheckDevice Some Some sample_network ''now'' (found_device ''p'') ?r = (e, d, r)"
      by (metis prod_cases3)
    show ?thesis using node_step.check [of "found_device ''p''" ?s2 Some Some sample_network "''now''" e d r] h
      by (simp add: sample_node_run_def found_device_def sample_confirmed)
  qed
  ultimately show ?thesis unfolding node_reach_def
    by (meson converse_rtranclp_into_rtranclp rtranclp.rtrancl_refl)
qed

theorem listed_device_answered_witness:
  "\<exists>d. node_GetDevice ''p'' (nr_reg sample_node_run) = Inr d \<and> di_Status d = DeviceStatusHealthy"
proof -
  obtain d where d: "node_GetDevice ''p'' (nr_reg sample_node_run) = Inr d"
    by (simp add: sample_node_run_def healthCheckDevice_def found_device_def sample_confirmed node_GetDevice_def Let_def)
  with listed_device_answered [OF sample_node_reach d] show ?thesis by blast
qed

theorem health_round_witness:
  "rg_discovered (UpdateDevices Some Some sample_network ''now'' [found_device ''p''] (note_found ''p'' (new_registry ''me''))) = Map.empty"
proof -
  have "registry_ok (note_found ''p'' (new_registry ''me''))"
    by (auto simp: registry_ok_def note_found_def new_registry_def found_device_def)
  moreover have "set [found_device ''p''] = known_devices (note_found ''p'' (new_registry ''me''))"
    by (auto simp: known_devices_def note_found_def new_registry_def)
  ultimately show ?thesis using health_round [OF _ _ _ refl] by auto
qed

end
