(* ===== verification/Conda_Env.thy ===== *)
theory Conda_Env
  imports Executions Config Go_Runes
begin

text \<open>
  Finding conda and reading its output: \<open>p2p/protocols/compute/service/conda/infrastructure.go\<close>, and the readers of
  \<open>conda env list\<close> in \<open>operations.go\<close>.  Paths are joined as on Unix, for Windows too.
\<close>

section \<open>Words of a line\<close>

text \<open>\<open>strings.Fields\<close>: the parts of a string between white space.  \<open>cur\<close> is the word that has begun.\<close>

function fields_from :: "bytes \<Rightarrow> bytes \<Rightarrow> bytes list" where
  "fields_from cur s =
     (if s = [] then (if cur = [] then [] else [cur])
      else (let r = take (max 1 (utf8_len s)) s in
        if IsSpace r then (if cur = [] then [] else [cur]) @ fields_from [] (after_rune s)
        else fields_from (cur @ r) (after_rune s)))"
  by pat_completeness auto
termination by (relation "measure (length \<circ> snd)") auto

declare fields_from.simps [simp del]

definition Fields :: "bytes \<Rightarrow> bytes list" where
  "Fields s = fields_from [] s"

section \<open>The list of environments\<close>

text \<open>The environment a line names: the first word without a mark and the last one.\<close>

definition env_line :: "bytes \<Rightarrow> (bytes \<times> bytes) option" where
  "env_line l = (let line = TrimSpace l in
     if line = [] \<or> prefix ''#'' line then None
     else (let parts = Fields line in
       if length parts < 2 then None else Some (trim_prefix ''*'' (parts ! 0), last parts)))"

text \<open>\<open>GetEnvironment\<close> takes the first line that names the environment.\<close>

fun find_env :: "bytes \<Rightarrow> bytes list \<Rightarrow> bytes option" where
  "find_env name [] = None"
| "find_env name (l # ls) = (case env_line l of
      None \<Rightarrow> find_env name ls
    | Some (envName, envPath) \<Rightarrow> if envName = name then Some envPath else find_env name ls)"

definition parse_env :: "bytes \<Rightarrow> bytes \<Rightarrow> bytes option" where
  "parse_env name output = find_env name (split_on CHR 0x0A output)"

text \<open>\<open>ParseEnvListOutput\<close> keeps the last one, and only if its path has a slash.\<close>

definition add_env :: "bytes \<Rightarrow> (bytes \<rightharpoonup> bytes) \<Rightarrow> (bytes \<rightharpoonup> bytes)" where
  "add_env l envs = (case env_line l of
      None \<Rightarrow> envs
    | Some (envName, envPath) \<Rightarrow> if \<not> prefix ''/'' envPath \<and> CHR ''/'' \<notin> set envPath then envs else envs(envName \<mapsto> envPath))"

definition ParseEnvListOutput :: "bytes \<Rightarrow> bytes \<rightharpoonup> bytes" where
  "ParseEnvListOutput output = fold add_env (split_on CHR 0x0A output) Map.empty"

section \<open>Finding conda\<close>

text \<open>
  The system: the start environment, \<open>runtime.GOARCH\<close>, the commands that \<open>exec.LookPath\<close> finds, the variable \<open>USERPROFILE\<close>.
\<close>

record conda_host =
  cy_start :: start_env
  cy_GOARCH :: bytes
  cy_LookPath :: "bytes \<Rightarrow> bool"
  cy_USERPROFILE :: bytes

definition CONDA_VERSION :: bytes where "CONDA_VERSION = ''25.3.1-1''"

definition GetCondaDownloadPath :: "conda_host \<Rightarrow> filesys \<Rightarrow> bytes result \<times> filesys" where
  "GetCondaDownloadPath y fs = (case StellarPath (cy_start y) of
      Inl e \<Rightarrow> (Inl e, fs)
    | Inr appDir \<Rightarrow> (let condaPath = path_Join [appDir, ''conda''] in
        (case os_MkdirAll condaPath fs of
           (Some e, fs) \<Rightarrow> (Inl (Wrap ''failed to create conda directory'' e), fs)
         | (None, fs) \<Rightarrow> (Inr condaPath, fs))))"

text \<open>The candidates in a directory, with the path that is returned when the command exists.\<close>

definition conda_candidates :: "conda_host \<Rightarrow> bytes \<Rightarrow> (bytes \<times> bytes) list" where
  "conda_candidates y condaDir =
     (if se_GOOS (cy_start y) = ''windows'' then
        map (\<lambda>p. (p, p))
          [path_Join [condaDir, ''Scripts'', ''conda.exe''], path_Join [condaDir, ''_conda.exe''],
           path_Join [cy_USERPROFILE y, ''anaconda3'', ''Scripts'', ''conda.exe''],
           path_Join [cy_USERPROFILE y, ''Miniconda3'', ''Scripts'', ''conda.exe''],
           path_Join [cy_USERPROFILE y, ''AppData'', ''Local'', ''Continuum'', ''anaconda3'', ''Scripts'', ''conda.exe''],
           path_Join [cy_USERPROFILE y, ''AppData'', ''Local'', ''miniconda3'', ''Scripts'', ''conda.exe''],
           ''conda'']
      else
        [(path_Join [condaDir, ''bin'', ''conda''], path_Join [condaDir, ''bin'', ''conda'']),
         (path_Join [condaDir, ''_conda''], path_Join [condaDir, ''bin'', ''conda''])])"

definition FindCondaPath :: "conda_host \<Rightarrow> filesys \<Rightarrow> bytes result \<times> filesys" where
  "FindCondaPath y fs = (case GetCondaDownloadPath y fs of (dir, fs) \<Rightarrow>
     (let local = (case dir of
          Inl _ \<Rightarrow> None
        | Inr condaDir \<Rightarrow> find (\<lambda>c. cy_LookPath y (fst c)) (conda_candidates y condaDir))
      in (case local of
            Some (_, path) \<Rightarrow> (Inr path, fs)
          | None \<Rightarrow> if cy_LookPath y ''conda'' then (Inr ''conda'', fs) else (Inl (Err ''conda executable not found''), fs))))"

definition DownloadCondaInstaller :: "conda_host \<Rightarrow> bytes \<Rightarrow> bytes \<Rightarrow> bytes result" where
  "DownloadCondaInstaller y pythonVersion condaVersion =
     (let url = ''https://repo.anaconda.com/miniconda/Miniconda3-'' @ pythonVersion @ ''_'' @ condaVersion @ ''-'';
          os = se_GOOS (cy_start y); arch = cy_GOARCH y;
          no_arch = Inl (Err (''get download url failed due to unsupported architecture: '' @ arch))
      in if os = ''darwin'' then
           (if arch = ''amd64'' then Inr (url @ ''MacOSX-x86_64.sh'')
            else if arch = ''arm'' \<or> arch = ''arm64'' then Inr (url @ ''MacOSX-arm64.sh'') else no_arch)
         else if os = ''linux'' then
           (if arch = ''amd64'' then Inr (url @ ''Linux-x86_64.sh'')
            else if arch = ''arm'' \<or> arch = ''arm64'' then Inr (url @ ''Linux-aarch64.sh'') else no_arch)
         else if os = ''windows'' then
           (if arch = ''amd64'' then Inr (url @ ''Windows-x86_64.exe'') else no_arch)
         else Inl (Err (''get download url failed due to unsupported OS: '' @ os)))"

section \<open>The version of conda\<close>

text \<open>
  \<open>GetCondaVersion\<close> of a path: the leftmost three numbers joined by dots in the output of the command, which the system runs.
\<close>

definition version_at :: "bytes \<Rightarrow> bytes option" where
  "version_at s = (let a = takeWhile is_digit s; s1 = drop (length a) s in
     if a = [] \<or> \<not> prefix ''.'' s1 then None
     else (let b = takeWhile is_digit (tl s1); s2 = drop (length b) (tl s1) in
       if b = [] \<or> \<not> prefix ''.'' s2 then None
       else (let c = takeWhile is_digit (tl s2) in if c = [] then None else Some (a @ ''.'' @ b @ ''.'' @ c))))"

fun find_version :: "bytes \<Rightarrow> bytes option" where
  "find_version [] = None"
| "find_version (x # s) = (case version_at (x # s) of Some v \<Rightarrow> Some v | None \<Rightarrow> find_version s)"

definition GetCondaVersion_of :: "bytes result \<Rightarrow> bytes result" where
  "GetCondaVersion_of output = (case output of
      Inl e \<Rightarrow> Inl (Wrap ''failed to run conda --version'' e)
    | Inr out \<Rightarrow> (case find_version out of None \<Rightarrow> Inl (Err ''version not supported'') | Some v \<Rightarrow> Inr v))"

definition infra_CommandPath :: "conda_host \<Rightarrow> (bytes \<Rightarrow> bytes result) \<Rightarrow> filesys \<Rightarrow> bytes result \<times> filesys" where
  "infra_CommandPath y version fs = (case FindCondaPath y fs of
      (Inl e, fs) \<Rightarrow> (Inl e, fs)
    | (Inr condaPath, fs) \<Rightarrow> (case GetCondaVersion_of (version condaPath) of
        Inl e \<Rightarrow> (Inl e, fs)
      | Inr _ \<Rightarrow> (Inr condaPath, fs)))"

text \<open>\<open>CondaPath\<close> is a variable of the package; \<open>UpdateCondaPath\<close> gives its new value.\<close>

definition UpdateCondaPath :: "conda_host \<Rightarrow> (bytes \<Rightarrow> bytes result) \<Rightarrow> filesys \<Rightarrow> bytes \<Rightarrow> bool \<times> bytes \<times> filesys" where
  "UpdateCondaPath y version fs path = (case infra_CommandPath y version fs of
      (Inl _, fs) \<Rightarrow> (False, path, fs)
    | (Inr p, fs) \<Rightarrow> (True, p, fs))"

section \<open>Reading what conda prints\<close>

lemma fields_rune:
  assumes "is_rune r"
  shows "fields_from cur (r @ s) = (if IsSpace r then (if cur = [] then [] else [cur]) @ fields_from [] s else fields_from (cur @ r) s)"
proof -
  have "r \<noteq> []" "max 1 (utf8_len (r @ s)) = length r"
    using assms utf8_len_rune [OF assms, of s] by (auto simp: is_rune_def max_def Suc_le_eq)
  then show ?thesis using assms by (subst fields_from.simps) simp
qed

lemma space_is_space: "IsSpace '' ''"
  by (simp add: IsSpace_def space_runes_def)

lemma fields_gap: "0 < n \<Longrightarrow> fields_from cur (replicate n CHR 0x20 @ s) = (if cur = [] then [] else [cur]) @ fields_from [] s"
proof (induction n arbitrary: cur)
  case (Suc n)
  have "fields_from cur ([CHR 0x20] @ (replicate n CHR 0x20 @ s)) = (if cur = [] then [] else [cur]) @ fields_from [] (replicate n CHR 0x20 @ s)"
    using space_is_space by (subst fields_rune) simp_all
  then show ?case using Suc.IH [of "[]"] by (cases n) auto
qed simp

text \<open>A word: not empty, valid, without white space.\<close>

definition env_word :: "bytes \<Rightarrow> bool" where
  "env_word w \<longleftrightarrow> w \<noteq> [] \<and> valid_utf8 w \<and> (\<forall>r \<in> set (runes w). \<not> IsSpace r)"

lemma fields_word: "env_word w \<Longrightarrow> fields_from cur (w @ s) = fields_from (cur @ w) s"
proof -
  assume w: "env_word w"
  have "\<forall>r \<in> set rs. is_rune r \<and> \<not> IsSpace r \<Longrightarrow> fields_from cur (concat rs @ s) = fields_from (cur @ concat rs) s" for rs
    by (induction rs arbitrary: cur) (simp_all add: fields_rune)
  then show ?thesis using valid_runes [of w] w by (metis env_word_def)
qed

lemma fields_end: "cur \<noteq> [] \<Longrightarrow> fields_from cur [] = [cur]"
  by (subst fields_from.simps) simp

lemma env_word_ends:
  assumes "env_word w"
  shows "\<exists>a b. is_rune a \<and> \<not> IsSpace a \<and> prefix a w \<and> is_rune b \<and> \<not> IsSpace b \<and> suffix b w"
proof -
  obtain rs where rs: "concat rs = w" "\<forall>r \<in> set rs. is_rune r \<and> \<not> IsSpace r"
    using valid_runes [of w] assms by (auto simp: env_word_def)
  then have "rs \<noteq> []" using assms by (auto simp: env_word_def)
  then have "prefix (hd rs) w" "suffix (last rs) w" "hd rs \<in> set rs" "last rs \<in> set rs"
    using rs(1) by (auto simp: prefix_def suffix_def) (metis concat.simps(2) list.collapse, metis append_butlast_last_id concat.simps concat_append append_Nil2)
  then show ?thesis using rs(2) by blast
qed

text \<open>A line of \<open>conda env list\<close>: the name in a column, the mark of the active environment, the path.\<close>

type_synonym conda_env = "bytes \<times> bool \<times> bytes"

definition env_text :: "nat \<Rightarrow> conda_env \<Rightarrow> bytes" where
  "env_text col e = (case e of (name, active, path) \<Rightarrow>
     name @ replicate (col - length name) CHR 0x20 @ ''  '' @ (if active then ''*'' else '' '') @ ''  '' @ path)"

definition conda_env_list :: "nat \<Rightarrow> conda_env list \<Rightarrow> bytes" where
  "conda_env_list col es = join_with [CHR 0x0A] ([''# conda environments:'', ''#''] @ map (env_text col) es @ [[], []])"

definition conda_env_ok :: "conda_env \<Rightarrow> bool" where
  "conda_env_ok e = (case e of (name, active, path) \<Rightarrow> env_word name \<and> \<not> prefix ''#'' name \<and> \<not> prefix ''*'' name \<and> env_word path)"

lemma env_text_fields:
  assumes "env_word name" "env_word path"
  shows "Fields (env_text col (name, active, path) @ t) = (if active then [name, ''*''] else [name]) @ fields_from path t"
proof -
  have p: "fields_from [] (path @ t) = fields_from path t" "name \<noteq> []"
    using fields_word [OF assms(2), of "[]" t] assms by (simp_all add: env_word_def)
  have g: "replicate k CHR 0x20 @ ''  '' @ t = replicate (Suc (Suc k)) CHR 0x20 @ t" for k t
    by (simp add: replicate_app_Cons_same)
  have star: "fields_from [] (''*'' @ t) = fields_from ''*'' t" for t
    using fields_rune [of "''*''" "[]" t] by (simp add: IsSpace_def space_runes_def)
  have two: "fields_from cur (''  '' @ t) = (if cur = [] then [] else [cur]) @ fields_from [] t" for cur t
    using fields_gap [of 2 cur t] by (simp add: numeral_2_eq_2)
  have one: "fields_from cur ('' '' @ t) = (if cur = [] then [] else [cur]) @ fields_from [] t" for cur t
    using fields_gap [of 1 cur t] by simp
  show ?thesis
    unfolding Fields_def env_text_def prod.case append_assoc fields_word [OF assms(1)] g fields_gap [OF zero_less_Suc]
    using p by (cases active) (simp_all add: star two one del: append_Cons append_Nil)
qed

text \<open>A line whose path continues after a space, or not.\<close>

lemma env_line_fields:
  assumes "conda_env_ok (name, active, path)" "t = [] \<or> (\<exists>b. t = '' '' @ b \<and> env_word b)"
  shows "env_line (env_text col (name, active, path) @ t) = Some (name, if t = [] then path else tl t)"
proof -
  have w: "env_word name" "env_word path" and n: "\<not> prefix ''#'' name" "\<not> prefix ''*'' name" using assms(1) by (simp_all add: conda_env_ok_def)
  obtain a where a: "is_rune a" "\<not> IsSpace a" "prefix a name" using env_word_ends [OF w(1)] by blast
  let ?l = "env_text col (name, active, path) @ t"
  obtain b where b: "is_rune b" "\<not> IsSpace b" "suffix b ?l"
  proof (cases "t = []")
    case True
    then show ?thesis using env_word_ends [OF w(2)] that by (auto simp: env_text_def suffix_def)
  next
    case False
    then obtain b where b: "t = '' '' @ b" "env_word b" using assms(2) by blast
    show ?thesis using env_word_ends [OF b(2)] that b(1) by (auto simp: suffix_def)
  qed
  have "prefix a ?l" using a(3) by (auto simp: env_text_def prefix_def)
  then have t: "TrimSpace ?l = ?l" using TrimSpace_id a b by blast
  have "name \<noteq> []" "path \<noteq> []" using w by (simp_all add: env_word_def)
  then have "?l \<noteq> []" "\<not> prefix ''#'' ?l" using n(1) by (auto simp: env_text_def prefix_Cons) (cases name; auto)+
  moreover have "fields_from path t = (if t = [] then [path] else [path, tl t])"
  proof (cases "t = []")
    case False
    then obtain b where b: "t = '' '' @ b" "env_word b" using assms(2) by blast
    then have "b \<noteq> []" by (simp add: env_word_def)
    then show ?thesis using b \<open>path \<noteq> []\<close> fields_gap [of 1 path b] fields_word [OF b(2), of "[]" "[]"] by (simp add: fields_end)
  qed (simp add: fields_end \<open>path \<noteq> []\<close>)
  ultimately show ?thesis using n(2) by (simp add: env_line_def t env_text_fields [OF w] trim_prefix_def Let_def)
qed

lemma env_text_line: "conda_env_ok (name, active, path) \<Longrightarrow> env_line (env_text col (name, active, path)) = Some (name, path)"
  using env_line_fields [of name active path "[]" col] by simp

text \<open>A path with a space in it is read as what follows the space.\<close>

lemma env_path_with_space:
  assumes "conda_env_ok (name, active, a)" "env_word b"
  shows "env_line (env_text col (name, active, a @ '' '' @ b)) = Some (name, b)"
  using env_line_fields [OF assms(1), of "'' '' @ b" col] assms(2) by (simp add: env_text_def)

lemma newline_rune: "is_rune [CHR 0x0A]" "IsSpace [CHR 0x0A]"
  by (simp_all add: IsSpace_def space_runes_def)

lemma env_word_no_newline: "env_word w \<Longrightarrow> CHR 0x0A \<notin> set w"
proof
  assume w: "env_word w" "CHR 0x0A \<in> set w"
  then obtain r where r: "r \<in> set (runes w)" "CHR 0x0A \<in> set r" "is_rune r" using valid_runes [of w]
    by (metis env_word_def UN_E set_concat)
  obtain c cs where c: "r = c # cs" "list_all utf8_cont cs" "cs \<noteq> [] \<longrightarrow> 128 \<le> (of_char c :: nat)" using rune_shape [OF r(3)] by blast
  have "\<not> utf8_cont CHR 0x0A" by (simp add: utf8_cont_def)
  then have "c = CHR 0x0A" using r(2) c(1,2) by (auto simp: list_all_iff)
  then have "r = [CHR 0x0A]" using c by (cases cs) auto
  then show False using w(1) r(1) newline_rune by (auto simp: env_word_def)
qed

lemma env_list_lines:
  assumes "\<forall>e \<in> set es. conda_env_ok e"
  shows "split_on CHR 0x0A (conda_env_list col es) = [''# conda environments:'', ''#''] @ map (env_text col) es @ [[], []]"
  unfolding conda_env_list_def
proof (rule split_join)
  have "CHR 0x0A \<notin> set (env_text col e)" if "e \<in> set es" for e
    using assms that env_word_no_newline by (cases e) (auto simp: env_text_def conda_env_ok_def)
  then show "\<forall>w \<in> set ([''# conda environments:'', ''#''] @ map (env_text col) es @ [[], []]). CHR 0x0A \<notin> set w" by auto
qed simp

lemma env_line_blank: "env_line [] = None" "env_line ''#'' = None" "env_line ''# conda environments:'' = None"
proof -
  have t: "TrimSpace ''#'' = ''#''" "TrimSpace ''# conda environments:'' = ''# conda environments:''"
    by (rule TrimSpace_id [of "''#''" "''#''"], simp_all add: IsSpace_def space_runes_def)
      (rule TrimSpace_id [of "''#''" "'':''"], simp_all add: IsSpace_def space_runes_def suffix_def)
  show "env_line ''#'' = None" "env_line ''# conda environments:'' = None" by (simp_all add: env_line_def t)
  show "env_line [] = None" by (simp add: env_line_def TrimSpace_def)
qed

definition env_pairs :: "conda_env list \<Rightarrow> (bytes \<times> bytes) list" where
  "env_pairs es = map (\<lambda>(name, active, path). (name, path)) es"

lemma find_env_append: "find_env name (ls @ ms) = (case find_env name ls of None \<Rightarrow> find_env name ms | r \<Rightarrow> r)"
  by (induction ls) (auto split: option.split)

lemma find_env_map:
  "\<forall>e \<in> set es. conda_env_ok e \<Longrightarrow> find_env name (map (env_text col) es) = map_of (env_pairs es) name"
  by (induction es) (auto simp: env_pairs_def env_text_line)

lemma fold_add_env:
  "\<forall>e \<in> set es. conda_env_ok e \<and> CHR ''/'' \<in> set (snd (snd e)) \<Longrightarrow>
   fold add_env (map (env_text col) es) m = m ++ map_of (rev (env_pairs es))"
  by (induction es arbitrary: m) (auto simp: env_pairs_def add_env_def env_text_line map_add_def fun_eq_iff split: option.split)

lemma map_of_rev_same: "distinct (map fst xs) \<Longrightarrow> map_of (rev xs) = map_of xs"
  by (rule map_of_eqI) (auto simp: rev_map [symmetric] map_of_eq_Some_iff)

text \<open>
  The list of environments that conda prints, with any width of its columns, is read back: looking up a name gives the path of
  the first environment of this name, the table of all environments holds the last one, and both agree when the names differ.
\<close>

theorem env_list_roundtrip:
  assumes "\<forall>e \<in> set es. conda_env_ok e \<and> CHR ''/'' \<in> set (snd (snd e))"
  shows "(\<forall>name. parse_env name (conda_env_list col es) = map_of (env_pairs es) name)
    \<and> ParseEnvListOutput (conda_env_list col es) = map_of (rev (env_pairs es))
    \<and> (distinct (map fst (env_pairs es)) \<longrightarrow> ParseEnvListOutput (conda_env_list col es) = (\<lambda>name. parse_env name (conda_env_list col es)))"
proof -
  have l: "split_on CHR 0x0A (conda_env_list col es) = [''# conda environments:'', ''#''] @ map (env_text col) es @ [[], []]"
    using assms by (intro env_list_lines) blast
  have p: "parse_env name (conda_env_list col es) = map_of (env_pairs es) name" for name
    using find_env_map [of es name col] assms
    by (simp add: parse_env_def l find_env_append env_line_blank split: option.split)
  moreover have q: "ParseEnvListOutput (conda_env_list col es) = map_of (rev (env_pairs es))"
    using fold_add_env [OF assms, of col "Map.empty"] by (simp add: ParseEnvListOutput_def l add_env_def env_line_blank)
  moreover have "map_of (rev (env_pairs es)) = map_of (env_pairs es)" if "distinct (map fst (env_pairs es))"
    using map_of_rev_same [OF that] .
  ultimately show ?thesis by (auto simp: fun_eq_iff)
qed

lemma ascii_word: "s \<noteq> [] \<Longrightarrow> \<forall>c \<in> set s. 32 < (of_char c :: nat) \<and> (of_char c :: nat) < 128 \<Longrightarrow> env_word s"
proof -
  assume s: "s \<noteq> []" "\<forall>c \<in> set s. 32 < (of_char c :: nat) \<and> (of_char c :: nat) < 128"
  have "runes (concat (map (\<lambda>c. [c]) s)) = map (\<lambda>c. [c]) s" using s(2) by (intro runes_concat) auto
  moreover have "concat (map (\<lambda>c. [c]) s) = s" by (induction s) auto
  ultimately have "runes s = map (\<lambda>c. [c]) s" by simp
  then show ?thesis using s by (auto simp: env_word_def valid_utf8_ascii list_all_iff IsSpace_def space_runes_def)
qed

definition sample_envs :: "conda_env list" where
  "sample_envs = [(''base'', True, ''/opt/conda''), (''ml'', False, ''/opt/conda/envs/ml'')]"

theorem env_list_roundtrip_witness:
  "parse_env ''ml'' (conda_env_list 20 sample_envs) = Some ''/opt/conda/envs/ml''"
proof -
  have "\<forall>e \<in> set sample_envs. conda_env_ok e \<and> CHR ''/'' \<in> set (snd (snd e))"
    by (simp add: sample_envs_def conda_env_ok_def ascii_word)
  then show ?thesis using env_list_roundtrip [of sample_envs 20] by (simp add: sample_envs_def env_pairs_def)
qed

end
