(* ===== verification/File_Ops.thy ===== *)
theory File_Ops
  imports Config
begin

text \<open>
  More of what the program uses of \<open>os\<close>, beside \<open>Filesystem\<close> and \<open>Config\<close>: opening without truncation, removing a tree, and what
  making and removing files does to other paths.  Nothing here models a line of the repository.
\<close>

section \<open>More of \<open>os\<close>\<close>

text \<open>\<open>os.OpenFile\<close> with \<open>O_CREATE|O_WRONLY\<close>: the contents of a file stay.\<close>

definition os_OpenCreate :: "bytes \<Rightarrow> filesys \<Rightarrow> nat result \<times> filesys" where
  "os_OpenCreate path fs = (case os_Stat path fs of
      Inr (FFile ok i) \<Rightarrow> (if ok then Inr i else Inl (path_err ''open'' path EACCES), fs)
    | _ \<Rightarrow> os_Create path fs)"

text \<open>\<open>os.RemoveAll\<close>: what cannot be removed, because its directory cannot be written, stays.\<close>

fun remaining :: "bool \<Rightarrow> fnode \<Rightarrow> fnode option" and remaining_entries :: "bool \<Rightarrow> (bytes \<times> fnode) list \<Rightarrow> (bytes \<times> fnode) list" where
  "remaining w (FFile ok i) = (if w then None else Some (FFile ok i))"
| "remaining w (FDir v es) = (let es = remaining_entries v es in if w \<and> es = [] then None else Some (FDir v es))"
| "remaining_entries v [] = []"
| "remaining_entries v ((p, n) # es) = (case remaining v n of None \<Rightarrow> remaining_entries v es | Some m \<Rightarrow> (p, m) # remaining_entries v es)"

definition os_RemoveAll :: "bytes \<Rightarrow> filesys \<Rightarrow> goerr option \<times> filesys" where
  "os_RemoveAll path fs =
     (if path = [] then (None, fs)
      else (case locate path fs of
          Inl e \<Rightarrow> (if e = ENOENT then None else Some (path_err ''unlinkat'' path e), fs)
        | Inr l \<Rightarrow> (case node_at (fs_root fs) l of
            None \<Rightarrow> (None, fs)
          | Some n \<Rightarrow>
              (let w = (l \<noteq> [] \<and> (case node_at (fs_root fs) (butlast l) of Some (FDir True _) \<Rightarrow> True | _ \<Rightarrow> False)) in
               case remaining w n of
                 None \<Rightarrow> (None, fs\<lparr>fs_root := set_node l None (fs_root fs)\<rparr>)
               | Some m \<Rightarrow> (Some (path_err ''unlinkat'' path EACCES),
                   fs\<lparr>fs_root := (if l = [] then m else set_node l (Some m) (fs_root fs))\<rparr>)))))"

section \<open>Paths and new files\<close>

lemma walk_append:
  "walk root cur (ps @ qs) = (case walk root cur ps of Inl e \<Rightarrow> Inl e | Inr c \<Rightarrow> walk root c qs)"
  by (induction ps arbitrary: cur) (auto split: option.split fnode.split)

lemma walk_one: "plain q \<Longrightarrow> walk root c [q] = Inr l \<Longrightarrow> l = c @ [q] \<and> (\<exists>w es. node_at root c = Some (FDir w es))"
  by (auto simp: plain_def split: option.splits fnode.splits if_splits)

lemma walk_one_dir: "plain q \<Longrightarrow> node_at root c = Some (FDir w es) \<Longrightarrow> walk root c [q] = Inr (c @ [q])"
  by (auto simp: plain_def)

text \<open>A new file made by \<open>os.Create\<close>: where it is, and that the places of other paths stay.\<close>

lemma Create_new_at:
  assumes "os_Create p fs = (Inr i, fs')" "locate p fs = Inr l" "node_at (fs_root fs) l = None"
  shows "node_at (fs_root fs') l = Some (FFile True i)" "i = length (fs_data fs)" "fs_data fs' = fs_data fs @ [[]]"
    "fs_root fs' = set_node l (Some (FFile True i)) (fs_root fs)" "fs_cwd fs' = fs_cwd fs"
    "\<And>q l'. locate q fs = Inr l' \<Longrightarrow> locate q fs' = Inr l'"
proof -
  obtain es where d: "node_at (fs_root fs) (butlast l) = Some (FDir True es)"
      and f: "fs' = fs\<lparr>fs_root := set_node l (Some (FFile True i)) (fs_root fs), fs_data := fs_data fs @ [[]]\<rparr>" "i = length (fs_data fs)"
    using Create_new [OF assms] by blast
  have "l \<noteq> []" using assms(3) by auto
  then have "parent_dir (fs_root fs) l" using d by (rule parent_dirI)
  then show "node_at (fs_root fs') l = Some (FFile True i)" by (simp add: f(1) node_at_set)
  show "i = length (fs_data fs)" by (rule f(2))
  show "fs_data fs' = fs_data fs @ [[]]" "fs_root fs' = set_node l (Some (FFile True i)) (fs_root fs)" "fs_cwd fs' = fs_cwd fs"
    by (simp_all add: f(1))
  fix q l' assume "locate q fs = Inr l'"
  then have "locate q (fs\<lparr>fs_root := set_node l (Some (FFile True i)) (fs_root fs)\<rparr>) = Inr l'"
    by (intro locate_set) (simp_all add: no_dir_def assms(3))
  then show "locate q fs' = Inr l'" using locate_same [of fs' "fs\<lparr>fs_root := set_node l (Some (FFile True i)) (fs_root fs)\<rparr>" q] by (simp add: f(1))
qed

text \<open>Removing one of two files keeps the other.\<close>

lemma Remove_keeps:
  assumes "locate q fs = Inr l" "node_at (fs_root fs) l = Some (FFile ok i)"
    and "locate p fs = Inr l'" "node_at (fs_root fs) l' = Some (FFile ok' j)" "l \<noteq> l'"
  shows "os_ReadFile p (snd (os_Remove q fs)) = os_ReadFile p fs \<and> os_Stat p (snd (os_Remove q fs)) = os_Stat p fs"
proof -
  have "\<not> prefix a b" if ab: "node_at n a = Some (FFile x u)" "node_at n b = Some (FFile y v)" "a \<noteq> b" for a b n x u y v
  proof
    assume "prefix a b"
    then obtain c cs where "b = a @ c # cs" using ab(3) by (auto simp: prefix_def) (metis append_Nil2 list.exhaust)
    then show False using ab(1,2) below_no_dir [of n a c cs] by (simp add: no_dir_def)
  qed
  then have np: "\<not> prefix l l'" "\<not> prefix l' l" using assms by blast+
  let ?fs = "fs\<lparr>fs_root := set_node l None (fs_root fs)\<rparr>"
  have "locate p ?fs = Inr l'" by (rule locate_set [OF _ assms(3)]) (simp add: no_dir_def assms(2))
  moreover have "node_at (fs_root ?fs) l' = node_at (fs_root fs) l'" using node_at_set_other [OF np] by simp
  ultimately have "os_ReadFile p ?fs = os_ReadFile p fs" "os_Stat p ?fs = os_Stat p fs"
    using assms(3,4) by (simp_all add: os_ReadFile_def os_Open_def os_Stat_def)
  moreover have "snd (os_Remove q fs) \<in> {fs, ?fs}"
    using assms(1,2) by (auto simp: os_Remove_def split: option.splits fnode.splits bool.splits)
  ultimately show ?thesis by auto
qed

section \<open>Paths that lead to nothing\<close>

text \<open>When \<open>RemoveAll\<close> succeeds, the path leads to nothing.\<close>

lemma walk_removed:
  assumes "walk n cur ps = Inr l'" "node_at (set_node l None n) l = None"
  shows "walk (set_node l None n) cur ps \<in> {Inr l', Inl ENOENT}"
  using assms(1)
proof (induction ps arbitrary: cur)
  case (Cons p ps)
  then obtain w es where d: "node_at n cur = Some (FDir w es)" by (auto split: option.splits fnode.splits)
  show ?case
  proof (cases "prefix l cur")
    case True
    then obtain r where "cur = l @ r" by (auto simp: prefix_def)
    then have "node_at (set_node l None n) cur = None" using assms(2) by (simp add: node_at_append)
    then show ?thesis by simp
  next
    case False
    obtain es' where d': "node_at (set_node l None n) cur = Some (FDir w es')" using node_at_set_dir [OF False d] by blast
    show ?thesis using Cons.prems Cons.IH by (auto simp: d d' split: if_splits)
  qed
qed simp

definition gone :: "bytes \<Rightarrow> filesys \<Rightarrow> bool" where
  "gone p fs \<longleftrightarrow> (\<exists>e. os_Stat p fs = Inl e \<and> IsNotExist e)"

lemma goneI: "locate p fs = Inl ENOENT \<or> (\<exists>l. locate p fs = Inr l \<and> node_at (fs_root fs) l = None) \<Longrightarrow> gone p fs"
  by (auto simp: gone_def os_Stat_def path_err_def IsNotExist_def)

lemma RemoveAll_gone:
  assumes "os_RemoveAll p fs = (None, fs')" "p \<noteq> []"
  shows "gone p fs'"
proof (cases "locate p fs")
  case (Inl e)
  then show ?thesis using assms by (auto simp: os_RemoveAll_def split: if_splits intro!: goneI)
next
  case (Inr l)
  show ?thesis
  proof (cases "node_at (fs_root fs) l")
    case None
    then show ?thesis using assms Inr by (auto simp: os_RemoveAll_def intro!: goneI)
  next
    case (Some n)
    let ?w = "l \<noteq> [] \<and> (case node_at (fs_root fs) (butlast l) of Some (FDir True _) \<Rightarrow> True | _ \<Rightarrow> False)"
    have r: "remaining ?w n = None" and f: "fs' = fs\<lparr>fs_root := set_node l None (fs_root fs)\<rparr>"
      using assms Inr Some by (auto simp: os_RemoveAll_def Let_def split: option.splits)
    have w: ?w using r by (cases n) (auto simp: Let_def split: if_splits)
    then have l: "l \<noteq> []" by blast
    obtain es where "node_at (fs_root fs) (butlast l) = Some (FDir True es)"
      using w by (auto split: option.splits fnode.splits bool.splits)
    then have "parent_dir (fs_root fs) l" using l by (rule parent_dirI [rotated])
    then have none: "node_at (set_node l None (fs_root fs)) l = None" by (rule node_at_set)
    have wk: "walk (fs_root fs) (start_dir p fs) (split_on CHR ''/'' p) = Inr l" using Inr assms(2) by (simp add: locate_def)
    have "fs_root fs' = set_node l None (fs_root fs)" "start_dir p fs' = start_dir p fs" by (simp_all add: f start_dir_def)
    then have "walk (fs_root fs') (start_dir p fs') (split_on CHR ''/'' p) \<in> {Inr l, Inl ENOENT}"
      using walk_removed [OF wk none] by simp
    then have "locate p fs' \<in> {Inr l, Inl ENOENT}" using assms(2) by (auto simp: locate_def)
    then show ?thesis using none by (auto simp: f intro!: goneI)
  qed
qed

section \<open>Temporary files\<close>

text \<open>The same files are at the same places.\<close>

definition same_files :: "filesys \<Rightarrow> filesys \<Rightarrow> bool" where
  "same_files fs fs' \<longleftrightarrow> (\<forall>l ok i. node_at (fs_root fs') l = Some (FFile ok i) \<longleftrightarrow> node_at (fs_root fs) l = Some (FFile ok i))"

text \<open>A new file, after whose making the tree is left alone, can be removed without a trace.\<close>

lemma temp_removed:
  assumes "gone p fs" "os_Create p fs = (Inr i, fs1)" "fs_root fs2 = fs_root fs1" "fs_cwd fs2 = fs_cwd fs1"
  shows "gone p (snd (os_Remove p fs2)) \<and> same_files fs (snd (os_Remove p fs2))"
proof -
  obtain l where l: "locate p fs = Inr l" using assms(2) by (auto simp: os_Create_def split: sum.splits)
  then have n: "node_at (fs_root fs) l = None" using assms(1) by (auto simp: gone_def os_Stat_def split: option.splits)
  obtain es where d: "node_at (fs_root fs) (butlast l) = Some (FDir True es)" using Create_new [OF assms(2) l n] by blast
  note c = Create_new_at [OF assms(2) l n]
  have ne: "l \<noteq> []" using n by auto
  then have above: "\<not> prefix l (butlast l)" using prefix_length_le [of l "butlast l"] by (cases l) auto
  let ?n1 = "set_node l (Some (FFile True i)) (fs_root fs)"
  let ?n = "set_node l None ?n1"
  have loc: "locate p fs2 = Inr l" using c(6) [OF l] locate_same [OF assms(3,4)] by simp
  have r1: "fs_root fs2 = ?n1" using c(4) assms(3) by simp
  have at: "node_at ?n1 l = Some (FFile True i)" using c(1,4) by simp
  obtain es' where d1: "node_at ?n1 (butlast l) = Some (FDir True es')" using node_at_set_dir [OF above d] by blast
  have rm: "os_Remove p fs2 = (None, fs2\<lparr>fs_root := ?n\<rparr>)" using loc at d1 ne by (simp add: os_Remove_def r1)
  have "parent_dir ?n1 l" using ne d1 by (rule parent_dirI)
  then have none: "node_at ?n l = None" by (rule node_at_set)
  have "locate p (fs2\<lparr>fs_root := set_node l None (fs_root fs2)\<rparr>) = Inr l"
    by (rule locate_set [OF _ loc]) (simp add: no_dir_def r1 at)
  then have g: "gone p (fs2\<lparr>fs_root := ?n\<rparr>)" using none by (intro goneI) (simp add: r1)
  have "node_at ?n l' = Some (FFile ok j) \<longleftrightarrow> node_at (fs_root fs) l' = Some (FFile ok j)" for l' ok j
  proof -
    consider "prefix l l'" | "\<not> prefix l l'" "prefix l' l" | "\<not> prefix l l'" "\<not> prefix l' l" by blast
    then show ?thesis
    proof cases
      case 1
      then show ?thesis using none n by (auto simp: prefix_def node_at_append)
    next
      case 2
      then obtain r where "butlast l = l' @ r" by (metis prefix_def prefix_order.dual_order.eq_iff append_butlast_last_id ne prefix_snoc)
      then have "node_at (fs_root fs) (l' @ r) = Some (FDir True es)" using d by simp
      then obtain w es0 where e: "node_at (fs_root fs) l' = Some (FDir w es0)" by (rule dir_above [THEN exE]) blast
      then obtain es1 where "node_at ?n1 l' = Some (FDir w es1)" using node_at_set_dir [OF 2(1)] by blast
      then obtain es2 where "node_at ?n l' = Some (FDir w es2)" using node_at_set_dir [OF 2(1)] by blast
      then show ?thesis using e by simp
    next
      case 3
      then show ?thesis using node_at_set_other [OF 3(1,2)] by simp
    qed
  qed
  then show ?thesis using g by (simp add: rm same_files_def)
qed

lemma Create_failed: "os_Create p fs = (Inl e, fs') \<Longrightarrow> fs' = fs"
  by (auto simp: os_Create_def Let_def split: sum.splits option.splits fnode.splits bool.splits if_splits)

end
