(* ===== verification/Conda_Download.thy ===== *)
theory Conda_Download
  imports Conda_Env File_Ops
begin

text \<open>
  Fetching and installing conda, \<open>p2p/protocols/compute/service/conda/conda.go\<close>.  The web is a parameter: what \<open>http.Get\<close>
  answers, with the part of the body that arrives and how it ends.
\<close>

section \<open>Fetching\<close>

record http_response =
  hr_ContentType :: bytes
  hr_Body :: bytes
  hr_end :: "goerr option"

definition copyFile :: "bytes \<Rightarrow> bytes \<Rightarrow> filesys \<Rightarrow> goerr option \<times> filesys" where
  "copyFile src dst fs = (case os_Open src fs of
      Inl e \<Rightarrow> (Some (Wrap ''failed to open source file'' e), fs)
    | Inr n \<Rightarrow> (case os_Create dst fs of
        (Inl e, fs) \<Rightarrow> (Some (Wrap ''failed to create destination file'' e), fs)
      | (Inr j, fs) \<Rightarrow> (case n of
          FDir _ _ \<Rightarrow> (Some (Wrap ''failed to copy file'' (path_err ''read'' src EISDIR)), fs)
        | FFile _ i \<Rightarrow> (None, fs\<lparr>fs_data := (fs_data fs)[j := fs_data fs ! i]\<rparr>))))"

text \<open>
  The errors of opening the temporary file and of the copy into it are not looked at.  The temporary file is removed when the
  function returns.
\<close>

definition Download :: "(bytes \<Rightarrow> http_response result) \<Rightarrow> bytes \<Rightarrow> bytes \<Rightarrow> filesys \<Rightarrow> bytes result \<times> filesys" where
  "Download get folder url fs = (case get url of
      Inl e \<Rightarrow> (Inl e, fs)
    | Inr resp \<Rightarrow>
        (let filePath = path_Join [folder, path_Base url]; tempPath = filePath @ ''.tmp'' in
         if (case os_Stat filePath fs of Inl e \<Rightarrow> IsNotExist e | Inr _ \<Rightarrow> False) then
           (if hr_ContentType resp = ''application/octet-stream'' then
              (case os_OpenCreate tempPath fs of (f, fs) \<Rightarrow>
                (let fs = (case f of Inl _ \<Rightarrow> fs | Inr i \<Rightarrow> snd (snd (file_Write i (hr_Body resp) (0, fs)))) in
                 (case copyFile tempPath filePath fs of (e, fs) \<Rightarrow>
                   (let fs = snd (os_Remove tempPath fs) in
                    (case e of Some e \<Rightarrow> (Inl (Wrap ''failed to copy file'' e), fs) | None \<Rightarrow> (Inr filePath, fs))))))
            else (Inl (Err ''requested URL is not downloadable''), fs))
         else (Inr filePath, fs)))"

section \<open>Installing\<close>

text \<open>A command that is run to its end: what it printed, and its error.\<close>

definition runCommand :: "(bytes \<Rightarrow> bytes list \<Rightarrow> bytes \<times> goerr option) \<Rightarrow> bytes \<Rightarrow> bytes list \<Rightarrow> bytes result" where
  "runCommand run path args = (case run path args of (_, Some e) \<Rightarrow> Inl e | (out, None) \<Rightarrow> Inr out)"

text \<open>The case of \<open>darwin\<close> is empty.\<close>

definition Install_conda :: "conda_host \<Rightarrow> (bytes \<Rightarrow> http_response result) \<Rightarrow> (bytes \<Rightarrow> bytes list \<Rightarrow> bytes \<times> goerr option) \<Rightarrow> bytes
    \<Rightarrow> filesys \<Rightarrow> goerr option \<times> filesys" where
  "Install_conda y get run version fs = (case StellarPath (cy_start y) of
      Inl e \<Rightarrow> (Some e, fs)
    | Inr appDir \<Rightarrow> (case DownloadCondaInstaller y version CONDA_VERSION of
        Inl e \<Rightarrow> (Some e, fs)
      | Inr url \<Rightarrow> (case Download get appDir url fs of
          (Inl e, fs) \<Rightarrow> (Some e, fs)
        | (Inr filePath, fs) \<Rightarrow>
            (let os = se_GOOS (cy_start y) in
             if os = ''darwin'' then (None, fs)
             else if os = ''linux'' then
               (case runCommand run ''/bin/sh'' [filePath, ''-b'', ''-f'', ''-p'', path_Join [appDir, ''conda'']] of
                  Inl e \<Rightarrow> (Some (Wrap ''installation failed'' e), fs) | Inr _ \<Rightarrow> (None, fs))
             else if os = ''windows'' then
               (case runCommand run filePath [] of Inl e \<Rightarrow> (Some (Wrap ''installation failed'' e), fs) | Inr _ \<Rightarrow> (None, fs))
             else (Some (Err (''installation failed due to unsupported OS: '' @ os)), fs)))))"

section \<open>What a download leaves\<close>

lemma plain_dot_tmp: "plain q \<Longrightarrow> plain (q @ ''.tmp'')"
  by (auto simp: plain_def append_eq_Cons_conv)

text \<open>Where a path and the one of its temporary file are.\<close>

lemma split_tmp:
  "split_on CHR ''/'' p = ps @ [q] \<Longrightarrow> split_on CHR ''/'' (p @ ''.tmp'') = ps @ [q @ ''.tmp'']"
proof -
  assume s: "split_on CHR ''/'' p = ps @ [q]"
  have "split_on CHR ''/'' (u @ ''.tmp'') = butlast (split_on CHR ''/'' u) @ [last (split_on CHR ''/'' u) @ ''.tmp'']" for u
    by (induction u) (auto split: list.split simp: neq_Nil_conv)
  then show ?thesis using s by simp
qed

lemma locate_tmp:
  assumes "p \<noteq> []" "plain (last (split_on CHR ''/'' p))" "locate (p @ ''.tmp'') fs = Inr l"
  shows "\<exists>c q w es. l = c @ [q @ ''.tmp''] \<and> node_at (fs_root fs) c = Some (FDir w es) \<and> locate p fs = Inr (c @ [q])"
proof -
  obtain ps q where s: "split_on CHR ''/'' p = ps @ [q]" using split_on_not_Nil by (metis append_butlast_last_id)
  then have q: "plain q" using assms(2) by simp
  have st: "start_dir (p @ ''.tmp'') fs = start_dir p fs" using assms(1) by (cases p) (simp_all add: start_dir_def is_rooted_def)
  have "walk (fs_root fs) (start_dir p fs) (ps @ [q @ ''.tmp'']) = Inr l"
    using assms(3) st by (simp add: locate_def split_tmp [OF s])
  then obtain c where c: "walk (fs_root fs) (start_dir p fs) ps = Inr c" "walk (fs_root fs) c [q @ ''.tmp''] = Inr l"
    by (auto simp only: walk_append split: sum.splits)
  then obtain w es where l: "l = c @ [q @ ''.tmp'']" "node_at (fs_root fs) c = Some (FDir w es)"
    using walk_one [OF plain_dot_tmp [OF q]] by blast
  have "locate p fs = Inr (c @ [q])"
    using walk_one_dir [OF q l(2)] assms(1) by (simp add: locate_def s walk_append c(1) del: walk.simps)
  then show ?thesis using l by blast
qed

text \<open>
  What a download leaves behind when neither the file nor its temporary file were there and it reports success: the file holds what
  arrived of the body, whether or not the connection broke, and whatever is fetched later, the next download takes this file.
\<close>

theorem download_keeps_what_arrived:
  assumes "Download get folder url fs = (Inr p, fs')" "get url = Inr resp"
    and "os_Stat p fs = Inl e" "IsNotExist e" "os_Stat (p @ ''.tmp'') fs = Inl e'" "IsNotExist e'"
    and "plain (last (split_on CHR ''/'' p))"
  shows "os_ReadFile p fs' = Inr (hr_Body resp)
    \<and> (\<forall>get' resp'. get' url = Inr resp' \<longrightarrow> Download get' folder url fs' = (Inr p, fs'))"
proof -
  let ?t = "p @ ''.tmp''"
  have p: "p = path_Join [folder, path_Base url]"
    using assms(1,2) by (auto simp: Download_def Let_def split: if_splits prod.splits option.splits)
  have "p \<noteq> []" using assms(7) by (auto simp: plain_def)
  obtain f fs1 where f: "os_OpenCreate ?t fs = (f, fs1)" by (metis surj_pair)
  let ?fs2 = "case f of Inl _ \<Rightarrow> fs1 | Inr i \<Rightarrow> snd (snd (file_Write i (hr_Body resp) (0, fs1)))"
  have cp: "\<exists>fs3. copyFile ?t p ?fs2 = (None, fs3) \<and> fs' = snd (os_Remove ?t fs3)"
    using assms(1-4) f by (auto simp: Download_def p [symmetric] Let_def split: if_splits prod.splits option.splits)
  then obtain fs3 where cp: "copyFile ?t p ?fs2 = (None, fs3)" "fs' = snd (os_Remove ?t fs3)" by blast
  have oc: "os_Create ?t fs = (f, fs1)" using f assms(5) by (simp add: os_OpenCreate_def)
  obtain i lt where i: "f = Inr i" "locate ?t fs = Inr lt"
  proof (cases f)
    case (Inl x)
    have "fs1 = fs" using oc Inl by (auto simp: os_Create_def Let_def split: sum.splits option.splits fnode.splits bool.splits if_splits)
    then have "os_Open ?t ?fs2 = Inl (path_err ''open'' ?t ENOENT) \<or> (\<exists>x. os_Open ?t ?fs2 = Inl x)"
      using Inl assms(5) by (auto simp: os_Stat_def os_Open_def split: sum.splits option.splits)
    then show ?thesis using cp(1) by (auto simp: copyFile_def)
  next
    case (Inr i)
    then show ?thesis using oc that by (auto simp: os_Create_def split: sum.splits)
  qed
  have nt: "node_at (fs_root fs) lt = None" using assms(5) i(2) by (auto simp: os_Stat_def split: option.splits)
  note c1 = Create_new_at [OF oc [unfolded i(1)] i(2) nt]
  obtain c q w es where l: "lt = c @ [q @ ''.tmp'']" "node_at (fs_root fs) c = Some (FDir w es)" "locate p fs = Inr (c @ [q])"
    using locate_tmp [OF \<open>p \<noteq> []\<close> assms(7) i(2)] by blast
  have np: "\<not> prefix (c @ [q]) lt" "\<not> prefix lt (c @ [q])" "lt \<noteq> c @ [q]" by (simp_all add: l(1))
  let ?fs1 = "fs1\<lparr>fs_data := fs_data fs @ [hr_Body resp]\<rparr>"
  have fs2: "?fs2 = ?fs1" using i(1) c1(2,3) by (simp add: file_Write_def overwrite_def list_update_append)
  have at1: "locate ?t ?fs1 = Inr lt" "locate p ?fs1 = Inr (c @ [q])"
    using c1(6) i(2) l(3) locate_same [of ?fs1 fs1] by simp_all
  have n1: "node_at (fs_root ?fs1) lt = Some (FFile True i)" "node_at (fs_root ?fs1) (c @ [q]) = None"
    using c1(1,4) node_at_set_other [OF np(2,1)] assms(3) l(3) by (auto simp: os_Stat_def split: option.splits)
  have op: "os_Open ?t ?fs1 = Inr (FFile True i)" using at1 n1 by (simp add: os_Open_def)
  obtain j fs4 where j: "os_Create p ?fs1 = (Inr j, fs4)" "fs3 = fs4\<lparr>fs_data := (fs_data fs4)[j := fs_data fs4 ! i]\<rparr>"
    using cp(1) op by (auto simp: fs2 copyFile_def split: prod.splits sum.splits)
  note c2 = Create_new_at [OF j(1) at1(2) n1(2)]
  have d: "fs_data fs3 ! j = hr_Body resp" "j < length (fs_data fs3)" using c2(2,3) c1(2) by (simp_all add: j(2) nth_append)
  have at3: "locate ?t fs3 = Inr lt" "locate p fs3 = Inr (c @ [q])"
    using c2(6) at1 locate_same [of fs3 fs4] by (simp_all add: j(2))
  have n3: "node_at (fs_root fs3) lt = Some (FFile True i)" "node_at (fs_root fs3) (c @ [q]) = Some (FFile True j)"
    using c2(1,4) n1(1) node_at_set_other [OF np(1,2)] by (simp_all add: j(2))
  note k = Remove_keeps [OF at3(1) n3(1) at3(2) n3(2) np(3)]
  have r: "os_ReadFile p fs' = Inr (hr_Body resp)" "\<exists>n. os_Stat p fs' = Inr n"
    using k at3(2) n3(2) d by (simp_all add: cp(2) os_ReadFile_def os_Open_def os_Stat_def)
  then show ?thesis by (auto simp: Download_def p [symmetric] Let_def)
qed

definition sample_fetch :: "bytes \<Rightarrow> http_response result" where
  "sample_fetch url = Inr \<lparr>hr_ContentType = ''application/octet-stream'', hr_Body = ''part'', hr_end = Some (Err ''connection reset'')\<rparr>"

definition sample_home :: filesys where
  "sample_home = \<lparr>fs_root = FDir True [(''s'', FDir True [])], fs_data = [], fs_cwd = []\<rparr>"

text \<open>A connection that breaks while the installer is fetched.\<close>

theorem download_keeps_witness:
  "\<exists>fs'. Download sample_fetch ''/s'' ''h/i.sh'' sample_home = (Inr ''/s/i.sh'', fs') \<and> os_ReadFile ''/s/i.sh'' fs' = Inr ''part''"
proof -
  have e: "os_Stat ''/s/i.sh'' sample_home = Inl (path_err ''stat'' ''/s/i.sh'' ENOENT)"
    "os_Stat (''/s/i.sh'' @ ''.tmp'') sample_home = Inl (path_err ''stat'' ''/s/i.sh.tmp'' ENOENT)"
    by (simp_all add: os_Stat_def locate_def sample_home_def is_rooted_def start_dir_def)
  have "fst (Download sample_fetch ''/s'' ''h/i.sh'' sample_home) = Inr ''/s/i.sh''" by code_simp
  then obtain fs' where d: "Download sample_fetch ''/s'' ''h/i.sh'' sample_home = (Inr ''/s/i.sh'', fs')"
    by (metis prod.collapse)
  have "plain (last (split_on CHR ''/'' ''/s/i.sh''))" by (simp add: plain_def)
  then have "os_ReadFile ''/s/i.sh'' fs' = Inr ''part''"
    using download_keeps_what_arrived [OF d _ e(1) _ e(2)] by (simp add: sample_fetch_def IsNotExist_def path_err_def)
  then show ?thesis using d by blast
qed

end
