(* ===== verification/Conda_Ops.thy ===== *)
theory Conda_Ops
  imports Conda_Download
begin

text \<open>
  The conda operations, \<open>p2p/protocols/compute/service/conda/operations.go\<close>, and their dispatch in \<open>handler.go\<close> and
  \<open>conda_service_init.go\<close>.  The state is the tree of files and the commands that were started.
\<close>

section \<open>The system\<close>

text \<open>
  \<open>cz_run\<close> is what the command started last does when it runs to its end, given all commands started so far: how it ends, what it
  prints, and the files it leaves.  \<open>cz_interrupted\<close> is the end of the context or of the time limit while it is waited for.  \<open>cz_nano\<close>
  is the clock, \<open>cz_assets\<close> the embedded package in the order of \<open>fs.WalkDir\<close> (a directory has no contents), \<open>cz_verifyScript\<close> the text of
  the script that imports the package.
\<close>

type_synonym command = "bytes \<times> bytes list"

record conda_system = conda_host +
  cz_Environ :: "bytes list"
  cz_launch :: launcher
  cz_run :: "command list \<Rightarrow> filesys \<Rightarrow> wait_result \<times> bytes \<times> filesys"
  cz_interrupted :: "command list \<Rightarrow> goerr option"
  cz_get :: "bytes \<Rightarrow> http_response result"
  cz_nano :: bytes
  cz_assets :: "(bytes \<times> bytes option) list"
  cz_verifyScript :: bytes

record conda_state =
  cn_fs :: filesys
  cn_started :: "command list"

text \<open>An operations object is the path of conda, empty when it was not found.\<close>

type_synonym conda_ops = bytes

definition on_fs :: "(filesys \<Rightarrow> 'a \<times> filesys) \<Rightarrow> conda_state \<Rightarrow> 'a \<times> conda_state" where
  "on_fs f st = (case f (cn_fs st) of (a, fs) \<Rightarrow> (a, st\<lparr>cn_fs := fs\<rparr>))"

definition NewCondaOperations :: "conda_system \<Rightarrow> bytes \<Rightarrow> conda_state \<Rightarrow> conda_ops \<times> conda_state" where
  "NewCondaOperations y condaPath st =
     (if condaPath = [] then (case on_fs (FindCondaPath (conda_host.truncate y)) st of
          (Inr path, st) \<Rightarrow> (path, st)
        | (Inl _, st) \<Rightarrow> ([], st))
      else (condaPath, st))"

definition getCondaPath :: "conda_system \<Rightarrow> conda_ops \<Rightarrow> conda_state \<Rightarrow> bytes result \<times> conda_state" where
  "getCondaPath y ops st = (if ops \<noteq> [] then (Inr ops, st) else on_fs (FindCondaPath (conda_host.truncate y)) st)"

section \<open>Commands\<close>

definition generateCommandRunID :: "conda_system \<Rightarrow> bytes" where
  "generateCommandRunID y = ''conda-cmd-'' @ cz_nano y"

definition op_executeCommand :: "conda_system \<Rightarrow> bytes \<Rightarrow> bytes list \<Rightarrow> addr option \<Rightarrow> conda_state \<Rightarrow> raw_execution result \<times> conda_state" where
  "op_executeCommand y command args stdin st =
     (if command = [] then (Inl (Err ''command is empty''), st)
      else (case la_StdinPipe (cz_launch y) of
          Some e \<Rightarrow> (Inl (Wrap ''failed to create stdin pipe'' e), st)
        | None \<Rightarrow> (case la_Start (cz_launch y) command args (cz_Environ y) [] of
            Some e \<Rightarrow> (Inl (Wrap ''failed to start command'' e), st)
          | None \<Rightarrow> (Inr \<lparr>ex_RunID = generateCommandRunID y,
                ex_Stdin = (if stdin = None then pipe\<lparr>shut := True\<rparr> else pipe),
                ex_Stdout = pipe, ex_Stderr = pipe, ex_Done = new_chan, ex_ExitCode = new_chan,
                ex_cancelled = False, ex_feed = stdin, ex_waiting = True, ex_full = True\<rparr>,
              st\<lparr>cn_started := cn_started st @ [(command, args)]\<rparr>))))"

text \<open>
  A bridge: \<open>BridgeTo\<close> copies the output to its writer, \<open>Wait\<close> takes the two results; it waits (\<open>None\<close>) until they are there.
\<close>

definition bridge_round :: "raw_execution \<times> bytes \<Rightarrow> raw_execution \<times> bytes" where
  "bridge_round xb = (case conn_read copyBuf (ex_Stdout (fst xb)) of
      (RdData d, c) \<Rightarrow> ((fst xb)\<lparr>ex_Stdout := c\<rparr>, snd xb @ d)
    | (_, c) \<Rightarrow> ((fst xb)\<lparr>ex_Stdout := c\<rparr>, snd xb))"

definition bridge_Wait :: "raw_execution \<Rightarrow> (int \<times> goerr option) option" where
  "bridge_Wait x = (case fst (ch_recv (ex_Done x)) of
      RecvWait \<Rightarrow> None
    | d \<Rightarrow> (case fst (ch_recv (ex_ExitCode x)) of
        RecvWait \<Rightarrow> None
      | c \<Rightarrow> Some (case c of Got n \<Rightarrow> n | _ \<Rightarrow> 0, case d of Got e \<Rightarrow> e | _ \<Rightarrow> None)))"

text \<open>A command that is waited for: its output, exit code and error.\<close>

definition await_command :: "conda_system \<Rightarrow> conda_state \<Rightarrow> (bytes \<times> int \<times> goerr option) \<times> conda_state" where
  "await_command y st = (case cz_run y (cn_started st) (cn_fs st) of
     (w, out, fs) \<Rightarrow> ((out, exit_code w, wait_error w), st\<lparr>cn_fs := fs\<rparr>))"

section \<open>Environments\<close>

definition co_run :: "conda_system \<Rightarrow> conda_ops \<Rightarrow> bytes list \<Rightarrow> addr option \<Rightarrow> conda_state \<Rightarrow> raw_execution result \<times> conda_state" where
  "co_run y ops args stdin st = (case getCondaPath y ops st of
      (Inl e, st) \<Rightarrow> (Inl e, st)
    | (Inr condaPath, st) \<Rightarrow> op_executeCommand y condaPath args stdin st)"

definition op_GetCondaVersion :: "conda_system \<Rightarrow> conda_ops \<Rightarrow> conda_state \<Rightarrow> raw_execution result \<times> conda_state" where
  "op_GetCondaVersion y ops st = co_run y ops [''--version''] None st"

definition op_ListEnvironments :: "conda_system \<Rightarrow> conda_ops \<Rightarrow> conda_state \<Rightarrow> raw_execution result \<times> conda_state" where
  "op_ListEnvironments y ops st = co_run y ops [''env'', ''list''] None st"

definition op_CommandPath :: "conda_system \<Rightarrow> conda_ops \<Rightarrow> conda_state \<Rightarrow> bytes result \<times> conda_state" where
  "op_CommandPath y ops st = (case getCondaPath y ops st of
      (Inl e, st) \<Rightarrow> (Inl e, st)
    | (Inr path, st) \<Rightarrow> (case op_GetCondaVersion y ops st of
        (Inl e, st) \<Rightarrow> (Inl (Wrap ''conda path found but version check failed'' e), st)
      | (Inr _, st) \<Rightarrow> (case await_command y st of
          ((_, code, doneErr), st) \<Rightarrow>
            if doneErr \<noteq> None \<or> code \<noteq> 0 then (Inl (Err ''conda version check failed''), st) else (Inr path, st))))"

definition op_GetEnvironment :: "conda_system \<Rightarrow> conda_ops \<Rightarrow> bytes \<Rightarrow> conda_state \<Rightarrow> bytes result \<times> conda_state" where
  "op_GetEnvironment y ops name st =
     (if name = [] then (Inl (Err ''environment name is empty''), st)
      else (case op_ListEnvironments y ops st of
          (Inl e, st) \<Rightarrow> (Inl e, st)
        | (Inr _, st) \<Rightarrow> (case await_command y st of ((out, code, doneErr), st) \<Rightarrow>
            (case cz_interrupted y (cn_started st) of
               Some e \<Rightarrow> (Inl e, st)
             | None \<Rightarrow> (case doneErr of
                 Some e \<Rightarrow> (Inl (Wrap ''failed to execute conda env list'' e), st)
               | None \<Rightarrow>
                   if code \<noteq> 0 then (Inl (Err (''conda env list exited with code '' @ show_int code)), st)
                   else (case parse_env name out of
                       Some path \<Rightarrow> (Inr path, st)
                     | None \<Rightarrow> (Inl (Err (''environment not found: '' @ name)), st)))))))"

text \<open>An execution that is over from the start; its channels stay open.\<close>

definition finished_execution :: "conda_system \<Rightarrow> bytes \<Rightarrow> raw_execution" where
  "finished_execution y output = (createStringOutputExecution output)\<lparr>ex_RunID := generateCommandRunID y, ex_full := True\<rparr>"

definition op_CreateEnvironment :: "conda_system \<Rightarrow> conda_ops \<Rightarrow> bytes \<Rightarrow> bytes \<Rightarrow> conda_state \<Rightarrow> raw_execution result \<times> conda_state" where
  "op_CreateEnvironment y ops name pythonVersion st =
     (if name = [] then (Inl (Err ''environment name is empty''), st)
      else if pythonVersion = [] then (Inl (Err ''python version is empty''), st)
      else (case getCondaPath y ops st of
          (Inl e, st) \<Rightarrow> (Inl e, st)
        | (Inr condaPath, st) \<Rightarrow> (case op_GetEnvironment y ops name st of
            (Inr envPath, st) \<Rightarrow> (Inr (finished_execution y (''Environment '' @ name @ '' already exists at '' @ envPath)), st)
          | (Inl _, st) \<Rightarrow> op_executeCommand y condaPath [''create'', ''--name'', name, ''python='' @ pythonVersion, ''-y''] None st)))"

text \<open>What the operations on an environment have in common: conda is found and lists the environment.\<close>

definition with_env :: "conda_system \<Rightarrow> conda_ops \<Rightarrow> bytes \<Rightarrow> (bytes \<Rightarrow> conda_state \<Rightarrow> 'a result \<times> conda_state) \<Rightarrow> conda_state
    \<Rightarrow> 'a result \<times> conda_state" where
  "with_env y ops env act st = (case getCondaPath y ops st of
      (Inl e, st) \<Rightarrow> (Inl e, st)
    | (Inr condaPath, st) \<Rightarrow> (case op_GetEnvironment y ops env st of
        (Inl _, st) \<Rightarrow> (Inl (Err (''environment not found: '' @ env)), st)
      | (Inr _, st) \<Rightarrow> act condaPath st))"

definition op_RemoveEnvironment :: "conda_system \<Rightarrow> conda_ops \<Rightarrow> bytes \<Rightarrow> conda_state \<Rightarrow> raw_execution result \<times> conda_state" where
  "op_RemoveEnvironment y ops name st =
     (if name = [] then (Inl (Err ''environment name is empty''), st)
      else with_env y ops name (\<lambda>condaPath. op_executeCommand y condaPath [''env'', ''remove'', ''--name'', name, ''-y''] None) st)"

definition op_UpdateEnvironment :: "conda_system \<Rightarrow> conda_ops \<Rightarrow> bytes \<Rightarrow> bytes \<Rightarrow> conda_state \<Rightarrow> raw_execution result \<times> conda_state" where
  "op_UpdateEnvironment y ops name yamlPath st =
     (if name = [] then (Inl (Err ''environment name is empty''), st)
      else if yamlPath = [] then (Inl (Err ''yaml path is empty''), st)
      else with_env y ops name (\<lambda>condaPath st.
        if (case os_Stat yamlPath (cn_fs st) of Inl e \<Rightarrow> IsNotExist e | Inr _ \<Rightarrow> False)
        then (Inl (Err (''yaml file not found: '' @ yamlPath)), st)
        else op_executeCommand y condaPath [''env'', ''update'', ''--name'', name, ''--file'', yamlPath] None st) st)"

definition op_InstallPackage :: "conda_system \<Rightarrow> conda_ops \<Rightarrow> bytes \<Rightarrow> bytes \<Rightarrow> conda_state \<Rightarrow> raw_execution result \<times> conda_state" where
  "op_InstallPackage y ops envName packageName st =
     (if envName = [] then (Inl (Err ''environment name is empty''), st)
      else if packageName = [] then (Inl (Err ''package name is empty''), st)
      else with_env y ops envName (\<lambda>condaPath. op_executeCommand y condaPath [''install'', ''--name'', envName, packageName, ''-y''] None) st)"

section \<open>Running Python\<close>

definition conda_run_args :: "bytes \<Rightarrow> bytes list \<Rightarrow> bytes list" where
  "conda_run_args env args = [''run'', ''-n'', env, ''--no-capture-output'', ''python''] @ args"

definition op_RunPython :: "conda_system \<Rightarrow> conda_ops \<Rightarrow> bytes \<Rightarrow> bytes \<Rightarrow> addr option \<Rightarrow> conda_state \<Rightarrow> raw_execution result \<times> conda_state" where
  "op_RunPython y ops env code stdin st =
     (if env = [] then (Inl (Err ''environment name is empty''), st)
      else if code = [] then (Inl (Err ''code is empty''), st)
      else with_env y ops env (\<lambda>condaPath. op_executeCommand y condaPath (conda_run_args env [''-c'', code]) stdin) st)"

definition op_RunScript :: "conda_system \<Rightarrow> conda_ops \<Rightarrow> bytes \<Rightarrow> bytes \<Rightarrow> bytes list \<Rightarrow> addr option \<Rightarrow> conda_state
    \<Rightarrow> raw_execution result \<times> conda_state" where
  "op_RunScript y ops env scriptPath args stdin st =
     (if env = [] then (Inl (Err ''environment name is empty''), st)
      else if scriptPath = [] then (Inl (Err ''script path is empty''), st)
      else with_env y ops env (\<lambda>condaPath. op_executeCommand y condaPath (conda_run_args env (scriptPath # args)) stdin) st)"

definition op_RunConda :: "conda_system \<Rightarrow> conda_ops \<Rightarrow> bytes list \<Rightarrow> addr option \<Rightarrow> conda_state \<Rightarrow> raw_execution result \<times> conda_state" where
  "op_RunConda y ops args stdin st =
     (if args = [] then (Inl (Err ''conda command requires at least one argument''), st) else co_run y ops args stdin st)"

section \<open>Installing conda\<close>

definition op_Install :: "conda_system \<Rightarrow> bytes \<Rightarrow> conda_state \<Rightarrow> raw_execution result \<times> conda_state" where
  "op_Install y pythonVersion st =
     (if pythonVersion = [] then (Inl (Err ''python version is empty''), st)
      else (case StellarPath (cy_start y) of
          Inl e \<Rightarrow> (Inl (Wrap ''failed to get stellar path'' e), st)
        | Inr appDir \<Rightarrow> (case DownloadCondaInstaller (conda_host.truncate y) pythonVersion CONDA_VERSION of
            Inl e \<Rightarrow> (Inl (Wrap ''failed to get download URL'' e), st)
          | Inr url \<Rightarrow> (case on_fs (Download (cz_get y) appDir url) st of
              (Inl e, st) \<Rightarrow> (Inl (Wrap ''failed to download installer'' e), st)
            | (Inr filePath, st) \<Rightarrow>
                (let os = se_GOOS (cy_start y); installPath = path_Join [appDir, ''conda''] in
                 if os = ''darwin'' \<or> os = ''linux'' then
                   op_executeCommand y ''/bin/sh'' [filePath, ''-b'', ''-f'', ''-p'', installPath] None st
                 else if os = ''windows'' then
                   op_executeCommand y filePath [''/InstallationType=JustMe'', ''/AddToPath=0'', ''/RegisterPython=0'', ''/RegisterConda=0'',
                     ''/S'', ''/D='' @ installPath] None st
                 else (Inl (Err (''unsupported OS: '' @ os)), st))))))"

end
