(* ===== verification/Conda_Client.thy ===== *)
theory Conda_Client
  imports Conda_Ops
begin

text \<open>
  The installation of the bundled Python package, \<open>InstallClient\<close> of \<open>operations.go\<close>; the dispatch of subcommands in \<open>handler.go\<close>
  and the creator that the package registers, \<open>conda_service_init.go\<close>; and what the operations guarantee.
\<close>

section \<open>Extracting the package\<close>

definition extract_entry :: "bytes \<Rightarrow> bytes \<times> bytes option \<Rightarrow> filesys \<Rightarrow> goerr option \<times> filesys" where
  "extract_entry targetDir e fs = (case e of (relPath, data) \<Rightarrow>
     (if relPath = ''.'' then (None, fs)
      else (let targetPath = path_Join [targetDir, relPath] in
        (case data of
           None \<Rightarrow> os_MkdirAll targetPath fs
         | Some b \<Rightarrow> (case os_MkdirAll (path_Dir targetPath) fs of
             (Some e, fs) \<Rightarrow> (Some e, fs)
           | (None, fs) \<Rightarrow> (case os_WriteFile targetPath b fs of
               (Some e, fs) \<Rightarrow> (Some (Wrap (''failed to write file '' @ targetPath) e), fs)
             | (None, fs) \<Rightarrow> (None, fs)))))))"

fun extract_entries :: "bytes \<Rightarrow> (bytes \<times> bytes option) list \<Rightarrow> filesys \<Rightarrow> goerr option \<times> filesys" where
  "extract_entries targetDir [] fs = (None, fs)"
| "extract_entries targetDir (e # es) fs = (case extract_entry targetDir e fs of
      (Some err, fs) \<Rightarrow> (Some err, fs)
    | (None, fs) \<Rightarrow> extract_entries targetDir es fs)"

definition extractEmbeddedClient :: "conda_system \<Rightarrow> bytes \<Rightarrow> filesys \<Rightarrow> goerr option \<times> filesys" where
  "extractEmbeddedClient y targetDir fs = (case os_MkdirAll targetDir fs of
      (Some e, fs) \<Rightarrow> (Some (Wrap ''failed to create target directory'' e), fs)
    | (None, fs) \<Rightarrow> extract_entries targetDir (cz_assets y) fs)"

section \<open>Installing it\<close>

text \<open>What is left to do when the installation ends.\<close>

record client_cleanup =
  cl_dir :: bytes
  cl_condaPath :: bytes
  cl_env :: bytes

text \<open>Every failure removes the directory first.\<close>

definition give_up :: "bytes \<Rightarrow> goerr \<Rightarrow> conda_state \<Rightarrow> 'a result \<times> conda_state" where
  "give_up dir e st = (Inl e, snd (on_fs (os_RemoveAll dir) st))"

definition missing_file :: "bytes \<Rightarrow> conda_state \<Rightarrow> bool" where
  "missing_file path st = (case os_Stat path (cn_fs st) of Inl e \<Rightarrow> IsNotExist e | Inr _ \<Rightarrow> False)"

text \<open>A command that is started and waited for, with the texts of its two errors.\<close>

definition run_and_wait :: "conda_system \<Rightarrow> bytes \<Rightarrow> bytes list \<Rightarrow> bytes \<Rightarrow> bytes \<Rightarrow> conda_state \<Rightarrow> goerr option \<times> conda_state" where
  "run_and_wait y command args no_start no_success st = (case op_executeCommand y command args None st of
      (Inl e, st) \<Rightarrow> (Some (Wrap no_start e), st)
    | (Inr _, st) \<Rightarrow> (case await_command y st of ((_, _, err), st) \<Rightarrow> (map_option (Wrap no_success) err, st)))"

text \<open>\<open>filepath.Glob\<close> of the wheels in a directory whose path has no pattern characters, in the order of their names.\<close>

definition wheel_files :: "bytes \<Rightarrow> conda_state \<Rightarrow> bytes list" where
  "wheel_files dir st = (case os_ReadDir dir (cn_fs st) of
      Inl _ \<Rightarrow> []
    | Inr es \<Rightarrow> map (\<lambda>e. path_Join [dir, fst e]) (filter (\<lambda>e. suffix ''.whl'' (fst e)) es))"

definition build_and_install :: "conda_system \<Rightarrow> bytes \<Rightarrow> bytes \<Rightarrow> bytes \<Rightarrow> conda_state \<Rightarrow> (raw_execution \<times> client_cleanup) result \<times> conda_state" where
  "build_and_install y condaPath envName tempDir st = (let clientDir = path_Join [tempDir, ''stellar-client''] in
     (case on_fs (extractEmbeddedClient y clientDir) st of
        (Some e, st) \<Rightarrow> give_up tempDir (Wrap ''failed to extract stellar-client'' e) st
      | (None, st) \<Rightarrow>
          if missing_file (path_Join [clientDir, ''pyproject.toml'']) st
          then give_up tempDir (Err ''pyproject.toml not found in extracted package'') st
          else if missing_file (path_Join [clientDir, ''stellar_client'', ''__init__.py'']) st
          then give_up tempDir (Err ''__init__.py not found in extracted package'') st
          else (case run_and_wait y condaPath (conda_run_args envName [''-m'', ''pip'', ''install'', ''--quiet'', ''build''])
              ''failed to install build tool'' ''build tool installation failed'' st of
            (Some e, st) \<Rightarrow> give_up tempDir e st
          | (None, st) \<Rightarrow> (case run_and_wait y condaPath (conda_run_args envName [''-m'', ''build'', ''--wheel'', ''--outdir'', tempDir, clientDir])
              ''failed to start wheel build'' ''wheel build failed'' st of
              (Some e, st) \<Rightarrow> give_up tempDir e st
            | (None, st) \<Rightarrow> (case wheel_files tempDir st of
                [] \<Rightarrow> give_up tempDir (Err ''wheel file not found after build'') st
              | wheelFile # _ \<Rightarrow>
                  (case op_executeCommand y condaPath (conda_run_args envName [''-m'', ''pip'', ''install'', ''--force-reinstall'', wheelFile]) None st of
                     (Inl e, st) \<Rightarrow> give_up tempDir (Wrap ''failed to start pip install'' e) st
                   | (Inr x, st) \<Rightarrow> (Inr (x, \<lparr>cl_dir = tempDir, cl_condaPath = condaPath, cl_env = envName\<rparr>), st)))))))"

definition op_InstallClient :: "conda_system \<Rightarrow> conda_ops \<Rightarrow> bytes \<Rightarrow> conda_state \<Rightarrow> (raw_execution \<times> client_cleanup) result \<times> conda_state" where
  "op_InstallClient y ops envName st =
     (if envName = [] then (Inl (Err ''environment name is empty''), st)
      else with_env y ops envName (\<lambda>condaPath st.
        (case StellarPath (cy_start y) of
           Inl e \<Rightarrow> (Inl (Wrap ''failed to get stellar path'' e), st)
         | Inr appDir \<Rightarrow> (let tempDir = path_Join [appDir, ''temp'', ''stellar-client-'' @ cz_nano y] in
             (case on_fs (os_MkdirAll tempDir) st of
                (Some e, st) \<Rightarrow> (Inl (Wrap ''failed to create temp directory'' e), st)
              | (None, st) \<Rightarrow> build_and_install y condaPath envName tempDir st)))) st)"

text \<open>
  The goroutine of \<open>wrapWithCleanupAndVerify\<close>: after a success the package is imported in the environment, then the directory is
  removed and the results are passed on.  The result is the pair of error and exit code.
\<close>

definition verify_import :: "conda_system \<Rightarrow> client_cleanup \<Rightarrow> conda_state \<Rightarrow> (goerr option \<times> int) \<times> conda_state" where
  "verify_import y cl st = (let file = path_Join [cl_dir cl, ''verify_install.py''] in
     (case on_fs (os_WriteFile file (cz_verifyScript y)) st of
        (Some e, st) \<Rightarrow> ((Some (Wrap ''failed to write verification script'' e), 1), st)
      | (None, st) \<Rightarrow> (case run_and_wait y (cl_condaPath cl) (conda_run_args (cl_env cl) [file]) [] [] st of
          (Some e, st) \<Rightarrow> ((Some (Wrap ''package installed but imports failed'' e), 1), st)
        | (None, st) \<Rightarrow> ((None, 0), st))))"

definition cleanup_and_verify :: "conda_system \<Rightarrow> client_cleanup \<Rightarrow> goerr option \<times> int \<Rightarrow> conda_state \<Rightarrow> (goerr option \<times> int) \<times> conda_state" where
  "cleanup_and_verify y cl original st =
     (case (if original = (None, 0) then verify_import y cl st else (original, st)) of
        (r, st) \<Rightarrow> (r, snd (on_fs (os_RemoveAll (cl_dir cl)) st)))"

text \<open>The wrapped execution has channels of its own; \<open>Cancel\<close> removes the directory too.\<close>

definition wrap_step :: "conda_system \<Rightarrow> client_cleanup \<Rightarrow> raw_execution \<Rightarrow> raw_execution \<Rightarrow> conda_state \<Rightarrow> raw_execution \<times> conda_state" where
  "wrap_step y cl original wrapped st = (case bridge_Wait original of
      None \<Rightarrow> (wrapped, st)
    | Some (code, err) \<Rightarrow> (case cleanup_and_verify y cl (err, code) st of
        ((err, code), st) \<Rightarrow> (wrapped\<lparr>ex_Done := ch_close (ch_put err (ex_Done wrapped)),
          ex_ExitCode := ch_close (ch_put code (ex_ExitCode wrapped)), ex_waiting := False\<rparr>, st)))"

definition wrap_Cancel :: "client_cleanup \<Rightarrow> raw_execution \<Rightarrow> conda_state \<Rightarrow> raw_execution \<times> conda_state" where
  "wrap_Cancel cl original st = (ex_Cancel original, snd (on_fs (os_RemoveAll (cl_dir cl)) st))"

section \<open>Subcommands\<close>

definition only :: "'a result \<times> conda_state \<Rightarrow> ('a \<times> client_cleanup option) result \<times> conda_state" where
  "only r = (map_sum (\<lambda>e. e) (\<lambda>x. (x, None)) (fst r), snd r)"

definition as_output :: "conda_system \<Rightarrow> bytes result \<times> conda_state \<Rightarrow> raw_execution result \<times> conda_state" where
  "as_output y r = (map_sum (\<lambda>e. e) (finished_execution y) (fst r), snd r)"

definition Conda_HandleSubcommand :: "conda_system \<Rightarrow> conda_ops \<Rightarrow> bytes \<Rightarrow> bytes list \<Rightarrow> addr option \<Rightarrow> conda_state
    \<Rightarrow> (raw_execution \<times> client_cleanup option) result \<times> conda_state" where
  "Conda_HandleSubcommand y ops subcommand args stdin st =
     (if subcommand = ''list'' then only (op_ListEnvironments y ops st)
      else if subcommand = ''get'' then
        (if length args < 1 then (Inl (Err ''environment name required''), st)
         else only (as_output y (op_GetEnvironment y ops (args ! 0) st)))
      else if subcommand = ''create'' then
        (if length args < 1 then (Inl (Err ''environment name required''), st)
         else only (op_CreateEnvironment y ops (args ! 0) (python_flag ''3.9'' args) st))
      else if subcommand = ''remove'' then
        (if length args < 1 then (Inl (Err ''environment name required''), st)
         else only (op_RemoveEnvironment y ops (args ! 0) st))
      else if subcommand = ''update'' then
        (if length args < 2 then (Inl (Err ''environment name and YAML file required''), st)
         else only (op_UpdateEnvironment y ops (args ! 0) (args ! 1) st))
      else if subcommand = ''install'' then
        (if length args < 2 then (Inl (Err ''environment name and package name required''), st)
         else only (op_InstallPackage y ops (args ! 0) (args ! 1) st))
      else if subcommand = ''install-client'' then
        (if length args < 1 then (Inl (Err ''environment name required''), st)
         else (case op_InstallClient y ops (args ! 0) st of
             (Inl e, st) \<Rightarrow> (Inl e, st)
           | (Inr (x, cl), st) \<Rightarrow> (Inr (x, Some cl), st)))
      else if subcommand = ''path'' then only (as_output y (op_CommandPath y ops st))
      else if subcommand = ''version'' then only (op_GetCondaVersion y ops st)
      else if subcommand = ''install-conda'' then only (op_Install y (if length args > 0 then args ! 0 else ''py313'') st)
      else if subcommand = ''run-python'' then
        (if length args < 2 then (Inl (Err ''environment name and code required''), st)
         else only (op_RunPython y ops (args ! 0) (args ! 1) stdin st))
      else if subcommand = ''run-script'' then
        (if length args < 2 then (Inl (Err ''environment name and script path required''), st)
         else only (op_RunScript y ops (args ! 0) (args ! 1) (drop 2 args) stdin st))
      else if subcommand = ''run'' then
        (if args = [] then (Inl (Err ''conda command requires at least one argument''), st)
         else only (op_RunConda y ops args stdin st))
      else (Inl (Err (''unknown conda subcommand: '' @ subcommand)), st))"

text \<open>The creator that is registered with the compute service.\<close>

definition registerCreator :: "conda_system \<Rightarrow> conda_state \<Rightarrow> bytes \<Rightarrow> conda_created result" where
  "registerCreator y st condaPath = (case NewCondaOperations y condaPath st of (ops, st) \<Rightarrow>
     Inr (CondaHandler (\<lambda>subcommand args stdin. map_sum (\<lambda>e. e) fst (fst (Conda_HandleSubcommand y ops subcommand args stdin st)))))"

section \<open>The directory of an installation\<close>

text \<open>The directory is gone, or its removal was tried and failed.\<close>

definition removed :: "bytes \<Rightarrow> filesys \<Rightarrow> bool" where
  "removed dir fs \<longleftrightarrow> (\<exists>fs0 e. os_RemoveAll dir fs0 = (e, fs) \<and> (e = None \<longrightarrow> gone dir fs))"

lemma RemoveAll_removed: "dir \<noteq> [] \<Longrightarrow> removed dir (cn_fs (snd (on_fs (os_RemoveAll dir) st)))"
proof -
  assume d: "dir \<noteq> []"
  obtain e fs where r: "os_RemoveAll dir (cn_fs st) = (e, fs)" by (metis surj_pair)
  then have "removed dir fs" using RemoveAll_gone [of dir "cn_fs st" fs] d by (auto simp: removed_def)
  then show ?thesis by (simp add: on_fs_def r)
qed

lemma give_up_removed: "give_up dir e st = (r, st') \<Longrightarrow> dir \<noteq> [] \<Longrightarrow> removed dir (cn_fs st')"
  using RemoveAll_removed [of dir st] by (auto simp: give_up_def)

lemma build_failed:
  assumes "build_and_install y condaPath env dir st = (Inl e, st')"
  shows "\<exists>e' st0. (give_up dir e' st0 :: (raw_execution \<times> client_cleanup) result \<times> conda_state) = (Inl e, st')"
  using assms unfolding build_and_install_def Let_def
  by (auto split: prod.splits option.splits if_splits list.splits sum.splits)

lemma op_executeCommand_ok:
  "op_executeCommand y command args stdin st = (Inr x, st') \<Longrightarrow> st' = st\<lparr>cn_started := cn_started st @ [(command, args)]\<rparr>"
  by (auto simp: op_executeCommand_def split: if_splits option.splits)

lemma run_and_wait_ok:
  assumes "run_and_wait y command args a b st = (None, st')"
  shows "\<exists>x. op_executeCommand y command args None st = (Inr x, st\<lparr>cn_started := cn_started st'\<rparr>)
    \<and> wait_error (fst (cz_run y (cn_started st') (cn_fs st))) = None"
proof -
  obtain x st1 out code where e: "op_executeCommand y command args None st = (Inr x, st1)" "await_command y st1 = ((out, code, None), st')"
    using assms by (auto simp: run_and_wait_def split: prod.splits sum.splits)
  then show ?thesis using op_executeCommand_ok [OF e(1)] by (auto simp: await_command_def split: prod.splits)
qed

lemma build_cleanup:
  assumes "build_and_install y condaPath env dir st = (Inr (x, cl), st')"
  shows "cl = \<lparr>cl_dir = dir, cl_condaPath = condaPath, cl_env = env\<rparr> \<and>
    (\<exists>st0 wheelFile. op_executeCommand y condaPath (conda_run_args env [''-m'', ''pip'', ''install'', ''--force-reinstall'', wheelFile]) None st0 = (Inr x, st'))"
  using assms
  by (auto simp: build_and_install_def Let_def give_up_def split: prod.splits option.splits if_splits list.splits sum.splits)

lemma verify_import_ok:
  "verify_import y cl st = ((None, 0), st') \<Longrightarrow>
   \<exists>st4. run_and_wait y (cl_condaPath cl) (conda_run_args (cl_env cl) [path_Join [cl_dir cl, ''verify_install.py'']]) [] [] st4 = (None, st')"
  by (auto simp: verify_import_def Let_def split: prod.splits option.splits)

end
