(* ===== verification/Conda_Safety.thy ===== *)
theory Conda_Safety
  imports Conda_Client
begin

text \<open>
  What the conda subcommands start: nothing in an environment that conda does not list, nothing for an environment that exists
  already; and the output that is collected from a command.
\<close>

section \<open>Collecting output\<close>

text \<open>
  The process writes in any chunks; once the bridge has read them and the process has ended, the writer holds all of the output
  and \<open>Wait\<close> gives what \<open>await_command\<close> says.
\<close>

lemma bridge_reads:
  "fin (ex_Stdout x) = None \<Longrightarrow> \<not> shut (ex_Stdout x) \<Longrightarrow> \<forall>b \<in> set (inbox (ex_Stdout x)). b \<noteq> [] \<and> length b \<le> copyBuf \<Longrightarrow>
   (bridge_round ^^ length (inbox (ex_Stdout x))) (x, acc) = (x\<lparr>ex_Stdout := (ex_Stdout x)\<lparr>inbox := []\<rparr>\<rparr>, acc @ concat (inbox (ex_Stdout x)))"
proof (induction "inbox (ex_Stdout x)" arbitrary: x acc)
  case (Cons b bs)
  let ?x = "x\<lparr>ex_Stdout := (ex_Stdout x)\<lparr>inbox := bs\<rparr>\<rparr>"
  have i: "inbox (ex_Stdout x) = b # bs" by (rule Cons.hyps(2) [symmetric])
  have "bridge_round (x, acc) = (?x, acc @ b)"
    using Cons.prems i by (simp add: bridge_round_def conn_read_def)
  moreover have "(bridge_round ^^ length bs) (?x, acc @ b) = (?x\<lparr>ex_Stdout := (ex_Stdout ?x)\<lparr>inbox := []\<rparr>\<rparr>, (acc @ b) @ concat bs)"
    using Cons.hyps(1) [of ?x "acc @ b"] Cons.prems i by simp
  ultimately show ?case unfolding i by (simp add: funpow_Suc_right del: funpow.simps)
qed simp

lemma awaited_result:
  assumes "op_executeCommand y command args stdin st = (Inr x, st')"
    and "x' = wait_step w (x\<lparr>ex_Stdout := a, ex_Stderr := b\<rparr>)" "inbox a = []" "inbox b = []"
  shows "bridge_Wait x' = Some (exit_code w, wait_error w)"
  using assms
  by (auto simp: op_executeCommand_def wait_step_def drained_def bridge_Wait_def ch_recv_def ch_close_def ch_put_def new_chan_def
      split: if_splits option.splits)

section \<open>Commands and environments\<close>

lemma getCondaPath_found: "ops \<noteq> [] \<Longrightarrow> getCondaPath y ops st = (Inr ops, st)"
  by (simp add: getCondaPath_def)

lemma await_started: "cn_started (snd (await_command y st)) = cn_started st"
  by (simp add: await_command_def split: prod.split)

lemma get_env_started:
  assumes "op_GetEnvironment y ops name st = (r, st')" "ops \<noteq> []"
  shows "cn_started st' = cn_started st \<or> cn_started st' = cn_started st @ [(ops, [''env'', ''list''])]"
proof (cases "name = []")
  case False
  obtain l st1 where l: "op_executeCommand y ops [''env'', ''list''] None st = (l, st1)" by (metis surj_pair)
  then have L: "op_ListEnvironments y ops st = (l, st1)" by (simp add: op_ListEnvironments_def co_run_def getCondaPath_found [OF assms(2)])
  show ?thesis
  proof (cases l)
    case (Inl e)
    then show ?thesis using assms(1) False L l by (auto simp: op_GetEnvironment_def op_executeCommand_def split: if_splits option.splits)
  next
    case (Inr x)
    obtain out code err st2 where a: "await_command y st1 = ((out, code, err), st2)" by (metis prod_cases3 surj_pair)
    then have "cn_started st2 = cn_started st1" using await_started [of y st1] by simp
    moreover have "st' = st2" using assms(1) False L Inr a
      by (auto simp: op_GetEnvironment_def split: if_splits option.splits)
    ultimately show ?thesis using op_executeCommand_ok [of y ops "[''env'', ''list'']" None st x st1] l Inr by simp
  qed
qed (use assms in \<open>simp add: op_GetEnvironment_def\<close>)

lemma with_env_unlisted:
  assumes "op_GetEnvironment y ops env st = (Inl e, st1)" "ops \<noteq> []"
  shows "with_env y ops env act st = (Inl (Err (''environment not found: '' @ env)), st1)"
  by (simp add: with_env_def getCondaPath_found [OF assms(2)] assms(1))

lemma with_env_listed:
  assumes "op_GetEnvironment y ops env st = (Inr p, st1)" "ops \<noteq> []"
  shows "with_env y ops env act st = act ops st1"
  by (simp add: with_env_def getCondaPath_found [OF assms(2)] assms(1))

lemmas env_operations = op_RemoveEnvironment_def op_UpdateEnvironment_def op_InstallPackage_def op_InstallClient_def
  op_RunPython_def op_RunScript_def

text \<open>The subcommands that work in an environment.\<close>

definition env_subcommands :: "bytes set" where
  "env_subcommands = {''remove'', ''update'', ''install'', ''install-client'', ''run-python'', ''run-script''}"

text \<open>
  C26: A subcommand that works in an environment starts nothing but the listing of environments, and fails, unless conda lists the
  environment.
\<close>

theorem nothing_runs_unlisted:
  assumes "ops \<noteq> []" "subcommand \<in> env_subcommands" "op_GetEnvironment y ops env st = (Inl e, st1)"
    and "Conda_HandleSubcommand y ops subcommand (env # args) stdin st = (r, st')"
  shows "(\<exists>e. r = Inl e) \<and> (cn_started st' = cn_started st \<or> cn_started st' = cn_started st @ [(ops, [''env'', ''list''])])"
proof -
  have u: "with_env y ops env act st = (Inl (Err (''environment not found: '' @ env)), st1)" for act :: "bytes \<Rightarrow> conda_state \<Rightarrow> 'a result \<times> conda_state"
    by (rule with_env_unlisted [OF assms(3,1)])
  have "(\<exists>e. r = Inl e) \<and> (st' = st \<or> st' = st1)"
    using assms(2,4) unfolding env_subcommands_def
    by (auto simp: Conda_HandleSubcommand_def only_def env_operations u split: if_splits)
  then show ?thesis using get_env_started [OF assms(3,1)] by blast
qed

text \<open>
  Creating an environment that conda lists starts nothing more and is an execution that is over with code 0 and prints where the
  environment is; otherwise conda is started to create it with the version after the first \<open>--python\<close>, or 3.9.
\<close>

theorem create_once:
  assumes "ops \<noteq> []" "env \<noteq> []" "python_flag ''3.9'' (env # args) \<noteq> []" "op_GetEnvironment y ops env st = (found, st1)"
    and "la_StdinPipe (cz_launch y) = None"
    and "la_Start (cz_launch y) ops [''create'', ''--name'', env, ''python='' @ python_flag ''3.9'' (env # args), ''-y''] (cz_Environ y) [] = None"
  shows "\<exists>x st'. Conda_HandleSubcommand y ops ''create'' (env # args) stdin st = (Inr (x, None), st') \<and>
    (case found of
       Inr path \<Rightarrow> st' = st1 \<and> bridge_Wait x = Some (0, None)
         \<and> conn_pending (ex_Stdout x) = ''Environment '' @ env @ '' already exists at '' @ path @ [CHR 0x0A]
     | Inl _ \<Rightarrow> st' = st1\<lparr>cn_started := cn_started st1 @ [(ops, [''create'', ''--name'', env, ''python='' @ python_flag ''3.9'' (env # args), ''-y''])]\<rparr>
         \<and> ex_waiting x)"
  using assms
  by (cases found)
    (simp_all add: Conda_HandleSubcommand_def only_def op_CreateEnvironment_def getCondaPath_found op_executeCommand_def finished_execution_def
      createStringOutputExecution_def bridge_Wait_def ch_recv_def ch_put_def new_chan_def conn_of_def conn_pending_def)

section \<open>The installation of the client package\<close>


section \<open>Examples\<close>

text \<open>A system on which conda is found and lists two environments, and every command succeeds.\<close>

definition sample_conda :: conda_system where
  "sample_conda = \<lparr>cy_start = \<lparr>se_GOOS = ''linux'', se_HomeDir = Inr ''/s'', se_Getwd = Inr ''/'', se_key = Inr []\<rparr>, cy_GOARCH = ''amd64'',
     cy_LookPath = (\<lambda>p. p = ''conda''), cy_USERPROFILE = [], cz_Environ = [],
     cz_launch = \<lparr>la_StdinPipe = None, la_Start = (\<lambda>_ _ _ _. None)\<rparr>,
     cz_run = (\<lambda>cs fs. (WaitOk, if snd (last cs) = [''env'', ''list''] then ''ml  /e/ml'' else [], fs)), cz_interrupted = (\<lambda>_. None),
     cz_get = (\<lambda>_. Inl EOF), cz_nano = ''1'', cz_assets = [], cz_verifyScript = []\<rparr>"

definition sample_conda_state :: conda_state where
  "sample_conda_state = \<lparr>cn_fs = \<lparr>fs_root = FDir True [(''s'', FDir True [])], fs_data = [], fs_cwd = []\<rparr>, cn_started = []\<rparr>"

lemma sample_listing:
  "fst (op_GetEnvironment sample_conda ''conda'' ''ml'' sample_conda_state) = Inr ''/e/ml''"
  "fst (op_GetEnvironment sample_conda ''conda'' ''--python'' sample_conda_state) = Inl (Err ''environment not found: --python'')"
  by code_simp+

theorem nothing_runs_unlisted_witness:
  "\<exists>e. fst (Conda_HandleSubcommand sample_conda ''conda'' ''run-python'' [''--python'', ''print(1)''] None sample_conda_state) = Inl e"
proof -
  obtain e st1 where g: "op_GetEnvironment sample_conda ''conda'' ''--python'' sample_conda_state = (Inl e, st1)"
    using sample_listing(2) by (metis prod.collapse)
  obtain r st' where h: "Conda_HandleSubcommand sample_conda ''conda'' ''run-python'' [''--python'', ''print(1)''] None sample_conda_state = (r, st')"
    by (metis surj_pair)
  show ?thesis using nothing_runs_unlisted [OF _ _ g h] by (simp add: env_subcommands_def h)
qed

text \<open>The example of the usage text: the flag in front is taken for the name.\<close>

theorem create_once_witness:
  "\<exists>st'. snd (Conda_HandleSubcommand sample_conda ''conda'' ''create'' [''--python'', ''3.13'', ''myenv''] None sample_conda_state) = st'
    \<and> last (cn_started st') = (''conda'', [''create'', ''--name'', ''--python'', ''python=3.13'', ''-y''])"
proof -
  obtain e st1 where g: "op_GetEnvironment sample_conda ''conda'' ''--python'' sample_conda_state = (Inl e, st1)"
    using sample_listing(2) by (metis prod.collapse)
  have f: "python_flag ''3.9'' [''--python'', ''3.13'', ''myenv''] = ''3.13''" by simp
  have l: "la_StdinPipe (cz_launch sample_conda) = None" "la_Start (cz_launch sample_conda) a b c d = None" for a b c d
    by (simp_all add: sample_conda_def)
  show ?thesis
    using create_once [where stdin = None, of "''conda''" "''--python''" "[''3.13'', ''myenv'']" sample_conda sample_conda_state "Inl e" st1, unfolded f, OF _ _ _ g l]
    by auto
qed


end
