(* ===== verification/Api_Node.thy ===== *)
theory Api_Node
  imports Api_Compute Devices Policy Proxy_Ports File_Client
begin

text \<open>
  The endpoints of \<open>core/socket/socket.go\<close> for devices, the whitelist, files and proxies, and the wrappers of
  \<open>p2p/protocols/file/file.go\<close> they call.  A body is given by its JSON value; headers are left out.  Parameters of a request and
  decoded bodies are arguments.
\<close>

section \<open>Files of another device\<close>

text \<open>
  A connection to the file service of a device: opening the stream, the client, its handshake, and its calls as they end.
\<close>

record 's file_world =
  fw_NewStream :: "bytes \<Rightarrow> 's result"
  fw_NewClient :: "'s \<Rightarrow> 's option"
  fw_Connect :: "'s \<Rightarrow> 's result"
  fw_List :: "bytes \<Rightarrow> bool \<Rightarrow> 's \<Rightarrow> file_entry list result"
  fw_Send :: "bytes \<Rightarrow> bytes \<Rightarrow> 's \<Rightarrow> filesys \<Rightarrow> goerr option"
  fw_Get :: "bytes \<Rightarrow> bytes \<Rightarrow> 's \<Rightarrow> filesys \<Rightarrow> goerr option \<times> filesys"

definition file_session :: "'s file_world \<Rightarrow> (goerr \<Rightarrow> goerr) \<Rightarrow> bytes \<Rightarrow> 's result" where
  "file_session w wrap peer = (case fw_NewStream w peer of
      Inl e \<Rightarrow> Inl (wrap e)
    | Inr s \<Rightarrow> (case fw_NewClient w s of
        None \<Rightarrow> Inl (Err ''failed to create file client'')
      | Some c \<Rightarrow> (case fw_Connect w c of Inl e \<Rightarrow> Inl (Wrap ''connect'' e) | Inr c \<Rightarrow> Inr c)))"

definition file_List :: "'s file_world \<Rightarrow> bytes \<Rightarrow> bytes \<Rightarrow> file_item list result" where
  "file_List w peer relativePath = (case file_session w (Wrap (''open stream to '' @ peer)) peer of
      Inl e \<Rightarrow> Inl e
    | Inr c \<Rightarrow> map_sum (\<lambda>e. e) list_items (fw_List w relativePath False c))"

definition file_ListFullTree :: "'s file_world \<Rightarrow> bytes \<Rightarrow> file_item list result" where
  "file_ListFullTree w peer = (case file_session w (Wrap (''open stream to '' @ peer)) peer of
      Inl e \<Rightarrow> Inl e
    | Inr c \<Rightarrow> map_sum (\<lambda>e. e) list_items (fw_List w ''/'' True c))"

definition file_Upload :: "'s file_world \<Rightarrow> bytes \<Rightarrow> bytes \<Rightarrow> bytes \<Rightarrow> filesys \<Rightarrow> goerr option" where
  "file_Upload w peer filePath saveFilePath fs = (case file_session w (\<lambda>e. e) peer of
      Inl e \<Rightarrow> Some e
    | Inr c \<Rightarrow> fw_Send w filePath saveFilePath c fs)"

definition file_Download :: "'s file_world \<Rightarrow> bytes \<Rightarrow> bytes \<Rightarrow> bytes \<Rightarrow> filesys \<Rightarrow> bytes result \<times> filesys" where
  "file_Download w peer fileName destPath fs = (case file_session w (\<lambda>e. e) peer of
      Inl e \<Rightarrow> (Inl e, fs)
    | Inr c \<Rightarrow> (case fw_Get w fileName destPath c fs of
        (Some e, fs) \<Rightarrow> (Inl e, fs)
      | (None, fs) \<Rightarrow> (Inr destPath, fs)))"

primrec file_item_to_json :: "file_item \<Rightarrow> json" where
  "file_item_to_json (FileItem d f s i cs) = jobj
     [fld ''DirectoryName'' (JStr d), fld ''Filename'' (JStr f), fld ''Size'' (jint s), fld ''IsDir'' (JBool i),
      fld ''Children'' (case map_option (map file_item_to_json) cs of None \<Rightarrow> JNull | Some l \<Rightarrow> JArr l)]"

section \<open>Devices\<close>

definition json_error :: "nat \<Rightarrow> bytes \<Rightarrow> http_reply" where
  "json_error code msg = Reply code (JsonBody (jobj [fld ''error'' (JStr msg)]))"

text \<open>\<open>ks\<close> are the keys of the map in the order of the encoder.\<close>

definition api_GetDevices :: "bytes list \<Rightarrow> registry \<Rightarrow> http_reply" where
  "api_GetDevices ks r = Reply 200 (JsonBody (jobj
     (map (\<lambda>k. case node_Devices r k of None \<Rightarrow> None | Some d \<Rightarrow> fld k (device_to_json d)) ks)))"

text \<open>The error value of \<open>GetDevice\<close> has no exported member, so its JSON is an empty object.\<close>

definition api_GetDevice :: "bytes \<Rightarrow> registry \<Rightarrow> http_reply" where
  "api_GetDevice deviceId r = (case node_GetDevice deviceId r of
      Inl _ \<Rightarrow> Reply 500 (JsonBody (jobj []))
    | Inr d \<Rightarrow> Reply 200 (JsonBody (device_to_json d)))"

text \<open>When the listing fails nothing is written.\<close>

definition api_GetDeviceTree :: "'s file_world \<Rightarrow> bytes \<Rightarrow> registry \<Rightarrow> http_reply" where
  "api_GetDeviceTree w deviceId r = (case node_GetDevice deviceId r of
      Inl _ \<Rightarrow> Reply 500 (JsonBody (jobj []))
    | Inr d \<Rightarrow> (case file_ListFullTree w (di_ID d) of
        Inl _ \<Rightarrow> Reply 200 (RawBody [])
      | Inr files \<Rightarrow> Reply 200 (JsonBody (JArr (map file_item_to_json files)))))"

definition policy_to_json :: "policy \<Rightarrow> json" where
  "policy_to_json p = jobj [fld ''Enable'' (JBool (pl_Enable p)), fld ''WhiteList'' (jslice JStr (Some (pl_WhiteList p)))]"

text \<open>The fields of the node that \<open>GetNodeInfo\<close> shows.\<close>

record node_info =
  ni_ID :: bytes
  ni_Addresses :: "bytes list"
  ni_Bootstrapper :: bool
  ni_RelayNode :: bool
  ni_ReferenceToken :: bytes

definition api_GetNodeInfo :: "node_info \<Rightarrow> bytes list \<Rightarrow> policy \<Rightarrow> http_reply" where
  "api_GetNodeInfo n ks p = Reply 200 (JsonBody (jobj
     [fld ''NodeID'' (JStr (ni_ID n)), fld ''Addresses'' (jslice JStr (Some (ni_Addresses n))), fld ''Bootstrapper'' (JBool (ni_Bootstrapper n)),
      fld ''RelayNode'' (JBool (ni_RelayNode n)), fld ''ReferenceToken'' (JStr (ni_ReferenceToken n)), fld ''DevicesCount'' (jnat (length ks)),
      fld ''Policy'' (policy_to_json p)]))"

definition api_GetHealth :: http_reply where
  "api_GetHealth = Reply 200 (JsonBody (jobj [fld ''status'' (JStr ''healthy'')]))"

text \<open>\<open>parse\<close> is \<open>AddrInfoFromString\<close>; \<open>connect\<close> is \<open>ConnectDevice\<close>, which ends the program without its system information.\<close>

definition api_ConnectToPeer :: "(bytes \<Rightarrow> bytes result) \<Rightarrow> (bytes \<Rightarrow> registry \<Rightarrow> (device_info result) option \<times> registry) \<Rightarrow> bytes result \<Rightarrow> registry
    \<Rightarrow> http_reply option \<times> registry" where
  "api_ConnectToPeer parse connect req r = (case req of
      Inl e \<Rightarrow> (Some (json_error 400 (err_text e)), r)
    | Inr peerInfo \<Rightarrow> (case parse peerInfo of
        Inl _ \<Rightarrow> (Some (json_error 400 ''Invalid peer info format''), r)
      | Inr k \<Rightarrow> (case connect k r of
          (None, r) \<Rightarrow> (None, r)
        | (Some (Inl e), r) \<Rightarrow> (Some (json_error 500 (err_text e)), r)
        | (Some (Inr d), r) \<Rightarrow> (Some (Reply 200 (JsonBody (device_to_json d))), r))))"

definition api_PingDevice :: "network \<Rightarrow> bytes \<Rightarrow> registry \<Rightarrow> http_reply" where
  "api_PingDevice net deviceId r = (case node_GetDevice deviceId r of
      Inl _ \<Rightarrow> json_error 404 ''Device not found''
    | Inr d \<Rightarrow> (case nt_Ping net (di_ID d) of
        Some e \<Rightarrow> json_error 404 (err_text e)
      | None \<Rightarrow> Reply 200 (JsonBody (device_to_json d))))"

text \<open>The answer is decoded over the device that is known.\<close>

definition api_GetDeviceInfo :: "(bytes \<Rightarrow> bytes option) \<Rightarrow> (bytes \<Rightarrow> bytes option) \<Rightarrow> network \<Rightarrow> bytes \<Rightarrow> registry \<Rightarrow> http_reply" where
  "api_GetDeviceInfo pid tm net deviceId r = (case node_GetDevice deviceId r of
      Inl _ \<Rightarrow> json_error 404 ''Device not found''
    | Inr d \<Rightarrow> (case nt_GetEcho net (di_ID d) of
        Inl e \<Rightarrow> json_error 503 (err_text e)
      | Inr s \<Rightarrow> (case unmarshal (device_fields pid tm) s d of
          (d, good) \<Rightarrow> if good then Reply 200 (JsonBody (device_to_json d)) else json_error 503 ''invalid device information'')))"

section \<open>The whitelist\<close>

text \<open>\<open>strconv.ParseBool\<close>.\<close>

definition ParseBool :: "bytes \<Rightarrow> bool option" where
  "ParseBool s =
     (if s \<in> set [''1'', ''t'', ''T'', ''TRUE'', ''true'', ''True''] then Some True
      else if s \<in> set [''0'', ''f'', ''F'', ''FALSE'', ''false'', ''False''] then Some False else None)"

definition api_GetPolicy :: "policy \<Rightarrow> http_reply" where
  "api_GetPolicy p = Reply 200 (JsonBody (policy_to_json p))"

definition api_SetPolicy :: "bytes option \<Rightarrow> policy \<Rightarrow> http_reply \<times> policy" where
  "api_SetPolicy enable p = (case ParseBool (case enable of None \<Rightarrow> ''true'' | Some s \<Rightarrow> s) of
      None \<Rightarrow> (Reply 406 (RawBody []), p)
    | Some b \<Rightarrow> (Reply 200 (RawBody []), p\<lparr>pl_Enable := b\<rparr>))"

definition api_GetPolicyWhiteList :: "policy \<Rightarrow> http_reply" where
  "api_GetPolicyWhiteList p = Reply 200 (JsonBody (jslice JStr (Some (pl_WhiteList p))))"

definition json_success :: http_reply where
  "json_success = Reply 200 (JsonBody (jobj [fld ''success'' (JBool True)]))"

definition api_AddPolicyWhiteList :: "(bytes \<Rightarrow> 'm result) \<Rightarrow> ('m \<Rightarrow> 'i result) \<Rightarrow> start_env \<Rightarrow> bytes \<Rightarrow> policy \<Rightarrow> config_store
    \<Rightarrow> http_reply \<times> policy \<times> config_store" where
  "api_AddPolicyWhiteList addr ident env deviceId p st = (case AddWhiteList addr ident env deviceId p st of
      (Some _, ps) \<Rightarrow> (Reply 400 (RawBody []), ps)
    | (None, ps) \<Rightarrow> (json_success, ps))"

text \<open>The device is named by the query, or by a form in the body, or by a post form.\<close>

definition api_RemovePolicyWhiteList :: "start_env \<Rightarrow> bytes \<Rightarrow> bytes option \<Rightarrow> bytes \<Rightarrow> policy \<Rightarrow> config_store \<Rightarrow> http_reply \<times> policy \<times> config_store" where
  "api_RemovePolicyWhiteList env query form postForm p st =
     (let deviceId = (if query \<noteq> [] then query
          else (let d = (case form of None \<Rightarrow> [] | Some d \<Rightarrow> d) in if d = [] then postForm else d))
      in if deviceId = [] then (json_error 400 ''deviceId is required'', p, st)
         else (case RemoveWhiteList env deviceId p st of
             (Some e, ps) \<Rightarrow> (json_error 404 (err_text e), ps)
           | (None, ps) \<Rightarrow> (json_success, ps)))"

section \<open>Transfers\<close>

definition device_not_found :: "bytes \<Rightarrow> http_reply" where
  "device_not_found deviceId = json_error 404 (''Device not found: '' @ deviceId)"

definition api_ListFiles :: "'s file_world \<Rightarrow> bytes \<Rightarrow> bytes option \<Rightarrow> registry \<Rightarrow> http_reply" where
  "api_ListFiles w deviceId path r = (let path = (case path of None \<Rightarrow> ''/'' | Some p \<Rightarrow> p) in
     if deviceId = [] then json_error 400 ''Device ID is required''
     else (case node_GetDevice deviceId r of
         Inl _ \<Rightarrow> device_not_found deviceId
       | Inr d \<Rightarrow> (case file_List w (di_ID d) path of
           Inl e \<Rightarrow> Reply 500 (JsonBody (jobj [fld ''device_id'' (JStr deviceId), fld ''error'' (JStr (''Failed to list files: '' @ err_text e)),
             fld ''path'' (JStr path)]))
         | Inr files \<Rightarrow> Reply 200 (JsonBody (JArr (map file_item_to_json files))))))"

definition api_DownloadFile :: "'s file_world \<Rightarrow> bytes \<Rightarrow> bytes \<Rightarrow> bytes \<Rightarrow> registry \<Rightarrow> filesys \<Rightarrow> http_reply \<times> filesys" where
  "api_DownloadFile w deviceId remotePath destPath r fs =
     (if deviceId = [] then (json_error 400 ''Device ID is required'', fs)
      else if remotePath = [] \<or> destPath = [] then
        (Reply 400 (JsonBody (jobj [fld ''destPath'' (JStr destPath), fld ''error'' (JStr ''remotePath and destPath are required''),
           fld ''remotePath'' (JStr remotePath)])), fs)
      else (case node_GetDevice deviceId r of
          Inl _ \<Rightarrow> (device_not_found deviceId, fs)
        | Inr d \<Rightarrow> (let fileName = path_Base remotePath in
            (case file_Download w (di_ID d) fileName destPath fs of
               (Inl e, fs) \<Rightarrow> (Reply 500 (JsonBody (jobj [fld ''dest_path'' (JStr destPath), fld ''device_id'' (JStr deviceId),
                  fld ''error'' (JStr (''Download failed: '' @ err_text e)), fld ''remote_path'' (JStr remotePath)])), fs)
             | (Inr filePath, fs) \<Rightarrow> (Reply 200 (JsonBody (jobj [fld ''fileName'' (JStr fileName), fld ''filePath'' (JStr filePath),
                  fld ''remotePath'' (JStr remotePath), fld ''success'' (JBool True)])), fs)))))"

definition api_UploadFile :: "'s file_world \<Rightarrow> bytes \<Rightarrow> bytes \<Rightarrow> bytes \<Rightarrow> registry \<Rightarrow> filesys \<Rightarrow> http_reply" where
  "api_UploadFile w deviceId localPath remotePath r fs =
     (if deviceId = [] then json_error 400 ''Device ID is required''
      else if localPath = [] \<or> remotePath = [] then
        Reply 400 (JsonBody (jobj [fld ''error'' (JStr ''localPath and remotePath are required''), fld ''localPath'' (JStr localPath),
          fld ''remotePath'' (JStr remotePath)]))
      else if (case os_Stat localPath fs of Inl e \<Rightarrow> IsNotExist e | Inr _ \<Rightarrow> False) then
        Reply 400 (JsonBody (jobj [fld ''error'' (JStr (''Local file not found: '' @ localPath)), fld ''localPath'' (JStr localPath)]))
      else (case node_GetDevice deviceId r of
          Inl _ \<Rightarrow> device_not_found deviceId
        | Inr d \<Rightarrow> (case file_Upload w (di_ID d) localPath remotePath fs of
            Some e \<Rightarrow> Reply 500 (JsonBody (jobj [fld ''device_id'' (JStr deviceId), fld ''error'' (JStr (''Upload failed: '' @ err_text e)),
              fld ''localPath'' (JStr localPath), fld ''remotePath'' (JStr remotePath)]))
          | None \<Rightarrow> Reply 200 (JsonBody (jobj [fld ''device_id'' (JStr deviceId), fld ''localPath'' (JStr localPath),
              fld ''remotePath'' (JStr remotePath), fld ''success'' (JBool True)])))))"

text \<open>A temporary file, \<open>os.CreateTemp\<close> with the name it chooses, which is removed when the handler returns.\<close>

definition with_temp :: "bytes \<Rightarrow> (nat \<Rightarrow> filesys \<Rightarrow> http_reply \<times> filesys) \<Rightarrow> filesys \<Rightarrow> http_reply \<times> filesys" where
  "with_temp tmpPath act fs = (case os_Create tmpPath fs of
      (Inl _, fs) \<Rightarrow> (json_error 500 ''Failed to create temporary file'', fs)
    | (Inr i, fs) \<Rightarrow> (case act i fs of (rsp, fs) \<Rightarrow> (rsp, snd (os_Remove tmpPath fs))))"

text \<open>The file of a form: its name, its size, and its contents with the error at their end, once it is opened.\<close>

record form_file =
  ff_Filename :: bytes
  ff_Size :: int
  ff_Open :: "(bytes \<times> goerr option) result"

definition api_UploadFileRaw :: "'s file_world \<Rightarrow> bytes \<Rightarrow> bytes \<Rightarrow> bytes \<Rightarrow> form_file result \<Rightarrow> registry \<Rightarrow> filesys \<Rightarrow> http_reply \<times> filesys" where
  "api_UploadFileRaw w tmpPath deviceId remotePath form r fs =
     (if deviceId = [] then (json_error 400 ''Device ID is required'', fs)
      else if remotePath = [] then (json_error 400 ''remotePath is required'', fs)
      else (case form of
          Inl e \<Rightarrow> (json_error 400 (''File is required: '' @ err_text e), fs)
        | Inr f \<Rightarrow> (case node_GetDevice deviceId r of
            Inl _ \<Rightarrow> (device_not_found deviceId, fs)
          | Inr d \<Rightarrow> with_temp tmpPath (\<lambda>i fs. (case ff_Open f of
              Inl _ \<Rightarrow> (json_error 500 ''Failed to process uploaded file'', fs)
            | Inr (b, err) \<Rightarrow> (let fs = snd (snd (file_Write i b (0, fs))) in
                (case err of
                   Some _ \<Rightarrow> (json_error 500 ''Failed to save uploaded file'', fs)
                 | None \<Rightarrow> (case file_Upload w (di_ID d) tmpPath remotePath fs of
                     Some e \<Rightarrow> (Reply 500 (JsonBody (jobj [fld ''device_id'' (JStr deviceId),
                       fld ''error'' (JStr (''Upload failed: '' @ err_text e)), fld ''remotePath'' (JStr remotePath)])), fs)
                   | None \<Rightarrow> (Reply 200 (JsonBody (jobj [fld ''device_id'' (JStr deviceId), fld ''filename'' (JStr (ff_Filename f)),
                       fld ''remotePath'' (JStr remotePath), fld ''size'' (jint (ff_Size f)), fld ''success'' (JBool True)])), fs)))))) fs)))"

definition api_DownloadFileRaw :: "'s file_world \<Rightarrow> bytes \<Rightarrow> bytes \<Rightarrow> bytes \<Rightarrow> registry \<Rightarrow> filesys \<Rightarrow> http_reply \<times> filesys" where
  "api_DownloadFileRaw w tmpPath deviceId remotePath r fs =
     (if deviceId = [] then (json_error 400 ''Device ID is required'', fs)
      else if remotePath = [] then (json_error 400 ''remotePath is required'', fs)
      else (case node_GetDevice deviceId r of
          Inl _ \<Rightarrow> (device_not_found deviceId, fs)
        | Inr d \<Rightarrow> (let relativePath = (let p = trim_prefix ''/'' remotePath in if p = [] then remotePath else p) in
            with_temp tmpPath (\<lambda>_ fs. (case file_Download w (di_ID d) relativePath tmpPath fs of
              (Inl e, fs) \<Rightarrow> (Reply 500 (JsonBody (jobj [fld ''device_id'' (JStr deviceId),
                fld ''error'' (JStr (''Download failed: '' @ err_text e)), fld ''remote_path'' (JStr remotePath)])), fs)
            | (Inr filePath, fs) \<Rightarrow> (case os_Open filePath fs of
                Inl _ \<Rightarrow> (json_error 500 ''Failed to read downloaded file'', fs)
              | Inr n \<Rightarrow> (Reply 200 (RawBody (case n of FFile _ i \<Rightarrow> fs_data fs ! i | FDir _ _ \<Rightarrow> [])), fs)))) fs)))"

section \<open>Proxies\<close>

record proxy_request =
  px_DeviceID :: bytes
  px_LocalPort :: u64
  px_RemoteHost :: bytes
  px_RemotePort :: u64

definition api_CreateProxy :: "(u64 \<Rightarrow> u64 result) \<Rightarrow> proxy_request result \<Rightarrow> registry \<Rightarrow> proxy_manager \<Rightarrow> http_reply \<times> proxy_manager" where
  "api_CreateProxy listen req r m = (case req of
      Inl e \<Rightarrow> (json_error 400 (err_text e), m)
    | Inr q \<Rightarrow> (case node_GetDevice (px_DeviceID q) r of
        Inl _ \<Rightarrow> (json_error 404 ''Device not found'', m)
      | Inr d \<Rightarrow> (let destAddr = px_RemoteHost q @ '':'' @ show_nat (unat (px_RemotePort q)) in
          (case pm_Proxy listen (di_ID d) (px_LocalPort q) destAddr m of
             (Inl e, m) \<Rightarrow> (json_error 500 (''Cannot create proxy: '' @ err_text e), m)
           | (Inr a, m) \<Rightarrow> (Reply 200 (JsonBody (jobj [fld ''device_id'' (JStr (px_DeviceID q)),
                fld ''local_port'' (jnat (unat (pv_Port (pm_objs m ! a)))), fld ''remote_addr'' (JStr destAddr), fld ''success'' (JBool True)])), m)))))"

definition proxy_json :: "proxy_service \<Rightarrow> json" where
  "proxy_json p = jobj [fld ''device_id'' (JStr (pv_Dest p)), fld ''local_port'' (jnat (unat (pv_Port p))), fld ''remote_addr'' (JStr (pv_DestAddr p))]"

definition api_ListProxies :: "proxy_manager \<Rightarrow> http_reply \<times> proxy_manager" where
  "api_ListProxies m = (case pm_Proxies m of (live, m) \<Rightarrow> (Reply 200 (JsonBody (JArr (map (\<lambda>a. proxy_json (pm_objs m ! a)) live))), m))"

text \<open>\<open>strconv.ParseUint(s, 10, 64)\<close>.\<close>

definition ParseUint64 :: "bytes \<Rightarrow> u64 option" where
  "ParseUint64 s = (case read_nat s of None \<Rightarrow> None | Some n \<Rightarrow> if n < 2 ^ 64 then Some (of_nat n) else None)"

definition api_CloseProxy :: "(proxy_service \<Rightarrow> proxy_service) \<Rightarrow> bytes \<Rightarrow> proxy_manager \<Rightarrow> http_reply \<times> proxy_manager" where
  "api_CloseProxy cl portStr m = (case ParseUint64 portStr of
      None \<Rightarrow> (json_error 400 ''Invalid port number'', m)
    | Some port \<Rightarrow> (Reply 200 (JsonBody (jobj [fld ''port'' (jnat (unat port)), fld ''success'' (JBool True)])), pm_Close cl port m))"

end
