(* ===== verification/Api_Endpoints.thy ===== *)
theory Api_Endpoints
  imports Api_Node File_Ops
begin

text \<open>
  What the endpoints guarantee: transfers through temporary files leave no trace and carry the right contents, proxies that were
  created are listed until they are closed.
\<close>

section \<open>Transfers\<close>

text \<open>What the client of the file service keeps: it changes the contents of the file it writes, not the tree.\<close>

definition client_keeps_tree :: "'s file_world \<Rightarrow> bytes \<Rightarrow> bool" where
  "client_keeps_tree w p \<longleftrightarrow> (\<forall>f c fs. fs_root (snd (fw_Get w f p c fs)) = fs_root fs \<and> fs_cwd (snd (fw_Get w f p c fs)) = fs_cwd fs)"

definition traceless :: "bytes \<Rightarrow> filesys \<Rightarrow> filesys \<Rightarrow> bool" where
  "traceless p fs fs' \<longleftrightarrow> gone p fs' \<and> same_files fs fs'"

lemma traceless_refl: "gone p fs \<Longrightarrow> traceless p fs fs"
  by (simp add: traceless_def same_files_def)

lemma with_temp_traceless:
  assumes "gone p fs" "with_temp p act fs = (rsp, fs')"
    and "\<And>i fs1. fs_root (snd (act i fs1)) = fs_root fs1 \<and> fs_cwd (snd (act i fs1)) = fs_cwd fs1"
  shows "traceless p fs fs'"
proof -
  obtain x fs1 where x: "os_Create p fs = (x, fs1)" by (metis surj_pair)
  show ?thesis
  proof (cases x)
    case (Inl e)
    then show ?thesis using assms(1,2) x Create_failed [of p fs e fs1] by (simp add: with_temp_def traceless_refl)
  next
    case (Inr i)
    then have f: "fs' = snd (os_Remove p (snd (act i fs1)))" using assms(2) x by (auto simp: with_temp_def split: prod.splits)
    show ?thesis using temp_removed [of p fs i fs1 "snd (act i fs1)"] assms(1,3) x Inr by (simp add: traceless_def f)
  qed
qed

lemma file_Download_tree:
  assumes "client_keeps_tree w p"
  shows "fs_root (snd (file_Download w k f p fs)) = fs_root fs \<and> fs_cwd (snd (file_Download w k f p fs)) = fs_cwd fs"
proof (cases "file_session w (\<lambda>e. e) k")
  case (Inr c)
  obtain e fs1 where g: "fw_Get w f p c fs = (e, fs1)" by (metis surj_pair)
  then have "fs_root fs1 = fs_root fs \<and> fs_cwd fs1 = fs_cwd fs" using assms by (metis client_keeps_tree_def snd_conv)
  then show ?thesis by (cases e) (simp_all add: file_Download_def Inr g)
qed (simp add: file_Download_def)

text \<open>The name a client is asked for: the path without a slash in front.\<close>

definition asked_path :: "bytes \<Rightarrow> bytes" where
  "asked_path remotePath = (let p = trim_prefix ''/'' remotePath in if p = [] then remotePath else p)"


text \<open>The other download takes the last element of the path only, from whatever directory it is asked for.\<close>

lemma download_forgets_directory:
  assumes "deviceId \<noteq> []" "destPath \<noteq> []" "node_GetDevice deviceId r = Inr d" "f \<noteq> []" "CHR ''/'' \<notin> set f"
    and "file_Download w (di_ID d) f destPath fs = (Inr p, fs')"
  shows "snd (api_DownloadFile w deviceId (dir @ ''/'' @ f) destPath r fs) = fs'"
proof -
  have a: "\<forall>x \<in> set (rev f). x \<noteq> CHR ''/''" using assms(5) by auto
  have "dropWhile (\<lambda>c. c = CHR ''/'') (rev (dir @ ''/'' @ f)) = rev f @ ''/'' @ rev dir"
    using assms(4) a by (cases "rev f") auto
  moreover have "takeWhile (\<lambda>c. c \<noteq> CHR ''/'') (rev f @ ''/'' @ rev dir) = rev f"
    using a by (subst takeWhile_append2) auto
  ultimately have "path_Base (dir @ ''/'' @ f) = f" using assms(4) by (simp add: path_Base_def Let_def)
  then show ?thesis using assms by (simp add: api_DownloadFile_def Let_def)
qed

section \<open>Proxies\<close>

lemma proxy_json_inject:
  "proxy_json p = proxy_json q \<longleftrightarrow> pv_Dest p = pv_Dest q \<and> pv_Port p = pv_Port q \<and> pv_DestAddr p = pv_DestAddr q"
proof -
  have "show_nat m = show_nat n \<longleftrightarrow> m = n" for m n by (metis read_show_nat option.inject)
  then show ?thesis by (auto simp: proxy_json_def jobj_def fld_def jnat_def word_unat_eq_iff)
qed

definition listed :: "json \<Rightarrow> proxy_manager \<Rightarrow> bool" where
  "listed j m \<longleftrightarrow> (\<exists>js. fst (api_ListProxies m) = Reply 200 (JsonBody (JArr js)) \<and> j \<in> set js)"

lemma listed_iff: "listed j m \<longleftrightarrow> (\<exists>a \<in> set (pm_live m). j = proxy_json (pm_objs m ! a))"
  by (auto simp: listed_def api_ListProxies_def pm_Proxies_def)

lemma ParseUint64_show: "ParseUint64 (show_nat (unat p)) = Some p" for p :: u64
  using unsigned_less [of p] by (simp add: ParseUint64_def)

lemma close_others:
  "b \<notin> set hit \<Longrightarrow> fold (\<lambda>a os. if pv_Done (os ! a) then os else os[a := cl (os ! a)]) hit os ! b = os ! b"
proof (induction hit arbitrary: os)
  case (Cons a hit)
  then have "fold (\<lambda>a os. if pv_Done (os ! a) then os else os[a := cl (os ! a)]) hit (if pv_Done (os ! a) then os else os[a := cl (os ! a)]) ! b
      = (if pv_Done (os ! a) then os else os[a := cl (os ! a)]) ! b" by auto
  then show ?case using Cons.prems by auto
qed simp

lemma closed_port_not_listed: "\<not> (\<exists>a \<in> set (pm_live (pm_Close cl port m)). pv_Port (pm_objs (pm_Close cl port m) ! a) = port)"
  by (auto simp: pm_live_def pm_Close_def Let_def close_others)

lemma other_ports_stay:
  assumes "a \<in> set (pm_live m)" "pv_Port (pm_objs m ! a) \<noteq> port"
  shows "a \<in> set (pm_live (pm_Close cl port m)) \<and> pm_objs (pm_Close cl port m) ! a = pm_objs m ! a"
  using assms by (auto simp: pm_live_def pm_Close_def Let_def close_others)

text \<open>
  A proxy that was created through the interface is listed with its device, port and address, and the proxies listed before stay listed;
  after its port is closed no proxy of this port is listed, and those of other ports stay listed.
\<close>

theorem proxy_endpoints:
  assumes "ports_ok m" "api_CreateProxy listen (Inr q) r m = (Reply 200 b, m1)" "listen (px_LocalPort q) = Inr (px_LocalPort q)"
    and "api_CloseProxy cl (show_nat (unat (px_LocalPort q))) m1 = (b', m2)"
  shows "\<exists>d. node_GetDevice (px_DeviceID q) r = Inr d
    \<and> (let e = jobj [fld ''device_id'' (JStr (di_ID d)), fld ''local_port'' (jnat (unat (px_LocalPort q))),
          fld ''remote_addr'' (JStr (px_RemoteHost q @ '':'' @ show_nat (unat (px_RemotePort q))))]
       in listed e m1 \<and> (\<forall>j. listed j m \<longrightarrow> listed j m1)
        \<and> (\<forall>p. pv_Port p = px_LocalPort q \<longrightarrow> \<not> listed (proxy_json p) m2)
        \<and> (\<forall>p. pv_Port p \<noteq> px_LocalPort q \<longrightarrow> listed (proxy_json p) m1 \<longrightarrow> listed (proxy_json p) m2))"
proof -
  let ?port = "px_LocalPort q" and ?addr = "px_RemoteHost q @ '':'' @ show_nat (unat (px_RemotePort q))"
  obtain d where d: "node_GetDevice (px_DeviceID q) r = Inr d"
    using assms(2) by (cases "node_GetDevice (px_DeviceID q) r") (auto simp: api_CreateProxy_def json_error_def)
  obtain a where a: "pm_Proxy listen (di_ID d) ?port ?addr m = (Inr a, m1)"
    using assms(2) d by (auto simp: api_CreateProxy_def json_error_def Let_def split: prod.splits sum.splits)
  let ?p = "(NewProxyService ?port (di_ID d) ?addr)"
  have m1: "m1 = m\<lparr>pm_objs := pm_objs m @ [?p], pm_proxies := pm_live m @ [length (pm_objs m)]\<rparr>"
    using a assms(3) by (auto simp: pm_Proxy_def pv_Serve_def NewProxyService_def Let_def split: if_splits)
  have bound: "x < length (pm_objs m)" if "x \<in> set (pm_live m)" for x
    using assms(1) that by (auto simp: ports_ok_def list_all_iff pm_live_def)
  have live: "set (pm_live m1) = insert (length (pm_objs m)) (set (pm_live m))"
    using bound by (auto simp: m1 pm_live_def nth_append pv_Done_def NewProxyService_def)
  have old: "pm_objs m1 ! x = pm_objs m ! x" if "x \<in> set (pm_live m)" for x using bound [OF that] by (simp add: m1 nth_append)
  have new: "pm_objs m1 ! length (pm_objs m) = ?p" by (simp add: m1)
  have m2: "m2 = pm_Close cl ?port m1" using assms(4) by (simp add: api_CloseProxy_def ParseUint64_show)
  have "listed (proxy_json ?p) m1" using live new by (auto simp: listed_iff)
  moreover have "proxy_json ?p = jobj [fld ''device_id'' (JStr (di_ID d)), fld ''local_port'' (jnat (unat ?port)), fld ''remote_addr'' (JStr ?addr)]"
    by (simp add: proxy_json_def NewProxyService_def)
  moreover have "listed j m1" if "listed j m" for j using that live old by (auto simp: listed_iff)
  moreover have "\<not> listed (proxy_json p) m2" if "pv_Port p = ?port" for p
    using closed_port_not_listed [of cl ?port m1] that by (auto simp: listed_iff m2 proxy_json_inject)
  moreover have "listed (proxy_json p) m2" if q: "pv_Port p \<noteq> ?port" "listed (proxy_json p) m1" for p
  proof -
    obtain x where x: "x \<in> set (pm_live m1)" "proxy_json p = proxy_json (pm_objs m1 ! x)" using q(2) by (auto simp: listed_iff)
    then have "pv_Port (pm_objs m1 ! x) \<noteq> ?port" using q(1) by (simp add: proxy_json_inject)
    from other_ports_stay [OF x(1) this] show ?thesis unfolding listed_iff m2 using x(2) by (intro bexI [of _ x]) auto
  qed
  ultimately show ?thesis using d by (simp add: Let_def)
qed

section \<open>Examples\<close>

definition sample_peer_device :: device_info where
  "sample_peer_device = (found_device ''p'')\<lparr>di_Status := DeviceStatusHealthy\<rparr>"

definition sample_registry :: registry where
  "sample_registry = (new_registry ''me'')\<lparr>rg_healthy := [''p'' \<mapsto> sample_peer_device]\<rparr>"

text \<open>A file service whose only file has the contents \<open>abc\<close>.\<close>

definition sample_files :: "unit file_world" where
  "sample_files = \<lparr>fw_NewStream = (\<lambda>_. Inr ()), fw_NewClient = Some, fw_Connect = Inr, fw_List = (\<lambda>_ _ _. Inr []), fw_Send = (\<lambda>_ _ _ _. None),
     fw_Get = (\<lambda>f p c fs. case os_Open p fs of
        Inr (FFile _ i) \<Rightarrow> (None, fs\<lparr>fs_data := (fs_data fs)[i := ''abc'']\<rparr>) | _ \<Rightarrow> (Some EOF, fs))\<rparr>"

definition sample_tree :: filesys where
  "sample_tree = \<lparr>fs_root = FDir True [(''tmp'', FDir True [])], fs_data = [], fs_cwd = []\<rparr>"


theorem proxy_endpoints_witness:
  "\<exists>m1. snd (api_CreateProxy Inr (Inr \<lparr>px_DeviceID = ''p'', px_LocalPort = 80, px_RemoteHost = ''h'', px_RemotePort = 22\<rparr>) sample_registry NewProxyManager) = m1
    \<and> listed (jobj [fld ''device_id'' (JStr ''p''), fld ''local_port'' (jnat 80), fld ''remote_addr'' (JStr ''h:22'')]) m1"
proof -
  let ?q = "\<lparr>px_DeviceID = ''p'', px_LocalPort = 80, px_RemoteHost = ''h'', px_RemotePort = 22\<rparr>"
  have o: "ports_ok NewProxyManager" by (simp add: ports_ok_def NewProxyManager_def ports_def pm_live_def)
  have n: "node_GetDevice ''p'' sample_registry = Inr sample_peer_device"
    by (simp add: node_GetDevice_def sample_registry_def new_registry_def)
  have i: "di_ID sample_peer_device = ''p''" by (simp add: sample_peer_device_def found_device_def)
  obtain b m1 where c: "api_CreateProxy Inr (Inr ?q) sample_registry NewProxyManager = (Reply 200 b, m1)"
    by (simp add: api_CreateProxy_def n i pm_Proxy_def NewProxyManager_def pm_live_def pv_Serve_def NewProxyService_def Let_def)
  obtain b' m2 where "api_CloseProxy id (show_nat (unat (px_LocalPort ?q))) m1 = (b', m2)" by (metis surj_pair)
  from proxy_endpoints [OF o c _ this] have "listed (jobj [fld ''device_id'' (JStr ''p''), fld ''local_port'' (jnat 80),
      fld ''remote_addr'' (JStr (''h'' @ '':'' @ show_nat 22))]) m1"
    by (simp add: n i Let_def)
  moreover have "show_nat 22 = ''22''" by code_simp
  ultimately show ?thesis using c by simp
qed

end
