(* ===== verification/Cli_Conda.thy ===== *)
theory Cli_Conda
  imports Conda_Safety
begin

text \<open>
  The \<open>conda\<close> command of the program, \<open>cmd/stellar/conda.go\<close>: flags, the subcommand, and waiting for its execution.
\<close>

definition hasFlag :: "bytes list \<Rightarrow> bytes \<Rightarrow> bool" where
  "hasFlag args flag = list_ex (\<lambda>arg. arg = ''--'' @ flag \<or> arg = ''-'' @ flag) args"

definition removeFlag :: "bytes list \<Rightarrow> bytes \<Rightarrow> bytes list" where
  "removeFlag args flag = filter (\<lambda>arg. \<not> (arg = ''--'' @ flag \<or> arg = ''-'' @ flag)) args"

text \<open>\<open>strings.Contains\<close>.\<close>

definition contains_text :: "bytes \<Rightarrow> bytes \<Rightarrow> bool" where
  "contains_text s t = list_ex (prefix t) (suffixes s)"

text \<open>The error that is reported once the results are there and both copies have ended with \<open>outErr\<close> and \<open>errErr\<close>.\<close>

definition network_error :: bytes where
  "network_error = ''network connection error during download. This may be due to:'' @ [CHR 0x0A] @ ''  - Unstable network connection'' @ [CHR 0x0A]
     @ ''  - Firewall/proxy issues'' @ [CHR 0x0A] @ ''  - Conda repository temporarily unavailable'' @ [CHR 0x0A, CHR 0x0A]
     @ ''Try running the command again, or check your network connection''"

definition timeout_error :: bytes where
  "timeout_error = ''operation timed out. This may be due to:'' @ [CHR 0x0A] @ ''  - Slow network connection'' @ [CHR 0x0A]
     @ ''  - Large package downloads'' @ [CHR 0x0A, CHR 0x0A] @ ''Try increasing the timeout or check your network connection''"

definition stream_error :: "goerr option \<Rightarrow> int \<Rightarrow> goerr option \<Rightarrow> goerr option \<Rightarrow> goerr option" where
  "stream_error doneErr exitCode outErr errErr = (case doneErr of
      Some e \<Rightarrow> (let errMsg = err_text e in Some (Err (
        if contains_text errMsg ''Connection broken'' \<or> contains_text errMsg ''IncompleteRead'' then network_error
        else if contains_text errMsg ''timeout'' \<or> contains_text errMsg ''deadline exceeded'' then timeout_error
        else ''execution failed: '' @ errMsg)))
    | None \<Rightarrow>
        if outErr \<noteq> None \<and> outErr \<noteq> Some EOF then Some (Wrap ''stdout read error'' (the outErr))
        else if errErr \<noteq> None \<and> errErr \<noteq> Some EOF then Some (Wrap ''stderr read error'' (the errErr))
        else if exitCode > 0
        then Some (Err (if exitCode = 1 then ''command failed with exit code '' @ show_int exitCode @ ''. Check the output above for details''
                        else ''command exited with code '' @ show_int exitCode))
        else None)"

text \<open>
  \<open>streamCommandExecution\<close>, where it stands: \<open>None\<close> while it waits.  Without progress nothing reads the output.
\<close>

definition quiet_result :: "raw_execution \<Rightarrow> goerr option option" where
  "quiet_result x = map_option (\<lambda>(code, _). if code \<noteq> 0 then Some (Err (''command exited with code '' @ show_int code)) else None) (bridge_Wait x)"

definition shown_result :: "raw_execution \<Rightarrow> goerr option option" where
  "shown_result x = (case bridge_Wait x of
      None \<Rightarrow> None
    | Some (code, doneErr) \<Rightarrow>
        if inbox (ex_Stdout x) = [] \<and> inbox (ex_Stderr x) = [] \<and> fin (ex_Stdout x) = Some EOF \<and> fin (ex_Stderr x) = Some EOF
        then Some (stream_error doneErr code None None) else None)"

text \<open>A round of the two copies; what the terminal shows is the pair of the outputs.\<close>

definition show_round :: "raw_execution \<times> bytes \<times> bytes \<Rightarrow> raw_execution \<times> bytes \<times> bytes" where
  "show_round s = (case s of (x, out, err) \<Rightarrow>
     (case (conn_read copyBuf (ex_Stdout x), conn_read copyBuf (ex_Stderr x)) of ((ro, co), (re, ce)) \<Rightarrow>
       (x\<lparr>ex_Stdout := co, ex_Stderr := ce\<rparr>, out @ (case ro of RdData b \<Rightarrow> b | _ \<Rightarrow> []), err @ (case re of RdData b \<Rightarrow> b | _ \<Rightarrow> []))))"

text \<open>\<open>condaCommand\<close> up to the wait: the exit status, or the execution and whether its output is shown.\<close>

definition condaCommand :: "conda_system \<Rightarrow> bytes list \<Rightarrow> conda_state \<Rightarrow> (nat + (raw_execution \<times> client_cleanup option) \<times> bool) \<times> conda_state" where
  "condaCommand y allArgs st = (case allArgs of
      [] \<Rightarrow> (Inl 1, snd (NewCondaOperations y [] st))
    | subcommand # args \<Rightarrow> (case NewCondaOperations y [] st of (ops, st) \<Rightarrow>
        (let flags = subcommand \<in> set [''create'', ''remove'', ''update'', ''install'', ''install-conda''];
             showProgress = \<not> (flags \<and> hasFlag args ''quiet'');
             args = (if flags then removeFlag args ''quiet'' else args)
         in (case Conda_HandleSubcommand y ops subcommand args None st of
               (Inl _, st) \<Rightarrow> (Inl 1, st)
             | (Inr x, st) \<Rightarrow> (Inr (x, showProgress), st)))))"

section \<open>Waiting without reading\<close>

text \<open>The process in the quiet mode: it writes and ends, nothing is read.\<close>

inductive quiet_step :: "raw_execution \<Rightarrow> raw_execution \<Rightarrow> bool" where
  writes: "quiet_step x (process_writes out err x)"
| ends: "quiet_step x (wait_step w x)"

definition fresh_execution :: "raw_execution \<Rightarrow> bool" where
  "fresh_execution x \<longleftrightarrow> ex_waiting x \<and> ex_Done x = new_chan \<and> ex_ExitCode x = new_chan \<and> ex_Stdout x = pipe \<and> ex_Stderr x = pipe"

definition unread :: "raw_execution \<Rightarrow> bool" where
  "unread x \<longleftrightarrow> ex_waiting x \<and> \<not> drained x \<and> ex_Done x = new_chan"

lemma unread_step: "quiet_step x x' \<Longrightarrow> unread x \<Longrightarrow> unread x'"
  by (cases rule: quiet_step.cases) (auto simp: process_writes_def wait_step_def drained_def unread_def split: if_splits)

lemma unread_steps: "quiet_step\<^sup>*\<^sup>* x x' \<Longrightarrow> unread x \<Longrightarrow> unread x'"
  by (induction rule: rtranclp_induct) (auto intro: unread_step)

lemma unread_waits: "unread x \<Longrightarrow> quiet_result x = None"
  by (simp add: unread_def quiet_result_def bridge_Wait_def ch_recv_def new_chan_def)

lemma fresh_unread: "fresh_execution x \<Longrightarrow> out \<noteq> [] \<or> err \<noteq> [] \<Longrightarrow> unread (process_writes out err x)"
  by (auto simp: fresh_execution_def unread_def process_writes_def drained_def pipe_def)

lemma fresh_ends:
  "fresh_execution x \<Longrightarrow> bridge_Wait (wait_step w x) = Some (exit_code w, wait_error w)"
  by (simp add: fresh_execution_def wait_step_def drained_def pipe_def bridge_Wait_def ch_recv_def ch_close_def ch_put_def new_chan_def)

lemma executeCommand_fresh: "op_executeCommand y command args None st = (Inr x, st') \<Longrightarrow> fresh_execution x"
  by (auto simp: op_executeCommand_def fresh_execution_def split: if_splits option.splits)

lemma finished_done: "quiet_result (finished_execution y output) = Some None"
  by (simp add: finished_execution_def createStringOutputExecution_def quiet_result_def bridge_Wait_def ch_recv_def ch_put_def new_chan_def)

lemma with_env_result:
  assumes "with_env y ops env act st = (Inr x, st')"
  shows "\<exists>condaPath st1. act condaPath st1 = (Inr x, st')"
  using assms by (auto simp: with_env_def split: prod.splits sum.splits)

lemma only_result: "only r = (Inr (x, cl), st) \<Longrightarrow> r = (Inr x, st)"
  by (cases r; cases "fst r") (auto simp: only_def)

lemma quiet_execution:
  assumes "condaCommand y (subcommand # args) st = (Inr ((x, cl), False), st')"
  shows "fresh_execution x \<or> quiet_result x = Some None"
proof -
  let ?args = "removeFlag args ''quiet''"
  obtain ops st1 where n: "NewCondaOperations y [] st = (ops, st1)" by fastforce
  have sub: "subcommand \<in> {''create'', ''remove'', ''update'', ''install'', ''install-conda''}"
    and h: "Conda_HandleSubcommand y ops subcommand ?args None st1 = (Inr (x, cl), st')"
    using assms by (auto simp: condaCommand_def n Let_def split: prod.splits sum.splits if_splits)
  consider (create) "op_CreateEnvironment y ops (?args ! 0) (python_flag ''3.9'' ?args) st1 = (Inr x, st')"
    | (remove) "op_RemoveEnvironment y ops (?args ! 0) st1 = (Inr x, st')"
    | (update) "op_UpdateEnvironment y ops (?args ! 0) (?args ! 1) st1 = (Inr x, st')"
    | (install) "op_InstallPackage y ops (?args ! 0) (?args ! 1) st1 = (Inr x, st')"
    | (conda) v where "op_Install y v st1 = (Inr x, st')"
    using sub
  proof (elim insertE emptyE)
    assume "subcommand = ''create''"
    then show thesis using h create by (auto simp: Conda_HandleSubcommand_def split: if_splits dest: only_result)
  next
    assume "subcommand = ''remove''"
    then show thesis using h remove by (auto simp: Conda_HandleSubcommand_def split: if_splits dest: only_result)
  next
    assume "subcommand = ''update''"
    then show thesis using h update by (auto simp: Conda_HandleSubcommand_def split: if_splits dest: only_result)
  next
    assume "subcommand = ''install''"
    then show thesis using h install by (auto simp: Conda_HandleSubcommand_def split: if_splits dest: only_result)
  next
    assume "subcommand = ''install-conda''"
    then show thesis using h conda by (auto simp: Conda_HandleSubcommand_def split: if_splits dest: only_result)
  qed
  then show ?thesis
  proof cases
    case create
    then show ?thesis
      by (auto simp: op_CreateEnvironment_def finished_done split: if_splits prod.splits sum.splits dest: executeCommand_fresh)
  next
    case remove
    then show ?thesis
      by (auto simp: op_RemoveEnvironment_def split: if_splits dest!: with_env_result dest: executeCommand_fresh)
  next
    case update
    then show ?thesis
      by (auto simp: op_UpdateEnvironment_def split: if_splits dest!: with_env_result dest: executeCommand_fresh)
  next
    case install
    then show ?thesis
      by (auto simp: op_InstallPackage_def split: if_splits dest!: with_env_result dest: executeCommand_fresh)
  next
    case conda
    then show ?thesis
      by (auto simp: op_Install_def Let_def split: if_splits prod.splits sum.splits dest: executeCommand_fresh)
  qed
qed

text \<open>
  C36: With \<open>--quiet\<close> the program waits for the results of a command whose output nobody reads: as soon as the command has printed something,
  the program hangs for ever, whatever the command does after that; a command that ends without printing is reported by its exit code.
\<close>

theorem quiet_command_hangs:
  assumes "condaCommand y (subcommand # args) st = (Inr ((x, cl), False), st')" and "quiet_result x = None"
  shows "(out \<noteq> [] \<or> err \<noteq> [] \<longrightarrow> (\<forall>x'. quiet_step\<^sup>*\<^sup>* (process_writes out err x) x' \<longrightarrow> quiet_result x' = None))
    \<and> quiet_result (wait_step w x) = Some (if exit_code w \<noteq> 0 then Some (Err (''command exited with code '' @ show_int (exit_code w))) else None)"
proof -
  have "fresh_execution x" using quiet_execution [OF assms(1)] assms(2) by simp
  then show ?thesis using fresh_unread fresh_ends unread_steps unread_waits by (auto simp: quiet_result_def)
qed

lemma sample_quiet:
  "map_sum (\<lambda>e. e) (\<lambda>x. (snd (fst x), snd x, quiet_result (fst (fst x)), ex_waiting (fst (fst x))))
    (fst (condaCommand sample_conda [''create'', ''new'', ''--quiet''] sample_conda_state)) = Inr (None, False, None, True)"
  by code_simp

theorem quiet_command_hangs_witness:
  "\<exists>x. fst (condaCommand sample_conda [''create'', ''new'', ''--quiet''] sample_conda_state) = Inr ((x, None), False)
    \<and> quiet_result (wait_step WaitOk (process_writes [CHR 0x0A] [] x)) = None"
proof -
  obtain x st' where c: "condaCommand sample_conda [''create'', ''new'', ''--quiet''] sample_conda_state = (Inr ((x, None), False), st')"
    and q: "quiet_result x = None"
    using sample_quiet by (cases "condaCommand sample_conda [''create'', ''new'', ''--quiet''] sample_conda_state"; cases "fst (condaCommand sample_conda [''create'', ''new'', ''--quiet''] sample_conda_state)") auto
  have "quiet_step\<^sup>*\<^sup>* (process_writes [CHR 0x0A] [] x) (wait_step WaitOk (process_writes [CHR 0x0A] [] x))"
    by (rule r_into_rtranclp) (rule ends)
  then show ?thesis using quiet_command_hangs [OF c q, of "[CHR 0x0A]" "[]" WaitOk] c by auto
qed

end
