(* ===== verification/Go_Flags.thy ===== *)
theory Go_Flags
  imports Go_Strings
begin

text \<open>
  What the commands use of Go's \<open>flag\<close> package: numbers and booleans as \<open>strconv\<close> reads them, and \<open>FlagSet.Parse\<close> with
  \<open>ExitOnError\<close>.  A flag set is a table from names to flags that change a record of values.
\<close>

section \<open>Numbers and booleans\<close>

definition lower :: "char \<Rightarrow> nat" where
  "lower c = (let n = of_char c in if 65 \<le> n \<and> n \<le> 90 then n + 32 else n)"

definition digit_of :: "char \<Rightarrow> nat option" where
  "digit_of c = (let n = lower c in if 48 \<le> n \<and> n \<le> 57 then Some (n - 48) else if 97 \<le> n \<and> n \<le> 122 then Some (n - 97 + 10) else None)"

text \<open>The digits of \<open>ParseUint\<close> with base 0, where underscores are skipped.\<close>

fun read_digits :: "nat \<Rightarrow> bytes \<Rightarrow> int \<Rightarrow> int option" where
  "read_digits base [] n = Some n"
| "read_digits base (c # cs) n =
     (if c = CHR ''_'' then read_digits base cs n
      else (case digit_of c of None \<Rightarrow> None | Some d \<Rightarrow> if d \<ge> base then None else read_digits base cs (n * int base + int d)))"

text \<open>\<open>underscoreOK\<close>: underscores stand between digits, where a prefix counts as a digit.\<close>

datatype seen = SeenStart | SeenDigit | SeenUnderscore | SeenOther

fun underscores :: "bool \<Rightarrow> seen \<Rightarrow> bytes \<Rightarrow> bool" where
  "underscores hex i [] = (i \<noteq> SeenUnderscore)"
| "underscores hex i (c # cs) =
     (if (case digit_of c of None \<Rightarrow> False | Some d \<Rightarrow> d < 10 \<or> (hex \<and> d < 16)) then underscores hex SeenDigit cs
      else if c = CHR ''_'' then i = SeenDigit \<and> underscores hex SeenUnderscore cs
      else i \<noteq> SeenUnderscore \<and> underscores hex SeenOther cs)"

definition base_letter :: "bytes \<Rightarrow> nat option" where
  "base_letter s = (case s of
      z # b # _ \<Rightarrow> if z \<noteq> CHR ''0'' then None
        else if lower b = 98 then Some 2 else if lower b = 111 then Some 8 else if lower b = 120 then Some 16 else None
    | _ \<Rightarrow> None)"

definition underscoreOK :: "bytes \<Rightarrow> bool" where
  "underscoreOK s = (case base_letter s of
      None \<Rightarrow> underscores False SeenStart s
    | Some b \<Rightarrow> underscores (b = 16) SeenDigit (drop 2 s))"

definition ParseUint0 :: "bytes \<Rightarrow> int option" where
  "ParseUint0 s =
     (if s = [] then None
      else (let (base, digits) = (if hd s = CHR ''0''
                then (case base_letter s of Some b \<Rightarrow> if length s \<ge> 3 then (b, drop 2 s) else (8, tl s) | None \<Rightarrow> (8, tl s))
                else (10, s))
            in (case read_digits base digits 0 of
                None \<Rightarrow> None
              | Some n \<Rightarrow> if n \<ge> 2 ^ 64 \<or> (CHR ''_'' \<in> set digits \<and> \<not> underscoreOK s) then None else Some n)))"

text \<open>\<open>ParseInt\<close> of 64 bits with base 0.\<close>

definition ParseInt0 :: "bytes \<Rightarrow> int option" where
  "ParseInt0 s = (case s of
      [] \<Rightarrow> None
    | c # cs \<Rightarrow> (let neg = (c = CHR ''-''); s = (if c = CHR ''+'' \<or> neg then cs else s) in
        (case ParseUint0 s of
           None \<Rightarrow> None
         | Some n \<Rightarrow> if \<not> neg \<and> n \<ge> 2 ^ 63 then None else if neg \<and> n > 2 ^ 63 then None
             else Some (if neg then - n else n))))"

definition strconv_ParseBool :: "bytes \<Rightarrow> bool option" where
  "strconv_ParseBool s = (if s \<in> set [''1'', ''t'', ''T'', ''true'', ''TRUE'', ''True''] then Some True
     else if s \<in> set [''0'', ''f'', ''F'', ''false'', ''FALSE'', ''False''] then Some False else None)"

section \<open>Flag sets\<close>

datatype 's go_flag =
    BoolFlag "bool \<Rightarrow> 's \<Rightarrow> 's"
  | IntFlag "int \<Rightarrow> 's \<Rightarrow> 's"
  | StringFlag "bytes \<Rightarrow> 's \<Rightarrow> 's"

type_synonym 's flag_set = "(bytes \<times> 's go_flag) list"

definition flag_Set :: "'s go_flag \<Rightarrow> bytes \<Rightarrow> 's \<Rightarrow> 's option" where
  "flag_Set f v s = (case f of
      BoolFlag put \<Rightarrow> map_option (\<lambda>b. put b s) (strconv_ParseBool v)
    | IntFlag put \<Rightarrow> map_option (\<lambda>n. put n s) (ParseInt0 v)
    | StringFlag put \<Rightarrow> Some (put v s))"

text \<open>The name and the value after the first \<open>=\<close> that is not the first character.\<close>

definition flag_name :: "bytes \<Rightarrow> bytes \<times> bytes option" where
  "flag_name name = (let t = takeWhile (\<lambda>c. c \<noteq> CHR ''='') name; r = dropWhile (\<lambda>c. c \<noteq> CHR ''='') name
     in (t, if r = [] then None else Some (tl r)))"

text \<open>Parsing ends with the values, or the program exits with a status: 0 after \<open>-help\<close>, 2 after an error.\<close>

fun Parse :: "'s flag_set \<Rightarrow> bytes list \<Rightarrow> 's \<Rightarrow> nat + 's" where
  "Parse fs [] s = Inr s"
| "Parse fs (a # as) s =
     (if length a < 2 \<or> hd a \<noteq> CHR ''-'' \<or> a = ''--'' then Inr s
      else (let name = (if a ! 1 = CHR ''-'' then drop 2 a else tl a) in
        if hd name = CHR ''-'' \<or> hd name = CHR ''='' then Inl 2
        else (case flag_name name of (name, v) \<Rightarrow>
          (case map_of fs name of
             None \<Rightarrow> Inl (if name = ''help'' \<or> name = ''h'' then 0 else 2)
           | Some f \<Rightarrow> (case (f, v, as) of
               (BoolFlag put, None, _) \<Rightarrow> Parse fs as (put True s)
             | (_, Some v, _) \<Rightarrow> (case flag_Set f v s of None \<Rightarrow> Inl 2 | Some s \<Rightarrow> Parse fs as s)
             | (_, None, v # as) \<Rightarrow> (case flag_Set f v s of None \<Rightarrow> Inl 2 | Some s \<Rightarrow> Parse fs as s)
             | (_, None, []) \<Rightarrow> Inl 2)))))"

lemma parse_number_examples:
  "ParseInt0 ''0x_1f'' = Some 31" "ParseInt0 ''-0b11'' = Some (-3)" "ParseInt0 ''017'' = Some 15" "ParseInt0 ''1_000'' = Some 1000"
  "ParseInt0 ''1__0'' = None" "ParseInt0 ''08'' = None" "ParseInt0 ''0'' = Some 0" "ParseInt0 ''9223372036854775808'' = None"
  "ParseInt0 ''-9223372036854775808'' = Some (-9223372036854775808)" "ParseInt0 ''0x'' = None"
  by code_simp+

end
