(* ===== verification/Bootstrap.thy ===== *)
theory Bootstrap
  imports Config Go_Flags "HOL-Library.Multiset"
begin

text \<open>
  Keys, \<open>p2p/identity/identity.go\<close>, the \<open>key\<close> command, \<open>cmd/stellar/key.go\<close>, and the list of bootstrap nodes,
  \<open>p2p/bootstrap/bootstrap.go\<close>.  The cryptography and the address format of \<open>libp2p\<close> are parameters.
\<close>

section \<open>Keys\<close>

text \<open>A generated key depends on the seed, or on the random source when there is none.\<close>

record 'k key_system =
  ks_Unmarshal :: "bytes \<Rightarrow> 'k result"
  ks_Generate :: "int option \<Rightarrow> 'k result"
  ks_Raw :: "'k \<Rightarrow> bytes result"
  ks_ID :: "'k \<Rightarrow> bytes result"

definition DecodePrivateKey :: "'k key_system \<Rightarrow> bytes \<Rightarrow> 'k result" where
  "DecodePrivateKey k b64 = (case b64_dec b64 of None \<Rightarrow> Inl (Err ''illegal base64 data'') | Some b \<Rightarrow> ks_Unmarshal k b)"

definition id_GeneratePrivateKey :: "'k key_system \<Rightarrow> int \<Rightarrow> 'k result" where
  "id_GeneratePrivateKey k seed = ks_Generate k (if seed = 0 then None else Some seed)"

definition EncodePrivateKey :: "'k key_system \<Rightarrow> 'k \<Rightarrow> bytes result" where
  "EncodePrivateKey k key = map_sum (\<lambda>e. e) b64_enc (ks_Raw k key)"

text \<open>The flags of the \<open>key\<close> command, and what it logs: a key it has generated, and the identifier.  The statuses are those of a panic and of \<open>Fatal\<close>.\<close>

record key_settings =
  key_seed :: int
  key_b64privkey :: bytes

definition key_flags :: "key_settings flag_set" where
  "key_flags = [(''seed'', IntFlag (\<lambda>n s. s\<lparr>key_seed := n\<rparr>)), (''b64privkey'', StringFlag (\<lambda>v s. s\<lparr>key_b64privkey := v\<rparr>))]"

definition show_key :: "'k key_system \<Rightarrow> bytes option \<Rightarrow> bytes \<Rightarrow> nat + (bytes option \<times> bytes)" where
  "show_key k generated b64 = (case DecodePrivateKey k b64 of
      Inl _ \<Rightarrow> Inl 1
    | Inr key \<Rightarrow> (case ks_ID k key of Inl _ \<Rightarrow> Inl 1 | Inr peer \<Rightarrow> Inr (generated, peer)))"

definition keyCommand :: "'k key_system \<Rightarrow> bytes list \<Rightarrow> nat + (bytes option \<times> bytes)" where
  "keyCommand k args = (case Parse key_flags args \<lparr>key_seed = 0, key_b64privkey = []\<rparr> of
      Inl status \<Rightarrow> Inl status
    | Inr s \<Rightarrow>
        if key_b64privkey s = [] then
          (case id_GeneratePrivateKey k (key_seed s) of
             Inl _ \<Rightarrow> Inl 2
           | Inr key \<Rightarrow> (case EncodePrivateKey k key of
               Inl _ \<Rightarrow> Inl 2
             | Inr encoded \<Rightarrow> show_key k (Some encoded) encoded))
        else show_key k None (key_b64privkey s))"

section \<open>The file of bootstrap nodes\<close>

text \<open>\<open>bufio.Scanner\<close> with its lines: a carriage return before the end of a line is dropped, a line of 64 KiB is an error.\<close>

definition dropCR :: "bytes \<Rightarrow> bytes" where
  "dropCR l = (if l \<noteq> [] \<and> last l = CHR 0x0D then butlast l else l)"

definition too_long :: "bytes \<Rightarrow> bool" where
  "too_long l \<longleftrightarrow> length l \<ge> 65536"

fun scan_lines :: "bytes \<Rightarrow> bytes \<Rightarrow> bytes list \<times> goerr option" where
  "scan_lines l [] = (if l = [] then ([], None) else if too_long l then ([], Some (Err ''bufio.Scanner: token too long'')) else ([dropCR l], None))"
| "scan_lines l (c # cs) =
     (if c \<noteq> CHR 0x0A then scan_lines (l @ [c]) cs
      else if too_long l then ([], Some (Err ''bufio.Scanner: token too long''))
      else (case scan_lines [] cs of (ls, e) \<Rightarrow> (dropCR l # ls, e)))"

definition getBootstrappers :: "start_env \<Rightarrow> filesys \<Rightarrow> bytes list \<Rightarrow> bytes list \<times> goerr option" where
  "getBootstrappers env fs bootstrappers = (case se_Getwd env of
      Inl e \<Rightarrow> (bootstrappers, Some e)
    | Inr pwd \<Rightarrow> (case os_ReadFile (path_Join [pwd, ''bootstrappers.txt'']) fs of
        Inl e \<Rightarrow> (bootstrappers, Some e)
      | Inr b \<Rightarrow> (case scan_lines [] b of (ls, e) \<Rightarrow> (bootstrappers @ ls, e))))"

text \<open>An address is parsed by \<open>parse\<close>, and \<open>peer_of\<close> splits off the peer; a result without a peer is the zero value.\<close>

definition MakeAddrInfo :: "(bytes \<Rightarrow> 'm result) \<Rightarrow> ('m \<Rightarrow> (bytes \<times> bytes list) result) \<Rightarrow> bytes \<Rightarrow> (bytes \<times> bytes list) result" where
  "MakeAddrInfo parse peer_of s = (case parse s of
      Inl e \<Rightarrow> Inl e
    | Inr m \<Rightarrow> (case peer_of m of Inl _ \<Rightarrow> Inr ([], []) | Inr p \<Rightarrow> Inr p))"

text \<open>The shuffle, with the random choices \<open>j i\<close> out of \<open>0, \<dots>, i\<close>.\<close>

definition swap :: "nat \<Rightarrow> nat \<Rightarrow> 'a list \<Rightarrow> 'a list" where
  "swap i j xs = xs[i := xs ! j, j := xs ! i]"

definition shuffle :: "(nat \<Rightarrow> nat) \<Rightarrow> 'a list \<Rightarrow> 'a list" where
  "shuffle j xs = fold (\<lambda>i xs. swap i (j i) xs) [0..<length xs] xs"

definition Bootstrappers :: "(bytes \<Rightarrow> 'm result) \<Rightarrow> ('m \<Rightarrow> (bytes \<times> bytes list) result) \<Rightarrow> (nat \<Rightarrow> nat) \<Rightarrow> start_env \<Rightarrow> filesys
    \<Rightarrow> (bytes \<times> bytes list) list" where
  "Bootstrappers parse peer_of j env fs = (case getBootstrappers env fs [] of
      (_, Some _) \<Rightarrow> []
    | (ls, None) \<Rightarrow> concat (map (\<lambda>s. case MakeAddrInfo parse peer_of s of Inl _ \<Rightarrow> [] | Inr p \<Rightarrow> [p]) (shuffle j ls)))"

section \<open>Facts\<close>

lemma swap_perm: "i < length xs \<Longrightarrow> j < length xs \<Longrightarrow> mset (swap i j xs) = mset xs"
  by (simp add: swap_def mset_swap)

lemma shuffle_perm:
  assumes "\<And>i. j i \<le> i"
  shows "mset (shuffle j xs) = mset xs"
proof -
  have "n \<le> length xs \<Longrightarrow> mset (fold (\<lambda>i xs. swap i (j i) xs) [0..<n] xs) = mset xs
      \<and> length (fold (\<lambda>i xs. swap i (j i) xs) [0..<n] xs) = length xs" for n
  proof (induction n)
    case (Suc n)
    moreover have "j n < length xs" using assms [of n] Suc.prems by simp
    ultimately show ?case by (simp add: swap_perm) (simp add: swap_def)
  qed simp
  then show ?thesis by (simp add: shuffle_def)
qed

text \<open>Lines that are joined are read back, when none is too long or ends with a carriage return.\<close>

lemma scan_line:
  "CHR 0x0A \<notin> set a \<Longrightarrow> scan_lines l (a @ CHR 0x0A # r)
     = (if too_long (l @ a) then ([], Some (Err ''bufio.Scanner: token too long''))
        else (case scan_lines [] r of (ls, e) \<Rightarrow> (dropCR (l @ a) # ls, e)))"
  by (induction a arbitrary: l) auto

lemma scan_joined:
  assumes "\<forall>l \<in> set ls. CHR 0x0A \<notin> set l \<and> \<not> too_long l \<and> (l = [] \<or> last l \<noteq> CHR 0x0D)"
  shows "scan_lines [] (concat (map (\<lambda>l. l @ [CHR 0x0A]) ls)) = (ls, None)"
  using assms by (induction ls) (auto simp: scan_line dropCR_def)

lemma mset_concat_map: "mset xs = mset ys \<Longrightarrow> mset (concat (map f xs)) = mset (concat (map f ys))"
  by (simp add: mset_concat flip: mset_map) (metis mset_map sum_mset_sum_list)

text \<open>
  The bootstrap nodes of a process are, in some order and as often as they are written, the addresses of the lines of the file; a line that
  is no address is skipped, and an address without a peer counts as a node without identifier and addresses.
\<close>

theorem bootstrappers_of_file:
  assumes "\<And>i. j i \<le> i" and "\<forall>l \<in> set ls. CHR 0x0A \<notin> set l \<and> \<not> too_long l \<and> (l = [] \<or> last l \<noteq> CHR 0x0D)"
    and "se_Getwd env = Inr pwd" "os_ReadFile (path_Join [pwd, ''bootstrappers.txt'']) fs = Inr (concat (map (\<lambda>l. l @ [CHR 0x0A]) ls))"
  shows "mset (Bootstrappers parse peer_of j env fs)
    = mset (concat (map (\<lambda>l. case parse l of Inl _ \<Rightarrow> [] | Inr m \<Rightarrow> [case peer_of m of Inl _ \<Rightarrow> ([], []) | Inr p \<Rightarrow> p]) ls))"
proof -
  have f: "(\<lambda>s. case MakeAddrInfo parse peer_of s of Inl _ \<Rightarrow> [] | Inr p \<Rightarrow> [p])
      = (\<lambda>l. case parse l of Inl _ \<Rightarrow> [] | Inr m \<Rightarrow> [case peer_of m of Inl _ \<Rightarrow> ([], []) | Inr p \<Rightarrow> p])"
    by (auto simp: MakeAddrInfo_def fun_eq_iff split: sum.splits)
  have "getBootstrappers env fs [] = (ls, None)" by (simp add: getBootstrappers_def assms(3,4) scan_joined [OF assms(2)])
  then show ?thesis unfolding f [symmetric] by (simp add: Bootstrappers_def mset_concat_map [OF shuffle_perm [OF assms(1)]])
qed

definition sample_node_file :: filesys where
  "sample_node_file = \<lparr>fs_root = FDir True [(''bootstrappers.txt'', FFile True 0)],
     fs_data = [concat (map (\<lambda>l. l @ [CHR 0x0A]) [''/p2p/a'', ''# no address'', ''/ip4/1.2.3.4'', ''/p2p/b''])], fs_cwd = []\<rparr>"

definition sample_parse :: "bytes \<Rightarrow> bytes result" where
  "sample_parse s = (if prefix ''/'' s then Inr s else Inl EOF)"

definition peer_of_address :: "bytes \<Rightarrow> (bytes \<times> bytes list) result" where
  "peer_of_address m = (if prefix ''/p2p/'' m then Inr (drop 5 m, [m]) else Inl EOF)"

definition nodes_env :: start_env where
  "nodes_env = \<lparr>se_GOOS = ''linux'', se_HomeDir = Inr ''/'', se_Getwd = Inr ''/'', se_key = Inr ''key''\<rparr>"

lemma sample_node_file_read: "os_ReadFile (path_Join [''/'', ''bootstrappers.txt'']) sample_node_file
    = Inr (concat (map (\<lambda>l. l @ [CHR 0x0A]) [''/p2p/a'', ''# no address'', ''/ip4/1.2.3.4'', ''/p2p/b'']))"
  by code_simp

theorem bootstrappers_of_file_witness:
  "mset (Bootstrappers sample_parse peer_of_address (\<lambda>i. 0) nodes_env sample_node_file)
    = {#(''a'', [''/p2p/a'']), ([], []), (''b'', [''/p2p/b''])#}"
proof -
  have g: "se_Getwd nodes_env = Inr ''/''" by (simp add: nodes_env_def)
  show ?thesis
    using bootstrappers_of_file [OF _ _ g sample_node_file_read, of "\<lambda>i. 0" sample_parse peer_of_address]
    by (simp add: too_long_def sample_parse_def peer_of_address_def)
qed

text \<open>
  The key that the \<open>key\<close> command generates and logs is the key of the identifier it logs: given back to the command it yields that identifier.
\<close>

theorem key_roundtrip:
  assumes "keyCommand k args = Inr (Some encoded, peer)" "encoded \<noteq> []"
  shows "keyCommand k [''-b64privkey'', encoded] = Inr (None, peer)"
proof -
  have "show_key k (Some encoded) encoded = Inr (Some encoded, peer)"
    using assms(1) by (auto simp: keyCommand_def show_key_def split: sum.splits if_splits)
  then have "show_key k None encoded = Inr (None, peer)" by (auto simp: show_key_def split: sum.splits)
  moreover have "Parse key_flags [''-b64privkey'', encoded] \<lparr>key_seed = 0, key_b64privkey = []\<rparr> = Inr \<lparr>key_seed = 0, key_b64privkey = encoded\<rparr>"
    by (simp add: key_flags_def flag_name_def flag_Set_def)
  ultimately show ?thesis using assms(2) by (simp add: keyCommand_def)
qed

text \<open>Keys that are their own bytes.\<close>

definition sample_keys :: "bytes key_system" where
  "sample_keys = \<lparr>ks_Unmarshal = (\<lambda>b. if length b = 3 then Inr b else Inl EOF), ks_Generate = (\<lambda>s. Inr (if s = None then ''abc'' else ''xyz'')),
     ks_Raw = Inr, ks_ID = Inr\<rparr>"

lemma sample_generated: "keyCommand sample_keys [''-seed=5''] = Inr (Some ''eHl6'', ''xyz'')"
  by code_simp

theorem key_roundtrip_witness: "keyCommand sample_keys [''-b64privkey'', ''eHl6''] = Inr (None, ''xyz'')"
  by (rule key_roundtrip [OF sample_generated]) simp

end
