(* ===== verification/Node_Start.thy ===== *)
theory Node_Start
  imports Bootstrap Devices Policy File_Client
begin

text \<open>
  How a node starts: \<open>NewNodeWithOptions\<close> and \<open>InitDHT\<close> of \<open>p2p/node/node.go\<close>, the device of \<open>core/device/device.go\<close> with the protocols it
  binds, and the commands \<open>node\<close> and \<open>config\<close> of \<open>cmd/stellar\<close>.  \<open>libp2p\<close> is a record of what its calls report.  The goroutines that
  connect to the bootstrap nodes change the whitelist without a lock: they are threads whose steps a schedule interleaves.
\<close>

section \<open>The parts of the system\<close>

text \<open>
  \<open>ny_env2\<close> is the surroundings once more, for the defaults that are made later: they hold another generated key.  \<open>ny_New\<close> makes the host from
  the addresses to listen on, the keys and whether resources are unlimited, and reports its identifier.
\<close>

record 'k node_system =
  ny_env :: start_env
  ny_env2 :: start_env
  ny_keys :: "'k key_system"
  ny_New :: "bytes list \<Rightarrow> 'k list \<Rightarrow> bool \<Rightarrow> bytes result"
  ny_relay :: "goerr option"
  ny_DHT :: "goerr option"
  ny_Bootstrap :: "goerr option"
  ny_net :: network
  ny_addr :: "bytes \<Rightarrow> bytes result"
  ny_ident :: "bytes \<Rightarrow> bytes result"
  ny_now :: bytes
  ny_bootstrappers :: "addr_info list"
  ny_schedule :: "nat list"
  ny_DataDir :: bytes

text \<open>How a start ends: the program exits, it waits, an error is returned, or there is a result.\<close>

datatype 'a outcome = Exits nat | Waits | Fails goerr | Runs 'a

section \<open>Connecting to the bootstrap nodes\<close>

text \<open>
  A thread connects, looks the peer up in the whitelist, reads the whitelist for \<open>append\<close>, stores the longer one, saves the configuration and asks
  for a relay slot.  Whitelists are values: that two appends may write to one array makes no further outcome.
\<close>

datatype boot_phase = Dialing | Absent | Loaded "bytes list" | Appended | Reserving | Finished

record boot_state =
  bt_policy :: policy
  bt_store :: config_store
  bt_registry :: registry
  bt_tasks :: "(bytes \<times> boot_phase) list"
  bt_any :: bool

definition enter :: "nat \<Rightarrow> boot_phase \<Rightarrow> boot_state \<Rightarrow> boot_state" where
  "enter i ph b = b\<lparr>bt_tasks := (bt_tasks b)[i := (fst (bt_tasks b ! i), ph)]\<rparr>"

definition boot_act :: "'k node_system \<Rightarrow> nat \<Rightarrow> boot_state \<Rightarrow> boot_state" where
  "boot_act y i b =
     (if i \<ge> length (bt_tasks b) then b
      else (case bt_tasks b ! i of (k, ph) \<Rightarrow> (case ph of
          Dialing \<Rightarrow>
            if nt_Connect (ny_net y) k \<noteq> None then enter i Finished b
            else if \<not> identity_text (ny_addr y) (ny_ident y) k \<or> first_index k (pl_WhiteList (bt_policy b)) \<noteq> None
            then enter i Reserving (b\<lparr>bt_any := True\<rparr>)
            else enter i Absent b
        | Absent \<Rightarrow> enter i (Loaded (pl_WhiteList (bt_policy b))) b
        | Loaded l \<Rightarrow> enter i Appended (b\<lparr>bt_policy := (bt_policy b)\<lparr>pl_WhiteList := l @ [k]\<rparr>\<rparr>)
        | Appended \<Rightarrow> enter i Reserving (b\<lparr>bt_store := snd (syncWhiteListToConfig (ny_env2 y) (bt_policy b) (bt_store b)), bt_any := True\<rparr>)
        | Reserving \<Rightarrow> enter i Finished (b\<lparr>bt_registry := snd (reserveRelaySlot (ny_net y) (ny_now y) k (bt_registry b))\<rparr>)
        | Finished \<Rightarrow> b)))"

definition InitDHT :: "'k node_system \<Rightarrow> bytes \<Rightarrow> policy \<Rightarrow> config_store \<Rightarrow> boot_state outcome" where
  "InitDHT y self p st =
     (case ny_DHT y of
        Some e \<Rightarrow> Fails e
      | None \<Rightarrow> (case ny_Bootstrap y of
          Some e \<Rightarrow> Fails e
        | None \<Rightarrow>
            (let b = fold (boot_act y) (ny_schedule y) \<lparr>bt_policy = p, bt_store = st, bt_registry = new_registry self,
                bt_tasks = map (\<lambda>k. (k, Dialing)) (filter (\<lambda>k. k \<noteq> self) (map fst (ny_bootstrappers y))), bt_any = False\<rparr>
             in if list_all (\<lambda>t. snd t = Finished) (bt_tasks b) then Runs b else Waits)))"

section \<open>Nodes\<close>

record p2p_node =
  nn_ID :: bytes
  nn_Bootstrapper :: bool
  nn_RelayNode :: bool
  nn_ReferenceToken :: bytes
  nn_Policy :: policy
  nn_registry :: registry
  nn_store :: config_store

definition buildListenAddrOptions :: "bytes \<Rightarrow> nat \<Rightarrow> bytes list" where
  "buildListenAddrOptions host port =
     [''/ip4/'' @ host @ ''/tcp/'' @ show_nat port, ''/ip4/'' @ host @ ''/udp/'' @ show_nat port @ ''/quic-v1'']"

definition LoadPrivateKey :: "'k node_system \<Rightarrow> bytes \<Rightarrow> 'k result" where
  "LoadPrivateKey y b64 = DecodePrivateKey (ny_keys y) b64"

definition NewNodeWithOptions :: "'k node_system \<Rightarrow> bytes \<Rightarrow> nat \<Rightarrow> bool \<Rightarrow> bool \<Rightarrow> bytes \<Rightarrow> bool \<Rightarrow> 'k list \<Rightarrow> config_store \<Rightarrow> p2p_node outcome" where
  "NewNodeWithOptions y host port bootstrapper relayNode b64privkey debug opts st =
     (case (if b64privkey = [] then Inr [] else map_sum (\<lambda>e. e) (\<lambda>k. [k]) (LoadPrivateKey y b64privkey)) of
        Inl _ \<Rightarrow> Exits 1
      | Inr keys \<Rightarrow>
          (case ny_New y (buildListenAddrOptions host port) (keys @ opts) (debug \<or> \<not> bootstrapper) of
             Inl e \<Rightarrow> Fails e
           | Inr self \<Rightarrow>
               (case LoadFromConfig (ny_env2 y) \<lparr>pl_Enable = True, pl_WhiteList = []\<rparr> st of (p, st) \<Rightarrow>
                  if relayNode \<and> ny_relay y \<noteq> None then Fails (the (ny_relay y))
                  else (case InitDHT y self p st of
                      Runs b \<Rightarrow> Runs \<lparr>nn_ID = self, nn_Bootstrapper = bootstrapper, nn_RelayNode = relayNode, nn_ReferenceToken = [],
                        nn_Policy = bt_policy b, nn_registry = bt_registry b, nn_store = bt_store b\<rparr>
                    | Exits n \<Rightarrow> Exits n | Waits \<Rightarrow> Waits | Fails e \<Rightarrow> Fails e))))"

definition NewNode :: "'k node_system \<Rightarrow> bytes \<Rightarrow> nat \<Rightarrow> 'k list \<Rightarrow> config_store \<Rightarrow> p2p_node outcome" where
  "NewNode y host port opts st = NewNodeWithOptions y host port False False [] False opts st"

definition NewBootstrapper :: "'k node_system \<Rightarrow> bytes \<Rightarrow> nat \<Rightarrow> bytes \<Rightarrow> bool \<Rightarrow> bool \<Rightarrow> 'k list \<Rightarrow> config_store \<Rightarrow> p2p_node outcome" where
  "NewBootstrapper y host port b64privkey relayNode debug opts st = NewNodeWithOptions y host port True relayNode b64privkey debug opts st"

section \<open>Devices\<close>

text \<open>A running device; a bound protocol is guarded by the policy of the node or not.\<close>

datatype protocol_name = EchoProtocol | FileProtocol | ProxyProtocol | ComputeProtocol

record running_device =
  rd_Node :: p2p_node
  rd_DataDir :: bytes
  rd_handlers :: "(protocol_name \<times> bool) list"
  rd_metrics :: "nat option"
  rd_discovery :: bool
  rd_socket :: bool
  rd_API :: "nat option"
  rd_release :: bool

definition device_ImportKey :: "'k node_system \<Rightarrow> bytes \<Rightarrow> 'k list \<Rightarrow> 'k list outcome" where
  "device_ImportKey y b64 opts = (case LoadPrivateKey y b64 of Inl _ \<Rightarrow> Exits 1 | Inr k \<Rightarrow> Runs (opts @ [k]))"

definition device_GenerateKey :: "'k node_system \<Rightarrow> int \<Rightarrow> 'k list \<Rightarrow> 'k list outcome" where
  "device_GenerateKey y seed opts = (case id_GeneratePrivateKey (ny_keys y) seed of Inl _ \<Rightarrow> Exits 1 | Inr k \<Rightarrow> Runs (opts @ [k]))"

definition InitWithOptions :: "'k node_system \<Rightarrow> bytes \<Rightarrow> nat \<Rightarrow> bool \<Rightarrow> bool \<Rightarrow> bytes \<Rightarrow> bool \<Rightarrow> 'k list \<Rightarrow> config_store \<Rightarrow> running_device outcome" where
  "InitWithOptions y host port bootstrapper relayNode b64privkey debug opts st =
     (case NewNodeWithOptions y host port bootstrapper relayNode b64privkey debug opts st of
        Exits n \<Rightarrow> Exits n
      | Waits \<Rightarrow> Waits
      | Fails _ \<Rightarrow> Exits 1
      | Runs n \<Rightarrow> (case GetInstance (ny_env2 y) (nn_store n) of
            (None, _) \<Rightarrow> Exits 2
          | (Some cfg, st) \<Rightarrow> Runs \<lparr>rd_Node = n\<lparr>nn_store := st\<rparr>, rd_DataDir = InitDataDir (cf_DataDir cfg) (ny_DataDir y),
              rd_handlers = [(EchoProtocol, False), (FileProtocol, True), (ProxyProtocol, True), (ComputeProtocol, True)],
              rd_metrics = None, rd_discovery = False, rd_socket = False, rd_API = None, rd_release = False\<rparr>))"

definition device_Init :: "'k node_system \<Rightarrow> bytes \<Rightarrow> nat \<Rightarrow> 'k list \<Rightarrow> config_store \<Rightarrow> running_device outcome" where
  "device_Init y host port opts st = InitWithOptions y host port False False [] False opts st"

definition SetReferenceToken :: "bytes \<Rightarrow> running_device \<Rightarrow> running_device" where
  "SetReferenceToken token d = d\<lparr>rd_Node := (rd_Node d)\<lparr>nn_ReferenceToken := token\<rparr>\<rparr>"

definition set_policy_enabled :: "bool \<Rightarrow> running_device \<Rightarrow> running_device" where
  "set_policy_enabled b d = d\<lparr>rd_Node := (rd_Node d)\<lparr>nn_Policy := (nn_Policy (rd_Node d))\<lparr>pl_Enable := b\<rparr>\<rparr>\<rparr>"

definition StartMetricsServer :: "nat \<Rightarrow> running_device \<Rightarrow> running_device" where
  "StartMetricsServer port d = d\<lparr>rd_metrics := Some port\<rparr>"

definition StartDiscovery :: "running_device \<Rightarrow> running_device" where
  "StartDiscovery d = d\<lparr>rd_discovery := True\<rparr>"

definition StartUnixSocket :: "running_device \<Rightarrow> running_device" where
  "StartUnixSocket d = d\<lparr>rd_socket := True\<rparr>"

definition StartAPI :: "nat \<Rightarrow> running_device \<Rightarrow> running_device" where
  "StartAPI port d = d\<lparr>rd_API := Some port\<rparr>"

lemmas device_operations = SetReferenceToken_def set_policy_enabled_def StartMetricsServer_def StartDiscovery_def StartUnixSocket_def StartAPI_def

text \<open>A stream that a peer opens: whether it reaches the handler of its protocol.\<close>

definition admits :: "running_device \<Rightarrow> protocol_name \<Rightarrow> bytes \<Rightarrow> bool" where
  "admits d p peer = (case map_of (rd_handlers d) p of
      None \<Rightarrow> False
    | Some guarded \<Rightarrow> if guarded then AuthorizeStream (\<lambda>s. s) (\<lambda>_ _. False) (nn_Policy (rd_Node d)) (\<lambda>_. True) peer else True)"

end
