(* ===== verification/Node_Command.thy ===== *)
theory Node_Command
  imports Node_Start
begin

text \<open>
  The commands \<open>node\<close> and \<open>config\<close> of \<open>cmd/stellar\<close>: settings from the configuration and the flags, the file of the first start, and what
  is started; and which peers the running node admits.
\<close>

section \<open>Settings\<close>

record node_settings =
  ns_host :: bytes
  ns_port :: int
  ns_bootstrapper :: bool
  ns_relay :: bool
  ns_disable_node :: bool
  ns_seed :: int
  ns_b64privkey :: bytes
  ns_reference_token :: bytes
  ns_metrics :: bool
  ns_metrics_port :: int
  ns_disable_policy :: bool
  ns_no_socket :: bool
  ns_api :: bool
  ns_api_port :: int
  ns_data_dir :: bytes
  ns_debug :: bool

definition settings_of :: "config \<Rightarrow> node_settings" where
  "settings_of c = \<lparr>ns_host = cf_ListenHost c, ns_port = cf_ListenPort c, ns_bootstrapper = cf_Bootstrapper c, ns_relay = cf_Relay c,
     ns_disable_node = False, ns_seed = cf_Seed c, ns_b64privkey = cf_B64PrivKey c, ns_reference_token = cf_ReferenceToken c,
     ns_metrics = cf_Metrics c, ns_metrics_port = cf_MetricsPort c, ns_disable_policy = cf_DisablePolicy c, ns_no_socket = cf_NoSocketServer c,
     ns_api = cf_APIServer c, ns_api_port = cf_APIPort c, ns_data_dir = cf_DataDir c, ns_debug = cf_Debug c\<rparr>"

definition node_flags :: "node_settings flag_set" where
  "node_flags =
    [(''host'', StringFlag (\<lambda>v s. s\<lparr>ns_host := v\<rparr>)),
     (''port'', IntFlag (\<lambda>n s. s\<lparr>ns_port := n\<rparr>)),
     (''bootstrapper'', BoolFlag (\<lambda>b s. s\<lparr>ns_bootstrapper := b\<rparr>)),
     (''relay'', BoolFlag (\<lambda>b s. s\<lparr>ns_relay := b\<rparr>)),
     (''disable-node'', BoolFlag (\<lambda>b s. s\<lparr>ns_disable_node := b\<rparr>)),
     (''seed'', IntFlag (\<lambda>n s. s\<lparr>ns_seed := n\<rparr>)),
     (''b64privkey'', StringFlag (\<lambda>v s. s\<lparr>ns_b64privkey := v\<rparr>)),
     (''reference_token'', StringFlag (\<lambda>v s. s\<lparr>ns_reference_token := v\<rparr>)),
     (''metrics'', BoolFlag (\<lambda>b s. s\<lparr>ns_metrics := b\<rparr>)),
     (''metrics-port'', IntFlag (\<lambda>n s. s\<lparr>ns_metrics_port := n\<rparr>)),
     (''disable-policy'', BoolFlag (\<lambda>b s. s\<lparr>ns_disable_policy := b\<rparr>)),
     (''no-socket'', BoolFlag (\<lambda>b s. s\<lparr>ns_no_socket := b\<rparr>)),
     (''api'', BoolFlag (\<lambda>b s. s\<lparr>ns_api := b\<rparr>)),
     (''api-port'', IntFlag (\<lambda>n s. s\<lparr>ns_api_port := n\<rparr>)),
     (''data-dir'', StringFlag (\<lambda>v s. s\<lparr>ns_data_dir := v\<rparr>)),
     (''debug'', BoolFlag (\<lambda>b s. s\<lparr>ns_debug := b\<rparr>))]"

text \<open>The configuration of the first start: the loaded one with the settings, where an empty key keeps the generated one.\<close>

definition first_config :: "node_settings \<Rightarrow> config \<Rightarrow> config" where
  "first_config s c = c
    \<lparr>cf_ListenHost := ns_host s, cf_ListenPort := ns_port s, cf_Bootstrapper := ns_bootstrapper s, cf_Relay := ns_relay s,
     cf_Seed := ns_seed s, cf_B64PrivKey := (if ns_b64privkey s \<noteq> [] then ns_b64privkey s else cf_B64PrivKey c),
     cf_ReferenceToken := ns_reference_token s, cf_Metrics := ns_metrics s, cf_MetricsPort := ns_metrics_port s,
     cf_DisablePolicy := ns_disable_policy s, cf_NoSocketServer := ns_no_socket s, cf_APIServer := ns_api s, cf_APIPort := ns_api_port s,
     cf_Debug := ns_debug s, cf_DataDir := ns_data_dir s\<rparr>"

text \<open>\<open>nodeCommand\<close> up to the point where the device is made: the settings, and the store with the file of a first start; or an exit status.\<close>

definition load_or_default :: "start_env \<Rightarrow> filesys \<Rightarrow> config \<times> bool" where
  "load_or_default env fs = (case loadConfigFromFile env fs of Inl _ \<Rightarrow> (DefaultConfig env, False) | Inr r \<Rightarrow> r)"

definition node_settle :: "start_env \<Rightarrow> bytes list \<Rightarrow> config_store \<Rightarrow> nat + (node_settings \<times> config_store)" where
  "node_settle env args st = (case load_or_default env (cg_fs st) of (cfg, configExists) \<Rightarrow>
     (case Parse node_flags args (settings_of cfg) of
        Inl status \<Rightarrow> Inl status
      | Inr s \<Rightarrow>
          if ns_disable_node s \<and> \<not> ns_bootstrapper s then Inl 1
          else if ns_relay s \<and> \<not> ns_bootstrapper s then Inl 1
          else if \<not> configExists then Inr (s, snd (SaveConfig env (first_config s cfg) st))
          else Inr (s, st)))"

definition to_port :: "int \<Rightarrow> nat" where
  "to_port n = nat (n mod 2 ^ 64)"

definition node_launch :: "'k node_system \<Rightarrow> node_settings \<Rightarrow> config_store \<Rightarrow> running_device outcome" where
  "node_launch y s st =
     (case (if ns_b64privkey s = [] then device_GenerateKey y (ns_seed s) [] else Runs []) of
        Exits n \<Rightarrow> Exits n | Waits \<Rightarrow> Waits | Fails e \<Rightarrow> Fails e
      | Runs opts \<Rightarrow>
          (case InitWithOptions y (ns_host s) (to_port (ns_port s)) (ns_bootstrapper s) (ns_relay s) (ns_b64privkey s) (ns_debug s) opts st of
             Exits n \<Rightarrow> Exits n | Waits \<Rightarrow> Waits | Fails e \<Rightarrow> Fails e
           | Runs d \<Rightarrow>
               (let d = set_policy_enabled (\<not> ns_disable_policy s) (SetReferenceToken (ns_reference_token s) d);
                    d = (if ns_metrics s then StartMetricsServer (to_port (ns_metrics_port s)) d else d)
                in if ns_disable_node s \<and> ns_bootstrapper s then Runs d
                   else (let d = (StartDiscovery d)\<lparr>rd_release := \<not> ns_debug s\<rparr>;
                             d = (if \<not> ns_no_socket s then StartUnixSocket d else d)
                         in Runs (if ns_api s then StartAPI (to_port (ns_api_port s)) d else d)))))"

definition nodeCommand :: "'k node_system \<Rightarrow> bytes list \<Rightarrow> config_store \<Rightarrow> running_device outcome" where
  "nodeCommand y args st = (case node_settle (ny_env y) args st of Inl status \<Rightarrow> Exits status | Inr (s, st) \<Rightarrow> node_launch y s st)"

text \<open>The \<open>config\<close> command: the configuration it logs, or nothing after an error.\<close>

definition configCommand :: "start_env \<Rightarrow> bytes list \<Rightarrow> filesys \<Rightarrow> nat + config option" where
  "configCommand env args fs = (case Parse [] args () of
      Inl status \<Rightarrow> Inl status
    | Inr _ \<Rightarrow> Inr (case loadConfigFromFile env fs of
          Inl _ \<Rightarrow> None
        | Inr (cfg, configExists) \<Rightarrow> Some (if configExists then cfg else DefaultConfig env)))"

section \<open>The threads that connect\<close>

text \<open>The peers that may be added: bootstrap nodes the host is connected to, whose identifier is valid.\<close>

definition reached :: "'k node_system \<Rightarrow> bytes \<Rightarrow> bytes set" where
  "reached y self = {k \<in> fst ` set (ny_bootstrappers y). k \<noteq> self \<and> nt_Connect (ny_net y) k = None \<and> identity_text (ny_addr y) (ny_ident y) k}"

definition grown :: "bytes list \<Rightarrow> bytes set \<Rightarrow> bytes list \<Rightarrow> bool" where
  "grown l0 K l \<longleftrightarrow> prefix l0 l \<and> set l \<subseteq> set l0 \<union> K"

lemma grown_snoc: "grown l0 K l \<Longrightarrow> k \<in> K \<Longrightarrow> grown l0 K (l @ [k])"
  by (auto simp: grown_def)

definition task_ok :: "bytes list \<Rightarrow> bytes set \<Rightarrow> bytes set \<Rightarrow> bytes \<times> boot_phase \<Rightarrow> bool" where
  "task_ok l0 K B t \<longleftrightarrow> fst t \<in> B \<and> (snd t = Absent \<longrightarrow> fst t \<in> K) \<and> (\<forall>l. snd t = Loaded l \<longrightarrow> fst t \<in> K \<and> grown l0 K l)"

definition boot_ok :: "bytes list \<Rightarrow> bytes set \<Rightarrow> bytes set \<Rightarrow> bool \<Rightarrow> boot_state \<Rightarrow> bool" where
  "boot_ok l0 K B en b \<longleftrightarrow> grown l0 K (pl_WhiteList (bt_policy b)) \<and> pl_Enable (bt_policy b) = en \<and> list_all (task_ok l0 K B) (bt_tasks b)"

lemma list_all_update: "list_all P xs \<Longrightarrow> P x \<Longrightarrow> list_all P (xs[i := x])"
  by (induction xs arbitrary: i) (auto split: nat.splits)

lemma boot_act_ok:
  assumes "boot_ok l0 K B en b"
    and K: "\<And>k. k \<in> B \<Longrightarrow> nt_Connect (ny_net y) k = None \<Longrightarrow> identity_text (ny_addr y) (ny_ident y) k \<Longrightarrow> k \<in> K"
  shows "boot_ok l0 K B en (boot_act y i b)"
proof (cases "i < length (bt_tasks b)")
  case True
  obtain k ph where t: "bt_tasks b ! i = (k, ph)" by fastforce
  then have k: "task_ok l0 K B (k, ph)" using assms(1) True by (auto simp: boot_ok_def list_all_length)
  have w: "grown l0 K (pl_WhiteList (bt_policy b))" using assms(1) by (simp add: boot_ok_def)
  show ?thesis
    using assms(1) True k w K [of k] grown_snoc [of l0 K _ k]
    by (cases ph) (auto simp: boot_act_def t enter_def boot_ok_def task_ok_def intro!: list_all_update)
qed (use assms(1) in \<open>simp add: boot_act_def\<close>)

lemma boot_fold_ok:
  assumes "\<And>k. k \<in> B \<Longrightarrow> nt_Connect (ny_net y) k = None \<Longrightarrow> identity_text (ny_addr y) (ny_ident y) k \<Longrightarrow> k \<in> K"
  shows "boot_ok l0 K B en b \<Longrightarrow> boot_ok l0 K B en (fold (boot_act y) is b)"
  by (induction "is" arbitrary: b) (simp_all add: boot_act_ok [OF _ assms])

lemma InitDHT_ok:
  assumes "InitDHT y self p st = Runs b"
  shows "boot_ok (pl_WhiteList p) (reached y self) {k \<in> fst ` set (ny_bootstrappers y). k \<noteq> self} (pl_Enable p) b"
proof -
  let ?b = "\<lparr>bt_policy = p, bt_store = st, bt_registry = new_registry self,
    bt_tasks = map (\<lambda>k. (k, Dialing)) (filter (\<lambda>k. k \<noteq> self) (map fst (ny_bootstrappers y))), bt_any = False\<rparr>"
  have "b = fold (boot_act y) (ny_schedule y) ?b" using assms by (auto simp: InitDHT_def Let_def split: option.splits if_splits)
  moreover have "boot_ok (pl_WhiteList p) (reached y self) {k \<in> fst ` set (ny_bootstrappers y). k \<noteq> self} (pl_Enable p) ?b"
    by (auto simp: boot_ok_def task_ok_def grown_def list_all_iff)
  ultimately show ?thesis by (auto intro: boot_fold_ok simp: reached_def)
qed

text \<open>A thread that runs alone does what \<open>AddWhiteList\<close> does.\<close>

lemma thread_alone:
  assumes "i < length (bt_tasks b)" "bt_tasks b ! i = (k, Dialing)" "nt_Connect (ny_net y) k = None"
  shows "\<exists>b'. fold (boot_act y) (replicate 5 i) b = b' \<and> bt_tasks b' = (bt_tasks b)[i := (k, Finished)]
    \<and> (bt_policy b', bt_store b') = snd (AddWhiteList (ny_addr y) (ny_ident y) (ny_env2 y) k (bt_policy b) (bt_store b))"
  using assms
  by (cases "identity_text (ny_addr y) (ny_ident y) k"; cases "first_index k (pl_WhiteList (bt_policy b))")
    (auto simp: numeral_eq_Suc boot_act_def enter_def AddWhiteList_def identity_text_def Let_def split: sum.splits)

section \<open>Who is admitted\<close>

definition saved_peers :: "start_env \<Rightarrow> config_store \<Rightarrow> bytes list" where
  "saved_peers env st = (case loadConfigFromFile env (cg_fs st) of
      Inl _ \<Rightarrow> []
    | Inr (c, _) \<Rightarrow> (case cf_WhiteList c of None \<Rightarrow> [] | Some l \<Rightarrow> l))"

lemma LoadFromConfig_first:
  assumes "\<not> cg_once st"
  shows "\<exists>st'. LoadFromConfig env p st = (p\<lparr>pl_WhiteList := saved_peers env st\<rparr>, st')"
  using assms
  by (auto simp: LoadFromConfig_def GetInstance_def saved_peers_def DefaultConfig_def Let_def split: sum.splits)

lemma NewNode_ok:
  assumes "NewNodeWithOptions y host port bootstrapper relayNode b64 debug opts st = Runs n" "\<not> cg_once st"
  shows "grown (saved_peers (ny_env2 y) st) (reached y (nn_ID n)) (pl_WhiteList (nn_Policy n))"
proof -
  obtain st1 where l: "LoadFromConfig (ny_env2 y) \<lparr>pl_Enable = True, pl_WhiteList = []\<rparr> st
      = (\<lparr>pl_Enable = True, pl_WhiteList = saved_peers (ny_env2 y) st\<rparr>, st1)"
    using LoadFromConfig_first [OF assms(2), of "ny_env2 y" "\<lparr>pl_Enable = True, pl_WhiteList = []\<rparr>"] by auto
  obtain b where "InitDHT y (nn_ID n) \<lparr>pl_Enable = True, pl_WhiteList = saved_peers (ny_env2 y) st\<rparr> st1 = Runs b" "nn_Policy n = bt_policy b"
    using assms(1) by (auto simp: NewNodeWithOptions_def l split: sum.splits if_splits outcome.splits)
  then show ?thesis using InitDHT_ok by (fastforce simp: boot_ok_def)
qed

lemma node_settle_store: "node_settle env args st = Inr (s, st1) \<Longrightarrow> cg_once st1 = cg_once st"
  by (auto simp: node_settle_def SaveConfig_def saveUnlocked_def split: prod.splits sum.splits if_splits option.splits)

text \<open>
  C29: A node that the command has started admits to files, proxies and computations exactly the peers of its whitelist, unless its policy was disabled;
  and however the connections to the bootstrap nodes interleave, these are the peers of the configuration file, all of them, and besides them only
  bootstrap nodes to which it is connected.  The echo protocol is open to every peer.
\<close>

theorem started_node_admits:
  assumes "nodeCommand y args st = Runs d" "\<not> cg_once st"
  shows "\<exists>s st1 l. node_settle (ny_env y) args st = Inr (s, st1) \<and> grown (saved_peers (ny_env2 y) st1) (reached y (nn_ID (rd_Node d))) l
    \<and> (\<forall>p peer. admits d p peer \<longleftrightarrow> p = EchoProtocol \<or> ns_disable_policy s \<or> peer \<in> set l)"
proof -
  obtain s st1 where s: "node_settle (ny_env y) args st = Inr (s, st1)" "node_launch y s st1 = Runs d"
    using assms(1) by (auto simp: nodeCommand_def split: sum.splits prod.splits)
  obtain opts d1 where d1: "InitWithOptions y (ns_host s) (to_port (ns_port s)) (ns_bootstrapper s) (ns_relay s) (ns_b64privkey s) (ns_debug s) opts st1 = Runs d1"
    and d: "rd_handlers d = rd_handlers d1" "nn_ID (rd_Node d) = nn_ID (rd_Node d1)"
      "nn_Policy (rd_Node d) = (nn_Policy (rd_Node d1))\<lparr>pl_Enable := \<not> ns_disable_policy s\<rparr>"
    using s(2) by (auto simp: node_launch_def device_operations Let_def split: outcome.splits if_splits)
  obtain n where n: "NewNodeWithOptions y (ns_host s) (to_port (ns_port s)) (ns_bootstrapper s) (ns_relay s) (ns_b64privkey s) (ns_debug s) opts st1 = Runs n"
      "nn_Policy (rd_Node d1) = nn_Policy n" "nn_ID (rd_Node d1) = nn_ID n"
      "rd_handlers d1 = [(EchoProtocol, False), (FileProtocol, True), (ProxyProtocol, True), (ComputeProtocol, True)]"
    using d1 by (auto simp: InitWithOptions_def split: outcome.splits prod.splits option.splits)
  have "\<not> cg_once st1" using node_settle_store [OF s(1)] assms(2) by simp
  note g = NewNode_ok [OF n(1) this]
  have "admits d p peer \<longleftrightarrow> p = EchoProtocol \<or> ns_disable_policy s \<or> peer \<in> set (pl_WhiteList (nn_Policy n))" for p peer
    by (cases p) (auto simp: admits_def d n AuthorizeStream_def Authenticate_iff)
  then show ?thesis using s(1) g d n by auto
qed

section \<open>The next start\<close>

lemma SaveConfig_load:
  assumes "SaveConfig env c st = (None, st')" "config_ok c" "fs_ok (cg_fs st)" "GetConfigPath env' = GetConfigPath env"
  shows "loadConfigFromFile env' (cg_fs st') = Inr (restored c (DefaultConfig env'), True)"
  using saved_loaded [of env c "st\<lparr>cg_instance := Some c\<rparr>" st' env'] assms by (simp add: SaveConfig_def)

text \<open>
  C30: The settings of the first start are those of the next start without flags, with the same key and thus the same identifier, but for those whose value
  is zero: the defaults come back, so that the HTTP interface is served again, and the node is no longer a bare bootstrap node.
\<close>

theorem next_start_settings:
  assumes "loadConfigFromFile env (cg_fs st) = Inr (c, False)" "node_settle env args st = Inr (s, st1)"
    and "fst (SaveConfig env (first_config s c) st) = None" "config_ok (first_config s c)" "fs_ok (cg_fs st)"
    and "GetConfigPath env' = GetConfigPath env" "cg_fs st2 = cg_fs st1"
  shows "node_settle env' [] st2 = Inr (s
    \<lparr>ns_host := if ns_host s = [] then ''0.0.0.0'' else ns_host s, ns_disable_node := False,
     ns_b64privkey := if ns_b64privkey s \<noteq> [] then ns_b64privkey s
       else if cf_B64PrivKey c \<noteq> [] then cf_B64PrivKey c else cf_B64PrivKey (DefaultConfig env'),
     ns_metrics_port := if ns_metrics_port s = 0 then 5001 else ns_metrics_port s, ns_api := True,
     ns_api_port := if ns_api_port s = 0 then 1524 else ns_api_port s,
     ns_data_dir := if ns_data_dir s = [] then defaultDataDir env' else ns_data_dir s\<rparr>, st2)"
proof -
  have ok: "\<not> (ns_relay s \<and> \<not> ns_bootstrapper s)" and st1: "st1 = snd (SaveConfig env (first_config s c) st)"
    using assms(1,2) by (auto simp: node_settle_def load_or_default_def split: sum.splits if_splits)
  have "SaveConfig env (first_config s c) st = (None, st1)" using assms(3) st1 by (simp add: prod_eq_iff)
  from SaveConfig_load [OF this assms(4-6)] have l: "loadConfigFromFile env' (cg_fs st2) = Inr (restored (first_config s c) (DefaultConfig env'), True)"
    by (simp add: assms(7))
  show ?thesis
    using ok by (cases s) (auto simp: node_settle_def load_or_default_def l settings_of_def restored_def first_config_def DefaultConfig_def)
qed

text \<open>
  A configuration file that cannot be read back, as after a slip of an administrator who edits it, is overwritten by the next start with the
  defaults and the flags: the peers it admitted and the key it held are gone.
\<close>

theorem unreadable_config_replaced:
  assumes "loadConfigFromFile env (cg_fs st) = Inl e" "node_settle env args st = Inr (s, st1)"
    and "fst (SaveConfig env (first_config s (DefaultConfig env)) st) = None" "config_ok (first_config s (DefaultConfig env))" "fs_ok (cg_fs st)"
    and "GetConfigPath env' = GetConfigPath env"
  shows "saved_peers env' st1 = [] \<and> (\<exists>c. loadConfigFromFile env' (cg_fs st1) = Inr (c, True)
    \<and> (ns_b64privkey s \<noteq> [] \<longrightarrow> cf_B64PrivKey c = ns_b64privkey s))"
proof -
  have "st1 = snd (SaveConfig env (first_config s (DefaultConfig env)) st)"
    using assms(1,2) by (auto simp: node_settle_def load_or_default_def split: sum.splits if_splits)
  then have "SaveConfig env (first_config s (DefaultConfig env)) st = (None, st1)" using assms(3) by (simp add: prod_eq_iff)
  from SaveConfig_load [OF this assms(4-6)] show ?thesis
    by (simp add: saved_peers_def) (simp add: restored_def first_config_def DefaultConfig_def)
qed

text \<open>Two flags do nothing once there is a configuration file: the data directory, which is read from the file, and the seed, as the file holds a key.\<close>

lemma launch_ignores: "node_launch y (s\<lparr>ns_data_dir := v\<rparr>) st = node_launch y s st"
    "ns_b64privkey s \<noteq> [] \<Longrightarrow> node_launch y (s\<lparr>ns_seed := n\<rparr>) st = node_launch y s st"
  by (simp_all add: node_launch_def Let_def cong: outcome.case_cong if_cong)

lemma data_dir_flag_ignored:
  assumes "loadConfigFromFile (ny_env y) (cg_fs st) = Inr (c, True)"
  shows "nodeCommand y [''-data-dir'', v] st = nodeCommand y [] st"
  by (simp add: nodeCommand_def node_settle_def load_or_default_def assms node_flags_def flag_name_def flag_Set_def launch_ignores)

lemma seed_flag_ignored:
  assumes "loadConfigFromFile (ny_env y) (cg_fs st) = Inr (c, True)" "cf_B64PrivKey c \<noteq> []" "ParseInt0 v = Some n"
  shows "nodeCommand y [''-seed'', v] st = nodeCommand y [] st"
proof -
  have "ns_b64privkey (settings_of c) \<noteq> []" using assms(2) by (simp add: settings_of_def)
  then show ?thesis
    by (simp add: nodeCommand_def node_settle_def load_or_default_def assms(1,3) node_flags_def flag_name_def flag_Set_def launch_ignores)
qed

section \<open>Examples\<close>

text \<open>A first start with two bootstrap nodes, under a schedule.\<close>

definition sample_net :: network where
  "sample_net = \<lparr>nt_Connect = (\<lambda>_. None), nt_Connected = (\<lambda>_. True), nt_Addrs = (\<lambda>_. []), nt_Circuit = (\<lambda>_ _. True),
     nt_ConnectVia = (\<lambda>_ _ _. None), nt_Reserve = (\<lambda>_. Some EOF), nt_Ping = (\<lambda>_. None), nt_GetEcho = (\<lambda>_. Inl EOF)\<rparr>"

definition sample_system :: "start_env \<Rightarrow> nat list \<Rightarrow> bytes node_system" where
  "sample_system env is = \<lparr>ny_env = env, ny_env2 = env\<lparr>se_key := Inr ''key2''\<rparr>, ny_keys = sample_keys,
     ny_New = (\<lambda>as ks u. Inr ''me''), ny_relay = None, ny_DHT = None, ny_Bootstrap = None, ny_net = sample_net, ny_addr = Inr, ny_ident = Inr,
     ny_now = [], ny_bootstrappers = [(''a'', []), (''b'', [])], ny_schedule = is, ny_DataDir = []\<rparr>"

definition homeless :: start_env where
  "homeless = sample_start\<lparr>se_HomeDir := Inl EOF\<rparr>"

definition whitelist_after :: "nat list \<Rightarrow> bytes list option" where
  "whitelist_after is = (case nodeCommand (sample_system homeless is) [''-b64privkey'', ''eHl6''] sample_store of
     Runs d \<Rightarrow> Some (pl_WhiteList (nn_Policy (rd_Node d))) | _ \<Rightarrow> None)"

text \<open>One after the other both nodes are admitted; when the second reads the list before the first has stored its own, the first is lost.\<close>

lemma unlocked_whitelist_loses_node:
  "whitelist_after [0, 0, 0, 0, 0, 1, 1, 1, 1, 1] = Some [''a'', ''b'']"
  "whitelist_after [0, 1, 0, 1, 0, 1, 0, 0, 1, 1] = Some [''b'']"
  by code_simp+

lemma sample_start_runs:
  "(case nodeCommand (sample_system homeless [0, 1, 0, 1, 0, 1, 0, 0, 1, 1]) [''-b64privkey'', ''eHl6''] sample_store of Runs _ \<Rightarrow> True | _ \<Rightarrow> False)"
  "map_sum (\<lambda>e. e) (\<lambda>r. ns_disable_policy (fst r)) (node_settle homeless [''-b64privkey'', ''eHl6''] sample_store) = Inr False"
  by code_simp+

theorem started_node_admits_witness:
  "\<exists>d. nodeCommand (sample_system homeless [0, 1, 0, 1, 0, 1, 0, 0, 1, 1]) [''-b64privkey'', ''eHl6''] sample_store = Runs d
    \<and> admits d EchoProtocol ''c'' \<and> \<not> admits d FileProtocol ''c''"
proof -
  let ?y = "sample_system homeless [0, 1, 0, 1, 0, 1, 0, 0, 1, 1]"
  obtain d where d: "nodeCommand ?y [''-b64privkey'', ''eHl6''] sample_store = Runs d"
    using sample_start_runs(1) by (auto split: outcome.splits)
  have once: "\<not> cg_once sample_store" by (simp add: sample_store_def)
  have y: "ny_env ?y = homeless" "ny_env2 ?y = homeless\<lparr>se_key := Inr ''key2''\<rparr>" "map fst (ny_bootstrappers ?y) = [''a'', ''b'']"
    by (simp_all add: sample_system_def)
  obtain s st1 l where n: "node_settle (ny_env ?y) [''-b64privkey'', ''eHl6''] sample_store = Inr (s, st1)"
    "grown (saved_peers (ny_env2 ?y) st1) (reached ?y (nn_ID (rd_Node d))) l"
    "\<forall>p peer. admits d p peer \<longleftrightarrow> p = EchoProtocol \<or> ns_disable_policy s \<or> peer \<in> set l"
    using started_node_admits [OF d once] by blast
  have "saved_peers (ny_env2 ?y) st1 = []"
    unfolding y by (simp add: saved_peers_def loadConfigFromFile_def GetConfigPath_def StellarPath_def homeless_def)
  moreover have "reached ?y (nn_ID (rd_Node d)) \<subseteq> {''a'', ''b''}"
    using y(3) unfolding reached_def by (metis (no_types, lifting) empty_set list.simps(15) list.set_map mem_Collect_eq subsetI)
  ultimately have "''c'' \<notin> set l" using n(2) by (auto simp: grown_def)
  moreover have "\<not> ns_disable_policy s" using sample_start_runs(2) n(1) unfolding y by simp
  ultimately show ?thesis using d n(3) by auto
qed

lemma sample_flags:
  "Parse node_flags [''-bootstrapper'', ''--api=false'', ''-port'', ''4001'', ''-disable-node''] (settings_of (DefaultConfig sample_start))
    = Inr ((settings_of (DefaultConfig sample_start))\<lparr>ns_bootstrapper := True, ns_api := False, ns_port := 4001, ns_disable_node := True\<rparr>)"
  by code_simp

lemma sample_SaveConfig: "cg_fs st = cg_fs sample_store \<Longrightarrow> fst (SaveConfig sample_start c st) = None"
  using sample_saved [of "st\<lparr>cg_instance := Some c\<rparr>" c] by (auto simp: SaveConfig_def)

theorem next_start_settings_witness:
  "\<exists>s st s' st'. node_settle sample_start [''-bootstrapper'', ''--api=false'', ''-port'', ''4001'', ''-disable-node''] sample_store = Inr (s, st)
    \<and> node_settle sample_start [] st = Inr (s', st') \<and> ns_port s' = 4001 \<and> ns_bootstrapper s' \<and> \<not> ns_disable_node s' \<and> ns_api s' \<and> ns_b64privkey s' = ''key''"
proof -
  let ?args = "[''-bootstrapper'', ''--api=false'', ''-port'', ''4001'', ''-disable-node'']"
  let ?s = "(settings_of (DefaultConfig sample_start))\<lparr>ns_bootstrapper := True, ns_api := False, ns_port := 4001, ns_disable_node := True\<rparr>"
  let ?c = "first_config ?s (DefaultConfig sample_start)"
  have n: "node_settle sample_start ?args sample_store = Inr (?s, snd (SaveConfig sample_start ?c sample_store))"
    by (simp add: node_settle_def load_or_default_def sample_unsaved sample_flags del: Parse.simps)
  have k: "config_ok ?c" using default_config_ok by (simp add: config_ok_def first_config_def settings_of_def)
  show ?thesis
    using n next_start_settings [OF sample_unsaved n sample_SaveConfig [OF refl] k sample_store_ok refl refl]
    by (simp add: settings_of_def DefaultConfig_def sample_start_def)
qed

text \<open>A machine whose configuration file is broken.\<close>

definition broken_start :: start_env where
  "broken_start = sample_start\<lparr>se_GOOS := ''plan9''\<rparr>"

definition broken_store :: config_store where
  "broken_store = \<lparr>cg_fs = \<lparr>fs_root = FDir True [(''stellar'', FDir True [(''config.json'', FFile True 0)])],
     fs_data = [''{ whitelist: [a] }''], fs_cwd = []\<rparr>, cg_instance = None, cg_once = False\<rparr>"

lemma broken_load: "\<exists>e. loadConfigFromFile broken_start (cg_fs broken_store) = Inl e"
proof -
  have "map_sum (\<lambda>e. ()) (\<lambda>r. ()) (loadConfigFromFile broken_start (cg_fs broken_store)) = Inl ()" by code_simp
  then show ?thesis by (cases "loadConfigFromFile broken_start (cg_fs broken_store)") auto
qed

lemma broken_paths: "StellarPath broken_start = Inr ''/stellar''" "GetConfigPath broken_start = Inr ''/stellar/config.json''"
    "os_MkdirAll ''/stellar'' (cg_fs broken_store) = (None, cg_fs broken_store)"
    "fst (os_Create ''/stellar/config.json'' (cg_fs broken_store)) = Inr 0"
  by code_simp+

lemma broken_saved: "fst (SaveConfig broken_start c broken_store) = None"
proof -
  obtain fs where "os_Create ''/stellar/config.json'' (cg_fs broken_store) = (Inr 0, fs)" using broken_paths(4) by (metis prod.collapse)
  then show ?thesis by (simp add: SaveConfig_def saveUnlocked_def broken_paths(1-3) os_WriteFile_def)
qed

lemma only_file: "node_at (FDir w [(p, n)]) l = Some (FFile ok i) \<Longrightarrow> \<exists>l. node_at n l = Some (FFile ok i)"
  by (cases l) (auto split: if_splits)

lemma broken_store_ok: "fs_ok (cg_fs broken_store)"
proof -
  have "node_at (FFile True 0) l = Some (FFile ok i) \<Longrightarrow> i = 0" for l ok i by (cases l) auto
  then show ?thesis by (auto simp: fs_ok_def broken_store_def dest!: only_file)
qed

lemma broken_default_ok: "config_ok (DefaultConfig broken_start)"
  by code_simp

theorem unreadable_config_replaced_witness:
  "\<exists>s st c. node_settle broken_start [] broken_store = Inr (s, st) \<and> loadConfigFromFile broken_start (cg_fs st) = Inr (c, True)
    \<and> saved_peers broken_start st = [] \<and> cf_B64PrivKey c = ''key''"
proof -
  obtain e where e: "loadConfigFromFile broken_start (cg_fs broken_store) = Inl e" using broken_load by blast
  let ?s = "settings_of (DefaultConfig broken_start)"
  have n: "node_settle broken_start [] broken_store = Inr (?s, snd (SaveConfig broken_start (first_config ?s (DefaultConfig broken_start)) broken_store))"
    by (simp add: node_settle_def load_or_default_def e) (simp add: settings_of_def DefaultConfig_def)
  have k: "config_ok (first_config ?s (DefaultConfig broken_start))" using broken_default_ok by (simp add: config_ok_def first_config_def settings_of_def)
  have "ns_b64privkey ?s = ''key''" by (simp add: settings_of_def DefaultConfig_def broken_start_def sample_start_def)
  then show ?thesis
    using n unreadable_config_replaced [OF e n broken_saved k broken_store_ok refl] by fastforce
qed

end
