(* ===== verification/Adapters.thy ===== *)
theory Adapters
  imports Compute_Start File_Server Proxy_Ports Compute_Client Devices
begin

text \<open>
  The handlers that libp2p calls for an incoming stream, \<open>computeStreamHandler\<close> (\<open>p2p/protocols/compute/compute.go\<close>), \<open>fileStreamHandler\<close>
  (\<open>file/file.go\<close>) and \<open>streamHandler\<close> (\<open>proxy/handler.go\<close>), the dialler of the compute client, the goroutines of the port services
  (\<open>proxy/tcpProxy.go\<close>), and what becomes of the runs of a client whose connection ends.
\<close>

section \<open>Handlers\<close>

text \<open>A handler makes its server, waits for the handshake and serves: it returned early, stands somewhere, or closed its server at the end.\<close>

datatype 's handled = NoServer | Refused 's | Busy 's | Ended 's

definition serve_stream :: "'s option \<Rightarrow> ('s \<Rightarrow> unit rres \<times> 's option) \<Rightarrow> ('s \<Rightarrow> unit rres \<times> 's) \<Rightarrow> ('s \<Rightarrow> 's) \<Rightarrow> ('s \<Rightarrow> 's) \<Rightarrow> 's handled" where
  "serve_stream srv accept serve refuse finish = (case srv of
      None \<Rightarrow> NoServer
    | Some s \<Rightarrow> (case accept s of
        (_, None) \<Rightarrow> NoServer
      | (Blocked, Some s) \<Rightarrow> Busy s
      | (Fail _, Some s) \<Rightarrow> Refused (refuse s)
      | (Done _, Some s) \<Rightarrow> (case serve s of (Fail _, s) \<Rightarrow> Ended (finish s) | (_, s) \<Rightarrow> Busy s)))"

text \<open>The compute server is closed in every case, the others only after serving.  \<open>k\<close> bounds the requests that are looked at; \<open>now\<close>, \<open>ks\<close> and \<open>as\<close> belong to \<open>Close\<close>.\<close>

definition close_compute :: "bytes \<Rightarrow> bytes list \<Rightarrow> addr list \<Rightarrow> compute_server \<Rightarrow> compute_server" where
  "close_compute now ks as s = (case cs_Close now ks as (Some s) of (_, None) \<Rightarrow> s | (_, Some s) \<Rightarrow> s)"

definition computeStreamHandler :: "nat \<Rightarrow> bool \<Rightarrow> host \<Rightarrow> (raw_execution_request \<Rightarrow> raw_execution result) \<Rightarrow> conda_creator
    \<Rightarrow> (compute_server \<Rightarrow> compute_server) \<Rightarrow> bytes \<Rightarrow> bytes list \<Rightarrow> addr list \<Rightarrow> conn \<Rightarrow> compute_server handled" where
  "computeStreamHandler k timeout h exec creator between now ks as c =
     serve_stream (cs_NewServer (Some c)) (\<lambda>s. cs_Accept timeout (Some s)) (cs_Serve k False h exec creator between now)
       (close_compute now ks as) (close_compute now ks as)"

definition fileStreamHandler :: "nat \<Rightarrow> bool \<Rightarrow> addr list \<Rightarrow> bytes \<Rightarrow> filesys \<Rightarrow> conn \<Rightarrow> file_server handled" where
  "fileStreamHandler k timeout as dataDir fs c =
     serve_stream (fv_NewServer (Some c) dataDir fs) (\<lambda>s. fv_Accept timeout (Some s)) (fv_Serve k False) (\<lambda>s. s)
       (\<lambda>s. case bs_Close as (Some s) of (_, None) \<Rightarrow> s | (_, Some s) \<Rightarrow> s)"

definition proxyStreamHandler :: "nat \<Rightarrow> bool \<Rightarrow> bytes list \<Rightarrow> addr list \<Rightarrow> (bytes \<Rightarrow> conn result) \<Rightarrow> conn \<Rightarrow> proxy_server handled" where
  "proxyStreamHandler k timeout ks as dial c =
     serve_stream (ps_NewServer (Some c)) (\<lambda>s. ps_Accept timeout (Some s))
       (\<lambda>s. case ps_Serve k False ks dial (Some s) of (r, None) \<Rightarrow> (r, s) | (r, Some s) \<Rightarrow> (r, s)) (\<lambda>s. s)
       (\<lambda>s. case ps_Close ks as (Some s) of (_, None) \<Rightarrow> s | (_, Some s) \<Rightarrow> s)"

text \<open>\<open>DialComputeClient\<close>; \<open>stream\<close> is what \<open>NewStream\<close> returned.\<close>

definition DialComputeClient :: "bool \<Rightarrow> bytes \<Rightarrow> bytes \<Rightarrow> conn result \<Rightarrow> compute_client rres" where
  "DialComputeClient timeout self remote stream = (case stream of
      Inl e \<Rightarrow> Fail (Wrap (''open stream to '' @ remote) e)
    | Inr s \<Rightarrow> (case cc_NewClient self (Some s) of
        None \<Rightarrow> Fail (Err ''failed to create compute client'')
      | Some c \<Rightarrow> (case cc_Connect timeout (Some c) of
          (Done _, Some c) \<Rightarrow> Done c
        | (Fail e, _) \<Rightarrow> Fail (Wrap ''connect'' e)
        | _ \<Rightarrow> Blocked)))"

section \<open>Port services\<close>

text \<open>A tick of the goroutine that watches the device, for one service and for all of a manager.\<close>

definition watch_tick :: "bytes list \<Rightarrow> addr list \<Rightarrow> registry \<Rightarrow> proxy_service \<Rightarrow> proxy_service" where
  "watch_tick ks as r p = (if pv_done p then p else (case node_GetDevice (pv_Dest p) r of Inl _ \<Rightarrow> pv_Close ks as p | Inr _ \<Rightarrow> p))"

definition watch_all :: "bytes list \<Rightarrow> addr list \<Rightarrow> registry \<Rightarrow> proxy_manager \<Rightarrow> proxy_manager" where
  "watch_all ks as r m = m\<lparr>pm_objs := map (watch_tick ks as r) (pm_objs m)\<rparr>"

lemma watch_tick_done: "pv_done (watch_tick ks as r p) \<longleftrightarrow> pv_done p \<or> (\<exists>e. node_GetDevice (pv_Dest p) r = Inl e)"
    "pv_Dest (watch_tick ks as r p) = pv_Dest p" "pv_Port (watch_tick ks as r p) = pv_Port p"
  by (auto simp: watch_tick_def pv_Close_def Let_def split: sum.split option.split)

lemma watched_services:
  assumes "\<forall>a \<in> set (pm_proxies m). a < length (pm_objs m)"
  shows "pm_live (watch_all ks as r m) = filter (\<lambda>a. \<exists>d. node_GetDevice (pv_Dest (pm_objs m ! a)) r = Inr d) (pm_live m)"
proof -
  have "(\<exists>d. x = Inr d) \<longleftrightarrow> \<not> (\<exists>e. x = Inl e)" for x :: "device_info result" by (cases x) auto
  then show ?thesis
    using assms by (auto simp: pm_live_def watch_all_def pv_Done_def watch_tick_done filter_filter intro!: filter_cong)
qed

section \<open>The end of a connection\<close>

definition cancel_target :: "cancel_func \<Rightarrow> nat" where
  "cancel_target f = (case f of CancelContext e \<Rightarrow> e | CancelExecution e \<Rightarrow> e)"

definition runs_shape :: "compute_server \<Rightarrow> bool" where
  "runs_shape s \<longleftrightarrow> (\<forall>k i. cs_runs s k = Some i \<longrightarrow> i < length (cs_infos s) \<and> (\<forall>k'. cs_runs s k' = Some i \<longrightarrow> k' = k)
     \<and> cancel_ok (length (cs_execs s)) (ri_CancelFunc (cs_infos s ! i)))"

lemma cs_ok_shape: "cs_ok s \<Longrightarrow> runs_shape s"
  unfolding cs_ok_def runs_shape_def run_ok_def by (metis nth_mem)

text \<open>What the loop of \<open>Close\<close> has done after the runs \<open>ks\<close>.\<close>

definition closed_after :: "bytes set \<Rightarrow> compute_server \<Rightarrow> compute_server \<Rightarrow> bool" where
  "closed_after K s t \<longleftrightarrow> cs_runs t = cs_runs s \<and> length (cs_infos t) = length (cs_infos s) \<and> length (cs_execs t) = length (cs_execs s)
     \<and> (\<forall>e. ex_cancelled (cs_execs s ! e) \<longrightarrow> ex_cancelled (cs_execs t ! e))
     \<and> (\<forall>k i. cs_runs s k = Some i \<longrightarrow> ri_CancelFunc (cs_infos t ! i) = ri_CancelFunc (cs_infos s ! i)
         \<and> ri_Status (cs_infos t ! i) = (if k \<in> K \<and> ri_Status (cs_infos s ! i) = RunStatusRunning then RunStatusCanceled else ri_Status (cs_infos s ! i))
         \<and> (\<forall>f. k \<in> K \<and> ri_Status (cs_infos s ! i) = RunStatusRunning \<and> ri_CancelFunc (cs_infos s ! i) = Some f
              \<longrightarrow> ex_cancelled (cs_execs t ! cancel_target f)))"

lemma run_cancel_effect:
  "cs_runs (run_cancel f s) = cs_runs s" "cs_infos (run_cancel f s) = cs_infos s" "length (cs_execs (run_cancel f s)) = length (cs_execs s)"
  "ex_cancelled (cs_execs s ! e) \<Longrightarrow> ex_cancelled (cs_execs (run_cancel f s) ! e)"
  "cancel_ok (length (cs_execs s)) (Some f) \<Longrightarrow> ex_cancelled (cs_execs (run_cancel f s) ! cancel_target f)"
proof -
  have x: "ex_cancelled (cancel_context x)" "ex_cancelled (ex_Cancel x)" for x by (simp_all add: cancel_context_def ex_Cancel_def)
  show "ex_cancelled (cs_execs s ! e) \<Longrightarrow> ex_cancelled (cs_execs (run_cancel f s) ! e)"
    by (cases f) (auto simp: run_cancel_def upd_exec_def nth_list_update x)
qed (auto simp: run_cancel_def upd_exec_def cancel_ok_def cancel_target_def cancel_context_def ex_Cancel_def split: cancel_func.splits)

lemma close_run_effect:
  assumes "runs_shape s"
  shows "closed_after {k} s (close_run now k s)"
proof (cases "\<exists>i. cs_runs s k = Some i \<and> ri_Status (cs_infos s ! i) = RunStatusRunning")
  case False
  then have "close_run now k s = s" by (auto simp: close_run_def split: option.split)
  then show ?thesis using False by (auto simp: closed_after_def)
next
  case True
  then obtain i where i: "cs_runs s k = Some i" "ri_Status (cs_infos s ! i) = RunStatusRunning" by blast
  have shape: "i < length (cs_infos s)" "cancel_ok (length (cs_execs s)) (ri_CancelFunc (cs_infos s ! i))"
    "\<And>k' j. cs_runs s k' = Some j \<Longrightarrow> j = i \<longleftrightarrow> k' = k"
    using assms i(1) by (auto simp: runs_shape_def)
  let ?u = "upd_info i (\<lambda>r. r\<lparr>ri_Status := RunStatusCanceled, ri_EndTime := Some now\<rparr>) s"
  let ?v = "case ri_CancelFunc (cs_infos s ! i) of None \<Rightarrow> ?u | Some f \<Rightarrow> run_cancel f ?u"
  have u: "cs_runs ?u = cs_runs s" "cs_execs ?u = cs_execs s"
    "cs_infos ?u = (cs_infos s)[i := (cs_infos s ! i)\<lparr>ri_Status := RunStatusCanceled, ri_EndTime := Some now\<rparr>]"
    using shape(1) by (simp_all add: upd_info_def)
  have "closed_after {k} s ?v"
    using i shape u run_cancel_effect [where s = ?u]
    by (auto simp: closed_after_def nth_list_update split: option.split)
  moreover have "close_run now k s = emit_status (ri_RunID (cs_infos ?v ! i)) i ?v"
    using i shape(1) by (simp add: close_run_def Let_def u(3))
  ultimately show ?thesis by (simp add: closed_after_def emit_fields)
qed

lemma closed_trans:
  assumes "closed_after K s t" "closed_after L t u"
  shows "closed_after (K \<union> L) s u"
  using assms unfolding closed_after_def by (auto split: if_splits)

lemma closed_shape: "closed_after K s t \<Longrightarrow> runs_shape s \<Longrightarrow> runs_shape t"
  by (auto simp: closed_after_def runs_shape_def)

lemma close_runs_effect: "runs_shape s \<Longrightarrow> closed_after (set ks) s (fold (close_run now) ks s)"
proof (induction ks arbitrary: s)
  case Nil
  then show ?case by (simp add: closed_after_def)
next
  case (Cons k ks)
  note one = close_run_effect [OF Cons.prems, of k now]
  then have "closed_after ({k} \<union> set ks) s (fold (close_run now) ks (close_run now k s))"
    using Cons.IH [OF closed_shape [OF one Cons.prems]] by (rule closed_trans)
  then show ?case by simp
qed


lemma Close_returns: "\<exists>e s'. cs_Close now ks as (Some s) = (e, Some s')"
proof -
  have "\<exists>e m. x = (e, m)" for x :: "goerr option \<times> mux option" by (cases x) simp
  then show ?thesis unfolding cs_Close_def bs_Close_def Let_def by (auto split: prod.split option.split)
qed


end
