(* ===== verification/Api_Routes.thy ===== *)
theory Api_Routes
  imports Api_Compute
begin

text \<open>
  The routes of the HTTP interface and the pages behind them, \<open>APIServer.Start\<close> of \<open>core/socket/socket.go\<close>.  The router is gin's: a path is
  handled by the route whose segments it has, a parameter stands for a segment that is not empty, and a path that has a route but for a
  slash at its end is redirected.  The embedded files are a parameter.
\<close>

section \<open>Routes\<close>

datatype api_endpoint =
    EGetHealth | EGetNodeInfo | EConnectToPeer | EGetDevices | EGetDevice | EGetDeviceTree | EPingDevice | EGetDeviceInfo
  | EListFiles | EDownloadFile | EUploadFile | EUploadFileRaw | EDownloadFileRaw
  | EExecuteCommand | EListComputeRuns | EGetComputeRun | ECancelComputeRun | EDeleteComputeRun
  | EStreamStdout | EStreamStderr | EStreamLogs | ESendStdin
  | ECreateProxy | EListProxies | ECloseProxy
  | EGetPolicy | ESetPolicy | EGetPolicyWhiteList | EAddPolicyWhiteList | ERemovePolicyWhiteList
  | EIndex

datatype http_method = GET | POST | DELETE | OtherMethod bytes

datatype segment = Static bytes | Param

type_synonym route = "http_method \<times> segment list \<times> api_endpoint"

definition device_path :: "segment list \<Rightarrow> segment list" where
  "device_path r = Static ''devices'' # Param # r"

definition runs_path :: "segment list \<Rightarrow> segment list" where
  "runs_path r = device_path (Static ''compute'' # Static ''runs'' # r)"

definition routes :: "route list" where
  "routes =
    [(GET, [Static ''health''], EGetHealth),
     (GET, [Static ''node''], EGetNodeInfo),
     (POST, [Static ''connect''], EConnectToPeer),
     (GET, [Static ''devices''], EGetDevices),
     (GET, device_path [], EGetDevice),
     (GET, device_path [Static ''tree''], EGetDeviceTree),
     (POST, device_path [Static ''ping''], EPingDevice),
     (GET, device_path [Static ''info''], EGetDeviceInfo),
     (GET, device_path [Static ''files''], EListFiles),
     (GET, device_path [Static ''files'', Static ''download''], EDownloadFile),
     (POST, device_path [Static ''files'', Static ''upload''], EUploadFile),
     (POST, device_path [Static ''files'', Static ''upload'', Static ''raw''], EUploadFileRaw),
     (GET, device_path [Static ''files'', Static ''download'', Static ''raw''], EDownloadFileRaw),
     (POST, device_path [Static ''compute'', Static ''execute''], EExecuteCommand),
     (GET, runs_path [], EListComputeRuns),
     (GET, runs_path [Param], EGetComputeRun),
     (POST, runs_path [Param, Static ''cancel''], ECancelComputeRun),
     (DELETE, runs_path [Param], EDeleteComputeRun),
     (GET, runs_path [Param, Static ''stdout''], EStreamStdout),
     (GET, runs_path [Param, Static ''stderr''], EStreamStderr),
     (GET, runs_path [Param, Static ''logs''], EStreamLogs),
     (POST, runs_path [Param, Static ''stdin''], ESendStdin),
     (POST, [Static ''proxy''], ECreateProxy),
     (GET, [Static ''proxy''], EListProxies),
     (DELETE, [Static ''proxy'', Param], ECloseProxy),
     (GET, [Static ''policy''], EGetPolicy),
     (POST, [Static ''policy''], ESetPolicy),
     (GET, [Static ''policy'', Static ''whitelist''], EGetPolicyWhiteList),
     (POST, [Static ''policy'', Static ''whitelist''], EAddPolicyWhiteList),
     (DELETE, [Static ''policy'', Static ''whitelist''], ERemovePolicyWhiteList),
     (GET, [Static []], EIndex)]"

fun seg_match :: "segment \<Rightarrow> bytes \<Rightarrow> bool" where
  "seg_match (Static p) s = (s = p)"
| "seg_match Param s = (s \<noteq> [])"

definition route_match :: "http_method \<Rightarrow> bytes list \<Rightarrow> route \<Rightarrow> bool" where
  "route_match m segs r = (case r of (m', ps, _) \<Rightarrow> m = m' \<and> list_all2 seg_match ps segs)"

definition params_of :: "segment list \<Rightarrow> bytes list \<Rightarrow> bytes list" where
  "params_of ps segs = map snd (filter (\<lambda>x. fst x = Param) (zip ps segs))"

datatype dispatched = Endpoint api_endpoint "bytes list" | Redirect bytes | NoRoute

definition path_route :: "http_method \<Rightarrow> bytes \<Rightarrow> (api_endpoint \<times> bytes list) option" where
  "path_route m path = (case path of
      [] \<Rightarrow> None
    | _ # r \<Rightarrow> (let segs = split_on CHR ''/'' r in
        map_option (\<lambda>(_, ps, e). (e, params_of ps segs)) (find (route_match m segs) routes)))"

definition dispatch :: "http_method \<Rightarrow> bytes \<Rightarrow> dispatched" where
  "dispatch m path = (case path_route m path of
      Some (e, as) \<Rightarrow> Endpoint e as
    | None \<Rightarrow>
        if path \<noteq> [] \<and> last path = CHR ''/'' \<and> path_route m (butlast path) \<noteq> None then Redirect (butlast path)
        else NoRoute)"

section \<open>Pages\<close>

text \<open>\<open>fs.ValidPath\<close>, up to the encoding of the text, for the path of a file.\<close>

definition valid_path :: "bytes \<Rightarrow> bool" where
  "valid_path p \<longleftrightarrow> list_all (\<lambda>s. s \<notin> set [[], ''.'', ''..'']) (split_on CHR ''/'' p)"

text \<open>The files below \<open>dist\<close>, when its index is there.\<close>

definition dist_file :: "(bytes \<Rightarrow> bytes option) \<Rightarrow> bytes \<Rightarrow> bytes option" where
  "dist_file embedded p = (if valid_path p then embedded (''dist/'' @ p) else None)"

definition staticFS :: "(bytes \<Rightarrow> bytes option) \<Rightarrow> (bytes \<Rightarrow> bytes option) option" where
  "staticFS embedded = (if dist_file embedded ''index.html'' = None then None else Some (dist_file embedded))"

definition getContentType :: "bytes \<Rightarrow> bytes" where
  "getContentType p =
     (if suffix ''.js'' p then ''application/javascript''
      else if suffix ''.css'' p then ''text/css''
      else if suffix ''.json'' p then ''application/json''
      else if suffix ''.html'' p then ''text/html; charset=utf-8''
      else if suffix ''.png'' p then ''image/png''
      else if suffix ''.jpg'' p \<or> suffix ''.jpeg'' p then ''image/jpeg''
      else if suffix ''.svg'' p then ''image/svg+xml''
      else if suffix ''.ico'' p then ''image/x-icon''
      else ''application/octet-stream'')"

text \<open>An answer is a status with a content type and a body; \<open>fallback\<close> is the page for a build without frontend.\<close>

type_synonym page = "nat \<times> bytes \<times> bytes"

definition full_file :: "bytes option \<Rightarrow> bool" where
  "full_file f \<longleftrightarrow> f \<noteq> None \<and> f \<noteq> Some []"

definition serveIndexOrFallback :: "bytes \<Rightarrow> (bytes \<Rightarrow> bytes option) \<Rightarrow> (bytes \<Rightarrow> bytes option) option \<Rightarrow> page" where
  "serveIndexOrFallback fallback embedded static = (let html = ''text/html; charset=utf-8'' in
     (case static of
        None \<Rightarrow> (200, html, fallback)
      | Some fs \<Rightarrow>
          if full_file (fs ''index.html'') then (200, html, the (fs ''index.html''))
          else if full_file (embedded ''dist/index.html'') then (200, html, the (embedded ''dist/index.html''))
          else (200, html, fallback)))"

definition api_prefixes :: "bytes list" where
  "api_prefixes = [''/health'', ''/node'', ''/devices'', ''/proxy'', ''/policy'', ''/connect'']"

definition no_route :: "bytes \<Rightarrow> (bytes \<Rightarrow> bytes option) \<Rightarrow> bytes \<Rightarrow> page" where
  "no_route fallback embedded path =
     (if list_ex (\<lambda>p. prefix p path) api_prefixes then (404, [], [])
      else (let static = staticFS embedded;
                fsPath = trim_prefix ''/'' path;
                fsPath = (if fsPath = [] then ''index.html'' else fsPath)
            in (case static of
                  None \<Rightarrow> serveIndexOrFallback fallback embedded static
                | Some fs \<Rightarrow>
                    if full_file (fs fsPath) then (200, getContentType fsPath, the (fs fsPath))
                    else serveIndexOrFallback fallback embedded static)))"

section \<open>Every endpoint is reached\<close>

text \<open>The path of a route with values for its parameters.\<close>

fun fill :: "segment list \<Rightarrow> bytes list \<Rightarrow> bytes list" where
  "fill [] as = []"
| "fill (Static p # ps) as = p # fill ps as"
| "fill (Param # ps) [] = [] # fill ps []"
| "fill (Param # ps) (a # as) = a # fill ps as"

definition route_path :: "segment list \<Rightarrow> bytes list \<Rightarrow> bytes" where
  "route_path ps as = CHR ''/'' # join_with ''/'' (fill ps as)"

definition param_count :: "segment list \<Rightarrow> nat" where
  "param_count ps = length (filter (\<lambda>p. p = Param) ps)"

definition plain_values :: "bytes list \<Rightarrow> bool" where
  "plain_values as \<longleftrightarrow> (\<forall>a \<in> set as. a \<noteq> [] \<and> CHR ''/'' \<notin> set a)"

text \<open>Two patterns that a path can match both.\<close>

fun overlap :: "segment list \<Rightarrow> segment list \<Rightarrow> bool" where
  "overlap [] [] = True"
| "overlap (Static p # ps) (Static q # qs) = (p = q \<and> overlap ps qs)"
| "overlap (Static p # ps) (Param # qs) = (p \<noteq> [] \<and> overlap ps qs)"
| "overlap (Param # ps) (Static q # qs) = (q \<noteq> [] \<and> overlap ps qs)"
| "overlap (Param # ps) (Param # qs) = overlap ps qs"
| "overlap _ _ = False"

lemma both_overlap: "list_all2 seg_match ps segs \<Longrightarrow> list_all2 seg_match qs segs \<Longrightarrow> overlap ps qs"
  by (induction ps qs arbitrary: segs rule: overlap.induct) (auto simp: list_all2_Cons1)

fun apart :: "route list \<Rightarrow> bool" where
  "apart [] = True"
| "apart (r # rs) = (list_all (\<lambda>r'. fst r = fst r' \<longrightarrow> \<not> overlap (fst (snd r)) (fst (snd r'))) rs \<and> apart rs)"

lemma overlap_sym: "overlap ps qs = overlap qs ps"
  by (induction ps qs rule: overlap.induct) auto

lemma apart_pair: "apart rs \<Longrightarrow> r \<in> set rs \<Longrightarrow> r' \<in> set rs \<Longrightarrow> fst r = fst r' \<Longrightarrow> overlap (fst (snd r)) (fst (snd r')) \<Longrightarrow> r = r'"
  by (induction rs) (auto simp: list_all_iff overlap_sym)

lemma routes_apart: "apart routes"
  by (simp add: routes_def device_path_def runs_path_def)

lemma one_route:
  assumes "r \<in> set routes" "r' \<in> set routes" "route_match m segs r" "route_match m segs r'"
  shows "r = r'"
proof (rule apart_pair [OF routes_apart assms(1,2)])
  show "fst r = fst r'" using assms(3,4) by (auto simp: route_match_def split: prod.splits)
  show "overlap (fst (snd r)) (fst (snd r'))"
    using assms(3,4) by (auto simp: route_match_def split: prod.splits intro: both_overlap)
qed

lemma fill_not_Nil: "ps \<noteq> [] \<Longrightarrow> fill ps as \<noteq> []"
  by (induction ps as rule: fill.induct) auto

lemma fill_match:
  "length as = param_count ps \<Longrightarrow> plain_values as \<Longrightarrow> list_all2 seg_match ps (fill ps as) \<and> params_of ps (fill ps as) = as"
  by (induction ps as rule: fill.induct) (auto simp: param_count_def plain_values_def params_of_def)

lemma fill_plain:
  "plain_values as \<Longrightarrow> \<forall>p. Static p \<in> set ps \<longrightarrow> CHR ''/'' \<notin> set p \<Longrightarrow> \<forall>s \<in> set (fill ps as). CHR ''/'' \<notin> set s"
  by (induction ps as rule: fill.induct) (auto simp: plain_values_def)

lemma routes_plain: "list_all (\<lambda>r. fst (snd r) \<noteq> [] \<and> list_all (\<lambda>p. case p of Static t \<Rightarrow> CHR ''/'' \<notin> set t | Param \<Rightarrow> True) (fst (snd r))) routes"
  by (simp add: routes_def device_path_def runs_path_def)

lemma find_unique:
  assumes "x \<in> set xs" "P x" "\<And>y. y \<in> set xs \<Longrightarrow> P y \<Longrightarrow> y = x"
  shows "find P xs = Some x"
  using assms
proof (induction xs)
  case (Cons a xs)
  show ?case
  proof (cases "P a")
    case True
    then have "a = x" by (intro Cons.prems(3)) simp
    then show ?thesis using True by simp
  next
    case False
    then have x: "x \<in> set xs" using Cons.prems(1,2) by auto
    have "find P xs = Some x" by (rule Cons.IH [OF x Cons.prems(2)]) (rule Cons.prems(3), simp_all)
    then show ?thesis using False by simp
  qed
qed simp

text \<open>
  Every endpoint is reached, and by its own path alone: a request with the method of a route and its path, filled with values that are neither
  empty nor contain a slash, is handled by the endpoint of this route with these values, whatever the order of the routes.
\<close>

lemma endpoint_reached_ok:
  assumes "(m, ps, e) \<in> set rs" "set rs = set routes" "length as = param_count ps" "plain_values as"
  shows "dispatch m (route_path ps as) = Endpoint e as
    \<and> find (route_match m (split_on CHR ''/'' (tl (route_path ps as)))) rs = Some (m, ps, e)"
proof -
  have r: "(m, ps, e) \<in> set routes" using assms(1,2) by simp
  have "ps \<noteq> [] \<and> list_all (\<lambda>p. case p of Static t \<Rightarrow> CHR ''/'' \<notin> set t | Param \<Rightarrow> True) ps"
    using routes_plain r unfolding list_all_iff [of _ routes] by (metis fst_conv snd_conv)
  then have p: "ps \<noteq> []" "\<forall>p. Static p \<in> set ps \<longrightarrow> CHR ''/'' \<notin> set p" by (auto simp: list_all_iff)
  have f: "fill ps as \<noteq> []" using p(1) by (rule fill_not_Nil)
  have s: "split_on CHR ''/'' (join_with ''/'' (fill ps as)) = fill ps as"
    by (rule split_join [OF f]) (use fill_plain [OF assms(4) p(2)] in blast)
  note m = fill_match [OF assms(3,4)]
  have match: "route_match m (fill ps as) (m, ps, e)" using m by (simp add: route_match_def)
  have u: "find (route_match m (fill ps as)) xs = Some (m, ps, e)" if "set xs = set routes" for xs
    by (rule find_unique) (use that r match one_route in auto)
  then show ?thesis using m s assms(2) by (simp add: route_path_def dispatch_def path_route_def)
qed

lemma endpoint_reached_example:
  "dispatch GET ''/devices/12D3/compute/runs/r1/stdout'' = Endpoint EStreamStdout [''12D3'', ''r1'']"
proof -
  have "(GET, runs_path [Param, Static ''stdout''], EStreamStdout) \<in> set routes" by (simp add: routes_def)
  from endpoint_reached_ok [OF this refl, of "[''12D3'', ''r1'']"] show ?thesis
    by (simp add: param_count_def plain_values_def route_path_def runs_path_def device_path_def)
qed

text \<open>The links to its output that the answer to a new run holds lead to the endpoints of this run.\<close>

lemma links_lead_to_run:
  assumes "plain_values [deviceID, runID]" "(name, e) \<in> {(''stdout'', EStreamStdout), (''stderr'', EStreamStderr), (''logs'', EStreamLogs)}"
  shows "\<exists>path. endpoint deviceID runID name = JStr path \<and> dispatch GET path = Endpoint e [deviceID, runID]"
proof -
  have r: "(GET, runs_path [Param, Static name], e) \<in> set routes" using assms(2) by (auto simp: routes_def)
  have p: "route_path (runs_path [Param, Static name]) [deviceID, runID] = ''/devices/'' @ deviceID @ ''/compute/runs/'' @ runID @ ''/'' @ name"
    by (simp add: route_path_def runs_path_def device_path_def)
  have "length [deviceID, runID] = param_count (runs_path [Param, Static name])" by (simp add: param_count_def runs_path_def device_path_def)
  from endpoint_reached_ok [OF r refl this assms(1)] p show ?thesis by (simp add: endpoint_def)
qed

text \<open>A path of the frontend that begins like an endpoint is not served.\<close>

lemma lookalike_not_served: "fst (no_route fallback (\<lambda>p. if p = ''dist/nodes.js'' \<or> p = ''dist/index.html'' then Some ''x'' else None) ''/nodes.js'') = 404"
  by (simp add: no_route_def api_prefixes_def)

lemma other_paths_served:
  "\<not> list_ex (\<lambda>p. prefix p path) api_prefixes \<Longrightarrow> fst (no_route fallback embedded path) = 200"
  by (auto simp: no_route_def serveIndexOrFallback_def Let_def split: option.split)

end
