(* ===== verification/Spec2Isabelle.thy ===== *)
theory Spec2Isabelle
  imports Stream_Races Proxy_Ports File_Requests Compute_Agreement Cmdline Policy Api_Lifecycle Device_Health Conda_Safety Api_Endpoints
    Cli_Conda Node_Command Adapters Api_Routes
begin

text \<open>
  Verification of STellar, a peer-to-peer tool in Go that lets devices run commands on each other, exchange
  files and forward TCP ports.  Two devices share one libp2p connection per protocol; a multiplexer carries
  numbered streams over it, stream 0 carries the packets of the protocol, and a server and a client talk in
  requests, responses and events.  Around this, a node keeps a list of the devices it knows, guards its
  protocols with a whitelist, reads a configuration, and offers its operations over HTTP.  The development
  models these parts: everything from the bytes on the connection to the operations of the protocols, and
  what is kept above them.  Paths below are relative to \<open>src/\<close>.

  \<^bold>\<open>Theories and what they model\<close>

  \<^item> Vocabulary: \<open>Go_Prelude\<close> (bytes, errors, big-endian numbers, decimal text), \<open>Go_IO\<close> (\<open>io.Reader\<close>,
    \<open>io.Writer\<close>, \<open>io.ReadFull\<close>, connections with any chunking and short writes), \<open>Json\<close> and \<open>Json_Struct\<close>
    (\<open>encoding/json\<close>, \<open>encoding/base64\<close>), \<open>Go_Strings\<close> (\<open>strings\<close>, \<open>path/filepath\<close>), \<open>Go_Copy\<close> (\<open>io.Copy\<close>),
    \<open>Go_Hash\<close> (\<open>crypto/sha256\<close>), \<open>Filesystem\<close> and \<open>File_Ops\<close> (what \<open>os\<close> does to a tree of files).
  \<^item> Packets and messages, \<open>p2p/protocols/common/protocol\<close>: \<open>Packet\<close>, \<open>Messages\<close>, \<open>Message_Codecs\<close>, \<open>Handshake\<close>.
  \<^item> Multiplexer, \<open>p2p/protocols/common/multiplexer\<close>: \<open>Streams\<close> (reader and writer of one stream), \<open>Stream_Races\<close>
    (interleavings of its goroutines), \<open>Multiplexer\<close> (all operations, read loop), \<open>Mux_Invariant\<close>,
    \<open>Mux_Frames\<close>, \<open>Mux_Transport\<close>.
  \<^item> Service bases, \<open>p2p/protocols/common/control_plane\<close> and \<open>service\<close>: \<open>Control_Plane\<close>, \<open>Base_Server\<close>,
    \<open>Base_Client\<close>, \<open>Handshake_Agreement\<close>, \<open>Service_Replies\<close>.
  \<^item> TCP forwarding, \<open>p2p/protocols/proxy\<close>: \<open>Proxy_Manager\<close>, \<open>Proxy_Server\<close>, \<open>Proxy_Client\<close>, \<open>Proxy_Ports\<close>.
  \<^item> Files, \<open>p2p/protocols/file\<close>: \<open>File_Server\<close>, \<open>File_Client\<close>, \<open>File_Transfer\<close>, \<open>File_Agreement\<close>, \<open>File_Requests\<close>.
  \<^item> Commands, \<open>p2p/protocols/compute/service\<close>: \<open>Exec_Env\<close> (environment and look-up), \<open>Executions\<close> (processes
    with pipes and result channels, conda wrapper), \<open>Compute_Server\<close> (requests and goroutines),
    \<open>Compute_Runs\<close> (life of a run), \<open>Compute_Start\<close>, \<open>Compute_Output\<close>, \<open>Compute_Client\<close>, \<open>Compute_Agreement\<close>.
  \<^item> Conda, \<open>p2p/protocols/compute/service/conda\<close>: \<open>Conda_Env\<close> (finding conda, reading its list of environments),
    \<open>Conda_Download\<close>, \<open>Conda_Ops\<close> (the operations), \<open>Conda_Client\<close> (installing the client package, subcommands),
    \<open>Conda_Safety\<close>; \<open>Cli_Conda\<close> is the command of \<open>cmd/stellar/conda.go\<close>.
  \<^item> Devices, \<open>p2p/protocols/echo\<close> and \<open>p2p/node\<close>: \<open>Echo\<close> (the echo protocol and the JSON of a device), \<open>Devices\<close>
    (discovery, connection, relays, health checks), \<open>Device_Health\<close> (their interleavings).
  \<^item> Starting, \<open>cmd/stellar\<close>, \<open>core/device\<close>, \<open>p2p/bootstrap\<close>, \<open>p2p/identity\<close>: \<open>Bootstrap\<close> (keys, bootstrap nodes),
    \<open>Node_Start\<close> (the node and its threads, the device), \<open>Node_Command\<close> (flags, first start, who is admitted),
    over \<open>Go_Flags\<close> (\<open>flag\<close>, \<open>strconv\<close>); \<open>Adapters\<close> are the handlers that libp2p calls for a stream, the watch of
    port services, and the end of a connection.
  \<^item> Settings: \<open>Policy\<close> (\<open>p2p/policy\<close>), \<open>Config\<close> (\<open>core/config\<close>, \<open>core/constant\<close>), over \<open>Json_Indent\<close>
    (\<open>json.MarshalIndent\<close>); \<open>Cmdline\<close> (\<open>core/utils\<close>), over \<open>Go_Runes\<close> (runes of a string).
  \<^item> The HTTP interface, \<open>core/socket\<close>: for commands \<open>Api_Runs\<close> (the run table and its buffers), \<open>Api_Compute\<close>
    (the handlers), \<open>Api_Flow\<close> (requests and goroutines as steps), \<open>Api_Lifecycle\<close>; for devices, whitelist, files
    and proxies \<open>Api_Node\<close> (the handlers) and \<open>Api_Endpoints\<close>; \<open>Api_Routes\<close> (routes and pages).

  \<^bold>\<open>How state and operations correspond\<close>

  A struct is a record with its fields, in the order of the source; a pointer that is shared is an index
  into a list of objects kept by the owner (streams of a multiplexer, proxies, runs, executions, handles).
  A method takes the state and returns result and state; an error is a value \<open>Inl e\<close> or \<open>Some e\<close>, a call that
  may have to wait returns \<open>Blocked\<close> and leaves the state as it is.  A goroutine is a phase in the state and
  a function that does its next round; the interleaving of goroutines, requests and the connection is a
  step relation (\<open>race_step\<close>, \<open>mux_reach\<close>, \<open>client_reach\<close>, \<open>manager_reach\<close>, \<open>ports_reach\<close>, \<open>compute_step\<close>,
  \<open>client_step\<close>, \<open>api_reach\<close>, \<open>node_step\<close>) whose steps are whole critical sections.  The order in which a map is visited is an
  argument, and the theorems hold for every order.  Stream identifiers are 32 bit words and request numbers 64
  bit words, with their wrap-around; Go's \<open>int\<close> is \<open>int\<close>, within 64 bits where it is encoded.

  \<^bold>\<open>Interfaces\<close>

  The locales state what one layer asks of the next and are interpreted on the model: byte sources and
  sinks of \<open>Go_IO\<close> (connections, streams), \<open>struct_codec\<close>, \<open>payload_codec\<close> and \<open>message\<close> (every message type),
  \<open>table\<close> (maps of streams and proxies), \<open>handshake_protocol\<close> (the three protocols), and the copy loops of
  \<open>Go_Copy\<close>.

  \<^bold>\<open>What the lemmas show\<close>

  \<^item> Transport: identifiers of streams stay distinct and the read loop does not panic without a race;
    each stream carries its bytes in order to its end through any chunking; packets and messages are read
    back as written; connection failures are reported, or in the documented cases are not.
  \<^item> Services: handshakes of all protocols agree; every request is answered once, by the packet it claims;
    the end of the dispatcher answers all.
  \<^item> Proxies: opening agrees on the stream at both ends, forwarding is lossless, a proxy that is
    not registered has no open stream in the histories of a manager, but a failed opening and a removal leave
    connections open; ports of a node are distinct.
  \<^item> Files: uploads and downloads arrive unchanged or are removed, a listing is the directory tree, requests
    without parent steps stay inside the data directory, with them they do not.
  \<^item> Commands: a run starts with the right streams and environment at both ends, its output and its exit code
    reach the caller, its status follows the life cycle (an abstract relation that the server refines), a
    handle completes once; the end of a connection cancels what still runs; and the cases in which a result or a handle is lost.
  \<^item> Conda: nothing is started in an environment that is not listed, the list is read back, the directory of an
    installation is removed on every path, and a download keeps whatever arrived.
  \<^item> Devices: a listed device is another one that answered under its own identifier; what a round of checks
    leaves; a node that runs this program is listed with its own information.
  \<^item> Settings: the whitelist decides who reaches a handler and survives a restart, a configuration is read
    back up to its zero values, a command line is read back as its words.
  \<^item> Starting: who a started node admits, however its connections interleave; what the next start keeps of the
    settings and what an unreadable configuration loses; flags without effect; keys and bootstrap nodes are read back.
  \<^item> HTTP interface: output endpoints answer with what the command wrote, the status of a run tells its end,
    the server survives every sequence of requests that deletes ended runs only, and a deletion that crashes it;
    a downloaded file carries what was fetched and leaves no trace, proxies are listed from creation to closing,
    and every endpoint is reached by its own path alone.

  \<^bold>\<open>Bounds and fuel\<close>

  Loops are total functions with a measure (\<open>writeFull\<close>, \<open>read_full\<close>, the parsers) or rounds iterated by the
  theorem that uses them; the search of \<open>OpenStream\<close> is a \<open>partial_function\<close> because it need not end, and the
  JSON reader takes its nesting bound of 10000 from \<open>encoding/json\<close>.  Directory recursion has the height of
  the tree as fuel, which \<open>listing_is_tree\<close> shows to be enough.  Packets are bounded by the 10 MiB the reader
  accepts; the bounds on texts in hypotheses (for example 10000 bytes for an identifier) keep a response
  below that.

  \<^bold>\<open>What is not modelled\<close>

  \<^item> libp2p, the operating system's processes, dialling and clocks: parameters of the definitions that use them
    (\<open>dial\<close>, \<open>exec\<close>, \<open>now\<close>, \<open>host\<close>, \<open>network\<close>, \<open>conda_system\<close>); to the compute server the conda operations are one too.
  \<^item> What the libp2p host does with its options, its routing and its relay finder in \<open>p2p/node\<close>, \<open>core/gui\<close>,
    the log files of \<open>cmd\<close>: calls into libp2p, fyne and zap.  In \<open>core/socket\<close> the listener;
    the framework decodes requests and recovers panics.  Mocks and test helpers are left out.
  \<^item> Logging, and the exact text of errors of the operating system and of \<open>encoding/json\<close>.
  \<^item> A repeated member of a JSON object decodes into a fresh value, not into the one decoded before.
  \<^item> The file tree has no symbolic links and is changed by the program only, and by the commands conda runs; paths are those of Unix, except
    in \<open>Exec_Env\<close>, where the host is a parameter.
\<close>

end
